(* ===== verification/Prelude.thy ===== *)
theory Prelude
  imports Main "HOL-Library.Word" "HOL-Library.Signed_Division"
begin

section \<open>Shared vocabulary of the model\<close>

text \<open>
  The types every component uses and the lemmas they share.
  A C++ unsigned integer of \<open>w\<close> bits is a \<open>w word\<close>; a signed one is the same word read with
  \<open>sint\<close>. A byte vector or a byte view is a list of 8-bit words, a \<open>std::string\<close> the list of
  its bytes. A \<open>double\<close> or \<open>float\<close> that the code only moves around with \<open>memcpy\<close> is its
  IEEE-754 bit pattern (arithmetic on doubles is in the theory \<open>Float64\<close>).
  \<open>Expected<T>\<close> is a sum: \<open>Inl\<close> the error message, \<open>Inr\<close> the value.
\<close>

unbundle bit_operations_syntax

text \<open>
  The definitions that evaluate a decoder on written bytes: those of a \<open>parseFields\<close> handler, and
  those of a field loop that is written out by hand.
\<close>

named_theorems field_actions "the actions of a handler and the loop pass they run in"
named_theorems scan_actions "the actions of a hand-written field loop"

type_synonym u8 = "8 word"
type_synonym u16 = "16 word"
type_synonym u32 = "32 word"
type_synonym u64 = "64 word"
type_synonym bytes = "u8 list"

text \<open>Bit patterns of \<open>double\<close> and \<open>float\<close>, and the signed 64-bit timestamp word.\<close>

type_synonym f64 = "64 word"
type_synonym f32 = "32 word"
type_synonym Timestamp = "64 word"

text \<open>
  A byte buffer argument \<open>(const uint8_t* data, size_t size)\<close>: a null pointer with any size,
  or the \<open>size\<close> bytes at a valid pointer.
\<close>

datatype buffer = NullBuffer nat | Buffer bytes

fun buffer_size :: "buffer \<Rightarrow> nat" where
  "buffer_size (NullBuffer n) = n"
| "buffer_size (Buffer bs) = length bs"

fun buffer_bytes :: "buffer \<Rightarrow> bytes" where
  "buffer_bytes (NullBuffer n) = []"
| "buffer_bytes (Buffer bs) = bs"

text \<open>\<open>data == nullptr || size == 0\<close>\<close>

fun buffer_missing :: "buffer \<Rightarrow> bool" where
  "buffer_missing (NullBuffer n) = True"
| "buffer_missing (Buffer bs) = (bs = [])"

text \<open>
  \<open>BufferAnchor\<close> is a shared pointer that keeps the bytes of a span alive: none, one that owns a
  fresh copy of the bytes, or the one the caller passed in (named by a number).
\<close>

datatype anchor = NoAnchor | OwnedCopy bytes | CallerAnchor nat

text \<open>Byte counts fit in the 64-bit \<open>size_t\<close> of the code.\<close>

definition fits :: "bytes \<Rightarrow> bool" where
  "fits bs \<longleftrightarrow> length bs < 2 ^ 64"

lemma fits_Nil [simp]: "fits []"
  by (simp add: fits_def)

lemma fits_appendD:
  assumes "fits (xs @ ys)"
  shows "fits xs" and "fits ys"
  using assms by (auto simp: fits_def)

lemma fits_mono: "fits ys \<Longrightarrow> length xs \<le> length ys \<Longrightarrow> fits xs"
  by (simp add: fits_def)

lemma fits_short: "length bs < 400 \<Longrightarrow> fits bs"
  by (simp add: fits_def)

lemma unat_of_nat_length [simp]: "fits bs \<Longrightarrow> unat (of_nat (length bs) :: u64) = length bs"
  by (simp add: fits_def unat_of_nat take_bit_nat_eq_self)

subsection \<open>Fallible results\<close>

definition bindE :: "'e + 'a \<Rightarrow> ('a \<Rightarrow> 'e + 'b) \<Rightarrow> 'e + 'b" where
  "bindE x f = (case x of Inl e \<Rightarrow> Inl e | Inr a \<Rightarrow> f a)"

lemma bindE_simps [simp]: "bindE (Inl e) f = Inl e" "bindE (Inr a) f = f a"
  by (simp_all add: bindE_def)

lemma bindE_eq_Inr: "bindE x f = Inr b \<longleftrightarrow> (\<exists>a. x = Inr a \<and> f a = Inr b)"
  by (cases x) simp_all

text \<open>A condition that must not hold: \<open>if (bad) return unexpected(message)\<close>.\<close>

definition refuse :: "bool \<Rightarrow> 'e \<Rightarrow> 'e + 'a \<Rightarrow> 'e + 'a" where
  "refuse bad message continue = (if bad then Inl message else continue)"

lemma refuse_eq_Inr: "refuse bad m k = Inr b \<longleftrightarrow> \<not> bad \<and> k = Inr b"
  by (simp add: refuse_def)

lemma refuse_simps [simp]: "refuse True m k = Inl m" "refuse False m k = k"
  by (simp_all add: refuse_def)

end
