(* ===== verification/Wire.thy ===== *)
theory Wire
  imports Prelude
begin

section \<open>The protobuf wire format (\<open>builtin/protobuf_wire.hpp\<close>)\<close>

text \<open>
  The writer, the reader and the field loop that every builtin codec uses.
  Each \<open>Writer\<close> method appends bytes to its output vector; here it is the list of the bytes
  it appends, and a sequence of calls is a concatenation. A \<open>Reader\<close> is the list of bytes
  between its cursor and its end (a default-constructed or null reader behaves as the empty
  list). A reading method returns the value it read (None for \<open>false\<close>) and the reader after
  the call, which has moved also when the call failed after consuming something.
\<close>

subsection \<open>Tags and wire types\<close>

text \<open>
  \<open>enum class WireType : uint32_t\<close>: the tag decoder casts three bits to it, so it also takes
  values with no enumerator.
\<close>

datatype WireType = kVarint | kFixed64 | kLengthDelimited | kFixed32 | WireTypeOther u32

definition wireTypeToBits :: "WireType \<Rightarrow> u32" where
  "wireTypeToBits ty = (case ty of kVarint \<Rightarrow> 0 | kFixed64 \<Rightarrow> 1 | kLengthDelimited \<Rightarrow> 2
     | kFixed32 \<Rightarrow> 5 | WireTypeOther w \<Rightarrow> w)"

definition wireTypeOfBits :: "u32 \<Rightarrow> WireType" where
  "wireTypeOfBits w = (if w = 0 then kVarint else if w = 1 then kFixed64
     else if w = 2 then kLengthDelimited else if w = 5 then kFixed32 else WireTypeOther w)"

record Tag =
  tag_field :: u32
  tag_type :: WireType

abbreviation mkTag :: "u32 \<Rightarrow> WireType \<Rightarrow> Tag" where
  "mkTag f ty \<equiv> \<lparr>tag_field = f, tag_type = ty\<rparr>"

subsection \<open>Writer\<close>

function appendVarint :: "u64 \<Rightarrow> bytes" where
  "appendVarint value =
     (if 0x80 \<le> value
      then ucast ((value AND 0x7F) OR 0x80) # appendVarint (drop_bit 7 value)
      else [ucast value])"
  by pat_completeness auto
termination
proof (relation "measure unat")
  fix v :: u64
  assume "0x80 \<le> v"
  then have "0x80 \<le> unat v" by (simp add: word_le_nat_alt)
  then have "unat (drop_bit 7 v) < unat v"
    by (simp add: drop_bit_eq_div unat_div)
  then show "(drop_bit 7 v, v) \<in> measure unat" by simp
qed simp

declare appendVarint.simps [simp del]

definition appendFixed64 :: "u64 \<Rightarrow> bytes" where
  "appendFixed64 value = map (\<lambda>i. ucast (drop_bit (8 * i) value AND 0xFF)) [0..<8]"

definition appendFixed32 :: "u32 \<Rightarrow> bytes" where
  "appendFixed32 value = map (\<lambda>i. ucast (drop_bit (8 * i) value AND 0xFF)) [0..<4]"

definition w_tag :: "u32 \<Rightarrow> WireType \<Rightarrow> bytes" where
  "w_tag field ty = appendVarint (push_bit 3 (ucast field) OR ucast (wireTypeToBits ty))"

definition w_varint :: "u32 \<Rightarrow> u64 \<Rightarrow> bytes" where
  "w_varint field value = w_tag field kVarint @ appendVarint value"

definition w_fixed64 :: "u32 \<Rightarrow> u64 \<Rightarrow> bytes" where
  "w_fixed64 field value = w_tag field kFixed64 @ appendFixed64 value"

definition w_fixed32 :: "u32 \<Rightarrow> u32 \<Rightarrow> bytes" where
  "w_fixed32 field value = w_tag field kFixed32 @ appendFixed32 value"

definition w_packedFixed32 :: "u32 \<Rightarrow> u32 list \<Rightarrow> bytes" where
  "w_packedFixed32 field values =
     (if length values = 0 then []
      else w_tag field kLengthDelimited @ appendVarint (of_nat (length values) * 4)
           @ concat (map appendFixed32 values))"

definition w_doubleField :: "u32 \<Rightarrow> f64 \<Rightarrow> bytes" where
  "w_doubleField field value = w_fixed64 field value"

definition w_floatField :: "u32 \<Rightarrow> f32 \<Rightarrow> bytes" where
  "w_floatField field value = w_fixed32 field value"

definition w_packedDouble :: "u32 \<Rightarrow> f64 list \<Rightarrow> bytes" where
  "w_packedDouble field values =
     (if length values = 0 then []
      else w_tag field kLengthDelimited @ appendVarint (of_nat (length values) * 8)
           @ concat (map appendFixed64 values))"

definition w_bytes :: "u32 \<Rightarrow> bytes \<Rightarrow> bytes" where
  "w_bytes field data =
     w_tag field kLengthDelimited @ appendVarint (of_nat (length data))
     @ (if length data \<noteq> 0 then data else [])"

definition w_string :: "u32 \<Rightarrow> bytes \<Rightarrow> bytes" where
  "w_string field value = w_bytes field value"

text \<open>The argument is what the callback appends to the nested writer.\<close>

definition w_message :: "u32 \<Rightarrow> bytes \<Rightarrow> bytes" where
  "w_message field body = w_bytes field body"

subsection \<open>Reader\<close>

type_synonym reader = bytes

fun readVarint_loop :: "nat \<Rightarrow> nat \<Rightarrow> u64 \<Rightarrow> reader \<Rightarrow> u64 option \<times> reader" where
  "readVarint_loop byte_index shift out [] = (None, [])"
| "readVarint_loop byte_index shift out (byte # r) =
     (if byte_index < 10
      then let payload = (ucast (byte AND 0x7F) :: u64)
           in if shift = 63 \<and> 1 < payload then (None, r)
              else let out' = out OR push_bit shift payload
                   in if byte AND 0x80 = 0 then (Some out', r)
                      else readVarint_loop (Suc byte_index) (shift + 7) out' r
      else (None, byte # r))"

definition readVarint :: "reader \<Rightarrow> u64 option \<times> reader" where
  "readVarint r = readVarint_loop 0 0 0 r"

definition readTag :: "reader \<Rightarrow> Tag option \<times> reader" where
  "readTag r = (case readVarint r of
     (None, r') \<Rightarrow> (None, r')
   | (Some raw, r') \<Rightarrow>
       if raw = 0 then (None, r')
       else let f = ucast (drop_bit 3 raw); ty = wireTypeOfBits (ucast (raw AND 7))
            in (if f \<noteq> 0 then Some (mkTag f ty) else None, r'))"

definition readFixed64 :: "reader \<Rightarrow> u64 option \<times> reader" where
  "readFixed64 r =
     (if length r < 8 then (None, r)
      else (Some (fold (\<lambda>i out. out OR push_bit (8 * i) (ucast (r ! i))) [0..<8] 0), drop 8 r))"

definition readFixed32 :: "reader \<Rightarrow> u32 option \<times> reader" where
  "readFixed32 r =
     (if length r < 4 then (None, r)
      else (Some (fold (\<lambda>i out. out OR push_bit (8 * i) (ucast (r ! i))) [0..<4] 0), drop 4 r))"

definition readDouble :: "reader \<Rightarrow> f64 option \<times> reader" where
  "readDouble r = readFixed64 r"

definition readFloat :: "reader \<Rightarrow> f32 option \<times> reader" where
  "readFloat r = readFixed32 r"

definition readBytes :: "reader \<Rightarrow> bytes option \<times> reader" where
  "readBytes r = (case readVarint r of
     (None, r') \<Rightarrow> (None, r')
   | (Some len, r') \<Rightarrow>
       if unat len > length r' then (None, r')
       else (Some (take (unat len) r'), drop (unat len) r'))"

definition readString :: "reader \<Rightarrow> bytes option \<times> reader" where
  "readString r = readBytes r"

definition readMessage :: "reader \<Rightarrow> reader option \<times> reader" where
  "readMessage r = readBytes r"

definition skipBytes :: "nat \<Rightarrow> reader \<Rightarrow> bool \<times> reader" where
  "skipBytes n r = (if length r < n then (False, r) else (True, drop n r))"

definition skip :: "WireType \<Rightarrow> reader \<Rightarrow> bool \<times> reader" where
  "skip ty r = (case ty of
     kVarint \<Rightarrow> (case readVarint r of (v, r') \<Rightarrow> (v \<noteq> None, r'))
   | kFixed64 \<Rightarrow> skipBytes 8 r
   | kLengthDelimited \<Rightarrow> (case readBytes r of (v, r') \<Rightarrow> (v \<noteq> None, r'))
   | kFixed32 \<Rightarrow> skipBytes 4 r
   | WireTypeOther w \<Rightarrow> (False, r))"

subsection \<open>Words, bytes and varints\<close>


lemma and_7: "(v AND 7 :: 'a::len word) = take_bit 3 v"
  by (simp add: take_bit_eq_mask mask_eq_exp_minus_1)
lemma and_7F: "(v AND 0x7F :: 'a::len word) = take_bit 7 v"
  by (simp add: take_bit_eq_mask mask_eq_exp_minus_1)
lemma and_FF: "(v AND 0xFF :: 'a::len word) = take_bit 8 v"
  by (simp add: take_bit_eq_mask mask_eq_exp_minus_1)

lemma tag_type_bits:
  assumes "take_bit 3 w = w"
  shows "take_bit 3 (push_bit 3 f OR w :: u64) = w"
  using assms by (simp add: take_bit_push_bit)

lemma tag_field_bits:
  assumes "take_bit 3 w = w"
  shows "drop_bit 3 (push_bit 3 (ucast f) OR w :: u64) = ucast (f :: u32)"
proof (rule bit_eqI)
  fix n assume n: "possible_bit TYPE(u64) n"
  have nb: "\<not> bit w (3 + n)" using assms by (metis bit_take_bit_iff not_add_less1)
  show "bit (drop_bit 3 (push_bit 3 (ucast f) OR w)) n = bit (ucast f :: u64) n"
    using nb n by (auto simp: bit_simps dest: bit_imp_le_length)
qed

lemma take_bit_step:
  fixes v :: "'a::len word"
  shows "take_bit (8 * i) v OR push_bit (8 * i) (ucast (ucast (drop_bit (8 * i) v AND 0xFF) :: u8)) = take_bit (8 * Suc i) v"
proof (rule bit_eqI)
  fix n
  assume "possible_bit TYPE('a word) n"
  then show "bit (take_bit (8 * i) v OR push_bit (8 * i) (ucast (ucast (drop_bit (8 * i) v AND 0xFF) :: u8))) n
    = bit (take_bit (8 * Suc i) v) n"
    by (auto simp: bit_simps and_FF)
qed

lemma fold_fixed:
  fixes v :: "'a::len word"
  shows "fold (\<lambda>i out. out OR push_bit (8 * i) (ucast ((map (\<lambda>i. ucast (drop_bit (8 * i) v AND 0xFF)) [0..<n] @ (rest :: u8 list)) ! i))) [0..<n] 0 = take_bit (8 * n) v"
proof -
  have "fold (\<lambda>i out. out OR push_bit (8 * i) (ucast ((map (\<lambda>i. ucast (drop_bit (8 * i) v AND 0xFF)) [0..<n] @ rest) ! i))) [0..<m] 0 = take_bit (8 * m) v" if "m \<le> n" for m
    using that
  proof (induction m)
    case (Suc m)
    then show ?case
      by (simp add: nth_append take_bit_step del: mult_Suc_right)
  qed simp
  then show ?thesis by simp
qed


lemma readFixed64_append [simp]: "readFixed64 (appendFixed64 v @ rest) = (Some v, rest)"
  using fold_fixed [of v 8 rest]
  by (simp add: readFixed64_def appendFixed64_def take_bit_word_eq_self del: upt_Suc fold.simps)

lemma readFixed32_append [simp]: "readFixed32 (appendFixed32 v @ rest) = (Some v, rest)"
  using fold_fixed [of v 4 rest]
  by (simp add: readFixed32_def appendFixed32_def take_bit_word_eq_self del: upt_Suc fold.simps)

lemma word_80: "(0x80 :: 'a::len word) = push_bit 7 1"
  by simp

lemma take_bit_7: "v < 0x80 \<Longrightarrow> take_bit 7 v = (v :: u64)"
  by (simp add: word_unat_eq_iff unsigned_take_bit_eq take_bit_nat_eq_self word_less_nat_alt)

lemma varint_payload: "ucast ((ucast ((v AND 0x7F) OR 0x80) :: u8) AND 0x7F) = take_bit 7 (v :: u64)"
  by (rule bit_eqI) (auto simp: bit_simps and_7F word_80 simp del: push_bit_of_1)

lemma varint_payload_last: "v < 0x80 \<Longrightarrow> ucast ((ucast v :: u8) AND 0x7F) = (v :: u64)"
  by (subst (2) take_bit_7 [symmetric], assumption)
    (rule bit_eqI, auto simp: bit_simps and_7F)

lemma and_80: "((b :: u8) AND 0x80 = 0) \<longleftrightarrow> \<not> bit b 7"
  by (simp add: and_exp_eq_0_iff_not_bit [of b 7, simplified])

lemma varint_more: "bit (ucast ((v AND 0x7F) OR 0x80 :: u64) :: u8) 7"
  by (auto simp: bit_simps word_80 simp del: push_bit_of_1)

lemma varint_stop: "v < 0x80 \<Longrightarrow> \<not> bit (ucast (v :: u64) :: u8) 7"
  by (drule take_bit_7 [symmetric]) (metis bit_take_bit_iff bit_ucast_iff less_irrefl)

lemma push_take_drop: "push_bit n (take_bit 7 v) OR push_bit (n + 7) (drop_bit 7 v) = push_bit n (v :: u64)"
proof -
  have "take_bit 7 v OR push_bit 7 (drop_bit 7 v) = v"
  proof (rule bit_eqI)
    fix m assume "possible_bit TYPE(u64) m"
    then show "bit (take_bit 7 v OR push_bit 7 (drop_bit 7 v)) m = bit v m"
      by (cases "m < 7") (simp_all add: bit_simps)
  qed
  then have "push_bit n v = push_bit n (take_bit 7 v OR push_bit 7 (drop_bit 7 v))" by simp
  then show ?thesis by (simp add: push_bit_or)
qed

lemma readVarint_loop_append:
  "i \<le> 9 \<Longrightarrow> unat v < 2 ^ (64 - 7 * i) \<Longrightarrow>
   readVarint_loop i (7 * i) acc (appendVarint v @ rest) = (Some (acc OR push_bit (7 * i) v), rest)"
proof (induction v arbitrary: i acc rule: appendVarint.induct)
  case (1 v)
  show ?case
  proof (cases "0x80 \<le> v")
    case True
    then have big: "128 \<le> unat v" by (simp add: word_le_nat_alt)
    have "i \<noteq> 9" using big "1.prems" by auto
    with "1.prems" have i: "i \<le> 8" by simp
    then have "(2::nat) ^ (64 - 7 * i) = 2 ^ (64 - 7 * Suc i) * 128"
      using power_add [of "2::nat" "57 - 7 * i" 7] by simp
    with "1.prems" have "unat (drop_bit 7 v) < 2 ^ (64 - 7 * Suc i)"
      by (simp add: drop_bit_eq_div unat_div less_mult_imp_div_less)
    with i have IH: "readVarint_loop (Suc i) (7 * Suc i) a (appendVarint (drop_bit 7 v) @ rest)
      = (Some (a OR push_bit (7 * Suc i) (drop_bit 7 v)), rest)" for a
      by (intro "1.IH" [OF True]) simp_all
    have [simp]: "7 * i + 7 = 7 * Suc i" by simp
    show ?thesis
      using True i IH push_take_drop [of "7 * i" v]
      by (simp add: appendVarint.simps [of v] varint_payload and_80 varint_more or.assoc Let_def
          del: mult_Suc_right)
  next
    case False
    then have lt: "v < 0x80" by simp
    have "\<not> (7 * i = 63 \<and> 1 < v)"
    proof
      assume "7 * i = 63 \<and> 1 < v"
      then have "i = 9" and "1 < unat v" by (auto simp: word_less_nat_alt)
      with "1.prems"(2) show False by simp
    qed
    moreover have "appendVarint v = [ucast v]"
      using False by (simp add: appendVarint.simps [of v])
    ultimately show ?thesis
      using lt "1.prems"(1) by (simp add: varint_payload_last and_80 varint_stop Let_def)
  qed
qed

lemma readVarint_append [simp]: "readVarint (appendVarint v @ rest) = (Some v, rest)"
proof -
  have "unat v < 2 ^ 64" by (rule order_less_le_trans [OF unsigned_less]) simp
  then show ?thesis
    using readVarint_loop_append [of 0 v 0 rest] by (simp add: readVarint_def)
qed

lemma appendVarint_ne [simp]: "appendVarint v \<noteq> []"
  by (subst appendVarint.simps) simp

lemma length_appendVarint_le: "n \<ge> 1 \<Longrightarrow> unat v < 2 ^ (7 * n) \<Longrightarrow> length (appendVarint v) \<le> n"
proof (induction v arbitrary: n rule: appendVarint.induct)
  case (1 v)
  show ?case
  proof (cases "0x80 \<le> v")
    case True
    then have "128 \<le> unat v" by (simp add: word_le_nat_alt)
    with "1.prems" have "n \<noteq> 1" by auto
    with "1.prems" obtain m where m: "n = Suc m" "1 \<le> m" by (cases n) auto
    then have "unat (drop_bit 7 v) < 2 ^ (7 * m)"
      using "1.prems"(2) by (simp add: drop_bit_eq_div unat_div less_mult_imp_div_less power_add mult.commute)
    then show ?thesis using "1.IH" [OF True] m True by (simp add: appendVarint.simps [of v])
  qed (use 1 in \<open>simp add: appendVarint.simps [of v]\<close>)
qed

lemma readVarint_loop_le: "length (snd (readVarint_loop i s acc r)) \<le> length r"
  by (induction i s acc r rule: readVarint_loop.induct) (auto simp: Let_def le_SucI)

lemma readVarint_loop_less: "readVarint_loop i s acc r = (Some v, r') \<Longrightarrow> length r' < length r"
  by (induction i s acc r rule: readVarint_loop.induct)
    (auto simp: Let_def less_SucI split: if_splits)
subsection \<open>Round trips of the primitive writes\<close>

text \<open>A length-delimited payload, as it follows its tag.\<close>

definition delimited :: "bytes \<Rightarrow> bytes" where
  "delimited d = appendVarint (of_nat (length d)) @ d"

lemma w_bytes_delimited: "w_bytes f d = w_tag f kLengthDelimited @ delimited d"
  by (simp add: w_bytes_def delimited_def)

lemma readTag_w_tag:
  assumes "f \<noteq> 0" and "ty \<in> {kVarint, kFixed64, kLengthDelimited, kFixed32}"
  shows "readTag (w_tag f ty @ rest) = (Some (mkTag f ty), rest)"
proof -
  let ?w = "ucast (wireTypeToBits ty) :: u64"
  let ?raw = "push_bit 3 (ucast f) OR ?w :: u64"
  have w: "take_bit 3 ?w = ?w" and ty: "wireTypeOfBits (ucast ?w) = ty"
    using assms(2) by (auto simp: wireTypeToBits_def wireTypeOfBits_def)
  have f: "drop_bit 3 ?raw = ucast f" by (rule tag_field_bits [OF w])
  have t: "?raw AND 7 = ?w" by (simp only: and_7 tag_type_bits [OF w])
  have fu: "ucast (ucast f :: u64) = f" by (simp add: unsigned_ucast_eq take_bit_word_eq_self)
  have "?raw \<noteq> 0"
  proof
    assume "?raw = 0"
    then have "ucast f = (0 :: u64)" using f by (simp only: drop_bit_of_0)
    then have "f = 0" using fu by (metis unsigned_0)
    with assms(1) show False by simp
  qed
  then show ?thesis
    using assms(1) by (simp add: readTag_def w_tag_def f t ty fu Let_def del: drop_bit_or)
qed

lemma w_tag_ne [simp]: "w_tag f ty \<noteq> []"
  by (simp add: w_tag_def)

lemma readBytes_delimited [simp]: "fits d \<Longrightarrow> readBytes (delimited d @ rest) = (Some d, rest)"
  by (simp add: readBytes_def delimited_def)

lemmas readString_delimited [simp] = readBytes_delimited [folded readString_def]
lemmas readMessage_delimited [simp] = readBytes_delimited [folded readMessage_def]
lemmas readDouble_append [simp] = readFixed64_append [folded readDouble_def]
lemmas readFloat_append [simp] = readFixed32_append [folded readFloat_def]

text \<open>The same facts for the last field of a message, where nothing follows.\<close>

lemmas read_last [simp] =
  readVarint_append [where rest = "[]", simplified]
  readDouble_append [where rest = "[]", simplified]
  readFloat_append [where rest = "[]", simplified]
  readFixed64_append [where rest = "[]", simplified]
  readFixed32_append [where rest = "[]", simplified]
  readBytes_delimited [where rest = "[]", simplified]
  readString_delimited [where rest = "[]", simplified]
  readMessage_delimited [where rest = "[]", simplified]

subsection \<open>Readers never grow and stay inside their buffer\<close>

lemma readVarint_le: "length (snd (readVarint r)) \<le> length r"
  by (simp add: readVarint_def readVarint_loop_le)

lemma readTag_le: "length (snd (readTag r)) \<le> length r"
  using readVarint_le [of r] by (auto simp: readTag_def Let_def split: prod.splits option.splits)

lemma readTag_less: "readTag r = (Some t, r') \<Longrightarrow> length r' < length r"
  using readVarint_loop_less [of 0 0 0 r]
  by (auto simp: readTag_def readVarint_def Let_def split: prod.splits option.splits if_splits)

lemma readFixed64_le: "length (snd (readFixed64 r)) \<le> length r"
  by (simp add: readFixed64_def)

lemma readFixed32_le: "length (snd (readFixed32 r)) \<le> length r"
  by (simp add: readFixed32_def)

lemma readBytes_le: "length (snd (readBytes r)) \<le> length r"
  using readVarint_le [of r] by (auto simp: readBytes_def split: prod.splits option.splits)

lemma skip_le: "length (snd (skip ty r)) \<le> length r"
  using readVarint_le [of r] readBytes_le [of r]
  by (auto simp: skip_def skipBytes_def split: WireType.splits prod.splits)

lemmas read_le [simp] = readVarint_le readTag_le readFixed64_le readFixed32_le readBytes_le
  readFixed64_le [folded readDouble_def] readFixed32_le [folded readFloat_def]
  readBytes_le [folded readString_def] readBytes_le [folded readMessage_def] skip_le

lemma readBytes_length: "readBytes r = (v, r') \<Longrightarrow> length r' \<le> length r"
  using readBytes_le [of r] by simp

lemma readVarint_length: "readVarint r = (v, r') \<Longrightarrow> length r' \<le> length r"
  using readVarint_le [of r] by simp

lemma ucast_up_down [simp]: "ucast (ucast (v :: u32) :: u64) = v"
  by (simp add: unsigned_ucast_eq take_bit_word_eq_self)

text \<open>The parts of a written message fit in memory when the whole does.\<close>

lemma fits_w_bytes: "fits (w_bytes f d) \<Longrightarrow> fits d"
  by (erule fits_mono) (simp add: w_bytes_def)

lemma fits_parts:
  "fits (w_varint f v @ r) \<Longrightarrow> fits r"
  "fits (w_doubleField f d @ r) \<Longrightarrow> fits r"
  "fits (w_floatField f e @ r) \<Longrightarrow> fits r"
  "fits (w_string f s @ r) \<Longrightarrow> fits s \<and> fits r"
  "fits (w_bytes f s @ r) \<Longrightarrow> fits s \<and> fits r"
  "fits (w_message f s @ r) \<Longrightarrow> fits s \<and> fits r"
  "fits (w_string f s) \<Longrightarrow> fits s"
  "fits (w_bytes f s) \<Longrightarrow> fits s"
  "fits (w_message f s) \<Longrightarrow> fits s"
  by (auto dest: fits_appendD fits_w_bytes simp: w_string_def w_message_def)

text \<open>The same by arithmetic on lengths.\<close>

lemma length_w_bytes:
  "length (w_bytes f d) = length (w_tag f kLengthDelimited) + length (appendVarint (of_nat (length d))) + length d"
  by (simp add: w_bytes_def)

lemmas fits_lengths = fits_def length_w_bytes length_w_bytes [folded w_string_def]
  length_w_bytes [folded w_message_def]

end
