(* ===== verification/FieldLoops.thy ===== *)
theory FieldLoops
  imports Wire
begin

section \<open>The field loops of the decoders (\<open>builtin/protobuf_wire.hpp\<close>)\<close>

text \<open>
  \<open>parseFields\<close> and the loops some codecs write out by hand, the actions their handlers are
  made of, the packed arrays, and the two interfaces between the wire layer and the codecs:
  \<open>field_handler\<close> and \<open>field_scanner\<close> (a handler never moves the reader backwards, so the
  loop ends and consumes tag by tag), and \<open>message_codec\<close> (decoding what was written).
\<close>

subsection \<open>The field loop \<open>parseFields\<close>\<close>

text \<open>
  An action is what a handler does for one field: it reads from the reader and updates the
  object; it gives the handler's boolean, the reader and the object after it, which have moved
  or changed also when the boolean is false.
\<close>

type_synonym 'a action = "reader \<Rightarrow> 'a \<Rightarrow> bool \<times> reader \<times> 'a"

text \<open>\<open>handler(tag, reader) || reader.skip(tag.type)\<close>\<close>

definition handle_or_skip :: "(Tag \<Rightarrow> 'a action) \<Rightarrow> Tag \<Rightarrow> 'a action" where
  "handle_or_skip handler t r out = (case handler t r out of
     (handled, r', out') \<Rightarrow>
       if handled then (True, r', out')
       else (case skip (tag_type t) r' of (ok, r'') \<Rightarrow> (ok, r'', out')))"

text \<open>
  The loop. Every pass reads a tag, so the reader gets shorter unless the handler itself grows
  it; the test of the lengths makes the recursion terminate for any handler, and
  \<open>field_handler.parseFields_unfold\<close> shows that it is true for the handlers of the codecs.
\<close>

function parseFields :: "(Tag \<Rightarrow> 'a action) \<Rightarrow> reader \<Rightarrow> 'a \<Rightarrow> bool \<times> 'a" where
  "parseFields handler r out =
     (if r = [] then (True, out)
      else case readTag r of
        (None, r1) \<Rightarrow> (False, out)
      | (Some t, r1) \<Rightarrow>
          (case handle_or_skip handler t r1 out of
             (ok, r2, out2) \<Rightarrow>
               if \<not> ok then (False, out2)
               else if length r2 < length r then parseFields handler r2 out2
               else (False, out2)))"
  by pat_completeness auto
termination
  by (relation "measure (\<lambda>(h, r, out). length r)") auto

declare parseFields.simps [simp del]

locale field_handler =
  fixes handler :: "Tag \<Rightarrow> 'a action"
  assumes non_growing: "length (fst (snd (handler t r out))) \<le> length r"
begin

lemma handle_or_skip_le: "length (fst (snd (handle_or_skip handler t r out))) \<le> length r"
proof -
  obtain b r' out' where h: "handler t r out = (b, r', out')" by (cases "handler t r out")
  then have "length r' \<le> length r" using non_growing [of t r out] by simp
  moreover have "length (snd (skip (tag_type t) r')) \<le> length r'" by simp
  ultimately show ?thesis
    using h by (cases "skip (tag_type t) r'") (auto simp: handle_or_skip_def)
qed

lemma parseFields_unfold:
  "parseFields handler r out =
     (if r = [] then (True, out)
      else case readTag r of
        (None, r1) \<Rightarrow> (False, out)
      | (Some t, r1) \<Rightarrow>
          (case handle_or_skip handler t r1 out of
             (ok, r2, out2) \<Rightarrow> if ok then parseFields handler r2 out2 else (False, out2)))"
proof -
  have "length r2 < length r"
    if "readTag r = (Some t, r1)" and "handle_or_skip handler t r1 out = (ok, r2, out2)" for t r1 ok r2 out2
    using readTag_less [OF that(1)] handle_or_skip_le [of t r1 out] that(2) by simp
  then show ?thesis
    by (subst parseFields.simps) (auto split: prod.splits option.splits)
qed

lemma parse_Nil: "parseFields handler [] out = (True, out)"
  by (simp add: parseFields.simps)

lemma parse_tag:
  assumes "f \<noteq> 0" and "ty \<in> {kVarint, kFixed64, kLengthDelimited, kFixed32}"
  shows "parseFields handler (w_tag f ty @ rest) out =
    (case handle_or_skip handler (mkTag f ty) rest out of
       (ok, r2, out2) \<Rightarrow> if ok then parseFields handler r2 out2 else (False, out2))"
proof -
  have "w_tag f ty @ rest \<noteq> []" by simp
  then show ?thesis
    by (subst parseFields_unfold) (simp add: readTag_w_tag [OF assms])
qed

lemma parse_varint: "f \<noteq> 0 \<Longrightarrow> parseFields handler (w_varint f v @ rest) out =
    (case handle_or_skip handler (mkTag f kVarint) (appendVarint v @ rest) out of
       (ok, r2, out2) \<Rightarrow> if ok then parseFields handler r2 out2 else (False, out2))"
  by (simp add: w_varint_def parse_tag)

lemma parse_double: "f \<noteq> 0 \<Longrightarrow> parseFields handler (w_doubleField f v @ rest) out =
    (case handle_or_skip handler (mkTag f kFixed64) (appendFixed64 v @ rest) out of
       (ok, r2, out2) \<Rightarrow> if ok then parseFields handler r2 out2 else (False, out2))"
  by (simp add: w_doubleField_def w_fixed64_def parse_tag)

lemma parse_float: "f \<noteq> 0 \<Longrightarrow> parseFields handler (w_floatField f v @ rest) out =
    (case handle_or_skip handler (mkTag f kFixed32) (appendFixed32 v @ rest) out of
       (ok, r2, out2) \<Rightarrow> if ok then parseFields handler r2 out2 else (False, out2))"
  by (simp add: w_floatField_def w_fixed32_def parse_tag)

lemma parse_bytes: "f \<noteq> 0 \<Longrightarrow> parseFields handler (w_bytes f d @ rest) out =
    (case handle_or_skip handler (mkTag f kLengthDelimited) (delimited d @ rest) out of
       (ok, r2, out2) \<Rightarrow> if ok then parseFields handler r2 out2 else (False, out2))"
  by (simp add: w_bytes_delimited parse_tag)

lemmas parse_fields_append =
  parse_varint parse_double parse_float parse_bytes
  parse_bytes [folded w_string_def] parse_bytes [folded w_message_def]

lemmas parse_simps =
  parse_Nil parse_fields_append parse_fields_append [where rest = "[]", simplified]

end

subsection \<open>What the handlers do with a field\<close>

text \<open>\<open>return false\<close> without touching the reader.\<close>

definition decline :: "'a action" where
  "decline r out = (False, r, out)"

text \<open>
  \<open>return r.readX(out.field)\<close>, or a read into a local variable whose value is then converted
  and stored: the object changes only when the read succeeds.
\<close>

definition store :: "(reader \<Rightarrow> 'v option \<times> reader) \<Rightarrow> ('v \<Rightarrow> 'a \<Rightarrow> 'a) \<Rightarrow> 'a action" where
  "store rd upd r out = (case rd r of
     (None, r') \<Rightarrow> (False, r', out)
   | (Some v, r') \<Rightarrow> (True, r', upd v out))"

text \<open>\<open>Reader nested; return reader.readMessage(nested) && decode(nested, out);\<close>\<close>

definition readNested :: "(reader \<Rightarrow> 'a \<Rightarrow> bool \<times> 'a) \<Rightarrow> 'a action" where
  "readNested decode r out = (case readMessage r of
     (None, r') \<Rightarrow> (False, r', out)
   | (Some nested, r') \<Rightarrow> (case decode nested out of (ok, out') \<Rightarrow> (ok, r', out')))"

text \<open>A nested read whose target is a field of the object, in place.\<close>

definition on_field :: "('a \<Rightarrow> 'b) \<Rightarrow> (('b \<Rightarrow> 'b) \<Rightarrow> 'a \<Rightarrow> 'a) \<Rightarrow> 'b action \<Rightarrow> 'a action" where
  "on_field get upd act r out = (case act r (get out) of (ok, r', v) \<Rightarrow> (ok, r', upd (\<lambda>_. v) out))"

text \<open>
  A nested message read into a fresh local object, which is appended to a vector when the whole
  of it was decoded.
\<close>

definition readIntoVector ::
    "(reader \<Rightarrow> 'b \<Rightarrow> bool \<times> 'b) \<Rightarrow> 'b \<Rightarrow> (('b list \<Rightarrow> 'b list) \<Rightarrow> 'a \<Rightarrow> 'a) \<Rightarrow> 'a action" where
  "readIntoVector decode init upd r out = (case readMessage r of
     (None, r') \<Rightarrow> (False, r', out)
   | (Some nested, r') \<Rightarrow> (case decode nested init of
       (ok, v) \<Rightarrow> if ok then (True, r', upd (\<lambda>l. l @ [v]) out) else (False, r', out)))"

text \<open>\<open>return tag.type == K && ...;\<close>\<close>

definition expect :: "Tag \<Rightarrow> WireType \<Rightarrow> 'a action \<Rightarrow> 'a action" where
  "expect tag ty act = (if tag_type tag = ty then act else decline)"

text \<open>\<open>writer.varint(field, flag ? 1u : 0u)\<close> and \<open>out.flag = (v != 0)\<close>.\<close>

definition varint_of_bool :: "bool \<Rightarrow> u64" where
  "varint_of_bool b = (if b then 1 else 0)"

declare handle_or_skip_def [field_actions] expect_def [field_actions]
declare store_def [field_actions, scan_actions] on_field_def [field_actions, scan_actions]

lemma varint_of_bool_ne_0 [simp]: "varint_of_bool b \<noteq> 0 \<longleftrightarrow> b" "varint_of_bool b = 0 \<longleftrightarrow> \<not> b"
  by (simp_all add: varint_of_bool_def)

definition shrinks :: "'a action \<Rightarrow> bool" where
  "shrinks act \<longleftrightarrow> (\<forall>r out. length (fst (snd (act r out))) \<le> length r)"

lemma shrinks_decline [simp]: "shrinks decline"
  by (simp add: shrinks_def decline_def)

lemma shrinks_store [simp]:
  assumes "\<And>r. length (snd (rd r)) \<le> length r"
  shows "shrinks (store rd upd)"
  unfolding shrinks_def
proof (intro allI)
  fix r out
  show "length (fst (snd (store rd upd r out))) \<le> length r"
    using assms [of r] by (cases "rd r") (auto simp: store_def split: option.splits)
qed

lemma shrinks_readNested [simp]: "shrinks (readNested decode)"
  unfolding shrinks_def
proof (intro allI)
  fix r out
  show "length (fst (snd (readNested decode r out))) \<le> length r"
    using readBytes_le [folded readMessage_def, of r]
    by (cases "readMessage r") (auto simp: readNested_def split: option.splits prod.splits)
qed

lemma shrinks_readIntoVector [simp]: "shrinks (readIntoVector decode init upd)"
  unfolding shrinks_def
proof (intro allI)
  fix r out
  show "length (fst (snd (readIntoVector decode init upd r out))) \<le> length r"
    using readBytes_le [folded readMessage_def, of r]
    by (cases "readMessage r") (auto simp: readIntoVector_def split: option.splits prod.splits)
qed

lemma shrinks_on_field [simp]:
  assumes "shrinks act"
  shows "shrinks (on_field get upd act)"
  unfolding shrinks_def
proof (intro allI)
  fix r out
  show "length (fst (snd (on_field get upd act r out))) \<le> length r"
    using assms [unfolded shrinks_def, rule_format, of r "get out"]
    by (cases "act r (get out)") (auto simp: on_field_def)
qed

lemma shrinks_expect [simp]: "shrinks act \<Longrightarrow> shrinks (expect tag ty act)"
  by (simp add: expect_def)

lemma field_handlerI: "(\<And>t. shrinks (handler t)) \<Longrightarrow> field_handler handler"
  by unfold_locales (simp add: shrinks_def)

subsection \<open>Messages as a pair of a writer and a decoder\<close>

text \<open>
  The contract of every message type: decoding what was written gives the object back, for the
  objects \<open>ok\<close> that the type can carry and for a target that is \<open>fresh\<close> (a message with
  repeated fields appends to its target).
\<close>

locale message_codec =
  fixes encode :: "'a \<Rightarrow> bytes"
    and decode :: "reader \<Rightarrow> 'a \<Rightarrow> bool \<times> 'a"
    and fresh :: "'a \<Rightarrow> bool"
    and ok :: "'a \<Rightarrow> bool"
  assumes roundtrip: "ok x \<Longrightarrow> fresh y \<Longrightarrow> fits (encode x) \<Longrightarrow> decode (encode x) y = (True, x)"
begin

lemma nested:
  assumes "ok x" and "fresh y" and "fits (encode x)"
  shows "readNested decode (delimited (encode x) @ rest) y = (True, rest, x)"
    and "readNested decode (delimited (encode x)) y = (True, [], x)"
  using roundtrip [OF assms] assms(3) by (simp_all add: readNested_def)

lemma into_vector:
  assumes "ok x" and "fresh init" and "fits (encode x)"
  shows "readIntoVector decode init upd (delimited (encode x) @ rest) a = (True, rest, upd (\<lambda>l. l @ [x]) a)"
  using roundtrip [OF assms] assms(3) by (simp add: readIntoVector_def)

lemma repeated:
  assumes h: "field_handler handler" and act: "handler (mkTag f kLengthDelimited) = readIntoVector decode init upd"
    and f: "f \<noteq> 0" and fresh: "fresh init"
    and upd: "\<And>g g' a. upd g (upd g' a) = upd (g \<circ> g') a" "\<And>a. upd (\<lambda>l. l) a = a"
    and xs: "\<forall>x \<in> set xs. ok x" "fits (concat (map (\<lambda>x. w_message f (encode x)) xs) @ rest)"
  shows "parseFields handler (concat (map (\<lambda>x. w_message f (encode x)) xs) @ rest) a
    = parseFields handler rest (upd (\<lambda>l. l @ xs) a)"
  using xs
proof (induction xs arbitrary: a)
  case Nil
  then show ?case by (simp add: upd)
next
  case (Cons x xs)
  have x: "ok x" and xs: "\<forall>x \<in> set xs. ok x" using Cons.prems by auto
  have fw: "fits (encode x)"
    by (rule fits_mono [OF Cons.prems(2)]) (simp add: w_message_def w_bytes_def)
  have fr: "fits (concat (map (\<lambda>x. w_message f (encode x)) xs) @ rest)"
    by (rule fits_mono [OF Cons.prems(2)]) simp
  show ?case
    using Cons.IH [OF xs fr]
    by (simp add: field_handler.parse_fields_append [OF h] f act handle_or_skip_def upd o_def
        into_vector [OF x fresh fw])
qed

lemma repeated_last:
  assumes h: "field_handler handler" and act: "handler (mkTag f kLengthDelimited) = readIntoVector decode init upd"
    and f: "f \<noteq> 0" and fresh: "fresh init"
    and upd: "\<And>g g' a. upd g (upd g' a) = upd (g \<circ> g') a" "\<And>a. upd (\<lambda>l. l) a = a"
    and xs: "\<forall>x \<in> set xs. ok x" and fits: "fits (concat (map (\<lambda>x. w_message f (encode x)) xs))"
  shows "parseFields handler (concat (map (\<lambda>x. w_message f (encode x)) xs)) a = (True, upd (\<lambda>l. l @ xs) a)"
  using repeated [OF h act f fresh upd xs, where rest = "[]"] fits
  by (simp add: field_handler.parse_Nil [OF h])

end

subsection \<open>Hand-written field loops\<close>

text \<open>
  Some decoders spell the loop out: a field they know is read at once, a failed read ends the
  decoder, and only fields they do not know are skipped. The body of such a loop goes on after
  the field, leaves the field to \<open>skip\<close>, or fails with an error. The result is the error, if
  any, and the object as it was left.
\<close>

datatype ('e, 'a) field_step = Next reader 'a | NotHandled | Fail 'e 'a

function scanFields :: "'e \<Rightarrow> 'e \<Rightarrow> (Tag \<Rightarrow> reader \<Rightarrow> 'a \<Rightarrow> ('e, 'a) field_step) \<Rightarrow>
    reader \<Rightarrow> 'a \<Rightarrow> 'e option \<times> 'a" where
  "scanFields bad_tag bad_skip body r out =
     (if r = [] then (None, out)
      else case readTag r of
        (None, r1) \<Rightarrow> (Some bad_tag, out)
      | (Some t, r1) \<Rightarrow>
          (case body t r1 out of
             Fail e out2 \<Rightarrow> (Some e, out2)
           | Next r2 out2 \<Rightarrow>
               if length r2 < length r then scanFields bad_tag bad_skip body r2 out2
               else (None, out2)
           | NotHandled \<Rightarrow> (case skip (tag_type t) r1 of (ok, r2) \<Rightarrow>
               if \<not> ok then (Some bad_skip, out)
               else if length r2 < length r then scanFields bad_tag bad_skip body r2 out
               else (None, out))))"
  by pat_completeness auto
termination
  by (relation "measure (\<lambda>(e1, e2, h, r, out). length r)") auto

declare scanFields.simps [simp del]

text \<open>\<open>if (!action) return error; continue;\<close>\<close>

definition or_fail :: "'e \<Rightarrow> 'a action \<Rightarrow> reader \<Rightarrow> 'a \<Rightarrow> ('e, 'a) field_step" where
  "or_fail e act r out = (case act r out of
     (ok, r', out') \<Rightarrow> if ok then Next r' out' else Fail e out')"

definition not_handled :: "reader \<Rightarrow> 'a \<Rightarrow> ('e, 'a) field_step" where
  "not_handled r out = NotHandled"

definition step_shrinks :: "(reader \<Rightarrow> 'a \<Rightarrow> ('e, 'a) field_step) \<Rightarrow> bool" where
  "step_shrinks s \<longleftrightarrow> (\<forall>r out r' out'. s r out = Next r' out' \<longrightarrow> length r' \<le> length r)"

lemma step_shrinks_not_handled [simp]: "step_shrinks not_handled"
  by (simp add: step_shrinks_def not_handled_def)

lemma step_shrinks_or_fail [simp]: "shrinks act \<Longrightarrow> step_shrinks (or_fail e act)"
  unfolding step_shrinks_def
proof (intro allI impI)
  fix r out r' out'
  assume act: "shrinks act" and "or_fail e act r out = Next r' out'"
  then have "fst (snd (act r out)) = r'"
    by (auto simp: or_fail_def split: prod.splits if_splits)
  then show "length r' \<le> length r"
    using act by (auto simp: shrinks_def)
qed

text \<open>What the loop does with the outcome of the body, for one field.\<close>

definition scan_next :: "(Tag \<Rightarrow> reader \<Rightarrow> 'a \<Rightarrow> ('e, 'a) field_step) \<Rightarrow> 'e \<Rightarrow> 'e \<Rightarrow> WireType \<Rightarrow> reader \<Rightarrow>
    'a \<Rightarrow> ('e, 'a) field_step \<Rightarrow> 'e option \<times> 'a" where
  "scan_next body bad_tag bad_skip ty r out s = (case s of
     Fail e out2 \<Rightarrow> (Some e, out2)
   | Next r2 out2 \<Rightarrow> scanFields bad_tag bad_skip body r2 out2
   | NotHandled \<Rightarrow> (case skip ty r of (ok, r2) \<Rightarrow>
       if ok then scanFields bad_tag bad_skip body r2 out else (Some bad_skip, out)))"

locale field_scanner =
  fixes body :: "Tag \<Rightarrow> reader \<Rightarrow> 'a \<Rightarrow> ('e, 'a) field_step"
  assumes non_growing: "body t r out = Next r' out' \<Longrightarrow> length r' \<le> length r"
begin

lemma scanFields_unfold:
  "scanFields bad_tag bad_skip body r out =
     (if r = [] then (None, out)
      else case readTag r of
        (None, r1) \<Rightarrow> (Some bad_tag, out)
      | (Some t, r1) \<Rightarrow>
          (case body t r1 out of
             Fail e out2 \<Rightarrow> (Some e, out2)
           | Next r2 out2 \<Rightarrow> scanFields bad_tag bad_skip body r2 out2
           | NotHandled \<Rightarrow> (case skip (tag_type t) r1 of (ok, r2) \<Rightarrow>
               if ok then scanFields bad_tag bad_skip body r2 out else (Some bad_skip, out))))"
proof -
  have "length r2 < length r"
    if "readTag r = (Some t, r1)" and "body t r1 out = Next r2 out2" for t r1 r2 out2
    using readTag_less [OF that(1)] non_growing [OF that(2)] by simp
  moreover have "length r2 < length r"
    if "readTag r = (Some t, r1)" and "skip (tag_type t) r1 = (ok, r2)" for t r1 ok r2
    using readTag_less [OF that(1)] skip_le [of "tag_type t" r1] that(2) by simp
  ultimately show ?thesis
    by (subst scanFields.simps) (auto split: prod.splits option.splits field_step.splits)
qed

lemma scan_Nil: "scanFields bad_tag bad_skip body [] out = (None, out)"
  by (simp add: scanFields.simps)

lemma scan_next_simps:
  "scan_next body bad_tag bad_skip ty r out (Next r2 out2) = scanFields bad_tag bad_skip body r2 out2"
  "scan_next body bad_tag bad_skip ty r out (Fail e out2) = (Some e, out2)"
  by (simp_all add: scan_next_def)

lemma scan_tag:
  assumes "f \<noteq> 0" and "ty \<in> {kVarint, kFixed64, kLengthDelimited, kFixed32}"
  shows "scanFields bad_tag bad_skip body (w_tag f ty @ rest) out =
    scan_next body bad_tag bad_skip ty rest out (body (mkTag f ty) rest out)"
proof -
  have "w_tag f ty @ rest \<noteq> []" by simp
  then show ?thesis
    by (subst scanFields_unfold) (simp add: readTag_w_tag [OF assms] scan_next_def cong: field_step.case_cong)
qed

lemma scan_varint: "f \<noteq> 0 \<Longrightarrow> scanFields bad_tag bad_skip body (w_varint f v @ rest) out =
    scan_next body bad_tag bad_skip kVarint (appendVarint v @ rest) out
      (body (mkTag f kVarint) (appendVarint v @ rest) out)"
  by (simp add: w_varint_def scan_tag)

lemma scan_double: "f \<noteq> 0 \<Longrightarrow> scanFields bad_tag bad_skip body (w_doubleField f v @ rest) out =
    scan_next body bad_tag bad_skip kFixed64 (appendFixed64 v @ rest) out
      (body (mkTag f kFixed64) (appendFixed64 v @ rest) out)"
  by (simp add: w_doubleField_def w_fixed64_def scan_tag)

lemma scan_bytes: "f \<noteq> 0 \<Longrightarrow> scanFields bad_tag bad_skip body (w_bytes f d @ rest) out =
    scan_next body bad_tag bad_skip kLengthDelimited (delimited d @ rest) out
      (body (mkTag f kLengthDelimited) (delimited d @ rest) out)"
  by (simp add: w_bytes_delimited scan_tag)

lemmas scan_fields_append =
  scan_varint scan_double scan_bytes
  scan_bytes [folded w_string_def] scan_bytes [folded w_message_def]

lemmas scan_simps =
  scan_Nil scan_next_simps scan_fields_append scan_fields_append [where rest = "[]", simplified]

text \<open>A repeated message field, one loop pass per element.\<close>

lemma scan_repeated:
  assumes body: "\<And>x r a. x \<in> set xs \<Longrightarrow> fits (enc x) \<Longrightarrow>
      body (mkTag f kLengthDelimited) (delimited (enc x) @ r) a = Next r (push x a)"
    and f: "f \<noteq> 0" and fits: "fits (concat (map (\<lambda>x. w_message f (enc x)) xs) @ rest)"
  shows "scanFields bad_tag bad_skip body (concat (map (\<lambda>x. w_message f (enc x)) xs) @ rest) a
    = scanFields bad_tag bad_skip body rest (fold push xs a)"
  using body fits
proof (induction xs arbitrary: a)
  case (Cons x xs)
  have fw: "fits (enc x)"
    by (rule fits_mono [OF Cons.prems(2)]) (simp add: w_message_def w_bytes_def)
  have fr: "fits (concat (map (\<lambda>x. w_message f (enc x)) xs) @ rest)"
    by (rule fits_mono [OF Cons.prems(2)]) simp
  have bx: "body (mkTag f kLengthDelimited) (delimited (enc x) @ r) a = Next r (push x a)" for r a
    by (rule Cons.prems(1)) (simp_all add: fw)
  show ?case
    using Cons.IH [OF Cons.prems(1) fr] by (simp add: scan_simps f bx)
qed simp

end

text \<open>\<open>if (tag.type == K) { if (!...) return false; continue; }\<close>, and \<open>skip\<close> for another type.\<close>

definition on_type :: "Tag \<Rightarrow> WireType \<Rightarrow> 'e \<Rightarrow> 'a action \<Rightarrow> reader \<Rightarrow> 'a \<Rightarrow> ('e, 'a) field_step" where
  "on_type tag ty e act = (if tag_type tag = ty then or_fail e act else not_handled)"

lemma step_shrinks_on_type [simp]: "shrinks act \<Longrightarrow> step_shrinks (on_type tag ty e act)"
  by (simp add: on_type_def)

lemma field_scannerI: "(\<And>t. step_shrinks (body t)) \<Longrightarrow> field_scanner body"
  unfolding field_scanner_def step_shrinks_def by blast

declare or_fail_def [scan_actions] on_type_def [scan_actions] not_handled_def [scan_actions]

text \<open>A loop that answers with a boolean.\<close>

definition scan_bool :: "(Tag \<Rightarrow> reader \<Rightarrow> 'a \<Rightarrow> (unit, 'a) field_step) \<Rightarrow> reader \<Rightarrow> 'a \<Rightarrow> bool \<times> 'a" where
  "scan_bool body r out = (case scanFields () () body r out of (e, out') \<Rightarrow> (e = None, out'))"

lemma fold_push:
  assumes "\<And>g g' a. upd g (upd g' a) = upd (g \<circ> g') a" and "\<And>a. upd (\<lambda>l. l) a = a"
  shows "fold (\<lambda>x. upd (\<lambda>l. l @ [x])) xs b = upd (\<lambda>l. l @ xs) b"
  by (induction xs arbitrary: b) (simp_all add: assms o_def)

context message_codec
begin

text \<open>A run of elements that the loop appends to a vector one by one.\<close>

lemma scan_pushed:
  assumes h: "field_scanner body"
    and body: "\<And>x r a. ok x \<Longrightarrow> fits (encode x) \<Longrightarrow>
      body (mkTag f kLengthDelimited) (delimited (encode x) @ r) a = Next r (upd (\<lambda>l. l @ [x]) a)"
    and f: "f \<noteq> 0"
    and upd: "\<And>g g' a. upd g (upd g' a) = upd (g \<circ> g') a" "\<And>a. upd (\<lambda>l. l) a = a"
    and xs: "\<forall>x \<in> set xs. ok x" and fits: "fits (concat (map (\<lambda>x. w_message f (encode x)) xs) @ rest)"
  shows "scanFields t s body (concat (map (\<lambda>x. w_message f (encode x)) xs) @ rest) a
    = scanFields t s body rest (upd (\<lambda>l. l @ xs) a)"
  using field_scanner.scan_repeated [OF h _ f fits, where push = "\<lambda>x. upd (\<lambda>l. l @ [x])"] body xs
  by (simp add: fold_push [OF upd])

lemma scan_vector:
  assumes h: "field_scanner body"
    and body: "\<And>r a. body (mkTag f kLengthDelimited) r a = or_fail e (readIntoVector decode init upd) r a"
    and f: "f \<noteq> 0" and fresh: "fresh init"
    and upd: "\<And>g g' a. upd g (upd g' a) = upd (g \<circ> g') a" "\<And>a. upd (\<lambda>l. l) a = a"
    and xs: "\<forall>x \<in> set xs. ok x" and fits: "fits (concat (map (\<lambda>x. w_message f (encode x)) xs) @ rest)"
  shows "scanFields t s body (concat (map (\<lambda>x. w_message f (encode x)) xs) @ rest) a
    = scanFields t s body rest (upd (\<lambda>l. l @ xs) a)"
  by (rule scan_pushed [OF h _ f upd xs fits]) (simp add: body or_fail_def into_vector fresh)

end

subsection \<open>Packed arrays\<close>

function packed32_loop :: "reader \<Rightarrow> u32 list \<Rightarrow> bool \<times> u32 list" where
  "packed32_loop sub out =
     (if sub = [] then (True, out)
      else case readFixed32 sub of
        (None, sub') \<Rightarrow> (False, out)
      | (Some v, sub') \<Rightarrow> if length sub' < length sub then packed32_loop sub' (out @ [v]) else (False, out))"
  by pat_completeness auto
termination
  by (relation "measure (\<lambda>(sub, out). length sub)") auto

declare packed32_loop.simps [simp del]

definition readPackedFixed32 :: "u32 list action" where
  "readPackedFixed32 r out = (case readBytes r of
     (None, r') \<Rightarrow> (False, r', out)
   | (Some d, r') \<Rightarrow>
       if length d mod 4 \<noteq> 0 then (False, r', out)
       else (case packed32_loop d out of (ok, out') \<Rightarrow> (ok, r', out')))"

function packed64_loop :: "reader \<Rightarrow> f64 list \<Rightarrow> bool \<times> f64 list" where
  "packed64_loop sub out =
     (if sub = [] then (True, out)
      else case readDouble sub of
        (None, sub') \<Rightarrow> (False, out)
      | (Some v, sub') \<Rightarrow> if length sub' < length sub then packed64_loop sub' (out @ [v]) else (False, out))"
  by pat_completeness auto
termination
  by (relation "measure (\<lambda>(sub, out). length sub)") auto

declare packed64_loop.simps [simp del]

definition readPackedDouble :: "f64 list action" where
  "readPackedDouble r out = (case readBytes r of
     (None, r') \<Rightarrow> (False, r', out)
   | (Some d, r') \<Rightarrow>
       if length d mod 8 \<noteq> 0 then (False, r', out)
       else (case packed64_loop d out of (ok, out') \<Rightarrow> (ok, r', out')))"

text \<open>\<open>std::array<double, N>\<close> is a list of length N; the loop assigns its elements in turn.\<close>

fun double_array_loop :: "nat list \<Rightarrow> reader \<Rightarrow> f64 list \<Rightarrow> bool \<times> f64 list" where
  "double_array_loop [] sub out = (True, out)"
| "double_array_loop (i # is) sub out = (case readDouble sub of
     (None, sub') \<Rightarrow> (False, out)
   | (Some v, sub') \<Rightarrow> double_array_loop is sub' (out[i := v]))"

definition readPackedDoubleArray :: "nat \<Rightarrow> f64 list action" where
  "readPackedDoubleArray n r out = (case readBytes r of
     (None, r') \<Rightarrow> (False, r', out)
   | (Some d, r') \<Rightarrow>
       if length d \<noteq> n * 8 then (False, r', out)
       else (case double_array_loop [0..<n] d out of (ok, out') \<Rightarrow> (ok, r', out')))"

lemma length_appendFixed [simp]:
  "length (appendFixed32 v) = 4" "length (appendFixed64 w) = 8"
  by (simp_all add: appendFixed32_def appendFixed64_def)

lemma appendFixed_ne [simp]: "appendFixed32 v \<noteq> []" "appendFixed64 w \<noteq> []"
  by (metis length_appendFixed(1) list.size(3) zero_neq_numeral)
    (metis length_appendFixed(2) list.size(3) zero_neq_numeral)

lemma length_concat_fixed [simp]:
  "length (concat (map appendFixed32 vs)) = length vs * 4"
  "length (concat (map appendFixed64 ws)) = length ws * 8"
proof -
  show "length (concat (map appendFixed32 vs)) = length vs * 4" by (induction vs) simp_all
  show "length (concat (map appendFixed64 ws)) = length ws * 8" by (induction ws) simp_all
qed

lemma packed32_loop_concat: "packed32_loop (concat (map appendFixed32 vs)) out = (True, out @ vs)"
  by (induction vs arbitrary: out) (simp_all add: packed32_loop.simps)

lemma packed64_loop_concat: "packed64_loop (concat (map appendFixed64 vs)) out = (True, out @ vs)"
  by (induction vs arbitrary: out) (simp_all add: packed64_loop.simps)

lemma double_array_loop_concat:
  "length out = i + length vs \<Longrightarrow>
   double_array_loop [i..<i + length vs] (concat (map appendFixed64 vs)) out = (True, take i out @ vs)"
proof (induction vs arbitrary: i out)
  case (Cons v vs)
  have "double_array_loop [Suc i..<Suc i + length vs] (concat (map appendFixed64 vs)) (out[i := v])
    = (True, take (Suc i) (out[i := v]) @ vs)"
    by (rule Cons.IH) (use Cons.prems in simp)
  moreover have "take (Suc i) (out[i := v]) = take i out @ [v]"
    using Cons.prems by (simp add: take_Suc_conv_app_nth)
  moreover have "[i..<i + length (v # vs)] = i # [Suc i..<Suc i + length vs]"
    by (subst upt_rec) simp
  ultimately show ?case by (simp del: upt_Suc)
qed simp

lemma w_packedFixed32_eq:
  "w_packedFixed32 f vs = (if vs = [] then [] else w_bytes f (concat (map appendFixed32 vs)))"
  by (cases vs) (simp_all add: w_packedFixed32_def w_bytes_def)

lemma w_packedDouble_eq:
  "w_packedDouble f vs = (if vs = [] then [] else w_bytes f (concat (map appendFixed64 vs)))"
  by (cases vs) (simp_all add: w_packedDouble_def w_bytes_def)

lemma readPackedFixed32_delimited [simp]:
  assumes "fits (concat (map appendFixed32 vs))"
  shows "readPackedFixed32 (delimited (concat (map appendFixed32 vs)) @ rest) out = (True, rest, out @ vs)"
  using assms by (simp add: readPackedFixed32_def packed32_loop_concat)

lemma readPackedDouble_delimited [simp]:
  assumes "fits (concat (map appendFixed64 vs))"
  shows "readPackedDouble (delimited (concat (map appendFixed64 vs)) @ rest) out = (True, rest, out @ vs)"
  using assms by (simp add: readPackedDouble_def packed64_loop_concat)

lemma readPackedDoubleArray_delimited [simp]:
  assumes "fits (concat (map appendFixed64 vs))" and "length vs = n" and "length out = n"
  shows "readPackedDoubleArray n (delimited (concat (map appendFixed64 vs)) @ rest) out = (True, rest, vs)"
  using assms double_array_loop_concat [of out 0 vs] by (simp add: readPackedDoubleArray_def)

lemmas readPacked_last [simp] =
  readPackedFixed32_delimited [where rest = "[]", simplified]
  readPackedDouble_delimited [where rest = "[]", simplified]
  readPackedDoubleArray_delimited [where rest = "[]", simplified]

lemma shrinks_packed [simp]:
  "shrinks readPackedFixed32" "shrinks readPackedDouble" "shrinks (readPackedDoubleArray n)"
  unfolding shrinks_def readPackedFixed32_def readPackedDouble_def readPackedDoubleArray_def
  by (auto split: prod.splits option.splits dest: readBytes_length)

subsection \<open>Fields that a handler declines\<close>

text \<open>A field that the handler does not know is skipped, whatever its wire type.\<close>

context field_handler
begin

lemma skip_unknown:
  assumes "\<And>ty. handler (mkTag f ty) = decline" and "f \<noteq> 0"
  shows "parseFields handler (w_varint f v @ rest) out = parseFields handler rest out"
    and "parseFields handler (w_doubleField f d @ rest) out = parseFields handler rest out"
    and "parseFields handler (w_floatField f g @ rest) out = parseFields handler rest out"
    and "fits bs \<Longrightarrow> parseFields handler (w_bytes f bs @ rest) out = parseFields handler rest out"
  using assms by (simp_all add: parse_simps handle_or_skip_def decline_def skip_def skipBytes_def)

end

end
