(* ===== verification/Float64.thy ===== *)
theory Float64
  imports Prelude
begin

section \<open>Arithmetic on doubles\<close>

text \<open>
  The codecs compute with doubles in two places: colour bytes are written as \<open>byte / 255.0\<close> and
  read back as \<open>static_cast<uint8_t>(clamp(v, 0, 1) * 255.0 + 0.5)\<close>, and a circle's radius is
  written doubled and read halved. This theory is the part of IEEE-754 binary64 arithmetic
  (round to nearest, ties to even) that these expressions use, on bit patterns: a non-negative
  finite value is a pair \<open>(n, e)\<close> for \<open>n * 2 ^ e\<close>. The cast of a NaN to \<open>uint8_t\<close> is undefined
  behaviour in C++; the byte it yields is the parameter \<open>nan_cast\<close> of the model.
\<close>

subsection \<open>Fields of a double, comparison and rounding\<close>


definition f64_sign :: "f64 \<Rightarrow> bool" where
  "f64_sign v = bit v 63"


definition f64_exponent :: "f64 \<Rightarrow> int" where
  "f64_exponent v = uint (drop_bit 52 v AND 0x7FF)"

definition f64_fraction :: "f64 \<Rightarrow> int" where
  "f64_fraction v = uint (v AND 0xFFFFFFFFFFFFF)"

definition f64_is_nan :: "f64 \<Rightarrow> bool" where
  "f64_is_nan v \<longleftrightarrow> f64_exponent v = 2047 \<and> f64_fraction v \<noteq> 0"

text \<open>The order of the numbers; both zeros have the key 0.\<close>

definition f64_key :: "f64 \<Rightarrow> int" where
  "f64_key v = (let m = uint (v AND 0x7FFFFFFFFFFFFFFF) in if f64_sign v then - m else m)"

definition f64_less :: "f64 \<Rightarrow> f64 \<Rightarrow> bool" where
  "f64_less a b \<longleftrightarrow> \<not> f64_is_nan a \<and> \<not> f64_is_nan b \<and> f64_key a < f64_key b"

text \<open>The absolute value of a finite double.\<close>

definition f64_magnitude :: "f64 \<Rightarrow> int \<times> int" where
  "f64_magnitude v =
     (if f64_exponent v = 0 then (f64_fraction v, - 1074)
      else (0x10000000000000 + f64_fraction v, f64_exponent v - 1075))"

text \<open>The quotient rounded to nearest, ties to even, and rounding to 53 significant bits.\<close>

definition rne_div :: "int \<Rightarrow> int \<Rightarrow> int" where
  "rne_div n d = (let q = n div d; r = n mod d
     in if 2 * r < d \<or> (2 * r = d \<and> even q) then q else q + 1)"

function bit_length :: "int \<Rightarrow> int" where
  "bit_length n = (if n \<le> 0 then 0 else 1 + bit_length (n div 2))"
  by pat_completeness auto
termination
  by (relation "measure nat") auto

declare bit_length.simps [simp del]

definition round53 :: "int \<times> int \<Rightarrow> int \<times> int" where
  "round53 v = (case v of (n, e) \<Rightarrow> let s = max 0 (bit_length n - 53) in (rne_div n (2 ^ nat s), e + s))"

definition dyadic_mul :: "int \<times> int \<Rightarrow> int \<times> int \<Rightarrow> int \<times> int" where
  "dyadic_mul a b = round53 (fst a * fst b, snd a + snd b)"

definition dyadic_add :: "int \<times> int \<Rightarrow> int \<times> int \<Rightarrow> int \<times> int" where
  "dyadic_add a b = (let e = min (snd a) (snd b)
     in round53 (fst a * 2 ^ nat (snd a - e) + fst b * 2 ^ nat (snd b - e), e))"

definition dyadic_trunc :: "int \<times> int \<Rightarrow> int" where
  "dyadic_trunc a = (if 0 \<le> snd a then fst a * 2 ^ nat (snd a) else fst a div 2 ^ nat (- snd a))"

definition f64_one :: f64 where "f64_one = 0x3FF0000000000000"

text \<open>The double nearest to \<open>n / d\<close>, for ratios in the range of normal numbers.\<close>

definition f64_of_ratio :: "int \<Rightarrow> int \<Rightarrow> f64" where
  "f64_of_ratio n d =
     (if n = 0 then 0
      else let k0 = 53 + bit_length d - bit_length n;
               k = (if bit_length (n * 2 ^ nat k0 div d) = 54 then k0 - 1 else k0)
           in of_int ((1075 - k) * 0x10000000000000 + (rne_div (n * 2 ^ nat k) d - 0x10000000000000)))"

subsection \<open>Colour bytes\<close>

text \<open>\<open>static_cast<double>(c) / 255.0\<close>\<close>

definition byteToNormalized :: "u8 \<Rightarrow> f64" where
  "byteToNormalized c = f64_of_ratio (uint c) 255"

text \<open>\<open>std::clamp(v, 0.0, 1.0)\<close>\<close>

definition clamp01 :: "f64 \<Rightarrow> f64" where
  "clamp01 v = (if f64_less v 0 then 0 else if f64_less f64_one v then f64_one else v)"

definition normalizedToByte :: "(f64 \<Rightarrow> u8) \<Rightarrow> f64 \<Rightarrow> u8" where
  "normalizedToByte nan_cast v =
     (if f64_is_nan v then nan_cast v
      else of_int (dyadic_trunc (dyadic_add (dyadic_mul (f64_magnitude (clamp01 v)) (255, 0)) (1, - 1))))"

lemma normalizedToByte_nan: "f64_is_nan v \<Longrightarrow> normalizedToByte nan_cast v = nan_cast v"
  by (simp add: normalizedToByte_def)

text \<open>Every colour byte survives the way through the wire: checked by evaluation, in four parts.\<close>

definition color_bytes_ok :: "(f64 \<Rightarrow> u8) \<Rightarrow> nat \<Rightarrow> nat \<Rightarrow> bool" where
  "color_bytes_ok nan_cast i j =
     list_all (\<lambda>c. normalizedToByte nan_cast (byteToNormalized (of_nat c)) = of_nat c) [i..<j]"

lemma color_bytes_ok_1: "color_bytes_ok nan_cast 0 64"
  by code_simp

lemma color_bytes_ok_2: "color_bytes_ok nan_cast 64 128"
  by code_simp

lemma color_bytes_ok_3: "color_bytes_ok nan_cast 128 192"
  by code_simp

lemma color_bytes_ok_4: "color_bytes_ok nan_cast 192 256"
  by code_simp

lemma normalizedToByte_byteToNormalized [simp]:
  "normalizedToByte nan_cast (byteToNormalized c) = c"
proof -
  have "unat c < 256"
    using unsigned_less [of c] by (rule order_less_le_trans) simp
  then have "unat c \<in> {0..<64} \<union> {64..<128} \<union> {128..<192} \<union> {192..<256}" by auto
  then have "normalizedToByte nan_cast (byteToNormalized (of_nat (unat c))) = of_nat (unat c)"
    using color_bytes_ok_1 [of nan_cast] color_bytes_ok_2 [of nan_cast]
      color_bytes_ok_3 [of nan_cast] color_bytes_ok_4 [of nan_cast]
    unfolding color_bytes_ok_def list_all_iff set_upt by blast
  then show ?thesis by simp
qed

subsection \<open>Doubling and halving\<close>

definition f64_make :: "bool \<Rightarrow> int \<Rightarrow> int \<Rightarrow> f64" where
  "f64_make s E F = of_int ((if s then 0x8000000000000000 else 0) + E * 0x10000000000000 + F)"

text \<open>\<open>v * 2.0\<close>: a NaN stays a NaN and is made quiet, a carry out of a subnormal enters the exponent.\<close>

definition f64_double :: "f64 \<Rightarrow> f64" where
  "f64_double v = (let s = f64_sign v; E = f64_exponent v; F = f64_fraction v
     in if E = 2047 then (if F = 0 then v else v OR 0x8000000000000)
        else if E = 2046 then f64_make s 2047 0
        else if E = 0 then f64_make s 0 (2 * F)
        else f64_make s (E + 1) F)"

text \<open>\<open>v * 0.5\<close>\<close>

definition f64_half :: "f64 \<Rightarrow> f64" where
  "f64_half v = (let s = f64_sign v; E = f64_exponent v; F = f64_fraction v
     in if E = 2047 then (if F = 0 then v else v OR 0x8000000000000)
        else if 2 \<le> E then f64_make s (E - 1) F
        else f64_make s 0 (rne_div (E * 0x10000000000000 + F) 2))"

lemma f64_exponent_div: "f64_exponent v = uint v div 0x10000000000000 mod 0x800"
proof -
  have "drop_bit 52 v AND 0x7FF = take_bit 11 (drop_bit 52 v)"
    by (simp add: take_bit_eq_mask mask_eq_exp_minus_1)
  then show ?thesis
    by (simp add: f64_exponent_def take_bit_eq_mod drop_bit_eq_div uint_div uint_mod)
qed

lemma f64_fraction_mod: "f64_fraction v = uint v mod 0x10000000000000"
proof -
  have "v AND 0xFFFFFFFFFFFFF = take_bit 52 v"
    by (simp add: take_bit_eq_mask mask_eq_exp_minus_1)
  then show ?thesis
    by (simp add: f64_fraction_def take_bit_eq_mod uint_mod)
qed

lemma uint_top_bit: "uint (v :: f64) div 0x8000000000000000 = (if 0x8000000000000000 \<le> uint v then 1 else 0)"
proof -
  have "uint v < 0x10000000000000000" using uint_bounded [of v] by simp
  then have "0x8000000000000000 \<le> uint v \<Longrightarrow> uint v div 0x8000000000000000 = 1"
    by (intro int_div_pos_eq [where r = "uint v - 0x8000000000000000"]) simp_all
  then show ?thesis by (simp add: div_pos_pos_trivial)
qed

lemma f64_sign_le: "f64_sign v \<longleftrightarrow> 0x8000000000000000 \<le> uint v"
proof -
  have "bit v 63 \<longleftrightarrow> bit (uint v) 63" by (simp add: bit_uint_iff)
  then have "f64_sign v \<longleftrightarrow> odd (uint v div 2 ^ 63)"
    by (simp only: f64_sign_def bit_iff_odd)
  then show ?thesis by (simp add: uint_top_bit)
qed

lemma f64_fields:
  assumes "0 \<le> E" "E < 2048" "0 \<le> F" "F < 0x10000000000000"
  shows "f64_sign (f64_make s E F) = s" "f64_exponent (f64_make s E F) = E"
    "f64_fraction (f64_make s E F) = F"
proof -
  let ?x = "(if s then 0x8000000000000000 else 0) + E * 0x10000000000000 + F :: int"
  have "0 \<le> ?x" "?x < 2 ^ 64" using assms by auto
  then have u: "uint (f64_make s E F) = ?x"
    unfolding f64_make_def uint_word_of_int_eq by (intro take_bit_int_eq_self) simp_all
  show "f64_sign (f64_make s E F) = s"
    using assms by (auto simp: f64_sign_le u)
  show "f64_exponent (f64_make s E F) = E"
    using int_div_pos_eq [of ?x "0x10000000000000" "(if s then 0x800 else 0) + E" F] assms
    by (auto simp: f64_exponent_div u)
  show "f64_fraction (f64_make s E F) = F"
    using int_mod_pos_eq [of ?x "0x10000000000000" "(if s then 0x800 else 0) + E" F] assms
    by (auto simp: f64_fraction_mod u)
qed

lemma f64_make_fields: "f64_make (f64_sign v) (f64_exponent v) (f64_fraction v) = v"
proof -
  let ?h = "uint v div 0x10000000000000"
  have h: "?h = (if f64_sign v then 0x800 else 0) + ?h mod 0x800"
    using div_mult_mod_eq [of ?h "0x800"] by (auto simp: f64_sign_le zdiv_zmult2_eq [symmetric] uint_top_bit split: if_splits)
  have "(if f64_sign v then 0x8000000000000000 else 0) + ?h mod 0x800 * 0x10000000000000
      + uint v mod 0x10000000000000 = uint v"
  proof -
    have "u = c * d + p * d + f" if "h = c + p" and "h * d + f = u" for h c p d f u :: int
      using that by (simp add: algebra_simps)
    from this [OF h div_mult_mod_eq] show ?thesis by (cases "f64_sign v") simp_all
  qed
  then show ?thesis
    unfolding f64_make_def f64_exponent_div f64_fraction_mod by simp
qed

lemma f64_half_double:
  assumes "f64_exponent v < 2046"
  shows "f64_half (f64_double v) = v"
proof -
  let ?s = "f64_sign v" and ?E = "f64_exponent v" and ?F = "f64_fraction v"
  have E: "0 \<le> ?E" and F: "0 \<le> ?F" "?F < 0x10000000000000"
    by (simp_all add: f64_exponent_div f64_fraction_mod)
  show ?thesis
  proof (cases "?E = 0")
    case True
    have "f64_make ?s 0 (2 * ?F) =
        (if 2 * ?F < 0x10000000000000 then f64_make ?s 0 (2 * ?F)
         else f64_make ?s 1 (2 * ?F - 0x10000000000000))"
      by (simp add: f64_make_def algebra_simps)
    then have "f64_half (f64_make ?s 0 (2 * ?F)) = f64_make ?s 0 ?F"
      using F by (auto simp: f64_half_def f64_fields rne_div_def split: if_splits)
    then show ?thesis
      using True f64_make_fields [of v] by (simp add: f64_double_def)
  next
    case False
    then have "f64_half (f64_make ?s (?E + 1) ?F) = f64_make ?s ?E ?F"
      using E F assms by (simp add: f64_half_def f64_fields)
    then show ?thesis
      using False assms f64_make_fields [of v] by (simp add: f64_double_def)
  qed
qed

end
