(* ===== verification/TimeMath.thy ===== *)
theory TimeMath
  imports Prelude
begin

section \<open>Checked nanosecond arithmetic (\<open>time_math.hpp\<close>)\<close>

text \<open>
  The header computes in \<open>int64_t\<close> and tests before every product and sum that it cannot
  overflow (signed overflow is undefined behaviour). The model computes in the mathematical
  integers with C++'s division, which truncates towards zero (\<open>sdiv\<close>); \<open>int64 x\<close> says that a
  value is in the range of the type. The lemmas show what each function returns, that every
  intermediate product or sum of a taken branch is in range, and that splitting a timestamp
  into seconds and nanoseconds and combining them is the identity.
\<close>

definition int64_min :: int where "int64_min = - 0x8000000000000000"
definition int64_max :: int where "int64_max = 0x7FFFFFFFFFFFFFFF"

definition int64 :: "int \<Rightarrow> bool" where
  "int64 x \<longleftrightarrow> int64_min \<le> x \<and> x \<le> int64_max"

lemmas int64_defs = int64_def int64_min_def int64_max_def

datatype TimeUnit = kSeconds | kMilliseconds | kMicroseconds | kNanoseconds

definition nanosecondsPer :: "TimeUnit \<Rightarrow> int" where
  "nanosecondsPer unit = (case unit of kSeconds \<Rightarrow> 1000000000 | kMilliseconds \<Rightarrow> 1000000
     | kMicroseconds \<Rightarrow> 1000 | kNanoseconds \<Rightarrow> 1)"

definition scaleToNanoseconds :: "int \<Rightarrow> TimeUnit \<Rightarrow> int option" where
  "scaleToNanoseconds ticks unit = (let scale = nanosecondsPer unit
     in if scale = 0 \<or> int64_max sdiv scale < ticks \<or> ticks < int64_min sdiv scale
        then None else Some (ticks * scale))"

definition toSignedTicks :: "u64 \<Rightarrow> int option" where
  "toSignedTicks ticks = (if of_int int64_max < ticks then None else Some (sint ticks))"

definition combineSecondsAndNanos :: "int \<Rightarrow> int \<Rightarrow> int option" where
  "combineSecondsAndNanos seconds nanos =
     (if nanos < 0 \<or> 1000000000 \<le> nanos then None
      else if seconds < 0
      then let seconds' = seconds + 1; nanos' = nanos - 1000000000
           in if seconds' < (int64_min - nanos') sdiv 1000000000 then None
              else Some (seconds' * 1000000000 + nanos')
      else if (int64_max - nanos) sdiv 1000000000 < seconds then None
      else Some (seconds * 1000000000 + nanos))"

definition syntheticInstant :: "int \<Rightarrow> int \<Rightarrow> int \<Rightarrow> int option" where
  "syntheticInstant anchor_ns interval_ns row =
     (if row < 0 then None
      else if (0 < interval_ns \<and> int64_max sdiv interval_ns < row)
        \<or> (interval_ns < 0 \<and> 0 < row \<and> interval_ns < int64_min sdiv row) then None
      else let offset = interval_ns * row
           in if (0 < offset \<and> int64_max - offset < anchor_ns)
                \<or> (offset < 0 \<and> anchor_ns < int64_min - offset) then None
              else Some (anchor_ns + offset))"

text \<open>The span is a \<open>uint64_t\<close> difference, exact because \<open>first < last\<close>.\<close>

definition fitSyntheticInterval :: "int \<Rightarrow> int \<Rightarrow> int \<Rightarrow> int \<Rightarrow> int" where
  "fitSyntheticInterval first_ns last_ns rows fallback_ns =
     (if rows < 2 \<or> last_ns \<le> first_ns then fallback_ns
      else let span = (of_int last_ns :: u64) - of_int first_ns;
               interval = span div of_int (rows - 1)
           in if of_int int64_max < interval then fallback_ns else sint interval)"

definition kDefaultSyntheticIntervalNs :: int where
  "kDefaultSyntheticIntervalNs = 33333333"

subsection \<open>Truncating division against the range\<close>

lemma int64_min_le_0: "int64_min \<le> 0"
  by (simp add: int64_min_def)

lemma sdiv_pos: "0 \<le> a \<Longrightarrow> 0 < b \<Longrightarrow> (a::int) sdiv b = a div b"
  by (cases "a = 0") (simp_all add: signed_divide_int_def)

lemma sdiv_neg: "a \<le> 0 \<Longrightarrow> 0 < b \<Longrightarrow> (a::int) sdiv b = - ((- a) div b)"
  by (cases "a = 0") (simp_all add: signed_divide_int_def)

lemma le_div_iff: "0 < b \<Longrightarrow> x \<le> a div b \<longleftrightarrow> x * b \<le> (a::int)"
proof
  assume b: "0 < b" and "x \<le> a div b"
  then have "x * b \<le> a div b * b" by (simp add: mult_right_mono)
  also have "a div b * b \<le> a" using b by (simp add: minus_mod_eq_div_mult [symmetric])
  finally show "x * b \<le> a" .
next
  assume b: "0 < b" and "x * b \<le> a"
  then have "x * b div b \<le> a div b" by (intro zdiv_mono1)
  with b show "x \<le> a div b" by simp
qed

lemma sdiv_less_iff [simp]: "0 \<le> a \<Longrightarrow> 0 < b \<Longrightarrow> a sdiv b < x \<longleftrightarrow> (a::int) < x * b"
  using le_div_iff [of b x a] by (simp add: sdiv_pos) linarith

lemma less_sdiv_iff [simp]: "a \<le> 0 \<Longrightarrow> 0 < b \<Longrightarrow> x < a sdiv b \<longleftrightarrow> x * b < (a::int)"
  using le_div_iff [of b "- x" "- a"] by (simp add: sdiv_neg) linarith

lemma int64_max_sdiv [simp]: "0 < b \<Longrightarrow> int64_max sdiv b < x \<longleftrightarrow> int64_max < x * b"
  by (rule sdiv_less_iff) (simp add: int64_max_def)

lemma int64_min_sdiv [simp]: "0 < b \<Longrightarrow> x < int64_min sdiv b \<longleftrightarrow> x * b < int64_min"
  by (rule less_sdiv_iff) (simp add: int64_min_def)

subsection \<open>What the functions return\<close>

lemma nanosecondsPer_pos: "0 < nanosecondsPer unit"
  by (cases unit) (simp_all add: nanosecondsPer_def)

lemma scaleToNanoseconds_eq:
  "scaleToNanoseconds ticks unit =
     (if int64 (ticks * nanosecondsPer unit) then Some (ticks * nanosecondsPer unit) else None)"
  using nanosecondsPer_pos [of unit]
  by (auto simp: scaleToNanoseconds_def int64_def Let_def)

lemma toSignedTicks_eq:
  "toSignedTicks ticks = (if int64 (uint ticks) then Some (uint ticks) else None)"
proof -
  have "(of_int int64_max < ticks) \<longleftrightarrow> int64_max < uint ticks"
    by (simp add: word_less_def int64_defs)
  moreover have "sint ticks = uint ticks" if "uint ticks \<le> int64_max"
    unfolding sint_uint using that uint_ge_0 [of ticks]
    by (intro signed_take_bit_int_eq_self) (auto simp: int64_defs intro: order_trans [of _ 0])
  ultimately show ?thesis
    by (auto simp: toSignedTicks_def int64_defs intro: order_trans [of _ 0])
qed

lemma combineSecondsAndNanos_eq:
  "combineSecondsAndNanos seconds nanos =
     (if 0 \<le> nanos \<and> nanos < 1000000000 \<and> int64 (seconds * 1000000000 + nanos)
      then Some (seconds * 1000000000 + nanos) else None)"
proof (cases "0 \<le> nanos \<and> nanos < 1000000000")
  case True
  then have "int64_min - (nanos - 1000000000) \<le> 0" and "0 \<le> int64_max - nanos"
    by (simp_all add: int64_defs)
  with True show ?thesis
    by (auto simp: combineSecondsAndNanos_def int64_defs Let_def algebra_simps)
qed (auto simp: combineSecondsAndNanos_def)

lemma syntheticInstant_eq:
  assumes "int64 anchor_ns" and "int64 interval_ns" and "int64 row"
  shows "syntheticInstant anchor_ns interval_ns row =
     (if 0 \<le> row \<and> int64 (interval_ns * row) \<and> int64 (anchor_ns + interval_ns * row)
      then Some (anchor_ns + interval_ns * row) else None)"
proof (cases "0 \<le> row")
  case True
  have "(0 < interval_ns \<and> int64_max sdiv interval_ns < row)
      \<or> (interval_ns < 0 \<and> 0 < row \<and> interval_ns < int64_min sdiv row)
    \<longleftrightarrow> \<not> int64 (interval_ns * row)"
  proof -
    consider "0 < interval_ns" | "interval_ns = 0" | "interval_ns < 0" by linarith
    then show ?thesis
    proof cases
      case 1
      then have "0 \<le> interval_ns * row" using True by simp
      then show ?thesis using 1 by (auto simp: int64_def int64_min_def mult.commute)
    next
      case 2
      then show ?thesis by (simp add: int64_defs)
    next
      case 3
      then have "interval_ns * row \<le> 0" using True by (simp add: mult_nonpos_nonneg)
      then show ?thesis
        using 3 True by (cases "row = 0") (auto simp: int64_def int64_max_def int64_min_le_0)
    qed
  qed
  then show ?thesis
    using True assms by (auto simp: syntheticInstant_def Let_def int64_defs)
qed (simp add: syntheticInstant_def)

lemma uint_of_int64: "0 \<le> a \<Longrightarrow> a < 2 ^ 64 \<Longrightarrow> uint (of_int a :: u64) = a"
  by (simp add: uint_word_of_int_eq take_bit_int_eq_self)

lemma fitSyntheticInterval_eq:
  assumes "int64 first_ns" and "int64 last_ns" and "int64 rows" and "2 \<le> rows" and "first_ns < last_ns"
  shows "fitSyntheticInterval first_ns last_ns rows fallback_ns =
    (if int64_max < (last_ns - first_ns) div (rows - 1) then fallback_ns
     else (last_ns - first_ns) div (rows - 1))"
proof -
  let ?q = "(last_ns - first_ns) div (rows - 1)"
  let ?w = "((of_int last_ns :: u64) - of_int first_ns) div of_int (rows - 1)"
  have "uint (of_int (last_ns - first_ns) :: u64) = last_ns - first_ns"
    using assms by (intro uint_of_int64) (auto simp: int64_defs)
  moreover have "uint (of_int (rows - 1) :: u64) = rows - 1"
    using assms by (intro uint_of_int64) (auto simp: int64_defs)
  ultimately have w: "uint ?w = ?q"
    by (simp only: uint_div of_int_diff [symmetric])
  have "(of_int int64_max < ?w) \<longleftrightarrow> int64_max < ?q"
    by (simp only: word_less_def w) (simp add: int64_max_def)
  moreover have "sint ?w = ?q" if "?q \<le> int64_max"
    unfolding sint_uint w using that assms
    by (intro signed_take_bit_int_eq_self)
      (auto simp: int64_defs pos_imp_zdiv_nonneg_iff intro: order_trans [of _ 0])
  ultimately show ?thesis
    using assms by (simp add: fitSyntheticInterval_def Let_def)
qed

text \<open>
  The axis fitted over \<open>rows\<close> rows never leaves \<open>[first, last]\<close> and never overflows, for a span
  that a signed 64-bit offset can hold.
\<close>

lemma synthetic_axis_in_span:
  assumes "int64 first_ns" and "int64 last_ns" and "int64 rows" and "2 \<le> rows" and "first_ns < last_ns"
    and "last_ns - first_ns \<le> int64_max" and "0 \<le> row" and "row < rows"
  shows "\<exists>t. syntheticInstant first_ns (fitSyntheticInterval first_ns last_ns rows fallback_ns) row = Some t
    \<and> first_ns \<le> t \<and> t \<le> last_ns"
proof -
  let ?q = "(last_ns - first_ns) div (rows - 1)"
  have q0: "0 \<le> ?q" using assms by (simp add: pos_imp_zdiv_nonneg_iff)
  have span: "?q * (rows - 1) \<le> last_ns - first_ns"
    using assms by (simp add: minus_mod_eq_mult_div [symmetric] mult.commute)
  have "?q * row \<le> ?q * (rows - 1)" using assms q0 by (intro mult_left_mono) auto
  with span have le: "?q * row \<le> last_ns - first_ns" by linarith
  have x0: "0 \<le> ?q * row" using q0 assms by simp
  have "?q * 1 \<le> ?q * (rows - 1)" using assms q0 by (intro mult_left_mono) auto
  with span have q1: "?q \<le> last_ns - first_ns" by linarith
  have r: "int64 row"
    using assms unfolding int64_defs by linarith
  have q: "int64 ?q" and "int64 (?q * row)" and "int64 (first_ns + ?q * row)"
    using assms le x0 q0 q1 unfolding int64_defs by linarith+
  then have "syntheticInstant first_ns ?q row = Some (first_ns + ?q * row)"
    using assms by (simp add: syntheticInstant_eq [OF assms(1) q r])
  moreover have "fitSyntheticInterval first_ns last_ns rows fallback_ns = ?q"
    using assms q1 by (simp add: fitSyntheticInterval_eq)
  ultimately show ?thesis
    using x0 le by (simp del: zero_le_mult_iff)
qed
end
