(* ===== verification/Geometry.thy ===== *)
theory Geometry
  imports FieldLoops Float64 TimeMath
begin

section \<open>Timestamps, geometry and colours on the wire (\<open>builtin/geometry_codec.hpp\<close>)\<close>

text \<open>
  The messages that the object codecs share: timestamps as seconds and nanoseconds, vectors,
  points, quaternions, poses and colours, with their structs from \<open>frame_transforms.hpp\<close>,
  \<open>scene_entities.hpp\<close> and \<open>image_annotations.hpp\<close>. Each message is proved to be a
  \<open>message_codec\<close>.
\<close>

subsection \<open>Timestamps\<close>

record TimestampParts =
  parts_seconds :: u64
  parts_nanos :: u32

definition default_TimestampParts :: TimestampParts where
  "default_TimestampParts = \<lparr>parts_seconds = 0, parts_nanos = 0\<rparr>"

definition splitTimestamp :: "Timestamp \<Rightarrow> TimestampParts" where
  "splitTimestamp timestamp_ns =
     (let seconds = (of_int (sint timestamp_ns sdiv 1000000000) :: u64);
          nanos = (of_int (sint timestamp_ns smod 1000000000) :: u32)
      in if sint nanos < 0
         then \<lparr>parts_seconds = seconds - 1, parts_nanos = nanos + 1000000000\<rparr>
         else \<lparr>parts_seconds = seconds, parts_nanos = nanos\<rparr>)"

definition combineTimestamp :: "TimestampParts \<Rightarrow> Timestamp option" where
  "combineTimestamp parts =
     map_option of_int (combineSecondsAndNanos (sint (parts_seconds parts)) (sint (parts_nanos parts)))"

definition writeTimestamp :: "Timestamp \<Rightarrow> bytes" where
  "writeTimestamp timestamp_ns = (let parts = splitTimestamp timestamp_ns
     in w_varint 1 (parts_seconds parts) @ w_varint 2 (ucast (parts_nanos parts)))"

definition decodeTimestamp_field :: "Tag \<Rightarrow> TimestampParts action" where
  "decodeTimestamp_field tag r parts =
     (if tag_type tag \<noteq> kVarint then (False, r, parts)
      else case readVarint r of
        (None, r') \<Rightarrow> (False, r', parts)
      | (Some v, r') \<Rightarrow>
          if tag_field tag = 1 then (True, r', parts\<lparr>parts_seconds := v\<rparr>)
          else if tag_field tag = 2 then (True, r', parts\<lparr>parts_nanos := ucast v\<rparr>)
          else (False, r', parts))"

definition decodeTimestamp :: "reader \<Rightarrow> Timestamp \<Rightarrow> bool \<times> Timestamp" where
  "decodeTimestamp r out = (case parseFields decodeTimestamp_field r default_TimestampParts of
     (ok, parts) \<Rightarrow>
       if ok then (case combineTimestamp parts of None \<Rightarrow> (False, out) | Some t \<Rightarrow> (True, t))
       else (False, out))"

definition readTimestampMessage :: "Timestamp action" where
  "readTimestampMessage = readNested decodeTimestamp"

interpretation timestamp_fields: field_handler decodeTimestamp_field
proof
  fix t r out
  show "length (fst (snd (decodeTimestamp_field t r out))) \<le> length r"
    by (auto simp: decodeTimestamp_field_def split: prod.splits option.splits dest: readVarint_length)
qed

text \<open>Splitting rounds towards minus infinity, whatever the sign of the timestamp.\<close>

lemma smod_bounds: "- 1000000000 < (x :: int) smod 1000000000" "x smod 1000000000 < 1000000000"
proof -
  have "x smod 1000000000 = (if 0 \<le> x then x mod 1000000000 else - ((- x) mod 1000000000))"
    by (cases "x = 0") (simp_all add: signed_modulo_int_def)
  then show "- 1000000000 < x smod 1000000000" and "x smod 1000000000 < 1000000000"
    using pos_mod_bound [of "1000000000 :: int" x] pos_mod_bound [of "1000000000 :: int" "- x"]
      pos_mod_sign [of "1000000000 :: int" x] pos_mod_sign [of "1000000000 :: int" "- x"]
    by (auto simp del: pos_mod_bound pos_mod_sign)
qed

lemma sdiv_smod_floor:
  "(x :: int) div 1000000000 = (if x smod 1000000000 < 0 then x sdiv 1000000000 - 1 else x sdiv 1000000000)"
  "x mod 1000000000 = (if x smod 1000000000 < 0 then x smod 1000000000 + 1000000000 else x smod 1000000000)"
proof -
  let ?r = "x smod 1000000000" and ?q = "x sdiv 1000000000"
  let ?c = "if ?r < 0 then 1 else 0 :: int"
  have x: "x = 1000000000 * (?q - ?c) + (?r + ?c * 1000000000)"
    using sdiv_mult_smod_eq [of x 1000000000] by (simp add: algebra_simps)
  have b: "0 \<le> ?r + ?c * 1000000000" "?r + ?c * 1000000000 < 1000000000"
    using smod_bounds [of x] by auto
  show "x div 1000000000 = (if ?r < 0 then ?q - 1 else ?q)"
    using int_div_pos_eq [OF x b] by simp
  show "x mod 1000000000 = (if ?r < 0 then ?r + 1000000000 else ?r)"
    using int_mod_pos_eq [OF x b] by simp
qed

lemma sint_of_int_id:
  "- (2 ^ (LENGTH('a) - 1)) \<le> x \<Longrightarrow> x < 2 ^ (LENGTH('a) - 1) \<Longrightarrow> sint (of_int x :: 'a::len word) = x"
  by (simp add: signed_of_int signed_take_bit_int_eq_self)

lemma split_sint:
  "sint (parts_seconds (splitTimestamp t)) = sint t div 1000000000"
  "sint (parts_nanos (splitTimestamp t)) = sint t mod 1000000000"
proof -
  let ?x = "sint t"
  let ?r = "?x smod 1000000000" and ?q = "?x sdiv 1000000000"
  have r: "sint (of_int ?r :: u32) = ?r"
    using smod_bounds [of ?x] by (intro sint_of_int_id) simp_all
  have d: "parts_seconds (splitTimestamp t) = of_int (?x div 1000000000)"
    "parts_nanos (splitTimestamp t) = of_int (?x mod 1000000000)"
    by (simp_all add: splitTimestamp_def Let_def r sdiv_smod_floor)
  have "- (2 ^ 63) \<le> ?x" "?x < 2 ^ 63"
    using sint_greater_eq [of t] sint_less [of t] by simp_all
  then have "- (2 ^ 63) \<le> ?x div 1000000000" "?x div 1000000000 < 2 ^ 63"
    by auto
  then show "sint (parts_seconds (splitTimestamp t)) = ?x div 1000000000"
    unfolding d by (intro sint_of_int_id) simp_all
  have "0 \<le> ?x mod 1000000000" "?x mod 1000000000 < 1000000000" by simp_all
  then have "- 0x80000000 \<le> ?x mod 1000000000" "?x mod 1000000000 < 0x80000000" by linarith+
  then show "sint (parts_nanos (splitTimestamp t)) = ?x mod 1000000000"
    unfolding d by (intro sint_of_int_id) simp_all
qed

lemma combine_split: "combineTimestamp (splitTimestamp t) = Some t"
proof -
  have "int64 (sint t)" using sint_greater_eq [of t] sint_less [of t] by (simp add: int64_defs)
  then show ?thesis
    by (simp add: combineTimestamp_def combineSecondsAndNanos_eq split_sint)
qed

interpretation timestamp: message_codec writeTimestamp decodeTimestamp "\<lambda>_. True" "\<lambda>_. True"
proof
  fix x y :: Timestamp
  show "decodeTimestamp (writeTimestamp x) y = (True, x)"
    using combine_split [of x]
    by (cases "splitTimestamp x") (simp add: decodeTimestamp_def writeTimestamp_def timestamp_fields.parse_simps handle_or_skip_def
        decodeTimestamp_field_def Let_def default_TimestampParts_def)
qed

text \<open>A timestamp takes at most 22 bytes.\<close>

lemma length_writeTimestamp: "length (writeTimestamp t) \<le> 22"
proof -
  have tags: "w_tag 1 kVarint = [8]" "w_tag 2 kVarint = [16]" by code_simp+
  have "length (appendVarint v) \<le> 10" for v
    using unsigned_less [of v, where 'a = nat] by (intro length_appendVarint_le) simp_all
  from add_mono [OF this this] show ?thesis
    by (simp add: writeTimestamp_def Let_def w_varint_def tags)
qed

lemma fits_writeTimestamp: "fits (writeTimestamp t)"
  using length_writeTimestamp [of t] by (intro fits_short) simp

subsection \<open>Vectors, points, quaternions and poses\<close>

record Vector2 =
  v2_x :: f64
  v2_y :: f64

definition default_Vector2 :: Vector2 where
  "default_Vector2 = \<lparr>v2_x = 0, v2_y = 0\<rparr>"

definition writeVector2 :: "Vector2 \<Rightarrow> bytes" where
  "writeVector2 p =
     w_doubleField 1 (v2_x p)
     @ w_doubleField 2 (v2_y p)"

definition decodeVector2_field :: "Tag \<Rightarrow> Vector2 action" where
  "decodeVector2_field tag =
     (if tag_type tag \<noteq> kFixed64 then decline
      else if tag_field tag = 1 then
        store readDouble (\<lambda>v out. out\<lparr>v2_x := v\<rparr>)
      else if tag_field tag = 2 then
        store readDouble (\<lambda>v out. out\<lparr>v2_y := v\<rparr>)
      else decline)"

definition decodeVector2 :: "reader \<Rightarrow> Vector2 \<Rightarrow> bool \<times> Vector2" where
  "decodeVector2 = parseFields decodeVector2_field"

definition readVector2Message :: "Vector2 action" where
  "readVector2Message = readNested decodeVector2"

interpretation vector2_fields: field_handler decodeVector2_field
  by (rule field_handlerI) (simp add: decodeVector2_field_def)

interpretation vector2: message_codec writeVector2 decodeVector2
  "\<lambda>_. True"
  "\<lambda>_. True"
proof
  fix x y :: Vector2
  show "decodeVector2 (writeVector2 x) y = (True, x)"
    by (cases x, cases y) (simp add: decodeVector2_def writeVector2_def
      vector2_fields.parse_simps field_actions decodeVector2_field_def)
qed

record Vector3 =
  v3_x :: f64
  v3_y :: f64
  v3_z :: f64

definition default_Vector3 :: Vector3 where
  "default_Vector3 = \<lparr>v3_x = 0, v3_y = 0, v3_z = 0\<rparr>"

definition writeVector3 :: "Vector3 \<Rightarrow> bytes" where
  "writeVector3 p =
     w_doubleField 1 (v3_x p)
     @ w_doubleField 2 (v3_y p)
     @ w_doubleField 3 (v3_z p)"

definition decodeVector3_field :: "Tag \<Rightarrow> Vector3 action" where
  "decodeVector3_field tag =
     (if tag_type tag \<noteq> kFixed64 then decline
      else if tag_field tag = 1 then
        store readDouble (\<lambda>v out. out\<lparr>v3_x := v\<rparr>)
      else if tag_field tag = 2 then
        store readDouble (\<lambda>v out. out\<lparr>v3_y := v\<rparr>)
      else if tag_field tag = 3 then
        store readDouble (\<lambda>v out. out\<lparr>v3_z := v\<rparr>)
      else decline)"

definition decodeVector3 :: "reader \<Rightarrow> Vector3 \<Rightarrow> bool \<times> Vector3" where
  "decodeVector3 = parseFields decodeVector3_field"

definition readVector3Message :: "Vector3 action" where
  "readVector3Message = readNested decodeVector3"

interpretation vector3_fields: field_handler decodeVector3_field
  by (rule field_handlerI) (simp add: decodeVector3_field_def)

interpretation vector3: message_codec writeVector3 decodeVector3
  "\<lambda>_. True"
  "\<lambda>_. True"
proof
  fix x y :: Vector3
  show "decodeVector3 (writeVector3 x) y = (True, x)"
    by (cases x, cases y) (simp add: decodeVector3_def writeVector3_def
      vector3_fields.parse_simps field_actions decodeVector3_field_def)
qed

record Point3 =
  p3_x :: f64
  p3_y :: f64
  p3_z :: f64

definition default_Point3 :: Point3 where
  "default_Point3 = \<lparr>p3_x = 0, p3_y = 0, p3_z = 0\<rparr>"

definition writePoint3 :: "Point3 \<Rightarrow> bytes" where
  "writePoint3 p =
     w_doubleField 1 (p3_x p)
     @ w_doubleField 2 (p3_y p)
     @ w_doubleField 3 (p3_z p)"

definition decodePoint3_field :: "Tag \<Rightarrow> Point3 action" where
  "decodePoint3_field tag =
     (if tag_type tag \<noteq> kFixed64 then decline
      else if tag_field tag = 1 then
        store readDouble (\<lambda>v out. out\<lparr>p3_x := v\<rparr>)
      else if tag_field tag = 2 then
        store readDouble (\<lambda>v out. out\<lparr>p3_y := v\<rparr>)
      else if tag_field tag = 3 then
        store readDouble (\<lambda>v out. out\<lparr>p3_z := v\<rparr>)
      else decline)"

definition decodePoint3 :: "reader \<Rightarrow> Point3 \<Rightarrow> bool \<times> Point3" where
  "decodePoint3 = parseFields decodePoint3_field"

definition readPoint3Message :: "Point3 action" where
  "readPoint3Message = readNested decodePoint3"

interpretation point3_fields: field_handler decodePoint3_field
  by (rule field_handlerI) (simp add: decodePoint3_field_def)

interpretation point3: message_codec writePoint3 decodePoint3
  "\<lambda>_. True"
  "\<lambda>_. True"
proof
  fix x y :: Point3
  show "decodePoint3 (writePoint3 x) y = (True, x)"
    by (cases x, cases y) (simp add: decodePoint3_def writePoint3_def point3_fields.parse_simps
      field_actions decodePoint3_field_def)
qed

record Quaternion =
  quat_x :: f64
  quat_y :: f64
  quat_z :: f64
  quat_w :: f64

definition default_Quaternion :: Quaternion where
  "default_Quaternion = \<lparr>quat_x = 0, quat_y = 0, quat_z = 0, quat_w = f64_one\<rparr>"

definition writeQuaternion :: "Quaternion \<Rightarrow> bytes" where
  "writeQuaternion p =
     w_doubleField 1 (quat_x p)
     @ w_doubleField 2 (quat_y p)
     @ w_doubleField 3 (quat_z p)
     @ w_doubleField 4 (quat_w p)"

definition decodeQuaternion_field :: "Tag \<Rightarrow> Quaternion action" where
  "decodeQuaternion_field tag =
     (if tag_type tag \<noteq> kFixed64 then decline
      else if tag_field tag = 1 then
        store readDouble (\<lambda>v out. out\<lparr>quat_x := v\<rparr>)
      else if tag_field tag = 2 then
        store readDouble (\<lambda>v out. out\<lparr>quat_y := v\<rparr>)
      else if tag_field tag = 3 then
        store readDouble (\<lambda>v out. out\<lparr>quat_z := v\<rparr>)
      else if tag_field tag = 4 then
        store readDouble (\<lambda>v out. out\<lparr>quat_w := v\<rparr>)
      else decline)"

definition decodeQuaternion :: "reader \<Rightarrow> Quaternion \<Rightarrow> bool \<times> Quaternion" where
  "decodeQuaternion = parseFields decodeQuaternion_field"

definition readQuaternionMessage :: "Quaternion action" where
  "readQuaternionMessage = readNested decodeQuaternion"

interpretation quaternion_fields: field_handler decodeQuaternion_field
  by (rule field_handlerI) (simp add: decodeQuaternion_field_def)

interpretation quaternion: message_codec writeQuaternion decodeQuaternion
  "\<lambda>_. True"
  "\<lambda>_. True"
proof
  fix x y :: Quaternion
  show "decodeQuaternion (writeQuaternion x) y = (True, x)"
    by (cases x, cases y) (simp add: decodeQuaternion_def writeQuaternion_def
      quaternion_fields.parse_simps field_actions decodeQuaternion_field_def)
qed

record Pose =
  pose_position :: Vector3
  pose_orientation :: Quaternion

definition default_Pose :: Pose where
  "default_Pose = \<lparr>pose_position = default_Vector3, pose_orientation = default_Quaternion\<rparr>"

definition writePose :: "Pose \<Rightarrow> bytes" where
  "writePose p =
     w_message 1 (writeVector3 (pose_position p))
     @ w_message 2 (writeQuaternion (pose_orientation p))"

definition decodePose_field :: "Tag \<Rightarrow> Pose action" where
  "decodePose_field tag =
     (if tag_type tag \<noteq> kLengthDelimited then decline
      else if tag_field tag = 1 then
        on_field pose_position pose_position_update readVector3Message
      else if tag_field tag = 2 then
        on_field pose_orientation pose_orientation_update readQuaternionMessage
      else decline)"

definition decodePose :: "reader \<Rightarrow> Pose \<Rightarrow> bool \<times> Pose" where
  "decodePose = parseFields decodePose_field"

definition readPoseMessage :: "Pose action" where
  "readPoseMessage = readNested decodePose"

interpretation pose_fields: field_handler decodePose_field
  by (rule field_handlerI) (simp add: decodePose_field_def readQuaternionMessage_def
    readVector3Message_def)

interpretation pose: message_codec writePose decodePose
  "\<lambda>_. True"
  "\<lambda>_. True"
proof
  fix x y :: Pose
  assume "fits (writePose x)"
  then show "decodePose (writePose x) y = (True, x)"
    by (cases x, cases y) (simp add: decodePose_def writePose_def pose_fields.parse_simps
      field_actions decodePose_field_def readQuaternionMessage_def readVector3Message_def
      quaternion.nested vector3.nested fits_lengths)
qed

subsection \<open>Colours\<close>

text \<open>
  A colour is four bytes in the SDK and four doubles between 0 and 1 on the wire. A component
  that is no number reaches the cast to \<open>uint8_t\<close>, whose result the language leaves open: it is
  the parameter \<open>nan_cast\<close> of \<open>normalizedToByte\<close>.
\<close>

record ColorRGBA =
  color_r :: u8
  color_g :: u8
  color_b :: u8
  color_a :: u8

definition default_ColorRGBA :: ColorRGBA where
  "default_ColorRGBA = \<lparr>color_r = 0, color_g = 0, color_b = 0, color_a = 255\<rparr>"

definition writeColor :: "ColorRGBA \<Rightarrow> bytes" where
  "writeColor color =
     w_doubleField 1 (byteToNormalized (color_r color))
     @ w_doubleField 2 (byteToNormalized (color_g color))
     @ w_doubleField 3 (byteToNormalized (color_b color))
     @ w_doubleField 4 (byteToNormalized (color_a color))"

text \<open>The locals \<open>r, g, b, a\<close> of \<open>decodeColor\<close>.\<close>

record color_doubles =
  cd_r :: f64
  cd_g :: f64
  cd_b :: f64
  cd_a :: f64

definition default_color_doubles :: color_doubles where
  "default_color_doubles = \<lparr>cd_r = 0, cd_g = 0, cd_b = 0, cd_a = 0\<rparr>"

definition decodeColor_field :: "Tag \<Rightarrow> color_doubles action" where
  "decodeColor_field tag =
     (if tag_type tag \<noteq> kFixed64 then decline
      else if tag_field tag = 1 then store readDouble (\<lambda>v c. c\<lparr>cd_r := v\<rparr>)
      else if tag_field tag = 2 then store readDouble (\<lambda>v c. c\<lparr>cd_g := v\<rparr>)
      else if tag_field tag = 3 then store readDouble (\<lambda>v c. c\<lparr>cd_b := v\<rparr>)
      else if tag_field tag = 4 then store readDouble (\<lambda>v c. c\<lparr>cd_a := v\<rparr>)
      else decline)"

definition decodeColor :: "(f64 \<Rightarrow> u8) \<Rightarrow> reader \<Rightarrow> ColorRGBA \<Rightarrow> bool \<times> ColorRGBA" where
  "decodeColor nan_cast r out = (case parseFields decodeColor_field r default_color_doubles of
     (ok, c) \<Rightarrow>
       if ok then (True, \<lparr>color_r = normalizedToByte nan_cast (cd_r c), color_g = normalizedToByte nan_cast (cd_g c),
                          color_b = normalizedToByte nan_cast (cd_b c), color_a = normalizedToByte nan_cast (cd_a c)\<rparr>)
       else (False, out))"

definition readColorMessage :: "(f64 \<Rightarrow> u8) \<Rightarrow> ColorRGBA action" where
  "readColorMessage nan_cast = readNested (decodeColor nan_cast)"

interpretation color_fields: field_handler decodeColor_field
  by (rule field_handlerI) (simp add: decodeColor_field_def)

interpretation color: message_codec writeColor "decodeColor nan_cast" "\<lambda>_. True" "\<lambda>_. True" for nan_cast
proof
  fix x y :: ColorRGBA
  show "decodeColor nan_cast (writeColor x) y = (True, x)"
    by (cases x) (simp add: decodeColor_def writeColor_def color_fields.parse_simps
      handle_or_skip_def decodeColor_field_def store_def default_color_doubles_def)
qed

end
