(* ===== verification/PointFields.thy ===== *)
theory PointFields
  imports Geometry
begin

section \<open>Point fields (\<open>builtin/point_field_codec.hpp\<close>, \<open>builtin/point_cloud.hpp\<close>)\<close>

text \<open>
  The description of one channel of a packed record, with its message: shared by the point
  cloud, the voxel grid and the grid map.
\<close>

datatype Datatype =
  kUnknown | kInt8 | kUint8 | kInt16 | kUint16 | kInt32 | kUint32 | kFloat32 | kFloat64

record PointField =
  pf_name :: bytes
  pf_offset :: u32
  pf_datatype :: Datatype
  pf_count :: u32

definition default_PointField :: PointField where
  "default_PointField = \<lparr>pf_name = [], pf_offset = 0, pf_datatype = kUnknown, pf_count = 1\<rparr>"

fun bytesPerElement :: "Datatype \<Rightarrow> u32" where
  "bytesPerElement kInt8 = 1"
| "bytesPerElement kUint8 = 1"
| "bytesPerElement kInt16 = 2"
| "bytesPerElement kUint16 = 2"
| "bytesPerElement kInt32 = 4"
| "bytesPerElement kUint32 = 4"
| "bytesPerElement kFloat32 = 4"
| "bytesPerElement kFloat64 = 8"
| "bytesPerElement kUnknown = 0"

fun pointFieldDatatypeToWire :: "Datatype \<Rightarrow> u32" where
  "pointFieldDatatypeToWire kUnknown = 0"
| "pointFieldDatatypeToWire kInt8 = 1"
| "pointFieldDatatypeToWire kUint8 = 2"
| "pointFieldDatatypeToWire kInt16 = 3"
| "pointFieldDatatypeToWire kUint16 = 4"
| "pointFieldDatatypeToWire kInt32 = 5"
| "pointFieldDatatypeToWire kUint32 = 6"
| "pointFieldDatatypeToWire kFloat32 = 7"
| "pointFieldDatatypeToWire kFloat64 = 8"

definition pointFieldDatatypeFromWire :: "u64 \<Rightarrow> Datatype" where
  "pointFieldDatatypeFromWire v =
     (if v = 1 then kInt8
      else if v = 2 then kUint8
      else if v = 3 then kInt16
      else if v = 4 then kUint16
      else if v = 5 then kInt32
      else if v = 6 then kUint32
      else if v = 7 then kFloat32
      else if v = 8 then kFloat64
      else kUnknown)"

lemma pointFieldDatatypeFromWire_ToWire [simp]:
  "pointFieldDatatypeFromWire (ucast (pointFieldDatatypeToWire dt)) = dt"
  by (cases dt) (simp_all add: pointFieldDatatypeFromWire_def)

definition writePointField :: "PointField \<Rightarrow> bytes" where
  "writePointField field =
     w_string 1 (pf_name field)
     @ w_varint 2 (ucast (pf_offset field))
     @ w_varint 3 (ucast (pointFieldDatatypeToWire (pf_datatype field)))
     @ w_varint 4 (ucast (pf_count field))"

text \<open>
  For any varint field the value is read before the field number is looked at, so an unknown
  varint field is declined with its value already consumed.
\<close>

definition decodePointField_field :: "Tag \<Rightarrow> PointField action" where
  "decodePointField_field tag r out =
     (if tag_field tag = 1 then
        expect tag kLengthDelimited (store readString (\<lambda>v out. out\<lparr>pf_name := v\<rparr>)) r out
      else if tag_type tag \<noteq> kVarint then (False, r, out)
      else case readVarint r of
        (None, r') \<Rightarrow> (False, r', out)
      | (Some v, r') \<Rightarrow>
          if tag_field tag = 2 then (True, r', out\<lparr>pf_offset := ucast v\<rparr>)
          else if tag_field tag = 3 then (True, r', out\<lparr>pf_datatype := pointFieldDatatypeFromWire v\<rparr>)
          else if tag_field tag = 4 then (True, r', out\<lparr>pf_count := ucast v\<rparr>)
          else (False, r', out))"

definition decodePointField :: "reader \<Rightarrow> PointField \<Rightarrow> bool \<times> PointField" where
  "decodePointField = parseFields decodePointField_field"

definition readPointFieldIntoVector :: "((PointField list \<Rightarrow> PointField list) \<Rightarrow> 'a \<Rightarrow> 'a) \<Rightarrow> 'a action" where
  "readPointFieldIntoVector = readIntoVector decodePointField default_PointField"

interpretation point_field_fields: field_handler decodePointField_field
proof
  fix t r out
  show "length (fst (snd (decodePointField_field t r out))) \<le> length r"
    using shrinks_expect [OF shrinks_store [OF readBytes_le [folded readString_def]],
        unfolded shrinks_def, of t kLengthDelimited "\<lambda>v out. out\<lparr>pf_name := v\<rparr>"]
    by (auto simp: decodePointField_field_def split: prod.splits option.splits dest: readVarint_length)
qed

interpretation point_field: message_codec writePointField decodePointField "\<lambda>_. True" "\<lambda>_. True"
proof
  fix x y :: PointField
  assume "fits (writePointField x)"
  then show "decodePointField (writePointField x) y = (True, x)"
    by (cases x, cases y) (simp add: decodePointField_def writePointField_def fits_lengths
      point_field_fields.parse_simps field_actions decodePointField_field_def ucast_up_down)
qed

text \<open>
  The misread of an unknown varint field: \<open>skip\<close> takes the tag of the next field for a varint
  value, and the length of the name for a tag.
\<close>

lemma appendVarint_small: "v < 0x80 \<Longrightarrow> appendVarint v = [ucast v]"
  by (subst appendVarint.simps) (simp add: not_le)

lemma writePointField_start: "writePointField f = 0x0A # appendVarint (of_nat (length (pf_name f)))
    @ pf_name f @ w_varint 2 (ucast (pf_offset f))
    @ w_varint 3 (ucast (pointFieldDatatypeToWire (pf_datatype f))) @ w_varint 4 (ucast (pf_count f))"
proof -
  have "w_tag 1 kLengthDelimited = [0x0A]" by code_simp
  then show ?thesis by (simp add: writePointField_def w_string_def w_bytes_def)
qed

lemma readTag_small:
  assumes "n < 8"
  shows "readTag (appendVarint (of_nat n) @ r) = (None, r)"
proof -
  have "n \<in> {0, 1, 2, 3, 4, 5, 6, 7}" using assms by auto
  then show ?thesis by (auto simp: readTag_def)
qed

lemma decodePointField_unknown_varint:
  assumes "f \<notin> {0, 1, 2, 3, 4}" and "length (pf_name x) < 8"
  shows "fst (decodePointField (w_varint f v @ writePointField x) out) = False"
proof -
  let ?rest = "appendVarint (of_nat (length (pf_name x))) @ pf_name x @ w_varint 2 (ucast (pf_offset x))
    @ w_varint 3 (ucast (pointFieldDatatypeToWire (pf_datatype x))) @ w_varint 4 (ucast (pf_count x))"
  have skip: "readVarint (0x0A # ?rest) = (Some 0x0A, ?rest)"
    by (simp add: readVarint_def)
  have "decodePointField (w_varint f v @ writePointField x) out = parseFields decodePointField_field ?rest out"
    using assms(1) skip unfolding writePointField_start decodePointField_def
    by (simp add: point_field_fields.parse_varint handle_or_skip_def decodePointField_field_def skip_def)
  also have "\<dots> = (False, out)"
    using readTag_small [OF assms(2)] by (subst point_field_fields.parseFields_unfold) simp
  finally show ?thesis by simp
qed

end
