(* ===== verification/WireFormat.thy ===== *)
theory WireFormat
  imports PointFields
begin

section \<open>The public face of a codec\<close>

text \<open>
  Every \<open>*_codec.cpp\<close> offers a pair \<open>serializeX\<close> and \<open>deserializeX\<close>. This theory holds the shape
  that the deserializers share (the test for an empty buffer, the field loop, the error texts),
  the loop of the batch types, and the interface \<open>wire_format\<close> that every pair is proved to
  meet.
\<close>

subsection \<open>Deserializers over \<open>parseFields\<close>\<close>

text \<open>
  \<open>if (data == nullptr || size == 0) return unexpected("X wire: empty buffer")\<close>, then the field
  loop over a fresh object, then \<open>unexpected("X wire: decode failed")\<close> when it fails.
\<close>

definition deserialize_fields :: "string \<Rightarrow> (Tag \<Rightarrow> 'a action) \<Rightarrow> 'a \<Rightarrow> buffer \<Rightarrow> string + 'a" where
  "deserialize_fields name handler init data =
     (if buffer_missing data then Inl (name @ '' wire: empty buffer'')
      else case parseFields handler (buffer_bytes data) init of
        (ok, out) \<Rightarrow> if ok then Inr out else Inl (name @ '' wire: decode failed''))"

subsection \<open>Deserializers of batches\<close>

text \<open>
  The loop of the batch types: a field that is not length-delimited is skipped, the payload of
  any other field is taken out of the buffer, and then decoded when its number is known.
  \<open>dispatch\<close> gives the result for a field number: the object with one more element, the error,
  or the object as it was for a number that is not known.
\<close>

definition batch_body :: "string \<Rightarrow> (u32 \<Rightarrow> reader \<Rightarrow> 'a \<Rightarrow> string + 'a) \<Rightarrow>
    Tag \<Rightarrow> reader \<Rightarrow> 'a \<Rightarrow> (string, 'a) field_step" where
  "batch_body name dispatch tag r out =
     (if tag_type tag \<noteq> kLengthDelimited then NotHandled
      else case readMessage r of
        (None, r') \<Rightarrow> Fail (name @ '' wire: bad nested message length'') out
      | (Some nested, r') \<Rightarrow> (case dispatch (tag_field tag) nested out of
          Inl e \<Rightarrow> Fail e out
        | Inr out' \<Rightarrow> Next r' out'))"

definition deserialize_batch :: "string \<Rightarrow> (u32 \<Rightarrow> reader \<Rightarrow> 'a \<Rightarrow> string + 'a) \<Rightarrow> 'a \<Rightarrow>
    buffer \<Rightarrow> string + 'a" where
  "deserialize_batch name dispatch init data =
     (if buffer_missing data then Inl (name @ '' wire: empty buffer'')
      else case scanFields (name @ '' wire: bad tag'') (name @ '' wire: skip failed'')
                  (batch_body name dispatch) (buffer_bytes data) init of
        (None, out) \<Rightarrow> Inr out
      | (Some e, out) \<Rightarrow> Inl e)"

text \<open>Decode one element into a fresh object and append it, or fail with the error.\<close>

definition push_decoded :: "(reader \<Rightarrow> 'b \<Rightarrow> bool \<times> 'b) \<Rightarrow> 'b \<Rightarrow> string \<Rightarrow>
    (('b list \<Rightarrow> 'b list) \<Rightarrow> 'a \<Rightarrow> 'a) \<Rightarrow> reader \<Rightarrow> 'a \<Rightarrow> string + 'a" where
  "push_decoded decode init e upd nested out = (case decode nested init of
     (ok, v) \<Rightarrow> if ok then Inr (upd (\<lambda>l. l @ [v]) out) else Inl e)"

lemma batch_scanner: "field_scanner (batch_body name dispatch)"
proof
  fix t r out r' out'
  assume "batch_body name dispatch t r out = Next r' out'"
  then show "length r' \<le> length r"
    by (auto simp: batch_body_def dest: readBytes_length [folded readMessage_def]
        split: if_splits prod.splits option.splits sum.splits)
qed

lemma step_shrinks_batch [simp]: "step_shrinks (batch_body name dispatch t)"
  unfolding step_shrinks_def by (intro allI impI) (erule field_scanner.non_growing [OF batch_scanner])

context message_codec
begin

text \<open>A run of elements of one field number, in a batch loop.\<close>

lemma batch_pushed:
  assumes h: "field_scanner body"
    and body: "\<And>r a. body (mkTag f kLengthDelimited) r a = batch_body name dispatch (mkTag f kLengthDelimited) r a"
    and d: "\<And>r a. dispatch f r a = push_decoded decode init e upd r a"
    and f: "f \<noteq> 0" and fresh: "fresh init"
    and upd: "\<And>g g' a. upd g (upd g' a) = upd (g \<circ> g') a" "\<And>a. upd (\<lambda>l. l) a = a"
    and xs: "\<forall>x \<in> set xs. ok x" and fits: "fits (concat (map (\<lambda>x. w_message f (encode x)) xs) @ rest)"
  shows "scanFields t s body (concat (map (\<lambda>x. w_message f (encode x)) xs) @ rest) a
    = scanFields t s body rest (upd (\<lambda>l. l @ xs) a)"
  by (rule scan_pushed [OF h _ f upd xs fits])
    (simp add: body batch_body_def d push_decoded_def roundtrip fresh)

lemma batch_pushed_last:
  assumes h: "field_scanner body"
    and body: "\<And>r a. body (mkTag f kLengthDelimited) r a = batch_body name dispatch (mkTag f kLengthDelimited) r a"
    and d: "\<And>r a. dispatch f r a = push_decoded decode init e upd r a"
    and f: "f \<noteq> 0" and fresh: "fresh init"
    and upd: "\<And>g g' a. upd g (upd g' a) = upd (g \<circ> g') a" "\<And>a. upd (\<lambda>l. l) a = a"
    and xs: "\<forall>x \<in> set xs. ok x" and fits: "fits (concat (map (\<lambda>x. w_message f (encode x)) xs))"
  shows "scanFields t s body (concat (map (\<lambda>x. w_message f (encode x)) xs)) a = (None, upd (\<lambda>l. l @ xs) a)"
  using batch_pushed [of body, OF h body d f fresh upd xs, where rest = "[]"] fits
  by (simp add: field_scanner.scan_Nil [OF h])

lemmas batch_repeated = batch_pushed [OF batch_scanner refl]
lemmas batch_repeated_last = batch_pushed_last [OF batch_scanner refl]

end

subsection \<open>The interface\<close>

text \<open>
  Deserializing what was serialized gives the object back, as \<open>decoded\<close>: the same contents, with
  the byte spans owned by the new object. A null pointer to a buffer of some size is rejected. The hypotheses are the ones
  under which the code can return the object at all: a non-empty encoding, of a size the
  platform has.
\<close>

locale wire_format =
  fixes serialize :: "'a \<Rightarrow> bytes"
    and deserialize :: "buffer \<Rightarrow> string + 'a"
    and decoded :: "'a \<Rightarrow> 'a"
    and ok :: "'a \<Rightarrow> bool"
  assumes roundtrip: "ok x \<Longrightarrow> fits (serialize x) \<Longrightarrow> serialize x \<noteq> [] \<Longrightarrow>
      deserialize (Buffer (serialize x)) = Inr (decoded x)"
    and serialize_decoded: "serialize (decoded x) = serialize x"
    and null_rejected: "n \<noteq> 0 \<Longrightarrow> \<exists>e. deserialize (NullBuffer n) = Inl e"
begin

text \<open>Nothing but the owner of the bytes is lost: equal encodings come from equal contents.\<close>

lemma serialize_inj:
  assumes "ok x" and "ok y" and "fits (serialize x)" and "serialize x \<noteq> []"
    and "serialize x = serialize y"
  shows "decoded x = decoded y"
  using roundtrip [of x] roundtrip [of y] assms by simp

text \<open>Encoding again what was decoded gives the same bytes.\<close>

lemma reserialize:
  assumes "ok x" and "fits (serialize x)" and "serialize x \<noteq> []"
    and "deserialize (Buffer (serialize x)) = Inr y"
  shows "serialize y = serialize x"
  using roundtrip [OF assms(1-3)] assms(4) serialize_decoded by simp

end

text \<open>The contract of a message type gives the interface of its deserializer.\<close>

lemma wire_format_fields:
  assumes codec: "message_codec serialize (parseFields handler) fresh ok'"
    and init: "fresh init" and ok: "\<And>x. ok x \<Longrightarrow> ok' (decoded x)"
    and dec: "\<And>x. serialize (decoded x) = serialize x"
  shows "wire_format serialize (deserialize_fields name handler init) decoded ok"
proof
  fix x
  assume "ok x" and "fits (serialize x)" and ne: "serialize x \<noteq> []"
  then have "parseFields handler (serialize x) init = (True, decoded x)"
    using message_codec.roundtrip [OF codec ok init, of x] dec [of x] by simp
  then show "deserialize_fields name handler init (Buffer (serialize x)) = Inr (decoded x)"
    using ne by (simp add: deserialize_fields_def)
qed (simp_all add: dec deserialize_fields_def)

end
