(* ===== verification/SceneEntities.thy ===== *)
theory SceneEntities
  imports WireFormat
begin

section \<open>Scene entities (\<open>builtin/scene_entities_codec.cpp\<close>)\<close>

text \<open>
  The 3D primitives, the entity that carries lists of them, the deletion commands and the batch
  \<open>SceneEntities\<close>, with their structs from \<open>scene_entities.hpp\<close>. Each message is a \<open>message_codec\<close>;
  the batch is a \<open>wire_format\<close>.
\<close>

subsection \<open>Helpers\<close>

datatype LineType = kLineStrip | kLineLoop | kLineList

fun lineTypeToWire :: "LineType \<Rightarrow> u32" where
  "lineTypeToWire kLineStrip = 1"
| "lineTypeToWire kLineLoop = 2"
| "lineTypeToWire kLineList = 3"

definition lineTypeFromWire :: "u64 \<Rightarrow> LineType" where
  "lineTypeFromWire v = (if v = 2 then kLineLoop else if v = 3 then kLineList else kLineStrip)"

lemma lineTypeFromWire_ToWire [simp]: "lineTypeFromWire (ucast (lineTypeToWire t)) = t"
  by (cases t) (simp_all add: lineTypeFromWire_def)

definition readColorIntoVector :: "(f64 \<Rightarrow> u8) \<Rightarrow>
    ((ColorRGBA list \<Rightarrow> ColorRGBA list) \<Rightarrow> 'a \<Rightarrow> 'a) \<Rightarrow> 'a action" where
  "readColorIntoVector nan_cast = readIntoVector (decodeColor nan_cast) default_ColorRGBA"

definition readPoint3IntoVector :: "((Point3 list \<Rightarrow> Point3 list) \<Rightarrow> 'a \<Rightarrow> 'a) \<Rightarrow> 'a action" where
  "readPoint3IntoVector = readIntoVector decodePoint3 default_Point3"

subsection \<open>The primitives\<close>

record ArrowPrimitive =
  arrow_pose :: Pose
  arrow_shaft_length :: f64
  arrow_shaft_diameter :: f64
  arrow_head_length :: f64
  arrow_head_diameter :: f64
  arrow_color :: ColorRGBA

definition default_ArrowPrimitive :: ArrowPrimitive where
  "default_ArrowPrimitive = \<lparr>arrow_pose = default_Pose, arrow_shaft_length = 0,
     arrow_shaft_diameter = 0, arrow_head_length = 0, arrow_head_diameter = 0,
     arrow_color = default_ColorRGBA\<rparr>"

definition writeArrowPrimitive :: "ArrowPrimitive \<Rightarrow> bytes" where
  "writeArrowPrimitive p =
     w_message 1 (writePose (arrow_pose p))
     @ w_doubleField 2 (arrow_shaft_length p)
     @ w_doubleField 3 (arrow_shaft_diameter p)
     @ w_doubleField 4 (arrow_head_length p)
     @ w_doubleField 5 (arrow_head_diameter p)
     @ w_message 6 (writeColor (arrow_color p))"

definition decodeArrowPrimitive_field :: "(f64 \<Rightarrow> u8) \<Rightarrow> Tag \<Rightarrow> ArrowPrimitive action" where
  "decodeArrowPrimitive_field nan_cast tag =
     (if tag_field tag = 1 then
        expect tag kLengthDelimited (on_field arrow_pose arrow_pose_update readPoseMessage)
      else if tag_field tag = 2 then
        expect tag kFixed64 (store readDouble (\<lambda>v out. out\<lparr>arrow_shaft_length := v\<rparr>))
      else if tag_field tag = 3 then
        expect tag kFixed64 (store readDouble (\<lambda>v out. out\<lparr>arrow_shaft_diameter := v\<rparr>))
      else if tag_field tag = 4 then
        expect tag kFixed64 (store readDouble (\<lambda>v out. out\<lparr>arrow_head_length := v\<rparr>))
      else if tag_field tag = 5 then
        expect tag kFixed64 (store readDouble (\<lambda>v out. out\<lparr>arrow_head_diameter := v\<rparr>))
      else if tag_field tag = 6 then
        expect tag kLengthDelimited (on_field arrow_color arrow_color_update (readColorMessage nan_cast))
      else decline)"

definition decodeArrowPrimitive :: "(f64 \<Rightarrow> u8) \<Rightarrow> reader \<Rightarrow> ArrowPrimitive \<Rightarrow> bool \<times> ArrowPrimitive" where
  "decodeArrowPrimitive nan_cast = parseFields (decodeArrowPrimitive_field nan_cast)"

interpretation arrow_fields: field_handler "decodeArrowPrimitive_field nan_cast" for nan_cast
  by (rule field_handlerI) (simp add: decodeArrowPrimitive_field_def readColorMessage_def
    readPoseMessage_def)

interpretation arrow: message_codec writeArrowPrimitive "decodeArrowPrimitive nan_cast"
  "\<lambda>_. True"
  "\<lambda>_. True" for nan_cast
proof
  fix x y :: ArrowPrimitive
  assume "fits (writeArrowPrimitive x)"
  then show "decodeArrowPrimitive nan_cast (writeArrowPrimitive x) y = (True, x)"
    by (cases x, cases y) (simp add: decodeArrowPrimitive_def writeArrowPrimitive_def
      arrow_fields.parse_simps field_actions decodeArrowPrimitive_field_def readColorMessage_def
      readPoseMessage_def color.nested pose.nested fits_lengths)
qed

record CubePrimitive =
  cube_pose :: Pose
  cube_size :: Vector3
  cube_color :: ColorRGBA

definition default_CubePrimitive :: CubePrimitive where
  "default_CubePrimitive = \<lparr>cube_pose = default_Pose, cube_size = default_Vector3,
     cube_color = default_ColorRGBA\<rparr>"

definition writeCubePrimitive :: "CubePrimitive \<Rightarrow> bytes" where
  "writeCubePrimitive p =
     w_message 1 (writePose (cube_pose p))
     @ w_message 2 (writeVector3 (cube_size p))
     @ w_message 3 (writeColor (cube_color p))"

definition decodeCubePrimitive_field :: "(f64 \<Rightarrow> u8) \<Rightarrow> Tag \<Rightarrow> CubePrimitive action" where
  "decodeCubePrimitive_field nan_cast tag =
     (if tag_type tag \<noteq> kLengthDelimited then decline
      else if tag_field tag = 1 then on_field cube_pose cube_pose_update readPoseMessage
      else if tag_field tag = 2 then on_field cube_size cube_size_update readVector3Message
      else if tag_field tag = 3 then
        on_field cube_color cube_color_update (readColorMessage nan_cast)
      else decline)"

definition decodeCubePrimitive :: "(f64 \<Rightarrow> u8) \<Rightarrow> reader \<Rightarrow> CubePrimitive \<Rightarrow> bool \<times> CubePrimitive" where
  "decodeCubePrimitive nan_cast = parseFields (decodeCubePrimitive_field nan_cast)"

interpretation cube_fields: field_handler "decodeCubePrimitive_field nan_cast" for nan_cast
  by (rule field_handlerI) (simp add: decodeCubePrimitive_field_def readColorMessage_def
    readPoseMessage_def readVector3Message_def)

interpretation cube: message_codec writeCubePrimitive "decodeCubePrimitive nan_cast"
  "\<lambda>_. True"
  "\<lambda>_. True" for nan_cast
proof
  fix x y :: CubePrimitive
  assume "fits (writeCubePrimitive x)"
  then show "decodeCubePrimitive nan_cast (writeCubePrimitive x) y = (True, x)"
    by (cases x, cases y) (simp add: decodeCubePrimitive_def writeCubePrimitive_def
      cube_fields.parse_simps field_actions decodeCubePrimitive_field_def readColorMessage_def
      readPoseMessage_def readVector3Message_def color.nested pose.nested vector3.nested
      fits_lengths)
qed

record SpherePrimitive =
  sphere_pose :: Pose
  sphere_size :: Vector3
  sphere_color :: ColorRGBA

definition default_SpherePrimitive :: SpherePrimitive where
  "default_SpherePrimitive = \<lparr>sphere_pose = default_Pose, sphere_size = default_Vector3,
     sphere_color = default_ColorRGBA\<rparr>"

definition writeSpherePrimitive :: "SpherePrimitive \<Rightarrow> bytes" where
  "writeSpherePrimitive p =
     w_message 1 (writePose (sphere_pose p))
     @ w_message 2 (writeVector3 (sphere_size p))
     @ w_message 3 (writeColor (sphere_color p))"

definition decodeSpherePrimitive_field :: "(f64 \<Rightarrow> u8) \<Rightarrow> Tag \<Rightarrow> SpherePrimitive action" where
  "decodeSpherePrimitive_field nan_cast tag =
     (if tag_type tag \<noteq> kLengthDelimited then decline
      else if tag_field tag = 1 then on_field sphere_pose sphere_pose_update readPoseMessage
      else if tag_field tag = 2 then on_field sphere_size sphere_size_update readVector3Message
      else if tag_field tag = 3 then
        on_field sphere_color sphere_color_update (readColorMessage nan_cast)
      else decline)"

definition decodeSpherePrimitive :: "(f64 \<Rightarrow> u8) \<Rightarrow> reader \<Rightarrow> SpherePrimitive \<Rightarrow> bool \<times> SpherePrimitive" where
  "decodeSpherePrimitive nan_cast = parseFields (decodeSpherePrimitive_field nan_cast)"

interpretation sphere_fields: field_handler "decodeSpherePrimitive_field nan_cast" for nan_cast
  by (rule field_handlerI) (simp add: decodeSpherePrimitive_field_def readColorMessage_def
    readPoseMessage_def readVector3Message_def)

interpretation sphere: message_codec writeSpherePrimitive "decodeSpherePrimitive nan_cast"
  "\<lambda>_. True"
  "\<lambda>_. True" for nan_cast
proof
  fix x y :: SpherePrimitive
  assume "fits (writeSpherePrimitive x)"
  then show "decodeSpherePrimitive nan_cast (writeSpherePrimitive x) y = (True, x)"
    by (cases x, cases y) (simp add: decodeSpherePrimitive_def writeSpherePrimitive_def
      sphere_fields.parse_simps field_actions decodeSpherePrimitive_field_def readColorMessage_def
      readPoseMessage_def readVector3Message_def color.nested pose.nested vector3.nested
      fits_lengths)
qed

record CylinderPrimitive =
  cylinder_pose :: Pose
  cylinder_size :: Vector3
  cylinder_bottom_scale :: f64
  cylinder_top_scale :: f64
  cylinder_color :: ColorRGBA

definition default_CylinderPrimitive :: CylinderPrimitive where
  "default_CylinderPrimitive = \<lparr>cylinder_pose = default_Pose,
     cylinder_size = default_Vector3, cylinder_bottom_scale = f64_one,
     cylinder_top_scale = f64_one, cylinder_color = default_ColorRGBA\<rparr>"

definition writeCylinderPrimitive :: "CylinderPrimitive \<Rightarrow> bytes" where
  "writeCylinderPrimitive p =
     w_message 1 (writePose (cylinder_pose p))
     @ w_message 2 (writeVector3 (cylinder_size p))
     @ w_doubleField 3 (cylinder_bottom_scale p)
     @ w_doubleField 4 (cylinder_top_scale p)
     @ w_message 5 (writeColor (cylinder_color p))"

definition decodeCylinderPrimitive_field :: "(f64 \<Rightarrow> u8) \<Rightarrow> Tag \<Rightarrow> CylinderPrimitive action" where
  "decodeCylinderPrimitive_field nan_cast tag =
     (if tag_field tag = 1 then
        expect tag kLengthDelimited (on_field cylinder_pose cylinder_pose_update readPoseMessage)
      else if tag_field tag = 2 then
        expect tag kLengthDelimited (on_field cylinder_size cylinder_size_update readVector3Message)
      else if tag_field tag = 3 then
        expect tag kFixed64 (store readDouble (\<lambda>v out. out\<lparr>cylinder_bottom_scale := v\<rparr>))
      else if tag_field tag = 4 then
        expect tag kFixed64 (store readDouble (\<lambda>v out. out\<lparr>cylinder_top_scale := v\<rparr>))
      else if tag_field tag = 5 then
        expect tag kLengthDelimited (on_field cylinder_color cylinder_color_update (readColorMessage nan_cast))
      else decline)"

definition decodeCylinderPrimitive :: "(f64 \<Rightarrow> u8) \<Rightarrow> reader \<Rightarrow> CylinderPrimitive \<Rightarrow> bool \<times> CylinderPrimitive" where
  "decodeCylinderPrimitive nan_cast = parseFields (decodeCylinderPrimitive_field nan_cast)"

interpretation cylinder_fields: field_handler "decodeCylinderPrimitive_field nan_cast" for nan_cast
  by (rule field_handlerI) (simp add: decodeCylinderPrimitive_field_def readColorMessage_def
    readPoseMessage_def readVector3Message_def)

interpretation cylinder: message_codec writeCylinderPrimitive "decodeCylinderPrimitive nan_cast"
  "\<lambda>_. True"
  "\<lambda>_. True" for nan_cast
proof
  fix x y :: CylinderPrimitive
  assume "fits (writeCylinderPrimitive x)"
  then show "decodeCylinderPrimitive nan_cast (writeCylinderPrimitive x) y = (True, x)"
    by (cases x, cases y) (simp add: decodeCylinderPrimitive_def writeCylinderPrimitive_def
      cylinder_fields.parse_simps field_actions decodeCylinderPrimitive_field_def
      readColorMessage_def readPoseMessage_def readVector3Message_def color.nested pose.nested
      vector3.nested fits_lengths)
qed

record LinePrimitive =
  line_type :: LineType
  line_pose :: Pose
  line_thickness :: f64
  line_scale_invariant :: bool
  line_points :: "Point3 list"
  line_color :: ColorRGBA
  line_colors :: "ColorRGBA list"
  line_indices :: "u32 list"

definition default_LinePrimitive :: LinePrimitive where
  "default_LinePrimitive = \<lparr>line_type = kLineStrip, line_pose = default_Pose,
     line_thickness = 0, line_scale_invariant = False, line_points = [],
     line_color = default_ColorRGBA, line_colors = [], line_indices = []\<rparr>"

definition writeLinePrimitive :: "LinePrimitive \<Rightarrow> bytes" where
  "writeLinePrimitive p =
     w_varint 1 (ucast (lineTypeToWire (line_type p)))
     @ w_message 2 (writePose (line_pose p))
     @ w_doubleField 3 (line_thickness p)
     @ w_varint 4 (varint_of_bool (line_scale_invariant p))
     @ concat (map (\<lambda>x. w_message 5 (writePoint3 x)) (line_points p))
     @ w_message 6 (writeColor (line_color p))
     @ concat (map (\<lambda>x. w_message 7 (writeColor x)) (line_colors p))
     @ w_packedFixed32 8 (line_indices p)"

definition decodeLinePrimitive_field :: "(f64 \<Rightarrow> u8) \<Rightarrow> Tag \<Rightarrow> LinePrimitive action" where
  "decodeLinePrimitive_field nan_cast tag =
     (if tag_field tag = 1 then
        expect tag kVarint (store readVarint (\<lambda>v out. out\<lparr>line_type := lineTypeFromWire v\<rparr>))
      else if tag_field tag = 2 then
        expect tag kLengthDelimited (on_field line_pose line_pose_update readPoseMessage)
      else if tag_field tag = 3 then
        expect tag kFixed64 (store readDouble (\<lambda>v out. out\<lparr>line_thickness := v\<rparr>))
      else if tag_field tag = 4 then
        expect tag kVarint (store readVarint (\<lambda>v out. out\<lparr>line_scale_invariant := (v \<noteq> 0)\<rparr>))
      else if tag_field tag = 5 then
        expect tag kLengthDelimited (readPoint3IntoVector line_points_update)
      else if tag_field tag = 6 then
        expect tag kLengthDelimited (on_field line_color line_color_update (readColorMessage nan_cast))
      else if tag_field tag = 7 then
        expect tag kLengthDelimited ((readColorIntoVector nan_cast) line_colors_update)
      else if tag_field tag = 8 then
        expect tag kLengthDelimited (on_field line_indices line_indices_update readPackedFixed32)
      else decline)"

definition decodeLinePrimitive :: "(f64 \<Rightarrow> u8) \<Rightarrow> reader \<Rightarrow> LinePrimitive \<Rightarrow> bool \<times> LinePrimitive" where
  "decodeLinePrimitive nan_cast = parseFields (decodeLinePrimitive_field nan_cast)"

interpretation line_fields: field_handler "decodeLinePrimitive_field nan_cast" for nan_cast
  by (rule field_handlerI) (simp add: decodeLinePrimitive_field_def readColorIntoVector_def
    readColorMessage_def readPoint3IntoVector_def readPoseMessage_def)

interpretation line: message_codec writeLinePrimitive "decodeLinePrimitive nan_cast"
  "\<lambda>y. line_points y = [] \<and> line_colors y = [] \<and> line_indices y = []"
  "\<lambda>_. True" for nan_cast
proof
  fix x y :: LinePrimitive
  assume "line_points y = [] \<and> line_colors y = [] \<and> line_indices y = []"
    and "fits (writeLinePrimitive x)"
  then show "decodeLinePrimitive nan_cast (writeLinePrimitive x) y = (True, x)"
    by (cases x, cases y) (auto simp: decodeLinePrimitive_def writeLinePrimitive_def
      line_fields.parse_simps field_actions decodeLinePrimitive_field_def readColorIntoVector_def
      readColorMessage_def readPoint3IntoVector_def readPoseMessage_def color.nested pose.nested
      w_packedFixed32_eq fits_lengths
      point3.repeated [OF line_fields.field_handler_axioms, where f = 5 and init = default_Point3
        and upd = line_points_update]
      color.repeated [OF line_fields.field_handler_axioms, where f = 7 and init = default_ColorRGBA
        and upd = line_colors_update])
qed

record TrianglePrimitive =
  triangle_pose :: Pose
  triangle_points :: "Point3 list"
  triangle_color :: ColorRGBA
  triangle_colors :: "ColorRGBA list"
  triangle_indices :: "u32 list"

definition default_TrianglePrimitive :: TrianglePrimitive where
  "default_TrianglePrimitive = \<lparr>triangle_pose = default_Pose, triangle_points = [],
     triangle_color = default_ColorRGBA, triangle_colors = [], triangle_indices = []\<rparr>"

definition writeTrianglePrimitive :: "TrianglePrimitive \<Rightarrow> bytes" where
  "writeTrianglePrimitive p =
     w_message 1 (writePose (triangle_pose p))
     @ concat (map (\<lambda>x. w_message 2 (writePoint3 x)) (triangle_points p))
     @ w_message 3 (writeColor (triangle_color p))
     @ concat (map (\<lambda>x. w_message 4 (writeColor x)) (triangle_colors p))
     @ w_packedFixed32 5 (triangle_indices p)"

definition decodeTrianglePrimitive_field :: "(f64 \<Rightarrow> u8) \<Rightarrow> Tag \<Rightarrow> TrianglePrimitive action" where
  "decodeTrianglePrimitive_field nan_cast tag =
     (if tag_type tag \<noteq> kLengthDelimited then decline
      else if tag_field tag = 1 then on_field triangle_pose triangle_pose_update readPoseMessage
      else if tag_field tag = 2 then readPoint3IntoVector triangle_points_update
      else if tag_field tag = 3 then
        on_field triangle_color triangle_color_update (readColorMessage nan_cast)
      else if tag_field tag = 4 then (readColorIntoVector nan_cast) triangle_colors_update
      else if tag_field tag = 5 then
        on_field triangle_indices triangle_indices_update readPackedFixed32
      else decline)"

definition decodeTrianglePrimitive :: "(f64 \<Rightarrow> u8) \<Rightarrow> reader \<Rightarrow> TrianglePrimitive \<Rightarrow> bool \<times> TrianglePrimitive" where
  "decodeTrianglePrimitive nan_cast = parseFields (decodeTrianglePrimitive_field nan_cast)"

interpretation triangle_fields: field_handler "decodeTrianglePrimitive_field nan_cast" for nan_cast
  by (rule field_handlerI) (simp add: decodeTrianglePrimitive_field_def
    readColorIntoVector_def readColorMessage_def readPoint3IntoVector_def readPoseMessage_def)

interpretation triangle: message_codec writeTrianglePrimitive "decodeTrianglePrimitive nan_cast"
  "\<lambda>y. triangle_points y = [] \<and> triangle_colors y = [] \<and> triangle_indices y = []"
  "\<lambda>_. True" for nan_cast
proof
  fix x y :: TrianglePrimitive
  assume "triangle_points y = [] \<and> triangle_colors y = [] \<and> triangle_indices y = []"
    and "fits (writeTrianglePrimitive x)"
  then show "decodeTrianglePrimitive nan_cast (writeTrianglePrimitive x) y = (True, x)"
    by (cases x, cases y) (auto simp: decodeTrianglePrimitive_def writeTrianglePrimitive_def
      triangle_fields.parse_simps field_actions decodeTrianglePrimitive_field_def
      readColorIntoVector_def readColorMessage_def readPoint3IntoVector_def readPoseMessage_def
      color.nested pose.nested w_packedFixed32_eq fits_lengths
      point3.repeated [OF triangle_fields.field_handler_axioms, where f = 2 and init = default_Point3
        and upd = triangle_points_update]
      color.repeated [OF triangle_fields.field_handler_axioms, where f = 4 and init = default_ColorRGBA
        and upd = triangle_colors_update])
qed

record TextPrimitive =
  text3d_pose :: Pose
  text3d_billboard :: bool
  text3d_font_size :: f64
  text3d_scale_invariant :: bool
  text3d_color :: ColorRGBA
  text3d_text :: bytes

definition default_TextPrimitive :: TextPrimitive where
  "default_TextPrimitive = \<lparr>text3d_pose = default_Pose, text3d_billboard = False,
     text3d_font_size = 0, text3d_scale_invariant = False, text3d_color = default_ColorRGBA,
     text3d_text = []\<rparr>"

definition writeTextPrimitive :: "TextPrimitive \<Rightarrow> bytes" where
  "writeTextPrimitive p =
     w_message 1 (writePose (text3d_pose p))
     @ w_varint 2 (varint_of_bool (text3d_billboard p))
     @ w_doubleField 3 (text3d_font_size p)
     @ w_varint 4 (varint_of_bool (text3d_scale_invariant p))
     @ w_message 5 (writeColor (text3d_color p))
     @ w_string 6 (text3d_text p)"

definition decodeTextPrimitive_field :: "(f64 \<Rightarrow> u8) \<Rightarrow> Tag \<Rightarrow> TextPrimitive action" where
  "decodeTextPrimitive_field nan_cast tag =
     (if tag_field tag = 1 then
        expect tag kLengthDelimited (on_field text3d_pose text3d_pose_update readPoseMessage)
      else if tag_field tag = 2 then
        expect tag kVarint (store readVarint (\<lambda>v out. out\<lparr>text3d_billboard := (v \<noteq> 0)\<rparr>))
      else if tag_field tag = 3 then
        expect tag kFixed64 (store readDouble (\<lambda>v out. out\<lparr>text3d_font_size := v\<rparr>))
      else if tag_field tag = 4 then
        expect tag kVarint (store readVarint (\<lambda>v out. out\<lparr>text3d_scale_invariant := (v \<noteq> 0)\<rparr>))
      else if tag_field tag = 5 then
        expect tag kLengthDelimited (on_field text3d_color text3d_color_update (readColorMessage nan_cast))
      else if tag_field tag = 6 then
        expect tag kLengthDelimited (store readString (\<lambda>v out. out\<lparr>text3d_text := v\<rparr>))
      else decline)"

definition decodeTextPrimitive :: "(f64 \<Rightarrow> u8) \<Rightarrow> reader \<Rightarrow> TextPrimitive \<Rightarrow> bool \<times> TextPrimitive" where
  "decodeTextPrimitive nan_cast = parseFields (decodeTextPrimitive_field nan_cast)"

interpretation text3d_fields: field_handler "decodeTextPrimitive_field nan_cast" for nan_cast
  by (rule field_handlerI) (simp add: decodeTextPrimitive_field_def readColorMessage_def
    readPoseMessage_def)

interpretation text3d: message_codec writeTextPrimitive "decodeTextPrimitive nan_cast"
  "\<lambda>_. True"
  "\<lambda>_. True" for nan_cast
proof
  fix x y :: TextPrimitive
  assume "fits (writeTextPrimitive x)"
  then show "decodeTextPrimitive nan_cast (writeTextPrimitive x) y = (True, x)"
    by (cases x, cases y) (simp add: decodeTextPrimitive_def writeTextPrimitive_def
      text3d_fields.parse_simps field_actions decodeTextPrimitive_field_def readColorMessage_def
      readPoseMessage_def color.nested pose.nested fits_lengths)
qed

record AxesPrimitive =
  axes_pose :: Pose
  axes_length :: f64
  axes_thickness :: f64
  axes_scale_invariant :: bool

definition default_AxesPrimitive :: AxesPrimitive where
  "default_AxesPrimitive = \<lparr>axes_pose = default_Pose, axes_length = 0, axes_thickness = 0,
     axes_scale_invariant = False\<rparr>"

definition writeAxesPrimitive :: "AxesPrimitive \<Rightarrow> bytes" where
  "writeAxesPrimitive p =
     w_message 1 (writePose (axes_pose p))
     @ w_doubleField 2 (axes_length p)
     @ w_doubleField 3 (axes_thickness p)
     @ w_varint 4 (varint_of_bool (axes_scale_invariant p))"

definition decodeAxesPrimitive_field :: "Tag \<Rightarrow> AxesPrimitive action" where
  "decodeAxesPrimitive_field tag =
     (if tag_field tag = 1 then
        expect tag kLengthDelimited (on_field axes_pose axes_pose_update readPoseMessage)
      else if tag_field tag = 2 then
        expect tag kFixed64 (store readDouble (\<lambda>v out. out\<lparr>axes_length := v\<rparr>))
      else if tag_field tag = 3 then
        expect tag kFixed64 (store readDouble (\<lambda>v out. out\<lparr>axes_thickness := v\<rparr>))
      else if tag_field tag = 4 then
        expect tag kVarint (store readVarint (\<lambda>v out. out\<lparr>axes_scale_invariant := (v \<noteq> 0)\<rparr>))
      else decline)"

definition decodeAxesPrimitive :: "reader \<Rightarrow> AxesPrimitive \<Rightarrow> bool \<times> AxesPrimitive" where
  "decodeAxesPrimitive = parseFields decodeAxesPrimitive_field"

interpretation axes_fields: field_handler decodeAxesPrimitive_field
  by (rule field_handlerI) (simp add: decodeAxesPrimitive_field_def readPoseMessage_def)

interpretation axes: message_codec writeAxesPrimitive decodeAxesPrimitive
  "\<lambda>_. True"
  "\<lambda>_. True"
proof
  fix x y :: AxesPrimitive
  assume "fits (writeAxesPrimitive x)"
  then show "decodeAxesPrimitive (writeAxesPrimitive x) y = (True, x)"
    by (cases x, cases y) (simp add: decodeAxesPrimitive_def writeAxesPrimitive_def
      axes_fields.parse_simps field_actions decodeAxesPrimitive_field_def readPoseMessage_def
      pose.nested fits_lengths)
qed

record ModelPrimitive =
  model_pose :: Pose
  model_scale :: Vector3
  model_color :: ColorRGBA
  model_override_color :: bool
  model_url :: bytes
  model_media_type :: bytes
  model_data :: bytes

definition default_ModelPrimitive :: ModelPrimitive where
  "default_ModelPrimitive = \<lparr>model_pose = default_Pose, model_scale = default_Vector3,
     model_color = default_ColorRGBA, model_override_color = False, model_url = [],
     model_media_type = [], model_data = []\<rparr>"

definition writeModelPrimitive :: "ModelPrimitive \<Rightarrow> bytes" where
  "writeModelPrimitive p =
     w_message 1 (writePose (model_pose p))
     @ w_message 2 (writeVector3 (model_scale p))
     @ w_message 3 (writeColor (model_color p))
     @ w_varint 4 (varint_of_bool (model_override_color p))
     @ w_string 5 (model_url p)
     @ w_string 6 (model_media_type p)
     @ (if model_data p \<noteq> [] then w_bytes 7 (model_data p) else [])"

definition decodeModelPrimitive_field :: "(f64 \<Rightarrow> u8) \<Rightarrow> Tag \<Rightarrow> ModelPrimitive action" where
  "decodeModelPrimitive_field nan_cast tag =
     (if tag_field tag = 1 then
        expect tag kLengthDelimited (on_field model_pose model_pose_update readPoseMessage)
      else if tag_field tag = 2 then
        expect tag kLengthDelimited (on_field model_scale model_scale_update readVector3Message)
      else if tag_field tag = 3 then
        expect tag kLengthDelimited (on_field model_color model_color_update (readColorMessage nan_cast))
      else if tag_field tag = 4 then
        expect tag kVarint (store readVarint (\<lambda>v out. out\<lparr>model_override_color := (v \<noteq> 0)\<rparr>))
      else if tag_field tag = 5 then
        expect tag kLengthDelimited (store readString (\<lambda>v out. out\<lparr>model_url := v\<rparr>))
      else if tag_field tag = 6 then
        expect tag kLengthDelimited (store readString (\<lambda>v out. out\<lparr>model_media_type := v\<rparr>))
      else if tag_field tag = 7 then
        expect tag kLengthDelimited (store readBytes (\<lambda>v out. out\<lparr>model_data := v\<rparr>))
      else decline)"

definition decodeModelPrimitive :: "(f64 \<Rightarrow> u8) \<Rightarrow> reader \<Rightarrow> ModelPrimitive \<Rightarrow> bool \<times> ModelPrimitive" where
  "decodeModelPrimitive nan_cast = parseFields (decodeModelPrimitive_field nan_cast)"

interpretation model_fields: field_handler "decodeModelPrimitive_field nan_cast" for nan_cast
  by (rule field_handlerI) (simp add: decodeModelPrimitive_field_def readColorMessage_def
    readPoseMessage_def readVector3Message_def)

interpretation model: message_codec writeModelPrimitive "decodeModelPrimitive nan_cast"
  "\<lambda>y. model_data y = []"
  "\<lambda>_. True" for nan_cast
proof
  fix x y :: ModelPrimitive
  assume "model_data y = []"
    and "fits (writeModelPrimitive x)"
  then show "decodeModelPrimitive nan_cast (writeModelPrimitive x) y = (True, x)"
    by (cases x, cases y) (auto simp: decodeModelPrimitive_def writeModelPrimitive_def
      model_fields.parse_simps field_actions decodeModelPrimitive_field_def readColorMessage_def
      readPoseMessage_def readVector3Message_def color.nested pose.nested vector3.nested
      fits_lengths)
qed

subsection \<open>Deletions and metadata\<close>

datatype DeletionType = kMatchingId | kAll

fun deletionTypeValue :: "DeletionType \<Rightarrow> u64" where
  "deletionTypeValue kMatchingId = 0"
| "deletionTypeValue kAll = 1"

lemma deletionType_value [simp]: "(if deletionTypeValue t = 1 then kAll else kMatchingId) = t"
  by (cases t) simp_all

record SceneEntityDeletion =
  deletion_type :: DeletionType
  deletion_timestamp :: Timestamp
  deletion_id :: bytes

definition default_SceneEntityDeletion :: SceneEntityDeletion where
  "default_SceneEntityDeletion = \<lparr>deletion_type = kMatchingId, deletion_timestamp = 0,
     deletion_id = []\<rparr>"

definition writeSceneEntityDeletion :: "SceneEntityDeletion \<Rightarrow> bytes" where
  "writeSceneEntityDeletion p =
     w_message 1 (writeTimestamp (deletion_timestamp p))
     @ w_varint 2 (deletionTypeValue (deletion_type p))
     @ w_string 3 (deletion_id p)"

definition decodeSceneEntityDeletion_field :: "Tag \<Rightarrow> SceneEntityDeletion action" where
  "decodeSceneEntityDeletion_field tag =
     (if tag_field tag = 1 then
        expect tag kLengthDelimited (on_field deletion_timestamp deletion_timestamp_update readTimestampMessage)
      else if tag_field tag = 2 then
        expect tag kVarint (store readVarint (\<lambda>v out. out\<lparr>deletion_type := (if v = 1 then kAll else kMatchingId)\<rparr>))
      else if tag_field tag = 3 then
        expect tag kLengthDelimited (store readString (\<lambda>v out. out\<lparr>deletion_id := v\<rparr>))
      else decline)"

definition decodeSceneEntityDeletion :: "reader \<Rightarrow> SceneEntityDeletion \<Rightarrow> bool \<times> SceneEntityDeletion" where
  "decodeSceneEntityDeletion = parseFields decodeSceneEntityDeletion_field"

interpretation deletion_fields: field_handler decodeSceneEntityDeletion_field
  by (rule field_handlerI) (simp add: decodeSceneEntityDeletion_field_def
    readTimestampMessage_def)

interpretation deletion: message_codec writeSceneEntityDeletion decodeSceneEntityDeletion
  "\<lambda>_. True"
  "\<lambda>_. True"
proof
  fix x y :: SceneEntityDeletion
  assume "fits (writeSceneEntityDeletion x)"
  then show "decodeSceneEntityDeletion (writeSceneEntityDeletion x) y = (True, x)"
    by (cases x, cases y) (simp add: decodeSceneEntityDeletion_def writeSceneEntityDeletion_def
      deletion_fields.parse_simps field_actions decodeSceneEntityDeletion_field_def
      readTimestampMessage_def timestamp.nested fits_lengths)
qed

record KeyValuePair =
  kv_key :: bytes
  kv_value :: bytes

definition default_KeyValuePair :: KeyValuePair where
  "default_KeyValuePair = \<lparr>kv_key = [], kv_value = []\<rparr>"

definition writeKeyValuePair :: "KeyValuePair \<Rightarrow> bytes" where
  "writeKeyValuePair p =
     w_string 1 (kv_key p)
     @ w_string 2 (kv_value p)"

definition decodeKeyValuePair_field :: "Tag \<Rightarrow> KeyValuePair action" where
  "decodeKeyValuePair_field tag =
     (if tag_type tag \<noteq> kLengthDelimited then decline
      else if tag_field tag = 1 then
        store readString (\<lambda>v out. out\<lparr>kv_key := v\<rparr>)
      else if tag_field tag = 2 then
        store readString (\<lambda>v out. out\<lparr>kv_value := v\<rparr>)
      else decline)"

definition decodeKeyValuePair :: "reader \<Rightarrow> KeyValuePair \<Rightarrow> bool \<times> KeyValuePair" where
  "decodeKeyValuePair = parseFields decodeKeyValuePair_field"

interpretation key_value_fields: field_handler decodeKeyValuePair_field
  by (rule field_handlerI) (simp add: decodeKeyValuePair_field_def)

interpretation key_value: message_codec writeKeyValuePair decodeKeyValuePair
  "\<lambda>_. True"
  "\<lambda>_. True"
proof
  fix x y :: KeyValuePair
  assume "fits (writeKeyValuePair x)"
  then show "decodeKeyValuePair (writeKeyValuePair x) y = (True, x)"
    by (cases x, cases y) (simp add: decodeKeyValuePair_def writeKeyValuePair_def
      key_value_fields.parse_simps field_actions decodeKeyValuePair_field_def fits_lengths)
qed

subsection \<open>The entity\<close>

record SceneEntity =
  entity_timestamp :: Timestamp
  entity_frame_id :: bytes
  entity_id :: bytes
  entity_lifetime_ns :: Timestamp
  entity_frame_locked :: bool
  entity_metadata :: "KeyValuePair list"
  entity_arrows :: "ArrowPrimitive list"
  entity_cubes :: "CubePrimitive list"
  entity_spheres :: "SpherePrimitive list"
  entity_cylinders :: "CylinderPrimitive list"
  entity_lines :: "LinePrimitive list"
  entity_triangles :: "TrianglePrimitive list"
  entity_texts :: "TextPrimitive list"
  entity_models :: "ModelPrimitive list"
  entity_axes :: "AxesPrimitive list"

definition default_SceneEntity :: SceneEntity where
  "default_SceneEntity = \<lparr>entity_timestamp = 0, entity_frame_id = [], entity_id = [],
     entity_lifetime_ns = 0, entity_frame_locked = False, entity_metadata = [],
     entity_arrows = [], entity_cubes = [], entity_spheres = [], entity_cylinders = [],
     entity_lines = [], entity_triangles = [], entity_texts = [], entity_models = [],
     entity_axes = []\<rparr>"

definition writeSceneEntity :: "SceneEntity \<Rightarrow> bytes" where
  "writeSceneEntity p =
     w_message 1 (writeTimestamp (entity_timestamp p))
     @ w_string 2 (entity_frame_id p)
     @ w_string 3 (entity_id p)
     @ w_message 4 (writeTimestamp (entity_lifetime_ns p))
     @ w_varint 5 (varint_of_bool (entity_frame_locked p))
     @ concat (map (\<lambda>x. w_message 6 (writeKeyValuePair x)) (entity_metadata p))
     @ concat (map (\<lambda>x. w_message 7 (writeArrowPrimitive x)) (entity_arrows p))
     @ concat (map (\<lambda>x. w_message 8 (writeCubePrimitive x)) (entity_cubes p))
     @ concat (map (\<lambda>x. w_message 9 (writeSpherePrimitive x)) (entity_spheres p))
     @ concat (map (\<lambda>x. w_message 10 (writeCylinderPrimitive x)) (entity_cylinders p))
     @ concat (map (\<lambda>x. w_message 11 (writeLinePrimitive x)) (entity_lines p))
     @ concat (map (\<lambda>x. w_message 12 (writeTrianglePrimitive x)) (entity_triangles p))
     @ concat (map (\<lambda>x. w_message 13 (writeTextPrimitive x)) (entity_texts p))
     @ concat (map (\<lambda>x. w_message 14 (writeModelPrimitive x)) (entity_models p))
     @ concat (map (\<lambda>x. w_message 15 (writeAxesPrimitive x)) (entity_axes p))"

definition decodeSceneEntity_field :: "(f64 \<Rightarrow> u8) \<Rightarrow> Tag \<Rightarrow> SceneEntity action" where
  "decodeSceneEntity_field nan_cast tag =
     (if tag_field tag = 1 then
        expect tag kLengthDelimited (on_field entity_timestamp entity_timestamp_update readTimestampMessage)
      else if tag_field tag = 2 then
        expect tag kLengthDelimited (store readString (\<lambda>v out. out\<lparr>entity_frame_id := v\<rparr>))
      else if tag_field tag = 3 then
        expect tag kLengthDelimited (store readString (\<lambda>v out. out\<lparr>entity_id := v\<rparr>))
      else if tag_field tag = 4 then
        expect tag kLengthDelimited (on_field entity_lifetime_ns entity_lifetime_ns_update readTimestampMessage)
      else if tag_field tag = 5 then
        expect tag kVarint (store readVarint (\<lambda>v out. out\<lparr>entity_frame_locked := (v \<noteq> 0)\<rparr>))
      else if tag_field tag = 6 then
        expect tag kLengthDelimited (readIntoVector decodeKeyValuePair default_KeyValuePair entity_metadata_update)
      else if tag_field tag = 7 then
        expect tag kLengthDelimited (readIntoVector (decodeArrowPrimitive nan_cast) default_ArrowPrimitive entity_arrows_update)
      else if tag_field tag = 8 then
        expect tag kLengthDelimited (readIntoVector (decodeCubePrimitive nan_cast) default_CubePrimitive entity_cubes_update)
      else if tag_field tag = 9 then
        expect tag kLengthDelimited (readIntoVector (decodeSpherePrimitive nan_cast) default_SpherePrimitive entity_spheres_update)
      else if tag_field tag = 10 then
        expect tag kLengthDelimited (readIntoVector (decodeCylinderPrimitive nan_cast) default_CylinderPrimitive entity_cylinders_update)
      else if tag_field tag = 11 then
        expect tag kLengthDelimited (readIntoVector (decodeLinePrimitive nan_cast) default_LinePrimitive entity_lines_update)
      else if tag_field tag = 12 then
        expect tag kLengthDelimited (readIntoVector (decodeTrianglePrimitive nan_cast) default_TrianglePrimitive entity_triangles_update)
      else if tag_field tag = 13 then
        expect tag kLengthDelimited (readIntoVector (decodeTextPrimitive nan_cast) default_TextPrimitive entity_texts_update)
      else if tag_field tag = 14 then
        expect tag kLengthDelimited (readIntoVector (decodeModelPrimitive nan_cast) default_ModelPrimitive entity_models_update)
      else if tag_field tag = 15 then
        expect tag kLengthDelimited (readIntoVector decodeAxesPrimitive default_AxesPrimitive entity_axes_update)
      else decline)"

definition decodeSceneEntity :: "(f64 \<Rightarrow> u8) \<Rightarrow> reader \<Rightarrow> SceneEntity \<Rightarrow> bool \<times> SceneEntity" where
  "decodeSceneEntity nan_cast = parseFields (decodeSceneEntity_field nan_cast)"

interpretation entity_fields: field_handler "decodeSceneEntity_field nan_cast" for nan_cast
  by (rule field_handlerI) (simp add: decodeSceneEntity_field_def readTimestampMessage_def)

interpretation entity: message_codec writeSceneEntity "decodeSceneEntity nan_cast"
  "\<lambda>y. entity_metadata y = [] \<and> entity_arrows y = [] \<and> entity_cubes y = [] \<and> entity_spheres y = [] \<and> entity_cylinders y = [] \<and> entity_lines y = [] \<and> entity_triangles y = [] \<and> entity_texts y = [] \<and> entity_models y = [] \<and> entity_axes y = []"
  "\<lambda>_. True" for nan_cast
proof
  fix x y :: SceneEntity
  assume "entity_metadata y = [] \<and> entity_arrows y = [] \<and> entity_cubes y = [] \<and> entity_spheres y = [] \<and> entity_cylinders y = [] \<and> entity_lines y = [] \<and> entity_triangles y = [] \<and> entity_texts y = [] \<and> entity_models y = [] \<and> entity_axes y = []"
    and "fits (writeSceneEntity x)"
  then show "decodeSceneEntity nan_cast (writeSceneEntity x) y = (True, x)"
    by (cases x, cases y) (simp add: decodeSceneEntity_def writeSceneEntity_def
      entity_fields.parse_simps field_actions decodeSceneEntity_field_def readTimestampMessage_def
      timestamp.nested fits_lengths default_LinePrimitive_def default_ModelPrimitive_def
      default_TrianglePrimitive_def
      key_value.repeated [OF entity_fields.field_handler_axioms, where f = 6 and init = default_KeyValuePair
        and upd = entity_metadata_update]
      arrow.repeated [OF entity_fields.field_handler_axioms, where f = 7 and init = default_ArrowPrimitive
        and upd = entity_arrows_update]
      cube.repeated [OF entity_fields.field_handler_axioms, where f = 8 and init = default_CubePrimitive
        and upd = entity_cubes_update]
      sphere.repeated [OF entity_fields.field_handler_axioms, where f = 9 and init = default_SpherePrimitive
        and upd = entity_spheres_update]
      cylinder.repeated [OF entity_fields.field_handler_axioms, where f = 10 and init = default_CylinderPrimitive
        and upd = entity_cylinders_update]
      line.repeated [OF entity_fields.field_handler_axioms, where f = 11 and init = default_LinePrimitive
        and upd = entity_lines_update]
      triangle.repeated [OF entity_fields.field_handler_axioms, where f = 12 and init = default_TrianglePrimitive
        and upd = entity_triangles_update]
      text3d.repeated [OF entity_fields.field_handler_axioms, where f = 13 and init = default_TextPrimitive
        and upd = entity_texts_update]
      model.repeated [OF entity_fields.field_handler_axioms, where f = 14 and init = default_ModelPrimitive
        and upd = entity_models_update]
      axes.repeated_last [OF entity_fields.field_handler_axioms, where f = 15 and init = default_AxesPrimitive
        and upd = entity_axes_update])
qed

subsection \<open>The batch\<close>

record SceneEntities =
  scene_entities :: "SceneEntity list"
  scene_deletions :: "SceneEntityDeletion list"

definition default_SceneEntities :: SceneEntities where
  "default_SceneEntities = \<lparr>scene_entities = [], scene_deletions = []\<rparr>"

definition SceneEntities_empty :: "SceneEntities \<Rightarrow> bool" where
  "SceneEntities_empty s \<longleftrightarrow> scene_entities s = [] \<and> scene_deletions s = []"

definition serializeSceneEntities :: "SceneEntities \<Rightarrow> bytes" where
  "serializeSceneEntities s =
     concat (map (\<lambda>d. w_message 1 (writeSceneEntityDeletion d)) (scene_deletions s))
     @ concat (map (\<lambda>e. w_message 2 (writeSceneEntity e)) (scene_entities s))"

definition scene_dispatch :: "(f64 \<Rightarrow> u8) \<Rightarrow> u32 \<Rightarrow> reader \<Rightarrow> SceneEntities \<Rightarrow> string + SceneEntities" where
  "scene_dispatch nan_cast field nested s =
     (if field = 1 then
        push_decoded decodeSceneEntityDeletion default_SceneEntityDeletion
          ''SceneEntities wire: SceneEntityDeletion decode failed'' scene_deletions_update nested s
      else if field = 2 then
        push_decoded (decodeSceneEntity nan_cast) default_SceneEntity
          ''SceneEntities wire: SceneEntity decode failed'' scene_entities_update nested s
      else Inr s)"

definition deserializeSceneEntities :: "(f64 \<Rightarrow> u8) \<Rightarrow> buffer \<Rightarrow> string + SceneEntities" where
  "deserializeSceneEntities nan_cast =
     deserialize_batch ''SceneEntities'' (scene_dispatch nan_cast) default_SceneEntities"

interpretation scene_wire: wire_format serializeSceneEntities "deserializeSceneEntities nan_cast"
  "\<lambda>x. x" "\<lambda>_. True" for nan_cast
proof
  fix x
  assume fits: "fits (serializeSceneEntities x)" and ne: "serializeSceneEntities x \<noteq> []"
  have fits': "fits (concat (map (\<lambda>e. w_message 2 (writeSceneEntity e)) (scene_entities x)))"
    using fits unfolding serializeSceneEntities_def by (rule fits_appendD)
  have deletions: "scanFields t s (batch_body name (scene_dispatch nan_cast)) (serializeSceneEntities x)
      default_SceneEntities
    = scanFields t s (batch_body name (scene_dispatch nan_cast))
        (concat (map (\<lambda>e. w_message 2 (writeSceneEntity e)) (scene_entities x)))
        (scene_deletions_update (\<lambda>l. l @ scene_deletions x) default_SceneEntities)" for t s name
    using fits unfolding serializeSceneEntities_def
    by (intro deletion.batch_repeated [where init = default_SceneEntityDeletion
        and e = "''SceneEntities wire: SceneEntityDeletion decode failed''"])
      (simp_all add: scene_dispatch_def)
  have entities: "scanFields t s (batch_body name (scene_dispatch nan_cast))
        (concat (map (\<lambda>e. w_message 2 (writeSceneEntity e)) (scene_entities x)))
        (scene_deletions_update (\<lambda>l. l @ scene_deletions x) default_SceneEntities)
    = (None, scene_entities_update (\<lambda>l. l @ scene_entities x)
        (scene_deletions_update (\<lambda>l. l @ scene_deletions x) default_SceneEntities))" for t s name
    using fits' by (intro entity.batch_repeated_last [where init = default_SceneEntity
        and e = "''SceneEntities wire: SceneEntity decode failed''"])
      (simp_all add: scene_dispatch_def default_SceneEntity_def)
  have "scene_entities_update (\<lambda>l. l @ scene_entities x)
    (scene_deletions_update (\<lambda>l. l @ scene_deletions x) default_SceneEntities) = x"
    by (simp add: default_SceneEntities_def)
  then show "deserializeSceneEntities nan_cast (Buffer (serializeSceneEntities x)) = Inr x"
    using ne by (simp add: deserializeSceneEntities_def deserialize_batch_def deletions entities)
qed (simp_all add: deserializeSceneEntities_def deserialize_batch_def)

end
