(* ===== verification/ImageAnnotations.thy ===== *)
theory ImageAnnotations
  imports WireFormat
begin

section \<open>Image annotations (\<open>builtin/image_annotations_codec.cpp\<close>)\<close>

text \<open>
  The 2D overlay: points, circles and texts over an image, with their structs from
  \<open>image_annotations.hpp\<close>. The decoders are loops written out by hand (\<open>scanFields\<close>): a known
  field that cannot be read fails at once. The radius of a circle is a diameter on the wire.
\<close>

subsection \<open>The data\<close>

datatype AnnotationTopology = kPoints | kLineList | kLineStrip | kLineLoop

record Point2 =
  p2_x :: f64
  p2_y :: f64

text \<open>The doubles 2.0 and 14.0.\<close>

definition f64_two :: f64 where "f64_two = 0x4000000000000000"
definition f64_fourteen :: f64 where "f64_fourteen = 0x402C000000000000"

definition rgba :: "u8 \<Rightarrow> u8 \<Rightarrow> u8 \<Rightarrow> u8 \<Rightarrow> ColorRGBA" where
  "rgba r g b a = \<lparr>color_r = r, color_g = g, color_b = b, color_a = a\<rparr>"

record PointsAnnotation =
  pa_topology :: AnnotationTopology
  pa_points :: "Point2 list"
  pa_thickness :: f64
  pa_color :: ColorRGBA
  pa_colors :: "ColorRGBA list"
  pa_fill_color :: ColorRGBA

record CircleAnnotation =
  ca_center :: Point2
  ca_radius :: f64
  ca_thickness :: f64
  ca_color :: ColorRGBA
  ca_fill_color :: ColorRGBA

record TextAnnotation =
  ta_position :: Point2
  ta_font_size :: f64
  ta_color :: ColorRGBA
  ta_text :: bytes

record ImageAnnotations =
  ia_timestamp :: Timestamp
  ia_image_topic :: bytes
  ia_points :: "PointsAnnotation list"
  ia_circles :: "CircleAnnotation list"
  ia_texts :: "TextAnnotation list"

definition default_Point2 :: Point2 where
  "default_Point2 = \<lparr>p2_x = 0, p2_y = 0\<rparr>"

definition default_PointsAnnotation :: PointsAnnotation where
  "default_PointsAnnotation = \<lparr>pa_topology = kPoints, pa_points = [], pa_thickness = f64_two,
     pa_color = rgba 0 255 0 255, pa_colors = [], pa_fill_color = rgba 0 0 0 0\<rparr>"

definition default_CircleAnnotation :: CircleAnnotation where
  "default_CircleAnnotation = \<lparr>ca_center = default_Point2, ca_radius = f64_one, ca_thickness = f64_two,
     ca_color = rgba 0 255 0 255, ca_fill_color = rgba 0 0 0 0\<rparr>"

definition default_TextAnnotation :: TextAnnotation where
  "default_TextAnnotation = \<lparr>ta_position = default_Point2, ta_font_size = f64_fourteen,
     ta_color = rgba 255 255 255 255, ta_text = []\<rparr>"

definition default_ImageAnnotations :: ImageAnnotations where
  "default_ImageAnnotations =
     \<lparr>ia_timestamp = 0, ia_image_topic = [], ia_points = [], ia_circles = [], ia_texts = []\<rparr>"

definition ImageAnnotations_empty :: "ImageAnnotations \<Rightarrow> bool" where
  "ImageAnnotations_empty a \<longleftrightarrow> ia_points a = [] \<and> ia_circles a = [] \<and> ia_texts a = []"

subsection \<open>Writers\<close>

definition writePoint2 :: "Point2 \<Rightarrow> bytes" where
  "writePoint2 p = w_doubleField 1 (p2_x p) @ w_doubleField 2 (p2_y p)"

fun topologyToEnum :: "AnnotationTopology \<Rightarrow> u32" where
  "topologyToEnum kPoints = 1"
| "topologyToEnum kLineLoop = 2"
| "topologyToEnum kLineStrip = 3"
| "topologyToEnum kLineList = 4"

definition writePointsAnnotation :: "PointsAnnotation \<Rightarrow> bytes" where
  "writePointsAnnotation p =
     w_varint 2 (ucast (topologyToEnum (pa_topology p)))
     @ concat (map (\<lambda>x. w_message 3 (writePoint2 x)) (pa_points p))
     @ w_message 4 (writeColor (pa_color p))
     @ concat (map (\<lambda>x. w_message 5 (writeColor x)) (pa_colors p))
     @ w_message 6 (writeColor (pa_fill_color p))
     @ w_doubleField 7 (pa_thickness p)"

definition writeCircleAnnotation :: "CircleAnnotation \<Rightarrow> bytes" where
  "writeCircleAnnotation c =
     w_message 2 (writePoint2 (ca_center c))
     @ w_doubleField 3 (f64_double (ca_radius c))
     @ w_doubleField 4 (ca_thickness c)
     @ w_message 5 (writeColor (ca_fill_color c))
     @ w_message 6 (writeColor (ca_color c))"

definition writeTextAnnotation :: "TextAnnotation \<Rightarrow> bytes" where
  "writeTextAnnotation t =
     w_message 2 (writePoint2 (ta_position t))
     @ w_string 3 (ta_text t)
     @ w_doubleField 4 (ta_font_size t)
     @ w_message 5 (writeColor (ta_color t))"

definition mapTopology :: "u64 \<Rightarrow> AnnotationTopology" where
  "mapTopology v =
     (if v = 1 then kPoints
      else if v = 2 then kLineLoop
      else if v = 3 then kLineStrip
      else if v = 4 then kLineList
      else kPoints)"

lemma mapTopology_ToEnum [simp]: "mapTopology (ucast (topologyToEnum t)) = t"
  by (cases t) (simp_all add: mapTopology_def)

subsection \<open>Decoders\<close>

definition decodePoint2_body :: "Tag \<Rightarrow> reader \<Rightarrow> Point2 \<Rightarrow> (unit, Point2) field_step" where
  "decodePoint2_body tag =
     (if tag_field tag = 1 \<and> tag_type tag = kFixed64 then
        or_fail () (store readDouble (\<lambda>v out. out\<lparr>p2_x := v\<rparr>))
      else if tag_field tag = 2 \<and> tag_type tag = kFixed64 then
        or_fail () (store readDouble (\<lambda>v out. out\<lparr>p2_y := v\<rparr>))
      else not_handled)"

definition decodePoint2 :: "reader \<Rightarrow> Point2 \<Rightarrow> bool \<times> Point2" where
  "decodePoint2 = scan_bool decodePoint2_body"

definition decodeAnnotationColor_body :: "Tag \<Rightarrow> reader \<Rightarrow> color_doubles \<Rightarrow> (unit, color_doubles) field_step" where
  "decodeAnnotationColor_body tag =
     (if tag_type tag = kFixed64 \<and> 1 \<le> tag_field tag \<and> tag_field tag \<le> 4 then
        or_fail () (store readDouble (\<lambda>v c.
          if tag_field tag = 1 then c\<lparr>cd_r := v\<rparr>
          else if tag_field tag = 2 then c\<lparr>cd_g := v\<rparr>
          else if tag_field tag = 3 then c\<lparr>cd_b := v\<rparr>
          else if tag_field tag = 4 then c\<lparr>cd_a := v\<rparr>
          else c))
      else not_handled)"

text \<open>The locals start at 0, but alpha at 1.\<close>

definition decodeAnnotationColor :: "(f64 \<Rightarrow> u8) \<Rightarrow> reader \<Rightarrow> ColorRGBA \<Rightarrow> bool \<times> ColorRGBA" where
  "decodeAnnotationColor nan_cast r out =
     (case scan_bool decodeAnnotationColor_body r (default_color_doubles\<lparr>cd_a := f64_one\<rparr>) of
        (ok, c) \<Rightarrow>
          if ok then (True, rgba (normalizedToByte nan_cast (cd_r c)) (normalizedToByte nan_cast (cd_g c))
                                 (normalizedToByte nan_cast (cd_b c)) (normalizedToByte nan_cast (cd_a c)))
          else (False, out))"

definition readPoint2Message :: "Point2 action" where
  "readPoint2Message = readNested decodePoint2"

definition readAnnotationColorMessage :: "(f64 \<Rightarrow> u8) \<Rightarrow> ColorRGBA action" where
  "readAnnotationColorMessage nan_cast = readNested (decodeAnnotationColor nan_cast)"

definition decodePointsAnnotation_body ::
    "(f64 \<Rightarrow> u8) \<Rightarrow> Tag \<Rightarrow> reader \<Rightarrow> PointsAnnotation \<Rightarrow> (unit, PointsAnnotation) field_step" where
  "decodePointsAnnotation_body nan_cast tag =
     (if tag_field tag = 2 then
        on_type tag kVarint () (store readVarint (\<lambda>v out. out\<lparr>pa_topology := mapTopology v\<rparr>))
      else if tag_field tag = 3 then
        on_type tag kLengthDelimited () (readIntoVector decodePoint2 default_Point2 pa_points_update)
      else if tag_field tag = 4 then
        on_type tag kLengthDelimited () (on_field pa_color pa_color_update (readAnnotationColorMessage nan_cast))
      else if tag_field tag = 5 then
        on_type tag kLengthDelimited ()
          (readIntoVector (decodeAnnotationColor nan_cast) default_ColorRGBA pa_colors_update)
      else if tag_field tag = 6 then
        on_type tag kLengthDelimited ()
          (on_field pa_fill_color pa_fill_color_update (readAnnotationColorMessage nan_cast))
      else if tag_field tag = 7 then
        on_type tag kFixed64 () (store readDouble (\<lambda>v out. out\<lparr>pa_thickness := v\<rparr>))
      else not_handled)"

definition decodePointsAnnotation :: "(f64 \<Rightarrow> u8) \<Rightarrow> reader \<Rightarrow> PointsAnnotation \<Rightarrow> bool \<times> PointsAnnotation" where
  "decodePointsAnnotation nan_cast = scan_bool (decodePointsAnnotation_body nan_cast)"

definition decodeCircleAnnotation_body ::
    "(f64 \<Rightarrow> u8) \<Rightarrow> Tag \<Rightarrow> reader \<Rightarrow> CircleAnnotation \<Rightarrow> (unit, CircleAnnotation) field_step" where
  "decodeCircleAnnotation_body nan_cast tag =
     (if tag_field tag = 2 then
        on_type tag kLengthDelimited () (on_field ca_center ca_center_update readPoint2Message)
      else if tag_field tag = 3 then
        on_type tag kFixed64 () (store readDouble (\<lambda>v out. out\<lparr>ca_radius := f64_half v\<rparr>))
      else if tag_field tag = 4 then
        on_type tag kFixed64 () (store readDouble (\<lambda>v out. out\<lparr>ca_thickness := v\<rparr>))
      else if tag_field tag = 5 then
        on_type tag kLengthDelimited ()
          (on_field ca_fill_color ca_fill_color_update (readAnnotationColorMessage nan_cast))
      else if tag_field tag = 6 then
        on_type tag kLengthDelimited () (on_field ca_color ca_color_update (readAnnotationColorMessage nan_cast))
      else not_handled)"

definition decodeCircleAnnotation :: "(f64 \<Rightarrow> u8) \<Rightarrow> reader \<Rightarrow> CircleAnnotation \<Rightarrow> bool \<times> CircleAnnotation" where
  "decodeCircleAnnotation nan_cast r out =
     scan_bool (decodeCircleAnnotation_body nan_cast) r
       (out\<lparr>ca_color := rgba 0 255 0 255, ca_fill_color := rgba 0 0 0 0,
            ca_thickness := f64_two, ca_radius := f64_one\<rparr>)"

definition decodeTextAnnotation_body ::
    "(f64 \<Rightarrow> u8) \<Rightarrow> Tag \<Rightarrow> reader \<Rightarrow> TextAnnotation \<Rightarrow> (unit, TextAnnotation) field_step" where
  "decodeTextAnnotation_body nan_cast tag =
     (if tag_field tag = 2 then
        on_type tag kLengthDelimited () (on_field ta_position ta_position_update readPoint2Message)
      else if tag_field tag = 3 then
        on_type tag kLengthDelimited () (store readString (\<lambda>v out. out\<lparr>ta_text := v\<rparr>))
      else if tag_field tag = 4 then
        on_type tag kFixed64 () (store readDouble (\<lambda>v out. out\<lparr>ta_font_size := v\<rparr>))
      else if tag_field tag = 5 then
        on_type tag kLengthDelimited () (on_field ta_color ta_color_update (readAnnotationColorMessage nan_cast))
      else not_handled)"

definition decodeTextAnnotation :: "(f64 \<Rightarrow> u8) \<Rightarrow> reader \<Rightarrow> TextAnnotation \<Rightarrow> bool \<times> TextAnnotation" where
  "decodeTextAnnotation nan_cast r out =
     scan_bool (decodeTextAnnotation_body nan_cast) r
       (out\<lparr>ta_color := rgba 255 255 255 255, ta_font_size := f64_fourteen\<rparr>)"

subsection \<open>The batch\<close>

definition serializeImageAnnotations :: "ImageAnnotations \<Rightarrow> bytes" where
  "serializeImageAnnotations a =
     concat (map (\<lambda>x. w_message 1 (writeCircleAnnotation x)) (ia_circles a))
     @ concat (map (\<lambda>x. w_message 2 (writePointsAnnotation x)) (ia_points a))
     @ concat (map (\<lambda>x. w_message 3 (writeTextAnnotation x)) (ia_texts a))
     @ (if ia_timestamp a \<noteq> 0 then w_message 5 (writeTimestamp (ia_timestamp a)) else [])
     @ (if ia_image_topic a \<noteq> [] then w_string 6 (ia_image_topic a) else [])"

definition annotations_dispatch ::
    "(f64 \<Rightarrow> u8) \<Rightarrow> u32 \<Rightarrow> reader \<Rightarrow> ImageAnnotations \<Rightarrow> string + ImageAnnotations" where
  "annotations_dispatch nan_cast field nested a =
     (if field = 1 then
        push_decoded (decodeCircleAnnotation nan_cast) default_CircleAnnotation
          ''ImageAnnotations wire: CircleAnnotation decode failed'' ia_circles_update nested a
      else if field = 2 then
        push_decoded (decodePointsAnnotation nan_cast)
          (default_PointsAnnotation\<lparr>pa_color := rgba 0 255 0 255, pa_thickness := f64_two\<rparr>)
          ''ImageAnnotations wire: PointsAnnotation decode failed'' ia_points_update nested a
      else if field = 3 then
        push_decoded (decodeTextAnnotation nan_cast) default_TextAnnotation
          ''ImageAnnotations wire: TextAnnotation decode failed'' ia_texts_update nested a
      else if field = 5 then
        (case decodeTimestamp nested (ia_timestamp a) of
           (ok, t) \<Rightarrow> if ok then Inr (a\<lparr>ia_timestamp := t\<rparr>)
                      else Inl ''ImageAnnotations wire: Timestamp decode failed'')
      else Inr a)"

text \<open>The topic (field 6) is a plain string: it is read before the payload of the others.\<close>

definition annotations_body ::
    "(f64 \<Rightarrow> u8) \<Rightarrow> Tag \<Rightarrow> reader \<Rightarrow> ImageAnnotations \<Rightarrow> (string, ImageAnnotations) field_step" where
  "annotations_body nan_cast tag =
     (if tag_type tag = kLengthDelimited \<and> tag_field tag = 6 then
        or_fail ''ImageAnnotations wire: image_topic decode failed''
          (store readString (\<lambda>v a. a\<lparr>ia_image_topic := v\<rparr>))
      else batch_body ''ImageAnnotations'' (annotations_dispatch nan_cast) tag)"

definition deserializeImageAnnotations :: "(f64 \<Rightarrow> u8) \<Rightarrow> buffer \<Rightarrow> string + ImageAnnotations" where
  "deserializeImageAnnotations nan_cast data =
     (if buffer_missing data then Inl ''ImageAnnotations wire: empty buffer''
      else case scanFields ''ImageAnnotations wire: bad tag'' ''ImageAnnotations wire: skip failed''
                  (annotations_body nan_cast) (buffer_bytes data) default_ImageAnnotations of
        (None, out) \<Rightarrow> Inr out
      | (Some e, out) \<Rightarrow> Inl e)"

subsection \<open>Round trips\<close>

interpretation point2_scan: field_scanner decodePoint2_body
  by (rule field_scannerI) (simp add: decodePoint2_body_def)

interpretation point2: message_codec writePoint2 decodePoint2 "\<lambda>_. True" "\<lambda>_. True"
proof
  fix x y :: Point2
  show "decodePoint2 (writePoint2 x) y = (True, x)"
    by (cases x, cases y) (simp add: decodePoint2_def scan_bool_def writePoint2_def point2_scan.scan_simps
      decodePoint2_body_def scan_actions)
qed

interpretation annotation_color_scan: field_scanner decodeAnnotationColor_body
  by (rule field_scannerI) (simp add: decodeAnnotationColor_body_def)

interpretation annotation_color: message_codec writeColor "decodeAnnotationColor nan_cast"
  "\<lambda>_. True" "\<lambda>_. True" for nan_cast
proof
  fix x y :: ColorRGBA
  show "decodeAnnotationColor nan_cast (writeColor x) y = (True, x)"
    by (cases x) (simp add: decodeAnnotationColor_def scan_bool_def writeColor_def
      annotation_color_scan.scan_simps decodeAnnotationColor_body_def scan_actions default_color_doubles_def
      rgba_def)
qed

lemmas annotation_messages =
  readPoint2Message_def readAnnotationColorMessage_def point2.nested annotation_color.nested
  point2.into_vector annotation_color.into_vector

interpretation points_scan: field_scanner "decodePointsAnnotation_body nan_cast" for nan_cast
  by (rule field_scannerI) (simp add: decodePointsAnnotation_body_def readAnnotationColorMessage_def)

interpretation points: message_codec writePointsAnnotation "decodePointsAnnotation nan_cast"
  "\<lambda>y. pa_points y = [] \<and> pa_colors y = []" "\<lambda>_. True" for nan_cast
proof
  fix x y :: PointsAnnotation
  assume "pa_points y = [] \<and> pa_colors y = []" and "fits (writePointsAnnotation x)"
  then show "decodePointsAnnotation nan_cast (writePointsAnnotation x) y = (True, x)"
    by (cases x, cases y) (simp add: decodePointsAnnotation_def scan_bool_def writePointsAnnotation_def
      points_scan.scan_simps decodePointsAnnotation_body_def scan_actions annotation_messages fits_lengths
      point2.scan_vector [OF points_scan.field_scanner_axioms, where f = 3 and e = "()"
        and init = default_Point2 and upd = pa_points_update]
      annotation_color.scan_vector [OF points_scan.field_scanner_axioms, where f = 5 and e = "()"
        and init = default_ColorRGBA and upd = pa_colors_update])
qed

interpretation circle_scan: field_scanner "decodeCircleAnnotation_body nan_cast" for nan_cast
  by (rule field_scannerI)
    (simp add: decodeCircleAnnotation_body_def readAnnotationColorMessage_def readPoint2Message_def)

text \<open>The radius comes back when doubling it stays finite.\<close>

interpretation circle: message_codec writeCircleAnnotation "decodeCircleAnnotation nan_cast"
  "\<lambda>_. True" "\<lambda>x. f64_exponent (ca_radius x) < 2046" for nan_cast
proof
  fix x y :: CircleAnnotation
  assume "f64_exponent (ca_radius x) < 2046" and "fits (writeCircleAnnotation x)"
  then show "decodeCircleAnnotation nan_cast (writeCircleAnnotation x) y = (True, x)"
    by (cases x, cases y) (simp add: decodeCircleAnnotation_def scan_bool_def writeCircleAnnotation_def
      circle_scan.scan_simps decodeCircleAnnotation_body_def scan_actions annotation_messages fits_lengths
      f64_half_double)
qed

interpretation text_scan: field_scanner "decodeTextAnnotation_body nan_cast" for nan_cast
  by (rule field_scannerI)
    (simp add: decodeTextAnnotation_body_def readAnnotationColorMessage_def readPoint2Message_def)

interpretation text_annotation: message_codec writeTextAnnotation "decodeTextAnnotation nan_cast"
  "\<lambda>_. True" "\<lambda>_. True" for nan_cast
proof
  fix x y :: TextAnnotation
  assume "fits (writeTextAnnotation x)"
  then show "decodeTextAnnotation nan_cast (writeTextAnnotation x) y = (True, x)"
    by (cases x, cases y) (simp add: decodeTextAnnotation_def scan_bool_def writeTextAnnotation_def
      text_scan.scan_simps decodeTextAnnotation_body_def scan_actions annotation_messages fits_lengths)
qed

interpretation annotations_scan: field_scanner "annotations_body nan_cast" for nan_cast
  by (rule field_scannerI) (simp add: annotations_body_def)

definition annotations_ok :: "ImageAnnotations \<Rightarrow> bool" where
  "annotations_ok a \<longleftrightarrow> (\<forall>c \<in> set (ia_circles a). f64_exponent (ca_radius c) < 2046)"

lemma annotations_scan_all:
  assumes "annotations_ok x" and "fits (serializeImageAnnotations x)"
  shows "scanFields bad_tag bad_skip (annotations_body nan_cast) (serializeImageAnnotations x)
    default_ImageAnnotations = (None, x)"
  using assms
  by (cases "ia_timestamp x = 0"; cases "ia_image_topic x = []"; cases x)
    (simp_all add: serializeImageAnnotations_def annotations_ok_def default_ImageAnnotations_def
    fits_lengths annotations_scan.scan_simps annotations_body_def batch_body_def annotations_dispatch_def
    scan_actions timestamp.roundtrip default_PointsAnnotation_def
    circle.batch_pushed [OF annotations_scan.field_scanner_axioms, where f = 1 and upd = ia_circles_update
      and init = default_CircleAnnotation and name = "''ImageAnnotations''"
      and dispatch = "annotations_dispatch nan_cast"
      and e = "''ImageAnnotations wire: CircleAnnotation decode failed''"]
    points.batch_pushed [OF annotations_scan.field_scanner_axioms, where f = 2 and upd = ia_points_update
      and init = "default_PointsAnnotation\<lparr>pa_color := rgba 0 255 0 255, pa_thickness := f64_two\<rparr>"
      and name = "''ImageAnnotations''" and dispatch = "annotations_dispatch nan_cast"
      and e = "''ImageAnnotations wire: PointsAnnotation decode failed''"]
    text_annotation.batch_pushed [OF annotations_scan.field_scanner_axioms, where f = 3 and upd = ia_texts_update
      and init = default_TextAnnotation and name = "''ImageAnnotations''"
      and dispatch = "annotations_dispatch nan_cast"
      and e = "''ImageAnnotations wire: TextAnnotation decode failed''"]
    text_annotation.batch_pushed_last [OF annotations_scan.field_scanner_axioms, where f = 3
      and upd = ia_texts_update and init = default_TextAnnotation and name = "''ImageAnnotations''"
      and dispatch = "annotations_dispatch nan_cast"
      and e = "''ImageAnnotations wire: TextAnnotation decode failed''"])

interpretation image_annotations_wire: wire_format serializeImageAnnotations
  "deserializeImageAnnotations nan_cast" "\<lambda>x. x" annotations_ok for nan_cast
  by unfold_locales (simp_all add: deserializeImageAnnotations_def annotations_scan_all)

end
