(* ===== verification/PlotMarkers.thy ===== *)
theory PlotMarkers
  imports WireFormat "HOL-Library.Sublist"
begin

section \<open>Plot markers (\<open>builtin/plot_markers_codec.cpp\<close>)\<close>

text \<open>
  Markers on a time series plot, with their structs and topic names from \<open>plot_markers.hpp\<close>. The
  empty buffer is a valid encoding here: the set without markers. The codec has its own colour
  and property loops.
\<close>

subsection \<open>The data\<close>

datatype MarkerKind = kRegion | kEvent | kValueBand | kLabel

datatype MarkerStatus = kNone | kPass | kFail

datatype MarkerSeverity = kInfo | kWarning | kError | kCritical

record MarkerProperty =
  mp_key :: bytes
  mp_value :: bytes

record PlotMarker =
  pm_kind :: MarkerKind
  pm_t_start :: Timestamp
  pm_t_end :: Timestamp
  pm_value_low :: f64
  pm_value_high :: f64
  pm_has_value :: bool
  pm_status :: MarkerStatus
  pm_severity :: MarkerSeverity
  pm_category :: bytes
  pm_label :: bytes
  pm_description :: bytes
  pm_color :: ColorRGBA
  pm_metadata :: "MarkerProperty list"

record PlotMarkers =
  pms_markers :: "PlotMarker list"

definition default_MarkerProperty :: MarkerProperty where
  "default_MarkerProperty = \<lparr>mp_key = [], mp_value = []\<rparr>"

definition default_PlotMarker :: PlotMarker where
  "default_PlotMarker = \<lparr>pm_kind = kRegion, pm_t_start = 0, pm_t_end = 0, pm_value_low = 0, pm_value_high = 0,
     pm_has_value = False, pm_status = kNone, pm_severity = kInfo, pm_category = [], pm_label = [],
     pm_description = [], pm_color = \<lparr>color_r = 0, color_g = 0, color_b = 0, color_a = 0\<rparr>, pm_metadata = []\<rparr>"

definition default_PlotMarkers :: PlotMarkers where
  "default_PlotMarkers = \<lparr>pms_markers = []\<rparr>"

definition PlotMarkers_empty :: "PlotMarkers \<Rightarrow> bool" where
  "PlotMarkers_empty m \<longleftrightarrow> pms_markers m = []"

subsection \<open>Enumerations\<close>

fun markerKindValue :: "MarkerKind \<Rightarrow> u64" where
  "markerKindValue kRegion = 0"
| "markerKindValue kEvent = 1"
| "markerKindValue kValueBand = 2"
| "markerKindValue kLabel = 3"

definition mapKind :: "u64 \<Rightarrow> MarkerKind" where
  "mapKind v =
     (if v = 0 then kRegion
      else if v = 1 then kEvent
      else if v = 2 then kValueBand
      else if v = 3 then kLabel
      else kRegion)"

fun markerStatusValue :: "MarkerStatus \<Rightarrow> u64" where
  "markerStatusValue kNone = 0"
| "markerStatusValue kPass = 1"
| "markerStatusValue kFail = 2"

definition mapStatus :: "u64 \<Rightarrow> MarkerStatus" where
  "mapStatus v = (if v = 1 then kPass else if v = 2 then kFail else kNone)"

fun markerSeverityValue :: "MarkerSeverity \<Rightarrow> u64" where
  "markerSeverityValue kInfo = 0"
| "markerSeverityValue kWarning = 1"
| "markerSeverityValue kError = 2"
| "markerSeverityValue kCritical = 3"

definition mapSeverity :: "u64 \<Rightarrow> MarkerSeverity" where
  "mapSeverity v = (if v = 1 then kWarning else if v = 2 then kError else if v = 3 then kCritical else kInfo)"

lemma map_values [simp]:
  "mapKind (markerKindValue k) = k" "mapStatus (markerStatusValue s) = s"
  "mapSeverity (markerSeverityValue v) = v"
proof -
  show "mapKind (markerKindValue k) = k" by (cases k) (simp_all add: mapKind_def)
  show "mapStatus (markerStatusValue s) = s" by (cases s) (simp_all add: mapStatus_def)
  show "mapSeverity (markerSeverityValue v) = v" by (cases v) (simp_all add: mapSeverity_def)
qed

subsection \<open>Writers\<close>

text \<open>The local copy of \<open>writeColor\<close>.\<close>

definition marker_writeColor :: "ColorRGBA \<Rightarrow> bytes" where
  "marker_writeColor color =
     w_doubleField 1 (byteToNormalized (color_r color))
     @ w_doubleField 2 (byteToNormalized (color_g color))
     @ w_doubleField 3 (byteToNormalized (color_b color))
     @ w_doubleField 4 (byteToNormalized (color_a color))"

definition writeProperty :: "MarkerProperty \<Rightarrow> bytes" where
  "writeProperty p = w_string 1 (mp_key p) @ w_string 2 (mp_value p)"

definition writeMarker :: "PlotMarker \<Rightarrow> bytes" where
  "writeMarker m =
     w_varint 1 (markerKindValue (pm_kind m))
     @ w_varint 2 (pm_t_start m)
     @ w_varint 3 (pm_t_end m)
     @ w_doubleField 4 (pm_value_low m)
     @ w_doubleField 5 (pm_value_high m)
     @ w_varint 6 (varint_of_bool (pm_has_value m))
     @ w_varint 7 (markerStatusValue (pm_status m))
     @ w_varint 8 (markerSeverityValue (pm_severity m))
     @ w_string 9 (pm_category m)
     @ w_string 10 (pm_label m)
     @ w_string 11 (pm_description m)
     @ w_message 12 (marker_writeColor (pm_color m))
     @ concat (map (\<lambda>x. w_message 13 (writeProperty x)) (pm_metadata m))"

definition serializePlotMarkers :: "PlotMarkers \<Rightarrow> bytes" where
  "serializePlotMarkers m = concat (map (\<lambda>x. w_message 1 (writeMarker x)) (pms_markers m))"

subsection \<open>Readers\<close>

definition marker_decodeColor_body :: "Tag \<Rightarrow> reader \<Rightarrow> color_doubles \<Rightarrow> (unit, color_doubles) field_step" where
  "marker_decodeColor_body tag =
     (if tag_type tag = kFixed64 \<and> 1 \<le> tag_field tag \<and> tag_field tag \<le> 4 then
        or_fail () (store readDouble (\<lambda>v c.
          if tag_field tag = 1 then c\<lparr>cd_r := v\<rparr>
          else if tag_field tag = 2 then c\<lparr>cd_g := v\<rparr>
          else if tag_field tag = 3 then c\<lparr>cd_b := v\<rparr>
          else if tag_field tag = 4 then c\<lparr>cd_a := v\<rparr>
          else c))
      else not_handled)"

definition marker_decodeColor :: "(f64 \<Rightarrow> u8) \<Rightarrow> reader \<Rightarrow> ColorRGBA \<Rightarrow> bool \<times> ColorRGBA" where
  "marker_decodeColor nan_cast r out =
     (case scan_bool marker_decodeColor_body r default_color_doubles of
        (ok, c) \<Rightarrow>
          if ok then (True,
            \<lparr>color_r = normalizedToByte nan_cast (cd_r c), color_g = normalizedToByte nan_cast (cd_g c),
             color_b = normalizedToByte nan_cast (cd_b c), color_a = normalizedToByte nan_cast (cd_a c)\<rparr>)
          else (False, out))"

definition decodeProperty_body :: "Tag \<Rightarrow> reader \<Rightarrow> MarkerProperty \<Rightarrow> (unit, MarkerProperty) field_step" where
  "decodeProperty_body tag =
     (if tag_field tag = 1 \<and> tag_type tag = kLengthDelimited then
        or_fail () (store readString (\<lambda>v out. out\<lparr>mp_key := v\<rparr>))
      else if tag_field tag = 2 \<and> tag_type tag = kLengthDelimited then
        or_fail () (store readString (\<lambda>v out. out\<lparr>mp_value := v\<rparr>))
      else not_handled)"

definition decodeProperty :: "reader \<Rightarrow> MarkerProperty \<Rightarrow> bool \<times> MarkerProperty" where
  "decodeProperty = scan_bool decodeProperty_body"

definition decodeMarker_field :: "(f64 \<Rightarrow> u8) \<Rightarrow> Tag \<Rightarrow> PlotMarker action" where
  "decodeMarker_field nan_cast tag =
     (if tag_field tag = 1 then expect tag kVarint (store readVarint (\<lambda>v out. out\<lparr>pm_kind := mapKind v\<rparr>))
      else if tag_field tag = 2 then expect tag kVarint (store readVarint (\<lambda>v out. out\<lparr>pm_t_start := v\<rparr>))
      else if tag_field tag = 3 then expect tag kVarint (store readVarint (\<lambda>v out. out\<lparr>pm_t_end := v\<rparr>))
      else if tag_field tag = 4 then expect tag kFixed64 (store readDouble (\<lambda>v out. out\<lparr>pm_value_low := v\<rparr>))
      else if tag_field tag = 5 then expect tag kFixed64 (store readDouble (\<lambda>v out. out\<lparr>pm_value_high := v\<rparr>))
      else if tag_field tag = 6 then expect tag kVarint (store readVarint (\<lambda>v out. out\<lparr>pm_has_value := (v \<noteq> 0)\<rparr>))
      else if tag_field tag = 7 then expect tag kVarint (store readVarint (\<lambda>v out. out\<lparr>pm_status := mapStatus v\<rparr>))
      else if tag_field tag = 8 then
        expect tag kVarint (store readVarint (\<lambda>v out. out\<lparr>pm_severity := mapSeverity v\<rparr>))
      else if tag_field tag = 9 then
        expect tag kLengthDelimited (store readString (\<lambda>v out. out\<lparr>pm_category := v\<rparr>))
      else if tag_field tag = 10 then expect tag kLengthDelimited (store readString (\<lambda>v out. out\<lparr>pm_label := v\<rparr>))
      else if tag_field tag = 11 then
        expect tag kLengthDelimited (store readString (\<lambda>v out. out\<lparr>pm_description := v\<rparr>))
      else if tag_field tag = 12 then
        expect tag kLengthDelimited (on_field pm_color pm_color_update (readNested (marker_decodeColor nan_cast)))
      else if tag_field tag = 13 then
        expect tag kLengthDelimited (readIntoVector decodeProperty default_MarkerProperty pm_metadata_update)
      else decline)"

definition decodeMarker :: "(f64 \<Rightarrow> u8) \<Rightarrow> reader \<Rightarrow> PlotMarker \<Rightarrow> bool \<times> PlotMarker" where
  "decodeMarker nan_cast = parseFields (decodeMarker_field nan_cast)"

definition markers_body :: "(f64 \<Rightarrow> u8) \<Rightarrow> Tag \<Rightarrow> reader \<Rightarrow> PlotMarkers \<Rightarrow> (string, PlotMarkers) field_step" where
  "markers_body nan_cast tag r m =
     (if tag_field tag = 1 \<and> tag_type tag = kLengthDelimited then
        (case readMessage r of
           (None, r') \<Rightarrow> Fail ''PlotMarkers wire: bad nested message length'' m
         | (Some nested, r') \<Rightarrow> (case decodeMarker nan_cast nested default_PlotMarker of
             (ok, marker) \<Rightarrow>
               if ok then Next r' (m\<lparr>pms_markers := pms_markers m @ [marker]\<rparr>)
               else Fail ''PlotMarkers wire: PlotMarker decode failed'' m))
      else NotHandled)"

definition deserializePlotMarkers :: "(f64 \<Rightarrow> u8) \<Rightarrow> buffer \<Rightarrow> string + PlotMarkers" where
  "deserializePlotMarkers nan_cast data =
     (if buffer_size data = 0 then Inr default_PlotMarkers
      else case data of
        NullBuffer n \<Rightarrow> Inl ''PlotMarkers wire: null buffer''
      | Buffer bs \<Rightarrow>
          (case scanFields ''PlotMarkers wire: bad tag'' ''PlotMarkers wire: skip failed''
                  (markers_body nan_cast) bs default_PlotMarkers of
             (None, m) \<Rightarrow> Inr m
           | (Some e, m) \<Rightarrow> Inl e))"

subsection \<open>Round trips\<close>

interpretation marker_color_scan: field_scanner marker_decodeColor_body
  by (rule field_scannerI) (simp add: marker_decodeColor_body_def)

interpretation marker_color: message_codec marker_writeColor "marker_decodeColor nan_cast"
  "\<lambda>_. True" "\<lambda>_. True" for nan_cast
proof
  fix x y :: ColorRGBA
  show "marker_decodeColor nan_cast (marker_writeColor x) y = (True, x)"
    by (cases x) (simp add: marker_decodeColor_def scan_bool_def marker_writeColor_def
      marker_color_scan.scan_simps marker_decodeColor_body_def scan_actions default_color_doubles_def)
qed

interpretation property_scan: field_scanner decodeProperty_body
  by (rule field_scannerI) (simp add: decodeProperty_body_def)

interpretation property: message_codec writeProperty decodeProperty "\<lambda>_. True" "\<lambda>_. True"
proof
  fix x y :: MarkerProperty
  assume "fits (writeProperty x)"
  then show "decodeProperty (writeProperty x) y = (True, x)"
    by (cases x, cases y) (simp add: decodeProperty_def scan_bool_def writeProperty_def
      property_scan.scan_simps decodeProperty_body_def scan_actions fits_lengths)
qed

interpretation marker_fields: field_handler "decodeMarker_field nan_cast" for nan_cast
  by (rule field_handlerI) (simp add: decodeMarker_field_def)

interpretation marker: message_codec writeMarker "decodeMarker nan_cast"
  "\<lambda>y. pm_metadata y = []" "\<lambda>_. True" for nan_cast
proof
  fix x y :: PlotMarker
  assume "pm_metadata y = []" and "fits (writeMarker x)"
  then show "decodeMarker nan_cast (writeMarker x) y = (True, x)"
    by (cases x, cases y) (simp add: decodeMarker_def writeMarker_def marker_fields.parse_simps
      field_actions decodeMarker_field_def fits_lengths marker_color.nested
      property.repeated_last [OF marker_fields.field_handler_axioms, where f = 13
        and init = default_MarkerProperty and upd = pm_metadata_update])
qed

interpretation markers_scan: field_scanner "markers_body nan_cast" for nan_cast
proof
  fix t r out r' out'
  assume "markers_body nan_cast t r out = Next r' out'"
  then show "length r' \<le> length r"
    by (auto simp: markers_body_def dest: readBytes_length [folded readMessage_def]
        split: if_splits prod.splits option.splits)
qed

lemma markers_scan_all:
  assumes "fits (serializePlotMarkers x)"
  shows "scanFields bad_tag bad_skip (markers_body nan_cast) (serializePlotMarkers x) default_PlotMarkers = (None, x)"
proof -
  have "scanFields bad_tag bad_skip (markers_body nan_cast) (serializePlotMarkers x @ []) default_PlotMarkers
    = scanFields bad_tag bad_skip (markers_body nan_cast) []
        (pms_markers_update (\<lambda>l. l @ pms_markers x) default_PlotMarkers)"
    using assms unfolding serializePlotMarkers_def
    by (intro marker.scan_pushed [OF markers_scan.field_scanner_axioms])
      (simp_all add: markers_body_def marker.roundtrip default_PlotMarker_def)
  then show ?thesis
    by (simp add: markers_scan.scan_Nil default_PlotMarkers_def)
qed

text \<open>Here the empty set of markers makes the round trip too.\<close>

lemma deserializePlotMarkers_serialize:
  assumes "fits (serializePlotMarkers x)"
  shows "deserializePlotMarkers nan_cast (Buffer (serializePlotMarkers x)) = Inr x"
proof (cases "serializePlotMarkers x = []")
  case True
  then have "pms_markers x = []"
    by (cases "pms_markers x") (simp_all add: serializePlotMarkers_def w_message_def w_bytes_def)
  then show ?thesis
    using True by (simp add: deserializePlotMarkers_def default_PlotMarkers_def)
next
  case False
  then show ?thesis
    using assms by (simp add: deserializePlotMarkers_def markers_scan_all)
qed

interpretation plot_markers_wire: wire_format serializePlotMarkers "deserializePlotMarkers nan_cast"
  "\<lambda>x. x" "\<lambda>_. True" for nan_cast
  by unfold_locales (simp_all add: deserializePlotMarkers_serialize, simp add: deserializePlotMarkers_def)

subsection \<open>Topic names\<close>

definition kGlobalMarkerTopic :: string where
  "kGlobalMarkerTopic = ''__global__''"

definition kMarkerObjectTopicPrefix :: string where
  "kMarkerObjectTopicPrefix = ''__markers__/''"

definition kPreviewMarkerTopic :: string where
  "kPreviewMarkerTopic = ''__preview__/''"

definition markerObjectTopicName :: "string \<Rightarrow> string" where
  "markerObjectTopicName marker_topic = kMarkerObjectTopicPrefix @ marker_topic"

definition isPreviewMarkerTopic :: "string \<Rightarrow> bool" where
  "isPreviewMarkerTopic topic =
     (let topic = (if prefix kMarkerObjectTopicPrefix topic
                   then drop (length kMarkerObjectTopicPrefix) topic else topic)
      in prefix kPreviewMarkerTopic topic)"

definition markerSeriesKey :: "string \<Rightarrow> string \<Rightarrow> string" where
  "markerSeriesKey topic_name field_name =
     (if field_name = [] then topic_name
      else if hd field_name \<noteq> CHR ''/'' then topic_name @ ''/'' @ field_name
      else topic_name @ field_name)"

lemma isPreviewMarkerTopic_object:
  "isPreviewMarkerTopic (markerObjectTopicName t) \<longleftrightarrow> prefix kPreviewMarkerTopic t"
  by (simp add: isPreviewMarkerTopic_def markerObjectTopicName_def)

end
