(* ===== verification/Images.thy ===== *)
theory Images
  imports WireFormat
begin

section \<open>Images and cameras (\<open>builtin/image_codec.cpp\<close> and its siblings)\<close>

text \<open>
  \<open>Image\<close>, \<open>DepthImage\<close>, \<open>CameraInfo\<close> and \<open>VideoFrame\<close>, with the image encoding names. The
  pixel bytes are owned by the decoded object (an \<open>OwnedCopy\<close> of the payload), except in the
  view form of the video frame, which keeps the anchor its caller passes in. A
  \<open>std::array<double, N>\<close> is a list whose length is N.
\<close>

subsection \<open>Encoding names\<close>

datatype CommonImageEncoding =
  rgb8 | rgba8 | bgr8 | bgra8 | mono8 | mono16 | jpeg | png | qoi | compressedDepth

fun encoding_name :: "CommonImageEncoding \<Rightarrow> string" where
  "encoding_name rgb8 = ''rgb8''"
| "encoding_name rgba8 = ''rgba8''"
| "encoding_name bgr8 = ''bgr8''"
| "encoding_name bgra8 = ''bgra8''"
| "encoding_name mono8 = ''mono8''"
| "encoding_name mono16 = ''mono16''"
| "encoding_name jpeg = ''jpeg''"
| "encoding_name png = ''png''"
| "encoding_name qoi = ''qoi''"
| "encoding_name compressedDepth = ''compressedDepth''"

definition parseImageEncoding :: "string \<Rightarrow> CommonImageEncoding option" where
  "parseImageEncoding s =
     (if s = ''rgb8'' then Some rgb8
      else if s = ''rgba8'' then Some rgba8
      else if s = ''bgr8'' then Some bgr8
      else if s = ''bgra8'' then Some bgra8
      else if s = ''mono8'' then Some mono8
      else if s = ''mono16'' then Some mono16
      else if s = ''jpeg'' then Some jpeg
      else if s = ''png'' then Some png
      else if s = ''qoi'' then Some qoi
      else if s = ''compressedDepth'' then Some compressedDepth
      else None)"

lemma parseImageEncoding_name [simp]: "parseImageEncoding (encoding_name e) = Some e"
  by (cases e) (simp_all add: parseImageEncoding_def)

lemma parseImageEncoding_Some: "parseImageEncoding s = Some e \<Longrightarrow> s = encoding_name e"
  by (auto simp: parseImageEncoding_def split: if_splits)

subsection \<open>Images\<close>

record Image =
  img_width :: u32
  img_height :: u32
  img_encoding :: bytes
  img_row_step :: u32
  img_is_bigendian :: bool
  img_data :: bytes
  img_anchor :: anchor
  img_compressed_depth_min :: "f32 option"
  img_compressed_depth_max :: "f32 option"
  img_timestamp_ns :: Timestamp
  img_frame_id :: bytes

definition default_Image :: Image where
  "default_Image = \<lparr>img_width = 0, img_height = 0, img_encoding = [], img_row_step = 0,
     img_is_bigendian = False, img_data = [], img_anchor = NoAnchor,
     img_compressed_depth_min = None, img_compressed_depth_max = None, img_timestamp_ns = 0,
     img_frame_id = []\<rparr>"

definition readBytesIntoImage :: "Image action" where
  "readBytesIntoImage = store readBytes
     (\<lambda>d out. out\<lparr>img_data := d, img_anchor := OwnedCopy d\<rparr>)"

definition serializeImage :: "Image \<Rightarrow> bytes" where
  "serializeImage img =
     w_message 1 (writeTimestamp (img_timestamp_ns img))
     @ w_varint 2 (ucast (img_width img))
     @ w_varint 3 (ucast (img_height img))
     @ w_string 4 (img_encoding img)
     @ w_varint 5 (ucast (img_row_step img))
     @ w_varint 6 (varint_of_bool (img_is_bigendian img))
     @ w_bytes 7 (img_data img)
     @ (case img_compressed_depth_min img of None \<Rightarrow> [] | Some v \<Rightarrow> w_floatField 8 v)
     @ (case img_compressed_depth_max img of None \<Rightarrow> [] | Some v \<Rightarrow> w_floatField 9 v)
     @ w_string 10 (img_frame_id img)"

definition deserializeImage_field :: "Tag \<Rightarrow> Image action" where
  "deserializeImage_field tag =
     (if tag_field tag = 1 then
        expect tag kLengthDelimited (on_field img_timestamp_ns img_timestamp_ns_update readTimestampMessage)
      else if tag_field tag = 2 then
        expect tag kVarint (store readVarint (\<lambda>v out. out\<lparr>img_width := ucast v\<rparr>))
      else if tag_field tag = 3 then
        expect tag kVarint (store readVarint (\<lambda>v out. out\<lparr>img_height := ucast v\<rparr>))
      else if tag_field tag = 4 then
        expect tag kLengthDelimited (store readString (\<lambda>v out. out\<lparr>img_encoding := v\<rparr>))
      else if tag_field tag = 5 then
        expect tag kVarint (store readVarint (\<lambda>v out. out\<lparr>img_row_step := ucast v\<rparr>))
      else if tag_field tag = 6 then
        expect tag kVarint (store readVarint (\<lambda>v out. out\<lparr>img_is_bigendian := (v \<noteq> 0)\<rparr>))
      else if tag_field tag = 7 then expect tag kLengthDelimited (readBytesIntoImage)
      else if tag_field tag = 8 then
        expect tag kFixed32 (store readFloat (\<lambda>v out. out\<lparr>img_compressed_depth_min := Some v\<rparr>))
      else if tag_field tag = 9 then
        expect tag kFixed32 (store readFloat (\<lambda>v out. out\<lparr>img_compressed_depth_max := Some v\<rparr>))
      else if tag_field tag = 10 then
        expect tag kLengthDelimited (store readString (\<lambda>v out. out\<lparr>img_frame_id := v\<rparr>))
      else decline)"

definition deserializeImage :: "buffer \<Rightarrow> string + Image" where
  "deserializeImage = deserialize_fields ''Image'' deserializeImage_field default_Image"

interpretation image_fields: field_handler deserializeImage_field
  by (rule field_handlerI) (simp add: deserializeImage_field_def readBytesIntoImage_def
    readTimestampMessage_def)

interpretation image: message_codec serializeImage "parseFields deserializeImage_field"
  "\<lambda>y. img_compressed_depth_min y = None \<and> img_compressed_depth_max y = None"
  "\<lambda>x. img_anchor x = OwnedCopy (img_data x)"
proof
  fix x y :: Image
  assume "img_anchor x = OwnedCopy (img_data x)"
    and "img_compressed_depth_min y = None \<and> img_compressed_depth_max y = None"
    and "fits (serializeImage x)"
  then show "parseFields deserializeImage_field (serializeImage x) y = (True, x)"
    by (cases "img_compressed_depth_min x"; cases "img_compressed_depth_max x"; cases x; cases y) (simp_all add: serializeImage_def image_fields.parse_simps field_actions
      deserializeImage_field_def readBytesIntoImage_def readTimestampMessage_def timestamp.nested
      fits_lengths)
qed

text \<open>The object with its bytes owned by a copy, as the decoder leaves it.\<close>

definition owned_Image :: "Image \<Rightarrow> Image" where
  "owned_Image x = x\<lparr>img_anchor := OwnedCopy (img_data x)\<rparr>"

interpretation image_wire: wire_format serializeImage deserializeImage owned_Image
  "\<lambda>_. True"
  unfolding deserializeImage_def
  by (rule wire_format_fields [OF image.message_codec_axioms])
    (simp_all add: default_Image_def owned_Image_def serializeImage_def)

subsection \<open>Depth images\<close>

record DepthImage =
  depth_width :: u32
  depth_height :: u32
  depth_encoding :: bytes
  depth_data :: bytes
  depth_anchor :: anchor
  depth_K :: "f64 list"
  depth_distortion_model :: bytes
  depth_D :: "f64 list"
  depth_timestamp_ns :: Timestamp

definition default_DepthImage :: DepthImage where
  "default_DepthImage = \<lparr>depth_width = 0, depth_height = 0, depth_encoding = [],
     depth_data = [], depth_anchor = NoAnchor, depth_K = replicate 9 0,
     depth_distortion_model = [], depth_D = [], depth_timestamp_ns = 0\<rparr>"

definition readBytesIntoDepth :: "DepthImage action" where
  "readBytesIntoDepth = store readBytes
     (\<lambda>d out. out\<lparr>depth_data := d, depth_anchor := OwnedCopy d\<rparr>)"

definition serializeDepthImage :: "DepthImage \<Rightarrow> bytes" where
  "serializeDepthImage depth =
     w_message 1 (writeTimestamp (depth_timestamp_ns depth))
     @ w_varint 2 (ucast (depth_width depth))
     @ w_varint 3 (ucast (depth_height depth))
     @ w_string 4 (depth_encoding depth)
     @ w_bytes 5 (depth_data depth)
     @ w_packedDouble 6 (depth_K depth)
     @ w_string 7 (depth_distortion_model depth)
     @ w_packedDouble 8 (depth_D depth)"

definition deserializeDepthImage_field :: "Tag \<Rightarrow> DepthImage action" where
  "deserializeDepthImage_field tag =
     (if tag_field tag = 1 then
        expect tag kLengthDelimited (on_field depth_timestamp_ns depth_timestamp_ns_update readTimestampMessage)
      else if tag_field tag = 2 then
        expect tag kVarint (store readVarint (\<lambda>v out. out\<lparr>depth_width := ucast v\<rparr>))
      else if tag_field tag = 3 then
        expect tag kVarint (store readVarint (\<lambda>v out. out\<lparr>depth_height := ucast v\<rparr>))
      else if tag_field tag = 4 then
        expect tag kLengthDelimited (store readString (\<lambda>v out. out\<lparr>depth_encoding := v\<rparr>))
      else if tag_field tag = 5 then expect tag kLengthDelimited (readBytesIntoDepth)
      else if tag_field tag = 6 then
        expect tag kLengthDelimited (on_field depth_K depth_K_update (readPackedDoubleArray 9))
      else if tag_field tag = 7 then
        expect tag kLengthDelimited (store readString (\<lambda>v out. out\<lparr>depth_distortion_model := v\<rparr>))
      else if tag_field tag = 8 then
        expect tag kLengthDelimited (on_field depth_D depth_D_update readPackedDouble)
      else decline)"

definition deserializeDepthImage :: "buffer \<Rightarrow> string + DepthImage" where
  "deserializeDepthImage = deserialize_fields ''DepthImage'' deserializeDepthImage_field default_DepthImage"

interpretation depth_image_fields: field_handler deserializeDepthImage_field
  by (rule field_handlerI) (simp add: deserializeDepthImage_field_def readBytesIntoDepth_def
    readTimestampMessage_def)

interpretation depth_image: message_codec serializeDepthImage "parseFields deserializeDepthImage_field"
  "\<lambda>y. depth_D y = [] \<and> length (depth_K y) = 9"
  "\<lambda>x. length (depth_K x) = 9 \<and> depth_anchor x = OwnedCopy (depth_data x)"
proof
  fix x y :: DepthImage
  assume "length (depth_K x) = 9 \<and> depth_anchor x = OwnedCopy (depth_data x)"
    and "depth_D y = [] \<and> length (depth_K y) = 9"
    and "fits (serializeDepthImage x)"
  then show "parseFields deserializeDepthImage_field (serializeDepthImage x) y = (True, x)"
    by (cases x, cases y) (auto simp: serializeDepthImage_def depth_image_fields.parse_simps
      field_actions deserializeDepthImage_field_def readBytesIntoDepth_def
      readTimestampMessage_def timestamp.nested w_packedDouble_eq fits_lengths)
qed

text \<open>The object with its bytes owned by a copy, as the decoder leaves it.\<close>

definition owned_DepthImage :: "DepthImage \<Rightarrow> DepthImage" where
  "owned_DepthImage x = x\<lparr>depth_anchor := OwnedCopy (depth_data x)\<rparr>"

interpretation depth_image_wire: wire_format serializeDepthImage deserializeDepthImage owned_DepthImage
  "\<lambda>x. length (depth_K x) = 9"
  unfolding deserializeDepthImage_def
  by (rule wire_format_fields [OF depth_image.message_codec_axioms])
    (simp_all add: default_DepthImage_def owned_DepthImage_def serializeDepthImage_def)

subsection \<open>Camera calibration\<close>

record CameraInfo =
  cam_timestamp_ns :: Timestamp
  cam_frame_id :: bytes
  cam_width :: u32
  cam_height :: u32
  cam_distortion_model :: bytes
  cam_D :: "f64 list"
  cam_K :: "f64 list"
  cam_R :: "f64 list"
  cam_P :: "f64 list"

definition default_CameraInfo :: CameraInfo where
  "default_CameraInfo = \<lparr>cam_timestamp_ns = 0, cam_frame_id = [], cam_width = 0,
     cam_height = 0, cam_distortion_model = [], cam_D = [], cam_K = replicate 9 0,
     cam_R = replicate 9 0, cam_P = replicate 12 0\<rparr>"

definition serializeCameraInfo :: "CameraInfo \<Rightarrow> bytes" where
  "serializeCameraInfo info =
     w_message 1 (writeTimestamp (cam_timestamp_ns info))
     @ w_string 2 (cam_frame_id info)
     @ w_varint 3 (ucast (cam_width info))
     @ w_varint 4 (ucast (cam_height info))
     @ w_string 5 (cam_distortion_model info)
     @ w_packedDouble 6 (cam_D info)
     @ w_packedDouble 7 (cam_K info)
     @ w_packedDouble 8 (cam_R info)
     @ w_packedDouble 9 (cam_P info)"

definition deserializeCameraInfo_field :: "Tag \<Rightarrow> CameraInfo action" where
  "deserializeCameraInfo_field tag =
     (if tag_field tag = 1 then
        expect tag kLengthDelimited (on_field cam_timestamp_ns cam_timestamp_ns_update readTimestampMessage)
      else if tag_field tag = 2 then
        expect tag kLengthDelimited (store readString (\<lambda>v out. out\<lparr>cam_frame_id := v\<rparr>))
      else if tag_field tag = 3 then
        expect tag kVarint (store readVarint (\<lambda>v out. out\<lparr>cam_width := ucast v\<rparr>))
      else if tag_field tag = 4 then
        expect tag kVarint (store readVarint (\<lambda>v out. out\<lparr>cam_height := ucast v\<rparr>))
      else if tag_field tag = 5 then
        expect tag kLengthDelimited (store readString (\<lambda>v out. out\<lparr>cam_distortion_model := v\<rparr>))
      else if tag_field tag = 6 then
        expect tag kLengthDelimited (on_field cam_D cam_D_update readPackedDouble)
      else if tag_field tag = 7 then
        expect tag kLengthDelimited (on_field cam_K cam_K_update (readPackedDoubleArray 9))
      else if tag_field tag = 8 then
        expect tag kLengthDelimited (on_field cam_R cam_R_update (readPackedDoubleArray 9))
      else if tag_field tag = 9 then
        expect tag kLengthDelimited (on_field cam_P cam_P_update (readPackedDoubleArray 12))
      else decline)"

definition deserializeCameraInfo :: "buffer \<Rightarrow> string + CameraInfo" where
  "deserializeCameraInfo = deserialize_fields ''CameraInfo'' deserializeCameraInfo_field default_CameraInfo"

interpretation camera_info_fields: field_handler deserializeCameraInfo_field
  by (rule field_handlerI) (simp add: deserializeCameraInfo_field_def
    readTimestampMessage_def)

interpretation camera_info: message_codec serializeCameraInfo "parseFields deserializeCameraInfo_field"
  "\<lambda>y. cam_D y = [] \<and> length (cam_K y) = 9 \<and> length (cam_R y) = 9 \<and> length (cam_P y) = 12"
  "\<lambda>x. length (cam_K x) = 9 \<and> length (cam_R x) = 9 \<and> length (cam_P x) = 12"
proof
  fix x y :: CameraInfo
  assume "length (cam_K x) = 9 \<and> length (cam_R x) = 9 \<and> length (cam_P x) = 12"
    and "cam_D y = [] \<and> length (cam_K y) = 9 \<and> length (cam_R y) = 9 \<and> length (cam_P y) = 12"
    and "fits (serializeCameraInfo x)"
  then show "parseFields deserializeCameraInfo_field (serializeCameraInfo x) y = (True, x)"
    by (cases x, cases y) (auto simp: serializeCameraInfo_def camera_info_fields.parse_simps
      field_actions deserializeCameraInfo_field_def readTimestampMessage_def timestamp.nested
      w_packedDouble_eq fits_lengths)
qed

interpretation camera_info_wire: wire_format serializeCameraInfo deserializeCameraInfo "\<lambda>x. x"
  "\<lambda>x. length (cam_K x) = 9 \<and> length (cam_R x) = 9 \<and> length (cam_P x) = 12"
  unfolding deserializeCameraInfo_def
  by (rule wire_format_fields [OF camera_info.message_codec_axioms])
    (simp_all add: default_CameraInfo_def)

subsection \<open>Video frames\<close>

record VideoFrame =
  vf_timestamp_ns :: Timestamp
  vf_frame_id :: bytes
  vf_format :: bytes
  vf_data :: bytes
  vf_anchor :: anchor

definition default_VideoFrame :: VideoFrame where
  "default_VideoFrame = \<lparr>vf_timestamp_ns = 0, vf_frame_id = [], vf_format = [], vf_data = [], vf_anchor = NoAnchor\<rparr>"

definition readBytesOwning :: "VideoFrame action" where
  "readBytesOwning = store readBytes (\<lambda>d out. out\<lparr>vf_data := d, vf_anchor := OwnedCopy d\<rparr>)"

definition readBytesView :: "anchor \<Rightarrow> VideoFrame action" where
  "readBytesView anchor = store readBytes (\<lambda>d out. out\<lparr>vf_data := d, vf_anchor := anchor\<rparr>)"

definition serializeVideoFrame :: "VideoFrame \<Rightarrow> bytes" where
  "serializeVideoFrame frame =
     w_message 1 (writeTimestamp (vf_timestamp_ns frame))
     @ w_string 2 (vf_frame_id frame)
     @ w_bytes 3 (vf_data frame)
     @ w_string 4 (vf_format frame)"

definition parseVideoFrame_field :: "VideoFrame action \<Rightarrow> Tag \<Rightarrow> VideoFrame action" where
  "parseVideoFrame_field read_data tag =
     (if tag_field tag = 1 then
        expect tag kLengthDelimited (on_field vf_timestamp_ns vf_timestamp_ns_update readTimestampMessage)
      else if tag_field tag = 2 then expect tag kLengthDelimited (store readString (\<lambda>v out. out\<lparr>vf_frame_id := v\<rparr>))
      else if tag_field tag = 3 then expect tag kLengthDelimited read_data
      else if tag_field tag = 4 then expect tag kLengthDelimited (store readString (\<lambda>v out. out\<lparr>vf_format := v\<rparr>))
      else decline)"

definition deserializeVideoFrame :: "buffer \<Rightarrow> string + VideoFrame" where
  "deserializeVideoFrame = deserialize_fields ''VideoFrame'' (parseVideoFrame_field readBytesOwning) default_VideoFrame"

definition deserializeVideoFrameView :: "anchor \<Rightarrow> buffer \<Rightarrow> string + VideoFrame" where
  "deserializeVideoFrameView anchor =
     deserialize_fields ''VideoFrame'' (parseVideoFrame_field (readBytesView anchor)) default_VideoFrame"

lemma parseVideoFrame_handler: "shrinks read_data \<Longrightarrow> field_handler (parseVideoFrame_field read_data)"
  by (rule field_handlerI) (simp add: parseVideoFrame_field_def readTimestampMessage_def)

text \<open>Both forms are the same parser up to what they do with the payload.\<close>

lemma parseVideoFrame_codec:
  assumes read: "shrinks read_data"
    and data: "\<And>d rest out. fits d \<Longrightarrow> read_data (delimited d @ rest) out
      = (True, rest, out\<lparr>vf_data := d, vf_anchor := own d\<rparr>)"
  shows "message_codec serializeVideoFrame (parseFields (parseVideoFrame_field read_data)) (\<lambda>_. True)
    (\<lambda>x. vf_anchor x = own (vf_data x))"
proof
  fix x y :: VideoFrame
  assume "vf_anchor x = own (vf_data x)" and "fits (serializeVideoFrame x)"
  then show "parseFields (parseVideoFrame_field read_data) (serializeVideoFrame x) y = (True, x)"
    by (cases x, cases y) (simp add: serializeVideoFrame_def
      field_handler.parse_simps [OF parseVideoFrame_handler [OF read]] field_actions parseVideoFrame_field_def
      readTimestampMessage_def timestamp.nested fits_lengths data)
qed

definition owned_VideoFrame :: "VideoFrame \<Rightarrow> VideoFrame" where
  "owned_VideoFrame x = x\<lparr>vf_anchor := OwnedCopy (vf_data x)\<rparr>"

interpretation video_frame_wire: wire_format serializeVideoFrame deserializeVideoFrame owned_VideoFrame "\<lambda>_. True"
  unfolding deserializeVideoFrame_def
  by (rule wire_format_fields [OF parseVideoFrame_codec [where own = OwnedCopy]])
    (simp_all add: readBytesOwning_def store_def owned_VideoFrame_def serializeVideoFrame_def)

interpretation video_frame_view_wire: wire_format serializeVideoFrame "deserializeVideoFrameView anchor"
  "\<lambda>x. x\<lparr>vf_anchor := anchor\<rparr>" "\<lambda>_. True" for anchor
  unfolding deserializeVideoFrameView_def
  by (rule wire_format_fields [OF parseVideoFrame_codec [where own = "\<lambda>_. anchor"]])
    (simp_all add: readBytesView_def store_def serializeVideoFrame_def)

end
