(* ===== verification/PointClouds.thy ===== *)
theory PointClouds
  imports WireFormat
begin

section \<open>Point clouds (\<open>builtin/point_cloud_codec.cpp\<close>, \<open>compressed_point_cloud_codec.cpp\<close>)\<close>

text \<open>
  The packed point cloud, whose decoder either copies the point bytes or keeps a view of the
  caller's buffer when it is given an anchor, and the compressed point cloud.
\<close>

subsection \<open>Packed point clouds\<close>

record PointCloud =
  pc_width :: u32
  pc_height :: u32
  pc_point_step :: u32
  pc_row_step :: u32
  pc_is_bigendian :: bool
  pc_is_dense :: bool
  pc_frame_id :: bytes
  pc_fields :: "PointField list"
  pc_data :: bytes
  pc_anchor :: anchor
  pc_timestamp_ns :: Timestamp

definition default_PointCloud :: PointCloud where
  "default_PointCloud = \<lparr>pc_width = 0, pc_height = 1, pc_point_step = 0, pc_row_step = 0,
     pc_is_bigendian = False, pc_is_dense = True, pc_frame_id = [], pc_fields = [], pc_data = [],
     pc_anchor = NoAnchor, pc_timestamp_ns = 0\<rparr>"

text \<open>The owner of the decoded bytes: the anchor passed in when there is one, else a copy.\<close>

definition cloud_owner :: "anchor \<Rightarrow> bytes \<Rightarrow> anchor" where
  "cloud_owner input_anchor d = (if input_anchor \<noteq> NoAnchor then input_anchor else OwnedCopy d)"

definition readBytesIntoCloud :: "anchor \<Rightarrow> PointCloud action" where
  "readBytesIntoCloud input_anchor = store readBytes
     (\<lambda>d out. out\<lparr>pc_data := d, pc_anchor := cloud_owner input_anchor d\<rparr>)"

definition serializePointCloud :: "PointCloud \<Rightarrow> bytes" where
  "serializePointCloud cloud =
     w_message 1 (writeTimestamp (pc_timestamp_ns cloud))
     @ w_varint 2 (ucast (pc_width cloud))
     @ w_varint 3 (ucast (pc_height cloud))
     @ w_varint 4 (ucast (pc_point_step cloud))
     @ w_varint 5 (ucast (pc_row_step cloud))
     @ w_varint 6 (varint_of_bool (pc_is_bigendian cloud))
     @ w_varint 7 (varint_of_bool (pc_is_dense cloud))
     @ concat (map (\<lambda>x. w_message 8 (writePointField x)) (pc_fields cloud))
     @ w_bytes 9 (pc_data cloud)
     @ w_string 10 (pc_frame_id cloud)"

definition decodePointCloud_field :: "anchor \<Rightarrow> Tag \<Rightarrow> PointCloud action" where
  "decodePointCloud_field input_anchor tag =
     (if tag_field tag = 1 then expect tag kLengthDelimited (on_field pc_timestamp_ns pc_timestamp_ns_update readTimestampMessage)
      else if tag_field tag = 2 then expect tag kVarint (store readVarint (\<lambda>v out. out\<lparr>pc_width := ucast v\<rparr>))
      else if tag_field tag = 3 then expect tag kVarint (store readVarint (\<lambda>v out. out\<lparr>pc_height := ucast v\<rparr>))
      else if tag_field tag = 4 then expect tag kVarint (store readVarint (\<lambda>v out. out\<lparr>pc_point_step := ucast v\<rparr>))
      else if tag_field tag = 5 then expect tag kVarint (store readVarint (\<lambda>v out. out\<lparr>pc_row_step := ucast v\<rparr>))
      else if tag_field tag = 6 then expect tag kVarint (store readVarint (\<lambda>v out. out\<lparr>pc_is_bigendian := (v \<noteq> 0)\<rparr>))
      else if tag_field tag = 7 then expect tag kVarint (store readVarint (\<lambda>v out. out\<lparr>pc_is_dense := (v \<noteq> 0)\<rparr>))
      else if tag_field tag = 8 then expect tag kLengthDelimited (readPointFieldIntoVector pc_fields_update)
      else if tag_field tag = 9 then expect tag kLengthDelimited (readBytesIntoCloud input_anchor)
      else if tag_field tag = 10 then expect tag kLengthDelimited (store readString (\<lambda>v out. out\<lparr>pc_frame_id := v\<rparr>))
      else decline)"

definition decodePointCloud :: "anchor \<Rightarrow> buffer \<Rightarrow> string + PointCloud" where
  "decodePointCloud input_anchor =
     deserialize_fields ''PointCloud'' (decodePointCloud_field input_anchor) default_PointCloud"

definition deserializePointCloud :: "buffer \<Rightarrow> string + PointCloud" where
  "deserializePointCloud = decodePointCloud NoAnchor"

definition deserializePointCloudView :: "anchor \<Rightarrow> buffer \<Rightarrow> string + PointCloud" where
  "deserializePointCloudView anchor = decodePointCloud anchor"

interpretation point_cloud_fields: field_handler "decodePointCloud_field input_anchor" for input_anchor
  by (rule field_handlerI) (simp add: decodePointCloud_field_def readBytesIntoCloud_def
    readPointFieldIntoVector_def readTimestampMessage_def)

interpretation point_cloud: message_codec serializePointCloud "parseFields (decodePointCloud_field input_anchor)"
  "\<lambda>y. pc_fields y = []"
  "\<lambda>x. pc_anchor x = cloud_owner input_anchor (pc_data x)" for input_anchor
proof
  fix x y :: PointCloud
  assume "pc_anchor x = cloud_owner input_anchor (pc_data x)"
    and "pc_fields y = []"
    and "fits (serializePointCloud x)"
  then show "parseFields (decodePointCloud_field input_anchor) (serializePointCloud x) y = (True, x)"
    by (cases x, cases y) (simp add: serializePointCloud_def point_cloud_fields.parse_simps
      field_actions decodePointCloud_field_def readBytesIntoCloud_def
      readPointFieldIntoVector_def readTimestampMessage_def timestamp.nested fits_lengths
      point_field.repeated [OF point_cloud_fields.field_handler_axioms, where f = 8 and init = default_PointField
        and upd = pc_fields_update])
qed

definition owned_PointCloud :: "anchor \<Rightarrow> PointCloud \<Rightarrow> PointCloud" where
  "owned_PointCloud input_anchor x = x\<lparr>pc_anchor := cloud_owner input_anchor (pc_data x)\<rparr>"

interpretation point_cloud_wire: wire_format serializePointCloud "decodePointCloud input_anchor"
  "owned_PointCloud input_anchor" "\<lambda>_. True" for input_anchor
  unfolding decodePointCloud_def
  by (rule wire_format_fields [OF point_cloud.message_codec_axioms])
    (simp_all add: default_PointCloud_def owned_PointCloud_def serializePointCloud_def)

subsection \<open>Compressed point clouds\<close>

record CompressedPointCloud =
  cpc_timestamp_ns :: Timestamp
  cpc_frame_id :: bytes
  cpc_format :: bytes
  cpc_data :: bytes
  cpc_anchor :: anchor

definition default_CompressedPointCloud :: CompressedPointCloud where
  "default_CompressedPointCloud = \<lparr>cpc_timestamp_ns = 0, cpc_frame_id = [],
     cpc_format = [], cpc_data = [], cpc_anchor = NoAnchor\<rparr>"

definition readBytesIntoCompressedCloud :: "CompressedPointCloud action" where
  "readBytesIntoCompressedCloud = store readBytes
     (\<lambda>d out. out\<lparr>cpc_data := d, cpc_anchor := OwnedCopy d\<rparr>)"

definition serializeCompressedPointCloud :: "CompressedPointCloud \<Rightarrow> bytes" where
  "serializeCompressedPointCloud cloud =
     w_message 1 (writeTimestamp (cpc_timestamp_ns cloud))
     @ w_string 2 (cpc_frame_id cloud)
     @ w_string 3 (cpc_format cloud)
     @ w_bytes 4 (cpc_data cloud)"

definition deserializeCompressedPointCloud_field :: "Tag \<Rightarrow> CompressedPointCloud action" where
  "deserializeCompressedPointCloud_field tag =
     (if tag_type tag \<noteq> kLengthDelimited then decline
      else if tag_field tag = 1 then
        on_field cpc_timestamp_ns cpc_timestamp_ns_update readTimestampMessage
      else if tag_field tag = 2 then
        store readString (\<lambda>v out. out\<lparr>cpc_frame_id := v\<rparr>)
      else if tag_field tag = 3 then
        store readString (\<lambda>v out. out\<lparr>cpc_format := v\<rparr>)
      else if tag_field tag = 4 then readBytesIntoCompressedCloud
      else decline)"

definition deserializeCompressedPointCloud :: "buffer \<Rightarrow> string + CompressedPointCloud" where
  "deserializeCompressedPointCloud = deserialize_fields ''CompressedPointCloud'' deserializeCompressedPointCloud_field default_CompressedPointCloud"

interpretation compressed_cloud_fields: field_handler deserializeCompressedPointCloud_field
  by (rule field_handlerI) (simp add: deserializeCompressedPointCloud_field_def
    readBytesIntoCompressedCloud_def readTimestampMessage_def)

interpretation compressed_cloud: message_codec serializeCompressedPointCloud "parseFields deserializeCompressedPointCloud_field"
  "\<lambda>_. True"
  "\<lambda>x. cpc_anchor x = OwnedCopy (cpc_data x)"
proof
  fix x y :: CompressedPointCloud
  assume "cpc_anchor x = OwnedCopy (cpc_data x)"
    and "fits (serializeCompressedPointCloud x)"
  then show "parseFields deserializeCompressedPointCloud_field (serializeCompressedPointCloud x) y = (True, x)"
    by (cases x, cases y) (simp add: serializeCompressedPointCloud_def
      compressed_cloud_fields.parse_simps field_actions deserializeCompressedPointCloud_field_def
      readBytesIntoCompressedCloud_def readTimestampMessage_def timestamp.nested fits_lengths)
qed

text \<open>The object with its bytes owned by a copy, as the decoder leaves it.\<close>

definition owned_CompressedPointCloud :: "CompressedPointCloud \<Rightarrow> CompressedPointCloud" where
  "owned_CompressedPointCloud x = x\<lparr>cpc_anchor := OwnedCopy (cpc_data x)\<rparr>"

interpretation compressed_cloud_wire: wire_format serializeCompressedPointCloud deserializeCompressedPointCloud owned_CompressedPointCloud
  "\<lambda>_. True"
  unfolding deserializeCompressedPointCloud_def
  by (rule wire_format_fields [OF compressed_cloud.message_codec_axioms])
    (simp_all add: default_CompressedPointCloud_def owned_CompressedPointCloud_def serializeCompressedPointCloud_def)

end
