(* ===== verification/Frames.thy ===== *)
theory Frames
  imports WireFormat
begin

section \<open>Frames and poses (\<open>builtin/frame_transforms_codec.cpp\<close>, \<open>poses_in_frame_codec.cpp\<close>)\<close>

text \<open>
  \<open>FrameTransforms\<close>, a batch of transforms between named frames, and \<open>PosesInFrame\<close>.
\<close>

subsection \<open>Frame transforms\<close>

record FrameTransform =
  ft_timestamp :: Timestamp
  ft_parent_frame_id :: bytes
  ft_child_frame_id :: bytes
  ft_translation :: Vector3
  ft_rotation :: Quaternion

definition default_FrameTransform :: FrameTransform where
  "default_FrameTransform = \<lparr>ft_timestamp = 0, ft_parent_frame_id = [],
     ft_child_frame_id = [], ft_translation = default_Vector3, ft_rotation = default_Quaternion\<rparr>"

definition writeFrameTransform :: "FrameTransform \<Rightarrow> bytes" where
  "writeFrameTransform transform =
     w_message 1 (writeTimestamp (ft_timestamp transform))
     @ w_string 2 (ft_parent_frame_id transform)
     @ w_string 3 (ft_child_frame_id transform)
     @ w_message 4 (writeVector3 (ft_translation transform))
     @ w_message 5 (writeQuaternion (ft_rotation transform))"

definition decodeFrameTransform_field :: "Tag \<Rightarrow> FrameTransform action" where
  "decodeFrameTransform_field tag =
     (if tag_type tag \<noteq> kLengthDelimited then decline
      else if tag_field tag = 1 then
        on_field ft_timestamp ft_timestamp_update readTimestampMessage
      else if tag_field tag = 2 then
        store readString (\<lambda>v out. out\<lparr>ft_parent_frame_id := v\<rparr>)
      else if tag_field tag = 3 then
        store readString (\<lambda>v out. out\<lparr>ft_child_frame_id := v\<rparr>)
      else if tag_field tag = 4 then
        on_field ft_translation ft_translation_update readVector3Message
      else if tag_field tag = 5 then
        on_field ft_rotation ft_rotation_update readQuaternionMessage
      else decline)"

definition decodeFrameTransform :: "reader \<Rightarrow> FrameTransform \<Rightarrow> bool \<times> FrameTransform" where
  "decodeFrameTransform = parseFields decodeFrameTransform_field"

interpretation frame_transform_fields: field_handler decodeFrameTransform_field
  by (rule field_handlerI) (simp add: decodeFrameTransform_field_def
    readQuaternionMessage_def readTimestampMessage_def readVector3Message_def)

interpretation frame_transform: message_codec writeFrameTransform decodeFrameTransform
  "\<lambda>_. True"
  "\<lambda>_. True"
proof
  fix x y :: FrameTransform
  assume "fits (writeFrameTransform x)"
  then show "decodeFrameTransform (writeFrameTransform x) y = (True, x)"
    by (cases x, cases y) (simp add: decodeFrameTransform_def writeFrameTransform_def
      frame_transform_fields.parse_simps field_actions decodeFrameTransform_field_def
      readQuaternionMessage_def readTimestampMessage_def readVector3Message_def quaternion.nested
      timestamp.nested vector3.nested fits_lengths)
qed

record FrameTransforms =
  fts_transforms :: "FrameTransform list"

definition default_FrameTransforms :: FrameTransforms where
  "default_FrameTransforms = \<lparr>fts_transforms = []\<rparr>"

definition serializeFrameTransforms :: "FrameTransforms \<Rightarrow> bytes" where
  "serializeFrameTransforms transforms =
     concat (map (\<lambda>t. w_message 1 (writeFrameTransform t)) (fts_transforms transforms))"

definition frame_transforms_dispatch :: "u32 \<Rightarrow> reader \<Rightarrow> FrameTransforms \<Rightarrow> string + FrameTransforms" where
  "frame_transforms_dispatch field nested transforms =
     (if field = 1 then
        push_decoded decodeFrameTransform default_FrameTransform
          ''FrameTransforms wire: FrameTransform decode failed'' fts_transforms_update nested transforms
      else Inr transforms)"

definition deserializeFrameTransforms :: "buffer \<Rightarrow> string + FrameTransforms" where
  "deserializeFrameTransforms =
     deserialize_batch ''FrameTransforms'' frame_transforms_dispatch default_FrameTransforms"

interpretation frame_transforms_wire:
  wire_format serializeFrameTransforms deserializeFrameTransforms "\<lambda>x. x" "\<lambda>_. True"
proof
  fix x
  assume fits: "fits (serializeFrameTransforms x)" and ne: "serializeFrameTransforms x \<noteq> []"
  have "scanFields t s (batch_body name frame_transforms_dispatch) (serializeFrameTransforms x)
      default_FrameTransforms
    = (None, fts_transforms_update (\<lambda>l. l @ fts_transforms x) default_FrameTransforms)" for t s name
    using fits unfolding serializeFrameTransforms_def
    by (intro frame_transform.batch_repeated_last [where init = default_FrameTransform
        and e = "''FrameTransforms wire: FrameTransform decode failed''"])
      (simp_all add: frame_transforms_dispatch_def)
  then show "deserializeFrameTransforms (Buffer (serializeFrameTransforms x)) = Inr x"
    using ne by (simp add: deserializeFrameTransforms_def deserialize_batch_def default_FrameTransforms_def)
qed (simp_all add: deserializeFrameTransforms_def deserialize_batch_def)

subsection \<open>Poses\<close>

record PosesInFrame =
  pif_timestamp_ns :: Timestamp
  pif_frame_id :: bytes
  pif_poses :: "Pose list"

definition default_PosesInFrame :: PosesInFrame where
  "default_PosesInFrame = \<lparr>pif_timestamp_ns = 0, pif_frame_id = [], pif_poses = []\<rparr>"

definition serializePosesInFrame :: "PosesInFrame \<Rightarrow> bytes" where
  "serializePosesInFrame poses =
     w_message 1 (writeTimestamp (pif_timestamp_ns poses))
     @ w_string 2 (pif_frame_id poses)
     @ concat (map (\<lambda>x. w_message 3 (writePose x)) (pif_poses poses))"

definition deserializePosesInFrame_field :: "Tag \<Rightarrow> PosesInFrame action" where
  "deserializePosesInFrame_field tag =
     (if tag_field tag = 1 then
        expect tag kLengthDelimited (on_field pif_timestamp_ns pif_timestamp_ns_update readTimestampMessage)
      else if tag_field tag = 2 then
        expect tag kLengthDelimited (store readString (\<lambda>v out. out\<lparr>pif_frame_id := v\<rparr>))
      else if tag_field tag = 3 then
        expect tag kLengthDelimited (readIntoVector decodePose default_Pose pif_poses_update)
      else decline)"

definition deserializePosesInFrame :: "buffer \<Rightarrow> string + PosesInFrame" where
  "deserializePosesInFrame = deserialize_fields ''PosesInFrame'' deserializePosesInFrame_field default_PosesInFrame"

interpretation poses_in_frame_fields: field_handler deserializePosesInFrame_field
  by (rule field_handlerI) (simp add: deserializePosesInFrame_field_def
    readTimestampMessage_def)

interpretation poses_in_frame: message_codec serializePosesInFrame "parseFields deserializePosesInFrame_field"
  "\<lambda>y. pif_poses y = []"
  "\<lambda>_. True"
proof
  fix x y :: PosesInFrame
  assume "pif_poses y = []"
    and "fits (serializePosesInFrame x)"
  then show "parseFields deserializePosesInFrame_field (serializePosesInFrame x) y = (True, x)"
    by (cases x, cases y) (simp add: serializePosesInFrame_def poses_in_frame_fields.parse_simps
      field_actions deserializePosesInFrame_field_def readTimestampMessage_def timestamp.nested
      fits_lengths
      pose.repeated_last [OF poses_in_frame_fields.field_handler_axioms, where f = 3 and init = default_Pose
        and upd = pif_poses_update])
qed

interpretation poses_in_frame_wire: wire_format serializePosesInFrame deserializePosesInFrame "\<lambda>x. x"
  "\<lambda>_. True"
  unfolding deserializePosesInFrame_def
  by (rule wire_format_fields [OF poses_in_frame.message_codec_axioms])
    (simp_all add: default_PosesInFrame_def)

end
