(* ===== verification/Grids.thy ===== *)
theory Grids
  imports WireFormat
begin

section \<open>Grids (\<open>builtin/occupancy_grid_codec.cpp\<close> and its siblings)\<close>

text \<open>
  \<open>OccupancyGrid\<close>, \<open>OccupancyGridUpdate\<close>, \<open>VoxelGrid\<close> and \<open>GridMap\<close>. The signed cell offsets of the
  update are 32-bit words, written zero-extended and reinterpreted on reading. The grid map
  validates its layout; \<open>validateLayout\<close> is proved to be exactly what an access to any channel
  of any cell needs.
\<close>

subsection \<open>Occupancy grids\<close>

record OccupancyGrid =
  og_timestamp_ns :: Timestamp
  og_frame_id :: bytes
  og_origin :: Pose
  og_resolution :: f64
  og_width :: u32
  og_height :: u32
  og_data :: bytes
  og_anchor :: anchor

definition default_OccupancyGrid :: OccupancyGrid where
  "default_OccupancyGrid = \<lparr>og_timestamp_ns = 0, og_frame_id = [],
     og_origin = default_Pose, og_resolution = 0, og_width = 0, og_height = 0, og_data = [],
     og_anchor = NoAnchor\<rparr>"

definition readBytesIntoOccupancyGrid :: "OccupancyGrid action" where
  "readBytesIntoOccupancyGrid = store readBytes
     (\<lambda>d out. out\<lparr>og_data := d, og_anchor := OwnedCopy d\<rparr>)"

definition serializeOccupancyGrid :: "OccupancyGrid \<Rightarrow> bytes" where
  "serializeOccupancyGrid grid =
     w_message 1 (writeTimestamp (og_timestamp_ns grid))
     @ w_string 2 (og_frame_id grid)
     @ w_message 3 (writePose (og_origin grid))
     @ w_doubleField 4 (og_resolution grid)
     @ w_varint 5 (ucast (og_width grid))
     @ w_varint 6 (ucast (og_height grid))
     @ w_bytes 7 (og_data grid)"

definition deserializeOccupancyGrid_field :: "Tag \<Rightarrow> OccupancyGrid action" where
  "deserializeOccupancyGrid_field tag =
     (if tag_field tag = 1 then
        expect tag kLengthDelimited (on_field og_timestamp_ns og_timestamp_ns_update readTimestampMessage)
      else if tag_field tag = 2 then
        expect tag kLengthDelimited (store readString (\<lambda>v out. out\<lparr>og_frame_id := v\<rparr>))
      else if tag_field tag = 3 then
        expect tag kLengthDelimited (on_field og_origin og_origin_update readPoseMessage)
      else if tag_field tag = 4 then
        expect tag kFixed64 (store readDouble (\<lambda>v out. out\<lparr>og_resolution := v\<rparr>))
      else if tag_field tag = 5 then
        expect tag kVarint (store readVarint (\<lambda>v out. out\<lparr>og_width := ucast v\<rparr>))
      else if tag_field tag = 6 then
        expect tag kVarint (store readVarint (\<lambda>v out. out\<lparr>og_height := ucast v\<rparr>))
      else if tag_field tag = 7 then expect tag kLengthDelimited (readBytesIntoOccupancyGrid)
      else decline)"

definition deserializeOccupancyGrid :: "buffer \<Rightarrow> string + OccupancyGrid" where
  "deserializeOccupancyGrid = deserialize_fields ''OccupancyGrid'' deserializeOccupancyGrid_field default_OccupancyGrid"

interpretation occupancy_grid_fields: field_handler deserializeOccupancyGrid_field
  by (rule field_handlerI) (simp add: deserializeOccupancyGrid_field_def
    readBytesIntoOccupancyGrid_def readPoseMessage_def readTimestampMessage_def)

interpretation occupancy_grid: message_codec serializeOccupancyGrid "parseFields deserializeOccupancyGrid_field"
  "\<lambda>_. True"
  "\<lambda>x. og_anchor x = OwnedCopy (og_data x)"
proof
  fix x y :: OccupancyGrid
  assume "og_anchor x = OwnedCopy (og_data x)"
    and "fits (serializeOccupancyGrid x)"
  then show "parseFields deserializeOccupancyGrid_field (serializeOccupancyGrid x) y = (True, x)"
    by (cases x, cases y) (simp add: serializeOccupancyGrid_def
      occupancy_grid_fields.parse_simps field_actions deserializeOccupancyGrid_field_def
      readBytesIntoOccupancyGrid_def readPoseMessage_def readTimestampMessage_def pose.nested
      timestamp.nested fits_lengths)
qed

text \<open>The object with its bytes owned by a copy, as the decoder leaves it.\<close>

definition owned_OccupancyGrid :: "OccupancyGrid \<Rightarrow> OccupancyGrid" where
  "owned_OccupancyGrid x = x\<lparr>og_anchor := OwnedCopy (og_data x)\<rparr>"

interpretation occupancy_grid_wire: wire_format serializeOccupancyGrid deserializeOccupancyGrid owned_OccupancyGrid
  "\<lambda>_. True"
  unfolding deserializeOccupancyGrid_def
  by (rule wire_format_fields [OF occupancy_grid.message_codec_axioms])
    (simp_all add: default_OccupancyGrid_def owned_OccupancyGrid_def serializeOccupancyGrid_def)

subsection \<open>Updates of occupancy grids\<close>

record OccupancyGridUpdate =
  ogu_timestamp_ns :: Timestamp
  ogu_frame_id :: bytes
  ogu_x :: u32
  ogu_y :: u32
  ogu_width :: u32
  ogu_height :: u32
  ogu_data :: bytes
  ogu_anchor :: anchor

definition default_OccupancyGridUpdate :: OccupancyGridUpdate where
  "default_OccupancyGridUpdate = \<lparr>ogu_timestamp_ns = 0, ogu_frame_id = [], ogu_x = 0,
     ogu_y = 0, ogu_width = 0, ogu_height = 0, ogu_data = [], ogu_anchor = NoAnchor\<rparr>"

definition readBytesIntoUpdate :: "OccupancyGridUpdate action" where
  "readBytesIntoUpdate = store readBytes
     (\<lambda>d out. out\<lparr>ogu_data := d, ogu_anchor := OwnedCopy d\<rparr>)"

definition serializeOccupancyGridUpdate :: "OccupancyGridUpdate \<Rightarrow> bytes" where
  "serializeOccupancyGridUpdate update =
     w_message 1 (writeTimestamp (ogu_timestamp_ns update))
     @ w_string 2 (ogu_frame_id update)
     @ w_varint 3 (ucast (ogu_x update))
     @ w_varint 4 (ucast (ogu_y update))
     @ w_varint 5 (ucast (ogu_width update))
     @ w_varint 6 (ucast (ogu_height update))
     @ w_bytes 7 (ogu_data update)"

definition deserializeOccupancyGridUpdate_field :: "Tag \<Rightarrow> OccupancyGridUpdate action" where
  "deserializeOccupancyGridUpdate_field tag =
     (if tag_field tag = 1 then
        expect tag kLengthDelimited (on_field ogu_timestamp_ns ogu_timestamp_ns_update readTimestampMessage)
      else if tag_field tag = 2 then
        expect tag kLengthDelimited (store readString (\<lambda>v out. out\<lparr>ogu_frame_id := v\<rparr>))
      else if tag_field tag = 3 then
        expect tag kVarint (store readVarint (\<lambda>v out. out\<lparr>ogu_x := ucast v\<rparr>))
      else if tag_field tag = 4 then
        expect tag kVarint (store readVarint (\<lambda>v out. out\<lparr>ogu_y := ucast v\<rparr>))
      else if tag_field tag = 5 then
        expect tag kVarint (store readVarint (\<lambda>v out. out\<lparr>ogu_width := ucast v\<rparr>))
      else if tag_field tag = 6 then
        expect tag kVarint (store readVarint (\<lambda>v out. out\<lparr>ogu_height := ucast v\<rparr>))
      else if tag_field tag = 7 then expect tag kLengthDelimited (readBytesIntoUpdate)
      else decline)"

definition deserializeOccupancyGridUpdate :: "buffer \<Rightarrow> string + OccupancyGridUpdate" where
  "deserializeOccupancyGridUpdate = deserialize_fields ''OccupancyGridUpdate'' deserializeOccupancyGridUpdate_field default_OccupancyGridUpdate"

interpretation occupancy_grid_update_fields: field_handler deserializeOccupancyGridUpdate_field
  by (rule field_handlerI) (simp add: deserializeOccupancyGridUpdate_field_def
    readBytesIntoUpdate_def readTimestampMessage_def)

interpretation occupancy_grid_update: message_codec serializeOccupancyGridUpdate "parseFields deserializeOccupancyGridUpdate_field"
  "\<lambda>_. True"
  "\<lambda>x. ogu_anchor x = OwnedCopy (ogu_data x)"
proof
  fix x y :: OccupancyGridUpdate
  assume "ogu_anchor x = OwnedCopy (ogu_data x)"
    and "fits (serializeOccupancyGridUpdate x)"
  then show "parseFields deserializeOccupancyGridUpdate_field (serializeOccupancyGridUpdate x) y = (True, x)"
    by (cases x, cases y) (simp add: serializeOccupancyGridUpdate_def
      occupancy_grid_update_fields.parse_simps field_actions
      deserializeOccupancyGridUpdate_field_def readBytesIntoUpdate_def readTimestampMessage_def
      timestamp.nested fits_lengths)
qed

text \<open>The object with its bytes owned by a copy, as the decoder leaves it.\<close>

definition owned_OccupancyGridUpdate :: "OccupancyGridUpdate \<Rightarrow> OccupancyGridUpdate" where
  "owned_OccupancyGridUpdate x = x\<lparr>ogu_anchor := OwnedCopy (ogu_data x)\<rparr>"

interpretation occupancy_grid_update_wire: wire_format serializeOccupancyGridUpdate deserializeOccupancyGridUpdate owned_OccupancyGridUpdate
  "\<lambda>_. True"
  unfolding deserializeOccupancyGridUpdate_def
  by (rule wire_format_fields [OF occupancy_grid_update.message_codec_axioms])
    (simp_all add: default_OccupancyGridUpdate_def owned_OccupancyGridUpdate_def serializeOccupancyGridUpdate_def)

subsection \<open>Voxel grids\<close>

text \<open>The local \<open>readVarintInto\<close> of the voxel grid and the grid map.\<close>

definition readVarintInto :: "Tag \<Rightarrow> (u32 \<Rightarrow> 'a \<Rightarrow> 'a) \<Rightarrow> 'a action" where
  "readVarintInto tag upd = expect tag kVarint (store readVarint (\<lambda>v. upd (ucast v)))"

record VoxelGrid =
  vg_timestamp_ns :: Timestamp
  vg_frame_id :: bytes
  vg_origin :: Pose
  vg_cell_size :: Vector3
  vg_column_count :: u32
  vg_row_count :: u32
  vg_slice_count :: u32
  vg_cell_stride :: u32
  vg_row_stride :: u32
  vg_slice_stride :: u32
  vg_fields :: "PointField list"
  vg_data :: bytes
  vg_anchor :: anchor

definition default_VoxelGrid :: VoxelGrid where
  "default_VoxelGrid = \<lparr>vg_timestamp_ns = 0, vg_frame_id = [], vg_origin = default_Pose,
     vg_cell_size = default_Vector3, vg_column_count = 0, vg_row_count = 0, vg_slice_count = 0,
     vg_cell_stride = 0, vg_row_stride = 0, vg_slice_stride = 0, vg_fields = [], vg_data = [],
     vg_anchor = NoAnchor\<rparr>"

definition readBytesIntoVoxelGrid :: "VoxelGrid action" where
  "readBytesIntoVoxelGrid = store readBytes
     (\<lambda>d out. out\<lparr>vg_data := d, vg_anchor := OwnedCopy d\<rparr>)"

definition serializeVoxelGrid :: "VoxelGrid \<Rightarrow> bytes" where
  "serializeVoxelGrid grid =
     w_message 1 (writeTimestamp (vg_timestamp_ns grid))
     @ w_string 2 (vg_frame_id grid)
     @ w_message 3 (writePose (vg_origin grid))
     @ w_message 4 (writeVector3 (vg_cell_size grid))
     @ w_varint 5 (ucast (vg_column_count grid))
     @ w_varint 6 (ucast (vg_row_count grid))
     @ w_varint 7 (ucast (vg_slice_count grid))
     @ w_varint 8 (ucast (vg_cell_stride grid))
     @ w_varint 9 (ucast (vg_row_stride grid))
     @ w_varint 10 (ucast (vg_slice_stride grid))
     @ concat (map (\<lambda>x. w_message 11 (writePointField x)) (vg_fields grid))
     @ w_bytes 12 (vg_data grid)"

definition deserializeVoxelGrid_field :: "Tag \<Rightarrow> VoxelGrid action" where
  "deserializeVoxelGrid_field tag =
     (if tag_field tag = 1 then
        expect tag kLengthDelimited (on_field vg_timestamp_ns vg_timestamp_ns_update readTimestampMessage)
      else if tag_field tag = 2 then
        expect tag kLengthDelimited (store readString (\<lambda>v out. out\<lparr>vg_frame_id := v\<rparr>))
      else if tag_field tag = 3 then
        expect tag kLengthDelimited (on_field vg_origin vg_origin_update readPoseMessage)
      else if tag_field tag = 4 then
        expect tag kLengthDelimited (on_field vg_cell_size vg_cell_size_update readVector3Message)
      else if tag_field tag = 5 then
        readVarintInto tag (\<lambda>v out. out\<lparr>vg_column_count := v\<rparr>)
      else if tag_field tag = 6 then
        readVarintInto tag (\<lambda>v out. out\<lparr>vg_row_count := v\<rparr>)
      else if tag_field tag = 7 then
        readVarintInto tag (\<lambda>v out. out\<lparr>vg_slice_count := v\<rparr>)
      else if tag_field tag = 8 then
        readVarintInto tag (\<lambda>v out. out\<lparr>vg_cell_stride := v\<rparr>)
      else if tag_field tag = 9 then
        readVarintInto tag (\<lambda>v out. out\<lparr>vg_row_stride := v\<rparr>)
      else if tag_field tag = 10 then
        readVarintInto tag (\<lambda>v out. out\<lparr>vg_slice_stride := v\<rparr>)
      else if tag_field tag = 11 then
        expect tag kLengthDelimited (readPointFieldIntoVector vg_fields_update)
      else if tag_field tag = 12 then expect tag kLengthDelimited (readBytesIntoVoxelGrid)
      else decline)"

definition deserializeVoxelGrid :: "buffer \<Rightarrow> string + VoxelGrid" where
  "deserializeVoxelGrid = deserialize_fields ''VoxelGrid'' deserializeVoxelGrid_field default_VoxelGrid"

interpretation voxel_grid_fields: field_handler deserializeVoxelGrid_field
  by (rule field_handlerI) (simp add: deserializeVoxelGrid_field_def
    readBytesIntoVoxelGrid_def readPointFieldIntoVector_def readPoseMessage_def
    readTimestampMessage_def readVarintInto_def readVector3Message_def)

interpretation voxel_grid: message_codec serializeVoxelGrid "parseFields deserializeVoxelGrid_field"
  "\<lambda>y. vg_fields y = []"
  "\<lambda>x. vg_anchor x = OwnedCopy (vg_data x)"
proof
  fix x y :: VoxelGrid
  assume "vg_anchor x = OwnedCopy (vg_data x)"
    and "vg_fields y = []"
    and "fits (serializeVoxelGrid x)"
  then show "parseFields deserializeVoxelGrid_field (serializeVoxelGrid x) y = (True, x)"
    by (cases x, cases y) (simp add: serializeVoxelGrid_def voxel_grid_fields.parse_simps
      field_actions deserializeVoxelGrid_field_def readBytesIntoVoxelGrid_def
      readPointFieldIntoVector_def readPoseMessage_def readTimestampMessage_def readVarintInto_def
      readVector3Message_def pose.nested timestamp.nested vector3.nested fits_lengths
      point_field.repeated [OF voxel_grid_fields.field_handler_axioms, where f = 11 and init = default_PointField
        and upd = vg_fields_update])
qed

text \<open>The object with its bytes owned by a copy, as the decoder leaves it.\<close>

definition owned_VoxelGrid :: "VoxelGrid \<Rightarrow> VoxelGrid" where
  "owned_VoxelGrid x = x\<lparr>vg_anchor := OwnedCopy (vg_data x)\<rparr>"

interpretation voxel_grid_wire: wire_format serializeVoxelGrid deserializeVoxelGrid owned_VoxelGrid
  "\<lambda>_. True"
  unfolding deserializeVoxelGrid_def
  by (rule wire_format_fields [OF voxel_grid.message_codec_axioms])
    (simp_all add: default_VoxelGrid_def owned_VoxelGrid_def serializeVoxelGrid_def)

subsection \<open>Grid maps\<close>

record GridMap =
  gm_timestamp_ns :: Timestamp
  gm_frame_id :: bytes
  gm_origin :: Pose
  gm_cell_size :: Vector2
  gm_column_count :: u32
  gm_row_count :: u32
  gm_cell_stride :: u32
  gm_row_stride :: u32
  gm_fields :: "PointField list"
  gm_data :: bytes
  gm_anchor :: anchor

definition default_GridMap :: GridMap where
  "default_GridMap = \<lparr>gm_timestamp_ns = 0, gm_frame_id = [], gm_origin = default_Pose,
     gm_cell_size = default_Vector2, gm_column_count = 0, gm_row_count = 0, gm_cell_stride = 0,
     gm_row_stride = 0, gm_fields = [], gm_data = [], gm_anchor = NoAnchor\<rparr>"

definition readBytesIntoGridMap :: "GridMap action" where
  "readBytesIntoGridMap = store readBytes
     (\<lambda>d out. out\<lparr>gm_data := d, gm_anchor := OwnedCopy d\<rparr>)"

definition serializeGridMap :: "GridMap \<Rightarrow> bytes" where
  "serializeGridMap grid =
     w_message 1 (writeTimestamp (gm_timestamp_ns grid))
     @ w_string 2 (gm_frame_id grid)
     @ w_message 3 (writePose (gm_origin grid))
     @ w_message 4 (writeVector2 (gm_cell_size grid))
     @ w_varint 5 (ucast (gm_column_count grid))
     @ w_varint 6 (ucast (gm_row_count grid))
     @ w_varint 7 (ucast (gm_cell_stride grid))
     @ w_varint 8 (ucast (gm_row_stride grid))
     @ concat (map (\<lambda>x. w_message 9 (writePointField x)) (gm_fields grid))
     @ w_bytes 10 (gm_data grid)"

definition deserializeGridMap_field :: "Tag \<Rightarrow> GridMap action" where
  "deserializeGridMap_field tag =
     (if tag_field tag = 1 then
        expect tag kLengthDelimited (on_field gm_timestamp_ns gm_timestamp_ns_update readTimestampMessage)
      else if tag_field tag = 2 then
        expect tag kLengthDelimited (store readString (\<lambda>v out. out\<lparr>gm_frame_id := v\<rparr>))
      else if tag_field tag = 3 then
        expect tag kLengthDelimited (on_field gm_origin gm_origin_update readPoseMessage)
      else if tag_field tag = 4 then
        expect tag kLengthDelimited (on_field gm_cell_size gm_cell_size_update readVector2Message)
      else if tag_field tag = 5 then
        readVarintInto tag (\<lambda>v out. out\<lparr>gm_column_count := v\<rparr>)
      else if tag_field tag = 6 then
        readVarintInto tag (\<lambda>v out. out\<lparr>gm_row_count := v\<rparr>)
      else if tag_field tag = 7 then
        readVarintInto tag (\<lambda>v out. out\<lparr>gm_cell_stride := v\<rparr>)
      else if tag_field tag = 8 then
        readVarintInto tag (\<lambda>v out. out\<lparr>gm_row_stride := v\<rparr>)
      else if tag_field tag = 9 then
        expect tag kLengthDelimited (readPointFieldIntoVector gm_fields_update)
      else if tag_field tag = 10 then expect tag kLengthDelimited (readBytesIntoGridMap)
      else decline)"

interpretation grid_map_fields: field_handler deserializeGridMap_field
  by (rule field_handlerI) (simp add: deserializeGridMap_field_def readBytesIntoGridMap_def
    readPointFieldIntoVector_def readPoseMessage_def readTimestampMessage_def readVarintInto_def
    readVector2Message_def)

interpretation grid_map: message_codec serializeGridMap "parseFields deserializeGridMap_field"
  "\<lambda>y. gm_fields y = []"
  "\<lambda>x. gm_anchor x = OwnedCopy (gm_data x)"
proof
  fix x y :: GridMap
  assume "gm_anchor x = OwnedCopy (gm_data x)"
    and "gm_fields y = []"
    and "fits (serializeGridMap x)"
  then show "parseFields deserializeGridMap_field (serializeGridMap x) y = (True, x)"
    by (cases x, cases y) (simp add: serializeGridMap_def grid_map_fields.parse_simps
      field_actions deserializeGridMap_field_def readBytesIntoGridMap_def
      readPointFieldIntoVector_def readPoseMessage_def readTimestampMessage_def readVarintInto_def
      readVector2Message_def pose.nested timestamp.nested vector2.nested fits_lengths
      point_field.repeated [OF grid_map_fields.field_handler_axioms, where f = 9 and init = default_PointField
        and upd = gm_fields_update])
qed

subsection \<open>The layout of a grid map\<close>

definition string_of_bytes :: "bytes \<Rightarrow> string" where
  "string_of_bytes bs = map (\<lambda>b. char_of (unat b)) bs"

definition field_end :: "PointField \<Rightarrow> u64" where
  "field_end field =
     ucast (pf_offset field) + ucast (bytesPerElement (pf_datatype field)) * ucast (pf_count field)"

fun validateFields :: "u32 \<Rightarrow> PointField list \<Rightarrow> string + unit" where
  "validateFields cell_stride [] = Inr ()"
| "validateFields cell_stride (field # fs) =
     (if pf_datatype field = kUnknown then
        Inl (''GridMap: field '' @ [CHR 0x27] @ string_of_bytes (pf_name field) @ [CHR 0x27] @ '' has an unknown datatype'')
      else if pf_count field = 0 then
        Inl (''GridMap: field '' @ [CHR 0x27] @ string_of_bytes (pf_name field) @ [CHR 0x27] @ '' has a zero count'')
      else if field_end field > ucast cell_stride then
        Inl (''GridMap: field '' @ [CHR 0x27] @ string_of_bytes (pf_name field) @ [CHR 0x27] @ '' reaches past cell_stride'')
      else validateFields cell_stride fs)"

definition validateLayout :: "GridMap \<Rightarrow> bool \<Rightarrow> string + unit" where
  "validateLayout grid check_data =
     (case validateFields (gm_cell_stride grid) (gm_fields grid) of
        Inl e \<Rightarrow> Inl e
      | Inr _ \<Rightarrow>
          if \<not> (gm_column_count grid > 0 \<and> gm_row_count grid > 0) then Inr ()
          else if gm_cell_stride grid = 0 \<or> gm_row_stride grid = 0 then
            Inl ''GridMap: zero stride with cells declared''
          else if (ucast (gm_row_stride grid) :: u64) < ucast (gm_column_count grid) * ucast (gm_cell_stride grid) then
            Inl ''GridMap: row_stride shorter than column_count * cell_stride''
          else if check_data \<and>
              (of_nat (length (gm_data grid)) :: u64) < ucast (gm_row_count grid) * ucast (gm_row_stride grid) then
            Inl ''GridMap: data shorter than row_count * row_stride''
          else Inr ())"

definition validateGridMap :: "GridMap \<Rightarrow> string + unit" where
  "validateGridMap grid = validateLayout grid True"

definition deserializeGridMap :: "buffer \<Rightarrow> string + GridMap" where
  "deserializeGridMap data =
     (if buffer_missing data then Inl ''GridMap wire: empty buffer''
      else case parseFields deserializeGridMap_field (buffer_bytes data) default_GridMap of
        (ok, grid) \<Rightarrow>
          if \<not> ok then Inl ''GridMap wire: decode failed''
          else case validateLayout grid (gm_data grid \<noteq> []) of
            Inl e \<Rightarrow> Inl e
          | Inr _ \<Rightarrow> Inr grid)"

definition owned_GridMap :: "GridMap \<Rightarrow> GridMap" where
  "owned_GridMap x = x\<lparr>gm_anchor := OwnedCopy (gm_data x)\<rparr>"

lemma owned_GridMap_simps:
  "gm_fields (owned_GridMap x) = gm_fields x" "gm_data (owned_GridMap x) = gm_data x"
  "gm_column_count (owned_GridMap x) = gm_column_count x" "gm_row_count (owned_GridMap x) = gm_row_count x"
  "gm_cell_stride (owned_GridMap x) = gm_cell_stride x" "gm_row_stride (owned_GridMap x) = gm_row_stride x"
  by (simp_all add: owned_GridMap_def)

lemma validateLayout_owned [simp]: "validateLayout (owned_GridMap x) c = validateLayout x c"
  by (simp only: validateLayout_def owned_GridMap_simps)

interpretation grid_map_wire: wire_format serializeGridMap deserializeGridMap owned_GridMap
  "\<lambda>x. validateLayout x (gm_data x \<noteq> []) = Inr ()"
proof
  fix x
  assume ok: "validateLayout x (gm_data x \<noteq> []) = Inr ()" and fits: "fits (serializeGridMap x)"
    and ne: "serializeGridMap x \<noteq> []"
  have same: "serializeGridMap (owned_GridMap x) = serializeGridMap x"
    by (simp add: serializeGridMap_def owned_GridMap_def)
  have "parseFields deserializeGridMap_field (serializeGridMap (owned_GridMap x)) default_GridMap
    = (True, owned_GridMap x)"
    by (rule grid_map.roundtrip) (simp_all add: fits same, simp_all add: owned_GridMap_def default_GridMap_def)
  then show "deserializeGridMap (Buffer (serializeGridMap x)) = Inr (owned_GridMap x)"
    using ok ne by (simp add: deserializeGridMap_def same) (simp add: owned_GridMap_def)
qed (simp_all add: serializeGridMap_def owned_GridMap_def deserializeGridMap_def)

text \<open>What the validation accepts, in numbers that do not wrap around.\<close>

definition field_in_cell :: "nat \<Rightarrow> PointField \<Rightarrow> bool" where
  "field_in_cell cell_stride field \<longleftrightarrow>
     pf_datatype field \<noteq> kUnknown \<and> pf_count field \<noteq> 0 \<and>
     unat (pf_offset field) + unat (bytesPerElement (pf_datatype field)) * unat (pf_count field) \<le> cell_stride"

definition grid_layout_ok :: "GridMap \<Rightarrow> bool" where
  "grid_layout_ok g \<longleftrightarrow>
     (\<forall>field \<in> set (gm_fields g). field_in_cell (unat (gm_cell_stride g)) field) \<and>
     (gm_column_count g \<noteq> 0 \<and> gm_row_count g \<noteq> 0 \<longrightarrow>
        gm_cell_stride g \<noteq> 0 \<and>
        unat (gm_column_count g) * unat (gm_cell_stride g) \<le> unat (gm_row_stride g) \<and>
        unat (gm_row_count g) * unat (gm_row_stride g) \<le> length (gm_data g))"

lemma u32_less: "unat (a :: u32) < 4294967296"
  using unsigned_less [of a, where 'a = nat] by simp

lemma unat_ucast_u32 [simp]: "unat (ucast (a :: u32) :: u64) = unat a"
  using u32_less [of a] by (simp add: unsigned_ucast_eq take_bit_nat_eq_self)

lemma u32_product_bound: "unat (a :: u32) * unat (b :: u32) \<le> 4294967295 * 4294967295"
  using u32_less [of a] u32_less [of b] by (intro mult_mono) simp_all

lemma unat_ucast_product: "unat ((ucast (a :: u32) :: u64) * ucast (b :: u32)) = unat a * unat b"
  using u32_product_bound [of a b] by (simp add: unat_word_ariths)

lemma bytesPerElement_le: "unat (bytesPerElement dt) \<le> 8"
  by (cases dt) simp_all

lemma unat_field_end:
  "unat (field_end f) = unat (pf_offset f) + unat (bytesPerElement (pf_datatype f)) * unat (pf_count f)"
proof -
  have "unat (bytesPerElement (pf_datatype f)) * unat (pf_count f) \<le> 8 * 4294967295"
    using bytesPerElement_le [of "pf_datatype f"] u32_less [of "pf_count f"] by (intro mult_mono) simp_all
  then show ?thesis
    using u32_less [of "pf_offset f"]
    by (simp add: field_end_def unat_word_ariths(1) unat_ucast_product)
qed

lemma validateFields_iff:
  "validateFields stride fs = Inr u \<longleftrightarrow> (\<forall>f \<in> set fs. field_in_cell (unat stride) f)"
  by (induction fs)
    (auto simp: field_in_cell_def word_less_nat_alt unat_field_end not_less not_le)

lemma validateGridMap_iff:
  assumes "fits (gm_data g)"
  shows "validateGridMap g = Inr () \<longleftrightarrow> grid_layout_ok g"
proof (cases "validateFields (gm_cell_stride g) (gm_fields g)")
  case (Inl e)
  then have "\<not> (\<forall>f \<in> set (gm_fields g). field_in_cell (unat (gm_cell_stride g)) f)"
    using validateFields_iff [of "gm_cell_stride g" "gm_fields g" "()"] by auto
  then show ?thesis using Inl by (auto simp: validateGridMap_def validateLayout_def grid_layout_ok_def)
next
  case (Inr u)
  then have "\<forall>f \<in> set (gm_fields g). field_in_cell (unat (gm_cell_stride g)) f"
    by (simp add: validateFields_iff)
  moreover have "gm_row_stride g \<noteq> 0" if "gm_column_count g \<noteq> 0" "gm_cell_stride g \<noteq> 0"
    "unat (gm_column_count g) * unat (gm_cell_stride g) \<le> unat (gm_row_stride g)"
    using that by (auto simp: unat_eq_0)
  ultimately show ?thesis
    using Inr assms by (auto simp: validateGridMap_def validateLayout_def grid_layout_ok_def word_less_nat_alt
      unat_ucast_product not_less word_neq_0_conv)
qed

text \<open>Where element \<open>i\<close> of a channel of cell \<open>(column, row)\<close> ends in the data.\<close>

definition element_end :: "GridMap \<Rightarrow> nat \<Rightarrow> nat \<Rightarrow> PointField \<Rightarrow> nat \<Rightarrow> nat" where
  "element_end g row column field i =
     row * unat (gm_row_stride g) + column * unat (gm_cell_stride g) + unat (pf_offset field)
     + (i + 1) * unat (bytesPerElement (pf_datatype field))"

lemma strided_bound:
  fixes i n s e :: nat
  assumes "i < n" and "e \<le> s"
  shows "i * s + e \<le> n * s"
proof -
  have "i * s + e \<le> Suc i * s" using assms(2) by simp
  also have "\<dots> \<le> n * s" using assms(1) by (intro mult_right_mono) simp_all
  finally show ?thesis .
qed

lemma grid_layout_in_bounds:
  assumes ok: "grid_layout_ok g" and row: "row < unat (gm_row_count g)"
    and column: "column < unat (gm_column_count g)"
    and field: "field \<in> set (gm_fields g)" and i: "i < unat (pf_count field)"
  shows "element_end g row column field i \<le> length (gm_data g)"
proof -
  let ?b = "unat (bytesPerElement (pf_datatype field))"
  have cells: "gm_column_count g \<noteq> 0" "gm_row_count g \<noteq> 0"
    using row column by auto
  have "(i + 1) * ?b \<le> ?b * unat (pf_count field)"
    using i mult_le_mono1 [of "i + 1" "unat (pf_count field)" ?b] by (simp add: mult.commute)
  then have "unat (pf_offset field) + (i + 1) * ?b \<le> unat (gm_cell_stride g)"
    using ok field unfolding grid_layout_ok_def field_in_cell_def by fastforce
  from strided_bound [OF column this]
  have "column * unat (gm_cell_stride g) + (unat (pf_offset field) + (i + 1) * ?b) \<le> unat (gm_row_stride g)"
    using ok cells unfolding grid_layout_ok_def by linarith
  from strided_bound [OF row this] show ?thesis
    using ok cells unfolding grid_layout_ok_def element_end_def by linarith
qed

end
