(* ===== verification/Assets.thy ===== *)
theory Assets
  imports WireFormat
begin

section \<open>Meshes, logs and robot descriptions\<close>

text \<open>
  \<open>Mesh3D\<close> (\<open>builtin/mesh3d_codec.cpp\<close>), \<open>Log\<close> (\<open>log_codec.cpp\<close>) and \<open>RobotDescription\<close>
  (\<open>robot_description_codec.cpp\<close>).
\<close>

subsection \<open>Meshes\<close>

record Mesh3D =
  mesh_timestamp_ns :: Timestamp
  mesh_frame_id :: bytes
  mesh_id :: bytes
  mesh_pose :: Pose
  mesh_scale :: Vector3
  mesh_format :: bytes
  mesh_data :: bytes
  mesh_anchor :: anchor
  mesh_url :: bytes
  mesh_color :: ColorRGBA
  mesh_override_color :: bool

definition default_Mesh3D :: Mesh3D where
  "default_Mesh3D = \<lparr>mesh_timestamp_ns = 0, mesh_frame_id = [], mesh_id = [],
     mesh_pose = default_Pose,
     mesh_scale = \<lparr>v3_x = f64_one, v3_y = f64_one, v3_z = f64_one\<rparr>,
     mesh_format = [], mesh_data = [], mesh_anchor = NoAnchor, mesh_url = [],
     mesh_color = default_ColorRGBA, mesh_override_color = False\<rparr>"

definition readBytesIntoMesh :: "Mesh3D action" where
  "readBytesIntoMesh = store readBytes
     (\<lambda>d out. out\<lparr>mesh_data := d, mesh_anchor := OwnedCopy d\<rparr>)"

definition serializeMesh3D :: "Mesh3D \<Rightarrow> bytes" where
  "serializeMesh3D mesh =
     w_message 1 (writeTimestamp (mesh_timestamp_ns mesh))
     @ w_string 2 (mesh_frame_id mesh)
     @ w_string 3 (mesh_id mesh)
     @ w_message 4 (writePose (mesh_pose mesh))
     @ w_message 5 (writeVector3 (mesh_scale mesh))
     @ w_string 6 (mesh_format mesh)
     @ w_bytes 7 (mesh_data mesh)
     @ w_string 8 (mesh_url mesh)
     @ w_message 9 (writeColor (mesh_color mesh))
     @ w_varint 10 (varint_of_bool (mesh_override_color mesh))"

definition deserializeMesh3D_field :: "(f64 \<Rightarrow> u8) \<Rightarrow> Tag \<Rightarrow> Mesh3D action" where
  "deserializeMesh3D_field nan_cast tag =
     (if tag_field tag = 1 then
        expect tag kLengthDelimited (on_field mesh_timestamp_ns mesh_timestamp_ns_update readTimestampMessage)
      else if tag_field tag = 2 then
        expect tag kLengthDelimited (store readString (\<lambda>v out. out\<lparr>mesh_frame_id := v\<rparr>))
      else if tag_field tag = 3 then
        expect tag kLengthDelimited (store readString (\<lambda>v out. out\<lparr>mesh_id := v\<rparr>))
      else if tag_field tag = 4 then
        expect tag kLengthDelimited (on_field mesh_pose mesh_pose_update readPoseMessage)
      else if tag_field tag = 5 then
        expect tag kLengthDelimited (on_field mesh_scale mesh_scale_update readVector3Message)
      else if tag_field tag = 6 then
        expect tag kLengthDelimited (store readString (\<lambda>v out. out\<lparr>mesh_format := v\<rparr>))
      else if tag_field tag = 7 then expect tag kLengthDelimited (readBytesIntoMesh)
      else if tag_field tag = 8 then
        expect tag kLengthDelimited (store readString (\<lambda>v out. out\<lparr>mesh_url := v\<rparr>))
      else if tag_field tag = 9 then
        expect tag kLengthDelimited (on_field mesh_color mesh_color_update (readColorMessage nan_cast))
      else if tag_field tag = 10 then
        expect tag kVarint (store readVarint (\<lambda>v out. out\<lparr>mesh_override_color := (v \<noteq> 0)\<rparr>))
      else decline)"

definition deserializeMesh3D :: "(f64 \<Rightarrow> u8) \<Rightarrow> buffer \<Rightarrow> string + Mesh3D" where
  "deserializeMesh3D nan_cast = deserialize_fields ''Mesh3D'' (deserializeMesh3D_field nan_cast) default_Mesh3D"

interpretation mesh3d_fields: field_handler "deserializeMesh3D_field nan_cast" for nan_cast
  by (rule field_handlerI) (simp add: deserializeMesh3D_field_def readBytesIntoMesh_def
    readColorMessage_def readPoseMessage_def readTimestampMessage_def readVector3Message_def)

interpretation mesh3d: message_codec serializeMesh3D "parseFields (deserializeMesh3D_field nan_cast)"
  "\<lambda>_. True"
  "\<lambda>x. mesh_anchor x = OwnedCopy (mesh_data x)" for nan_cast
proof
  fix x y :: Mesh3D
  assume "mesh_anchor x = OwnedCopy (mesh_data x)"
    and "fits (serializeMesh3D x)"
  then show "parseFields (deserializeMesh3D_field nan_cast) (serializeMesh3D x) y = (True, x)"
    by (cases x, cases y) (simp add: serializeMesh3D_def mesh3d_fields.parse_simps field_actions
      deserializeMesh3D_field_def readBytesIntoMesh_def readColorMessage_def readPoseMessage_def
      readTimestampMessage_def readVector3Message_def color.nested pose.nested timestamp.nested
      vector3.nested fits_lengths)
qed

text \<open>The object with its bytes owned by a copy, as the decoder leaves it.\<close>

definition owned_Mesh3D :: "Mesh3D \<Rightarrow> Mesh3D" where
  "owned_Mesh3D x = x\<lparr>mesh_anchor := OwnedCopy (mesh_data x)\<rparr>"

interpretation mesh3d_wire: wire_format serializeMesh3D "deserializeMesh3D nan_cast" owned_Mesh3D
  "\<lambda>_. True" for nan_cast
  unfolding deserializeMesh3D_def
  by (rule wire_format_fields [OF mesh3d.message_codec_axioms])
    (simp_all add: default_Mesh3D_def owned_Mesh3D_def serializeMesh3D_def)

subsection \<open>Logs\<close>

datatype Level = kUnknownLevel | kDebug | kInfo | kWarning | kError | kFatal

fun levelValue :: "Level \<Rightarrow> u64" where
  "levelValue kUnknownLevel = 0"
| "levelValue kDebug = 1"
| "levelValue kInfo = 2"
| "levelValue kWarning = 3"
| "levelValue kError = 4"
| "levelValue kFatal = 5"

definition levelFromWire :: "u64 \<Rightarrow> Level" where
  "levelFromWire v =
     (if v = 1 then kDebug
      else if v = 2 then kInfo
      else if v = 3 then kWarning
      else if v = 4 then kError
      else if v = 5 then kFatal
      else kUnknownLevel)"

lemma levelFromWire_Value [simp]: "levelFromWire (levelValue l) = l"
  by (cases l) (simp_all add: levelFromWire_def)

record Log =
  log_timestamp_ns :: Timestamp
  log_level :: Level
  log_message :: bytes
  log_name :: bytes

definition default_Log :: Log where
  "default_Log = \<lparr>log_timestamp_ns = 0, log_level = kUnknownLevel, log_message = [],
     log_name = []\<rparr>"

definition serializeLog :: "Log \<Rightarrow> bytes" where
  "serializeLog log_msg =
     w_message 1 (writeTimestamp (log_timestamp_ns log_msg))
     @ w_varint 2 (levelValue (log_level log_msg))
     @ w_string 3 (log_message log_msg)
     @ w_string 4 (log_name log_msg)"

definition deserializeLog_field :: "Tag \<Rightarrow> Log action" where
  "deserializeLog_field tag =
     (if tag_field tag = 1 then
        expect tag kLengthDelimited (on_field log_timestamp_ns log_timestamp_ns_update readTimestampMessage)
      else if tag_field tag = 2 then
        expect tag kVarint (store readVarint (\<lambda>v out. out\<lparr>log_level := levelFromWire v\<rparr>))
      else if tag_field tag = 3 then
        expect tag kLengthDelimited (store readString (\<lambda>v out. out\<lparr>log_message := v\<rparr>))
      else if tag_field tag = 4 then
        expect tag kLengthDelimited (store readString (\<lambda>v out. out\<lparr>log_name := v\<rparr>))
      else decline)"

definition deserializeLog :: "buffer \<Rightarrow> string + Log" where
  "deserializeLog = deserialize_fields ''Log'' deserializeLog_field default_Log"

interpretation log_entry_fields: field_handler deserializeLog_field
  by (rule field_handlerI) (simp add: deserializeLog_field_def readTimestampMessage_def)

interpretation log_entry: message_codec serializeLog "parseFields deserializeLog_field"
  "\<lambda>_. True"
  "\<lambda>_. True"
proof
  fix x y :: Log
  assume "fits (serializeLog x)"
  then show "parseFields deserializeLog_field (serializeLog x) y = (True, x)"
    by (cases x, cases y) (simp add: serializeLog_def log_entry_fields.parse_simps field_actions
      deserializeLog_field_def readTimestampMessage_def timestamp.nested fits_lengths)
qed

interpretation log_entry_wire: wire_format serializeLog deserializeLog "\<lambda>x. x"
  "\<lambda>_. True"
  unfolding deserializeLog_def
  by (rule wire_format_fields [OF log_entry.message_codec_axioms])
    (simp_all add: default_Log_def)

subsection \<open>Robot descriptions\<close>

record RobotDescription =
  robot_timestamp_ns :: Timestamp
  robot_topic :: bytes
  robot_format :: bytes
  robot_text :: bytes

definition default_RobotDescription :: RobotDescription where
  "default_RobotDescription = \<lparr>robot_timestamp_ns = 0, robot_topic = [],
     robot_format = [], robot_text = []\<rparr>"

definition serializeRobotDescription :: "RobotDescription \<Rightarrow> bytes" where
  "serializeRobotDescription description =
     w_message 1 (writeTimestamp (robot_timestamp_ns description))
     @ w_string 2 (robot_topic description)
     @ w_string 3 (robot_format description)
     @ w_string 4 (robot_text description)"

definition deserializeRobotDescription_field :: "Tag \<Rightarrow> RobotDescription action" where
  "deserializeRobotDescription_field tag =
     (if tag_field tag = 1 then
        expect tag kLengthDelimited (on_field robot_timestamp_ns robot_timestamp_ns_update readTimestampMessage)
      else if tag_field tag = 2 then
        expect tag kLengthDelimited (store readString (\<lambda>v out. out\<lparr>robot_topic := v\<rparr>))
      else if tag_field tag = 3 then
        expect tag kLengthDelimited (store readString (\<lambda>v out. out\<lparr>robot_format := v\<rparr>))
      else if tag_field tag = 4 then
        expect tag kLengthDelimited (store readString (\<lambda>v out. out\<lparr>robot_text := v\<rparr>))
      else decline)"

definition deserializeRobotDescription :: "buffer \<Rightarrow> string + RobotDescription" where
  "deserializeRobotDescription = deserialize_fields ''RobotDescription'' deserializeRobotDescription_field default_RobotDescription"

interpretation robot_description_fields: field_handler deserializeRobotDescription_field
  by (rule field_handlerI) (simp add: deserializeRobotDescription_field_def
    readTimestampMessage_def)

interpretation robot_description: message_codec serializeRobotDescription "parseFields deserializeRobotDescription_field"
  "\<lambda>_. True"
  "\<lambda>_. True"
proof
  fix x y :: RobotDescription
  assume "fits (serializeRobotDescription x)"
  then show "parseFields deserializeRobotDescription_field (serializeRobotDescription x) y = (True, x)"
    by (cases x, cases y) (simp add: serializeRobotDescription_def
      robot_description_fields.parse_simps field_actions deserializeRobotDescription_field_def
      readTimestampMessage_def timestamp.nested fits_lengths)
qed

interpretation robot_description_wire: wire_format serializeRobotDescription deserializeRobotDescription "\<lambda>x. x"
  "\<lambda>_. True"
  unfolding deserializeRobotDescription_def
  by (rule wire_format_fields [OF robot_description.message_codec_axioms])
    (simp_all add: default_RobotDescription_def)

end
