(* ===== verification/BuiltinObject.thy ===== *)
theory BuiltinObject
  imports SceneEntities ImageAnnotations PlotMarkers Images PointClouds Frames Grids Assets
begin

section \<open>The type-erased object (\<open>builtin/builtin_object.hpp\<close>, \<open>builtin_object_codec.cpp\<close>)\<close>

text \<open>
  \<open>BuiltinObject\<close> is a tag with a value, or empty; here it is a datatype with one constructor per
  type. The dispatcher picks the codec by the tag. The tag that comes with the bytes is a plain
  16-bit number: a number that no enumerator has is rejected.
\<close>

subsection \<open>The type tags\<close>

datatype BuiltinObjectType =
  kNoneType
  | kImage
  | kPointCloud
  | kDepthImage
  | kImageAnnotations
  | kFrameTransforms
  | kOccupancyGrid
  | kCompressedPointCloud
  | kMesh3D
  | kVideoFrame
  | kSceneEntities
  | kRobotDescription
  | kCameraInfo
  | kOccupancyGridUpdate
  | kLog
  | kPosesInFrame
  | kVoxelGrid
  | kPlotMarkers
  | kGridMap

fun typeValue :: "BuiltinObjectType \<Rightarrow> 16 word" where
  "typeValue kNoneType = 0"
| "typeValue kImage = 1"
| "typeValue kPointCloud = 3"
| "typeValue kDepthImage = 4"
| "typeValue kImageAnnotations = 5"
| "typeValue kFrameTransforms = 6"
| "typeValue kOccupancyGrid = 7"
| "typeValue kCompressedPointCloud = 8"
| "typeValue kMesh3D = 9"
| "typeValue kVideoFrame = 10"
| "typeValue kSceneEntities = 11"
| "typeValue kRobotDescription = 13"
| "typeValue kCameraInfo = 14"
| "typeValue kOccupancyGridUpdate = 15"
| "typeValue kLog = 16"
| "typeValue kPosesInFrame = 17"
| "typeValue kVoxelGrid = 18"
| "typeValue kPlotMarkers = 19"
| "typeValue kGridMap = 20"

fun type_name :: "BuiltinObjectType \<Rightarrow> string" where
  "type_name kNoneType = ''kNone''"
| "type_name kImage = ''kImage''"
| "type_name kPointCloud = ''kPointCloud''"
| "type_name kDepthImage = ''kDepthImage''"
| "type_name kImageAnnotations = ''kImageAnnotations''"
| "type_name kFrameTransforms = ''kFrameTransforms''"
| "type_name kOccupancyGrid = ''kOccupancyGrid''"
| "type_name kCompressedPointCloud = ''kCompressedPointCloud''"
| "type_name kMesh3D = ''kMesh3D''"
| "type_name kVideoFrame = ''kVideoFrame''"
| "type_name kSceneEntities = ''kSceneEntities''"
| "type_name kRobotDescription = ''kRobotDescription''"
| "type_name kCameraInfo = ''kCameraInfo''"
| "type_name kOccupancyGridUpdate = ''kOccupancyGridUpdate''"
| "type_name kLog = ''kLog''"
| "type_name kPosesInFrame = ''kPosesInFrame''"
| "type_name kVoxelGrid = ''kVoxelGrid''"
| "type_name kPlotMarkers = ''kPlotMarkers''"
| "type_name kGridMap = ''kGridMap''"

definition parseBuiltinObjectType :: "string \<Rightarrow> BuiltinObjectType option" where
  "parseBuiltinObjectType s =
     (if s = ''kNone'' then Some kNoneType
      else if s = ''kImage'' then Some kImage
      else if s = ''kPointCloud'' then Some kPointCloud
      else if s = ''kDepthImage'' then Some kDepthImage
      else if s = ''kImageAnnotations'' then Some kImageAnnotations
      else if s = ''kFrameTransforms'' then Some kFrameTransforms
      else if s = ''kOccupancyGrid'' then Some kOccupancyGrid
      else if s = ''kCompressedPointCloud'' then Some kCompressedPointCloud
      else if s = ''kMesh3D'' then Some kMesh3D
      else if s = ''kVideoFrame'' then Some kVideoFrame
      else if s = ''kSceneEntities'' then Some kSceneEntities
      else if s = ''kRobotDescription'' then Some kRobotDescription
      else if s = ''kCameraInfo'' then Some kCameraInfo
      else if s = ''kOccupancyGridUpdate'' then Some kOccupancyGridUpdate
      else if s = ''kLog'' then Some kLog
      else if s = ''kPosesInFrame'' then Some kPosesInFrame
      else if s = ''kVoxelGrid'' then Some kVoxelGrid
      else if s = ''kPlotMarkers'' then Some kPlotMarkers
      else if s = ''kGridMap'' then Some kGridMap
      else None)"

text \<open>The enumerator of a number, if there is one: the cases of the switch over the tag.\<close>

definition type_of_value :: "16 word \<Rightarrow> BuiltinObjectType option" where
  "type_of_value v =
     (if v = 0 then Some kNoneType
      else if v = 1 then Some kImage
      else if v = 3 then Some kPointCloud
      else if v = 4 then Some kDepthImage
      else if v = 5 then Some kImageAnnotations
      else if v = 6 then Some kFrameTransforms
      else if v = 7 then Some kOccupancyGrid
      else if v = 8 then Some kCompressedPointCloud
      else if v = 9 then Some kMesh3D
      else if v = 10 then Some kVideoFrame
      else if v = 11 then Some kSceneEntities
      else if v = 13 then Some kRobotDescription
      else if v = 14 then Some kCameraInfo
      else if v = 15 then Some kOccupancyGridUpdate
      else if v = 16 then Some kLog
      else if v = 17 then Some kPosesInFrame
      else if v = 18 then Some kVoxelGrid
      else if v = 19 then Some kPlotMarkers
      else if v = 20 then Some kGridMap
      else None)"

lemma parse_type_name [simp]: "parseBuiltinObjectType (type_name t) = Some t"
  by (cases t) (simp_all add: parseBuiltinObjectType_def)

lemma parse_type_name_Some: "parseBuiltinObjectType s = Some t \<Longrightarrow> s = type_name t"
  by (simp only: parseBuiltinObjectType_def split: if_split_asm)
    (simp_all only: option.inject option.distinct simp_thms, (hypsubst, simp only: type_name.simps)+)

lemma type_of_value_value [simp]: "type_of_value (typeValue t) = Some t"
  by (cases t) (simp_all add: type_of_value_def)

lemma typeValue_inject [simp]: "typeValue a = typeValue b \<longleftrightarrow> a = b"
  by (metis option.inject type_of_value_value)

text \<open>Types are ordered by their numbers.\<close>

instantiation BuiltinObjectType :: linorder
begin

definition less_eq_BuiltinObjectType :: "BuiltinObjectType \<Rightarrow> BuiltinObjectType \<Rightarrow> bool" where
  "a \<le> b \<longleftrightarrow> typeValue a \<le> typeValue b"

definition less_BuiltinObjectType :: "BuiltinObjectType \<Rightarrow> BuiltinObjectType \<Rightarrow> bool" where
  "a < b \<longleftrightarrow> typeValue a < typeValue b"

instance
  by standard (auto simp: less_eq_BuiltinObjectType_def less_BuiltinObjectType_def less_le)

end

lemma type_of_value_Some: "type_of_value v = Some t \<Longrightarrow> v = typeValue t"
  by (auto simp: type_of_value_def split: if_splits)

subsection \<open>The object\<close>

datatype BuiltinObject =
  EmptyObject
  | ObjImage Image
  | ObjPointCloud PointCloud
  | ObjDepthImage DepthImage
  | ObjImageAnnotations ImageAnnotations
  | ObjFrameTransforms FrameTransforms
  | ObjOccupancyGrid OccupancyGrid
  | ObjCompressedPointCloud CompressedPointCloud
  | ObjMesh3D Mesh3D
  | ObjVideoFrame VideoFrame
  | ObjSceneEntities SceneEntities
  | ObjRobotDescription RobotDescription
  | ObjCameraInfo CameraInfo
  | ObjOccupancyGridUpdate OccupancyGridUpdate
  | ObjLog Log
  | ObjPosesInFrame PosesInFrame
  | ObjVoxelGrid VoxelGrid
  | ObjPlotMarkers PlotMarkers
  | ObjGridMap GridMap

fun typeOf :: "BuiltinObject \<Rightarrow> BuiltinObjectType" where
  "typeOf EmptyObject = kNoneType"
| "typeOf (ObjImage v) = kImage"
| "typeOf (ObjPointCloud v) = kPointCloud"
| "typeOf (ObjDepthImage v) = kDepthImage"
| "typeOf (ObjImageAnnotations v) = kImageAnnotations"
| "typeOf (ObjFrameTransforms v) = kFrameTransforms"
| "typeOf (ObjOccupancyGrid v) = kOccupancyGrid"
| "typeOf (ObjCompressedPointCloud v) = kCompressedPointCloud"
| "typeOf (ObjMesh3D v) = kMesh3D"
| "typeOf (ObjVideoFrame v) = kVideoFrame"
| "typeOf (ObjSceneEntities v) = kSceneEntities"
| "typeOf (ObjRobotDescription v) = kRobotDescription"
| "typeOf (ObjCameraInfo v) = kCameraInfo"
| "typeOf (ObjOccupancyGridUpdate v) = kOccupancyGridUpdate"
| "typeOf (ObjLog v) = kLog"
| "typeOf (ObjPosesInFrame v) = kPosesInFrame"
| "typeOf (ObjVoxelGrid v) = kVoxelGrid"
| "typeOf (ObjPlotMarkers v) = kPlotMarkers"
| "typeOf (ObjGridMap v) = kGridMap"

text \<open>\<open>get<T>()\<close> for every alternative.\<close>

fun get_Image :: "BuiltinObject \<Rightarrow> Image option" where
  "get_Image (ObjImage v) = Some v"
| "get_Image _ = None"

fun get_PointCloud :: "BuiltinObject \<Rightarrow> PointCloud option" where
  "get_PointCloud (ObjPointCloud v) = Some v"
| "get_PointCloud _ = None"

fun get_DepthImage :: "BuiltinObject \<Rightarrow> DepthImage option" where
  "get_DepthImage (ObjDepthImage v) = Some v"
| "get_DepthImage _ = None"

fun get_ImageAnnotations :: "BuiltinObject \<Rightarrow> ImageAnnotations option" where
  "get_ImageAnnotations (ObjImageAnnotations v) = Some v"
| "get_ImageAnnotations _ = None"

fun get_FrameTransforms :: "BuiltinObject \<Rightarrow> FrameTransforms option" where
  "get_FrameTransforms (ObjFrameTransforms v) = Some v"
| "get_FrameTransforms _ = None"

fun get_OccupancyGrid :: "BuiltinObject \<Rightarrow> OccupancyGrid option" where
  "get_OccupancyGrid (ObjOccupancyGrid v) = Some v"
| "get_OccupancyGrid _ = None"

fun get_CompressedPointCloud :: "BuiltinObject \<Rightarrow> CompressedPointCloud option" where
  "get_CompressedPointCloud (ObjCompressedPointCloud v) = Some v"
| "get_CompressedPointCloud _ = None"

fun get_Mesh3D :: "BuiltinObject \<Rightarrow> Mesh3D option" where
  "get_Mesh3D (ObjMesh3D v) = Some v"
| "get_Mesh3D _ = None"

fun get_VideoFrame :: "BuiltinObject \<Rightarrow> VideoFrame option" where
  "get_VideoFrame (ObjVideoFrame v) = Some v"
| "get_VideoFrame _ = None"

fun get_SceneEntities :: "BuiltinObject \<Rightarrow> SceneEntities option" where
  "get_SceneEntities (ObjSceneEntities v) = Some v"
| "get_SceneEntities _ = None"

fun get_RobotDescription :: "BuiltinObject \<Rightarrow> RobotDescription option" where
  "get_RobotDescription (ObjRobotDescription v) = Some v"
| "get_RobotDescription _ = None"

fun get_CameraInfo :: "BuiltinObject \<Rightarrow> CameraInfo option" where
  "get_CameraInfo (ObjCameraInfo v) = Some v"
| "get_CameraInfo _ = None"

fun get_OccupancyGridUpdate :: "BuiltinObject \<Rightarrow> OccupancyGridUpdate option" where
  "get_OccupancyGridUpdate (ObjOccupancyGridUpdate v) = Some v"
| "get_OccupancyGridUpdate _ = None"

fun get_Log :: "BuiltinObject \<Rightarrow> Log option" where
  "get_Log (ObjLog v) = Some v"
| "get_Log _ = None"

fun get_PosesInFrame :: "BuiltinObject \<Rightarrow> PosesInFrame option" where
  "get_PosesInFrame (ObjPosesInFrame v) = Some v"
| "get_PosesInFrame _ = None"

fun get_VoxelGrid :: "BuiltinObject \<Rightarrow> VoxelGrid option" where
  "get_VoxelGrid (ObjVoxelGrid v) = Some v"
| "get_VoxelGrid _ = None"

fun get_PlotMarkers :: "BuiltinObject \<Rightarrow> PlotMarkers option" where
  "get_PlotMarkers (ObjPlotMarkers v) = Some v"
| "get_PlotMarkers _ = None"

fun get_GridMap :: "BuiltinObject \<Rightarrow> GridMap option" where
  "get_GridMap (ObjGridMap v) = Some v"
| "get_GridMap _ = None"

subsection \<open>The dispatcher\<close>

definition serializeAs :: "(BuiltinObject \<Rightarrow> 'a option) \<Rightarrow> BuiltinObject \<Rightarrow> BuiltinObjectType \<Rightarrow>
    ('a \<Rightarrow> bytes) \<Rightarrow> string + bytes" where
  "serializeAs get obj type serialize = (case get obj of
     None \<Rightarrow> Inl (''builtin object/type mismatch for '' @ type_name type)
   | Some v \<Rightarrow> Inr (serialize v))"

definition eraseDecoded :: "('a \<Rightarrow> BuiltinObject) \<Rightarrow> string + 'a \<Rightarrow> string + BuiltinObject" where
  "eraseDecoded wrap decoded = (case decoded of Inl e \<Rightarrow> Inl e | Inr v \<Rightarrow> Inr (wrap v))"

definition deserializeAs :: "'a \<Rightarrow> ('a \<Rightarrow> BuiltinObject) \<Rightarrow> buffer \<Rightarrow> (buffer \<Rightarrow> string + 'a) \<Rightarrow>
    string + BuiltinObject" where
  "deserializeAs initial wrap data deserialize =
     (if buffer_size data = 0 then Inr (wrap initial) else eraseDecoded wrap (deserialize data))"

definition serializeBuiltinObject :: "BuiltinObject \<Rightarrow> string + bytes" where
  "serializeBuiltinObject obj = (let type = typeOf obj in case type of
     kNoneType \<Rightarrow> Inl ''cannot serialize builtin object with type kNone''
   | kImage \<Rightarrow> serializeAs get_Image obj type serializeImage
   | kPointCloud \<Rightarrow> serializeAs get_PointCloud obj type serializePointCloud
   | kDepthImage \<Rightarrow> serializeAs get_DepthImage obj type serializeDepthImage
   | kImageAnnotations \<Rightarrow> serializeAs get_ImageAnnotations obj type serializeImageAnnotations
   | kFrameTransforms \<Rightarrow> serializeAs get_FrameTransforms obj type serializeFrameTransforms
   | kOccupancyGrid \<Rightarrow> serializeAs get_OccupancyGrid obj type serializeOccupancyGrid
   | kCompressedPointCloud \<Rightarrow> serializeAs get_CompressedPointCloud obj type serializeCompressedPointCloud
   | kMesh3D \<Rightarrow> serializeAs get_Mesh3D obj type serializeMesh3D
   | kVideoFrame \<Rightarrow> serializeAs get_VideoFrame obj type serializeVideoFrame
   | kSceneEntities \<Rightarrow> serializeAs get_SceneEntities obj type serializeSceneEntities
   | kRobotDescription \<Rightarrow> serializeAs get_RobotDescription obj type serializeRobotDescription
   | kCameraInfo \<Rightarrow> serializeAs get_CameraInfo obj type serializeCameraInfo
   | kOccupancyGridUpdate \<Rightarrow> serializeAs get_OccupancyGridUpdate obj type serializeOccupancyGridUpdate
   | kLog \<Rightarrow> serializeAs get_Log obj type serializeLog
   | kPosesInFrame \<Rightarrow> serializeAs get_PosesInFrame obj type serializePosesInFrame
   | kVoxelGrid \<Rightarrow> serializeAs get_VoxelGrid obj type serializeVoxelGrid
   | kPlotMarkers \<Rightarrow> serializeAs get_PlotMarkers obj type serializePlotMarkers
   | kGridMap \<Rightarrow> serializeAs get_GridMap obj type serializeGridMap)"

text \<open>\<open>std::to_string\<close> of a number.\<close>

fun to_string :: "nat \<Rightarrow> string" where
  "to_string n = (if n < 10 then [char_of (48 + n)] else to_string (n div 10) @ [char_of (48 + n mod 10)])"

declare to_string.simps [simp del]

definition deserializeBuiltinObject :: "(f64 \<Rightarrow> u8) \<Rightarrow> 16 word \<Rightarrow> buffer \<Rightarrow> string + BuiltinObject" where
  "deserializeBuiltinObject nan_cast type data = (case type_of_value type of
     None \<Rightarrow> Inl (''cannot deserialize unknown builtin object type: '' @ to_string (unat type))
   | Some kNoneType \<Rightarrow> Inl ''cannot deserialize builtin object with type kNone''
   | Some kImage \<Rightarrow>
       deserializeAs default_Image ObjImage data deserializeImage
   | Some kPointCloud \<Rightarrow>
       deserializeAs default_PointCloud ObjPointCloud data deserializePointCloud
   | Some kDepthImage \<Rightarrow>
       deserializeAs default_DepthImage ObjDepthImage data deserializeDepthImage
   | Some kImageAnnotations \<Rightarrow>
       deserializeAs default_ImageAnnotations ObjImageAnnotations data (deserializeImageAnnotations nan_cast)
   | Some kFrameTransforms \<Rightarrow>
       deserializeAs default_FrameTransforms ObjFrameTransforms data deserializeFrameTransforms
   | Some kOccupancyGrid \<Rightarrow>
       deserializeAs default_OccupancyGrid ObjOccupancyGrid data deserializeOccupancyGrid
   | Some kCompressedPointCloud \<Rightarrow>
       deserializeAs default_CompressedPointCloud ObjCompressedPointCloud data deserializeCompressedPointCloud
   | Some kMesh3D \<Rightarrow>
       deserializeAs default_Mesh3D ObjMesh3D data (deserializeMesh3D nan_cast)
   | Some kVideoFrame \<Rightarrow>
       deserializeAs default_VideoFrame ObjVideoFrame data deserializeVideoFrame
   | Some kSceneEntities \<Rightarrow>
       deserializeAs default_SceneEntities ObjSceneEntities data (deserializeSceneEntities nan_cast)
   | Some kRobotDescription \<Rightarrow>
       deserializeAs default_RobotDescription ObjRobotDescription data deserializeRobotDescription
   | Some kCameraInfo \<Rightarrow>
       deserializeAs default_CameraInfo ObjCameraInfo data deserializeCameraInfo
   | Some kOccupancyGridUpdate \<Rightarrow>
       deserializeAs default_OccupancyGridUpdate ObjOccupancyGridUpdate data deserializeOccupancyGridUpdate
   | Some kLog \<Rightarrow>
       deserializeAs default_Log ObjLog data deserializeLog
   | Some kPosesInFrame \<Rightarrow>
       deserializeAs default_PosesInFrame ObjPosesInFrame data deserializePosesInFrame
   | Some kVoxelGrid \<Rightarrow>
       deserializeAs default_VoxelGrid ObjVoxelGrid data deserializeVoxelGrid
   | Some kPlotMarkers \<Rightarrow>
       deserializeAs default_PlotMarkers ObjPlotMarkers data (deserializePlotMarkers nan_cast)
   | Some kGridMap \<Rightarrow>
       deserializeAs default_GridMap ObjGridMap data deserializeGridMap)"

subsection \<open>Every codec as the dispatcher uses it\<close>

text \<open>
  A \<open>wire_format\<close> whose empty encoding is that of the default object: what lets the dispatcher
  read an empty buffer as the default.
\<close>

locale builtin_codec = wire_format serialize deserialize decoded ok
  for serialize :: "'a \<Rightarrow> bytes" and deserialize :: "buffer \<Rightarrow> string + 'a"
    and decoded :: "'a \<Rightarrow> 'a" and ok :: "'a \<Rightarrow> bool" +
  fixes initial :: 'a and wrap :: "'a \<Rightarrow> BuiltinObject"
  assumes empty_default: "serialize x = [] \<Longrightarrow> decoded x = initial"
begin

lemma deserializeAs_serialize:
  assumes "ok x" and "fits (serialize x)"
  shows "deserializeAs initial wrap (Buffer (serialize x)) deserialize = Inr (wrap (decoded x))"
  using assms roundtrip [of x] empty_default [of x]
  by (simp add: deserializeAs_def eraseDecoded_def)

end

lemma w_message_ne [simp]: "w_message f d \<noteq> []" "w_bytes f d \<noteq> []" "w_string f d \<noteq> []"
  by (simp_all add: w_message_def w_string_def w_bytes_def)

lemma concat_messages_Nil [simp]: "concat (map (\<lambda>x. w_message f (enc x)) xs) = [] \<longleftrightarrow> xs = []"
  by (cases xs) simp_all

interpretation image_builtin: builtin_codec serializeImage deserializeImage owned_Image
  "\<lambda>_. True" default_Image ObjImage
  by (rule builtin_codec.intro [OF image_wire.wire_format_axioms], unfold_locales) (simp add: serializeImage_def)

interpretation point_cloud_builtin: builtin_codec serializePointCloud deserializePointCloud "owned_PointCloud NoAnchor"
  "\<lambda>_. True" default_PointCloud ObjPointCloud
  by (rule builtin_codec.intro [OF point_cloud_wire.wire_format_axioms [of NoAnchor, folded deserializePointCloud_def]], unfold_locales) (simp add: serializePointCloud_def)

interpretation depth_image_builtin: builtin_codec serializeDepthImage deserializeDepthImage owned_DepthImage
  "\<lambda>v. length (depth_K v) = 9" default_DepthImage ObjDepthImage
  by (rule builtin_codec.intro [OF depth_image_wire.wire_format_axioms], unfold_locales) (simp add: serializeDepthImage_def)

interpretation image_annotations_builtin: builtin_codec serializeImageAnnotations "deserializeImageAnnotations nan_cast" "\<lambda>x. x"
  annotations_ok default_ImageAnnotations ObjImageAnnotations for nan_cast
proof (rule builtin_codec.intro [OF image_annotations_wire.wire_format_axioms], unfold_locales)
  fix x
  assume "serializeImageAnnotations x = []"
  then show "x = default_ImageAnnotations"
    by (cases x) (auto simp: serializeImageAnnotations_def default_ImageAnnotations_def split: if_splits)
qed

interpretation frame_transforms_builtin: builtin_codec serializeFrameTransforms deserializeFrameTransforms "\<lambda>x. x"
  "\<lambda>_. True" default_FrameTransforms ObjFrameTransforms
proof (rule builtin_codec.intro [OF frame_transforms_wire.wire_format_axioms], unfold_locales)
  fix x
  assume "serializeFrameTransforms x = []"
  then show "x = default_FrameTransforms"
    by (cases x) (auto simp: serializeFrameTransforms_def default_FrameTransforms_def split: if_splits)
qed

interpretation occupancy_grid_builtin: builtin_codec serializeOccupancyGrid deserializeOccupancyGrid owned_OccupancyGrid
  "\<lambda>_. True" default_OccupancyGrid ObjOccupancyGrid
  by (rule builtin_codec.intro [OF occupancy_grid_wire.wire_format_axioms], unfold_locales) (simp add: serializeOccupancyGrid_def)

interpretation compressed_cloud_builtin: builtin_codec serializeCompressedPointCloud deserializeCompressedPointCloud owned_CompressedPointCloud
  "\<lambda>_. True" default_CompressedPointCloud ObjCompressedPointCloud
  by (rule builtin_codec.intro [OF compressed_cloud_wire.wire_format_axioms], unfold_locales) (simp add: serializeCompressedPointCloud_def)

interpretation mesh3d_builtin: builtin_codec serializeMesh3D "deserializeMesh3D nan_cast" owned_Mesh3D
  "\<lambda>_. True" default_Mesh3D ObjMesh3D for nan_cast
  by (rule builtin_codec.intro [OF mesh3d_wire.wire_format_axioms], unfold_locales) (simp add: serializeMesh3D_def)

interpretation video_frame_builtin: builtin_codec serializeVideoFrame deserializeVideoFrame owned_VideoFrame
  "\<lambda>_. True" default_VideoFrame ObjVideoFrame
  by (rule builtin_codec.intro [OF video_frame_wire.wire_format_axioms], unfold_locales) (simp add: serializeVideoFrame_def)

interpretation scene_builtin: builtin_codec serializeSceneEntities "deserializeSceneEntities nan_cast" "\<lambda>x. x"
  "\<lambda>_. True" default_SceneEntities ObjSceneEntities for nan_cast
proof (rule builtin_codec.intro [OF scene_wire.wire_format_axioms], unfold_locales)
  fix x
  assume "serializeSceneEntities x = []"
  then show "x = default_SceneEntities"
    by (cases x) (auto simp: serializeSceneEntities_def default_SceneEntities_def split: if_splits)
qed

interpretation robot_description_builtin: builtin_codec serializeRobotDescription deserializeRobotDescription "\<lambda>x. x"
  "\<lambda>_. True" default_RobotDescription ObjRobotDescription
  by (rule builtin_codec.intro [OF robot_description_wire.wire_format_axioms], unfold_locales) (simp add: serializeRobotDescription_def)

interpretation camera_info_builtin: builtin_codec serializeCameraInfo deserializeCameraInfo "\<lambda>x. x"
  "\<lambda>v. length (cam_K v) = 9 \<and> length (cam_R v) = 9 \<and> length (cam_P v) = 12" default_CameraInfo ObjCameraInfo
  by (rule builtin_codec.intro [OF camera_info_wire.wire_format_axioms], unfold_locales) (simp add: serializeCameraInfo_def)

interpretation occupancy_grid_update_builtin: builtin_codec serializeOccupancyGridUpdate deserializeOccupancyGridUpdate owned_OccupancyGridUpdate
  "\<lambda>_. True" default_OccupancyGridUpdate ObjOccupancyGridUpdate
  by (rule builtin_codec.intro [OF occupancy_grid_update_wire.wire_format_axioms], unfold_locales) (simp add: serializeOccupancyGridUpdate_def)

interpretation log_entry_builtin: builtin_codec serializeLog deserializeLog "\<lambda>x. x"
  "\<lambda>_. True" default_Log ObjLog
  by (rule builtin_codec.intro [OF log_entry_wire.wire_format_axioms], unfold_locales) (simp add: serializeLog_def)

interpretation poses_in_frame_builtin: builtin_codec serializePosesInFrame deserializePosesInFrame "\<lambda>x. x"
  "\<lambda>_. True" default_PosesInFrame ObjPosesInFrame
  by (rule builtin_codec.intro [OF poses_in_frame_wire.wire_format_axioms], unfold_locales) (simp add: serializePosesInFrame_def)

interpretation voxel_grid_builtin: builtin_codec serializeVoxelGrid deserializeVoxelGrid owned_VoxelGrid
  "\<lambda>_. True" default_VoxelGrid ObjVoxelGrid
  by (rule builtin_codec.intro [OF voxel_grid_wire.wire_format_axioms], unfold_locales) (simp add: serializeVoxelGrid_def)

interpretation plot_markers_builtin: builtin_codec serializePlotMarkers "deserializePlotMarkers nan_cast" "\<lambda>x. x"
  "\<lambda>_. True" default_PlotMarkers ObjPlotMarkers for nan_cast
proof (rule builtin_codec.intro [OF plot_markers_wire.wire_format_axioms], unfold_locales)
  fix x
  assume "serializePlotMarkers x = []"
  then show "x = default_PlotMarkers"
    by (cases x) (auto simp: serializePlotMarkers_def default_PlotMarkers_def split: if_splits)
qed

interpretation grid_map_builtin: builtin_codec serializeGridMap deserializeGridMap owned_GridMap
  "\<lambda>v. validateLayout v (gm_data v \<noteq> []) = Inr ()" default_GridMap ObjGridMap
  by (rule builtin_codec.intro [OF grid_map_wire.wire_format_axioms], unfold_locales) (simp add: serializeGridMap_def)

text \<open>What an object needs to survive the round trip, and what comes back.\<close>

fun builtin_ok :: "BuiltinObject \<Rightarrow> bool" where
  "builtin_ok EmptyObject = False"
| "builtin_ok (ObjImage v) \<longleftrightarrow> True"
| "builtin_ok (ObjPointCloud v) \<longleftrightarrow> True"
| "builtin_ok (ObjDepthImage v) \<longleftrightarrow> length (depth_K v) = 9"
| "builtin_ok (ObjImageAnnotations v) \<longleftrightarrow> annotations_ok v"
| "builtin_ok (ObjFrameTransforms v) \<longleftrightarrow> True"
| "builtin_ok (ObjOccupancyGrid v) \<longleftrightarrow> True"
| "builtin_ok (ObjCompressedPointCloud v) \<longleftrightarrow> True"
| "builtin_ok (ObjMesh3D v) \<longleftrightarrow> True"
| "builtin_ok (ObjVideoFrame v) \<longleftrightarrow> True"
| "builtin_ok (ObjSceneEntities v) \<longleftrightarrow> True"
| "builtin_ok (ObjRobotDescription v) \<longleftrightarrow> True"
| "builtin_ok (ObjCameraInfo v) \<longleftrightarrow> length (cam_K v) = 9 \<and> length (cam_R v) = 9 \<and> length (cam_P v) = 12"
| "builtin_ok (ObjOccupancyGridUpdate v) \<longleftrightarrow> True"
| "builtin_ok (ObjLog v) \<longleftrightarrow> True"
| "builtin_ok (ObjPosesInFrame v) \<longleftrightarrow> True"
| "builtin_ok (ObjVoxelGrid v) \<longleftrightarrow> True"
| "builtin_ok (ObjPlotMarkers v) \<longleftrightarrow> True"
| "builtin_ok (ObjGridMap v) \<longleftrightarrow> validateLayout v (gm_data v \<noteq> []) = Inr ()"

fun decoded_object :: "BuiltinObject \<Rightarrow> BuiltinObject" where
  "decoded_object EmptyObject = EmptyObject"
| "decoded_object (ObjImage v) = ObjImage (owned_Image v)"
| "decoded_object (ObjPointCloud v) = ObjPointCloud (owned_PointCloud NoAnchor v)"
| "decoded_object (ObjDepthImage v) = ObjDepthImage (owned_DepthImage v)"
| "decoded_object (ObjImageAnnotations v) = ObjImageAnnotations v"
| "decoded_object (ObjFrameTransforms v) = ObjFrameTransforms v"
| "decoded_object (ObjOccupancyGrid v) = ObjOccupancyGrid (owned_OccupancyGrid v)"
| "decoded_object (ObjCompressedPointCloud v) = ObjCompressedPointCloud (owned_CompressedPointCloud v)"
| "decoded_object (ObjMesh3D v) = ObjMesh3D (owned_Mesh3D v)"
| "decoded_object (ObjVideoFrame v) = ObjVideoFrame (owned_VideoFrame v)"
| "decoded_object (ObjSceneEntities v) = ObjSceneEntities v"
| "decoded_object (ObjRobotDescription v) = ObjRobotDescription v"
| "decoded_object (ObjCameraInfo v) = ObjCameraInfo v"
| "decoded_object (ObjOccupancyGridUpdate v) = ObjOccupancyGridUpdate (owned_OccupancyGridUpdate v)"
| "decoded_object (ObjLog v) = ObjLog v"
| "decoded_object (ObjPosesInFrame v) = ObjPosesInFrame v"
| "decoded_object (ObjVoxelGrid v) = ObjVoxelGrid (owned_VoxelGrid v)"
| "decoded_object (ObjPlotMarkers v) = ObjPlotMarkers v"
| "decoded_object (ObjGridMap v) = ObjGridMap (owned_GridMap v)"

lemmas deserialize_serialized =
  image_builtin.deserializeAs_serialize
  point_cloud_builtin.deserializeAs_serialize
  depth_image_builtin.deserializeAs_serialize
  image_annotations_builtin.deserializeAs_serialize
  frame_transforms_builtin.deserializeAs_serialize
  occupancy_grid_builtin.deserializeAs_serialize
  compressed_cloud_builtin.deserializeAs_serialize
  mesh3d_builtin.deserializeAs_serialize
  video_frame_builtin.deserializeAs_serialize
  scene_builtin.deserializeAs_serialize
  robot_description_builtin.deserializeAs_serialize
  camera_info_builtin.deserializeAs_serialize
  occupancy_grid_update_builtin.deserializeAs_serialize
  log_entry_builtin.deserializeAs_serialize
  poses_in_frame_builtin.deserializeAs_serialize
  voxel_grid_builtin.deserializeAs_serialize
  plot_markers_builtin.deserializeAs_serialize
  grid_map_builtin.deserializeAs_serialize

lemma deserialize_serializeBuiltinObject:
  assumes "builtin_ok obj" and "serializeBuiltinObject obj = Inr bs" and "fits bs"
  shows "deserializeBuiltinObject nan_cast (typeValue (typeOf obj)) (Buffer bs) = Inr (decoded_object obj)"
  using assms
  by (cases obj) (auto simp: serializeBuiltinObject_def serializeAs_def deserializeBuiltinObject_def
    deserialize_serialized simp del: typeValue.simps)

lemmas null_rejections =
  image_wire.null_rejected
  point_cloud_builtin.null_rejected
  depth_image_wire.null_rejected
  image_annotations_wire.null_rejected
  frame_transforms_wire.null_rejected
  occupancy_grid_wire.null_rejected
  compressed_cloud_wire.null_rejected
  mesh3d_wire.null_rejected
  video_frame_wire.null_rejected
  scene_wire.null_rejected
  robot_description_wire.null_rejected
  camera_info_wire.null_rejected
  occupancy_grid_update_wire.null_rejected
  log_entry_wire.null_rejected
  poses_in_frame_wire.null_rejected
  voxel_grid_wire.null_rejected
  plot_markers_wire.null_rejected
  grid_map_wire.null_rejected

lemma eraseDecoded_Inr: "eraseDecoded wrap d = Inr obj \<Longrightarrow> \<exists>v. obj = wrap v"
  by (cases d) (auto simp: eraseDecoded_def)

lemma deserializeAs_Inr: "deserializeAs initial wrap data f = Inr obj \<Longrightarrow> \<exists>v. obj = wrap v"
  by (auto simp: deserializeAs_def dest: eraseDecoded_Inr split: if_splits)

lemma deserializeBuiltinObject_tag:
  assumes "deserializeBuiltinObject nan_cast v data = Inr obj"
  shows "obj \<noteq> EmptyObject \<and> typeValue (typeOf obj) = v"
proof -
  obtain t where t: "type_of_value v = Some t"
    using assms by (cases "type_of_value v") (auto simp: deserializeBuiltinObject_def)
  have "obj \<noteq> EmptyObject \<and> typeOf obj = t"
    using assms t by (cases t) (auto simp: deserializeBuiltinObject_def dest: deserializeAs_Inr)
  then show ?thesis using type_of_value_Some [OF t] by simp
qed

lemma deserializeAs_null: "n \<noteq> 0 \<Longrightarrow> \<exists>e. f (NullBuffer n) = Inl e \<Longrightarrow> \<exists>e. deserializeAs initial wrap (NullBuffer n) f = Inl e"
  by (auto simp: deserializeAs_def eraseDecoded_def)

lemma deserializeBuiltinObject_null:
  assumes "n \<noteq> 0"
  shows "\<exists>e. deserializeBuiltinObject nan_cast v (NullBuffer n) = Inl e"
proof (cases "type_of_value v")
  case (Some t)
  then show ?thesis
    by (cases t) (simp_all add: deserializeBuiltinObject_def deserializeAs_null assms null_rejections)
qed (simp add: deserializeBuiltinObject_def)

end
