(* ===== verification/Leb128.thy ===== *)
theory Leb128
  imports Wire
begin

section \<open>What the varint reader accepts\<close>

text \<open>
  A specification of base-128 varints that does not mention the loop of \<open>readVarint\<close>: the bytes of
  an encoding, and its value as a natural number. The reader accepts exactly the encodings of at
  most ten bytes whose value fits in 64 bits.
\<close>

fun leb_value :: "bytes \<Rightarrow> nat" where
  "leb_value [] = 0"
| "leb_value (b # bs) = unat (b AND 0x7F) + 128 * leb_value bs"

fun leb128 :: "bytes \<Rightarrow> bool" where
  "leb128 [] = False"
| "leb128 (b # bs) = (if bit b 7 then leb128 bs else bs = [])"

lemma payload_less: "unat ((b :: u8) AND 0x7F) < 128"
  unfolding and_7F by (simp add: unsigned_take_bit_eq) (rule take_bit_nat_less_exp [of 7, simplified])

lemma unat_payload: "unat (ucast ((b :: u8) AND 0x7F) :: u64) = unat (b AND 0x7F)"
  using payload_less [of b] by (simp add: unsigned_ucast_eq take_bit_nat_eq_self)

lemma unat_or_push:
  fixes acc p :: u64
  assumes acc: "unat acc < 2 ^ n" and fit: "2 ^ n * unat p + unat acc < 2 ^ 64"
  shows "unat (acc OR push_bit n p) = unat acc + 2 ^ n * unat p"
proof -
  have acc_bits: "\<not> bit acc k" if "n \<le> k" for k
  proof -
    have "take_bit n (unat acc) = unat acc" using acc by (simp add: take_bit_nat_eq_self)
    then have "\<not> bit (unat acc) k" using that by (metis bit_take_bit_iff leD)
    then show ?thesis by (simp add: bit_unsigned_iff)
  qed
  have "acc OR push_bit n p = acc + push_bit n p"
    using acc_bits by (intro disjunctive_add [symmetric]) (auto simp: bit_simps)
  moreover have "unat (push_bit n p) = 2 ^ n * unat p"
    using fit by (subst unsigned_push_bit_eq) (simp add: push_bit_eq_mult take_bit_nat_eq_self mult.commute)
  ultimately show ?thesis
    using fit by (simp add: unat_word_ariths)
qed

lemma readVarint_loop_iff:
  assumes "i \<le> 10" and "unat acc < 2 ^ (7 * i)"
  shows "readVarint_loop i (7 * i) acc r = (Some v, r') \<longleftrightarrow>
    (\<exists>bs. r = bs @ r' \<and> leb128 bs \<and> i + length bs \<le> 10 \<and> unat v = unat acc + 2 ^ (7 * i) * leb_value bs)"
  using assms
proof (induction r arbitrary: i acc)
  case Nil
  then show ?case by auto
next
  case (Cons b r)
  let ?p = "ucast (b AND 0x7F) :: u64"
  let ?acc = "acc OR push_bit (7 * i) ?p"
  have p: "unat ?p = unat (b AND 0x7F)" "unat ?p < 128"
    using payload_less [of b] by (simp_all add: unat_payload)
  have split: "(\<exists>bs. b # r = bs @ r' \<and> leb128 bs \<and> i + length bs \<le> 10 \<and> unat v = unat acc + 2 ^ (7 * i) * leb_value bs)
    \<longleftrightarrow> (\<exists>bs. r = bs @ r' \<and> (if bit b 7 then leb128 bs else bs = []) \<and> i + Suc (length bs) \<le> 10 \<and>
          unat v = unat acc + 2 ^ (7 * i) * (unat (b AND 0x7F) + 128 * leb_value bs))" (is "?L \<longleftrightarrow> ?R")
  proof
    assume ?L
    then obtain bs where bs: "b # r = bs @ r'" "leb128 bs" "i + length bs \<le> 10"
      "unat v = unat acc + 2 ^ (7 * i) * leb_value bs" by blast
    then show ?R by (cases bs) auto
  next
    assume ?R
    then obtain bs where "r = bs @ r'" "if bit b 7 then leb128 bs else bs = []" "i + Suc (length bs) \<le> 10"
      "unat v = unat acc + 2 ^ (7 * i) * (unat (b AND 0x7F) + 128 * leb_value bs)" by blast
    then show ?L by (intro exI [of _ "b # bs"]) simp
  qed
  consider "i = 10" | "i = 9" "1 < unat ?p" | "i < 9 \<or> i = 9 \<and> unat ?p \<le> 1"
    using Cons.prems(1) by linarith
  then show ?case
  proof cases
    case 1
    then show ?thesis unfolding split by simp
  next
    case 2
    have "unat v < 2 ^ 64" using unsigned_less [of v, where 'a = nat] by simp
    moreover have "2 ^ 64 \<le> unat acc + 2 ^ 63 * (unat (b AND 0x7F) + 128 * l)" for l
      using 2 p by simp
    ultimately have "unat v \<noteq> unat acc + 2 ^ 63 * (unat (b AND 0x7F) + 128 * l)" for l
      by (metis leD)
    then show ?thesis
      using 2 unfolding split by (simp add: word_less_nat_alt)
  next
    case 3
    have "2 ^ (7 * i) * (unat ?p + 1) \<le> (2 :: nat) ^ 64"
      using 3
    proof
      assume "i < 9"
      then have "(2 :: nat) ^ (7 * i) * (unat ?p + 1) \<le> 2 ^ 56 * 128"
        using p(2) by (intro mult_mono power_increasing) simp_all
      then show ?thesis by simp
    qed simp
    then have fit: "2 ^ (7 * i) * unat ?p + unat acc < 2 ^ 64"
      using Cons.prems(2) by simp
    have acc: "unat ?acc = unat acc + 2 ^ (7 * i) * unat (b AND 0x7F)"
      using unat_or_push [OF Cons.prems(2) fit] p(1) by simp
    have "unat acc + 2 ^ (7 * i) * unat (b AND 0x7F) < 2 ^ (7 * i) * (1 + unat (b AND 0x7F))"
      using Cons.prems(2) by simp
    also have "\<dots> \<le> 2 ^ (7 * i) * 128"
      using p by (intro mult_left_mono) simp_all
    finally have acc_less: "unat ?acc < 2 ^ (7 * Suc i)"
      using acc by (simp add: power_add mult.commute)
    have IH: "readVarint_loop (Suc i) (7 * Suc i) ?acc r = (Some v, r') \<longleftrightarrow>
      (\<exists>bs. r = bs @ r' \<and> leb128 bs \<and> Suc i + length bs \<le> 10 \<and> unat v = unat ?acc + 2 ^ (7 * Suc i) * leb_value bs)"
      by (rule Cons.IH) (use 3 acc_less in auto)
    have "readVarint_loop i (7 * i) acc (b # r) =
      (if bit b 7 then readVarint_loop (Suc i) (7 * Suc i) ?acc r else (Some ?acc, r))"
      using 3 by (auto simp: and_80 Let_def word_less_nat_alt add.commute)
    moreover have "v = ?acc \<longleftrightarrow> unat v = unat acc + 2 ^ (7 * i) * unat (b AND 0x7F)"
      using acc by (metis word_unat_eq_iff)
    ultimately show ?thesis
      unfolding split using 3 IH acc by (cases "bit b 7") (auto simp: algebra_simps power_add)
  qed
qed

lemma readVarint_iff:
  "readVarint r = (Some v, r') \<longleftrightarrow>
    (\<exists>bs. r = bs @ r' \<and> leb128 bs \<and> length bs \<le> 10 \<and> leb_value bs = unat v)"
  using readVarint_loop_iff [of 0 0 r v r'] by (auto simp: readVarint_def)

text \<open>A length-delimited payload: an encoding of its length, then exactly that many bytes.\<close>

lemma readBytes_iff:
  assumes "fits r"
  shows "readBytes r = (Some d, r') \<longleftrightarrow>
    (\<exists>bs. r = bs @ d @ r' \<and> leb128 bs \<and> length bs \<le> 10 \<and> leb_value bs = length d)"
proof
  assume "readBytes r = (Some d, r')"
  then obtain len q where len: "readVarint r = (Some len, q)" "unat len \<le> length q"
    "d = take (unat len) q" "r' = drop (unat len) q"
    by (auto simp: readBytes_def split: prod.splits option.splits if_splits)
  then show "\<exists>bs. r = bs @ d @ r' \<and> leb128 bs \<and> length bs \<le> 10 \<and> leb_value bs = length d"
    using readVarint_iff [of r len q] by auto
next
  assume "\<exists>bs. r = bs @ d @ r' \<and> leb128 bs \<and> length bs \<le> 10 \<and> leb_value bs = length d"
  then obtain bs where bs: "r = bs @ d @ r'" "leb128 bs" "length bs \<le> 10" "leb_value bs = length d"
    by blast
  have "fits d" by (rule fits_mono [OF assms]) (simp add: bs(1))
  then have n: "unat (of_nat (length d) :: u64) = length d" by simp
  then have "readVarint r = (Some (of_nat (length d)), d @ r')"
    using bs by (simp add: readVarint_iff)
  then show "readBytes r = (Some d, r')"
    by (simp add: readBytes_def n)
qed

end
