(* ===== verification/CdrReader.thy ===== *)
theory CdrReader
  imports Prelude
begin

section \<open>The CDR reader of parser modules (\<open>parser_module/cdr_reader.hpp\<close>, \<open>core.hpp\<close>)\<close>

text \<open>
  A bounds-checked reader of plain XCDR1 payloads. The reader is a record that every operation
  returns updated; a result is \<open>Inl\<close> the status of a failure or \<open>Inr\<close> the value, and a failure is
  also kept in the reader. Sizes and positions of the 64-bit host are natural numbers; the compiled
  traversal of \<open>CdrLocator\<close> keeps its cache in the same record.
\<close>

subsection \<open>Status\<close>

datatype Status = StOk | StDecline string | StError string

text \<open>A message is cut at the capacity of its buffer.\<close>

definition status_error :: "string \<Rightarrow> Status" where
  "status_error message = StError (take 511 message)"

definition status_decline :: "string \<Rightarrow> Status" where
  "status_decline message = StDecline (take 511 message)"

definition isOk :: "Status \<Rightarrow> bool" where
  "isOk s \<longleftrightarrow> s = StOk"

lemma status_error_not_ok [simp]: "status_error m \<noteq> StOk" "\<not> isOk (status_error m)" "isOk StOk"
  by (simp_all add: status_error_def isOk_def)

lemma status_code_simps [code_unfold]: "isOk StOk = True" "isOk (StError m) = False" "isOk (StDecline m) = False"
  by (simp_all add: isOk_def)

subsection \<open>The reader\<close>

datatype CachedKind =
  kUnknown | kCBool | kCI8 | kCU8 | kCI16 | kCU16 | kCI32 | kCU32 | kCI64 | kCU64 | kCF32 | kCF64 | kCString | kCBytes

record CachedField =
  cf_kind :: CachedKind
  cf_offset :: nat
  cf_size :: nat
  cf_located :: bool

record CdrReader =
  cr_payload :: buffer
  cr_status :: Status
  cr_little_endian :: bool
  cr_data_origin :: nat
  cr_position :: nat
  cr_depth :: nat
  cr_cached_fields :: "CachedField list"
  cr_traversal_count :: nat

definition kMaxTraversalDepth :: nat where
  "kMaxTraversalDepth = 64"

definition payload_at :: "CdrReader \<Rightarrow> nat \<Rightarrow> u8" where
  "payload_at r i = buffer_bytes (cr_payload r) ! i"

definition cdr_initialize :: "CdrReader \<Rightarrow> CdrReader" where
  "cdr_initialize r =
     (case cr_payload r of
        NullBuffer n \<Rightarrow> r\<lparr>cr_status := status_error ''truncated CDR encapsulation header''\<rparr>
      | Buffer bs \<Rightarrow>
          if length bs < 4 then r\<lparr>cr_status := status_error ''truncated CDR encapsulation header''\<rparr>
          else
            let representation = (push_bit 8 (ucast (bs ! 0)) OR ucast (bs ! 1) :: u16) in
            if representation \<noteq> 0 \<and> representation \<noteq> 1 then
              r\<lparr>cr_status := status_error ''unsupported CDR representation; XCDR1 plain CDR is required''\<rparr>
            else r\<lparr>cr_little_endian := (representation = 1), cr_data_origin := 4, cr_position := 4\<rparr>)"

definition blank_reader :: "buffer \<Rightarrow> CdrReader" where
  "blank_reader payload = \<lparr>cr_payload = payload, cr_status = StOk, cr_little_endian = False, cr_data_origin = 0,
     cr_position = 0, cr_depth = 0, cr_cached_fields = [], cr_traversal_count = 0\<rparr>"

definition cdr_reader :: "buffer \<Rightarrow> CdrReader" where
  "cdr_reader payload = cdr_initialize (blank_reader payload)"

definition remaining :: "CdrReader \<Rightarrow> nat" where
  "remaining r = (if cr_position r \<le> buffer_size (cr_payload r) then buffer_size (cr_payload r) - cr_position r else 0)"

text \<open>\<open>fail\<close> stores the status and returns it.\<close>

definition cdr_fail :: "string \<Rightarrow> CdrReader \<Rightarrow> (Status + 'a) \<times> CdrReader" where
  "cdr_fail message r = (Inl (status_error message), r\<lparr>cr_status := status_error message\<rparr>)"

text \<open>An operation after another one that may fail.\<close>

definition cdr_bind :: "(Status + 'a) \<times> CdrReader \<Rightarrow> ('a \<Rightarrow> CdrReader \<Rightarrow> (Status + 'b) \<times> CdrReader) \<Rightarrow> (Status + 'b) \<times> CdrReader" where
  "cdr_bind x f = (case x of (Inl e, r) \<Rightarrow> (Inl e, r) | (Inr a, r) \<Rightarrow> f a r)"

text \<open>The test that the alignment is a power of two works on its bits, as does the padding.\<close>

definition align :: "nat \<Rightarrow> CdrReader \<Rightarrow> (Status + unit) \<times> CdrReader" where
  "align alignment r =
     (if \<not> isOk (cr_status r) then (Inl (cr_status r), r)
      else if alignment = 0 \<or> (alignment AND (alignment - 1)) \<noteq> 0 then
        cdr_fail ''CDR alignment must be a nonzero power of two'' r
      else
        let relative = cr_position r - cr_data_origin r;
            padding = (alignment - (relative AND (alignment - 1))) AND (alignment - 1) in
        if padding > remaining r then cdr_fail ''truncated CDR alignment padding'' r
        else (Inr (), r\<lparr>cr_position := cr_position r + padding\<rparr>))"

subsection \<open>Primitives\<close>

text \<open>The two loops over the bytes of an unsigned integer.\<close>

fun le_loop :: "bytes \<Rightarrow> nat \<Rightarrow> u64 \<Rightarrow> u64" where
  "le_loop [] index v = v"
| "le_loop (b # bs) index v = le_loop bs (index + 1) (v OR push_bit (index * 8) (ucast b))"

fun be_loop :: "bytes \<Rightarrow> u64 \<Rightarrow> u64" where
  "be_loop [] v = v"
| "be_loop (b # bs) v = be_loop bs (push_bit 8 v OR ucast b)"

definition bytes_value :: "bool \<Rightarrow> bytes \<Rightarrow> u64" where
  "bytes_value little bs = (if little then le_loop bs 0 0 else be_loop bs 0)"

definition payload_slice :: "CdrReader \<Rightarrow> nat \<Rightarrow> nat \<Rightarrow> bytes" where
  "payload_slice r offset n = take n (drop offset (buffer_bytes (cr_payload r)))"

text \<open>\<open>readUnsigned<UInt>\<close> for the width of the type; the callers narrow the value to it.\<close>

definition readUnsigned :: "nat \<Rightarrow> CdrReader \<Rightarrow> (Status + u64) \<times> CdrReader" where
  "readUnsigned width r =
     cdr_bind (align width r) (\<lambda>_ r.
       if width > remaining r then cdr_fail ''truncated CDR primitive'' r
       else (Inr (bytes_value (cr_little_endian r) (payload_slice r (cr_position r) width)),
             r\<lparr>cr_position := cr_position r + width\<rparr>))"

definition readU8 :: "CdrReader \<Rightarrow> (Status + u8) \<times> CdrReader" where
  "readU8 r = cdr_bind (readUnsigned 1 r) (\<lambda>v r. (Inr (ucast v), r))"

definition readU16 :: "CdrReader \<Rightarrow> (Status + u16) \<times> CdrReader" where
  "readU16 r = cdr_bind (readUnsigned 2 r) (\<lambda>v r. (Inr (ucast v), r))"

definition readU32 :: "CdrReader \<Rightarrow> (Status + u32) \<times> CdrReader" where
  "readU32 r = cdr_bind (readUnsigned 4 r) (\<lambda>v r. (Inr (ucast v), r))"

definition readU64 :: "CdrReader \<Rightarrow> (Status + u64) \<times> CdrReader" where
  "readU64 r = readUnsigned 8 r"

text \<open>
  The signed and floating readers copy the bits (\<open>memcpy\<close>): a signed integer is the same word read
  with \<open>sint\<close>, a float its bit pattern.
\<close>

definition readI8 :: "CdrReader \<Rightarrow> (Status + u8) \<times> CdrReader" where "readI8 r = readU8 r"
definition readI16 :: "CdrReader \<Rightarrow> (Status + u16) \<times> CdrReader" where "readI16 r = readU16 r"
definition readI32 :: "CdrReader \<Rightarrow> (Status + u32) \<times> CdrReader" where "readI32 r = readU32 r"
definition readI64 :: "CdrReader \<Rightarrow> (Status + u64) \<times> CdrReader" where "readI64 r = readU64 r"
definition readF32 :: "CdrReader \<Rightarrow> (Status + f32) \<times> CdrReader" where "readF32 r = readU32 r"
definition readF64 :: "CdrReader \<Rightarrow> (Status + f64) \<times> CdrReader" where "readF64 r = readU64 r"

definition readBool :: "CdrReader \<Rightarrow> (Status + bool) \<times> CdrReader" where
  "readBool r = cdr_bind (readU8 r) (\<lambda>v r.
     if v > 1 then cdr_fail ''CDR bool is not 0 or 1'' r else (Inr (v \<noteq> 0), r))"

subsection \<open>Strings, sequences and structs\<close>

definition readCdrString :: "CdrReader \<Rightarrow> (Status + bytes) \<times> CdrReader" where
  "readCdrString r = cdr_bind (readU32 r) (\<lambda>len r.
     if len = 0 then cdr_fail ''CDR string length does not include a terminator'' r
     else if unat len > remaining r then cdr_fail ''CDR string length exceeds the remaining payload'' r
     else if payload_at r (cr_position r + (unat len - 1)) \<noteq> 0 then cdr_fail ''CDR string is not NUL terminated'' r
     else (Inr (payload_slice r (cr_position r) (unat len - 1)), r\<lparr>cr_position := cr_position r + unat len\<rparr>))"

definition readSequenceLength :: "nat \<Rightarrow> CdrReader \<Rightarrow> (Status + u32) \<times> CdrReader" where
  "readSequenceLength minimum_element_size r = cdr_bind (readU32 r) (\<lambda>count r.
     if minimum_element_size = 0 then cdr_fail ''CDR sequence element size must be nonzero'' r
     else if unat count > remaining r div minimum_element_size then
       cdr_fail ''CDR sequence length exceeds the remaining payload'' r
     else (Inr count, r))"

definition readByteSequence :: "CdrReader \<Rightarrow> (Status + bytes) \<times> CdrReader" where
  "readByteSequence r = cdr_bind (readSequenceLength 1 r) (\<lambda>count r.
     (Inr (payload_slice r (cr_position r) (unat count)), r\<lparr>cr_position := cr_position r + unat count\<rparr>))"

text \<open>\<open>readFixedArray\<close> for a primitive reader.\<close>

fun readFixedArray :: "(CdrReader \<Rightarrow> (Status + 'a) \<times> CdrReader) \<Rightarrow> nat \<Rightarrow> CdrReader \<Rightarrow> (Status + 'a list) \<times> CdrReader" where
  "readFixedArray rd 0 r = (Inr [], r)"
| "readFixedArray rd (Suc n) r = cdr_bind (rd r) (\<lambda>x r. cdr_bind (readFixedArray rd n r) (\<lambda>xs r. (Inr (x # xs), r)))"

definition enterStruct :: "CdrReader \<Rightarrow> (Status + unit) \<times> CdrReader" where
  "enterStruct r =
     (if cr_depth r = kMaxTraversalDepth then cdr_fail ''CDR traversal depth exceeds 64'' r
      else (Inr (), r\<lparr>cr_depth := cr_depth r + 1\<rparr>))"

definition leaveStruct :: "CdrReader \<Rightarrow> (Status + unit) \<times> CdrReader" where
  "leaveStruct r =
     (if cr_depth r = 0 then cdr_fail ''CDR struct-depth underflow'' r
      else (Inr (), r\<lparr>cr_depth := cr_depth r - 1\<rparr>))"

subsection \<open>The reader stays inside the payload\<close>

text \<open>The position is within the payload, which is there; so it is as long as the reader has not failed.\<close>

definition inside :: "CdrReader \<Rightarrow> bool" where
  "inside r \<longleftrightarrow> cr_data_origin r \<le> cr_position r \<and> cr_position r \<le> buffer_size (cr_payload r)
     \<and> (\<exists>bs. cr_payload r = Buffer bs)"

definition reader_ok :: "CdrReader \<Rightarrow> bool" where
  "reader_ok r \<longleftrightarrow> (isOk (cr_status r) \<longrightarrow> inside r)"

text \<open>
  What every operation does to the reader: the payload and its header stay, the position only grows
  and stays inside, a failed reader stays failed.
\<close>

definition reader_step :: "CdrReader \<Rightarrow> CdrReader \<Rightarrow> bool" where
  "reader_step r r' \<longleftrightarrow> cr_payload r' = cr_payload r \<and> cr_little_endian r' = cr_little_endian r
     \<and> cr_data_origin r' = cr_data_origin r \<and> cr_position r \<le> cr_position r'
     \<and> cr_cached_fields r' = cr_cached_fields r \<and> cr_traversal_count r' = cr_traversal_count r
     \<and> (isOk (cr_status r') \<longrightarrow> isOk (cr_status r)) \<and> (inside r \<longrightarrow> inside r')"

lemma reader_step_ok: "reader_step r r' \<Longrightarrow> reader_ok r \<Longrightarrow> reader_ok r'"
  by (auto simp: reader_step_def reader_ok_def)

lemma reader_step_refl [simp]: "reader_step r r"
  by (simp add: reader_step_def)

lemma reader_step_trans: "reader_step r s \<Longrightarrow> reader_step s t \<Longrightarrow> reader_step r t"
  by (auto simp: reader_step_def)

lemma reader_step_fail [simp]: "reader_step r (snd (cdr_fail m r))"
  by (simp add: reader_step_def cdr_fail_def inside_def)

lemma reader_step_bind:
  assumes "reader_step r (snd x)" "\<And>a s. x = (Inr a, s) \<Longrightarrow> reader_step s (snd (f a s))"
  shows "reader_step r (snd (cdr_bind x f))"
  using assms by (cases x; cases "fst x") (auto simp: cdr_bind_def intro: reader_step_trans)

lemma reader_step_advance:
  "n \<le> remaining r \<Longrightarrow> reader_step r (r\<lparr>cr_position := cr_position r + n\<rparr>)"
  by (auto simp: reader_step_def inside_def remaining_def split: if_splits)

lemma align_step: "reader_step r (snd (align a r))"
  by (auto simp: align_def Let_def not_less intro: reader_step_advance)

lemma readUnsigned_step: "reader_step r (snd (readUnsigned w r))"
  unfolding readUnsigned_def by (intro reader_step_bind align_step) (auto intro: reader_step_advance)

lemmas width_reader_defs = readU8_def readU16_def readU32_def readU64_def readI8_def readI16_def readI32_def
  readI64_def readF32_def readF64_def

lemma width_reader_step:
  "reader_step r (snd (readU8 r))" "reader_step r (snd (readU16 r))" "reader_step r (snd (readU32 r))"
  "reader_step r (snd (readU64 r))"
  by (auto simp: width_reader_defs intro!: reader_step_bind readUnsigned_step)

lemma readBool_step: "reader_step r (snd (readBool r))"
  unfolding readBool_def by (intro reader_step_bind width_reader_step) auto

lemma readCdrString_step: "reader_step r (snd (readCdrString r))"
  unfolding readCdrString_def
  by (intro reader_step_bind width_reader_step) (auto intro: reader_step_advance)

lemma readSequenceLength_step: "reader_step r (snd (readSequenceLength m r))"
  unfolding readSequenceLength_def by (intro reader_step_bind width_reader_step) auto

lemma readSequenceLength_fits:
  assumes "readSequenceLength m r = (Inr count, r')"
  shows "unat count * m \<le> remaining r'"
proof -
  have "unat count \<le> remaining r' div m \<and> m \<noteq> 0"
    using assms by (auto simp: readSequenceLength_def cdr_bind_def cdr_fail_def split: prod.splits sum.splits if_splits)
  then show ?thesis
    by (meson div_times_less_eq_dividend le_trans mult_le_mono1)
qed

lemma readByteSequence_step: "reader_step r (snd (readByteSequence r))"
  unfolding readByteSequence_def
  by (intro reader_step_bind readSequenceLength_step)
    (use readSequenceLength_fits [of 1] in \<open>auto intro: reader_step_advance\<close>)

lemma readFixedArray_step:
  assumes "\<And>r. reader_step r (snd (rd r))"
  shows "reader_step r (snd (readFixedArray rd n r))"
proof (induction n arbitrary: r)
  case (Suc n)
  show ?case unfolding readFixedArray.simps
    by (intro reader_step_bind assms Suc.IH) simp
qed simp

lemma cdr_reader_ok: "reader_ok (cdr_reader payload)"
  by (cases payload) (auto simp: cdr_reader_def cdr_initialize_def blank_reader_def reader_ok_def inside_def Let_def)

text \<open>A failure is kept: every read of a failed reader returns it and leaves the reader alone.\<close>

lemma align_failed: "\<not> isOk (cr_status r) \<Longrightarrow> align a r = (Inl (cr_status r), r)"
  by (simp add: align_def)

lemma readUnsigned_failed: "\<not> isOk (cr_status r) \<Longrightarrow> readUnsigned w r = (Inl (cr_status r), r)"
  by (simp add: readUnsigned_def align_failed cdr_bind_def)

lemma reads_failed:
  assumes "\<not> isOk (cr_status r)"
  shows "readU8 r = (Inl (cr_status r), r)" "readU16 r = (Inl (cr_status r), r)" "readU32 r = (Inl (cr_status r), r)"
    "readU64 r = (Inl (cr_status r), r)" "readBool r = (Inl (cr_status r), r)"
    "readCdrString r = (Inl (cr_status r), r)" "readSequenceLength m r = (Inl (cr_status r), r)"
    "readByteSequence r = (Inl (cr_status r), r)"
  by (simp_all add: width_reader_defs readBool_def readCdrString_def readSequenceLength_def readByteSequence_def
      readUnsigned_failed [OF assms] cdr_bind_def)

subsection \<open>What an XCDR1 encoder writes, and that the reader reads it back\<close>

text \<open>
  The format, without the reader: every integer is aligned to its own width relative to the end of the
  encapsulation header, a string carries its length with the terminator, a sequence of octets its
  length. The shape of a value says which operation of the reader to call.
\<close>

datatype cdr_value =
  CvBool bool | CvU8 u8 | CvU16 u16 | CvU32 u32 | CvU64 u64 | CvString bytes | CvBytes bytes

datatype cdr_shape = ShBool | ShU8 | ShU16 | ShU32 | ShU64 | ShString | ShBytes

fun shape_of :: "cdr_value \<Rightarrow> cdr_shape" where
  "shape_of (CvBool b) = ShBool"
| "shape_of (CvU8 v) = ShU8"
| "shape_of (CvU16 v) = ShU16"
| "shape_of (CvU32 v) = ShU32"
| "shape_of (CvU64 v) = ShU64"
| "shape_of (CvString s) = ShString"
| "shape_of (CvBytes s) = ShBytes"

definition uint_bytes :: "bool \<Rightarrow> nat \<Rightarrow> u64 \<Rightarrow> bytes" where
  "uint_bytes little w v =
     (let bs = map (\<lambda>i. ucast (drop_bit (8 * i) v)) [0..<w] in if little then bs else rev bs)"

definition put_uint :: "bool \<Rightarrow> nat \<Rightarrow> nat \<Rightarrow> u64 \<Rightarrow> bytes" where
  "put_uint little pos w v = replicate ((w - pos mod w) mod w) 0 @ uint_bytes little w v"

fun put_value :: "bool \<Rightarrow> nat \<Rightarrow> cdr_value \<Rightarrow> bytes" where
  "put_value little pos (CvBool b) = put_uint little pos 1 (if b then 1 else 0)"
| "put_value little pos (CvU8 v) = put_uint little pos 1 (ucast v)"
| "put_value little pos (CvU16 v) = put_uint little pos 2 (ucast v)"
| "put_value little pos (CvU32 v) = put_uint little pos 4 (ucast v)"
| "put_value little pos (CvU64 v) = put_uint little pos 8 v"
| "put_value little pos (CvString s) = put_uint little pos 4 (of_nat (length s + 1)) @ s @ [0]"
| "put_value little pos (CvBytes s) = put_uint little pos 4 (of_nat (length s)) @ s"

fun put_values :: "bool \<Rightarrow> nat \<Rightarrow> cdr_value list \<Rightarrow> bytes" where
  "put_values little pos [] = []"
| "put_values little pos (v # vs) =
     put_value little pos v @ put_values little (pos + length (put_value little pos v)) vs"

definition cdr_encode :: "bool \<Rightarrow> cdr_value list \<Rightarrow> bytes" where
  "cdr_encode little vs = [0, if little then 1 else 0, 0, 0] @ put_values little 0 vs"

fun storable :: "cdr_value \<Rightarrow> bool" where
  "storable (CvString s) \<longleftrightarrow> length s + 1 < 2 ^ 32"
| "storable (CvBytes s) \<longleftrightarrow> length s < 2 ^ 32"
| "storable _ \<longleftrightarrow> True"

fun read_shape :: "cdr_shape \<Rightarrow> CdrReader \<Rightarrow> (Status + cdr_value) \<times> CdrReader" where
  "read_shape ShBool r = cdr_bind (readBool r) (\<lambda>v r. (Inr (CvBool v), r))"
| "read_shape ShU8 r = cdr_bind (readU8 r) (\<lambda>v r. (Inr (CvU8 v), r))"
| "read_shape ShU16 r = cdr_bind (readU16 r) (\<lambda>v r. (Inr (CvU16 v), r))"
| "read_shape ShU32 r = cdr_bind (readU32 r) (\<lambda>v r. (Inr (CvU32 v), r))"
| "read_shape ShU64 r = cdr_bind (readU64 r) (\<lambda>v r. (Inr (CvU64 v), r))"
| "read_shape ShString r = cdr_bind (readCdrString r) (\<lambda>v r. (Inr (CvString v), r))"
| "read_shape ShBytes r = cdr_bind (readByteSequence r) (\<lambda>v r. (Inr (CvBytes v), r))"

fun read_shapes :: "cdr_shape list \<Rightarrow> CdrReader \<Rightarrow> (Status + cdr_value list) \<times> CdrReader" where
  "read_shapes [] r = (Inr [], r)"
| "read_shapes (sh # shs) r =
     cdr_bind (read_shape sh r) (\<lambda>v r. cdr_bind (read_shapes shs r) (\<lambda>vs r. (Inr (v # vs), r)))"

subsubsection \<open>Bytes of integers\<close>

lemma bit_le_loop:
  "bit (le_loop bs k acc) n \<longleftrightarrow> bit acc n \<or>
     (n < 64 \<and> 8 * k \<le> n \<and> n < 8 * (k + length bs) \<and> bit (bs ! (n div 8 - k)) (n mod 8))"
proof (induction bs arbitrary: k acc)
  case (Cons b bs)
  have byte: "bit b (n - 8 * k) \<Longrightarrow> n < 8 * k + 8"
    using bit_imp_le_length [of b "n - 8 * k"] by simp
  consider "n < 8 * k" | "8 * k \<le> n" "n < 8 * k + 8" | "8 * k + 8 \<le> n" by linarith
  then show ?case
  proof cases
    case 2
    then have "n div 8 = k" "n - 8 * k = n mod 8"
      by (auto simp: div_nat_eqI minus_div_mult_eq_mod [symmetric] intro!: div_nat_eqI)
    with 2 show ?thesis
      by (auto simp: Cons.IH bit_or_iff bit_push_bit_iff bit_ucast_iff mult.commute)
  next
    case 3
    then have "n div 8 - k = Suc (n div 8 - (k + 1))" by linarith
    with 3 byte show ?thesis
      by (auto simp: Cons.IH bit_or_iff bit_push_bit_iff bit_ucast_iff mult.commute)
  qed (auto simp: Cons.IH bit_or_iff bit_push_bit_iff mult.commute)
qed auto

lemma be_loop_snoc: "be_loop (bs @ [b]) v = push_bit 8 (be_loop bs v) OR ucast b"
  by (induction bs arbitrary: v) simp_all

lemma bit_be_loop:
  "bit (be_loop bs 0) n \<longleftrightarrow> n < 64 \<and> n < 8 * length bs \<and> bit (rev bs ! (n div 8)) (n mod 8)"
proof (induction bs arbitrary: n rule: rev_induct)
  case (snoc b bs)
  have byte: "bit b n \<Longrightarrow> n < 8"
    using bit_imp_le_length [of b n] by simp
  show ?case
  proof (cases "n < 8")
    case True
    then show ?thesis
      by (auto simp: be_loop_snoc bit_or_iff bit_push_bit_iff bit_ucast_iff)
  next
    case False
    then have "n div 8 = Suc ((n - 8) div 8)" "n mod 8 = (n - 8) mod 8"
      by (simp_all add: le_div_geq le_mod_geq)
    with False byte show ?thesis
      by (auto simp: be_loop_snoc bit_or_iff bit_push_bit_iff bit_ucast_iff snoc.IH)
  qed
qed simp

lemma bytes_value_uint_bytes:
  assumes "w \<le> 8"
  shows "bytes_value little (uint_bytes little w v) = take_bit (8 * w) v"
proof (rule bit_word_eqI)
  fix n
  assume n: "n < LENGTH(64)"
  have byte: "n < 8 * w \<Longrightarrow> bit (map (\<lambda>i. ucast (drop_bit (8 * i) v) :: u8) [0..<w] ! (n div 8)) (n mod 8) \<longleftrightarrow> bit v n"
  proof -
    assume "n < 8 * w"
    then have "n div 8 < w" by linarith
    then show ?thesis by (simp add: bit_ucast_iff bit_drop_bit_eq)
  qed
  show "bit (bytes_value little (uint_bytes little w v)) n \<longleftrightarrow> bit (take_bit (8 * w) v) n"
    using n byte by (auto simp: bytes_value_def uint_bytes_def bit_le_loop bit_be_loop bit_take_bit_iff Let_def)
qed

lemma length_uint_bytes [simp]: "length (uint_bytes little w v) = w"
  by (simp add: uint_bytes_def Let_def)

subsubsection \<open>Reading at a position\<close>

text \<open>A reader of an encoded payload that has come some way behind the header, with any cache.\<close>

definition reader_at :: "bool \<Rightarrow> bytes \<Rightarrow> CachedField list \<Rightarrow> nat \<Rightarrow> nat \<Rightarrow> CdrReader" where
  "reader_at little payload c t p = \<lparr>cr_payload = Buffer payload, cr_status = StOk, cr_little_endian = little,
     cr_data_origin = 4, cr_position = 4 + p, cr_depth = 0, cr_cached_fields = c, cr_traversal_count = t\<rparr>"

lemma cdr_reader_encode: "cdr_reader (Buffer (cdr_encode little vs)) = reader_at little (cdr_encode little vs) [] 0 0"
  by (auto simp: cdr_reader_def cdr_initialize_def blank_reader_def cdr_encode_def reader_at_def Let_def)

lemma power_of_two_and: "w \<in> {1, 2, 4, 8} \<Longrightarrow> (w AND (w - 1)) = (0 :: nat)" "w \<in> {1, 2, 4, 8} \<Longrightarrow> p AND (w - 1) = p mod (w :: nat)"
proof -
  assume w: "w \<in> {1, 2, 4, 8}"
  then obtain k where k: "w = 2 ^ k" and "k < 4"
    by (elim insertE) (auto intro: that [of 0] that [of 1] that [of 2] that [of 3])
  show "(w AND (w - 1)) = 0" using w by (elim insertE) simp_all
  show "p AND (w - 1) = p mod w"
    using take_bit_eq_mask [of k p] by (simp add: k take_bit_eq_mod mask_eq_exp_minus_1)
qed

lemma align_reader_at:
  assumes "w \<in> {1, 2, 4, 8}" "4 + p + (w - p mod w) mod w \<le> length payload"
  shows "align w (reader_at little payload c t p) = (Inr (), reader_at little payload c t (p + (w - p mod w) mod w))"
proof -
  note bits = power_of_two_and [OF assms(1), simplified]
  have "w \<noteq> 0" using assms(1) by auto
  moreover have "\<not> length payload - (4 + p) < (w - p mod w) mod w" "4 + p \<le> length payload"
    using assms(2) by linarith+
  ultimately show ?thesis
    by (simp add: align_def bits reader_at_def remaining_def Let_def)
qed

lemma length_put_uint: "length (put_uint little p w v) = (w - p mod w) mod w + w"
  by (simp add: put_uint_def)

lemma readUnsigned_put:
  assumes w: "w \<in> {1, 2, 4, 8}" and payload: "payload = pre @ put_uint little p w v @ post" "length pre = 4 + p"
  shows "readUnsigned w (reader_at little payload c t p)
    = (Inr (take_bit (8 * w) v), reader_at little payload c t (p + length (put_uint little p w v)))"
proof -
  let ?pad = "(w - p mod w) mod w"
  have len: "length payload = 4 + p + ?pad + w + length post"
    by (simp add: payload length_put_uint)
  have slice: "take w (drop (4 + (p + ?pad)) payload) = uint_bytes little w v"
    by (simp add: payload put_uint_def)
  have "w \<le> 8" using w by auto
  then show ?thesis
    using slice unfolding readUnsigned_def align_reader_at [OF w, of p payload little, unfolded len, simplified]
    by (simp add: cdr_bind_def reader_at_def remaining_def len payload_slice_def bytes_value_uint_bytes length_put_uint)
qed

lemma take_bit_ucast:
  "take_bit 8 (ucast (a :: u8) :: u64) = ucast a" "take_bit 16 (ucast (b :: u16) :: u64) = ucast b"
  "take_bit 32 (ucast (d :: u32) :: u64) = ucast d"
  by (rule bit_word_eqI; auto simp: bit_take_bit_iff bit_ucast_iff dest: bit_imp_le_length)+

lemma ucast_ucast_u64:
  "ucast (ucast (a :: u8) :: u64) = a" "ucast (ucast (b :: u16) :: u64) = b" "ucast (ucast (d :: u32) :: u64) = d"
  by (rule bit_word_eqI; auto simp: bit_ucast_iff)+

lemma put_width:
  assumes "payload = pre @ put_uint little p w v @ post" "length pre = 4 + p"
  shows "w = 1 \<Longrightarrow> v = ucast (a :: u8) \<Longrightarrow>
      readU8 (reader_at little payload c t p) = (Inr a, reader_at little payload c t (p + length (put_uint little p w v)))"
    and "w = 2 \<Longrightarrow> v = ucast (b :: u16) \<Longrightarrow>
      readU16 (reader_at little payload c t p) = (Inr b, reader_at little payload c t (p + length (put_uint little p w v)))"
    and "w = 4 \<Longrightarrow> v = ucast (d :: u32) \<Longrightarrow>
      readU32 (reader_at little payload c t p) = (Inr d, reader_at little payload c t (p + length (put_uint little p w v)))"
    and "w = 8 \<Longrightarrow>
      readU64 (reader_at little payload c t p) = (Inr v, reader_at little payload c t (p + length (put_uint little p w v)))"
  using readUnsigned_put [OF _ assms]
  by (simp_all add: width_reader_defs cdr_bind_def take_bit_ucast ucast_ucast_u64 take_bit_word_eq_self)

text \<open>A length prefix and its octets.\<close>

lemma put_length:
  assumes "payload = pre @ put_uint little p 4 (of_nat n) @ post" "length pre = 4 + p" "n < 2 ^ 32"
  shows "readU32 (reader_at little payload c t p)
    = (Inr (of_nat n), reader_at little payload c t (p + length (put_uint little p 4 (of_nat n))))"
    and "unat (of_nat n :: u32) = n"
proof -
  show n: "unat (of_nat n :: u32) = n" using assms(3) by (simp add: unat_of_nat take_bit_nat_eq_self)
  have "(of_nat n :: u64) = ucast (of_nat n :: u32)"
    by (rule iffD2 [OF word_unat_eq_iff]) (use assms(3) n in \<open>simp add: unat_of_nat take_bit_nat_eq_self unsigned_ucast_eq\<close>)
  from put_width(3) [OF assms(1,2) refl this] show "readU32 (reader_at little payload c t p)
    = (Inr (of_nat n), reader_at little payload c t (p + length (put_uint little p 4 (of_nat n))))" .
qed

lemma read_put_value:
  assumes payload: "payload = pre @ put_value little p v @ post" "length pre = 4 + p" and "storable v"
  shows "read_shape (shape_of v) (reader_at little payload c t p)
    = (Inr v, reader_at little payload c t (p + length (put_value little p v)))"
proof (cases v)
  case (CvBool b)
  show ?thesis
    using put_width(1) [of payload pre little p 1 "if b then 1 else 0" post "if b then 1 else 0"] payload
    by (cases b) (simp_all add: CvBool readBool_def cdr_bind_def)
next
  case (CvU8 a)
  then show ?thesis using put_width(1) [of payload pre little p 1 "ucast a" post a] payload by (simp add: cdr_bind_def)
next
  case (CvU16 a)
  then show ?thesis using put_width(2) [of payload pre little p 2 "ucast a" post a] payload by (simp add: cdr_bind_def)
next
  case (CvU32 a)
  then show ?thesis using put_width(3) [of payload pre little p 4 "ucast a" post a] payload by (simp add: cdr_bind_def)
next
  case (CvU64 a)
  then show ?thesis using put_width(4) [of payload pre little p 8 a post] payload by (simp add: cdr_bind_def)
next
  case (CvString s)
  let ?put = "put_uint little p 4 (of_nat (length s + 1))"
  have pay: "payload = pre @ ?put @ (s @ [0] @ post)" using payload(1) CvString by simp
  have size: "length s + 1 < 2 ^ 32" using assms(3) CvString by simp
  note len = put_length [OF pay payload(2) size]
  have at: "payload ! (4 + (p + length ?put) + length s) = 0" "take (length s) (drop (4 + (p + length ?put)) payload) = s"
    using pay payload(2) by (simp_all add: nth_append)
  have "(1 + of_nat (length s) :: u32) \<noteq> 0" using len(2) by (metis Suc_eq_plus1 nat.distinct(1) of_nat_Suc unat_0)
  moreover have "length payload = 4 + (p + length ?put) + length s + 1 + length post" using pay payload(2) by simp
  ultimately show ?thesis
    using len at size
    by (simp add: CvString readCdrString_def cdr_bind_def) (simp add: remaining_def reader_at_def payload_at_def payload_slice_def)
next
  case (CvBytes s)
  let ?put = "put_uint little p 4 (of_nat (length s))"
  have pay: "payload = pre @ ?put @ (s @ post)" using payload(1) CvBytes by simp
  note len = put_length [OF pay payload(2)]
  have at: "take (length s) (drop (4 + (p + length ?put)) payload) = s"
    using pay payload(2) by simp
  have "length payload = 4 + (p + length ?put) + length s + length post" using pay payload(2) by simp
  then show ?thesis
    using len at assms(3)
    by (simp add: CvBytes readByteSequence_def readSequenceLength_def cdr_bind_def)
      (simp add: remaining_def reader_at_def payload_slice_def)
qed

lemma read_put_values:
  assumes "payload = pre @ put_values little p vs" "length pre = 4 + p" "list_all storable vs"
  shows "read_shapes (map shape_of vs) (reader_at little payload c t p)
    = (Inr vs, reader_at little payload c t (p + length (put_values little p vs)))"
  using assms
proof (induction vs arbitrary: pre p)
  case (Cons v vs)
  let ?p = "p + length (put_value little p v)"
  have pay: "payload = pre @ put_value little p v @ put_values little ?p vs" using Cons.prems(1) by simp
  have "payload = (pre @ put_value little p v) @ put_values little ?p vs" using pay by simp
  from Cons.IH [OF this] Cons.prems read_put_value [OF pay Cons.prems(2)]
  show ?case by (simp add: cdr_bind_def add.assoc)
qed simp

lemma cdr_decode_encode:
  assumes "list_all storable vs"
  shows "read_shapes (map shape_of vs) (cdr_reader (Buffer (cdr_encode little vs)))
    = (Inr vs, reader_at little (cdr_encode little vs) [] 0 (length (cdr_encode little vs) - 4))"
  using read_put_values [of "cdr_encode little vs" "[0, if little then 1 else 0, 0, 0]" little 0 vs] assms
  by (simp add: cdr_reader_encode) (simp add: cdr_encode_def)

end
