(* ===== verification/SemVer.thy ===== *)
theory SemVer
  imports Prelude "HOL-Library.Char_ord" "HOL-Library.List_Lexorder" "HOL-Library.Product_Lexorder"
begin

section \<open>Semantic versions (\<open>pj_base/src/semver.cpp\<close>)\<close>

text \<open>
  Parsing and precedence of \<open>MAJOR.MINOR.PATCH[-prerelease][+build]\<close>. Strings are HOL strings,
  ordered as \<open>std::string_view\<close> orders them: lexicographically by unsigned characters.
\<close>

subsection \<open>Identifiers\<close>

definition isAsciiDigit :: "char \<Rightarrow> bool" where
  "isAsciiDigit c \<longleftrightarrow> CHR ''0'' \<le> c \<and> c \<le> CHR ''9''"

definition isAsciiLetter :: "char \<Rightarrow> bool" where
  "isAsciiLetter c \<longleftrightarrow> (CHR ''A'' \<le> c \<and> c \<le> CHR ''Z'') \<or> (CHR ''a'' \<le> c \<and> c \<le> CHR ''z'')"

definition isNumeric :: "string \<Rightarrow> bool" where
  "isNumeric identifier \<longleftrightarrow> list_all isAsciiDigit identifier \<and> identifier \<noteq> []"

definition isValidIdentifier :: "string \<Rightarrow> bool" where
  "isValidIdentifier identifier \<longleftrightarrow>
     identifier \<noteq> [] \<and>
     list_all (\<lambda>c. \<not> (\<not> isAsciiDigit c \<and> \<not> isAsciiLetter c \<and> c \<noteq> CHR ''-'')) identifier"

text \<open>The text up to the first separator, and the text after it if there is one.\<close>

definition split_at :: "char \<Rightarrow> string \<Rightarrow> string \<times> string option" where
  "split_at c text = (takeWhile (\<lambda>x. x \<noteq> c) text,
     case dropWhile (\<lambda>x. x \<noteq> c) text of [] \<Rightarrow> None | _ # rest \<Rightarrow> Some rest)"

lemma split_at_shorter: "split_at c text = (a, Some rest) \<Longrightarrow> length rest < length text"
  using length_dropWhile_le [of "\<lambda>x. x \<noteq> c" "text"]
  by (auto simp: split_at_def split: list.splits)

text \<open>The loop of \<open>parseIdentifiers\<close> over the text that is left.\<close>

function parseIdentifiers_loop :: "string \<Rightarrow> string \<Rightarrow> bool \<Rightarrow> string list \<Rightarrow> string + string list" where
  "parseIdentifiers_loop text kind reject_zero identifiers =
     (case split_at (CHR ''.'') text of
        (identifier, separator) \<Rightarrow>
          if \<not> isValidIdentifier identifier then Inl (kind @ '' contains an invalid identifier'')
          else if reject_zero \<and> length identifier > 1 \<and> hd identifier = CHR ''0'' \<and> isNumeric identifier then
            Inl (kind @ '' numeric identifiers must not contain leading zeros'')
          else (case separator of
            None \<Rightarrow> Inr (identifiers @ [identifier])
          | Some rest \<Rightarrow> parseIdentifiers_loop rest kind reject_zero (identifiers @ [identifier])))"
  by pat_completeness auto
termination
  by (relation "measure (\<lambda>(text, _). length text)") (auto dest: split_at_shorter [OF sym])

declare parseIdentifiers_loop.simps [simp del]

definition parseIdentifiers :: "string \<Rightarrow> string \<Rightarrow> bool \<Rightarrow> string + string list" where
  "parseIdentifiers text kind reject_zero =
     (if text = [] then Inl (kind @ '' identifiers must not be empty'')
      else parseIdentifiers_loop text kind reject_zero [])"

definition parseCore :: "string \<Rightarrow> string + string list" where
  "parseCore text = (case parseIdentifiers text ''core version'' True of
     Inl e \<Rightarrow> Inl e
   | Inr components \<Rightarrow>
       if length components \<noteq> 3 then Inl ''core version must contain exactly three numeric components''
       else if \<not> list_all isNumeric components then Inl ''core version components must be numeric''
       else Inr components)"

subsection \<open>Parsing\<close>

record SemVer =
  sv_major :: string
  sv_minor :: string
  sv_patch :: string
  sv_prerelease :: "string list"

definition parse_semver :: "string \<Rightarrow> string + SemVer" where
  "parse_semver text =
     (if text = [] then Inl ''semantic version must not be empty''
      else case split_at (CHR ''+'') text of
        (version_and_prerelease, build) \<Rightarrow>
          (case (case build of None \<Rightarrow> Inr [] | Some b \<Rightarrow> parseIdentifiers b ''build metadata'' False) of
             Inl e \<Rightarrow> Inl e
           | Inr _ \<Rightarrow>
               (case split_at (CHR ''-'') version_and_prerelease of
                  (core, pre) \<Rightarrow>
                    (case parseCore core of
                       Inl e \<Rightarrow> Inl e
                     | Inr components \<Rightarrow>
                         (case (case pre of None \<Rightarrow> Inr [] | Some p \<Rightarrow> parseIdentifiers p ''pre-release'' True) of
                            Inl e \<Rightarrow> Inl e
                          | Inr prerelease \<Rightarrow>
                              Inr \<lparr>sv_major = components ! 0, sv_minor = components ! 1,
                                   sv_patch = components ! 2, sv_prerelease = prerelease\<rparr>)))))"

definition isValid_semver :: "string \<Rightarrow> bool" where
  "isValid_semver text = (case parse_semver text of Inl _ \<Rightarrow> False | Inr _ \<Rightarrow> True)"

subsection \<open>Precedence\<close>

datatype strong_ordering = Less | Equal | Greater

definition compareNumeric :: "string \<Rightarrow> string \<Rightarrow> strong_ordering" where
  "compareNumeric lhs rhs =
     (if length lhs < length rhs then Less
      else if length lhs > length rhs then Greater
      else if lhs < rhs then Less
      else if lhs > rhs then Greater
      else Equal)"

definition compareLexical :: "string \<Rightarrow> string \<Rightarrow> strong_ordering" where
  "compareLexical lhs rhs = (if lhs < rhs then Less else if lhs > rhs then Greater else Equal)"

text \<open>The loop over the common identifiers, then the comparison of the sizes.\<close>

fun comparePrerelease :: "string list \<Rightarrow> string list \<Rightarrow> strong_ordering" where
  "comparePrerelease (lhs # ls) (rhs # rs) =
     (if isNumeric lhs \<noteq> isNumeric rhs then (if isNumeric lhs then Less else Greater)
      else case (if isNumeric lhs then compareNumeric lhs rhs else compareLexical lhs rhs) of
        Equal \<Rightarrow> comparePrerelease ls rs
      | identifier_order \<Rightarrow> identifier_order)"
| "comparePrerelease [] (_ # _) = Less"
| "comparePrerelease (_ # _) [] = Greater"
| "comparePrerelease [] [] = Equal"

definition compare_semver :: "SemVer \<Rightarrow> SemVer \<Rightarrow> strong_ordering" where
  "compare_semver a b =
     (if compareNumeric (sv_major a) (sv_major b) \<noteq> Equal then compareNumeric (sv_major a) (sv_major b)
      else if compareNumeric (sv_minor a) (sv_minor b) \<noteq> Equal then compareNumeric (sv_minor a) (sv_minor b)
      else if compareNumeric (sv_patch a) (sv_patch b) \<noteq> Equal then compareNumeric (sv_patch a) (sv_patch b)
      else if sv_prerelease a = [] \<and> sv_prerelease b = [] then Equal
      else if sv_prerelease a = [] then Greater
      else if sv_prerelease b = [] then Less
      else comparePrerelease (sv_prerelease a) (sv_prerelease b))"

subsection \<open>Precedence is a linear order\<close>

text \<open>
  Every version has a key in a linear order of pairs and lists, and \<open>compare\<close> compares the keys.
\<close>

definition ordering_of :: "'a::linorder \<Rightarrow> 'a \<Rightarrow> strong_ordering" where
  "ordering_of x y = (if x < y then Less else if y < x then Greater else Equal)"

definition numeric_key :: "string \<Rightarrow> nat \<times> string" where
  "numeric_key s = (length s, s)"

definition identifier_key :: "string \<Rightarrow> bool \<times> nat \<times> string" where
  "identifier_key s = (if isNumeric s then (False, length s, s) else (True, 0, s))"

definition semver_key ::
    "SemVer \<Rightarrow> (nat \<times> string) \<times> (nat \<times> string) \<times> (nat \<times> string) \<times> bool \<times> (bool \<times> nat \<times> string) list" where
  "semver_key v = (numeric_key (sv_major v), numeric_key (sv_minor v), numeric_key (sv_patch v),
     sv_prerelease v = [], map identifier_key (sv_prerelease v))"

lemma ordering_of_simps [simp]:
  "ordering_of x y = Equal \<longleftrightarrow> x = y" "ordering_of x y = Less \<longleftrightarrow> x < y" "ordering_of x y = Greater \<longleftrightarrow> y < x"
  by (auto simp: ordering_of_def)

lemma ordering_of_pair:
  "ordering_of (a, b) (c, d) = (case ordering_of a c of Equal \<Rightarrow> ordering_of b d | r \<Rightarrow> r)"
  by (auto simp: ordering_of_def less_prod_simp)

lemma ordering_of_Cons:
  "ordering_of (x # xs) (y # ys) = (case ordering_of x y of Equal \<Rightarrow> ordering_of xs ys | r \<Rightarrow> r)"
  by (auto simp: ordering_of_def)

lemma compareNumeric_key: "compareNumeric a b = ordering_of (numeric_key a) (numeric_key b)"
  by (auto simp: compareNumeric_def numeric_key_def ordering_of_def less_prod_simp)

lemma compareLexical_ordering: "compareLexical a b = ordering_of a b"
  by (simp add: compareLexical_def ordering_of_def)

lemma identifier_order:
  "(if isNumeric a \<noteq> isNumeric b then (if isNumeric a then Less else Greater)
    else if isNumeric a then compareNumeric a b else compareLexical a b)
   = ordering_of (identifier_key a) (identifier_key b)"
  by (auto simp: identifier_key_def compareNumeric_key compareLexical_ordering ordering_of_def numeric_key_def
      less_prod_simp)

lemma comparePrerelease_key:
  "comparePrerelease as bs = ordering_of (map identifier_key as) (map identifier_key bs)"
proof (induction as bs rule: comparePrerelease.induct)
  case (1 a as b bs)
  then show ?case
    unfolding list.map ordering_of_Cons identifier_order [symmetric]
    by (auto split: strong_ordering.splits)
qed (simp_all add: ordering_of_def)

lemma compare_semver_key: "compare_semver a b = ordering_of (semver_key a) (semver_key b)"
proof -
  have pre: "(if sv_prerelease a = [] \<and> sv_prerelease b = [] then Equal
      else if sv_prerelease a = [] then Greater else if sv_prerelease b = [] then Less
      else comparePrerelease (sv_prerelease a) (sv_prerelease b))
    = ordering_of (sv_prerelease a = [], map identifier_key (sv_prerelease a))
        (sv_prerelease b = [], map identifier_key (sv_prerelease b))"
    by (auto simp: ordering_of_pair comparePrerelease_key) (auto simp: ordering_of_def)
  show ?thesis
    unfolding compare_semver_def semver_key_def pre compareNumeric_key ordering_of_pair [of "numeric_key _"]
    by (auto split: strong_ordering.splits)
qed

lemma identifier_key_inject: "identifier_key a = identifier_key b \<longleftrightarrow> a = b"
  by (auto simp: identifier_key_def split: if_splits)

lemma semver_key_inject: "semver_key a = semver_key b \<longleftrightarrow> a = b"
proof
  assume "semver_key a = semver_key b"
  then have "sv_major a = sv_major b" "sv_minor a = sv_minor b" "sv_patch a = sv_patch b"
    "map identifier_key (sv_prerelease a) = map identifier_key (sv_prerelease b)"
    by (simp_all add: semver_key_def numeric_key_def)
  moreover have "inj identifier_key" by (auto simp: inj_def identifier_key_inject)
  ultimately show "a = b" by (simp add: inj_map_eq_map)
qed simp

subsection \<open>What precedence means\<close>

text \<open>
  The precedence that semantic versioning prescribes, on numbers: the number that a text of digits denotes, the
  rank of an identifier (numbers below texts), and the rank of a version, whose release comes above its pre-releases.
\<close>

fun number_value :: "string \<Rightarrow> nat" where
  "number_value [] = 0"
| "number_value (c # s) = (of_char c - 48) * 10 ^ length s + number_value s"

definition identifier_rank :: "string \<Rightarrow> bool \<times> nat \<times> string" where
  "identifier_rank s = (if isNumeric s then (False, number_value s, []) else (True, 0, s))"

definition semver_rank :: "SemVer \<Rightarrow> nat \<times> nat \<times> nat \<times> bool \<times> (bool \<times> nat \<times> string) list" where
  "semver_rank v = (number_value (sv_major v), number_value (sv_minor v), number_value (sv_patch v),
     sv_prerelease v = [], map identifier_rank (sv_prerelease v))"

text \<open>What the parser lets through: no number has a zero in front.\<close>

definition no_leading_zero :: "string \<Rightarrow> bool" where
  "no_leading_zero s \<longleftrightarrow> \<not> (length s > 1 \<and> hd s = CHR ''0'' \<and> isNumeric s)"

lemma isAsciiDigit_code: "isAsciiDigit c \<longleftrightarrow> 48 \<le> (of_char c :: nat) \<and> (of_char c :: nat) \<le> 57"
  by (simp add: isAsciiDigit_def less_eq_char_def)

lemma digit_bound: "isAsciiDigit c \<Longrightarrow> (of_char c :: nat) - 48 < 10"
  by (auto simp: isAsciiDigit_code)

lemma number_value_bound: "list_all isAsciiDigit s \<Longrightarrow> number_value s < 10 ^ length s"
proof (induction s)
  case (Cons c s)
  then have "(of_char c - 48) * 10 ^ length s + number_value s < (of_char c - 48) * 10 ^ length s + (10 :: nat) ^ length s"
    by simp
  also have "\<dots> = (of_char c - 48 + 1) * 10 ^ length s" by simp
  also have "\<dots> \<le> 10 * 10 ^ length s"
    by (rule mult_right_mono) (use digit_bound [of c] Cons.prems in auto)
  finally show ?case by simp
qed simp

lemma number_value_least:
  assumes "list_all isAsciiDigit s" "s \<noteq> []" "hd s \<noteq> CHR ''0''"
  shows "10 ^ (length s - 1) \<le> number_value s"
proof (cases s)
  case (Cons c t)
  have "(of_char c :: nat) \<noteq> of_char (CHR ''0'')" using assms(3) Cons by (simp only: of_char_eq_iff list.sel simp_thms)
  then have "(of_char c :: nat) \<noteq> 48" by simp
  then have "1 \<le> (of_char c :: nat) - 48" using assms(1) Cons by (simp add: isAsciiDigit_code) linarith
  then have "1 * 10 ^ length t \<le> (of_char c - 48) * (10 :: nat) ^ length t" by (rule mult_right_mono) simp
  then have "10 ^ length t \<le> (of_char c - 48) * (10 :: nat) ^ length t + number_value t" by linarith
  then show ?thesis using Cons by simp
qed (use assms in simp)

lemma number_value_same_length:
  "length s = length t \<Longrightarrow> list_all isAsciiDigit s \<Longrightarrow> list_all isAsciiDigit t \<Longrightarrow> s < t \<Longrightarrow> number_value s < number_value t"
proof (induction s t rule: list_induct2)
  case (Cons c s d t)
  show ?case
  proof (cases "c = d")
    case True
    then show ?thesis using Cons by simp
  next
    case False
    then have "c < d" using Cons.prems by simp
    then have "(of_char c :: nat) < of_char d" by (simp add: less_char_def)
    moreover have "48 \<le> (of_char c :: nat)" using Cons.prems by (simp add: isAsciiDigit_code)
    ultimately have "(of_char c :: nat) - 48 + 1 \<le> of_char d - 48" by linarith
    then have "((of_char c :: nat) - 48 + 1) * 10 ^ length s \<le> (of_char d - 48) * 10 ^ length t"
      using Cons.hyps by (intro mult_mono) simp_all
    moreover have "number_value s < 10 ^ length s" using number_value_bound Cons.prems by simp
    ultimately show ?thesis by (simp add: algebra_simps)
  qed
qed simp

lemma number_value_shorter:
  assumes "length s < length t" "list_all isAsciiDigit s" "isNumeric t" "no_leading_zero t" "s \<noteq> []"
  shows "number_value s < number_value t"
proof -
  have long: "1 < length t" using assms(1,5) by (cases s) auto
  then have t: "list_all isAsciiDigit t" "t \<noteq> []" "hd t \<noteq> CHR ''0''"
    using assms(3,4) by (auto simp: isNumeric_def no_leading_zero_def)
  have "number_value s < 10 ^ length s" by (rule number_value_bound [OF assms(2)])
  also have "\<dots> \<le> 10 ^ (length t - 1)" using assms(1) by (intro power_increasing) auto
  also have "\<dots> \<le> number_value t" by (rule number_value_least [OF t])
  finally show ?thesis .
qed

lemma compareNumeric_value:
  assumes "isNumeric a" "isNumeric b" "no_leading_zero a" "no_leading_zero b"
  shows "compareNumeric a b = ordering_of (number_value a) (number_value b)"
proof -
  have digits: "list_all isAsciiDigit a" "list_all isAsciiDigit b" "a \<noteq> []" "b \<noteq> []"
    using assms(1,2) by (simp_all add: isNumeric_def)
  consider "length a < length b" | "length b < length a" | "length a = length b" "a < b" | "length b = length a" "b < a" | "a = b"
    using linorder_less_linear [of a b] by linarith
  then show ?thesis
  proof cases
    case 1
    then show ?thesis using number_value_shorter [OF 1 digits(1) assms(2,4) digits(3)] by (simp add: compareNumeric_def ordering_of_def)
  next
    case 2
    then show ?thesis using number_value_shorter [OF 2 digits(2) assms(1,3) digits(4)] by (simp add: compareNumeric_def ordering_of_def)
  next
    case 3
    then show ?thesis using number_value_same_length [OF 3(1) digits(1,2) 3(2)] by (simp add: compareNumeric_def ordering_of_def)
  next
    case 4
    then show ?thesis using number_value_same_length [OF 4(1) digits(2,1) 4(2)]
      by (simp add: compareNumeric_def ordering_of_def order_less_not_sym)
  qed (simp add: compareNumeric_def ordering_of_def)
qed

lemma identifier_rank_order:
  "no_leading_zero a \<Longrightarrow> no_leading_zero b \<Longrightarrow>
    ordering_of (identifier_key a) (identifier_key b) = ordering_of (identifier_rank a) (identifier_rank b)"
  using compareNumeric_value [of a b]
  by (auto simp: identifier_key_def identifier_rank_def compareNumeric_key numeric_key_def ordering_of_def less_prod_simp split: if_splits)

lemma identifiers_rank_order:
  "list_all no_leading_zero as \<Longrightarrow> list_all no_leading_zero bs \<Longrightarrow>
    ordering_of (map identifier_key as) (map identifier_key bs) = ordering_of (map identifier_rank as) (map identifier_rank bs)"
proof (induction as arbitrary: bs)
  case Nil
  then show ?case by (cases bs) (simp_all add: ordering_of_def)
next
  case (Cons a as)
  show ?case
  proof (cases bs)
    case (Cons b rest)
    with Cons.prems have "list_all no_leading_zero rest" "no_leading_zero a" "no_leading_zero b" "list_all no_leading_zero as" by simp_all
    note orders = identifier_rank_order [OF this(2,3)] Cons.IH [OF this(4,1)]
    show ?thesis unfolding Cons list.map ordering_of_Cons orders ..
  qed (simp add: ordering_of_def)
qed

definition semver_numbers :: "SemVer \<Rightarrow> bool" where
  "semver_numbers v \<longleftrightarrow> list_all (\<lambda>s. isNumeric s \<and> no_leading_zero s) [sv_major v, sv_minor v, sv_patch v]
     \<and> list_all no_leading_zero (sv_prerelease v)"

lemma compare_semver_rank:
  assumes "semver_numbers a" "semver_numbers b"
  shows "compare_semver a b = ordering_of (semver_rank a) (semver_rank b)"
proof -
  have "ordering_of (numeric_key x) (numeric_key y) = ordering_of (number_value x) (number_value y)"
    if "isNumeric x" "no_leading_zero x" "isNumeric y" "no_leading_zero y" for x y
    using compareNumeric_value [of x y] that by (simp add: compareNumeric_key)
  then have "ordering_of (numeric_key (sv_major a)) (numeric_key (sv_major b)) = ordering_of (number_value (sv_major a)) (number_value (sv_major b))"
    "ordering_of (numeric_key (sv_minor a)) (numeric_key (sv_minor b)) = ordering_of (number_value (sv_minor a)) (number_value (sv_minor b))"
    "ordering_of (numeric_key (sv_patch a)) (numeric_key (sv_patch b)) = ordering_of (number_value (sv_patch a)) (number_value (sv_patch b))"
    using assms by (simp_all add: semver_numbers_def)
  moreover have "ordering_of (map identifier_key (sv_prerelease a)) (map identifier_key (sv_prerelease b))
      = ordering_of (map identifier_rank (sv_prerelease a)) (map identifier_rank (sv_prerelease b))"
    using assms by (intro identifiers_rank_order) (simp_all add: semver_numbers_def)
  note ranks = calculation this
  show ?thesis
    unfolding compare_semver_key semver_key_def semver_rank_def ordering_of_pair [of "numeric_key _"]
      ordering_of_pair [of "number_value _"] ordering_of_pair [of "_ = []"] ranks ..
qed

text \<open>The parser yields such versions.\<close>

lemma parseIdentifiers_loop_numbers:
  "parseIdentifiers_loop text kind True ids = Inr out \<Longrightarrow> list_all no_leading_zero ids \<Longrightarrow> list_all no_leading_zero out"
proof (induction "text" kind True ids rule: parseIdentifiers_loop.induct)
  case (1 "text" kind ids)
  obtain ident separator where sp: "split_at (CHR ''.'') text = (ident, separator)" by fastforce
  from 1(2) sp have "isValidIdentifier ident" and z: "no_leading_zero ident"
    and more: "case separator of None \<Rightarrow> out = ids @ [ident]
      | Some rest \<Rightarrow> parseIdentifiers_loop rest kind True (ids @ [ident]) = Inr out"
    by (auto simp: parseIdentifiers_loop.simps [of "text"] no_leading_zero_def split: if_splits option.splits)
  show ?case
  proof (cases separator)
    case None
    then show ?thesis using more z 1(3) by simp
  next
    case (Some rest)
    then show ?thesis
      using 1(1) [OF sp [symmetric] _ _ Some] more z 1(3) \<open>isValidIdentifier ident\<close> by (simp add: no_leading_zero_def)
  qed
qed

lemma parseIdentifiers_numbers: "parseIdentifiers text kind True = Inr out \<Longrightarrow> list_all no_leading_zero out"
  using parseIdentifiers_loop_numbers [of "text" kind "[]" out] by (simp add: parseIdentifiers_def split: if_splits)

lemma parse_semver_numbers:
  assumes "parse_semver s = Inr v"
  shows "semver_numbers v"
proof -
  obtain core pre components where c: "parseCore core = Inr components"
    and p: "(case pre of None \<Rightarrow> Inr [] | Some p \<Rightarrow> parseIdentifiers p ''pre-release'' True) = Inr (sv_prerelease v)"
    and v: "sv_major v = components ! 0" "sv_minor v = components ! 1" "sv_patch v = components ! 2"
    using assms by (auto simp: parse_semver_def split: if_splits prod.splits sum.splits)
  from c have "list_all no_leading_zero components" "length components = 3" "list_all isNumeric components"
    using parseIdentifiers_numbers by (auto simp: parseCore_def split: sum.splits if_splits)
  moreover have "list_all no_leading_zero (sv_prerelease v)"
    using p parseIdentifiers_numbers by (auto split: option.splits)
  ultimately show ?thesis using v by (auto simp: semver_numbers_def list_all_iff)
qed

text \<open>Build metadata is checked and dropped.\<close>

lemma split_at_append: "c \<notin> set s \<Longrightarrow> split_at c (s @ c # t) = (s, Some t)" "c \<notin> set s \<Longrightarrow> split_at c s = (s, None)"
proof -
  assume "c \<notin> set s"
  then have "\<forall>x\<in>set s. x \<noteq> c" by auto
  then show "split_at c (s @ c # t) = (s, Some t)" "split_at c s = (s, None)"
    by (simp_all add: split_at_def takeWhile_append dropWhile_append takeWhile_eq_all_conv [THEN iffD2] dropWhile_eq_Nil_conv [THEN iffD2])
qed

lemma parse_semver_build:
  assumes "CHR ''+'' \<notin> set s" "s \<noteq> []"
  shows "parse_semver (s @ CHR ''+'' # build)
    = (case parseIdentifiers build ''build metadata'' False of Inl e \<Rightarrow> Inl e | Inr _ \<Rightarrow> parse_semver s)"
  using assms unfolding parse_semver_def
  by (cases "parseIdentifiers build ''build metadata'' False") (simp_all add: split_at_append)

end
