(* ===== verification/CdrLocator.thy ===== *)
theory CdrLocator
  imports CdrReader SemVer
begin

section \<open>ROS 2 schemas and compiled CDR traversal (\<open>parser_module/cdr_field_locator.hpp\<close>)\<close>

text \<open>
  \<open>CdrFieldLocator\<close> compiles a \<open>.msg\<close> bundle and a list of field paths into a \<open>CdrTraversalPlan\<close>. A reader
  built with a plan walks a payload once, remembers where the requested fields are, and its accessors
  read them from there. Recursion over nested structs is bounded by \<open>kMaxTraversalDepth\<close>: the model
  recurses on the depth that is left. The plan of a reader never changes, so it is an argument of the
  operations. Allocation failures are not modelled. The counts of a schema are 64-bit words, as on the host; an index
  that is not set yet is \<open>None\<close>.
\<close>

subsection \<open>Schema types\<close>

datatype CdrValueKind =
  VkBool | VkI8 | VkU8 | VkI16 | VkU16 | VkI32 | VkU32 | VkI64 | VkU64 | VkF32 | VkF64 | VkString | VkStruct

datatype CdrContainerKind = CkScalar | CkFixedArray | CkSequence

record CdrSchemaType =
  ty_kind :: CdrValueKind
  ty_container :: CdrContainerKind
  ty_fixed_count :: u64
  ty_maximum_container_count :: u64
  ty_maximum_string_length :: u64
  ty_nested_name :: string
  ty_nested_index :: "nat option"

definition default_CdrSchemaType :: CdrSchemaType where
  "default_CdrSchemaType = \<lparr>ty_kind = VkU8, ty_container = CkScalar, ty_fixed_count = 0,
     ty_maximum_container_count = 0, ty_maximum_string_length = 0, ty_nested_name = [], ty_nested_index = None\<rparr>"

record CdrSchemaField =
  sf_name :: string
  sf_type :: CdrSchemaType

record CdrSchemaStruct =
  ss_name :: string
  ss_fields :: "CdrSchemaField list"

record CdrRequestedField =
  rf_path :: string
  rf_steps :: "nat list"
  rf_cached_kind :: CachedKind

record CdrTraversalPlan =
  tp_structs :: "CdrSchemaStruct list"
  tp_requested :: "CdrRequestedField list"

subsection \<open>Spelling of types\<close>

text \<open>\<open>std::isspace\<close> in the C locale.\<close>

definition is_space :: "char \<Rightarrow> bool" where
  "is_space c \<longleftrightarrow> of_char c \<in> {9, 10, 11, 12, 13, 32 :: nat}"

definition trim :: "string \<Rightarrow> string" where
  "trim s = rev (dropWhile is_space (rev (dropWhile is_space s)))"

text \<open>\<open>string_view::find\<close> of a substring, with what follows it.\<close>

fun find_sub :: "string \<Rightarrow> string \<Rightarrow> (string \<times> string) option" where
  "find_sub pat [] = (if pat = [] then Some ([], []) else None)"
| "find_sub pat (c # s) =
     (if take (length pat) (c # s) = pat then Some ([], drop (length pat) (c # s))
      else map_option (\<lambda>(a, b). (c # a, b)) (find_sub pat s))"

definition normalizeRosType :: "string \<Rightarrow> string" where
  "normalizeRosType name = (case find_sub ''/msg/'' name of
     None \<Rightarrow> name
   | Some (before, after) \<Rightarrow> before @ ''/'' @ after)"

fun parseDecimal_loop :: "string \<Rightarrow> u64 \<Rightarrow> Status + u64" where
  "parseDecimal_loop [] v = Inr v"
| "parseDecimal_loop (c # cs) v =
     (if \<not> isAsciiDigit c then Inl (status_error ''array extent is not a decimal integer'')
      else
        let digit = of_char c - 48 in
        if v > (- 1 - digit) div 10 then Inl (status_error ''array extent overflows the host size type'')
        else parseDecimal_loop cs (v * 10 + digit))"

definition parseDecimal :: "string \<Rightarrow> Status + u64" where
  "parseDecimal s = (if s = [] then Inl (status_error ''array extent is empty'') else parseDecimal_loop s 0)"

text \<open>The container part of a spelling: the extent between the brackets.\<close>

definition parse_extent :: "string \<Rightarrow> Status + CdrSchemaType" where
  "parse_extent extent =
     (if extent = [] then Inr (default_CdrSchemaType\<lparr>ty_container := CkSequence\<rparr>)
      else if take 2 extent = ''<='' then
        (case parseDecimal (drop 2 extent) of
           Inr count \<Rightarrow>
             if count = 0 then Inl (status_error ''ROS 2 bounded sequences require a positive maximum'')
             else Inr (default_CdrSchemaType\<lparr>ty_container := CkSequence, ty_maximum_container_count := count\<rparr>)
         | Inl _ \<Rightarrow> Inl (status_error ''ROS 2 bounded sequences require a positive maximum''))
      else
        (case parseDecimal extent of
           Inr count \<Rightarrow>
             if count = 0 then Inl (status_error ''ROS 2 fixed arrays require a positive extent'')
             else Inr (default_CdrSchemaType\<lparr>ty_container := CkFixedArray, ty_fixed_count := count\<rparr>)
         | Inl _ \<Rightarrow> Inl (status_error ''ROS 2 fixed arrays require a positive extent'')))"

definition parse_base :: "string \<Rightarrow> CdrSchemaType \<Rightarrow> CdrSchemaType" where
  "parse_base base ty =
     (if base = ''bool'' then ty\<lparr>ty_kind := VkBool\<rparr>
      else if base = ''int8'' then ty\<lparr>ty_kind := VkI8\<rparr>
      else if base = ''uint8'' \<or> base = ''byte'' \<or> base = ''char'' then ty\<lparr>ty_kind := VkU8\<rparr>
      else if base = ''int16'' then ty\<lparr>ty_kind := VkI16\<rparr>
      else if base = ''uint16'' then ty\<lparr>ty_kind := VkU16\<rparr>
      else if base = ''int32'' then ty\<lparr>ty_kind := VkI32\<rparr>
      else if base = ''uint32'' then ty\<lparr>ty_kind := VkU32\<rparr>
      else if base = ''int64'' then ty\<lparr>ty_kind := VkI64\<rparr>
      else if base = ''uint64'' then ty\<lparr>ty_kind := VkU64\<rparr>
      else if base = ''float32'' then ty\<lparr>ty_kind := VkF32\<rparr>
      else if base = ''float64'' then ty\<lparr>ty_kind := VkF64\<rparr>
      else if base = ''string'' then ty\<lparr>ty_kind := VkString\<rparr>
      else ty\<lparr>ty_kind := VkStruct, ty_nested_name := normalizeRosType base\<rparr>)"

definition parse_named_base :: "string \<Rightarrow> CdrSchemaType \<Rightarrow> Status + CdrSchemaType" where
  "parse_named_base base ty =
     (if base = ''wstring'' \<or> take 9 base = ''wstring<='' then
        Inl (status_error ''wide ROS 2 strings are not supported by CdrFieldLocator'')
      else if take 8 base = ''string<='' then
        (case parseDecimal (drop 8 base) of
           Inr maximum \<Rightarrow>
             if maximum = 0 then Inl (status_error ''bounded ROS 2 strings require a positive maximum'')
             else Inr (parse_base ''string'' (ty\<lparr>ty_maximum_string_length := maximum\<rparr>))
         | Inl _ \<Rightarrow> Inl (status_error ''bounded ROS 2 strings require a positive maximum''))
      else Inr (parse_base base ty))"

definition parseCdrType :: "string \<Rightarrow> Status + CdrSchemaType" where
  "parseCdrType spelling = (case split_at CHR ''['' spelling of
     (base, None) \<Rightarrow> parse_named_base base default_CdrSchemaType
   | (base, Some rest) \<Rightarrow>
       if last spelling \<noteq> CHR '']'' \<or> CHR ''['' \<in> set rest then Inl (status_error ''unsupported ROS 2 array spelling'')
       else (case parse_extent (butlast rest) of Inl e \<Rightarrow> Inl e | Inr ty \<Rightarrow> parse_named_base base ty))"

definition cachedKind :: "CdrSchemaType \<Rightarrow> CachedKind" where
  "cachedKind ty =
     (if ty_container ty = CkSequence \<or> ty_container ty = CkFixedArray then
        (if ty_kind ty = VkU8 then kCBytes else kUnknown)
      else (case ty_kind ty of
          VkBool \<Rightarrow> kCBool | VkI8 \<Rightarrow> kCI8 | VkU8 \<Rightarrow> kCU8 | VkI16 \<Rightarrow> kCI16 | VkU16 \<Rightarrow> kCU16 | VkI32 \<Rightarrow> kCI32
        | VkU32 \<Rightarrow> kCU32 | VkI64 \<Rightarrow> kCI64 | VkU64 \<Rightarrow> kCU64 | VkF32 \<Rightarrow> kCF32 | VkF64 \<Rightarrow> kCF64
        | VkString \<Rightarrow> kCString | VkStruct \<Rightarrow> kUnknown))"

subsection \<open>The schema bundle\<close>

function lines_of :: "string \<Rightarrow> string list" where
  "lines_of s = (case split_at CHR 0x0A s of (line, None) \<Rightarrow> [line] | (line, Some rest) \<Rightarrow> line # lines_of rest)"
  by auto
termination by (relation "measure length") (auto dest: split_at_shorter [OF sym])

text \<open>A line without its carriage return, its comment and the space around it.\<close>

definition clean_line :: "string \<Rightarrow> string" where
  "clean_line line =
     (let line = (if line \<noteq> [] \<and> last line = CHR 0x0D then butlast line else line) in
      trim (fst (split_at CHR ''#'' line)))"

text \<open>What the parser has so far: the structs and the index of the one it fills.\<close>

type_synonym parse_state = "CdrSchemaStruct list \<times> nat"

definition blank_char :: "char \<Rightarrow> bool" where
  "blank_char c \<longleftrightarrow> c = CHR '' '' \<or> c = CHR 0x09"

definition parse_msg_line :: "string \<Rightarrow> parse_state \<Rightarrow> Status + parse_state" where
  "parse_msg_line line st = (case st of (structs, current) \<Rightarrow>
     let name = normalizeRosType (trim (drop 4 line)) in
     if name = [] then Inl (status_error ''ROS 2 schema bundle contains an empty MSG name'')
     else if length structs = 1 \<and> ss_fields (structs ! 0) = [] \<and> ss_name (structs ! 0) = [] then
       Inr (structs[0 := (structs ! 0)\<lparr>ss_name := name\<rparr>], 0)
     else if (\<exists>s \<in> set structs. normalizeRosType (ss_name s) = name) then
       Inl (status_error ''ROS 2 schema bundle contains a duplicate MSG name'')
     else Inr (structs @ [\<lparr>ss_name = name, ss_fields = []\<rparr>], length structs))"

definition parse_field_line :: "string \<Rightarrow> parse_state \<Rightarrow> Status + parse_state" where
  "parse_field_line line st = (case st of (structs, current) \<Rightarrow>
     let type_spelling = takeWhile (\<lambda>c. \<not> blank_char c) line in
     if type_spelling = line then Inl (status_error ''malformed ROS 2 field declaration'')
     else
       let remainder = trim (drop (length type_spelling + 1) line);
           field_name = takeWhile (\<lambda>c. \<not> blank_char c \<and> c \<noteq> CHR ''='') remainder in
       if field_name = [] then Inl (status_error ''ROS 2 field declaration has no name'')
       else if CHR ''='' \<in> set remainder then Inr (structs, current)
       else (case parseCdrType type_spelling of
           Inl e \<Rightarrow> Inl e
         | Inr ty \<Rightarrow>
             if (\<exists>f \<in> set (ss_fields (structs ! current)). sf_name f = field_name) then
               Inl (status_error ''ROS 2 schema type contains a duplicate field name'')
             else
               Inr (structs[current := (structs ! current)\<lparr>ss_fields := ss_fields (structs ! current)
                      @ [\<lparr>sf_name = field_name, sf_type = ty\<rparr>]\<rparr>], current)))"

definition parse_line :: "string \<Rightarrow> parse_state \<Rightarrow> Status + parse_state" where
  "parse_line raw st =
     (let line = clean_line raw in
      if line = [] \<or> take 3 line = ''==='' then Inr st
      else if take 3 line = ''---'' then
        Inl (status_error ''ROS 2 service/action schemas are not supported by CdrFieldLocator'')
      else if take 4 line = ''MSG:'' then parse_msg_line line st
      else parse_field_line line st)"

fun parse_lines :: "string list \<Rightarrow> parse_state \<Rightarrow> Status + parse_state" where
  "parse_lines [] st = Inr st"
| "parse_lines (line # lines) st = (case parse_line line st of Inl e \<Rightarrow> Inl e | Inr st' \<Rightarrow> parse_lines lines st')"

subsection \<open>Resolving nested types\<close>

definition short_name :: "string \<Rightarrow> string" where
  "short_name s = rev (takeWhile (\<lambda>c. c \<noteq> CHR ''/'') (rev s))"

fun findStruct_loop :: "string \<Rightarrow> CdrSchemaStruct list \<Rightarrow> nat \<Rightarrow> nat option \<Rightarrow> Status + nat" where
  "findStruct_loop name [] index found = (case found of
     None \<Rightarrow> Inl (status_error ''ROS 2 nested type is missing from the concatenated schema bundle'')
   | Some m \<Rightarrow> Inr m)"
| "findStruct_loop name (s # ss) index found =
     (let normalized = normalizeRosType (ss_name s) in
      if normalized = name \<or> short_name normalized = name then
        (if found \<noteq> None then Inl (status_error ''ROS 2 nested type name is ambiguous in the schema bundle'')
         else findStruct_loop name ss (index + 1) (Some index))
      else findStruct_loop name ss (index + 1) found)"

definition findStruct :: "CdrSchemaStruct list \<Rightarrow> string \<Rightarrow> Status + nat" where
  "findStruct structs name = findStruct_loop name structs 0 None"

text \<open>The two nested loops that set \<open>nested_index\<close>; names do not change, so they are looked up in the old list.\<close>

fun map_status :: "('a \<Rightarrow> Status + 'b) \<Rightarrow> 'a list \<Rightarrow> Status + 'b list" where
  "map_status f [] = Inr []"
| "map_status f (x # xs) = (case f x of
     Inl e \<Rightarrow> Inl e
   | Inr y \<Rightarrow> (case map_status f xs of Inl e \<Rightarrow> Inl e | Inr ys \<Rightarrow> Inr (y # ys)))"

definition resolve_field :: "CdrSchemaStruct list \<Rightarrow> CdrSchemaField \<Rightarrow> Status + CdrSchemaField" where
  "resolve_field structs f =
     (if ty_kind (sf_type f) \<noteq> VkStruct then Inr f
      else (case findStruct structs (ty_nested_name (sf_type f)) of
          Inl e \<Rightarrow> Inl e
        | Inr n \<Rightarrow> Inr (f\<lparr>sf_type := (sf_type f)\<lparr>ty_nested_index := Some n\<rparr>\<rparr>)))"

definition resolve_struct :: "CdrSchemaStruct list \<Rightarrow> CdrSchemaStruct \<Rightarrow> Status + CdrSchemaStruct" where
  "resolve_struct structs s = (case map_status (resolve_field structs) (ss_fields s) of
     Inl e \<Rightarrow> Inl e
   | Inr fs \<Rightarrow> Inr (s\<lparr>ss_fields := fs\<rparr>))"

text \<open>Depth-first search for cycles: 1 marks a type on the way, 2 a finished one.\<close>

fun validate_fields :: "(nat \<Rightarrow> nat list \<Rightarrow> Status + nat list) \<Rightarrow> CdrSchemaField list \<Rightarrow> nat list \<Rightarrow> Status + nat list" where
  "validate_fields rec [] visit = Inr visit"
| "validate_fields rec (f # fs) visit =
     (if ty_kind (sf_type f) \<noteq> VkStruct then validate_fields rec fs visit
      else (case rec (the (ty_nested_index (sf_type f))) visit of
          Inl e \<Rightarrow> Inl e
        | Inr visit' \<Rightarrow> validate_fields rec fs visit'))"

fun validateSchemaGraph :: "CdrSchemaStruct list \<Rightarrow> nat \<Rightarrow> nat \<Rightarrow> nat list \<Rightarrow> Status + nat list" where
  "validateSchemaGraph structs 0 index visit = Inl (status_error ''ROS 2 schema nesting depth exceeds 64'')"
| "validateSchemaGraph structs (Suc left) index visit =
     (if visit ! index = 1 then Inl (status_error ''ROS 2 schema contains a cyclic nested type'')
      else if visit ! index = 2 then Inr visit
      else (case validate_fields (validateSchemaGraph structs left) (ss_fields (structs ! index)) (visit[index := 1]) of
          Inl e \<Rightarrow> Inl e
        | Inr visit' \<Rightarrow> Inr (visit'[index := 2])))"

fun validate_all :: "CdrSchemaStruct list \<Rightarrow> nat list \<Rightarrow> nat list \<Rightarrow> Status + nat list" where
  "validate_all structs [] visit = Inr visit"
| "validate_all structs (i # is) visit = (case validateSchemaGraph structs kMaxTraversalDepth i visit of
     Inl e \<Rightarrow> Inl e
   | Inr visit' \<Rightarrow> validate_all structs is visit')"

definition parse_schema :: "string \<Rightarrow> Status + CdrSchemaStruct list" where
  "parse_schema schema =
     (if schema = [] then Inl (status_error ''ROS 2 .msg schema bundle is empty'')
      else (case parse_lines (lines_of schema) ([\<lparr>ss_name = [], ss_fields = []\<rparr>], 0) of
          Inl e \<Rightarrow> Inl e
        | Inr (structs, current) \<Rightarrow>
            if ss_fields (structs ! 0) = [] then Inl (status_error ''ROS 2 .msg root type has no fields'')
            else (case map_status (resolve_struct structs) structs of
                Inl e \<Rightarrow> Inl e
              | Inr resolved \<Rightarrow>
                  (case validate_all resolved [0..<length resolved] (replicate (length resolved) 0) of
                     Inl e \<Rightarrow> Inl e
                   | Inr _ \<Rightarrow> Inr resolved))))"

subsection \<open>Compiling paths\<close>

text \<open>The first field of that name.\<close>

fun find_name :: "string \<Rightarrow> CdrSchemaField list \<Rightarrow> (nat \<times> CdrSchemaType) option" where
  "find_name n [] = None"
| "find_name n (f # fs) =
     (if sf_name f = n then Some (0, sf_type f) else map_option (\<lambda>(i, ty). (i + 1, ty)) (find_name n fs))"

function compilePath_loop ::
    "CdrSchemaStruct list \<Rightarrow> string \<Rightarrow> nat \<Rightarrow> nat list \<Rightarrow> Status + nat list \<times> CachedKind" where
  "compilePath_loop structs path struct_index steps =
     (if path = [] then Inl (status_error ''CDR field path is malformed'')
      else (case split_at CHR ''.'' path of (component, rest) \<Rightarrow>
        if component = [] then Inl (status_error ''CDR field path contains an empty component'')
        else (case find_name component (ss_fields (structs ! struct_index)) of
            None \<Rightarrow> Inl (status_error ''CDR field path is absent from the ROS 2 schema'')
          | Some (field_index, ty) \<Rightarrow>
              (case rest of
                 None \<Rightarrow>
                   if cachedKind ty = kUnknown then
                     Inl (status_error ''requested CDR terminal field has an unsupported type'')
                   else Inr (steps @ [field_index], cachedKind ty)
               | Some tail \<Rightarrow>
                   if ty_kind ty \<noteq> VkStruct \<or> ty_container ty \<noteq> CkScalar then
                     Inl (status_error ''CDR field path may descend only through scalar nested structs'')
                   else if length steps + 1 \<ge> kMaxTraversalDepth then
                     Inl (status_error ''CDR field path depth exceeds 64'')
                   else compilePath_loop structs tail (the (ty_nested_index ty)) (steps @ [field_index])))))"
  by auto
termination by (relation "measure (\<lambda>(structs, path, i, steps). length path)") (auto dest: split_at_shorter [OF sym])

declare lines_of.simps [simp del] compilePath_loop.simps [simp del]

text \<open>The first line, for evaluation on concrete schemas.\<close>

lemma lines_of_line:
  "CHR 0x0A \<notin> set a \<Longrightarrow> lines_of (a @ CHR 0x0A # b) = a # lines_of b"
  "CHR 0x0A \<notin> set a \<Longrightarrow> lines_of a = [a]"
  by (simp_all add: lines_of.simps [of "a @ _"] lines_of.simps [of a] split_at_append)

definition compilePath :: "CdrSchemaStruct list \<Rightarrow> string \<Rightarrow> Status + CdrRequestedField" where
  "compilePath structs path =
     (if path = [] then Inl (status_error ''CDR field path is empty'')
      else (case compilePath_loop structs path 0 [] of
          Inl e \<Rightarrow> Inl e
        | Inr (steps, kind) \<Rightarrow> Inr \<lparr>rf_path = path, rf_steps = steps, rf_cached_kind = kind\<rparr>))"

fun locate_loop :: "CdrSchemaStruct list \<Rightarrow> string list \<Rightarrow> CdrRequestedField list \<Rightarrow> Status + CdrRequestedField list" where
  "locate_loop structs [] requested = Inr requested"
| "locate_loop structs (path # paths) requested = (case compilePath structs path of
     Inl e \<Rightarrow> Inl e
   | Inr request \<Rightarrow>
       if (\<exists>existing \<in> set requested. rf_path existing = rf_path request) then
         Inl (status_error ''duplicate CDR field path requested'')
       else locate_loop structs paths (requested @ [request]))"

text \<open>The locator: the schema, or the status of the failed parse; and a plan for a list of paths.\<close>

definition CdrFieldLocator :: "string \<Rightarrow> Status + CdrSchemaStruct list" where
  "CdrFieldLocator schema = parse_schema schema"

definition locate :: "Status + CdrSchemaStruct list \<Rightarrow> string list \<Rightarrow> Status + CdrTraversalPlan" where
  "locate locator paths = (case locator of
     Inl e \<Rightarrow> Inl e
   | Inr structs \<Rightarrow> (case locate_loop structs paths [] of
       Inl e \<Rightarrow> Inl e
     | Inr requested \<Rightarrow>
         if requested = [] then Inl (status_error ''at least one CDR field path is required'')
         else Inr \<lparr>tp_structs = structs, tp_requested = requested\<rparr>))"

fun find_path :: "string \<Rightarrow> CdrRequestedField list \<Rightarrow> nat \<Rightarrow> Status + nat" where
  "find_path path [] index = Inl (status_error ''field path is not present in the CDR traversal plan'')"
| "find_path path (r # rs) index = (if rf_path r = path then Inr index else find_path path rs (index + 1))"

definition plan_field :: "CdrTraversalPlan \<Rightarrow> string \<Rightarrow> Status + nat" where
  "plan_field plan path = find_path path (tp_requested plan) 0"

subsection \<open>Walking a payload\<close>

definition primitiveSize :: "CdrValueKind \<Rightarrow> nat" where
  "primitiveSize kind = (case kind of
     VkBool \<Rightarrow> 1 | VkI8 \<Rightarrow> 1 | VkU8 \<Rightarrow> 1 | VkI16 \<Rightarrow> 2 | VkU16 \<Rightarrow> 2 | VkI32 \<Rightarrow> 4 | VkU32 \<Rightarrow> 4 | VkF32 \<Rightarrow> 4
   | VkI64 \<Rightarrow> 8 | VkU64 \<Rightarrow> 8 | VkF64 \<Rightarrow> 8 | VkString \<Rightarrow> 1 | VkStruct \<Rightarrow> 1)"

fun minimum_of_fields :: "(CdrSchemaType \<Rightarrow> Status + u64) \<Rightarrow> CdrSchemaField list \<Rightarrow> u64 \<Rightarrow> Status + u64" where
  "minimum_of_fields rec [] acc = Inr acc"
| "minimum_of_fields rec (f # fs) acc = (case rec (sf_type f) of
     Inl e \<Rightarrow> Inl e
   | Inr minimum \<Rightarrow>
       if ty_container (sf_type f) = CkFixedArray \<and> minimum > - 1 div ty_fixed_count (sf_type f) then
         Inl (status_error ''CDR schema minimum size overflows the host size type'')
       else
         let field_minimum = (case ty_container (sf_type f) of
                CkSequence \<Rightarrow> 4 | CkFixedArray \<Rightarrow> minimum * ty_fixed_count (sf_type f) | CkScalar \<Rightarrow> minimum) in
         if field_minimum > - 1 - acc then
           Inl (status_error ''CDR schema minimum size overflows the host size type'')
         else minimum_of_fields rec fs (acc + field_minimum))"

text \<open>The first argument is the depth that is left: \<open>kMaxTraversalDepth\<close> minus the depth of the source.\<close>

fun minimumSize :: "CdrSchemaStruct list \<Rightarrow> nat \<Rightarrow> CdrSchemaType \<Rightarrow> Status + u64" where
  "minimumSize structs 0 ty =
     (if ty_kind ty = VkString then Inr 5
      else if ty_kind ty \<noteq> VkStruct then Inr (of_nat (primitiveSize (ty_kind ty)))
      else Inl (status_error ''CDR schema nesting depth exceeds 64''))"
| "minimumSize structs (Suc left) ty =
     (if ty_kind ty = VkString then Inr 5
      else if ty_kind ty \<noteq> VkStruct then Inr (of_nat (primitiveSize (ty_kind ty)))
      else minimum_of_fields (minimumSize structs left) (ss_fields (structs ! the (ty_nested_index ty))) 0)"

definition status_message :: "Status \<Rightarrow> string" where
  "status_message s = (case s of StOk \<Rightarrow> [] | StDecline m \<Rightarrow> m | StError m \<Rightarrow> m)"

text \<open>Remembering where a requested field is.\<close>

definition cache_field :: "nat option \<Rightarrow> CachedKind \<Rightarrow> nat \<Rightarrow> nat \<Rightarrow> CdrReader \<Rightarrow> CdrReader" where
  "cache_field requested_id kind offset sz r = (case requested_id of
     None \<Rightarrow> r
   | Some i \<Rightarrow> r\<lparr>cr_cached_fields := (cr_cached_fields r)[i :=
       \<lparr>cf_kind = kind, cf_offset = offset, cf_size = sz, cf_located = True\<rparr>]\<rparr>)"

text \<open>Skipping octets: a byte sequence or array of the given size.\<close>

definition walk_bytes :: "nat \<Rightarrow> nat option \<Rightarrow> CdrReader \<Rightarrow> (Status + unit) \<times> CdrReader" where
  "walk_bytes count requested_id r =
     (Inr (), cache_field requested_id kCBytes (cr_position r) count (r\<lparr>cr_position := cr_position r + count\<rparr>))"

definition walk_string :: "CdrSchemaType \<Rightarrow> nat option \<Rightarrow> CdrReader \<Rightarrow> (Status + unit) \<times> CdrReader" where
  "walk_string ty requested_id r = cdr_bind (readU32 r) (\<lambda>len r.
     if len = 0 \<or> unat len > remaining r then cdr_fail ''invalid CDR string length'' r
     else if ty_maximum_string_length ty \<noteq> 0 \<and> ucast (len - 1) > ty_maximum_string_length ty then
       cdr_fail ''CDR bounded-string length exceeds its schema maximum'' r
     else if payload_at r (cr_position r + unat len - 1) \<noteq> 0 then cdr_fail ''CDR string is not NUL terminated'' r
     else (Inr (), cache_field requested_id kCString (cr_position r) (unat len - 1)
                     (r\<lparr>cr_position := cr_position r + unat len\<rparr>)))"

definition walk_primitive :: "CdrSchemaType \<Rightarrow> nat option \<Rightarrow> CdrReader \<Rightarrow> (Status + unit) \<times> CdrReader" where
  "walk_primitive ty requested_id r = (let width = primitiveSize (ty_kind ty) in
     cdr_bind (align width r) (\<lambda>_ r.
       if width > remaining r then cdr_fail ''truncated CDR primitive while locating fields'' r
       else if ty_kind ty = VkBool \<and> payload_at r (cr_position r) > 1 then cdr_fail ''CDR bool is not 0 or 1'' r
       else (Inr (), cache_field requested_id (cachedKind ty) (cr_position r) width
                       (r\<lparr>cr_position := cr_position r + width\<rparr>))))"

text \<open>A scalar; \<open>nested\<close> walks a struct one level deeper.\<close>

definition walk_scalar :: "(nat \<Rightarrow> CdrReader \<Rightarrow> (Status + unit) \<times> CdrReader)
    \<Rightarrow> CdrSchemaType \<Rightarrow> nat option \<Rightarrow> CdrReader \<Rightarrow> (Status + unit) \<times> CdrReader" where
  "walk_scalar nested ty requested_id r =
     (if ty_kind ty = VkStruct then nested (the (ty_nested_index ty)) r
      else if ty_kind ty = VkString then walk_string ty requested_id r
      else walk_primitive ty requested_id r)"

text \<open>The element loop of sequences and arrays; every element has to consume input.\<close>

fun walk_elements :: "string \<Rightarrow> (CdrReader \<Rightarrow> (Status + unit) \<times> CdrReader) \<Rightarrow> nat \<Rightarrow> CdrReader
    \<Rightarrow> (Status + unit) \<times> CdrReader" where
  "walk_elements stuck element 0 r = (Inr (), r)"
| "walk_elements stuck element (Suc n) r =
     cdr_bind (element r) (\<lambda>_ s.
       if cr_position s \<le> cr_position r then cdr_fail stuck s else walk_elements stuck element n s)"

definition walkValue :: "CdrSchemaStruct list \<Rightarrow> (nat \<Rightarrow> CdrReader \<Rightarrow> (Status + unit) \<times> CdrReader)
    \<Rightarrow> CdrSchemaType \<Rightarrow> nat option \<Rightarrow> bool \<Rightarrow> CdrReader \<Rightarrow> (Status + unit) \<times> CdrReader" where
  "walkValue structs nested ty requested_id has_descendant r =
     (if has_descendant \<and> (ty_kind ty \<noteq> VkStruct \<or> ty_container ty \<noteq> CkScalar) then
        cdr_fail ''CDR field path descends through a non-scalar nested struct'' r
      else (case ty_container ty of
        CkSequence \<Rightarrow>
          cdr_bind (readU32 r) (\<lambda>count r.
            if ty_maximum_container_count ty \<noteq> 0 \<and> ucast count > ty_maximum_container_count ty then
              cdr_fail ''CDR bounded-sequence length exceeds its schema maximum'' r
            else if ty_kind ty = VkU8 then
              (if unat count > remaining r then
                 cdr_fail ''CDR byte-sequence length exceeds the remaining payload'' r
               else walk_bytes (unat count) requested_id r)
            else (case minimumSize structs kMaxTraversalDepth ty of
                Inl e \<Rightarrow> cdr_fail (status_message e) r
              | Inr minimum \<Rightarrow>
                  if count \<noteq> 0 \<and> minimum = 0 then
                    cdr_fail ''CDR sequence element has zero serialized minimum size'' r
                  else if minimum \<noteq> 0 \<and> unat count > remaining r div unat minimum then
                    cdr_fail ''CDR sequence length exceeds the remaining payload'' r
                  else walk_elements ''CDR sequence element did not consume input''
                    (walk_scalar nested (ty\<lparr>ty_container := CkScalar\<rparr>) None) (unat count) r))
      | CkFixedArray \<Rightarrow>
          (if ty_kind ty = VkU8 then
             (if unat (ty_fixed_count ty) > remaining r then cdr_fail ''truncated CDR fixed byte array'' r
              else walk_bytes (unat (ty_fixed_count ty)) requested_id r)
           else (case minimumSize structs kMaxTraversalDepth ty of
               Inl e \<Rightarrow> cdr_fail (status_message e) r
             | Inr minimum \<Rightarrow>
                 if ty_fixed_count ty \<noteq> 0 \<and> minimum = 0 then
                   cdr_fail ''CDR fixed-array element has zero serialized minimum size'' r
                 else walk_elements ''CDR fixed-array element did not consume input''
                   (walk_scalar nested (ty\<lparr>ty_container := CkScalar\<rparr>) None) (unat (ty_fixed_count ty)) r))
      | CkScalar \<Rightarrow> walk_scalar nested ty requested_id r))"


text \<open>
  The loop over the requests for one field: the request that ends at this path (the last one, should
  there be several), and whether one goes on below it.
\<close>

fun scan_requests :: "CdrRequestedField list \<Rightarrow> nat \<Rightarrow> nat list \<Rightarrow> nat option \<Rightarrow> bool \<Rightarrow> nat option \<times> bool" where
  "scan_requests [] index path requested_id has_descendant = (requested_id, has_descendant)"
| "scan_requests (request # rest) index path requested_id has_descendant =
     (if length (rf_steps request) < length path then scan_requests rest (index + 1) path requested_id has_descendant
      else
        let prefix_matches = (take (length path) (rf_steps request) = path) in
        if prefix_matches \<and> length (rf_steps request) = length path then
          scan_requests rest (index + 1) path (Some index) has_descendant
        else scan_requests rest (index + 1) path requested_id (has_descendant \<or> prefix_matches))"

fun walk_fields :: "(nat list \<Rightarrow> CdrSchemaType \<Rightarrow> CdrReader \<Rightarrow> (Status + unit) \<times> CdrReader)
    \<Rightarrow> nat list \<Rightarrow> nat \<Rightarrow> CdrSchemaField list \<Rightarrow> CdrReader \<Rightarrow> (Status + unit) \<times> CdrReader" where
  "walk_fields walk path index [] r = (Inr (), r)"
| "walk_fields walk path index (f # fs) r =
     cdr_bind (walk (path @ [index]) (sf_type f) r) (\<lambda>_ r. walk_fields walk path (index + 1) fs r)"

text \<open>The path of field indices above the struct stands for the array of the code up to the current depth.\<close>

fun walkStruct :: "CdrTraversalPlan \<Rightarrow> nat \<Rightarrow> nat list \<Rightarrow> nat \<Rightarrow> CdrReader \<Rightarrow> (Status + unit) \<times> CdrReader" where
  "walkStruct plan 0 path struct_index r = cdr_fail ''CDR traversal depth exceeds 64'' r"
| "walkStruct plan (Suc left) path struct_index r =
     walk_fields (\<lambda>path ty r.
       case scan_requests (tp_requested plan) 0 path None False of (requested_id, has_descendant) \<Rightarrow>
         walkValue (tp_structs plan) (walkStruct plan left path) ty requested_id has_descendant r)
       path 0 (ss_fields (tp_structs plan ! struct_index)) r"

definition locateAll :: "CdrTraversalPlan \<Rightarrow> CdrReader \<Rightarrow> (Status + unit) \<times> CdrReader" where
  "locateAll plan r =
     (if \<not> isOk (cr_status r) then (Inl (cr_status r), r)
      else cdr_bind (walkStruct plan kMaxTraversalDepth [] 0 r) (\<lambda>_ r.
        if list_all cf_located (cr_cached_fields r) then (Inr (), r)
        else cdr_fail ''requested CDR field was not reached during traversal'' r))"

subsection \<open>Planned readers\<close>

definition default_CachedField :: CachedField where
  "default_CachedField = \<lparr>cf_kind = kUnknown, cf_offset = 0, cf_size = 0, cf_located = False\<rparr>"

definition planned_reader :: "buffer \<Rightarrow> CdrTraversalPlan \<Rightarrow> CdrReader" where
  "planned_reader payload plan =
     (let r = cdr_reader payload in
      if \<not> isOk (cr_status r) then r
      else r\<lparr>cr_cached_fields := replicate (length (tp_requested plan)) default_CachedField\<rparr>)"

definition ensurePlannedFields :: "CdrTraversalPlan option \<Rightarrow> CdrReader \<Rightarrow> (Status + unit) \<times> CdrReader" where
  "ensurePlannedFields plan r =
     (if \<not> isOk (cr_status r) then (Inl (cr_status r), r)
      else (case plan of
          None \<Rightarrow> cdr_fail ''CDR field access requires a traversal plan'' r
        | Some p \<Rightarrow>
            if cr_traversal_count r = 0 then
              (case locateAll p (r\<lparr>cr_traversal_count := cr_traversal_count r + 1,
                                   cr_position := cr_data_origin r, cr_depth := 0\<rparr>) of
                 (Inl e, r') \<Rightarrow> (Inl e, r'\<lparr>cr_status := e\<rparr>)
               | (Inr _, r') \<Rightarrow> (Inr (), r'\<lparr>cr_status := StOk\<rparr>))
            else (Inr (), r)))"

definition cached :: "CdrTraversalPlan option \<Rightarrow> nat \<Rightarrow> CachedKind \<Rightarrow> CdrReader \<Rightarrow> (Status + CachedField) \<times> CdrReader" where
  "cached plan field expected r = cdr_bind (ensurePlannedFields plan r) (\<lambda>_ r.
     if field \<ge> length (cr_cached_fields r) then cdr_fail ''CDR field id is outside the traversal plan'' r
     else
       let v = cr_cached_fields r ! field in
       if \<not> cf_located v \<or> cf_kind v \<noteq> expected then
         cdr_fail ''CDR field accessor does not match the planned field type'' r
       else (Inr v, r))"

text \<open>
  Accessors read the payload at the remembered offset without a test of their own; the model lists
  the octets it reads, so that reading past the end would give fewer of them.
\<close>

definition cachedUnsigned :: "CdrTraversalPlan option \<Rightarrow> nat \<Rightarrow> CachedKind \<Rightarrow> nat \<Rightarrow> CdrReader \<Rightarrow> (Status + u64) \<times> CdrReader" where
  "cachedUnsigned plan field kind width r = cdr_bind (cached plan field kind r) (\<lambda>v r.
     (Inr (bytes_value (cr_little_endian r) (payload_slice r (cf_offset v) width)), r))"

definition field_u32 :: "CdrTraversalPlan option \<Rightarrow> nat \<Rightarrow> CdrReader \<Rightarrow> (Status + u32) \<times> CdrReader" where
  "field_u32 plan field r = cdr_bind (cachedUnsigned plan field kCU32 4 r) (\<lambda>v r. (Inr (ucast v), r))"

definition field_boolean :: "CdrTraversalPlan option \<Rightarrow> nat \<Rightarrow> CdrReader \<Rightarrow> (Status + bool) \<times> CdrReader" where
  "field_boolean plan field r = cdr_bind (cachedUnsigned plan field kCBool 1 r) (\<lambda>v r.
     if v > 1 then cdr_fail ''CDR bool is not 0 or 1'' r else (Inr (v \<noteq> 0), r))"

definition field_u8 :: "CdrTraversalPlan option \<Rightarrow> nat \<Rightarrow> CdrReader \<Rightarrow> (Status + u8) \<times> CdrReader" where
  "field_u8 plan field r = cdr_bind (cachedUnsigned plan field kCU8 1 r) (\<lambda>v r. (Inr (ucast v), r))"

definition field_u16 :: "CdrTraversalPlan option \<Rightarrow> nat \<Rightarrow> CdrReader \<Rightarrow> (Status + u16) \<times> CdrReader" where
  "field_u16 plan field r = cdr_bind (cachedUnsigned plan field kCU16 2 r) (\<lambda>v r. (Inr (ucast v), r))"

definition field_u64 :: "CdrTraversalPlan option \<Rightarrow> nat \<Rightarrow> CdrReader \<Rightarrow> (Status + u64) \<times> CdrReader" where
  "field_u64 plan field r = cachedUnsigned plan field kCU64 8 r"

text \<open>\<open>cachedBits\<close> copies the bits of the unsigned field: signed integers and floats as bit patterns.\<close>

definition field_i8 :: "CdrTraversalPlan option \<Rightarrow> nat \<Rightarrow> CdrReader \<Rightarrow> (Status + u8) \<times> CdrReader" where
  "field_i8 plan field r = cdr_bind (cachedUnsigned plan field kCI8 1 r) (\<lambda>v r. (Inr (ucast v), r))"

definition field_i16 :: "CdrTraversalPlan option \<Rightarrow> nat \<Rightarrow> CdrReader \<Rightarrow> (Status + u16) \<times> CdrReader" where
  "field_i16 plan field r = cdr_bind (cachedUnsigned plan field kCI16 2 r) (\<lambda>v r. (Inr (ucast v), r))"

definition field_i32 :: "CdrTraversalPlan option \<Rightarrow> nat \<Rightarrow> CdrReader \<Rightarrow> (Status + u32) \<times> CdrReader" where
  "field_i32 plan field r = cdr_bind (cachedUnsigned plan field kCI32 4 r) (\<lambda>v r. (Inr (ucast v), r))"

definition field_i64 :: "CdrTraversalPlan option \<Rightarrow> nat \<Rightarrow> CdrReader \<Rightarrow> (Status + u64) \<times> CdrReader" where
  "field_i64 plan field r = cachedUnsigned plan field kCI64 8 r"

definition field_f32 :: "CdrTraversalPlan option \<Rightarrow> nat \<Rightarrow> CdrReader \<Rightarrow> (Status + f32) \<times> CdrReader" where
  "field_f32 plan field r = cdr_bind (cachedUnsigned plan field kCF32 4 r) (\<lambda>v r. (Inr (ucast v), r))"

definition field_f64 :: "CdrTraversalPlan option \<Rightarrow> nat \<Rightarrow> CdrReader \<Rightarrow> (Status + f64) \<times> CdrReader" where
  "field_f64 plan field r = cachedUnsigned plan field kCF64 8 r"

definition field_string :: "CdrTraversalPlan option \<Rightarrow> nat \<Rightarrow> CdrReader \<Rightarrow> (Status + bytes) \<times> CdrReader" where
  "field_string plan field r = cdr_bind (cached plan field kCString r) (\<lambda>v r.
     (Inr (payload_slice r (cf_offset v) (cf_size v)), r))"

definition field_bytes :: "CdrTraversalPlan option \<Rightarrow> nat \<Rightarrow> CdrReader \<Rightarrow> (Status + bytes) \<times> CdrReader" where
  "field_bytes plan field r = cdr_bind (cached plan field kCBytes r) (\<lambda>v r.
     (Inr (payload_slice r (cf_offset v) (cf_size v)), r))"

definition field_spanRef :: "CdrTraversalPlan option \<Rightarrow> nat \<Rightarrow> CdrReader \<Rightarrow> (Status + nat \<times> nat) \<times> CdrReader" where
  "field_spanRef plan field r = cdr_bind (cached plan field kCBytes r) (\<lambda>v r. (Inr (cf_offset v, cf_size v), r))"

subsection \<open>Parsed schemas are well formed\<close>

text \<open>Every nested type of every field has been found: the walk never leaves the list of structs.\<close>

definition schema_ok :: "CdrSchemaStruct list \<Rightarrow> bool" where
  "schema_ok structs \<longleftrightarrow> structs \<noteq> [] \<and>
     (\<forall>s \<in> set structs. \<forall>f \<in> set (ss_fields s). ty_kind (sf_type f) = VkStruct \<longrightarrow>
        (\<exists>n < length structs. ty_nested_index (sf_type f) = Some n))"

lemma parse_line_state:
  assumes "parse_line line (structs, current) = Inr (structs', current')" "structs \<noteq> []" "current < length structs"
  shows "structs' \<noteq> [] \<and> current' < length structs'"
  using assms
  by (auto simp: parse_line_def parse_msg_line_def parse_field_line_def Let_def split: if_splits sum.splits)

lemma parse_lines_state:
  "parse_lines lines (structs, current) = Inr (structs', current') \<Longrightarrow> structs \<noteq> [] \<Longrightarrow> current < length structs \<Longrightarrow>
     structs' \<noteq> [] \<and> current' < length structs'"
proof (induction lines arbitrary: structs current)
  case (Cons line lines)
  then show ?case
    by (auto split: sum.splits dest!: parse_line_state)
qed simp

lemma findStruct_loop_bound:
  "findStruct_loop name ss index found = Inr n \<Longrightarrow> (\<forall>m. found = Some m \<longrightarrow> m < index) \<Longrightarrow> n < index + length ss"
  by (induction name ss index found rule: findStruct_loop.induct)
    (auto simp: Let_def less_SucI split: if_splits option.splits)

lemma findStruct_bound: "findStruct structs name = Inr n \<Longrightarrow> n < length structs"
  using findStruct_loop_bound [of name structs 0 None n] by (simp add: findStruct_def)

lemma map_status_Inr: "map_status f xs = Inr ys \<longleftrightarrow> list_all2 (\<lambda>x y. f x = Inr y) xs ys"
proof (induction xs arbitrary: ys)
  case (Cons x xs)
  show ?case by (cases ys) (auto simp: Cons.IH [symmetric] split: sum.splits)
qed auto

lemma resolve_field_ok:
  "resolve_field structs f = Inr f' \<Longrightarrow> ty_kind (sf_type f') = VkStruct \<Longrightarrow>
     \<exists>n < length structs. ty_nested_index (sf_type f') = Some n"
  by (auto simp: resolve_field_def findStruct_bound split: if_splits sum.splits)

lemma parse_schema_ok:
  assumes "parse_schema schema = Inr structs"
  shows "schema_ok structs"
proof -
  from assms obtain old current where p: "parse_lines (lines_of schema) ([\<lparr>ss_name = [], ss_fields = []\<rparr>], 0) = Inr (old, current)"
    "map_status (resolve_struct old) old = Inr structs"
    by (auto simp: parse_schema_def split: if_splits sum.splits)
  from parse_lines_state [OF p(1)] have "old \<noteq> []" by simp
  have all: "list_all2 (\<lambda>s s'. resolve_struct old s = Inr s') old structs"
    using p(2) by (simp add: map_status_Inr)
  then have len: "length structs = length old" by (simp add: list_all2_lengthD)
  have "\<exists>n < length old. ty_nested_index (sf_type f) = Some n"
    if "s \<in> set structs" "f \<in> set (ss_fields s)" "ty_kind (sf_type f) = VkStruct" for s f
  proof -
    from that(1) all obtain s0 where "resolve_struct old s0 = Inr s"
      by (auto simp: list_all2_conv_all_nth in_set_conv_nth)
    then obtain fs where "map_status (resolve_field old) (ss_fields s0) = Inr fs" "ss_fields s = fs"
      by (auto simp: resolve_struct_def split: sum.splits)
    with that(2) obtain f0 where "resolve_field old f0 = Inr f"
      by (auto simp: map_status_Inr list_all2_conv_all_nth in_set_conv_nth)
    then show ?thesis using that(3) by (rule resolve_field_ok)
  qed
  then show ?thesis using \<open>old \<noteq> []\<close> len by (auto simp: schema_ok_def)
qed

subsection \<open>What a walk does to the reader\<close>

text \<open>A number is as wide as its kind says.\<close>

definition kind_width :: "CachedKind \<Rightarrow> nat option" where
  "kind_width k = (case k of
     kCBool \<Rightarrow> Some 1 | kCI8 \<Rightarrow> Some 1 | kCU8 \<Rightarrow> Some 1 | kCI16 \<Rightarrow> Some 2 | kCU16 \<Rightarrow> Some 2 | kCI32 \<Rightarrow> Some 4
   | kCU32 \<Rightarrow> Some 4 | kCI64 \<Rightarrow> Some 8 | kCU64 \<Rightarrow> Some 8 | kCF32 \<Rightarrow> Some 4 | kCF64 \<Rightarrow> Some 8 | _ \<Rightarrow> None)"

definition field_sound :: "CdrReader \<Rightarrow> CachedField \<Rightarrow> bool" where
  "field_sound r cf \<longleftrightarrow> (cf_located cf \<longrightarrow>
     cr_data_origin r \<le> cf_offset cf \<and> cf_offset cf + cf_size cf \<le> buffer_size (cr_payload r)
     \<and> (\<forall>w. kind_width (cf_kind cf) = Some w \<longrightarrow> cf_size cf = w))"

definition cached_sound :: "CdrReader \<Rightarrow> bool" where
  "cached_sound r \<longleftrightarrow> list_all (field_sound r) (cr_cached_fields r)"

definition walk_step :: "CdrReader \<Rightarrow> CdrReader \<Rightarrow> bool" where
  "walk_step r r' \<longleftrightarrow> reader_step r (r'\<lparr>cr_cached_fields := cr_cached_fields r\<rparr>)
     \<and> length (cr_cached_fields r') = length (cr_cached_fields r)
     \<and> (inside r \<and> cached_sound r \<longrightarrow> cached_sound r')"

lemma inside_simps [simp]: "inside (r\<lparr>cr_cached_fields := c\<rparr>) = inside r" "inside (r\<lparr>cr_status := s\<rparr>) = inside r"
  by (simp_all add: inside_def)

lemma field_sound_simps [simp]: "field_sound (r\<lparr>cr_position := p\<rparr>) = field_sound r"
  "field_sound (r\<lparr>cr_cached_fields := c\<rparr>) = field_sound r" "field_sound (r\<lparr>cr_status := s\<rparr>) = field_sound r"
  by (auto simp: field_sound_def fun_eq_iff)

lemma walk_step_reader:
  assumes "reader_step r r'"
  shows "walk_step r r'"
proof -
  have same: "cr_cached_fields r' = cr_cached_fields r" using assms by (simp add: reader_step_def)
  then have upd: "r'\<lparr>cr_cached_fields := cr_cached_fields r\<rparr> = r'" by (metis CdrReader.surjective CdrReader.update_convs(7))
  have "field_sound r' = field_sound r"
    using assms by (simp add: reader_step_def field_sound_def fun_eq_iff)
  then have "cached_sound r' = cached_sound r" by (simp add: cached_sound_def same)
  then show ?thesis unfolding walk_step_def upd using assms same by simp
qed

lemma walk_step_refl [simp]: "walk_step r r"
  by (rule walk_step_reader) simp

lemma walk_step_trans: "walk_step r s \<Longrightarrow> walk_step s t \<Longrightarrow> walk_step r t"
  by (auto simp: walk_step_def reader_step_def)

lemma walk_step_fail [simp]: "walk_step r (snd (cdr_fail m r))"
  by (rule walk_step_reader) simp

lemma walk_step_bind:
  assumes "walk_step r (snd x)" "\<And>a s. x = (Inr a, s) \<Longrightarrow> walk_step s (snd (f a s))"
  shows "walk_step r (snd (cdr_bind x f))"
  using assms by (cases x; cases "fst x") (auto simp: cdr_bind_def intro: walk_step_trans)

lemma walk_step_cache:
  assumes "sz \<le> n" "n \<le> remaining r" "\<forall>w. kind_width kind = Some w \<longrightarrow> sz = w"
  shows "walk_step r (cache_field requested_id kind (cr_position r) sz (r\<lparr>cr_position := cr_position r + n\<rparr>))"
proof -
  let ?r = "r\<lparr>cr_position := cr_position r + n\<rparr>"
  have step: "reader_step r ?r" using assms(2) by (rule reader_step_advance)
  show ?thesis
  proof (cases requested_id)
    case None
    then show ?thesis using walk_step_reader [OF step] by (simp add: cache_field_def)
  next
    case (Some i)
    have "inside r \<Longrightarrow> field_sound r \<lparr>cf_kind = kind, cf_offset = cr_position r, cf_size = sz, cf_located = True\<rparr>"
      using assms by (auto simp: field_sound_def inside_def remaining_def split: if_splits)
    then have "inside r \<and> cached_sound r \<longrightarrow> cached_sound (cache_field requested_id kind (cr_position r) sz ?r)"
      unfolding cache_field_def Some option.case cached_sound_def
      by (auto simp: list_all_iff dest!: set_update_subset_insert [THEN subsetD])
    with step show ?thesis by (simp add: walk_step_def cache_field_def Some reader_step_def inside_def)
  qed
qed

lemma cachedKind_width: "kind_width (cachedKind ty) = Some w \<Longrightarrow> primitiveSize (ty_kind ty) = w"
  by (cases "ty_kind ty") (auto simp: cachedKind_def kind_width_def primitiveSize_def split: if_splits)

lemma walk_string_step: "walk_step r (snd (walk_string ty requested_id r))"
  unfolding walk_string_def
  by (rule walk_step_bind [OF walk_step_reader [OF width_reader_step(3)]])
    (auto simp: kind_width_def intro!: walk_step_cache)

lemma walk_primitive_step: "walk_step r (snd (walk_primitive ty requested_id r))"
  unfolding walk_primitive_def Let_def
  by (rule walk_step_bind [OF walk_step_reader [OF align_step]])
    (auto simp: cachedKind_width intro!: walk_step_cache)

lemma walk_bytes_step: "n \<le> remaining r \<Longrightarrow> walk_step r (snd (walk_bytes n requested_id r))"
  unfolding walk_bytes_def by (auto simp: kind_width_def intro: walk_step_cache)

lemma walk_scalar_step:
  assumes "\<And>i r. walk_step r (snd (nested i r))"
  shows "walk_step r (snd (walk_scalar nested ty requested_id r))"
  unfolding walk_scalar_def using assms walk_string_step walk_primitive_step by auto

lemma walk_elements_step:
  assumes "\<And>r. walk_step r (snd (element r))"
  shows "walk_step r (snd (walk_elements stuck element n r))"
proof (induction n arbitrary: r)
  case (Suc n)
  show ?case unfolding walk_elements.simps
    by (intro walk_step_bind assms) (auto intro: Suc.IH)
qed simp

lemma walkValue_step:
  assumes "\<And>i r. walk_step r (snd (nested i r))"
  shows "walk_step r (snd (walkValue structs nested ty requested_id has_descendant r))"
proof -
  note scalar = walk_scalar_step [OF assms]
  have seq: "walk_step r (snd (cdr_bind (readU32 r) f))" if "\<And>c s. walk_step s (snd (f c s))" for f :: "_ \<Rightarrow> _ \<Rightarrow> (Status + unit) \<times> CdrReader"
    by (intro walk_step_bind walk_step_reader width_reader_step that)
  show ?thesis
    unfolding walkValue_def
    by (auto split: CdrContainerKind.split sum.split
        intro!: seq scalar walk_elements_step walk_bytes_step)
qed

lemma walk_fields_step:
  assumes "\<And>path ty r. walk_step r (snd (walk path ty r))"
  shows "walk_step r (snd (walk_fields walk path index fs r))"
proof (induction fs arbitrary: index r)
  case (Cons f fs)
  show ?case unfolding walk_fields.simps by (intro walk_step_bind assms Cons.IH)
qed simp

lemma walkStruct_step: "walk_step r (snd (walkStruct plan left path struct_index r))"
proof (induction left arbitrary: path struct_index r)
  case (Suc left)
  show ?case
    unfolding walkStruct.simps by (intro walk_fields_step) (auto split: prod.split intro: walkValue_step Suc.IH)
qed simp


lemma locateAll_step: "walk_step r (snd (locateAll plan r))"
proof (cases "isOk (cr_status r)")
  case True
  then show ?thesis
    unfolding locateAll_def by simp (intro walk_step_bind walkStruct_step, simp)
qed (simp add: locateAll_def)

text \<open>A result on the left is a failure.\<close>

definition honest :: "(Status + 'a) \<times> CdrReader \<Rightarrow> bool" where
  "honest x \<longleftrightarrow> (\<forall>e. fst x = Inl e \<longrightarrow> \<not> isOk e)"

named_theorems honest_intro "operations that report failures honestly"

lemma honest_basic [simp, honest_intro]: "honest (cdr_fail m r)" "honest (Inr a, r)"
  by (simp_all add: honest_def cdr_fail_def)

lemma honest_bind [honest_intro]: "honest x \<Longrightarrow> (\<And>a s. honest (f a s)) \<Longrightarrow> honest (cdr_bind x f)"
  by (auto simp: honest_def cdr_bind_def split: prod.splits sum.splits)

lemma honest_if [honest_intro]: "(c \<Longrightarrow> honest x) \<Longrightarrow> (\<not> c \<Longrightarrow> honest y) \<Longrightarrow> honest (if c then x else y)"
  by simp

lemma honest_align [honest_intro]: "honest (align a r)"
  by (simp add: align_def Let_def) (simp add: honest_def)

lemma honest_reads [honest_intro]: "honest (readUnsigned w r)" "honest (readU32 r)"
  by (simp_all add: readUnsigned_def readU32_def) (intro honest_intro)+

lemma honest_walk_leaf [honest_intro]: "honest (walk_string ty i r)" "honest (walk_primitive ty i r)" "honest (walk_bytes n i r)"
  by (simp_all only: walk_string_def walk_primitive_def walk_bytes_def Let_def) (intro honest_intro)+

lemma honest_scalar [honest_intro]: "(\<And>i r. honest (nested i r)) \<Longrightarrow> honest (walk_scalar nested ty i r)"
  by (simp add: walk_scalar_def honest_intro)

lemma honest_elements [honest_intro]: "(\<And>r. honest (element r)) \<Longrightarrow> honest (walk_elements stuck element n r)"
proof (induction n arbitrary: r)
  case (Suc n)
  show ?case unfolding walk_elements.simps by (intro honest_intro Suc)
qed simp

lemma honest_walkValue [honest_intro]:
  "(\<And>i r. honest (nested i r)) \<Longrightarrow> honest (walkValue structs nested ty i d r)"
  unfolding walkValue_def
  by (cases "ty_container ty"; cases "minimumSize structs kMaxTraversalDepth ty"; simp only: CdrContainerKind.case sum.case)
    (intro honest_intro; assumption)+

lemma honest_walk_fields [honest_intro]:
  "(\<And>path ty r. honest (walk path ty r)) \<Longrightarrow> honest (walk_fields walk path index fs r)"
proof (induction fs arbitrary: index r)
  case (Cons f fs)
  show ?case unfolding walk_fields.simps by (intro honest_intro Cons)
qed simp

lemma honest_walkStruct [honest_intro]: "honest (walkStruct plan left path i r)"
proof (induction left arbitrary: path i r)
  case (Suc left)
  show ?case unfolding walkStruct.simps
    by (intro honest_intro) (auto split: prod.split intro: honest_walkValue Suc.IH)
qed simp

lemma honest_locateAll: "honest (locateAll plan r)"
  unfolding locateAll_def by (cases "isOk (cr_status r)") (simp_all, intro honest_intro, simp add: honest_def)

subsection \<open>A planned reader never reads outside the payload\<close>

text \<open>
  The states of a reader with a plan under any sequence of accessor calls; \<open>cached\<close> is what every
  accessor does to the reader, and only \<open>boolean\<close> does more.
\<close>

inductive planned :: "buffer \<Rightarrow> CdrTraversalPlan \<Rightarrow> CdrReader \<Rightarrow> bool" for payload plan where
  start: "planned payload plan (planned_reader payload plan)"
| access: "planned payload plan r \<Longrightarrow> planned payload plan (snd (cached (Some plan) field kind r))"
| access_boolean: "planned payload plan r \<Longrightarrow> planned payload plan (snd (field_boolean (Some plan) field r))"

definition planned_ok :: "buffer \<Rightarrow> CdrTraversalPlan \<Rightarrow> CdrReader \<Rightarrow> bool" where
  "planned_ok payload plan r \<longleftrightarrow> cr_payload r = payload \<and> cr_traversal_count r \<le> 1
     \<and> (isOk (cr_status r) \<longrightarrow> inside r \<and> cached_sound r \<and> cr_data_origin r = 4
         \<and> length (cr_cached_fields r) = length (tp_requested plan)
         \<and> (cr_traversal_count r = 1 \<longrightarrow> list_all cf_located (cr_cached_fields r)))"

lemma planned_start: "planned_ok payload plan (planned_reader payload plan)"
proof -
  have "cr_payload (cdr_reader payload) = payload \<and> cr_traversal_count (cdr_reader payload) = 0
    \<and> (isOk (cr_status (cdr_reader payload)) \<longrightarrow> cr_data_origin (cdr_reader payload) = 4)"
    by (cases payload) (auto simp: cdr_reader_def cdr_initialize_def blank_reader_def Let_def)
  then show ?thesis
    using cdr_reader_ok [of payload]
    by (auto simp: planned_ok_def planned_reader_def Let_def reader_ok_def cached_sound_def field_sound_def
        default_CachedField_def list_all_iff)
qed

lemma locateAll_located: "locateAll plan r = (Inr u, r') \<Longrightarrow> list_all cf_located (cr_cached_fields r')"
  by (auto simp: locateAll_def cdr_bind_def cdr_fail_def split: if_splits prod.splits sum.splits)

lemma planned_ensure:
  assumes "planned_ok payload plan r"
  shows "planned_ok payload plan (snd (ensurePlannedFields (Some plan) r))"
    and "ensurePlannedFields (Some plan) r = (Inr u, r') \<Longrightarrow> isOk (cr_status r') \<and> cr_traversal_count r' = 1"
proof -
  let ?r = "r\<lparr>cr_traversal_count := cr_traversal_count r + 1, cr_position := cr_data_origin r, cr_depth := 0\<rparr>"
  obtain res r2 where loc: "locateAll plan ?r = (res, r2)" by (cases "locateAll plan ?r")
  have step: "walk_step ?r r2" using locateAll_step [of ?r plan] loc by simp
  have keep: "cr_payload r2 = cr_payload r" "cr_traversal_count r2 = cr_traversal_count r + 1"
    "cr_data_origin r2 = cr_data_origin r"
    using step by (simp_all add: walk_step_def reader_step_def)
  have good: "isOk (cr_status r) \<Longrightarrow> inside r2 \<and> cached_sound r2
      \<and> length (cr_cached_fields r2) = length (tp_requested plan)"
  proof -
    assume "isOk (cr_status r)"
    then have "inside ?r" "cached_sound ?r" "length (cr_cached_fields ?r) = length (tp_requested plan)"
      using assms by (auto simp: planned_ok_def inside_def cached_sound_def field_sound_def list_all_iff)
    then show ?thesis using step by (auto simp: walk_step_def reader_step_def inside_def)
  qed
  have located: "res = Inr u \<Longrightarrow> list_all cf_located (cr_cached_fields r2)" for u
    using locateAll_located loc by auto
  have failed: "res = Inl e \<Longrightarrow> \<not> isOk e" for e
    using honest_locateAll [of plan ?r] loc by (simp add: honest_def)
  show "planned_ok payload plan (snd (ensurePlannedFields (Some plan) r))"
    using assms keep good located failed loc
    by (auto simp: ensurePlannedFields_def planned_ok_def cached_sound_def field_sound_def split: sum.split)
  show "ensurePlannedFields (Some plan) r = (Inr u, r') \<Longrightarrow> isOk (cr_status r') \<and> cr_traversal_count r' = 1"
    using assms keep loc by (auto simp: ensurePlannedFields_def planned_ok_def split: if_splits sum.splits)
qed


lemma planned_cached:
  assumes "planned_ok payload plan r"
  shows "planned_ok payload plan (snd (cached (Some plan) field kind r))"
    and "cached (Some plan) field kind r = (Inr v, r') \<Longrightarrow>
      isOk (cr_status r') \<and> field < length (tp_requested plan) \<and> v = cr_cached_fields r' ! field \<and> cf_located v \<and> cf_kind v = kind"
proof -
  obtain res s where e: "ensurePlannedFields (Some plan) r = (res, s)" by (cases "ensurePlannedFields (Some plan) r")
  note ens = planned_ensure [OF assms]
  have s: "planned_ok payload plan s" using ens(1) e by simp
  then show "planned_ok payload plan (snd (cached (Some plan) field kind r))"
    by (auto simp: cached_def e cdr_bind_def cdr_fail_def Let_def planned_ok_def split: sum.split)
  show "cached (Some plan) field kind r = (Inr v, r') \<Longrightarrow>
      isOk (cr_status r') \<and> field < length (tp_requested plan) \<and> v = cr_cached_fields r' ! field \<and> cf_located v \<and> cf_kind v = kind"
    using ens(2) e s by (auto simp: cached_def cdr_bind_def cdr_fail_def Let_def planned_ok_def
        split: sum.splits if_splits)
qed

lemma planned_boolean:
  assumes "planned_ok payload plan r"
  shows "planned_ok payload plan (snd (field_boolean (Some plan) field r))"
proof -
  obtain res s where e: "cached (Some plan) field kCBool r = (res, s)" by (cases "cached (Some plan) field kCBool r")
  have "planned_ok payload plan s" using planned_cached(1) [OF assms, of field kCBool] e by simp
  then show ?thesis
    by (auto simp: field_boolean_def cachedUnsigned_def e cdr_bind_def cdr_fail_def planned_ok_def split: sum.split)
qed

lemma planned_is_ok: "planned payload plan r \<Longrightarrow> planned_ok payload plan r"
  by (induction rule: planned.induct) (simp_all add: planned_start planned_cached planned_boolean)

text \<open>What an accessor returns is the octets of the payload at the remembered place, all of them inside.\<close>

lemma cached_inside:
  assumes "planned payload plan r" "cached (Some plan) field kind r = (Inr v, r')"
  shows "4 \<le> cf_offset v \<and> cf_offset v + cf_size v \<le> buffer_size payload
    \<and> (\<forall>w. kind_width kind = Some w \<longrightarrow> cf_size v = w) \<and> cr_payload r' = payload"
proof -
  note ok = planned_is_ok [OF assms(1)]
  note c = planned_cached(2) [OF ok assms(2)]
  have "planned_ok payload plan r'" using planned_cached(1) [OF ok, of field kind] assms(2) by simp
  then have s: "cr_payload r' = payload" "cached_sound r'" "cr_data_origin r' = 4"
      "length (cr_cached_fields r') = length (tp_requested plan)"
    using c by (auto simp: planned_ok_def)
  then have "v \<in> set (cr_cached_fields r')" using c by simp
  then have "field_sound r' v" using s(2) by (auto simp: cached_sound_def list_all_iff)
  then show ?thesis using c s by (auto simp: field_sound_def)
qed

lemma cachedUnsigned_inside:
  assumes "planned payload plan r" "kind_width kind = Some width"
    and "cachedUnsigned (Some plan) field kind width r = (Inr x, r')"
  shows "\<exists>offset. 4 \<le> offset \<and> offset + width \<le> buffer_size payload
    \<and> x = bytes_value (cr_little_endian r') (take width (drop offset (buffer_bytes payload)))"
proof -
  obtain v where v: "cached (Some plan) field kind r = (Inr v, r')"
    "x = bytes_value (cr_little_endian r') (payload_slice r' (cf_offset v) width)"
    using assms(3) by (auto simp: cachedUnsigned_def cdr_bind_def split: prod.splits sum.splits)
  from cached_inside [OF assms(1) v(1)] assms(2) v(2) show ?thesis
    by (intro exI [of _ "cf_offset v"]) (simp add: payload_slice_def)
qed

end
