(* ===== verification/CdrValues.thy ===== *)
theory CdrValues
  imports CdrLocator
begin

section \<open>The walk of a planned reader against the XCDR1 format\<close>

text \<open>
  What the format says of a value of a schema type, without the walk: how it is written, and where the
  field behind a path of indices lies. The walk over a written value finds exactly that.
\<close>

subsection \<open>Values of a schema and their encoding\<close>

datatype schema_value =
  SvNum nat u64 | SvStr bytes | SvStruct "schema_value list" | SvSeq "schema_value list" | SvArr "schema_value list"

fun put_sv :: "bool \<Rightarrow> nat \<Rightarrow> schema_value \<Rightarrow> bytes" and put_svs :: "bool \<Rightarrow> nat \<Rightarrow> schema_value list \<Rightarrow> bytes" where
  "put_sv little p (SvNum w n) = put_uint little p w n"
| "put_sv little p (SvStr s) = put_uint little p 4 (of_nat (length s + 1)) @ s @ [0]"
| "put_sv little p (SvStruct vs) = put_svs little p vs"
| "put_sv little p (SvSeq vs) = put_uint little p 4 (of_nat (length vs))
     @ put_svs little (p + length (put_uint little p 4 (of_nat (length vs)))) vs"
| "put_sv little p (SvArr vs) = put_svs little p vs"
| "put_svs little p [] = []"
| "put_svs little p (v # vs) = put_sv little p v @ put_svs little (p + length (put_sv little p v)) vs"

definition element_type :: "CdrSchemaType \<Rightarrow> CdrSchemaType" where
  "element_type ty = ty\<lparr>ty_container := CkScalar\<rparr>"

definition struct_fields :: "CdrSchemaStruct list \<Rightarrow> CdrSchemaType \<Rightarrow> CdrSchemaField list" where
  "struct_fields structs ty = ss_fields (structs ! the (ty_nested_index ty))"

text \<open>
  A value of a type that the walk can get through: nested no deeper than the given number of levels, and
  elements of a container whose size the schema bounds from below by a positive number.
\<close>

definition sized_elements :: "CdrSchemaStruct list \<Rightarrow> CdrSchemaType \<Rightarrow> nat \<Rightarrow> bool" where
  "sized_elements structs ty n \<longleftrightarrow> ty_kind ty = VkU8 \<or>
     (case minimumSize structs kMaxTraversalDepth ty of Inl _ \<Rightarrow> False | Inr m \<Rightarrow> n = 0 \<or> m \<noteq> 0)"

fun locatable :: "CdrSchemaStruct list \<Rightarrow> nat \<Rightarrow> CdrSchemaType \<Rightarrow> schema_value \<Rightarrow> bool"
  and locatable_fields :: "CdrSchemaStruct list \<Rightarrow> nat \<Rightarrow> CdrSchemaField list \<Rightarrow> schema_value list \<Rightarrow> bool"
  and locatable_elements :: "CdrSchemaStruct list \<Rightarrow> nat \<Rightarrow> CdrSchemaType \<Rightarrow> schema_value list \<Rightarrow> bool" where
  "locatable structs left ty (SvNum w n) \<longleftrightarrow>
     ty_container ty = CkScalar \<and> ty_kind ty \<noteq> VkString \<and> ty_kind ty \<noteq> VkStruct \<and> w = primitiveSize (ty_kind ty)
     \<and> (w = 8 \<or> n < 2 ^ (8 * w)) \<and> (ty_kind ty = VkBool \<longrightarrow> n \<le> 1)"
| "locatable structs left ty (SvStr s) \<longleftrightarrow>
     ty_container ty = CkScalar \<and> ty_kind ty = VkString \<and> length s + 1 < 2 ^ 32
     \<and> (ty_maximum_string_length ty = 0 \<or> length s \<le> unat (ty_maximum_string_length ty))"
| "locatable structs left ty (SvStruct vs) \<longleftrightarrow>
     ty_container ty = CkScalar \<and> ty_kind ty = VkStruct
     \<and> left \<noteq> 0 \<and> locatable_fields structs (left - 1) (struct_fields structs ty) vs"
| "locatable structs left ty (SvSeq vs) \<longleftrightarrow>
     ty_container ty = CkSequence \<and> length vs < 2 ^ 32 \<and> sized_elements structs ty (length vs)
     \<and> (ty_maximum_container_count ty = 0 \<or> length vs \<le> unat (ty_maximum_container_count ty))
     \<and> locatable_elements structs left (element_type ty) vs"
| "locatable structs left ty (SvArr vs) \<longleftrightarrow>
     ty_container ty = CkFixedArray \<and> length vs = unat (ty_fixed_count ty) \<and> sized_elements structs ty (length vs)
     \<and> locatable_elements structs left (element_type ty) vs"
| "locatable_fields structs left [] [] \<longleftrightarrow> True"
| "locatable_fields structs left (f # fs) (v # vs) \<longleftrightarrow>
     locatable structs left (sf_type f) v \<and> locatable_fields structs left fs vs"
| "locatable_fields structs left _ _ \<longleftrightarrow> False"
| "locatable_elements structs left ty [] \<longleftrightarrow> True"
| "locatable_elements structs left ty (v # vs) \<longleftrightarrow> locatable structs left ty v \<and> locatable_elements structs left ty vs"

text \<open>The place of the field behind a path of indices, if it is one that can be remembered.\<close>

definition located :: "CachedKind \<Rightarrow> nat \<Rightarrow> nat \<Rightarrow> CachedField" where
  "located kind offset sz = \<lparr>cf_kind = kind, cf_offset = offset, cf_size = sz, cf_located = True\<rparr>"

fun leaf :: "bool \<Rightarrow> nat \<Rightarrow> CdrSchemaType \<Rightarrow> schema_value \<Rightarrow> CachedField option" where
  "leaf little p ty (SvNum w n) = Some (located (cachedKind ty) (4 + p + (w - p mod w) mod w) w)"
| "leaf little p ty (SvStr s) =
     Some (located kCString (4 + p + length (put_uint little p 4 (of_nat (length s + 1)))) (length s))"
| "leaf little p ty (SvStruct vs) = None"
| "leaf little p ty (SvSeq vs) =
     (if ty_kind ty = VkU8 then
        Some (located kCBytes (4 + p + length (put_uint little p 4 (of_nat (length vs)))) (length vs))
      else None)"
| "leaf little p ty (SvArr vs) = (if ty_kind ty = VkU8 then Some (located kCBytes (4 + p) (length vs)) else None)"

fun seek :: "CdrSchemaStruct list \<Rightarrow> bool \<Rightarrow> nat \<Rightarrow> CdrSchemaType \<Rightarrow> schema_value \<Rightarrow> nat list \<Rightarrow> CachedField option"
  and seek_fields :: "CdrSchemaStruct list \<Rightarrow> bool \<Rightarrow> nat \<Rightarrow> CdrSchemaField list \<Rightarrow> schema_value list \<Rightarrow> nat
    \<Rightarrow> nat list \<Rightarrow> CachedField option" where
  "seek structs little p ty v [] = leaf little p ty v"
| "seek structs little p ty (SvStruct vs) (i # is) = seek_fields structs little p (struct_fields structs ty) vs i is"
| "seek structs little p ty _ (i # is) = None"
| "seek_fields structs little p (f # fs) (v # vs) 0 is = seek structs little p (sf_type f) v is"
| "seek_fields structs little p (f # fs) (v # vs) (Suc i) is =
     seek_fields structs little (p + length (put_sv little p v)) fs vs i is"
| "seek_fields structs little p _ _ i is = None"

subsection \<open>Sizes\<close>

lemma unat_max: "unat (- 1 :: u64) = 2 ^ 64 - 1"
  by (simp add: unsigned_minus_1_eq_mask mask_eq_exp_minus_1)

lemma word_no_wrap:
  fixes m n :: u64
  assumes "\<not> m > - 1 div n"
  shows "unat (m * n) = unat m * unat n"
proof (cases "n = 0")
  case False
  have "unat m \<le> (2 ^ 64 - 1) div unat n"
    using assms by (simp add: not_less word_le_nat_alt unat_div unat_max)
  then have "unat m * unat n \<le> 2 ^ 64 - 1"
    by (meson div_times_less_eq_dividend le_trans mult_le_mono1)
  then have "unat m * unat n < 2 ^ LENGTH(64)" by simp
  then show ?thesis by (simp add: unat_mult_lem [THEN iffD1])
qed simp

lemma word_no_wrap_add:
  fixes m n :: u64
  assumes "\<not> m > - 1 - n"
  shows "unat (n + m) = unat n + unat m"
proof -
  have "unat (- 1 - n) = unat (- 1 :: u64) - unat n" by (rule unat_sub) simp
  then have "unat m \<le> 2 ^ 64 - 1 - unat n"
    using assms by (simp add: not_less word_le_nat_alt unat_max)
  moreover have "unat n < 2 ^ 64" using unsigned_less [of n, where 'a = nat] by simp
  ultimately have "unat n + unat m < 2 ^ LENGTH(64)" by simp
  then show ?thesis by (simp add: unat_add_lem [THEN iffD1])
qed

lemma minimumSize_scalar:
  "minimumSize structs d (element_type ty) = minimumSize structs d ty"
  by (cases d) (simp_all add: element_type_def)


definition bounded_below :: "CdrSchemaType \<Rightarrow> nat \<Rightarrow> nat \<Rightarrow> bool" where
  "bounded_below ty m n \<longleftrightarrow> (case ty_container ty of
     CkScalar \<Rightarrow> m \<le> n | CkSequence \<Rightarrow> 4 \<le> n | CkFixedArray \<Rightarrow> m * unat (ty_fixed_count ty) \<le> n)"

lemma minimum_bound_all:
  "locatable structs left ty v \<Longrightarrow> minimumSize structs d ty = Inr m \<Longrightarrow>
     bounded_below ty (unat m) (length (put_sv little p v))"
  "locatable_fields structs left fs vs \<Longrightarrow> minimum_of_fields (minimumSize structs d) fs acc = Inr m \<Longrightarrow>
     unat m \<le> unat acc + length (put_svs little p vs)"
  "locatable_elements structs left ty vs \<Longrightarrow> ty_container ty = CkScalar \<Longrightarrow> minimumSize structs d ty = Inr m \<Longrightarrow>
     unat m * length vs \<le> length (put_svs little p vs)"
proof (induction structs left ty v and structs left fs vs and structs left ty vs
    arbitrary: d m p and d acc m p and d m p rule: locatable_locatable_fields_locatable_elements.induct)
  case (1 structs left ty w n)
  then show ?case
    by (cases d) (auto simp: bounded_below_def length_put_uint unat_of_nat primitiveSize_def split: CdrValueKind.splits)
next
  case (2 structs left ty s)
  then show ?case by (cases d) (auto simp: bounded_below_def length_put_uint)
next
  case (3 structs left ty vs)
  then obtain d' where d: "d = Suc d'" by (cases d) auto
  have "unat m \<le> unat (0 :: u64) + length (put_svs little p vs)"
    using 3 by (intro "3.IH") (auto simp: d struct_fields_def)
  then show ?case using 3 by (simp add: bounded_below_def)
next
  case (4 structs left ty vs)
  then show ?case by (simp add: bounded_below_def length_put_uint)
next
  case (5 structs left ty vs)
  then have "unat m * length vs \<le> length (put_svs little p vs)"
    by (intro "5.IH" [of d m p]) (simp_all add: minimumSize_scalar, simp_all add: element_type_def)
  then show ?case using 5 by (simp add: bounded_below_def)
next
  case (7 structs left f fs v vs)
  let ?ty = "sf_type f"
  obtain minimum where min: "minimumSize structs d ?ty = Inr minimum"
    using "7.prems"(2) by (auto split: sum.splits)
  define fm where "fm = (case ty_container ?ty of CkSequence \<Rightarrow> 4 | CkFixedArray \<Rightarrow> minimum * ty_fixed_count ?ty | CkScalar \<Rightarrow> minimum)"
  have guards: "ty_container ?ty = CkFixedArray \<Longrightarrow> \<not> minimum > - 1 div ty_fixed_count ?ty" "\<not> fm > - 1 - acc"
    and rest: "minimum_of_fields (minimumSize structs d) fs (acc + fm) = Inr m"
    using "7.prems"(2) by (auto simp: min fm_def Let_def split: if_splits CdrContainerKind.splits)
  have "bounded_below ?ty (unat minimum) (length (put_sv little p v))"
    using "7.IH"(1) [OF _ min] "7.prems"(1) by simp
  then have "unat fm \<le> length (put_sv little p v)"
    using word_no_wrap [OF guards(1)] by (auto simp: fm_def bounded_below_def split: CdrContainerKind.splits)
  moreover have "unat m \<le> unat (acc + fm) + length (put_svs little (p + length (put_sv little p v)) vs)"
    using "7.IH"(2) [OF _ rest] "7.prems"(1) by simp
  ultimately show ?case using word_no_wrap_add [OF guards(2)] by simp
next
  case (10 structs left ty v vs)
  have "unat m \<le> length (put_sv little p v)"
    using "10.IH"(1) [of d m p] "10.prems" by (simp add: bounded_below_def)
  moreover have "unat m * length vs \<le> length (put_svs little (p + length (put_sv little p v)) vs)"
    using "10.IH"(2) "10.prems" by simp
  ultimately show ?case by simp
qed simp_all

lemmas minimum_bound_elements = minimum_bound_all(3)

lemma minimum_bound_scalar:
  "locatable structs left ty v \<Longrightarrow> ty_container ty = CkScalar \<Longrightarrow> minimumSize structs d ty = Inr m \<Longrightarrow>
     unat m \<le> length (put_sv little p v)"
  using minimum_bound_all(1) by (fastforce simp: bounded_below_def)

subsection \<open>Leaves\<close>

definition cput :: "nat option \<Rightarrow> CachedField \<Rightarrow> CachedField list \<Rightarrow> CachedField list" where
  "cput requested_id cf c = (case requested_id of None \<Rightarrow> c | Some i \<Rightarrow> c[i := cf])"

lemma cput_None [simp]: "cput None cf c = c"
  by (simp add: cput_def)

lemma cache_field_at:
  "cache_field requested_id kind offset sz (reader_at little payload c t p)
    = reader_at little payload (cput requested_id (located kind offset sz) c) t p"
  by (cases requested_id) (simp_all add: cache_field_def cput_def reader_at_def located_def)

lemma reader_at_simps [simp]:
  "cr_position (reader_at little payload c t p) = 4 + p"
  "(reader_at little payload c t p)\<lparr>cr_position := 4 + p + n\<rparr> = reader_at little payload c t (p + n)"
  "4 + p \<le> length payload \<Longrightarrow> remaining (reader_at little payload c t p) = length payload - (4 + p)"
  "payload_at (reader_at little payload c t p) i = payload ! i"
  by (simp_all add: reader_at_def remaining_def payload_at_def)

lemma primitiveSize_width: "primitiveSize k \<in> {1, 2, 4, 8}"
  by (cases k) (simp_all add: primitiveSize_def)

lemma walk_primitive_put:
  assumes payload: "payload = pre @ put_uint little p w n @ post" "length pre = 4 + p"
    and ty: "w = primitiveSize (ty_kind ty)" "ty_kind ty = VkBool \<longrightarrow> n \<le> 1"
  shows "walk_primitive ty requested_id (reader_at little payload c t p) = (Inr (), reader_at little payload
    (cput requested_id (located (cachedKind ty) (4 + p + (w - p mod w) mod w) w) c) t (p + length (put_uint little p w n)))"
proof -
  let ?pad = "(w - p mod w) mod w"
  have w: "w \<in> {1, 2, 4, 8}" using primitiveSize_width ty(1) by simp
  have len: "length payload = 4 + p + ?pad + w + length post"
    by (simp add: payload length_put_uint)
  have al: "align w (reader_at little payload c t p) = (Inr (), reader_at little payload c t (p + ?pad))"
    by (rule align_reader_at [OF w]) (simp add: len)
  have bool: "\<not> payload ! (4 + (p + ?pad)) > 1" if "ty_kind ty = VkBool"
  proof -
    have "w = 1" using that ty(1) by (simp add: primitiveSize_def)
    then have "payload ! (4 + (p + ?pad)) = ucast n"
      using payload by (simp add: put_uint_def uint_bytes_def nth_append Let_def)
    moreover have "n = 0 \<or> n = 1" using that ty(2) by (simp add: word_le_nat_alt) (metis One_nat_def le_Suc_eq le_zero_eq unat_1 unat_eq_zero word_unat_eq_iff)
    ultimately show ?thesis by auto
  qed
  obtain q where q: "p + ?pad = q" by simp
  have end_pos: "p + length (put_uint little p w n) = q + w" "4 + p + ?pad = 4 + q"
    using q by (simp_all add: length_put_uint)
  have "4 + q + w \<le> length payload" using len q by linarith
  then show ?thesis
    unfolding walk_primitive_def Let_def ty(1) [symmetric] al end_pos
    using bool by (auto simp: cdr_bind_def cache_field_at q)
qed

lemma walk_string_put:
  assumes payload: "payload = pre @ put_uint little p 4 (of_nat (length s + 1)) @ s @ [0] @ post" "length pre = 4 + p"
    and size: "length s + 1 < 2 ^ 32" "ty_maximum_string_length ty = 0 \<or> length s \<le> unat (ty_maximum_string_length ty)"
  shows "walk_string ty requested_id (reader_at little payload c t p) = (Inr (), reader_at little payload
    (cput requested_id (located kCString (4 + p + length (put_uint little p 4 (of_nat (length s + 1)))) (length s)) c) t
    (p + length (put_uint little p 4 (of_nat (length s + 1))) + length s + 1))"
proof -
  let ?put = "put_uint little p 4 (of_nat (length s + 1))"
  let ?n = "of_nat (length s + 1) :: u32"
  note len = put_length [OF payload size(1)]
  have n: "?n \<noteq> 0" using len(2) by (metis add_is_0 one_neq_zero unat_0)
  have "unat (ucast (?n - 1) :: u64) = length s"
    using len(2) size(1) unat_minus_one [OF n] by (simp add: unsigned_ucast_eq take_bit_nat_eq_self)
  then have max: "ty_maximum_string_length ty = 0 \<or> \<not> ucast (?n - 1) > ty_maximum_string_length ty"
    using size(2) by (auto simp: word_less_nat_alt)
  have at: "payload ! (4 + (p + length ?put) + length s) = 0"
    using payload by (simp add: nth_append)
  have pl: "length payload = 4 + (p + length ?put) + length s + 1 + length post" using payload by simp
  obtain q where q: "p + length ?put = q" "4 + p + length ?put = 4 + q" by simp
  have adv: "(reader_at little payload c t q)\<lparr>cr_position := 5 + (q + length s)\<rparr> = reader_at little payload c t (q + length s + 1)"
    by (simp add: reader_at_def)
  have "remaining (reader_at little payload c t q) = length payload - (4 + q)" "length payload = 5 + (q + (length s + length post))"
    using pl [unfolded q] by simp_all
  then show ?thesis
    unfolding walk_string_def len(1) q
    using n max at [unfolded q, unfolded add.assoc] len(2) by (auto simp: cdr_bind_def adv cache_field_at add.assoc)
qed


subsection \<open>Requests\<close>

fun steps_ok :: "CdrSchemaStruct list \<Rightarrow> CdrSchemaType \<Rightarrow> nat list \<Rightarrow> bool" where
  "steps_ok structs ty [] \<longleftrightarrow> cachedKind ty \<noteq> kUnknown"
| "steps_ok structs ty (i # is) \<longleftrightarrow> ty_kind ty = VkStruct \<and> ty_container ty = CkScalar
     \<and> i < length (struct_fields structs ty) \<and> steps_ok structs (sf_type (struct_fields structs ty ! i)) is"

definition requests_fit :: "CdrSchemaStruct list \<Rightarrow> CdrRequestedField list \<Rightarrow> nat list \<Rightarrow> CdrSchemaType \<Rightarrow> bool" where
  "requests_fit structs reqs path ty \<longleftrightarrow>
     (\<forall>req \<in> set reqs. take (length path) (rf_steps req) = path \<longrightarrow> steps_ok structs ty (drop (length path) (rf_steps req)))"

text \<open>The cache after everything below a path has been seen.\<close>

definition marked :: "CdrRequestedField list \<Rightarrow> nat list \<Rightarrow> (nat list \<Rightarrow> CachedField option) \<Rightarrow> CachedField list \<Rightarrow> CachedField list" where
  "marked reqs path S c = map (\<lambda>i. let steps = rf_steps (reqs ! i) in
     if take (length path) steps = path then (case S (drop (length path) steps) of Some cf \<Rightarrow> cf | None \<Rightarrow> c ! i)
     else c ! i) [0..<length c]"

lemma length_marked [simp]: "length (marked reqs path S c) = length c"
  by (simp add: marked_def)

lemma nth_marked: "i < length c \<Longrightarrow> marked reqs path S c ! i =
    (if take (length path) (rf_steps (reqs ! i)) = path
     then (case S (drop (length path) (rf_steps (reqs ! i))) of Some cf \<Rightarrow> cf | None \<Rightarrow> c ! i) else c ! i)"
  by (auto simp: marked_def Let_def split: option.split)

lemma marked_none:
  "(\<And>i. i < length c \<Longrightarrow> take (length path) (rf_steps (reqs ! i)) = path \<Longrightarrow> S (drop (length path) (rf_steps (reqs ! i))) = None)
    \<Longrightarrow> marked reqs path S c = c"
  by (rule nth_equalityI) (simp_all add: nth_marked)

lemma take_path_iff: "take (length path) steps = path \<and> length steps = length path \<longleftrightarrow> steps = path"
  by auto

lemma scan_requests_id:
  assumes "distinct (map rf_steps reqs)" "scan_requests reqs index path id0 d0 = (requested_id, d)"
  shows "(\<forall>i < length reqs. rf_steps (reqs ! i) = path \<longrightarrow> requested_id = Some (index + i))
    \<and> ((\<forall>req \<in> set reqs. rf_steps req \<noteq> path) \<longrightarrow> requested_id = id0)"
  using assms
proof (induction reqs arbitrary: index id0 d0)
  case (Cons req reqs)
  show ?case
  proof (cases "rf_steps req = path")
    case True
    then have "\<forall>r \<in> set reqs. rf_steps r \<noteq> path"
      using Cons.prems(1) by (metis distinct.simps(2) imageI list.set_map list.simps(9))
    moreover have "scan_requests reqs (index + 1) path (Some index) d0 = (requested_id, d)"
      using Cons.prems(2) True by simp
    ultimately have "requested_id = Some index" using Cons.IH Cons.prems(1) by auto
    then show ?thesis using True \<open>\<forall>r \<in> set reqs. rf_steps r \<noteq> path\<close> by (auto simp: nth_Cons split: nat.split)
  next
    case False
    then have other: "(take (length path) (rf_steps req) = path \<and> length (rf_steps req) = length path) = False"
      by (simp only: take_path_iff)
    have "\<exists>d1. scan_requests reqs (index + 1) path id0 d1 = (requested_id, d)"
      using Cons.prems(2) unfolding scan_requests.simps Let_def other if_False by (meson if_split)
    then obtain d1 where "scan_requests reqs (index + 1) path id0 d1 = (requested_id, d)" ..
    from Cons.IH [OF _ this] Cons.prems(1) False show ?thesis by (auto simp: nth_Cons split: nat.split)
  qed
qed auto

lemma scan_requests_descends:
  "scan_requests reqs index path id0 d0 = (requested_id, d) \<Longrightarrow> d \<Longrightarrow> \<not> d0 \<Longrightarrow>
     \<exists>req \<in> set reqs. take (length path) (rf_steps req) = path \<and> length path < length (rf_steps req)"
proof (induction reqs arbitrary: index id0 d0)
  case (Cons req reqs)
  show ?case
  proof (cases "take (length path) (rf_steps req) = path \<and> length path < length (rf_steps req)")
    case False
    have "\<exists>id1. scan_requests reqs (index + 1) path id1 d0 = (requested_id, d)"
    proof (cases "length (rf_steps req) < length path")
      case False
      with \<open>\<not> (take (length path) (rf_steps req) = path \<and> length path < length (rf_steps req))\<close>
      have "take (length path) (rf_steps req) = path \<Longrightarrow> length (rf_steps req) = length path" by linarith
      then show ?thesis
        using Cons.prems(1) False by (cases "take (length path) (rf_steps req) = path") (simp_all only: scan_requests.simps Let_def simp_thms if_True if_False, blast+)
    qed (use Cons.prems(1) in auto)
    then show ?thesis using Cons.IH Cons.prems(2,3) by auto
  qed auto
qed simp

text \<open>A type that is no struct: a request that comes here ends here.\<close>

lemma marked_leaf:
  assumes "distinct (map rf_steps reqs)" "scan_requests reqs 0 path None False = (requested_id, d)"
    and fit: "requests_fit structs reqs path ty" and len: "length c = length reqs"
    and no_struct: "\<not> (ty_kind ty = VkStruct \<and> ty_container ty = CkScalar)"
    and S: "\<And>rest. S rest = (if rest = [] then lf else None)"
  shows "marked reqs path S c = (case lf of None \<Rightarrow> c | Some cf \<Rightarrow> cput requested_id cf c)"
proof (rule nth_equalityI)
  show "length (marked reqs path S c) = length (case lf of None \<Rightarrow> c | Some cf \<Rightarrow> cput requested_id cf c)"
    by (auto simp: cput_def split: option.split)
  fix i
  assume i: "i < length (marked reqs path S c)"
  let ?steps = "rf_steps (reqs ! i)"
  have id: "?steps = path \<Longrightarrow> requested_id = Some i" "requested_id = Some j \<Longrightarrow> j < length reqs \<and> rf_steps (reqs ! j) = path" for j
    using scan_requests_id [OF assms(1,2)] i len by (auto simp: in_set_conv_nth)
  have "take (length path) ?steps = path \<Longrightarrow> ?steps = path"
  proof -
    assume pre: "take (length path) ?steps = path"
    then have "steps_ok structs ty (drop (length path) ?steps)"
      using fit i len by (simp add: requests_fit_def)
    then have "drop (length path) ?steps = []"
      using no_struct by (cases "drop (length path) ?steps") auto
    then show "?steps = path" using pre by (metis append_take_drop_id append_Nil2)
  qed
  then have "marked reqs path S c ! i = (if ?steps = path then (case lf of Some cf \<Rightarrow> cf | None \<Rightarrow> c ! i) else c ! i)"
    using i by (auto simp: nth_marked S)
  also have "\<dots> = (case lf of None \<Rightarrow> c | Some cf \<Rightarrow> cput requested_id cf c) ! i"
    using id i len by (auto simp: cput_def nth_list_update split: option.split)
  finally show "marked reqs path S c ! i = (case lf of None \<Rightarrow> c | Some cf \<Rightarrow> cput requested_id cf c) ! i" .
qed

subsection \<open>The walk finds what the format describes\<close>

definition good_nested :: "CdrSchemaStruct list \<Rightarrow> CdrRequestedField list \<Rightarrow> bool \<Rightarrow> bytes \<Rightarrow> nat \<Rightarrow> nat \<Rightarrow> nat list
    \<Rightarrow> (nat \<Rightarrow> CdrReader \<Rightarrow> (Status + unit) \<times> CdrReader) \<Rightarrow> bool" where
  "good_nested structs reqs little payload t left path nested \<longleftrightarrow>
     (\<forall>ty vs c p pre post. locatable structs left ty (SvStruct vs) \<longrightarrow> requests_fit structs reqs path ty \<longrightarrow>
        payload = pre @ put_svs little p vs @ post \<longrightarrow> length pre = 4 + p \<longrightarrow> length c = length reqs \<longrightarrow>
        nested (the (ty_nested_index ty)) (reader_at little payload c t p)
          = (Inr (), reader_at little payload (marked reqs path (seek structs little p ty (SvStruct vs)) c) t
               (p + length (put_svs little p vs))))"

lemma walk_scalar_put:
  assumes dist: "distinct (map rf_steps reqs)" and scan: "scan_requests reqs 0 path None False = (requested_id, d)"
    and fit: "requests_fit structs reqs path ty" and len: "length c = length reqs"
    and nested: "good_nested structs reqs little payload t left path nested"
    and val: "locatable structs left ty v" "ty_container ty = CkScalar"
    and payload: "payload = pre @ put_sv little p v @ post" "length pre = 4 + p"
  shows "walk_scalar nested ty requested_id (reader_at little payload c t p)
    = (Inr (), reader_at little payload (marked reqs path (seek structs little p ty v) c) t (p + length (put_sv little p v)))"
proof -
  note leaf = marked_leaf [OF dist scan fit len]
  show ?thesis
  proof (cases v)
    case (SvNum w n)
    have "marked reqs path (seek structs little p ty v) c = (case leaf little p ty v of None \<Rightarrow> c | Some cf \<Rightarrow> cput requested_id cf c)"
      by (rule leaf) (use val(1) SvNum in \<open>auto simp: neq_Nil_conv\<close>)
    then show ?thesis
      using walk_primitive_put [of payload pre little p w n post ty] payload val(1) SvNum by (simp add: walk_scalar_def)
  next
    case (SvStr s)
    have "marked reqs path (seek structs little p ty v) c = (case leaf little p ty v of None \<Rightarrow> c | Some cf \<Rightarrow> cput requested_id cf c)"
      by (rule leaf) (use val(1) SvStr in \<open>auto simp: neq_Nil_conv\<close>)
    then show ?thesis
      using walk_string_put [of payload pre little p s post ty] payload val(1) SvStr by (simp add: walk_scalar_def add.assoc)
  next
    case (SvStruct vs)
    then have "ty_kind ty = VkStruct" using val(1) by simp
    then show ?thesis
      using nested [unfolded good_nested_def] val(1) fit payload len by (auto simp: walk_scalar_def SvStruct)
  qed (use val in auto)
qed

text \<open>Nothing is remembered inside a container, because no path leads into one.\<close>

definition no_requests :: "CdrRequestedField list \<Rightarrow> nat list \<Rightarrow> bool" where
  "no_requests reqs path \<longleftrightarrow> (\<forall>req \<in> set reqs. take (length path) (rf_steps req) \<noteq> path)"

lemma scan_no_requests: "no_requests reqs path \<Longrightarrow> scan_requests reqs index path id0 d0 = (id0, d0)"
  by (induction reqs arbitrary: index) (auto simp: no_requests_def Let_def)

lemma walk_element_put:
  assumes "distinct (map rf_steps reqs)" "no_requests reqs path" "length c = length reqs"
    and "good_nested structs reqs little payload t left path nested"
    and "locatable structs left ty v" "ty_container ty = CkScalar"
    and "payload = pre @ put_sv little p v @ post" "length pre = 4 + p"
  shows "walk_scalar nested ty None (reader_at little payload c t p)
    = (Inr (), reader_at little payload c t (p + length (put_sv little p v)))"
proof -
  have "requests_fit structs reqs path ty" using assms(2) by (simp add: requests_fit_def no_requests_def)
  moreover have "marked reqs path S c = c" for S
    by (rule marked_none) (use assms(2,3) in \<open>auto simp: no_requests_def\<close>)
  ultimately show ?thesis
    using walk_scalar_put [OF assms(1) scan_no_requests [OF assms(2)] _ assms(3-8)] by simp
qed

lemma walk_elements_put:
  assumes "distinct (map rf_steps reqs)" "no_requests reqs path" "length c = length reqs"
    and "good_nested structs reqs little payload t left path nested"
    and "locatable_elements structs left ty vs" "ty_container ty = CkScalar"
    and "payload = pre @ put_svs little p vs @ post" "length pre = 4 + p"
    and pos: "\<And>v p. v \<in> set vs \<Longrightarrow> 0 < length (put_sv little p v)"
  shows "walk_elements stuck (walk_scalar nested ty None) (length vs) (reader_at little payload c t p)
    = (Inr (), reader_at little payload c t (p + length (put_svs little p vs)))"
  using assms(5,7,8) pos
proof (induction vs arbitrary: p pre)
  case (Cons v vs)
  let ?q = "p + length (put_sv little p v)"
  have here: "walk_scalar nested ty None (reader_at little payload c t p) = (Inr (), reader_at little payload c t ?q)"
    by (rule walk_element_put [OF assms(1-4) _ assms(6), where post = "put_svs little ?q vs @ post"])
      (use Cons.prems in simp_all)
  have "walk_elements stuck (walk_scalar nested ty None) (length vs) (reader_at little payload c t ?q)
      = (Inr (), reader_at little payload c t (?q + length (put_svs little ?q vs)))"
    by (rule Cons.IH [where pre = "pre @ put_sv little p v"]) (use Cons.prems in auto)
  then show ?case
    using Cons.prems(4) [of v p] by (simp add: here cdr_bind_def add.assoc)
qed simp

lemma sized_elements_positive:
  assumes "sized_elements structs ty (length vs)" "ty_kind ty \<noteq> VkU8" "locatable_elements structs left (element_type ty) vs"
  obtains m where "minimumSize structs kMaxTraversalDepth ty = Inr m" "vs \<noteq> [] \<longrightarrow> m \<noteq> 0"
    "unat m * length vs \<le> length (put_svs little p vs)" "\<forall>v p. v \<in> set vs \<longrightarrow> 0 < length (put_sv little p v)"
proof -
  obtain m where m: "minimumSize structs kMaxTraversalDepth ty = Inr m" "vs = [] \<or> m \<noteq> 0"
    using assms(1,2) by (auto simp: sized_elements_def split: sum.splits)
  have el: "minimumSize structs kMaxTraversalDepth (element_type ty) = Inr m" "ty_container (element_type ty) = CkScalar"
    using m(1) by (simp_all only: minimumSize_scalar) (simp add: element_type_def)
  have "0 < length (put_sv little p v)" if "v \<in> set vs" for v p
  proof -
    have "locatable structs left (element_type ty) v"
      using that assms(3) by (induction vs) auto
    from minimum_bound_scalar [OF this el(2,1), of little p] have "unat m \<le> length (put_sv little p v)" .
    moreover have "m \<noteq> 0" using m(2) that by auto
    moreover from this have "0 < unat m" by (simp add: unat_gt_0)
    ultimately show ?thesis by linarith
  qed
  with that m show thesis
    using minimum_bound_elements [OF assms(3) el(2,1), of little p] by blast
qed

lemma put_u8_elements:
  assumes "locatable_elements structs left (element_type ty) vs" "ty_kind ty = VkU8"
  shows "length (put_svs little p vs) = length vs"
  using assms(1)
proof (induction vs arbitrary: p)
  case (Cons v vs)
  have "\<exists>n. v = SvNum 1 n"
    using Cons.prems assms(2) by (cases v) (auto simp: element_type_def primitiveSize_def)
  then have "length (put_sv little p v) = 1" for p by (auto simp: length_put_uint)
  then show ?case using Cons by simp
qed simp


lemma walk_bytes_put:
  "walk_bytes n requested_id (reader_at little payload c t p)
    = (Inr (), reader_at little payload (cput requested_id (located kCBytes (4 + p) n) c) t (p + n))"
  by (simp add: walk_bytes_def cache_field_at)

lemma container_requests:
  assumes "requests_fit structs reqs path ty" "ty_container ty \<noteq> CkScalar" "ty_kind ty \<noteq> VkU8"
  shows "no_requests reqs path"
proof -
  have "\<not> steps_ok structs ty rest" for rest
    using assms(2,3) by (cases rest; cases "ty_container ty") (auto simp: cachedKind_def)
  then show ?thesis using assms(1) by (auto simp: requests_fit_def no_requests_def)
qed

lemma descends_struct:
  assumes "requests_fit structs reqs path ty" "scan_requests reqs 0 path None False = (requested_id, True)"
  shows "ty_kind ty = VkStruct \<and> ty_container ty = CkScalar"
proof -
  from scan_requests_descends [OF assms(2)] obtain req where
    req: "req \<in> set reqs" "take (length path) (rf_steps req) = path" "length path < length (rf_steps req)" by auto
  then obtain i rest where "drop (length path) (rf_steps req) = i # rest"
    by (metis Cons_nth_drop_Suc)
  then show ?thesis using assms(1) req by (auto simp: requests_fit_def)
qed

lemma walkValue_put:
  assumes dist: "distinct (map rf_steps reqs)" and scan: "scan_requests reqs 0 path None False = (requested_id, d)"
    and fit: "requests_fit structs reqs path ty" and len: "length c = length reqs"
    and nested: "good_nested structs reqs little payload t left path nested"
    and val: "locatable structs left ty v"
    and payload: "payload = pre @ put_sv little p v @ post" "length pre = 4 + p"
  shows "walkValue structs nested ty requested_id d (reader_at little payload c t p)
    = (Inr (), reader_at little payload (marked reqs path (seek structs little p ty v) c) t (p + length (put_sv little p v)))"
proof -
  have check: "\<not> (d \<and> (ty_kind ty \<noteq> VkStruct \<or> ty_container ty \<noteq> CkScalar))"
    using descends_struct [OF fit] scan by (cases d) auto
  note leaf = marked_leaf [OF dist scan fit len]
  have fewer: "vs \<noteq> [] \<Longrightarrow> m \<noteq> 0 \<Longrightarrow> unat m * length vs \<le> k \<Longrightarrow> length vs \<le> k div unat m" for m :: u64 and k and vs :: "schema_value list"
    by (simp add: less_eq_div_iff_mult_less_eq unat_gt_0 mult.commute)
  show ?thesis
  proof (cases "ty_container ty")
    case CkScalar
    then show ?thesis
      using check walk_scalar_put [OF dist scan fit len nested val CkScalar payload] by (auto simp: walkValue_def)
  next
    case CkSequence
    then obtain vs where v: "v = SvSeq vs" using val by (cases v) auto
    let ?put = "put_uint little p 4 (of_nat (length vs))"
    let ?q = "p + length ?put"
    have count: "length vs < 2 ^ 32" "ty_maximum_container_count ty = 0 \<or> length vs \<le> unat (ty_maximum_container_count ty)"
      and sized: "sized_elements structs ty (length vs)" and elements: "locatable_elements structs left (element_type ty) vs"
      using val by (simp_all add: v)
    have pay: "payload = pre @ ?put @ (put_svs little ?q vs @ post)" "payload = (pre @ ?put) @ put_svs little ?q vs @ post"
      using payload(1) by (simp_all add: v)
    note read = put_length [OF pay(1) payload(2) count(1)]
    have "unat (ucast (of_nat (length vs) :: u32) :: u64) = length vs"
      using read(2) count(1) by (simp add: unsigned_ucast_eq take_bit_nat_eq_self)
    then have max: "\<not> (ty_maximum_container_count ty \<noteq> 0 \<and> ucast (of_nat (length vs) :: u32) > ty_maximum_container_count ty)"
      using count(2) by (auto simp: word_less_nat_alt)
    have plen: "length payload = 4 + ?q + length (put_svs little ?q vs) + length post"
      using pay(1) payload(2) by simp
    have rem: "remaining (reader_at little payload c t ?q) = length (put_svs little ?q vs) + length post"
      using plen by simp
    have end_pos: "p + length (put_sv little p v) = ?q + length (put_svs little ?q vs)" by (simp add: v)
    show ?thesis
    proof (cases "ty_kind ty = VkU8")
      case True
      have n: "length (put_svs little ?q vs) = length vs" by (rule put_u8_elements [OF elements True])
      have "marked reqs path (seek structs little p ty v) c = (case leaf little p ty v of None \<Rightarrow> c | Some cf \<Rightarrow> cput requested_id cf c)"
        by (rule leaf) (use CkSequence in \<open>auto simp: v neq_Nil_conv\<close>)
      then show ?thesis
        unfolding walkValue_def end_pos using check CkSequence True max rem
        by (auto simp: v read cdr_bind_def n walk_bytes_put add.assoc)
    next
      case False
      then have none: "no_requests reqs path" using container_requests [OF fit] CkSequence by simp
      have same: "marked reqs path S c = c" for S
        by (rule marked_none) (use none len in \<open>auto simp: no_requests_def\<close>)
      from sized_elements_positive [OF sized False elements, of little ?q] obtain m where
        m: "minimumSize structs kMaxTraversalDepth ty = Inr m" "vs \<noteq> [] \<longrightarrow> m \<noteq> 0"
        "unat m * length vs \<le> length (put_svs little ?q vs)" "\<forall>v p. v \<in> set vs \<longrightarrow> 0 < length (put_sv little p v)" .
      have "walk_elements ''CDR sequence element did not consume input'' (walk_scalar nested (element_type ty) None)
          (length vs) (reader_at little payload c t ?q) = (Inr (), reader_at little payload c t (?q + length (put_svs little ?q vs)))"
        by (rule walk_elements_put [OF dist none len nested elements _ pay(2)]) (use payload(2) m(4) in \<open>auto simp: element_type_def\<close>)
      moreover have "\<not> (of_nat (length vs) \<noteq> (0 :: u32) \<and> m = 0)"
        using m(2) by auto
      moreover have "\<not> (m \<noteq> 0 \<and> length vs > (length (put_svs little ?q vs) + length post) div unat m)"
        using fewer [of vs m "length (put_svs little ?q vs) + length post"] m(3) by (cases vs) (auto simp: not_less)
      ultimately show ?thesis
        unfolding walkValue_def end_pos same using check CkSequence False max rem
        by (auto simp: v read cdr_bind_def m(1) element_type_def)
    qed
  next
    case CkFixedArray
    then obtain vs where v: "v = SvArr vs" using val by (cases v) auto
    have count: "length vs = unat (ty_fixed_count ty)"
      and sized: "sized_elements structs ty (length vs)" and elements: "locatable_elements structs left (element_type ty) vs"
      using val unfolding v locatable.simps by blast+
    have pay: "payload = pre @ put_svs little p vs @ post" using payload(1) by (simp add: v)
    have rem: "remaining (reader_at little payload c t p) = length (put_svs little p vs) + length post"
      using pay payload(2) by simp
    show ?thesis
    proof (cases "ty_kind ty = VkU8")
      case True
      have n: "length (put_svs little p vs) = length vs" by (rule put_u8_elements [OF elements True])
      have "marked reqs path (seek structs little p ty v) c = (case leaf little p ty v of None \<Rightarrow> c | Some cf \<Rightarrow> cput requested_id cf c)"
        by (rule leaf) (use CkFixedArray in \<open>auto simp: v neq_Nil_conv\<close>)
      then show ?thesis
        unfolding walkValue_def using check CkFixedArray True rem count n
        by (auto simp: v walk_bytes_put)
    next
      case False
      then have none: "no_requests reqs path" using container_requests [OF fit] CkFixedArray by simp
      have same: "marked reqs path S c = c" for S
        by (rule marked_none) (use none len in \<open>auto simp: no_requests_def\<close>)
      from sized_elements_positive [OF sized False elements, of little p] obtain m where
        m: "minimumSize structs kMaxTraversalDepth ty = Inr m" "vs \<noteq> [] \<longrightarrow> m \<noteq> 0"
        "\<forall>v p. v \<in> set vs \<longrightarrow> 0 < length (put_sv little p v)" .
      have "walk_elements ''CDR fixed-array element did not consume input'' (walk_scalar nested (element_type ty) None)
          (length vs) (reader_at little payload c t p) = (Inr (), reader_at little payload c t (p + length (put_svs little p vs)))"
        by (rule walk_elements_put [OF dist none len nested elements _ pay payload(2)]) (use m(3) in \<open>auto simp: element_type_def\<close>)
      moreover have "\<not> (ty_fixed_count ty \<noteq> 0 \<and> m = 0)"
        using m(2) count by (cases vs) (auto simp: unat_eq_zero)
      ultimately show ?thesis
        unfolding walkValue_def same using check CkFixedArray False count
        by (auto simp: v m(1) element_type_def)
    qed
  qed
qed


subsection \<open>Structs\<close>

definition seek_from :: "CdrSchemaStruct list \<Rightarrow> bool \<Rightarrow> nat \<Rightarrow> CdrSchemaField list \<Rightarrow> schema_value list \<Rightarrow> nat
    \<Rightarrow> nat list \<Rightarrow> CachedField option" where
  "seek_from structs little p fs vs k rest = (case rest of
     [] \<Rightarrow> None | j # js \<Rightarrow> if j < k then None else seek_fields structs little p fs vs (j - k) js)"

lemma take_path_cases:
  "take (length path) steps = path \<longleftrightarrow> (\<exists>rest. steps = path @ rest)"
  by (metis append_eq_conv_conj append_take_drop_id)

lemma marked_field:
  "marked reqs path (seek_from structs little p (f # fs) (v # vs) k) c
   = marked reqs path (seek_from structs little (p + length (put_sv little p v)) fs vs (Suc k))
       (marked reqs (path @ [k]) (seek structs little p (sf_type f) v) c)"
proof (rule nth_equalityI)
  fix i
  assume "i < length (marked reqs path (seek_from structs little p (f # fs) (v # vs) k) c)"
  then have i: "i < length c" by simp
  show "marked reqs path (seek_from structs little p (f # fs) (v # vs) k) c ! i
   = marked reqs path (seek_from structs little (p + length (put_sv little p v)) fs vs (Suc k))
       (marked reqs (path @ [k]) (seek structs little p (sf_type f) v) c) ! i"
  proof (cases "\<exists>rest. rf_steps (reqs ! i) = path @ rest")
    case False
    then have "take (length (path @ [k])) (rf_steps (reqs ! i)) \<noteq> path @ [k]"
      unfolding take_path_cases by simp
    then show ?thesis
      using False i by (simp add: nth_marked take_path_cases)
  next
    case True
    then obtain rest where rest: "rf_steps (reqs ! i) = path @ rest" ..
    show ?thesis
    proof (cases rest)
      case Nil
      then show ?thesis using rest i by (simp add: nth_marked seek_from_def)
    next
      case (Cons j js)
      have "j < k \<or> j = k \<or> (\<exists>m. j = Suc (k + m))" by (metis less_imp_Suc_add linorder_less_linear)
      then show ?thesis
        using rest Cons i by (auto simp: nth_marked seek_from_def split: option.split)
    qed
  qed
qed simp

lemma requests_fit_field:
  assumes "requests_fit structs reqs path ty" "k < length (struct_fields structs ty)"
  shows "requests_fit structs reqs (path @ [k]) (sf_type (struct_fields structs ty ! k))"
  unfolding requests_fit_def
proof (intro ballI impI)
  fix req
  assume req: "req \<in> set reqs" "take (length (path @ [k])) (rf_steps req) = path @ [k]"
  then obtain rest where "rf_steps req = path @ k # rest" by (auto simp only: take_path_cases append_assoc append_Cons append_Nil)
  then show "steps_ok structs (sf_type (struct_fields structs ty ! k)) (drop (length (path @ [k])) (rf_steps req))"
    using assms(1) req(1) by (force simp: requests_fit_def)
qed

lemma walk_fields_put:
  assumes dist: "distinct (map rf_steps reqs)" and fit: "requests_fit structs reqs path ty" 
    and nested: "\<And>path. good_nested structs reqs little payload t left path (nested path)"
    and fields: "struct_fields structs ty = done_fields @ fs" "k = length done_fields"
    and val: "locatable_fields structs left fs vs"
    and payload: "payload = pre @ put_svs little p vs @ post" "length pre = 4 + p" and len: "length c = length reqs"
  shows "walk_fields (\<lambda>path ty r. case scan_requests reqs 0 path None False of (requested_id, has_descendant) \<Rightarrow>
      walkValue structs (nested path) ty requested_id has_descendant r) path k fs (reader_at little payload c t p)
    = (Inr (), reader_at little payload (marked reqs path (seek_from structs little p fs vs k) c) t
        (p + length (put_svs little p vs)))"
  using fields val payload len
proof (induction fs arbitrary: vs p pre c k done_fields)
  case Nil
  then have "vs = []" by (cases vs) simp_all
  moreover have "marked reqs path (seek_from structs little p [] [] k) c = c"
    by (rule marked_none) (simp add: seek_from_def split: list.split)
  ultimately show ?case by simp
next
  case (Cons f fs)
  then obtain v vs' where vs: "vs = v # vs'" by (cases vs) simp_all
  let ?q = "p + length (put_sv little p v)"
  obtain requested_id d where scan: "scan_requests reqs 0 (path @ [k]) None False = (requested_id, d)"
    by (cases "scan_requests reqs 0 (path @ [k]) None False")
  have fit_k: "requests_fit structs reqs (path @ [k]) (sf_type f)"
    using requests_fit_field [OF fit, of k] Cons.prems(1,2) by simp
  have val: "locatable structs left (sf_type f) v" "locatable_fields structs left fs vs'"
    using Cons.prems(3) by (simp_all add: vs)
  have pay: "payload = pre @ put_sv little p v @ (put_svs little ?q vs' @ post)"
      "payload = (pre @ put_sv little p v) @ put_svs little ?q vs' @ post"
    using Cons.prems(4) by (simp_all add: vs)
  note here = walkValue_put [OF dist scan fit_k Cons.prems(6) nested val(1) pay(1) Cons.prems(5)]
  have rest: "walk_fields (\<lambda>path ty r. case scan_requests reqs 0 path None False of (requested_id, has_descendant) \<Rightarrow>
      walkValue structs (nested path) ty requested_id has_descendant r) path (Suc k) fs
      (reader_at little payload (marked reqs (path @ [k]) (seek structs little p (sf_type f) v) c) t ?q)
    = (Inr (), reader_at little payload (marked reqs path (seek_from structs little ?q fs vs' (Suc k))
        (marked reqs (path @ [k]) (seek structs little p (sf_type f) v) c)) t (?q + length (put_svs little ?q vs')))"
    by (rule Cons.IH [where done_fields = "done_fields @ [f]" and pre = "pre @ put_sv little p v"])
      (use Cons.prems(1,2,5,6) val(2) pay(2) in simp_all)
  show ?case
    unfolding vs marked_field
    by (simp add: scan here cdr_bind_def rest add.assoc)
qed

lemma walkStruct_put:
  assumes "distinct (map rf_steps (tp_requested plan))"
  shows "good_nested (tp_structs plan) (tp_requested plan) little payload t left path (walkStruct plan left path)"
proof (induction left arbitrary: path)
  case 0
  then show ?case by (simp add: good_nested_def)
next
  case (Suc left)
  show ?case
    unfolding good_nested_def
  proof (intro allI impI)
    fix ty vs p pre and post :: bytes
    fix c :: "CachedField list"
    assume val: "locatable (tp_structs plan) (Suc left) ty (SvStruct vs)" and fit: "requests_fit (tp_structs plan) (tp_requested plan) path ty"
      and payload: "payload = pre @ put_svs little p vs @ post" "length pre = 4 + p" and len: "length c = length (tp_requested plan)"
    have fields: "ss_fields (tp_structs plan ! the (ty_nested_index ty)) = struct_fields (tp_structs plan) ty"
      by (simp add: struct_fields_def)
    have seek: "marked (tp_requested plan) path (seek_from (tp_structs plan) little p (struct_fields (tp_structs plan) ty) vs 0) c
        = marked (tp_requested plan) path (seek (tp_structs plan) little p ty (SvStruct vs)) c"
    proof (rule nth_equalityI)
      fix i
      assume "i < length (marked (tp_requested plan) path (seek_from (tp_structs plan) little p (struct_fields (tp_structs plan) ty) vs 0) c)"
      then show "marked (tp_requested plan) path (seek_from (tp_structs plan) little p (struct_fields (tp_structs plan) ty) vs 0) c ! i
        = marked (tp_requested plan) path (seek (tp_structs plan) little p ty (SvStruct vs)) c ! i"
        by (simp add: nth_marked seek_from_def split: list.split)
    qed simp
    show "walkStruct plan (Suc left) path (the (ty_nested_index ty)) (reader_at little payload c t p) =
      (Inr (), reader_at little payload (marked (tp_requested plan) path (seek (tp_structs plan) little p ty (SvStruct vs)) c) t
         (p + length (put_svs little p vs)))"
      unfolding walkStruct.simps fields seek [symmetric]
      by (rule walk_fields_put [OF assms fit Suc.IH _ _ _ payload len, where done_fields = "[]"]) (use val in simp_all)
  qed
qed

subsection \<open>Compiled plans\<close>

definition root_type :: "nat \<Rightarrow> CdrSchemaType" where
  "root_type i = default_CdrSchemaType\<lparr>ty_kind := VkStruct, ty_nested_index := Some i\<rparr>"

fun kind_at :: "CdrSchemaStruct list \<Rightarrow> CdrSchemaType \<Rightarrow> nat list \<Rightarrow> CachedKind" where
  "kind_at structs ty [] = cachedKind ty"
| "kind_at structs ty (i # is) = kind_at structs (sf_type (struct_fields structs ty ! i)) is"

text \<open>The text of a path of indices: names joined by dots.\<close>

fun path_text :: "CdrSchemaStruct list \<Rightarrow> CdrSchemaType \<Rightarrow> nat list \<Rightarrow> string" where
  "path_text structs ty [] = []"
| "path_text structs ty (i # is) = sf_name (struct_fields structs ty ! i)
     @ (if is = [] then [] else ''.'' @ path_text structs (sf_type (struct_fields structs ty ! i)) is)"

lemma find_name_Some:
  "find_name n fs = Some (i, ty) \<Longrightarrow> i < length fs \<and> sf_name (fs ! i) = n \<and> sf_type (fs ! i) = ty"
  by (induction fs arbitrary: i) (auto split: if_splits)

lemma split_at_parts: "split_at c s = (a, r) \<Longrightarrow> s = a @ (case r of None \<Rightarrow> [] | Some b \<Rightarrow> c # b)"
proof -
  assume s: "split_at c s = (a, r)"
  obtain a_eq: "a = takeWhile (\<lambda>x. x \<noteq> c) s" and r_eq: "r = (case dropWhile (\<lambda>x. x \<noteq> c) s of [] \<Rightarrow> None | _ # b \<Rightarrow> Some b)"
    using s by (simp add: split_at_def)
  have join: "s = a @ dropWhile (\<lambda>x. x \<noteq> c) s" unfolding a_eq by simp
  show ?thesis
  proof (cases "dropWhile (\<lambda>x. x \<noteq> c) s")
    case Nil
    then have "r = None" unfolding r_eq by (simp only: list.case)
    with join Nil show ?thesis by simp
  next
    case (Cons d b)
    then have "d = c" using hd_dropWhile [of "\<lambda>x. x \<noteq> c" s] by auto
    moreover have "r = Some b" using Cons by (simp add: r_eq)
    ultimately show ?thesis using join Cons by simp
  qed
qed

lemma schema_ok_field:
  assumes "schema_ok structs" "i < length structs" "k < length (ss_fields (structs ! i))"
    "ty_kind (sf_type (ss_fields (structs ! i) ! k)) = VkStruct"
  obtains n where "ty_nested_index (sf_type (ss_fields (structs ! i) ! k)) = Some n" "n < length structs"
  using assms unfolding schema_ok_def by (metis nth_mem)

lemma compilePath_loop_steps:
  "compilePath_loop structs path i steps = Inr (steps', kind) \<Longrightarrow> schema_ok structs \<Longrightarrow> i < length structs \<Longrightarrow>
     ty_nested_index ty = Some i \<Longrightarrow> ty_kind ty = VkStruct \<Longrightarrow> ty_container ty = CkScalar \<Longrightarrow>
     \<exists>rest. steps' = steps @ rest \<and> rest \<noteq> [] \<and> steps_ok structs ty rest \<and> path = path_text structs ty rest
       \<and> kind = kind_at structs ty rest"
proof (induction structs path i steps arbitrary: ty rule: compilePath_loop.induct)
  case (1 structs path i steps)
  have fs: "ss_fields (structs ! i) = struct_fields structs ty" using "1.prems"(4) by (simp add: struct_fields_def)
  obtain component rest where sp: "split_at CHR ''.'' path = (component, rest)" by (cases "split_at CHR ''.'' path")
  note step = "1.prems"(1) [unfolded compilePath_loop.simps [of structs path i steps] sp prod.case fs]
  from step obtain k fty where f: "find_name component (struct_fields structs ty) = Some (k, fty)"
    by (auto split: if_splits option.splits)
  note found = find_name_Some [OF f]
  show ?case
  proof (cases rest)
    case None
    then have "steps' = steps @ [k]" "kind = cachedKind fty" "cachedKind fty \<noteq> kUnknown" "path = component"
      using step f split_at_parts [OF sp] by (auto split: if_splits)
    then show ?thesis using found "1.prems"(5,6) by (intro exI [of _ "[k]"]) auto
  next
    case (Some tail)
    have fty: "ty_kind fty = VkStruct" "ty_container fty = CkScalar"
      and loop: "compilePath_loop structs tail (the (ty_nested_index fty)) (steps @ [k]) = Inr (steps', kind)"
      and ne: "path \<noteq> []" "component \<noteq> []" and short: "\<not> length steps + 1 \<ge> kMaxTraversalDepth"
      using step f Some by (auto split: if_splits)
    obtain n where n: "ty_nested_index fty = Some n" "n < length structs"
      using schema_ok_field [OF "1.prems"(2,3), of k] found fs fty(1) by auto
    have "\<exists>r. steps' = (steps @ [k]) @ r \<and> r \<noteq> [] \<and> steps_ok structs fty r \<and> tail = path_text structs fty r
        \<and> kind = kind_at structs fty r"
      by (rule "1.IH" [OF ne(1) sp [symmetric] ne(2) f [folded fs] refl Some _ short loop "1.prems"(2) _ _ fty])
        (use fty n in simp_all)
    then obtain r where r: "steps' = (steps @ [k]) @ r" "r \<noteq> []" "steps_ok structs fty r" "tail = path_text structs fty r"
        "kind = kind_at structs fty r" by blast
    then show ?thesis
      using found "1.prems"(5,6) split_at_parts [OF sp] Some by (intro exI [of _ "k # r"]) auto
  qed
qed


text \<open>Distinct paths take distinct steps.\<close>

lemma locate_loop_requests:
  "locate_loop structs paths acc = Inr reqs \<Longrightarrow> distinct (map rf_path acc) \<Longrightarrow>
     (\<forall>req \<in> set acc. compilePath structs (rf_path req) = Inr req) \<Longrightarrow>
     distinct (map rf_path reqs) \<and> (\<forall>req \<in> set reqs. compilePath structs (rf_path req) = Inr req)"
proof (induction structs paths acc rule: locate_loop.induct)
  case (2 structs path paths acc)
  obtain req where req: "compilePath structs path = Inr req"
    using 2(2) by (auto split: sum.splits)
  then have new: "\<not> (\<exists>e \<in> set acc. rf_path e = rf_path req)" "locate_loop structs paths (acc @ [req]) = Inr reqs"
    using 2(2) by (auto split: if_splits)
  have "rf_path req = path" using req by (auto simp: compilePath_def split: if_splits sum.splits)
  moreover have "rf_path req \<notin> rf_path ` set acc" using new(1) by (metis imageE)
  ultimately show ?case
    using 2(1) [OF req new] 2(3,4) new req by auto
qed simp

definition plan_ok :: "CdrTraversalPlan \<Rightarrow> bool" where
  "plan_ok plan \<longleftrightarrow> schema_ok (tp_structs plan) \<and> tp_requested plan \<noteq> [] \<and> distinct (map rf_steps (tp_requested plan))
     \<and> (\<forall>req \<in> set (tp_requested plan). steps_ok (tp_structs plan) (root_type 0) (rf_steps req)
          \<and> rf_path req = path_text (tp_structs plan) (root_type 0) (rf_steps req)
          \<and> rf_cached_kind req = kind_at (tp_structs plan) (root_type 0) (rf_steps req))"

lemma locate_ok:
  assumes "locate (CdrFieldLocator schema) paths = Inr plan"
  shows "plan_ok plan"
proof -
  obtain structs reqs where l: "parse_schema schema = Inr structs" "locate_loop structs paths [] = Inr reqs" "reqs \<noteq> []"
      "plan = \<lparr>tp_structs = structs, tp_requested = reqs\<rparr>"
    using assms by (auto simp: locate_def CdrFieldLocator_def split: sum.splits if_splits)
  have ok: "schema_ok structs" by (rule parse_schema_ok [OF l(1)])
  then have "0 < length structs" by (simp add: schema_ok_def)
  note reqs = locate_loop_requests [OF l(2), simplified]
  have req: "steps_ok structs (root_type 0) (rf_steps req) \<and> rf_path req = path_text structs (root_type 0) (rf_steps req)
      \<and> rf_cached_kind req = kind_at structs (root_type 0) (rf_steps req)" if "req \<in> set reqs" for req
  proof -
    have "compilePath structs (rf_path req) = Inr req" using reqs that by blast
    then have "compilePath_loop structs (rf_path req) 0 [] = Inr (rf_steps req, rf_cached_kind req)"
      by (cases req) (auto simp: compilePath_def split: if_splits sum.splits)
    from compilePath_loop_steps [OF this ok \<open>0 < length structs\<close>, of "root_type 0"]
    show ?thesis by (simp add: root_type_def default_CdrSchemaType_def)
  qed
  then have "map rf_path reqs = map (path_text structs (root_type 0)) (map rf_steps reqs)" by simp
  then have "distinct (map rf_steps reqs)" using reqs by (metis distinct_map)
  then show ?thesis using ok req l by (simp add: plan_ok_def)
qed

subsection \<open>Every accessor returns the value of its field\<close>

fun value_at :: "schema_value \<Rightarrow> nat list \<Rightarrow> schema_value option" where
  "value_at v [] = Some v"
| "value_at (SvStruct vs) (i # is) = (if i < length vs then value_at (vs ! i) is else None)"
| "value_at _ (i # is) = None"

fun octets_of :: "schema_value list \<Rightarrow> bytes" where
  "octets_of [] = []"
| "octets_of (v # vs) = (case v of SvNum w n \<Rightarrow> ucast n | _ \<Rightarrow> 0) # octets_of vs"

text \<open>What the payload holds at a place, against the value that was written.\<close>

fun holds :: "bool \<Rightarrow> bytes \<Rightarrow> CachedField \<Rightarrow> schema_value \<Rightarrow> bool" where
  "holds little payload cf (SvNum w n) \<longleftrightarrow> cf_size cf = w \<and> bytes_value little (take w (drop (cf_offset cf) payload)) = n"
| "holds little payload cf (SvStr s) \<longleftrightarrow> cf_kind cf = kCString \<and> take (cf_size cf) (drop (cf_offset cf) payload) = s"
| "holds little payload cf (SvStruct vs) \<longleftrightarrow> False"
| "holds little payload cf (SvSeq vs) \<longleftrightarrow> cf_kind cf = kCBytes \<and> take (cf_size cf) (drop (cf_offset cf) payload) = octets_of vs"
| "holds little payload cf (SvArr vs) \<longleftrightarrow> cf_kind cf = kCBytes \<and> take (cf_size cf) (drop (cf_offset cf) payload) = octets_of vs"

lemma put_octet: "put_uint little p 1 n = [ucast n]"
  by (simp add: put_uint_def uint_bytes_def Let_def)

lemma put_u8_octets:
  assumes "locatable_elements structs left (element_type ty) vs" "ty_kind ty = VkU8"
  shows "put_svs little p vs = octets_of vs"
  using assms(1)
proof (induction vs arbitrary: p)
  case (Cons v vs)
  obtain n where "v = SvNum 1 n"
    using Cons.prems assms(2) by (cases v) (auto simp: element_type_def primitiveSize_def)
  then have "put_sv little p v = [case v of SvNum w n \<Rightarrow> ucast n | _ \<Rightarrow> 0]" for p
    by (simp add: put_octet del: One_nat_def)
  then show ?case using Cons by simp
qed simp

lemma leaf_holds:
  assumes "locatable structs left ty v" "cachedKind ty \<noteq> kUnknown" "payload = pre @ put_sv little p v @ post" "length pre = 4 + p"
  shows "\<exists>cf. leaf little p ty v = Some cf \<and> cf_located cf \<and> cf_kind cf = cachedKind ty \<and> holds little payload cf v"
proof (cases v)
  case (SvNum w n)
  have w: "w \<le> 8" using assms(1) SvNum by (auto simp: primitiveSize_def split: CdrValueKind.splits)
  have "take w (drop (4 + p + (w - p mod w) mod w) payload) = uint_bytes little w n"
    using assms(3,4) SvNum by (simp add: put_uint_def)
  moreover have "take_bit (8 * w) n = n"
  proof (cases "w = 8")
    case True
    then show ?thesis by (simp add: take_bit_word_eq_self)
  next
    case False
    then show ?thesis
      using assms(1) SvNum by (auto simp: primitiveSize_def word_less_nat_alt word_unat_eq_iff unsigned_take_bit_eq
          take_bit_nat_eq_self split: CdrValueKind.splits)
  qed
  ultimately show ?thesis
    using SvNum bytes_value_uint_bytes [OF w, of little n] by (simp add: located_def)
next
  case (SvStr s)
  then show ?thesis using assms by (auto simp: located_def cachedKind_def)
next
  case (SvStruct vs)
  then show ?thesis using assms by (auto simp: cachedKind_def)
next
  case (SvSeq vs)
  then have u8: "ty_kind ty = VkU8" using assms by (auto simp: cachedKind_def split: if_splits)
  then show ?thesis
    using SvSeq assms put_u8_octets [of structs left ty vs little] put_u8_elements [of structs left ty vs little]
    by (auto simp: located_def cachedKind_def)
next
  case (SvArr vs)
  then have u8: "ty_kind ty = VkU8" using assms by (auto simp: cachedKind_def split: if_splits)
  then show ?thesis
    using SvArr assms put_u8_octets [of structs left ty vs little] put_u8_elements [of structs left ty vs little]
    by (auto simp: located_def cachedKind_def)
qed


lemma locatable_fields_nth:
  "locatable_fields structs left fs vs \<Longrightarrow> length vs = length fs \<and>
     (\<forall>i < length fs. locatable structs left (sf_type (fs ! i)) (vs ! i))"
proof (induction fs arbitrary: vs)
  case Nil
  then show ?case by (cases vs) simp_all
next
  case (Cons f fs)
  then show ?case by (cases vs) (auto simp: nth_Cons split: nat.split)
qed

lemma put_svs_append: "put_svs little p (xs @ ys) = put_svs little p xs @ put_svs little (p + length (put_svs little p xs)) ys"
  by (induction xs arbitrary: p) (simp_all add: add.assoc)

lemma seek_fields_nth:
  "i < length fs \<Longrightarrow> length vs = length fs \<Longrightarrow> seek_fields structs little p fs vs i is
     = seek structs little (p + length (put_svs little p (take i vs))) (sf_type (fs ! i)) (vs ! i) is"
proof (induction fs arbitrary: vs i p)
  case (Cons f fs)
  then obtain v vs' where "vs = v # vs'" by (cases vs) simp_all
  then show ?case using Cons by (cases i) (simp_all add: add.assoc)
qed simp

lemma seek_holds:
  "locatable structs left ty v \<Longrightarrow> steps_ok structs ty steps \<Longrightarrow> payload = pre @ put_sv little p v @ post \<Longrightarrow> length pre = 4 + p \<Longrightarrow>
     \<exists>cf sub. seek structs little p ty v steps = Some cf \<and> value_at v steps = Some sub \<and> cf_located cf
       \<and> cf_kind cf = kind_at structs ty steps \<and> holds little payload cf sub"
proof (induction steps arbitrary: left ty v p pre post)
  case Nil
  then show ?case using leaf_holds [OF Nil(1)] by simp
next
  case (Cons i "is")
  then obtain vs where v: "v = SvStruct vs" by (cases v) auto
  let ?fs = "struct_fields structs ty"
  have fields: "locatable_fields structs (left - 1) ?fs vs" "i < length ?fs" "steps_ok structs (sf_type (?fs ! i)) is"
    using Cons.prems v by auto
  note nth = locatable_fields_nth [OF fields(1)]
  let ?q = "p + length (put_svs little p (take i vs))"
  have "put_svs little p vs = put_svs little p (take i vs) @ put_sv little ?q (vs ! i)
      @ put_svs little (?q + length (put_sv little ?q (vs ! i))) (drop (Suc i) vs)"
    using put_svs_append [of little p "take i vs" "vs ! i # drop (Suc i) vs"] nth fields(2)
    by (simp only: id_take_nth_drop [symmetric] put_svs.simps)
  then have "payload = (pre @ put_svs little p (take i vs)) @ put_sv little ?q (vs ! i)
      @ (put_svs little (?q + length (put_sv little ?q (vs ! i))) (drop (Suc i) vs) @ post)"
    using Cons.prems(3) v by simp
  from Cons.IH [OF _ fields(3) this] nth fields(2) Cons.prems(4)
  have "\<exists>cf sub. seek structs little ?q (sf_type (?fs ! i)) (vs ! i) is = Some cf \<and> value_at (vs ! i) is = Some sub
      \<and> cf_located cf \<and> cf_kind cf = kind_at structs (sf_type (?fs ! i)) is \<and> holds little payload cf sub"
    by (auto simp: add.assoc)
  then show ?case using nth fields(2) by (simp add: v seek_fields_nth)
qed

definition schema_payload :: "bool \<Rightarrow> schema_value list \<Rightarrow> bytes" where
  "schema_payload little vs = [0, if little then 1 else 0, 0, 0] @ put_svs little 0 vs"

text \<open>The reader after its one traversal, and every state before and after.\<close>

definition traversed :: "CdrTraversalPlan \<Rightarrow> bool \<Rightarrow> schema_value list \<Rightarrow> CdrReader" where
  "traversed plan little vs = reader_at little (schema_payload little vs)
     (marked (tp_requested plan) [] (seek (tp_structs plan) little 0 (root_type 0) (SvStruct vs))
        (replicate (length (tp_requested plan)) default_CachedField)) 1 (length (put_svs little 0 vs))"

lemma seek_request:
  assumes plan: "plan_ok plan"
    and val: "locatable (tp_structs plan) kMaxTraversalDepth (root_type 0) (SvStruct vs)"
    and i: "i < length (tp_requested plan)"
  obtains sub where "value_at (SvStruct vs) (rf_steps (tp_requested plan ! i)) = Some sub"
    "cf_located (cr_cached_fields (traversed plan little vs) ! i)"
    "cf_kind (cr_cached_fields (traversed plan little vs) ! i) = rf_cached_kind (tp_requested plan ! i)"
    "holds little (schema_payload little vs) (cr_cached_fields (traversed plan little vs) ! i) sub"
proof -
  let ?req = "tp_requested plan ! i"
  have req: "steps_ok (tp_structs plan) (root_type 0) (rf_steps ?req)"
    "rf_cached_kind ?req = kind_at (tp_structs plan) (root_type 0) (rf_steps ?req)"
    using plan i by (simp_all add: plan_ok_def)
  have "\<exists>cf sub. seek (tp_structs plan) little 0 (root_type 0) (SvStruct vs) (rf_steps ?req) = Some cf
      \<and> value_at (SvStruct vs) (rf_steps ?req) = Some sub \<and> cf_located cf
      \<and> cf_kind cf = kind_at (tp_structs plan) (root_type 0) (rf_steps ?req) \<and> holds little (schema_payload little vs) cf sub"
    by (rule seek_holds [OF val req(1), where pre = "[0, if little then 1 else 0, 0, 0]" and post = "[]"])
      (simp_all add: schema_payload_def)
  then show thesis
    using i req(2) by (auto simp: traversed_def reader_at_def nth_marked intro: that)
qed

lemma ensure_traverses:
  assumes plan: "plan_ok plan"
    and val: "locatable (tp_structs plan) kMaxTraversalDepth (root_type 0) (SvStruct vs)"
  shows "ensurePlannedFields (Some plan) (planned_reader (Buffer (schema_payload little vs)) plan) = (Inr (), traversed plan little vs)"
proof -
  let ?c = "replicate (length (tp_requested plan)) default_CachedField"
  have reader: "planned_reader (Buffer (schema_payload little vs)) plan = reader_at little (schema_payload little vs) ?c 0 0"
    by (auto simp: planned_reader_def cdr_reader_def cdr_initialize_def blank_reader_def schema_payload_def reader_at_def Let_def)
  have nested: "good_nested (tp_structs plan) (tp_requested plan) little (schema_payload little vs) 1 kMaxTraversalDepth []
      (walkStruct plan kMaxTraversalDepth [])"
    by (rule walkStruct_put) (use plan in \<open>simp add: plan_ok_def\<close>)
  have fit: "requests_fit (tp_structs plan) (tp_requested plan) [] (root_type 0)"
    using plan by (simp add: requests_fit_def plan_ok_def)
  have "walkStruct plan kMaxTraversalDepth [] (the (ty_nested_index (root_type 0))) (reader_at little (schema_payload little vs) ?c 1 0)
      = (Inr (), reader_at little (schema_payload little vs)
          (marked (tp_requested plan) [] (seek (tp_structs plan) little 0 (root_type 0) (SvStruct vs)) ?c) 1
          (0 + length (put_svs little 0 vs)))"
    using nested val fit unfolding good_nested_def
    by (elim allE [of _ "root_type 0"] allE [of _ vs] allE [of _ ?c] allE [of _ 0] allE [of _ "[0, if little then 1 else 0, 0, 0]"]
        allE [of _ "[]"]) (simp add: schema_payload_def)
  then have walk: "walkStruct plan kMaxTraversalDepth [] 0 (reader_at little (schema_payload little vs) ?c 1 0) = (Inr (), traversed plan little vs)"
    by (simp add: traversed_def root_type_def)
  have "list_all cf_located (cr_cached_fields (traversed plan little vs))"
    unfolding list_all_length
  proof (intro allI impI)
    fix i
    assume "i < length (cr_cached_fields (traversed plan little vs))"
    then have "i < length (tp_requested plan)" by (simp add: traversed_def reader_at_def)
    then show "cf_located (cr_cached_fields (traversed plan little vs) ! i)" by (rule seek_request [OF plan val])
  qed
  with walk show ?thesis
    unfolding reader
    by (simp add: ensurePlannedFields_def reader_at_def locateAll_def cdr_bind_def)
      (simp add: traversed_def reader_at_def)
qed

lemma cached_stable:
  assumes "ensurePlannedFields plan r = (Inr (), T)"
  shows "cached plan field kind r = (Inr v, s) \<Longrightarrow> s = T" "cached plan field kind r = (Inl e, s) \<Longrightarrow> \<not> isOk (cr_status s)"
  using assms by (auto simp: cached_def cdr_bind_def cdr_fail_def Let_def split: if_splits)

lemma cached_failed: "\<not> isOk (cr_status r) \<Longrightarrow> cached plan field kind r = (Inl (cr_status r), r)"
  by (simp add: cached_def ensurePlannedFields_def cdr_bind_def)

lemma planned_states:
  assumes "plan_ok plan" "locatable (tp_structs plan) kMaxTraversalDepth (root_type 0) (SvStruct vs)"
    and "planned (Buffer (schema_payload little vs)) plan r" "isOk (cr_status r)"
  shows "ensurePlannedFields (Some plan) r = (Inr (), traversed plan little vs)"
  using assms(3,4)
proof (induction rule: planned.induct)
  case start
  show ?case by (rule ensure_traverses [OF assms(1,2)])
next
  case (access r field kind)
  obtain res s where c: "cached (Some plan) field kind r = (res, s)" by (cases "cached (Some plan) field kind r")
  have "isOk (cr_status r)"
    using access(3) cached_failed by fastforce
  from access.IH [OF this] cached_stable c access(3) have "s = traversed plan little vs"
    by (cases res) fastforce+
  then show ?case by (simp add: c ensurePlannedFields_def traversed_def reader_at_def)
next
  case (access_boolean r field)
  obtain res s where c: "cached (Some plan) field kCBool r = (res, s)" by (cases "cached (Some plan) field kCBool r")
  have state: "snd (field_boolean (Some plan) field r) = s \<or> \<not> isOk (cr_status (snd (field_boolean (Some plan) field r)))"
    by (cases res) (simp_all add: field_boolean_def cachedUnsigned_def c cdr_bind_def cdr_fail_def)
  then have s: "snd (field_boolean (Some plan) field r) = s" "isOk (cr_status s)"
    using access_boolean(3) by auto
  have ok: "isOk (cr_status r)"
  proof (rule ccontr)
    assume "\<not> isOk (cr_status r)"
    with cached_failed [of r "Some plan" field kCBool] c s(2) show False by simp
  qed
  have "s = traversed plan little vs"
  proof (cases res)
    case (Inl e)
    then show ?thesis using cached_stable(2) [OF access_boolean.IH [OF ok]] c s(2) by blast
  next
    case (Inr v)
    then show ?thesis using cached_stable(1) [OF access_boolean.IH [OF ok]] c by blast
  qed
  then show ?case by (simp add: s(1) ensurePlannedFields_def traversed_def reader_at_def)
qed

text \<open>
  Any accessor at any time: the field it asks for holds the value at its path, provided no access
  failed before (asking for the wrong kind makes the reader fail for good).
\<close>

lemma planned_finds:
  assumes plan: "plan_ok plan" "locatable (tp_structs plan) kMaxTraversalDepth (root_type 0) (SvStruct vs)"
    and r: "planned (Buffer (schema_payload little vs)) plan r" "isOk (cr_status r)"
    and i: "i < length (tp_requested plan)" "kind = rf_cached_kind (tp_requested plan ! i)"
  obtains sub cf where "value_at (SvStruct vs) (rf_steps (tp_requested plan ! i)) = Some sub"
    "cached (Some plan) i kind r = (Inr cf, traversed plan little vs)" "holds little (schema_payload little vs) cf sub"
proof -
  let ?cf = "cr_cached_fields (traversed plan little vs) ! i"
  obtain sub where sub: "value_at (SvStruct vs) (rf_steps (tp_requested plan ! i)) = Some sub" "cf_located ?cf"
      "cf_kind ?cf = kind" "holds little (schema_payload little vs) ?cf sub"
    using seek_request [OF plan i(1)] i(2) by metis
  moreover have "length (cr_cached_fields (traversed plan little vs)) = length (tp_requested plan)"
    by (simp add: traversed_def reader_at_def)
  ultimately have "cached (Some plan) i kind r = (Inr ?cf, traversed plan little vs)"
    using i(1) by (simp add: cached_def planned_states [OF plan r] cdr_bind_def Let_def)
  from that [OF sub(1) this sub(4)] show thesis .
qed

lemma traversed_simps: "cr_little_endian (traversed plan little vs) = little"
  "payload_slice (traversed plan little vs) offset n = take n (drop offset (schema_payload little vs))"
  by (simp_all add: traversed_def reader_at_def payload_slice_def)

lemma planned_number:
  assumes plan: "plan_ok plan" "locatable (tp_structs plan) kMaxTraversalDepth (root_type 0) (SvStruct vs)"
    and r: "planned (Buffer (schema_payload little vs)) plan r" "isOk (cr_status r)"
    and i: "i < length (tp_requested plan)" "value_at (SvStruct vs) (rf_steps (tp_requested plan ! i)) = Some (SvNum w n)"
  shows "cachedUnsigned (Some plan) i (rf_cached_kind (tp_requested plan ! i)) w r = (Inr n, traversed plan little vs)"
proof -
  obtain cf where "cached (Some plan) i (rf_cached_kind (tp_requested plan ! i)) r = (Inr cf, traversed plan little vs)"
      "holds little (schema_payload little vs) cf (SvNum w n)"
    by (rule planned_finds [OF plan r i(1) refl]) (use i(2) in auto)
  then show ?thesis by (simp add: cachedUnsigned_def cdr_bind_def traversed_simps)
qed

lemma planned_string:
  assumes plan: "plan_ok plan" "locatable (tp_structs plan) kMaxTraversalDepth (root_type 0) (SvStruct vs)"
    and r: "planned (Buffer (schema_payload little vs)) plan r" "isOk (cr_status r)"
    and i: "i < length (tp_requested plan)" "value_at (SvStruct vs) (rf_steps (tp_requested plan ! i)) = Some (SvStr s)"
  shows "field_string (Some plan) i r = (Inr s, traversed plan little vs)"
proof -
  obtain cf where cf: "cached (Some plan) i (rf_cached_kind (tp_requested plan ! i)) r = (Inr cf, traversed plan little vs)"
      "holds little (schema_payload little vs) cf (SvStr s)"
    by (rule planned_finds [OF plan r i(1) refl]) (use i(2) in auto)
  then have "rf_cached_kind (tp_requested plan ! i) = kCString"
    by (auto simp: cached_def cdr_bind_def cdr_fail_def Let_def split: prod.splits sum.splits if_splits)
  with cf show ?thesis by (simp add: field_string_def cdr_bind_def traversed_simps)
qed

end
