(* ===== verification/ClaimCatalog.thy ===== *)
theory ClaimCatalog
  imports Prelude SemVer BuiltinObject
begin

section \<open>Parser claims (\<open>host/parser_claim_catalog.hpp\<close>, \<open>parser_claim_catalog.cpp\<close>)\<close>

text \<open>
  Which parser may serve which encoding and type: the validation and normal form of one claim, the
  decoding of a module manifest, the claims a parser plugin stands for, and the catalog that admits
  batches of claims. The JSON library is a parameter (\<open>json_api\<close>): its parser and the accessors the
  code calls. The diagnostic sink is the list of the diagnostics delivered to it, without their
  time stamps; a message is the text the code builds.
\<close>

subsection \<open>Claims\<close>

datatype ParserClaimProvenance = kFolderDrop | kMarketplace | kBundled

text \<open>Trust tiers are compared by their numbers.\<close>

fun provenanceValue :: "ParserClaimProvenance \<Rightarrow> nat" where
  "provenanceValue kFolderDrop = 0"
| "provenanceValue kMarketplace = 1"
| "provenanceValue kBundled = 2"

instantiation ParserClaimProvenance :: linorder
begin

definition less_eq_ParserClaimProvenance :: "ParserClaimProvenance \<Rightarrow> ParserClaimProvenance \<Rightarrow> bool" where
  "a \<le> b \<longleftrightarrow> provenanceValue a \<le> provenanceValue b"

definition less_ParserClaimProvenance :: "ParserClaimProvenance \<Rightarrow> ParserClaimProvenance \<Rightarrow> bool" where
  "a < b \<longleftrightarrow> provenanceValue a < provenanceValue b"

instance
proof
  fix a b :: ParserClaimProvenance
  show "a \<le> b \<Longrightarrow> b \<le> a \<Longrightarrow> a = b"
    by (cases a; cases b) (simp_all add: less_eq_ParserClaimProvenance_def)
qed (auto simp: less_eq_ParserClaimProvenance_def less_ParserClaimProvenance_def)

end

text \<open>The object type of a claim is the number of the enumeration: a cast can make it any number.\<close>

record ParserClaim =
  pc_encoding :: string
  pc_type_name :: string
  pc_route_flags :: u16
  pc_object_type :: "u16 option"
  pc_schema_digests :: "string set"
  pc_provider_id :: string
  pc_claim_id :: string
  pc_priority :: "32 word"
  pc_provenance :: ParserClaimProvenance

record ParserClaimEntry =
  pe_claim :: ParserClaim
  pe_provider_generation :: u64

definition PJ_PARSER_ROUTE_FLAG_SCALAR_V1 :: u16 where "PJ_PARSER_ROUTE_FLAG_SCALAR_V1 = 1"
definition PJ_PARSER_ROUTE_FLAG_OBJECT_V1 :: u16 where "PJ_PARSER_ROUTE_FLAG_OBJECT_V1 = 2"
definition PJ_PARSER_ROUTE_MATCH_EXACT_V1 :: u16 where "PJ_PARSER_ROUTE_MATCH_EXACT_V1 = 0"
definition PJ_PARSER_ROUTE_STATUS_CLAIMED_V1 :: u16 where "PJ_PARSER_ROUTE_STATUS_CLAIMED_V1 = 0"
definition PJ_PARSER_ROUTE_STATUS_DECLINED_V1 :: u16 where "PJ_PARSER_ROUTE_STATUS_DECLINED_V1 = 1"

lemmas route_constants = PJ_PARSER_ROUTE_FLAG_SCALAR_V1_def PJ_PARSER_ROUTE_FLAG_OBJECT_V1_def
  PJ_PARSER_ROUTE_MATCH_EXACT_V1_def PJ_PARSER_ROUTE_STATUS_CLAIMED_V1_def
  PJ_PARSER_ROUTE_STATUS_DECLINED_V1_def

definition claimIdentity :: "ParserClaim \<Rightarrow> string" where
  "claimIdentity claim = pc_provider_id claim @ ''/'' @ pc_claim_id claim"

subsection \<open>Encodings and type names\<close>

definition kRegisteredEncodings :: "string list" where
  "kRegisteredEncodings = [''bson'', ''cbor'', ''data_tamer'', ''json'', ''msgpack'', ''omgidl'',
     ''protobuf'', ''ros1'', ''ros1msg'', ''ros2'', ''ros2msg'']"

definition isRegisteredParserEncoding :: "string \<Rightarrow> bool" where
  "isRegisteredParserEncoding encoding \<longleftrightarrow> encoding \<in> set kRegisteredEncodings"

definition isIdentifierStart :: "char \<Rightarrow> bool" where
  "isIdentifierStart v \<longleftrightarrow>
     (CHR ''A'' \<le> v \<and> v \<le> CHR ''Z'') \<or> (CHR ''a'' \<le> v \<and> v \<le> CHR ''z'') \<or> v = CHR ''_''"

definition isIdentifierContinuation :: "char \<Rightarrow> bool" where
  "isIdentifierContinuation v \<longleftrightarrow> isIdentifierStart v \<or> (CHR ''0'' \<le> v \<and> v \<le> CHR ''9'')"

text \<open>The loop over the components of a dotted name, on the text that is left.\<close>

function isProtobufFullName :: "string \<Rightarrow> bool" where
  "isProtobufFullName name =
     (if name = [] then False
      else case split_at (CHR ''.'') name of
        (component, separator) \<Rightarrow>
          if component = [] \<or> \<not> isIdentifierStart (hd component) then False
          else if \<not> list_all isIdentifierContinuation (tl component) then False
          else (case separator of None \<Rightarrow> True | Some rest \<Rightarrow> isProtobufFullName rest))"
  by pat_completeness auto
termination
  by (relation "measure length") (auto dest: split_at_shorter [OF sym])

declare isProtobufFullName.simps [simp del]

definition normalizeParserTypeName :: "string \<Rightarrow> string \<Rightarrow> string + string" where
  "normalizeParserTypeName encoding type_nm =
     (if \<not> isRegisteredParserEncoding encoding then
        Inl (''cannot normalize type name for unknown encoding: '' @ encoding)
      else if type_nm = [] then Inl ''parser claim type_name must not be empty''
      else if type_nm = ''*'' then Inr type_nm
      else if encoding = ''ros2msg'' then
        (case split_at (CHR ''/'') type_nm of
           (pkg, None) \<Rightarrow> Inl ''ros2msg type_name must be pkg/Type or pkg/msg/Type''
         | (pkg, Some rest) \<Rightarrow>
             if pkg = [] \<or> rest = [] then Inl ''ros2msg type_name must be pkg/Type or pkg/msg/Type''
             else (case split_at (CHR ''/'') rest of
               (_, None) \<Rightarrow> Inr (pkg @ ''/msg/'' @ rest)
             | (middle, Some final) \<Rightarrow>
                 if middle \<noteq> ''msg'' \<or> final = [] \<or> CHR ''/'' \<in> set final then
                   Inl ''ros2msg type_name must be pkg/Type or pkg/msg/Type''
                 else Inr type_nm))
      else if encoding = ''protobuf'' then
        (let name = (if hd type_nm = CHR ''.'' then tl type_nm else type_nm) in
          if \<not> isProtobufFullName name then Inl ''protobuf type_name must be a full dotted message name''
          else Inr name)
      else Inr type_nm)"

subsection \<open>Validation of a claim\<close>

text \<open>\<open>parsed.has_value() && *parsed == object_type\<close>: the name of a number without an enumerator is
  no name of the parser.\<close>

definition isKnownObjectType :: "u16 \<Rightarrow> bool" where
  "isKnownObjectType v \<longleftrightarrow>
     (if v = typeValue kNoneType then False
      else (case type_of_value v of
        None \<Rightarrow> False
      | Some t \<Rightarrow> (case parseBuiltinObjectType (type_name t) of None \<Rightarrow> False | Some p \<Rightarrow> typeValue p = v)))"

definition isHexDigit :: "char \<Rightarrow> bool" where
  "isHexDigit v \<longleftrightarrow> (CHR ''0'' \<le> v \<and> v \<le> CHR ''9'') \<or> (CHR ''a'' \<le> v \<and> v \<le> CHR ''f'')
     \<or> (CHR ''A'' \<le> v \<and> v \<le> CHR ''F'')"

definition isSchemaDigest :: "string \<Rightarrow> bool" where
  "isSchemaDigest digest \<longleftrightarrow>
     take 7 digest = ''sha256:'' \<and> length digest = 7 + 64 \<and> list_all isHexDigit (drop 7 digest)"

definition kKnownRouteFlags :: u16 where
  "kKnownRouteFlags = (PJ_PARSER_ROUTE_FLAG_SCALAR_V1 OR PJ_PARSER_ROUTE_FLAG_OBJECT_V1)"

definition has_object_route :: "ParserClaim \<Rightarrow> bool" where
  "has_object_route claim \<longleftrightarrow> (pc_route_flags claim AND PJ_PARSER_ROUTE_FLAG_OBJECT_V1) \<noteq> 0"

definition normalizeAndValidateClaim :: "ParserClaim \<Rightarrow> string + ParserClaim" where
  "normalizeAndValidateClaim claim0 =
     refuse (pc_provider_id claim0 = []) ''parser claim provider_id must not be empty'' (
     refuse (pc_claim_id claim0 = []) ''parser claim claim_id must not be empty'' (
     refuse (sint (pc_priority claim0) < -1000 \<or> sint (pc_priority claim0) > 1000)
       (''parser claim priority is outside the admitted range [-1000,1000]: '' @ claimIdentity claim0) (
     refuse (\<not> isRegisteredParserEncoding (pc_encoding claim0))
       (''parser claim uses unknown encoding: '' @ pc_encoding claim0) (
     bindE (normalizeParserTypeName (pc_encoding claim0) (pc_type_name claim0)) (\<lambda>normalized_type.
     let claim = claim0\<lparr>pc_type_name := normalized_type\<rparr> in
     refuse (pc_route_flags claim = 0 \<or> (pc_route_flags claim AND NOT kKnownRouteFlags) \<noteq> 0)
       ''parser claim route_flags must contain only scalar and/or object'' (
     refuse (pc_type_name claim = ''*'' \<and> has_object_route claim)
       ''parser claim wildcard type_name cannot claim the object route'' (
     refuse (has_object_route claim \<noteq> (pc_object_type claim \<noteq> None))
       (if has_object_route claim then ''parser claim object route requires object_type''
        else ''parser claim object_type is forbidden without the object route'') (
     refuse (case pc_object_type claim of None \<Rightarrow> False | Some v \<Rightarrow> \<not> isKnownObjectType v)
       ''parser claim uses unknown object_type'' (
     refuse (\<not> (\<forall>digest \<in> pc_schema_digests claim. isSchemaDigest digest))
       ''parser claim schema_digest must use sha256:<64-hex>''
     (Inr claim))))))))))"

subsection \<open>The normal form of a type name\<close>

lemma split_at_None: "split_at c text = (a, None) \<longleftrightarrow> a = text \<and> c \<notin> set text"
proof -
  have "(case D of [] \<Rightarrow> None | _ # r \<Rightarrow> Some r) = None \<longleftrightarrow> D = []" for D :: string
    by (cases D) simp_all
  then have "snd (split_at c text) = None \<longleftrightarrow> c \<notin> set text"
    by (auto simp: split_at_def dropWhile_eq_Nil_conv)
  moreover have "c \<notin> set text \<Longrightarrow> fst (split_at c text) = text"
    by (auto simp: split_at_def takeWhile_eq_all_conv)
  ultimately show ?thesis
    by (metis prod.collapse prod.inject)
qed

lemma split_at_Some:
  "split_at c text = (a, Some b) \<longleftrightarrow> c \<notin> set a \<and> text = a @ c # b"
proof
  assume split: "split_at c text = (a, Some b)"
  then have a: "a = takeWhile (\<lambda>x. x \<noteq> c) text"
    by (simp add: split_at_def)
  obtain x where drop: "dropWhile (\<lambda>x. x \<noteq> c) text = x # b"
    using split by (auto simp: split_at_def split: list.splits)
  then have "x = c"
    using hd_dropWhile [of "\<lambda>x. x \<noteq> c" "text"] by simp
  with drop a show "c \<notin> set a \<and> text = a @ c # b"
    using takeWhile_dropWhile_id [of "\<lambda>x. x \<noteq> c" "text"] by (auto dest: set_takeWhileD)
next
  assume "c \<notin> set a \<and> text = a @ c # b"
  moreover then have "takeWhile (\<lambda>x. x \<noteq> c) a = a" "dropWhile (\<lambda>x. x \<noteq> c) a = []"
    by (auto simp: takeWhile_eq_all_conv dropWhile_eq_Nil_conv)
  ultimately show "split_at c text = (a, Some b)"
    by (auto simp: split_at_def takeWhile_append dropWhile_append)
qed

lemma split_at_join [simp]: "c \<notin> set a \<Longrightarrow> split_at c (a @ c # b) = (a, Some b)"
  by (simp add: split_at_Some)

lemma split_at_whole [simp]: "c \<notin> set a \<Longrightarrow> split_at c a = (a, None)"
  by (simp add: split_at_None)

text \<open>A full protobuf name starts like an identifier: not with a dot and not with a star.\<close>

lemma isProtobufFullName_start:
  assumes "isProtobufFullName name"
  shows "name \<noteq> []" and "isIdentifierStart (hd name)"
proof -
  obtain component separator where split: "split_at (CHR ''.'') name = (component, separator)"
    by fastforce
  have ok: "name \<noteq> []" "component \<noteq> []" "isIdentifierStart (hd component)"
    using assms split by (simp_all add: isProtobufFullName.simps [of name] split: if_splits)
  have "hd name = hd component"
    using split ok by (cases separator) (auto simp: split_at_None split_at_Some)
  with ok show "name \<noteq> []" "isIdentifierStart (hd name)"
    by simp_all
qed

lemma isIdentifierStart_no_dot: "\<not> isIdentifierStart (CHR ''.'')" "\<not> isIdentifierStart (CHR ''*'')"
  by code_simp+

lemma registered_encodings [simp]:
  "isRegisteredParserEncoding ''ros2msg''" "isRegisteredParserEncoding ''protobuf''"
  by (simp_all add: isRegisteredParserEncoding_def kRegisteredEncodings_def)

lemma normalize_star [simp]: "normalizeParserTypeName e ''*'' = Inr t \<longleftrightarrow> isRegisteredParserEncoding e \<and> t = ''*''"
  by (auto simp: normalizeParserTypeName_def)

lemma normalize_ros2msg_one:
  assumes "t \<noteq> ''*''" "split_at (CHR ''/'') t = (pkg, sep)"
  shows "normalizeParserTypeName ''ros2msg'' t = Inr t' \<longleftrightarrow>
     (\<exists>rest. sep = Some rest \<and> pkg \<noteq> [] \<and> rest \<noteq> [] \<and>
        (case split_at (CHR ''/'') rest of
           (_, None) \<Rightarrow> t' = pkg @ ''/msg/'' @ rest
         | (middle, Some final) \<Rightarrow> middle = ''msg'' \<and> final \<noteq> [] \<and> CHR ''/'' \<notin> set final \<and> t' = t))"
proof -
  have "t = [] \<Longrightarrow> sep = None"
    using assms(2) by (simp add: split_at_def)
  moreover obtain a b where "(case sep of None \<Rightarrow> ([], None) | Some rest \<Rightarrow> split_at (CHR ''/'') rest) = (a, b)"
    by fastforce
  ultimately show ?thesis
    using assms by (cases sep; cases b) (auto simp: normalizeParserTypeName_def)
qed

lemma normalize_ros2msg_long:
  assumes "pkg \<noteq> []" "CHR ''/'' \<notin> set pkg" "ty \<noteq> []" "CHR ''/'' \<notin> set ty"
  shows "normalizeParserTypeName ''ros2msg'' (pkg @ ''/msg/'' @ ty) = Inr (pkg @ ''/msg/'' @ ty)"
proof -
  have "split_at (CHR ''/'') (pkg @ ''/msg/'' @ ty) = (pkg, Some (''msg/'' @ ty))"
    using assms by (simp add: split_at_Some)
  moreover have "split_at (CHR ''/'') (''msg/'' @ ty) = (''msg'', Some ty)"
    by (simp add: split_at_Some)
  moreover have "pkg @ ''/msg/'' @ ty \<noteq> ''*''"
    using assms by (cases pkg) auto
  ultimately show ?thesis
    using assms by (simp add: normalizeParserTypeName_def)
qed

lemma normalize_ros2msg_short:
  assumes "pkg \<noteq> []" "CHR ''/'' \<notin> set pkg" "ty \<noteq> []" "CHR ''/'' \<notin> set ty"
  shows "normalizeParserTypeName ''ros2msg'' (pkg @ ''/'' @ ty) = Inr (pkg @ ''/msg/'' @ ty)"
proof -
  have "pkg @ CHR ''/'' # ty \<noteq> ''*''"
    using assms by (cases pkg) auto
  then show ?thesis
    using assms by (simp add: normalizeParserTypeName_def)
qed

text \<open>What a ROS 2 name can be normalised to: the wildcard, or a package and a type around \<open>msg\<close>.\<close>

lemma normalize_ros2msg_cases:
  assumes "normalizeParserTypeName ''ros2msg'' t = Inr t'"
  obtains "t = ''*''" "t' = ''*''"
    | pkg ty where "pkg \<noteq> []" "CHR ''/'' \<notin> set pkg" "ty \<noteq> []" "CHR ''/'' \<notin> set ty"
        "t' = pkg @ ''/msg/'' @ ty" "t = t' \<or> t = pkg @ ''/'' @ ty"
proof (cases "t = ''*''")
  case True
  then show thesis using assms that(1) by simp
next
  case False
  obtain pkg sep where split: "split_at (CHR ''/'') t = (pkg, sep)" by fastforce
  from assms [unfolded normalize_ros2msg_one [OF False split]] obtain rest
    where sep: "sep = Some rest" "pkg \<noteq> []" "rest \<noteq> []" and out:
      "case split_at (CHR ''/'') rest of (_, None) \<Rightarrow> t' = pkg @ ''/msg/'' @ rest
       | (middle, Some final) \<Rightarrow> middle = ''msg'' \<and> final \<noteq> [] \<and> CHR ''/'' \<notin> set final \<and> t' = t"
    by (elim exE conjE) (rule that)
  obtain middle sep2 where split2: "split_at (CHR ''/'') rest = (middle, sep2)" by fastforce
  have pkg: "CHR ''/'' \<notin> set pkg" "t = pkg @ CHR ''/'' # rest"
    using split sep by (simp_all add: split_at_Some)
  show thesis
  proof (cases sep2)
    case None
    then show thesis
      using that(2) [of pkg rest] out split2 pkg sep by (simp add: split_at_None)
  next
    case (Some final)
    then have "rest = middle @ CHR ''/'' # final"
      using split2 by (simp add: split_at_Some)
    then show thesis using that(2) [of pkg final] out split2 Some pkg sep by simp
  qed
qed

lemma normalizeParserTypeName_idem:
  assumes "normalizeParserTypeName encoding t = Inr t'"
  shows "normalizeParserTypeName encoding t' = Inr t'"
proof (cases "encoding = ''ros2msg''")
  case True
  from assms [unfolded True] show ?thesis
  proof (cases rule: normalize_ros2msg_cases)
    case 1
    then show ?thesis by (simp add: True normalizeParserTypeName_def)
  next
    case (2 pkg ty)
    then show ?thesis using normalize_ros2msg_long [of pkg ty] by (simp add: True)
  qed
next
  case ros: False
  show ?thesis
  proof (cases "encoding = ''protobuf'' \<and> t \<noteq> ''*''")
    case True
    then have "isProtobufFullName t'"
      using assms by (auto simp: normalizeParserTypeName_def Let_def split: if_splits)
    moreover note start = isProtobufFullName_start [OF this]
    moreover have "hd t' \<noteq> CHR ''.''" "t' \<noteq> ''*''"
      using start isIdentifierStart_no_dot by auto
    ultimately show ?thesis
      using True by (simp add: normalizeParserTypeName_def)
  next
    case False
    then show ?thesis
      using assms ros by (auto simp: normalizeParserTypeName_def split: if_splits)
  qed
qed

subsection \<open>The normal form of a claim\<close>

lemma normalizeAndValidateClaim_Inr:
  "normalizeAndValidateClaim c = Inr c' \<longleftrightarrow>
     (\<exists>t. normalizeParserTypeName (pc_encoding c) (pc_type_name c) = Inr t
        \<and> c' = c\<lparr>pc_type_name := t\<rparr> \<and> normalizeAndValidateClaim c' = Inr c')"
  (is "?L \<longleftrightarrow> ?R")
proof
  assume ?L
  then obtain t where t: "normalizeParserTypeName (pc_encoding c) (pc_type_name c) = Inr t"
      "c' = c\<lparr>pc_type_name := t\<rparr>"
    by (auto simp: normalizeAndValidateClaim_def refuse_eq_Inr bindE_eq_Inr Let_def)
  moreover have "normalizeAndValidateClaim c' = Inr c'"
    using \<open>?L\<close> t normalizeParserTypeName_idem [OF t(1)]
    by (auto simp: normalizeAndValidateClaim_def refuse_eq_Inr has_object_route_def)
  ultimately show ?R by blast
next
  assume ?R
  then show ?L
    using normalizeParserTypeName_idem
    by (auto simp: normalizeAndValidateClaim_def refuse_eq_Inr bindE_eq_Inr Let_def has_object_route_def)
qed

text \<open>A claim in normal form is one that the validation returns unchanged.\<close>

definition valid_claim :: "ParserClaim \<Rightarrow> bool" where
  "valid_claim claim \<longleftrightarrow> normalizeAndValidateClaim claim = Inr claim"

lemma validated_valid: "normalizeAndValidateClaim c = Inr c' \<Longrightarrow> valid_claim c'"
  using normalizeAndValidateClaim_Inr unfolding valid_claim_def by blast

lemma validated_keeps:
  assumes "normalizeAndValidateClaim c = Inr c'"
  shows "pc_provider_id c' = pc_provider_id c" "pc_claim_id c' = pc_claim_id c"
    "pc_encoding c' = pc_encoding c" "pc_provenance c' = pc_provenance c" "pc_priority c' = pc_priority c"
  using assms unfolding normalizeAndValidateClaim_Inr [of c c'] by auto

subsection \<open>Module manifests\<close>

text \<open>The JSON library: its parser with the text of its exception, and the accessors of a value.\<close>

record 'j json_api =
  json_parse :: "string \<Rightarrow> string + 'j"
  is_object :: "'j \<Rightarrow> bool"
  is_array :: "'j \<Rightarrow> bool"
  is_string :: "'j \<Rightarrow> bool"
  is_number_integer :: "'j \<Rightarrow> bool"
  is_number_unsigned :: "'j \<Rightarrow> bool"
  json_find :: "'j \<Rightarrow> string \<Rightarrow> 'j option"
  json_elements :: "'j \<Rightarrow> 'j list"
  get_string :: "'j \<Rightarrow> string"
  get_u64 :: "'j \<Rightarrow> u64"
  get_i64 :: "'j \<Rightarrow> u64"

record ParserModuleManifest =
  pm_id :: string
  pm_name :: string
  pm_version :: string
  pm_claims :: "ParserClaim list"

definition requiredString :: "'j json_api \<Rightarrow> 'j \<Rightarrow> string \<Rightarrow> string \<Rightarrow> string + string" where
  "requiredString J obj key ctxt = (case json_find J obj key of
     None \<Rightarrow> Inl (ctxt @ '' missing required non-empty string key: '' @ key)
   | Some it \<Rightarrow>
       if \<not> is_string J it \<or> get_string J it = [] then
         Inl (ctxt @ '' missing required non-empty string key: '' @ key)
       else Inr (get_string J it))"

definition requiredPriority :: "'j json_api \<Rightarrow> 'j \<Rightarrow> nat \<Rightarrow> string + 32 word" where
  "requiredPriority J obj claim_index = (case json_find J obj ''priority'' of
     None \<Rightarrow> Inl (''parser module manifest claim '' @ to_string claim_index @ '' missing integer priority'')
   | Some it \<Rightarrow>
       if \<not> is_number_integer J it then
         Inl (''parser module manifest claim '' @ to_string claim_index @ '' missing integer priority'')
       else if is_number_unsigned J it then
         (if get_u64 J it > 2147483647 then Inl ''parser module manifest claim priority does not fit int32''
          else Inr (ucast (get_u64 J it)))
       else if sint (get_i64 J it) < -2147483648 \<or> sint (get_i64 J it) > 2147483647 then
         Inl ''parser module manifest claim priority does not fit int32''
       else Inr (ucast (get_i64 J it)))"

fun readRouteFlags_loop :: "'j json_api \<Rightarrow> nat \<Rightarrow> 'j list \<Rightarrow> u16 \<Rightarrow> string + u16" where
  "readRouteFlags_loop J claim_index [] flags = Inr flags"
| "readRouteFlags_loop J claim_index (route # routes) flags =
     (if \<not> is_string J route then
        Inl (''parser module manifest claim '' @ to_string claim_index @ '' routes must contain strings'')
      else if get_string J route = ''scalar'' then
        readRouteFlags_loop J claim_index routes (flags OR PJ_PARSER_ROUTE_FLAG_SCALAR_V1)
      else if get_string J route = ''object'' then
        readRouteFlags_loop J claim_index routes (flags OR PJ_PARSER_ROUTE_FLAG_OBJECT_V1)
      else Inl (''parser module manifest claim uses unknown route: '' @ get_string J route))"

definition readRouteFlags :: "'j json_api \<Rightarrow> 'j \<Rightarrow> nat \<Rightarrow> string + u16" where
  "readRouteFlags J claim claim_index = (case json_find J claim ''routes'' of
     None \<Rightarrow> Inl (''parser module manifest claim '' @ to_string claim_index @ '' requires a non-empty routes array'')
   | Some routes \<Rightarrow>
       if \<not> is_array J routes \<or> json_elements J routes = [] then
         Inl (''parser module manifest claim '' @ to_string claim_index @ '' requires a non-empty routes array'')
       else readRouteFlags_loop J claim_index (json_elements J routes) 0)"

fun readSchemaDigests_loop :: "'j json_api \<Rightarrow> nat \<Rightarrow> 'j list \<Rightarrow> string set \<Rightarrow> string + string set" where
  "readSchemaDigests_loop J claim_index [] digests = Inr digests"
| "readSchemaDigests_loop J claim_index (v # vs) digests =
     (if \<not> is_string J v then
        Inl (''parser module manifest claim '' @ to_string claim_index @ '' schema_digests must contain strings'')
      else readSchemaDigests_loop J claim_index vs (insert (get_string J v) digests))"

definition readSchemaDigests :: "'j json_api \<Rightarrow> 'j \<Rightarrow> nat \<Rightarrow> string + string set" where
  "readSchemaDigests J claim claim_index = (case json_find J claim ''schema_digests'' of
     None \<Rightarrow> Inr {}
   | Some vs \<Rightarrow>
       if \<not> is_array J vs then
         Inl (''parser module manifest claim '' @ to_string claim_index @ '' schema_digests must be an array'')
       else readSchemaDigests_loop J claim_index (json_elements J vs) {})"

definition readObjectType :: "'j json_api \<Rightarrow> 'j \<Rightarrow> string + u16 option" where
  "readObjectType J claim_json = (case json_find J claim_json ''object_type'' of
     None \<Rightarrow> Inr None
   | Some ot \<Rightarrow>
       if \<not> is_string J ot then Inl ''parser module manifest claim object_type must be a string''
       else (case parseBuiltinObjectType (get_string J ot) of
           None \<Rightarrow> Inl (''parser module manifest claim uses unknown object_type: '' @ get_string J ot)
         | Some t \<Rightarrow>
             if t = kNoneType then
               Inl (''parser module manifest claim uses unknown object_type: '' @ get_string J ot)
             else Inr (Some (typeValue t))))"

text \<open>One claim of the array, up to its validation.\<close>

definition decodeClaim ::
    "'j json_api \<Rightarrow> string \<Rightarrow> ParserClaimProvenance \<Rightarrow> nat \<Rightarrow> 'j \<Rightarrow> string + ParserClaim" where
  "decodeClaim J manifest_id provenance index claim_json =
     refuse (\<not> is_object J claim_json)
       (''parser module manifest claim '' @ to_string index @ '' must be an object'') (
     refuse (json_find J claim_json ''provenance'' \<noteq> None)
       ''parser module manifest claim must not declare host-owned provenance'' (
     bindE (requiredString J claim_json ''claim_id'' ''parser module manifest claim'') (\<lambda>claim_id.
     bindE (requiredString J claim_json ''encoding'' ''parser module manifest claim'') (\<lambda>encoding.
     bindE (requiredString J claim_json ''type_name'' ''parser module manifest claim'') (\<lambda>type_nm.
     bindE (readRouteFlags J claim_json index) (\<lambda>route_flags.
     bindE (requiredPriority J claim_json index) (\<lambda>priority.
     bindE (readSchemaDigests J claim_json index) (\<lambda>schema_digests.
     bindE (readObjectType J claim_json) (\<lambda>object_type.
     normalizeAndValidateClaim
       \<lparr>pc_encoding = encoding, pc_type_name = type_nm, pc_route_flags = route_flags,
        pc_object_type = object_type, pc_schema_digests = schema_digests,
        pc_provider_id = manifest_id, pc_claim_id = claim_id, pc_priority = priority,
        pc_provenance = provenance\<rparr>)))))))))"

definition identityPair :: "ParserClaim \<Rightarrow> string \<times> string" where
  "identityPair claim = (pc_provider_id claim, pc_claim_id claim)"

fun decodeClaims :: "'j json_api \<Rightarrow> string \<Rightarrow> ParserClaimProvenance \<Rightarrow> nat \<Rightarrow> 'j list
    \<Rightarrow> (string \<times> string) set \<Rightarrow> ParserClaim list \<Rightarrow> string + ParserClaim list" where
  "decodeClaims J manifest_id provenance index [] identities claims = Inr claims"
| "decodeClaims J manifest_id provenance index (claim_json # rest) identities claims =
     bindE (decodeClaim J manifest_id provenance index claim_json) (\<lambda>validated.
       refuse (identityPair validated \<in> identities)
         (''duplicate parser claim identity: '' @ claimIdentity validated)
       (decodeClaims J manifest_id provenance (index + 1) rest (insert (identityPair validated) identities)
         (claims @ [validated])))"

definition PJ_PARSER_MODULE_ABI_VERSION :: "32 word" where "PJ_PARSER_MODULE_ABI_VERSION = 1"

definition checkModuleAbi :: "'j json_api \<Rightarrow> 'j \<Rightarrow> string + unit" where
  "checkModuleAbi J json = (case json_find J json ''module_abi'' of
     None \<Rightarrow> Inl ''parser module manifest missing integer module_abi''
   | Some abi \<Rightarrow>
       if \<not> is_number_integer J abi then Inl ''parser module manifest missing integer module_abi''
       else if \<not> is_number_unsigned J abi \<or> get_u64 J abi \<noteq> ucast PJ_PARSER_MODULE_ABI_VERSION then
         Inl (''parser module manifest module_abi does not match host ABI ''
           @ to_string (unat PJ_PARSER_MODULE_ABI_VERSION))
       else Inr ())"

definition decodeParserModuleManifest ::
    "'j json_api \<Rightarrow> string \<Rightarrow> ParserClaimProvenance \<Rightarrow> string + ParserModuleManifest" where
  "decodeParserModuleManifest J manifest_json provenance =
     refuse (manifest_json = []) ''parser module manifest is empty'' (
     bindE (case json_parse J manifest_json of
         Inl what \<Rightarrow> Inl (''parser module manifest is invalid JSON: '' @ what) | Inr json \<Rightarrow> Inr json) (\<lambda>json.
     refuse (\<not> is_object J json) ''parser module manifest must be a JSON object'' (
     refuse (json_find J json ''provenance'' \<noteq> None)
       ''parser module manifest must not declare host-owned provenance'' (
     bindE (checkModuleAbi J json) (\<lambda>_.
     bindE (requiredString J json ''id'' ''parser module manifest'') (\<lambda>id.
     bindE (requiredString J json ''name'' ''parser module manifest'') (\<lambda>name.
     bindE (requiredString J json ''version'' ''parser module manifest'') (\<lambda>version.
     bindE (case parse_semver version of
         Inl e \<Rightarrow> Inl (''parser module manifest version is not valid SemVer: '' @ e) | Inr v \<Rightarrow> Inr ()) (\<lambda>_.
     bindE (case json_find J json ''claims'' of
         None \<Rightarrow> Inl ''parser module manifest requires a claims array''
       | Some cs \<Rightarrow> if \<not> is_array J cs then Inl ''parser module manifest requires a claims array''
           else Inr (json_elements J cs)) (\<lambda>claims_json.
     bindE (decodeClaims J id provenance 0 claims_json {} []) (\<lambda>claims.
     Inr \<lparr>pm_id = id, pm_name = name, pm_version = version, pm_claims = claims\<rparr>)))))))))))"

subsection \<open>The claims of a parser plugin\<close>

record PJ_route_classification_v1 =
  rc_route_flags :: u16
  rc_match :: u16
  rc_status :: u16
  rc_object_type :: u16

record ParserPluginExactClaim =
  ec_encoding :: string
  ec_type_name :: string
  ec_classification :: PJ_route_classification_v1
  ec_schema_digests :: "string set"

text \<open>The two sets of the function: the encodings of the manifest, and the identities given out.\<close>

fun synthesizeWildcards :: "string \<Rightarrow> ParserClaimProvenance \<Rightarrow> string list \<Rightarrow> string set
    \<Rightarrow> (string \<times> string) set \<Rightarrow> ParserClaim list
    \<Rightarrow> string + string set \<times> (string \<times> string) set \<times> ParserClaim list" where
  "synthesizeWildcards provider_id provenance [] encodings identities claims =
     Inr (encodings, identities, claims)"
| "synthesizeWildcards provider_id provenance (encoding # rest) encodings identities claims =
     bindE (normalizeAndValidateClaim
       \<lparr>pc_encoding = encoding, pc_type_name = ''*'', pc_route_flags = PJ_PARSER_ROUTE_FLAG_SCALAR_V1,
        pc_object_type = None, pc_schema_digests = {}, pc_provider_id = provider_id,
        pc_claim_id = ''wildcard:'' @ encoding, pc_priority = 0, pc_provenance = provenance\<rparr>) (\<lambda>validated.
     refuse (encoding \<in> encodings \<or> identityPair validated \<in> identities)
       (''duplicate parser claim identity: '' @ claimIdentity validated)
     (synthesizeWildcards provider_id provenance rest (insert encoding encodings)
       (insert (identityPair validated) identities) (claims @ [validated])))"

text \<open>One exact claim: no claim for a declined classification.\<close>

definition synthesizeExact ::
    "string \<Rightarrow> ParserClaimProvenance \<Rightarrow> string set \<Rightarrow> ParserPluginExactClaim \<Rightarrow> string + ParserClaim option" where
  "synthesizeExact provider_id provenance encodings exact =
     (let c = ec_classification exact in
     refuse (ec_encoding exact \<notin> encodings)
       (''parser exact claim encoding is absent from its manifest: '' @ ec_encoding exact) (
     refuse (rc_match c \<noteq> PJ_PARSER_ROUTE_MATCH_EXACT_V1)
       ''parser route classification reported a non-exact match'' (
     if rc_status c = PJ_PARSER_ROUTE_STATUS_DECLINED_V1 then
       refuse (rc_route_flags c \<noteq> 0 \<or> rc_object_type c \<noteq> typeValue kNoneType)
         ''declined parser route classification contains claimed route data'' (Inr None)
     else
     refuse (rc_status c \<noteq> PJ_PARSER_ROUTE_STATUS_CLAIMED_V1)
       ''parser route classification has an invalid status'' (
     refuse (ec_type_name exact = ''*'')
       ''parser route classification extension cannot report wildcard claims'' (
     bindE (if (rc_route_flags c AND PJ_PARSER_ROUTE_FLAG_OBJECT_V1) \<noteq> 0 then Inr (Some (rc_object_type c))
            else if rc_object_type c \<noteq> typeValue kNoneType then
              Inl ''parser route classification has object_type without an object route''
            else Inr None) (\<lambda>object_type.
     bindE (normalizeParserTypeName (ec_encoding exact) (ec_type_name exact)) (\<lambda>normalized_type.
     bindE (normalizeAndValidateClaim
       \<lparr>pc_encoding = ec_encoding exact, pc_type_name = normalized_type,
        pc_route_flags = rc_route_flags c, pc_object_type = object_type,
        pc_schema_digests = ec_schema_digests exact, pc_provider_id = provider_id,
        pc_claim_id = ''handler:'' @ ec_encoding exact @ '':'' @ normalized_type,
        pc_priority = 0, pc_provenance = provenance\<rparr>) (\<lambda>validated. Inr (Some validated)))))))))"

fun synthesizeExacts :: "string \<Rightarrow> ParserClaimProvenance \<Rightarrow> string set \<Rightarrow> ParserPluginExactClaim list
    \<Rightarrow> (string \<times> string) set \<Rightarrow> ParserClaim list \<Rightarrow> string + ParserClaim list" where
  "synthesizeExacts provider_id provenance encodings [] identities claims = Inr claims"
| "synthesizeExacts provider_id provenance encodings (exact # rest) identities claims =
     bindE (synthesizeExact provider_id provenance encodings exact) (\<lambda>result.
       case result of
         None \<Rightarrow> synthesizeExacts provider_id provenance encodings rest identities claims
       | Some validated \<Rightarrow>
           refuse (identityPair validated \<in> identities)
             (''duplicate parser claim identity: '' @ claimIdentity validated)
           (synthesizeExacts provider_id provenance encodings rest
             (insert (identityPair validated) identities) (claims @ [validated])))"

definition synthesizeParserPluginClaims :: "string \<Rightarrow> string list \<Rightarrow> ParserPluginExactClaim list
    \<Rightarrow> ParserClaimProvenance \<Rightarrow> string + ParserClaim list" where
  "synthesizeParserPluginClaims provider_id manifest_encodings exact_claims provenance =
     refuse (provider_id = []) ''parser plugin provider id must not be empty''
     (bindE (synthesizeWildcards provider_id provenance manifest_encodings {} {} [])
       (\<lambda>(encodings, identities, claims).
          synthesizeExacts provider_id provenance encodings exact_claims identities claims))"

subsection \<open>The catalog\<close>

datatype DiagnosticLevel = kInfo | kWarning | kError

record Diagnostic =
  dg_level :: DiagnosticLevel
  dg_source :: string
  dg_id :: string
  dg_message :: string

text \<open>
  \<open>cat_sink\<close> says whether a sink is installed, \<open>cat_delivered\<close> is what the sinks have received.
\<close>

record ParserClaimCatalog =
  cat_sink :: bool
  cat_source :: string
  cat_claims :: "ParserClaimEntry list"
  cat_generation :: u64
  cat_delivered :: "Diagnostic list"

definition new_catalog :: "bool \<Rightarrow> string \<Rightarrow> ParserClaimCatalog" where
  "new_catalog sink diagnostic_source = \<lparr>cat_sink = sink, cat_source = diagnostic_source, cat_claims = [],
     cat_generation = 0, cat_delivered = []\<rparr>"

definition setDiagnosticSink :: "bool \<Rightarrow> ParserClaimCatalog \<Rightarrow> ParserClaimCatalog" where
  "setDiagnosticSink sink cat = cat\<lparr>cat_sink := sink\<rparr>"

definition report :: "ParserClaimCatalog \<Rightarrow> DiagnosticLevel \<Rightarrow> string \<Rightarrow> string \<Rightarrow> ParserClaimCatalog" where
  "report cat level ident message =
     (if \<not> cat_sink cat then cat
      else cat\<lparr>cat_delivered := cat_delivered cat @
        [\<lparr>dg_level = level, dg_source = cat_source cat, dg_id = ident, dg_message = message\<rparr>]\<rparr>)"

text \<open>
  The loop over a batch: the validated claims, or the id and the message of the diagnostic it stops with.
\<close>

fun admit_loop :: "ParserClaimEntry list \<Rightarrow> ParserClaimProvenance \<Rightarrow> ParserClaim list
    \<Rightarrow> (string \<times> string) set \<Rightarrow> ParserClaim list \<Rightarrow> (string \<times> string) + ParserClaim list" where
  "admit_loop present provenance [] batch_identities validated_claims = Inr validated_claims"
| "admit_loop present provenance (claim # claims) batch_identities validated_claims =
     (case normalizeAndValidateClaim (claim\<lparr>pc_provenance := provenance\<rparr>) of
        Inl e \<Rightarrow> Inl ([], e)
      | Inr validated \<Rightarrow>
          if identityPair validated \<in> batch_identities then
            Inl (pc_provider_id validated, ''duplicate parser claim identity: '' @ claimIdentity validated)
          else if list_ex (\<lambda>entry. pc_provider_id (pe_claim entry) = fst (identityPair validated)
              \<and> pc_claim_id (pe_claim entry) = snd (identityPair validated)) present then
            Inl (pc_provider_id validated, ''duplicate parser claim identity: '' @ claimIdentity validated)
          else admit_loop present provenance claims (insert (identityPair validated) batch_identities)
            (validated_claims @ [validated]))"

definition admitClaims :: "ParserClaimCatalog \<Rightarrow> ParserClaim list \<Rightarrow> ParserClaimProvenance \<Rightarrow> u64
    \<Rightarrow> ParserClaimCatalog \<times> (string + unit)" where
  "admitClaims cat claims provenance provider_generation =
     (case admit_loop (cat_claims cat) provenance claims {} [] of
        Inl (ident, e) \<Rightarrow> (report cat kError ident e, Inl e)
      | Inr validated_claims \<Rightarrow>
          (cat\<lparr>cat_claims := cat_claims cat @ map (\<lambda>claim. \<lparr>pe_claim = claim,
                 pe_provider_generation = provider_generation\<rparr>) validated_claims,
               cat_generation := (if validated_claims \<noteq> [] then cat_generation cat + 1 else cat_generation cat)\<rparr>,
           Inr ()))"

definition ingestModuleManifest :: "'j json_api \<Rightarrow> ParserClaimCatalog \<Rightarrow> string \<Rightarrow> ParserClaimProvenance \<Rightarrow> u64
    \<Rightarrow> ParserClaimCatalog \<times> (string + ParserModuleManifest)" where
  "ingestModuleManifest J cat manifest_json provenance provider_generation =
     (case decodeParserModuleManifest J manifest_json provenance of
        Inl e \<Rightarrow> (report cat kError [] e, Inl e)
      | Inr manifest \<Rightarrow>
          (case admitClaims cat (pm_claims manifest) provenance provider_generation of
             (cat', Inl e) \<Rightarrow> (cat', Inl e)
           | (cat', Inr _) \<Rightarrow> (cat', Inr manifest)))"

definition admitParserPlugin :: "ParserClaimCatalog \<Rightarrow> string \<Rightarrow> string list \<Rightarrow> ParserPluginExactClaim list
    \<Rightarrow> ParserClaimProvenance \<Rightarrow> u64 \<Rightarrow> ParserClaimCatalog \<times> (string + unit)" where
  "admitParserPlugin cat provider_id manifest_encodings exact_claims provenance provider_generation =
     (case synthesizeParserPluginClaims provider_id manifest_encodings exact_claims provenance of
        Inl e \<Rightarrow> (report cat kError provider_id e, Inl e)
      | Inr claims \<Rightarrow> admitClaims cat claims provenance provider_generation)"

definition removeProvider :: "ParserClaimCatalog \<Rightarrow> string \<Rightarrow> ParserClaimCatalog \<times> bool" where
  "removeProvider cat provider_id =
     (let kept = filter (\<lambda>entry. \<not> pc_provider_id (pe_claim entry) = provider_id) (cat_claims cat) in
      if length kept = length (cat_claims cat) then (cat\<lparr>cat_claims := kept\<rparr>, False)
      else (cat\<lparr>cat_claims := kept, cat_generation := cat_generation cat + 1\<rparr>, True))"

definition clear_catalog :: "ParserClaimCatalog \<Rightarrow> ParserClaimCatalog" where
  "clear_catalog cat =
     (if cat_claims cat = [] then cat
      else cat\<lparr>cat_claims := [], cat_generation := cat_generation cat + 1\<rparr>)"

subsection \<open>What a catalog promises\<close>

text \<open>
  The interface the resolver relies on: every entry holds a claim in normal form, and no two
  entries have the same identity.
\<close>

abbreviation entryIdentity :: "ParserClaimEntry \<Rightarrow> string \<times> string" where
  "entryIdentity entry \<equiv> identityPair (pe_claim entry)"

locale claim_registry =
  fixes entries :: "'c \<Rightarrow> ParserClaimEntry list"
    and consistent :: "'c \<Rightarrow> bool"
  assumes entry_valid: "consistent c \<Longrightarrow> entry \<in> set (entries c) \<Longrightarrow> valid_claim (pe_claim entry)"
    and identities_distinct: "consistent c \<Longrightarrow> distinct (map entryIdentity (entries c))"
begin

lemma identity_determines:
  "consistent c \<Longrightarrow> a \<in> set (entries c) \<Longrightarrow> b \<in> set (entries c) \<Longrightarrow> entryIdentity a = entryIdentity b \<Longrightarrow> a = b"
  using identities_distinct by (auto simp: distinct_map inj_on_def)

lemma entries_distinct: "consistent c \<Longrightarrow> distinct (entries c)"
  using identities_distinct distinct_map by blast

text \<open>The entries as a map from identities: what the list means, whatever its order.\<close>

lemma lookup_iff:
  "consistent c \<Longrightarrow> map_of (map (\<lambda>e. (entryIdentity e, e)) (entries c)) k = Some e \<longleftrightarrow>
     e \<in> set (entries c) \<and> entryIdentity e = k"
  using identities_distinct [of c] by (auto simp: map_of_eq_Some_iff comp_def)

end

definition catalog_ok :: "ParserClaimCatalog \<Rightarrow> bool" where
  "catalog_ok cat \<longleftrightarrow> list_all (\<lambda>entry. valid_claim (pe_claim entry)) (cat_claims cat)
     \<and> distinct (map entryIdentity (cat_claims cat))"

interpretation catalog: claim_registry cat_claims catalog_ok
  by unfold_locales (simp_all add: catalog_ok_def list_all_iff)

lemma report_keeps [simp]: "cat_claims (report cat level i m) = cat_claims cat"
  "cat_generation (report cat level i m) = cat_generation cat"
  "catalog_ok (report cat level i m) = catalog_ok cat"
  by (simp_all add: report_def catalog_ok_def)

text \<open>
  What the loop over a batch returns: one valid claim per input claim, under the host's provenance,
  with identities that are new.
\<close>

lemma already_present:
  "list_ex (\<lambda>entry. pc_provider_id (pe_claim entry) = fst (identityPair v)
     \<and> pc_claim_id (pe_claim entry) = snd (identityPair v)) present
   \<longleftrightarrow> identityPair v \<in> set (map entryIdentity present)"
  by (force simp: list_ex_iff identityPair_def image_iff)

lemma admit_loop_Inr:
  assumes "admit_loop present provenance claims seen acc = Inr out"
    and "distinct (map identityPair acc)" "set (map identityPair acc) \<subseteq> seen"
    and "seen \<inter> set (map entryIdentity present) = {}"
  shows "\<exists>new. out = acc @ new
    \<and> list_all2 (\<lambda>c v. normalizeAndValidateClaim (c\<lparr>pc_provenance := provenance\<rparr>) = Inr v) claims new
    \<and> distinct (map identityPair (acc @ new))
    \<and> set (map identityPair new) \<inter> set (map entryIdentity present) = {}"
  using assms
proof (induction present provenance claims seen acc rule: admit_loop.induct)
  case (1 present provenance seen acc)
  then show ?case by simp
next
  case (2 present provenance c claims seen acc)
  from "2.prems"(1) obtain v where v: "normalizeAndValidateClaim (c\<lparr>pc_provenance := provenance\<rparr>) = Inr v"
      "identityPair v \<notin> seen" "identityPair v \<notin> set (map entryIdentity present)"
      "admit_loop present provenance claims (insert (identityPair v) seen) (acc @ [v]) = Inr out"
    unfolding admit_loop.simps already_present by (auto split: sum.splits if_split_asm)
  have "\<exists>new. out = (acc @ [v]) @ new
    \<and> list_all2 (\<lambda>c v. normalizeAndValidateClaim (c\<lparr>pc_provenance := provenance\<rparr>) = Inr v) claims new
    \<and> distinct (map identityPair ((acc @ [v]) @ new))
    \<and> set (map identityPair new) \<inter> set (map entryIdentity present) = {}"
    using v "2.prems" by (intro "2.IH" [OF v(1)]) (auto simp: already_present [unfolded set_map])
  then obtain new where new: "out = (acc @ [v]) @ new"
      "list_all2 (\<lambda>c v. normalizeAndValidateClaim (c\<lparr>pc_provenance := provenance\<rparr>) = Inr v) claims new"
      "distinct (map identityPair ((acc @ [v]) @ new))"
      "set (map identityPair new) \<inter> set (map entryIdentity present) = {}"
    by blast
  then show ?case
    using v by (intro exI [of _ "v # new"]) auto
qed

lemma admitClaims_Inr:
  assumes "admitClaims cat claims provenance gen = (cat', Inr u)"
  obtains new where
    "cat_claims cat' = cat_claims cat @ map (\<lambda>c. \<lparr>pe_claim = c, pe_provider_generation = gen\<rparr>) new"
    "list_all2 (\<lambda>c v. normalizeAndValidateClaim (c\<lparr>pc_provenance := provenance\<rparr>) = Inr v) claims new"
    "distinct (map identityPair new)"
    "set (map identityPair new) \<inter> set (map entryIdentity (cat_claims cat)) = {}"
    "cat_generation cat' = cat_generation cat + (if claims = [] then 0 else 1)"
proof -
  obtain out where loop: "admit_loop (cat_claims cat) provenance claims {} [] = Inr out"
    and cat': "cat' = cat\<lparr>cat_claims := cat_claims cat @ map (\<lambda>claim. \<lparr>pe_claim = claim,
        pe_provider_generation = gen\<rparr>) out,
      cat_generation := (if out \<noteq> [] then cat_generation cat + 1 else cat_generation cat)\<rparr>"
    using assms by (auto simp: admitClaims_def split: sum.splits)
  from admit_loop_Inr [OF loop] have
    "list_all2 (\<lambda>c v. normalizeAndValidateClaim (c\<lparr>pc_provenance := provenance\<rparr>) = Inr v) claims out"
    "distinct (map identityPair out)"
    "set (map identityPair out) \<inter> set (map entryIdentity (cat_claims cat)) = {}"
    by simp_all
  moreover from this(1) have "out = [] \<longleftrightarrow> claims = []"
    by auto
  ultimately show thesis
    by (intro that [of out]) (simp_all add: cat')
qed

lemma admitClaims_error:
  "admitClaims cat claims provenance gen = (cat', Inl e) \<Longrightarrow>
     cat_claims cat' = cat_claims cat \<and> cat_generation cat' = cat_generation cat"
  by (auto simp: admitClaims_def split: sum.splits)

lemma admitClaims_ok: "catalog_ok cat \<Longrightarrow> catalog_ok (fst (admitClaims cat claims provenance gen))"
proof (cases "admitClaims cat claims provenance gen")
  case (Pair cat' r)
  assume ok: "catalog_ok cat"
  show ?thesis
  proof (cases r)
    case (Inl e)
    then show ?thesis using admitClaims_error Pair ok by (fastforce simp: catalog_ok_def)
  next
    case (Inr u)
    from admitClaims_Inr [OF Pair [unfolded Inr]] obtain new where new:
      "cat_claims cat' = cat_claims cat @ map (\<lambda>c. \<lparr>pe_claim = c, pe_provider_generation = gen\<rparr>) new"
      "list_all2 (\<lambda>c v. normalizeAndValidateClaim (c\<lparr>pc_provenance := provenance\<rparr>) = Inr v) claims new"
      "distinct (map identityPair new)"
      "set (map identityPair new) \<inter> set (map entryIdentity (cat_claims cat)) = {}"
      by metis
    have "list_all valid_claim new"
      using new(2) by (auto simp: list_all_iff list_all2_conv_all_nth set_conv_nth dest: validated_valid)
    then show ?thesis
      using new ok Pair by (auto simp: catalog_ok_def list_all_iff comp_def)
  qed
qed

lemma ingestModuleManifest_ok: "catalog_ok cat \<Longrightarrow> catalog_ok (fst (ingestModuleManifest J cat m p g))"
  using admitClaims_ok [of cat]
  by (auto simp: ingestModuleManifest_def split: sum.splits prod.splits) (metis fst_conv)+

lemma admitParserPlugin_ok: "catalog_ok cat \<Longrightarrow> catalog_ok (fst (admitParserPlugin cat i es xs p g))"
  by (auto simp: admitParserPlugin_def admitClaims_ok split: sum.splits)

lemma removeProvider_claims:
  "cat_claims (fst (removeProvider cat provider)) =
     filter (\<lambda>entry. pc_provider_id (pe_claim entry) \<noteq> provider) (cat_claims cat)"
  by (simp add: removeProvider_def Let_def)

lemma removeProvider_ok: "catalog_ok cat \<Longrightarrow> catalog_ok (fst (removeProvider cat provider))"
  by (auto simp: catalog_ok_def removeProvider_claims list_all_iff intro: distinct_map_filter)

lemma clear_catalog_ok: "catalog_ok (clear_catalog cat)"
  by (simp add: catalog_ok_def clear_catalog_def)

text \<open>Every history of the public operations.\<close>

datatype catalog_op =
  AdmitClaims "ParserClaim list" ParserClaimProvenance u64
| IngestModuleManifest string ParserClaimProvenance u64
| AdmitParserPlugin string "string list" "ParserPluginExactClaim list" ParserClaimProvenance u64
| RemoveProvider string
| ClearCatalog
| SetDiagnosticSink bool

fun apply_catalog_op :: "'j json_api \<Rightarrow> catalog_op \<Rightarrow> ParserClaimCatalog \<Rightarrow> ParserClaimCatalog" where
  "apply_catalog_op J (AdmitClaims cs p g) cat = fst (admitClaims cat cs p g)"
| "apply_catalog_op J (IngestModuleManifest m p g) cat = fst (ingestModuleManifest J cat m p g)"
| "apply_catalog_op J (AdmitParserPlugin i es xs p g) cat = fst (admitParserPlugin cat i es xs p g)"
| "apply_catalog_op J (RemoveProvider i) cat = fst (removeProvider cat i)"
| "apply_catalog_op J ClearCatalog cat = clear_catalog cat"
| "apply_catalog_op J (SetDiagnosticSink b) cat = setDiagnosticSink b cat"

definition catalog_after :: "'j json_api \<Rightarrow> catalog_op list \<Rightarrow> ParserClaimCatalog \<Rightarrow> ParserClaimCatalog" where
  "catalog_after J ops cat = fold (apply_catalog_op J) ops cat"

lemma apply_catalog_op_ok: "catalog_ok cat \<Longrightarrow> catalog_ok (apply_catalog_op J op cat)"
  by (cases op) (simp_all add: admitClaims_ok ingestModuleManifest_ok admitParserPlugin_ok removeProvider_ok
      clear_catalog_ok, simp add: setDiagnosticSink_def catalog_ok_def)

lemma catalog_after_ok: "catalog_ok cat \<Longrightarrow> catalog_ok (catalog_after J ops cat)"
  unfolding catalog_after_def by (induction ops arbitrary: cat) (auto simp: apply_catalog_op_ok)

lemma new_catalog_ok: "catalog_ok (new_catalog sink src)"
  by (simp add: new_catalog_def catalog_ok_def)

subsection \<open>The catalog as a map from identities\<close>

definition catalog_map :: "ParserClaimCatalog \<Rightarrow> string \<times> string \<rightharpoonup> ParserClaimEntry" where
  "catalog_map cat = map_of (map (\<lambda>e. (entryIdentity e, e)) (cat_claims cat))"

lemma dom_catalog_map: "dom (catalog_map cat) = set (map entryIdentity (cat_claims cat))"
  by (simp add: catalog_map_def dom_map_of_conv_image_fst image_image)

text \<open>An admitted batch is added to the map, whose old identities it does not touch.\<close>

lemma catalog_map_admit:
  assumes "admitClaims cat claims provenance gen = (cat', Inr u)"
  shows "\<exists>new. dom new \<inter> dom (catalog_map cat) = {} \<and> catalog_map cat' = catalog_map cat ++ new
    \<and> dom new = set (map identityPair claims)"
proof -
  from admitClaims_Inr [OF assms] obtain vs where vs:
    "cat_claims cat' = cat_claims cat @ map (\<lambda>c. \<lparr>pe_claim = c, pe_provider_generation = gen\<rparr>) vs"
    "list_all2 (\<lambda>c v. normalizeAndValidateClaim (c\<lparr>pc_provenance := provenance\<rparr>) = Inr v) claims vs"
    "set (map identityPair vs) \<inter> set (map entryIdentity (cat_claims cat)) = {}"
    by metis
  let ?new = "map_of (map (\<lambda>e. (entryIdentity e, e))
    (map (\<lambda>c. \<lparr>pe_claim = c, pe_provider_generation = gen\<rparr>) vs))"
  have "map identityPair vs = map identityPair claims"
    using vs(2) by (induction claims vs rule: list_all2_induct)
      (simp_all add: identityPair_def validated_keeps)
  moreover have dom: "dom ?new = set (map identityPair vs)"
    by (simp add: dom_map_of_conv_image_fst image_image)
  ultimately have dom_claims: "dom ?new = set (map identityPair claims)"
    by simp
  have disj: "dom ?new \<inter> dom (catalog_map cat) = {}"
    using vs(3) unfolding dom dom_catalog_map .
  moreover have "catalog_map cat' = ?new ++ catalog_map cat"
    by (simp add: catalog_map_def vs(1))
  ultimately have "catalog_map cat' = catalog_map cat ++ ?new"
    by (simp add: map_add_comm)
  with disj dom_claims show ?thesis by blast
qed

lemma catalog_map_remove:
  "catalog_map (fst (removeProvider cat provider)) = catalog_map cat |` {k. fst k \<noteq> provider}"
proof -
  have "map_of (map (\<lambda>e. (entryIdentity e, e))
      (filter (\<lambda>e. pc_provider_id (pe_claim e) \<noteq> provider) es)) k
    = (map_of (map (\<lambda>e. (entryIdentity e, e)) es) |` {k. fst k \<noteq> provider}) k" for es k
    by (induction es) (auto simp: restrict_map_def identityPair_def)
  then show ?thesis
    by (auto simp: catalog_map_def removeProvider_claims)
qed

subsection \<open>Decoded and synthesized batches are admitted whole\<close>

text \<open>Claims in normal form, under the host's provenance and with distinct identities.\<close>

definition proper_batch :: "ParserClaimProvenance \<Rightarrow> string \<Rightarrow> ParserClaim list \<Rightarrow> bool" where
  "proper_batch provenance provider claims \<longleftrightarrow>
     (\<forall>c \<in> set claims. valid_claim c \<and> pc_provenance c = provenance \<and> pc_provider_id c = provider)
     \<and> distinct (map identityPair claims)"

lemma proper_batch_Nil [simp]: "proper_batch provenance provider []"
  by (simp add: proper_batch_def)

lemma admit_loop_proper:
  assumes "proper_batch provenance provider claims"
    and "set (map identityPair claims) \<inter> seen = {}"
    and "set (map identityPair claims) \<inter> set (map entryIdentity present) = {}"
  shows "admit_loop present provenance claims seen acc = Inr (acc @ claims)"
  using assms
proof (induction claims arbitrary: seen acc)
  case (Cons c cs)
  have same: "c\<lparr>pc_provenance := provenance\<rparr> = c"
    using Cons.prems(1) by (auto simp: proper_batch_def)
  have c: "normalizeAndValidateClaim (c\<lparr>pc_provenance := provenance\<rparr>) = Inr c"
    unfolding same using Cons.prems(1) by (simp add: proper_batch_def valid_claim_def)
  have "admit_loop present provenance cs (insert (identityPair c) seen) (acc @ [c]) = Inr ((acc @ [c]) @ cs)"
    using Cons.prems by (intro Cons.IH) (auto simp: proper_batch_def)
  then show ?case
    using Cons.prems c by (simp only: admit_loop.simps already_present) simp
qed simp

lemma decodeClaim_Inr:
  assumes "decodeClaim J i provenance n j = Inr v"
  shows "valid_claim v \<and> pc_provenance v = provenance \<and> pc_provider_id v = i"
  using assms by (auto simp: decodeClaim_def refuse_eq_Inr bindE_eq_Inr validated_valid validated_keeps)

lemma decodeClaims_proper:
  assumes "decodeClaims J i provenance n js identities acc = Inr out"
    and "proper_batch provenance i acc" "identities = set (map identityPair acc)"
  shows "proper_batch provenance i out"
  using assms
proof (induction J i provenance n js identities acc rule: decodeClaims.induct)
  case (2 J i provenance n j js identities acc)
  then obtain v where v: "decodeClaim J i provenance n j = Inr v" "identityPair v \<notin> identities"
      "decodeClaims J i provenance (n + 1) js (insert (identityPair v) identities) (acc @ [v]) = Inr out"
    by (auto simp: bindE_eq_Inr refuse_eq_Inr)
  show ?case
    using decodeClaim_Inr [OF v(1)] "2.prems" v by (intro "2.IH" [OF v(3)]) (auto simp: proper_batch_def)
qed simp

lemma decoded_manifest_proper:
  assumes "decodeParserModuleManifest J m provenance = Inr manifest"
  shows "proper_batch provenance (pm_id manifest) (pm_claims manifest)"
proof -
  obtain js where "decodeClaims J (pm_id manifest) provenance 0 js {} [] = Inr (pm_claims manifest)"
    using assms by (auto simp: decodeParserModuleManifest_def refuse_eq_Inr bindE_eq_Inr)
  then show ?thesis
    by (rule decodeClaims_proper) simp_all
qed

lemma synthesizeWildcards_proper:
  assumes "synthesizeWildcards i provenance es encodings identities acc = Inr (encs, ids, out)"
    and "proper_batch provenance i acc" "identities = set (map identityPair acc)"
  shows "proper_batch provenance i out \<and> ids = set (map identityPair out)"
  using assms
proof (induction i provenance es encodings identities acc rule: synthesizeWildcards.induct)
  case (2 i provenance e es encodings identities acc)
  let ?w = "\<lparr>pc_encoding = e, pc_type_name = ''*'', pc_route_flags = PJ_PARSER_ROUTE_FLAG_SCALAR_V1,
    pc_object_type = None, pc_schema_digests = {}, pc_provider_id = i,
    pc_claim_id = ''wildcard:'' @ e, pc_priority = 0, pc_provenance = provenance\<rparr>"
  from 2 obtain v where v: "normalizeAndValidateClaim ?w = Inr v" "identityPair v \<notin> identities"
      "synthesizeWildcards i provenance es (insert e encodings) (insert (identityPair v) identities)
         (acc @ [v]) = Inr (encs, ids, out)"
    by (auto simp: bindE_eq_Inr refuse_eq_Inr)
  show ?case
    using validated_valid [OF v(1)] validated_keeps [OF v(1)] "2.prems" v
    by (intro "2.IH" [OF v(3)]) (auto simp: proper_batch_def)
qed auto

lemma synthesizeExact_Inr:
  "synthesizeExact i provenance encodings x = Inr (Some v) \<Longrightarrow>
     valid_claim v \<and> pc_provenance v = provenance \<and> pc_provider_id v = i"
  by (auto simp: synthesizeExact_def Let_def refuse_eq_Inr bindE_eq_Inr validated_valid validated_keeps
      split: if_split_asm)

lemma synthesizeExacts_proper:
  assumes "synthesizeExacts i provenance encodings xs identities acc = Inr out"
    and "proper_batch provenance i acc" "identities = set (map identityPair acc)"
  shows "proper_batch provenance i out"
  using assms
proof (induction i provenance encodings xs identities acc rule: synthesizeExacts.induct)
  case (2 i provenance encodings x xs identities acc)
  from "2.prems"(1) obtain r where r: "synthesizeExact i provenance encodings x = Inr r"
    by (auto simp: bindE_eq_Inr)
  show ?case
  proof (cases r)
    case None
    then show ?thesis using 2 r by simp
  next
    case (Some v)
    then have v: "identityPair v \<notin> identities"
      "synthesizeExacts i provenance encodings xs (insert (identityPair v) identities) (acc @ [v]) = Inr out"
      using "2.prems"(1) r by (simp_all add: refuse_eq_Inr)
    show ?thesis
      using synthesizeExact_Inr [OF r [unfolded Some]] "2.prems" v
      by (intro "2.IH"(2) [OF v(2)]) (auto simp: proper_batch_def)
  qed
qed simp

lemma synthesized_proper:
  "synthesizeParserPluginClaims i es xs provenance = Inr claims \<Longrightarrow> proper_batch provenance i claims"
  by (auto simp: synthesizeParserPluginClaims_def refuse_eq_Inr bindE_eq_Inr
      dest!: synthesizeWildcards_proper elim!: synthesizeExacts_proper)

text \<open>A proper batch of a provider that has no claims yet is admitted whole.\<close>

lemma admitClaims_proper:
  assumes "proper_batch provenance provider claims"
    and "\<forall>entry \<in> set (cat_claims cat). pc_provider_id (pe_claim entry) \<noteq> provider"
  shows "snd (admitClaims cat claims provenance gen) = Inr ()"
    and "cat_claims (fst (admitClaims cat claims provenance gen)) =
      cat_claims cat @ map (\<lambda>c. \<lparr>pe_claim = c, pe_provider_generation = gen\<rparr>) claims"
proof -
  have "set (map identityPair claims) \<inter> set (map entryIdentity (cat_claims cat)) = {}"
    using assms by (auto simp: proper_batch_def identityPair_def)
  then have "admit_loop (cat_claims cat) provenance claims {} [] = Inr claims"
    using admit_loop_proper [OF assms(1), of "{}" "cat_claims cat" "[]"] by simp
  then show "snd (admitClaims cat claims provenance gen) = Inr ()"
    "cat_claims (fst (admitClaims cat claims provenance gen)) =
      cat_claims cat @ map (\<lambda>c. \<lparr>pe_claim = c, pe_provider_generation = gen\<rparr>) claims"
    by (simp_all add: admitClaims_def)
qed

end
