(* ===== verification/RouteResolver.thy ===== *)
theory RouteResolver
  imports ClaimCatalog
begin

section \<open>Route selection (\<open>host/parser_route_resolver.hpp\<close>, \<open>parser_route_resolver.cpp\<close>)\<close>

text \<open>
  Which provider parses a route: the policy order of the admitted claims, then probing in that
  order with the decisions cached. The configuration lookup and the probe are callbacks of the host:
  functions of a world state \<open>'w\<close> that may return, throw a standard exception, or throw something
  else. A retained instance is a number that stands for the shared pointer. A callback does not call
  back into the resolver.
\<close>

subsection \<open>Requests, decisions and results\<close>

datatype ParserRoute = kScalar | kObject

fun routeFlag :: "ParserRoute \<Rightarrow> u16" where
  "routeFlag kScalar = PJ_PARSER_ROUTE_FLAG_SCALAR_V1"
| "routeFlag kObject = PJ_PARSER_ROUTE_FLAG_OBJECT_V1"

fun routeValue :: "ParserRoute \<Rightarrow> nat" where
  "routeValue kScalar = 1"
| "routeValue kObject = 2"

record ParserRoutePins =
  scalar_provider :: "string option"
  object_provider :: "string option"

fun forRoute :: "ParserRoutePins \<Rightarrow> ParserRoute \<Rightarrow> string option" where
  "forRoute pins kScalar = scalar_provider pins"
| "forRoute pins kObject = object_provider pins"

record ParserRouteRequest =
  rq_encoding :: string
  rq_type_name :: string
  rq_schema_digest :: string
  rq_route :: ParserRoute

type_synonym ParserClaimIdentity = "string \<times> string"

record ParserRouteCandidate =
  cd_claim :: ParserClaim
  cd_provider_generation :: u64

abbreviation candidateIdentity :: "ParserRouteCandidate \<Rightarrow> ParserClaimIdentity" where
  "candidateIdentity cand \<equiv> identityPair (cd_claim cand)"

text \<open>A callback can return a number that is no enumerator.\<close>

datatype ParserProbeOutcome = kAccept | kDecline | kProbeError | NoSuchOutcome u8

record ParserProbeRequest =
  pr_claim :: ParserClaim
  pr_provider_generation :: u64
  pr_config_json :: string
  pr_config_digest :: string

record ParserProbeDecision =
  pd_outcome :: ParserProbeOutcome
  pd_diagnostic :: string
  pd_retained_instance :: "nat option"

record ParserProviderConfig =
  cf_json :: string
  cf_digest :: string

datatype 'a callback_result = Returned 'a | ThrewException string | ThrewUnknown

type_synonym 'w config_callback = "string \<Rightarrow> 'w \<Rightarrow> ParserProviderConfig callback_result \<times> 'w"
type_synonym 'w probe_callback = "ParserProbeRequest \<Rightarrow> 'w \<Rightarrow> ParserProbeDecision callback_result \<times> 'w"

datatype ParserSelectionTraceKind =
  kCandidate | kCacheHit | kProbeAccept | kProbeDecline | kProbeErrorTrace | kAmbiguityTieBreak
| kSelectedTrace | kPinnedProviderUnavailableTrace | kExhausted

record ParserSelectionTraceEntry =
  tr_kind :: ParserSelectionTraceKind
  tr_claim :: ParserClaimIdentity
  tr_detail :: string

datatype ParserRouteResolutionStatus =
  kSelected | kNoCandidates | kNoProviderAccepted | kPinnedProviderUnavailable | kPinnedProviderRejected

record ParserRouteResolution =
  rs_status :: ParserRouteResolutionStatus
  rs_winner :: "ParserClaimIdentity option"
  rs_winning_claim :: "ParserClaim option"
  rs_retained_instance :: "nat option"
  rs_ordered_candidates :: "ParserClaimIdentity list"
  rs_trace :: "ParserSelectionTraceEntry list"

record CacheEntry =
  ce_provider_id :: string
  ce_claim_id :: string
  ce_provider_generation :: u64
  ce_encoding :: string
  ce_type_name :: string
  ce_schema_digest :: string
  ce_config_digest :: string
  ce_decision :: ParserProbeDecision

record ParserRouteResolver =
  rr_sink :: bool
  rr_source :: string
  rr_scalar_probe_cache :: "CacheEntry list"
  rr_object_probe_cache :: "CacheEntry list"
  rr_reported_ambiguities :: "string list"
  rr_delivered :: "Diagnostic list"

definition new_resolver :: "bool \<Rightarrow> string \<Rightarrow> ParserRouteResolver" where
  "new_resolver sink src = \<lparr>rr_sink = sink, rr_source = src, rr_scalar_probe_cache = [],
     rr_object_probe_cache = [], rr_reported_ambiguities = [], rr_delivered = []\<rparr>"

definition resolver_setDiagnosticSink :: "bool \<Rightarrow> ParserRouteResolver \<Rightarrow> ParserRouteResolver" where
  "resolver_setDiagnosticSink sink R = R\<lparr>rr_sink := sink\<rparr>"

definition resolver_report ::
    "ParserRouteResolver \<Rightarrow> DiagnosticLevel \<Rightarrow> string \<Rightarrow> string \<Rightarrow> ParserRouteResolver" where
  "resolver_report R level ident message =
     (if \<not> rr_sink R then R
      else R\<lparr>rr_delivered := rr_delivered R @
        [\<lparr>dg_level = level, dg_source = rr_source R, dg_id = ident, dg_message = message\<rparr>]\<rparr>)"

subsection \<open>The policy order\<close>

text \<open>The comparison of \<open>std::sort\<close>.\<close>

definition candidate_before :: "ParserRouteCandidate \<Rightarrow> ParserRouteCandidate \<Rightarrow> bool" where
  "candidate_before lhs rhs =
     (let l = cd_claim lhs; r = cd_claim rhs; lhs_exact = (pc_type_name l \<noteq> ''*'');
          rhs_exact = (pc_type_name r \<noteq> ''*'') in
      if lhs_exact \<noteq> rhs_exact then lhs_exact
      else if pc_provenance l \<noteq> pc_provenance r then pc_provenance l > pc_provenance r
      else if pc_priority l \<noteq> pc_priority r then sint (pc_priority l) > sint (pc_priority r)
      else pc_provider_id l < pc_provider_id r
        \<or> (pc_provider_id l = pc_provider_id r \<and> pc_claim_id l < pc_claim_id r))"

text \<open>A sort with that comparison.\<close>

fun insert_candidate :: "ParserRouteCandidate \<Rightarrow> ParserRouteCandidate list \<Rightarrow> ParserRouteCandidate list" where
  "insert_candidate c [] = [c]"
| "insert_candidate c (d # ds) = (if candidate_before d c then d # insert_candidate c ds else c # d # ds)"

fun sort_candidates :: "ParserRouteCandidate list \<Rightarrow> ParserRouteCandidate list" where
  "sort_candidates [] = []"
| "sort_candidates (c # cs) = insert_candidate c (sort_candidates cs)"

text \<open>The filter of the loop over the catalog.\<close>

definition entry_matches :: "ParserRouteRequest \<Rightarrow> string \<Rightarrow> string option \<Rightarrow> ParserClaimEntry \<Rightarrow> bool" where
  "entry_matches request normalized_type pin entry =
     (let claim = pe_claim entry in
      if pc_encoding claim \<noteq> rq_encoding request \<or> (pc_route_flags claim AND routeFlag (rq_route request)) = 0
        then False
      else if pc_type_name claim \<noteq> ''*'' \<and> pc_type_name claim \<noteq> normalized_type then False
      else if pc_schema_digests claim \<noteq> {} \<and> rq_schema_digest request \<notin> pc_schema_digests claim then False
      else if pin \<noteq> None \<and> pc_provider_id claim \<noteq> the pin then False
      else True)"

definition candidate_of :: "ParserClaimEntry \<Rightarrow> ParserRouteCandidate" where
  "candidate_of entry = \<lparr>cd_claim = pe_claim entry, cd_provider_generation = pe_provider_generation entry\<rparr>"

definition orderedCandidates ::
    "ParserRouteRequest \<Rightarrow> ParserClaimEntry list \<Rightarrow> ParserRoutePins \<Rightarrow> string + ParserRouteCandidate list" where
  "orderedCandidates request entries pins =
     refuse (\<not> isRegisteredParserEncoding (rq_encoding request))
       (''route request uses unknown encoding: '' @ rq_encoding request) (
     bindE (normalizeParserTypeName (rq_encoding request) (rq_type_name request)) (\<lambda>normalized_type.
     Inr (sort_candidates (map candidate_of
       (filter (entry_matches request normalized_type (forRoute pins (rq_route request))) entries)))))"

subsection \<open>Probing and the cache\<close>

fun route_cache :: "ParserRouteResolver \<Rightarrow> ParserRoute \<Rightarrow> CacheEntry list" where
  "route_cache R kScalar = rr_scalar_probe_cache R"
| "route_cache R kObject = rr_object_probe_cache R"

fun push_cache :: "ParserRouteResolver \<Rightarrow> ParserRoute \<Rightarrow> CacheEntry \<Rightarrow> ParserRouteResolver" where
  "push_cache R kScalar e = R\<lparr>rr_scalar_probe_cache := rr_scalar_probe_cache R @ [e]\<rparr>"
| "push_cache R kObject e = R\<lparr>rr_object_probe_cache := rr_object_probe_cache R @ [e]\<rparr>"

definition lookup_config :: "'w config_callback option \<Rightarrow> string \<Rightarrow> 'w \<Rightarrow> (string + ParserProviderConfig) \<times> 'w" where
  "lookup_config provider_config provider w = (case provider_config of
     None \<Rightarrow> (Inr \<lparr>cf_json = [], cf_digest = []\<rparr>, w)
   | Some f \<Rightarrow> (case f provider w of
       (Returned config, w') \<Rightarrow> (Inr config, w')
     | (ThrewException what, w') \<Rightarrow>
         (Inl (''provider config lookup failed for provider '' @ provider @ '': '' @ what), w')
     | (ThrewUnknown, w') \<Rightarrow> (Inl (''provider config lookup failed for provider '' @ provider), w')))"

definition cache_matches ::
    "ParserRouteRequest \<Rightarrow> string \<Rightarrow> ParserRouteCandidate \<Rightarrow> ParserProviderConfig \<Rightarrow> CacheEntry \<Rightarrow> bool" where
  "cache_matches request normalized_type cand config entry \<longleftrightarrow>
     ce_provider_id entry = pc_provider_id (cd_claim cand) \<and> ce_claim_id entry = pc_claim_id (cd_claim cand) \<and>
     ce_provider_generation entry = cd_provider_generation cand \<and> ce_encoding entry = rq_encoding request \<and>
     ce_type_name entry = normalized_type \<and> ce_schema_digest entry = rq_schema_digest request \<and>
     ce_config_digest entry = cf_digest config"

definition call_probe :: "'w probe_callback \<Rightarrow> ParserProbeRequest \<Rightarrow> 'w \<Rightarrow> ParserProbeDecision \<times> 'w" where
  "call_probe probe preq w = (case probe preq w of
     (Returned decision, w') \<Rightarrow> (decision, w')
   | (ThrewException what, w') \<Rightarrow>
       (\<lparr>pd_outcome = kProbeError, pd_diagnostic = ''probe callback threw: '' @ what,
         pd_retained_instance = None\<rparr>, w')
   | (ThrewUnknown, w') \<Rightarrow>
       (\<lparr>pd_outcome = kProbeError, pd_diagnostic = ''probe callback threw an unknown exception'',
         pd_retained_instance = None\<rparr>, w'))"

definition checked_decision :: "ParserProbeDecision \<Rightarrow> ParserProbeDecision" where
  "checked_decision decision = (case pd_outcome decision of
     NoSuchOutcome _ \<Rightarrow>
       \<lparr>pd_outcome = kProbeError, pd_diagnostic = ''probe callback returned an invalid outcome'',
        pd_retained_instance = None\<rparr>
   | kAccept \<Rightarrow> decision
   | _ \<Rightarrow> decision\<lparr>pd_retained_instance := None\<rparr>)"

definition cache_entry_for ::
    "ParserRouteRequest \<Rightarrow> string \<Rightarrow> ParserRouteCandidate \<Rightarrow> ParserProviderConfig \<Rightarrow> ParserProbeDecision \<Rightarrow> CacheEntry" where
  "cache_entry_for request normalized_type cand config decision =
     \<lparr>ce_provider_id = pc_provider_id (cd_claim cand), ce_claim_id = pc_claim_id (cd_claim cand),
      ce_provider_generation = cd_provider_generation cand, ce_encoding = rq_encoding request,
      ce_type_name = normalized_type, ce_schema_digest = rq_schema_digest request,
      ce_config_digest = cf_digest config, ce_decision = decision\<rparr>"

text \<open>The decision for one candidate, and whether it came from the cache.\<close>

definition decide :: "ParserRouteResolver \<Rightarrow> ParserRouteRequest \<Rightarrow> string \<Rightarrow> ParserRouteCandidate
    \<Rightarrow> ParserProviderConfig \<Rightarrow> 'w probe_callback \<Rightarrow> 'w \<Rightarrow> ParserProbeDecision \<times> bool \<times> ParserRouteResolver \<times> 'w" where
  "decide R request normalized_type cand config probe w =
     (case find (cache_matches request normalized_type cand config) (route_cache R (rq_route request)) of
        Some cached \<Rightarrow> (ce_decision cached, True, R, w)
      | None \<Rightarrow>
          (case call_probe probe \<lparr>pr_claim = cd_claim cand, pr_provider_generation = cd_provider_generation cand,
               pr_config_json = cf_json config, pr_config_digest = cf_digest config\<rparr> w of
             (raw, w') \<Rightarrow>
               let decision = checked_decision raw in
               (decision, False,
                push_cache R (rq_route request) (cache_entry_for request normalized_type cand config decision), w')))"

subsection \<open>Resolution\<close>

definition outcomeDetail :: "ParserProbeDecision \<Rightarrow> string \<Rightarrow> string" where
  "outcomeDetail decision fallback = (if pd_diagnostic decision = [] then fallback else pd_diagnostic decision)"

definition hasSamePolicyRank :: "ParserClaim \<Rightarrow> ParserClaim \<Rightarrow> bool" where
  "hasSamePolicyRank lhs rhs \<longleftrightarrow> (pc_type_name lhs = ''*'') = (pc_type_name rhs = ''*'')
     \<and> pc_provenance lhs = pc_provenance rhs \<and> pc_priority lhs = pc_priority rhs"

fun join_semicolon :: "string list \<Rightarrow> string" where
  "join_semicolon [] = []"
| "join_semicolon [s] = s"
| "join_semicolon (s # t # ts) = s @ ''; '' @ join_semicolon (t # ts)"

definition report_declines :: "ParserRouteResolver \<Rightarrow> string list \<Rightarrow> ParserRouteResolver" where
  "report_declines R declined_probes =
     (if declined_probes = [] then R
      else resolver_report R kInfo [] (''parser probe declined for '' @ to_string (length declined_probes)
        @ '' candidate(s): '' @ join_semicolon declined_probes))"

definition add_trace :: "ParserSelectionTraceKind \<Rightarrow> ParserClaimIdentity \<Rightarrow> string
    \<Rightarrow> ParserRouteResolution \<Rightarrow> ParserRouteResolution" where
  "add_trace kind ident detail resolution = resolution\<lparr>rs_trace := rs_trace resolution @
     [\<lparr>tr_kind = kind, tr_claim = ident, tr_detail = detail\<rparr>]\<rparr>"

definition ambiguity_key :: "ParserRouteRequest \<Rightarrow> string \<Rightarrow> ParserClaimIdentity \<Rightarrow> string" where
  "ambiguity_key request normalized_type winner =
     rq_encoding request @ [CHR 10] @ normalized_type @ [CHR 10] @ rq_schema_digest request @ [CHR 10]
     @ to_string (routeValue (rq_route request)) @ [CHR 10] @ fst winner @ [CHR 10] @ snd winner"

definition tied_candidate :: "ParserRouteCandidate list \<Rightarrow> ParserRouteCandidate \<Rightarrow> bool" where
  "tied_candidate candidates cand \<longleftrightarrow> list_ex (\<lambda>other. candidateIdentity other > candidateIdentity cand
     \<and> hasSamePolicyRank (cd_claim cand) (cd_claim other)) candidates"

text \<open>The tie break is reported once per key.\<close>

definition note_ambiguity :: "ParserRouteResolver \<Rightarrow> ParserRouteRequest \<Rightarrow> string \<Rightarrow> ParserRouteCandidate list
    \<Rightarrow> ParserRouteCandidate \<Rightarrow> ParserRouteResolution \<Rightarrow> ParserRouteResolution \<times> ParserRouteResolver" where
  "note_ambiguity R request normalized_type candidates cand resolution =
     (let winner = candidateIdentity cand; key = ambiguity_key request normalized_type winner;
          detail = ''stable claim identity selected '' @ fst winner @ ''/'' @ snd winner
            @ '' over an equal-ranked candidate'' in
      if tied_candidate candidates cand \<and> key \<notin> set (rr_reported_ambiguities R)
      then (add_trace kAmbiguityTieBreak winner detail resolution,
            resolver_report (R\<lparr>rr_reported_ambiguities := rr_reported_ambiguities R @ [key]\<rparr>) kWarning
              (fst winner) (''ambiguous parser claims: '' @ detail))
      else (resolution, R))"

definition select_winner :: "ParserRouteResolver \<Rightarrow> ParserRouteRequest \<Rightarrow> string \<Rightarrow> ParserRouteCandidate list
    \<Rightarrow> ParserRouteCandidate \<Rightarrow> ParserProbeDecision \<Rightarrow> string list \<Rightarrow> ParserRouteResolution
    \<Rightarrow> ParserRouteResolution \<times> ParserRouteResolver" where
  "select_winner R request normalized_type candidates cand decision declined_probes resolution =
     (let winner = candidateIdentity cand;
          accepted = (add_trace kProbeAccept winner ''provider accepted during probe'' resolution)
            \<lparr>rs_status := kSelected, rs_winner := Some winner, rs_winning_claim := Some (cd_claim cand),
             rs_retained_instance := pd_retained_instance decision\<rparr>;
          (noted, R') = note_ambiguity (report_declines R declined_probes) request normalized_type candidates
            cand accepted in
      (add_trace kSelectedTrace winner ''route provider selected'' noted, R'))"

definition reject_all :: "ParserRouteResolver \<Rightarrow> string option \<Rightarrow> string list \<Rightarrow> ParserRouteResolution
    \<Rightarrow> ParserRouteResolution \<times> ParserRouteResolver" where
  "reject_all R pin declined_probes resolution =
     (let exhausted = add_trace kExhausted ((case pin of None \<Rightarrow> [] | Some p \<Rightarrow> p), [])
            (if pin \<noteq> None then ''pinned provider declined or failed; fallback is disabled''
             else ''all matching providers declined or failed'')
            (resolution\<lparr>rs_status := (if pin \<noteq> None then kPinnedProviderRejected else kNoProviderAccepted)\<rparr>);
          R' = report_declines R declined_probes in
      (exhausted, case pin of None \<Rightarrow> R'
        | Some p \<Rightarrow> resolver_report R' kError p ''pinned parser provider declined or failed; route remains unbound''))"

text \<open>The loop over the candidates that are left.\<close>

fun resolve_loop :: "ParserRouteRequest \<Rightarrow> string \<Rightarrow> string option \<Rightarrow> ParserRouteCandidate list
    \<Rightarrow> 'w config_callback option \<Rightarrow> 'w probe_callback \<Rightarrow> ParserRouteCandidate list \<Rightarrow> string list
    \<Rightarrow> ParserRouteResolution \<Rightarrow> ParserRouteResolver \<Rightarrow> 'w
    \<Rightarrow> (string + ParserRouteResolution) \<times> ParserRouteResolver \<times> 'w" where
  "resolve_loop request normalized_type pin candidates provider_config probe [] declined_probes resolution R w =
     (case reject_all R pin declined_probes resolution of (res, R') \<Rightarrow> (Inr res, R', w))"
| "resolve_loop request normalized_type pin candidates provider_config probe (cand # rest) declined_probes
     resolution R w =
     (case lookup_config provider_config (pc_provider_id (cd_claim cand)) w of
        (Inl e, w') \<Rightarrow> (Inl e, R, w')
      | (Inr config, w') \<Rightarrow>
          (case decide R request normalized_type cand config probe w' of
             (decision, cache_hit, R', w'') \<Rightarrow>
               let ident = candidateIdentity cand;
                   traced = (if cache_hit then add_trace kCacheHit ident ''probe result reused'' resolution
                             else resolution) in
               if pd_outcome decision = kDecline then
                 let detail = outcomeDetail decision ''provider declined during probe'' in
                 resolve_loop request normalized_type pin candidates provider_config probe rest
                   (if cache_hit then declined_probes
                    else declined_probes @ [fst ident @ ''/'' @ snd ident @ '': '' @ detail])
                   (add_trace kProbeDecline ident detail traced) R' w''
               else if pd_outcome decision = kProbeError then
                 let detail = outcomeDetail decision ''provider probe failed'' in
                 resolve_loop request normalized_type pin candidates provider_config probe rest declined_probes
                   (add_trace kProbeErrorTrace ident detail traced)
                   (if cache_hit then R' else resolver_report R' kError (fst ident) (''parser probe error: '' @ detail))
                   w''
               else (case select_winner R' request normalized_type candidates cand decision declined_probes traced of
                   (res, R'') \<Rightarrow> (Inr res, R'', w''))))"

definition initial_resolution :: "ParserRouteCandidate list \<Rightarrow> ParserRouteResolution" where
  "initial_resolution candidates =
     \<lparr>rs_status = kNoCandidates, rs_winner = None, rs_winning_claim = None, rs_retained_instance = None,
      rs_ordered_candidates = map candidateIdentity candidates,
      rs_trace = map (\<lambda>c. \<lparr>tr_kind = kCandidate, tr_claim = candidateIdentity c,
        tr_detail = (if pc_type_name (cd_claim c) = ''*'' then ''wildcard candidate'' else ''exact candidate'')\<rparr>)
        candidates\<rparr>"

definition resolve :: "ParserRouteResolver \<Rightarrow> ParserRouteRequest \<Rightarrow> ParserClaimEntry list \<Rightarrow> ParserRoutePins
    \<Rightarrow> 'w config_callback option \<Rightarrow> 'w probe_callback option \<Rightarrow> 'w
    \<Rightarrow> (string + ParserRouteResolution) \<times> ParserRouteResolver \<times> 'w" where
  "resolve R request entries pins provider_config probe w =
     (case probe of None \<Rightarrow> (Inl ''parser probe callback is empty'', R, w)
      | Some probe_fn \<Rightarrow>
     (case normalizeParserTypeName (rq_encoding request) (rq_type_name request) of
        Inl e \<Rightarrow> (Inl e, R, w)
      | Inr normalized_type \<Rightarrow>
     (case orderedCandidates request entries pins of
        Inl e \<Rightarrow> (Inl e, R, w)
      | Inr candidates \<Rightarrow>
          (let pin = forRoute pins (rq_route request); resolution = initial_resolution candidates in
           if candidates = [] then
             (case pin of
                Some p \<Rightarrow>
                  (Inr (add_trace kPinnedProviderUnavailableTrace (p, [])
                     ''pinned provider has no matching admitted claim''
                     (resolution\<lparr>rs_status := kPinnedProviderUnavailable\<rparr>)),
                   resolver_report R kError p (''pinned parser provider is unavailable for ''
                     @ rq_encoding request @ '':'' @ normalized_type), w)
              | None \<Rightarrow>
                  (Inr (add_trace kExhausted ([], []) ''no matching admitted claims''
                     (resolution\<lparr>rs_status := kNoCandidates\<rparr>)), R, w))
           else resolve_loop request normalized_type pin candidates provider_config probe_fn candidates []
                  resolution R w))))"

subsection \<open>Invalidation\<close>

definition clearAllCachedState :: "ParserRouteResolver \<Rightarrow> ParserRouteResolver" where
  "clearAllCachedState R = R\<lparr>rr_scalar_probe_cache := [], rr_object_probe_cache := [], rr_reported_ambiguities := []\<rparr>"

definition invalidateCatalog :: "ParserRouteResolver \<Rightarrow> ParserRouteResolver" where
  "invalidateCatalog R = clearAllCachedState R"

definition invalidatePins :: "ParserRouteResolver \<Rightarrow> ParserRouteResolver" where
  "invalidatePins R = clearAllCachedState R"

definition invalidateProviderConfig :: "string \<Rightarrow> ParserRouteResolver \<Rightarrow> ParserRouteResolver" where
  "invalidateProviderConfig provider R =
     R\<lparr>rr_scalar_probe_cache := filter (\<lambda>e. \<not> ce_provider_id e = provider) (rr_scalar_probe_cache R),
       rr_object_probe_cache := filter (\<lambda>e. \<not> ce_provider_id e = provider) (rr_object_probe_cache R)\<rparr>"

definition probeCacheSize :: "ParserRouteResolver \<Rightarrow> nat" where
  "probeCacheSize R = length (rr_scalar_probe_cache R) + length (rr_object_probe_cache R)"

subsection \<open>The order is a function of the set of claims\<close>

text \<open>The comparison orders candidates by a rank in a linear order, that includes the identity.\<close>

definition candidate_rank :: "ParserRouteCandidate \<Rightarrow> bool \<times> int \<times> int \<times> string \<times> string" where
  "candidate_rank cand = (pc_type_name (cd_claim cand) = ''*'',
     - int (provenanceValue (pc_provenance (cd_claim cand))), - sint (pc_priority (cd_claim cand)),
     pc_provider_id (cd_claim cand), pc_claim_id (cd_claim cand))"

lemma provenanceValue_inject: "provenanceValue a = provenanceValue b \<longleftrightarrow> a = b"
  by (cases a; cases b) simp_all

lemma candidate_before_rank: "candidate_before a b \<longleftrightarrow> candidate_rank a < candidate_rank b"
proof -
  have "pc_priority (cd_claim a) = pc_priority (cd_claim b) \<longleftrightarrow>
      sint (pc_priority (cd_claim a)) = sint (pc_priority (cd_claim b))"
    by (auto intro: signed_word_eqI)
  moreover have "pc_provenance (cd_claim a) = pc_provenance (cd_claim b) \<longleftrightarrow>
      provenanceValue (pc_provenance (cd_claim a)) = provenanceValue (pc_provenance (cd_claim b))"
    by (simp add: provenanceValue_inject)
  ultimately show ?thesis
    by (auto simp: candidate_before_def candidate_rank_def Let_def less_prod_simp
        less_ParserClaimProvenance_def)
qed

lemma insert_candidate_insort: "insert_candidate c cs = insort_key candidate_rank c cs"
  by (induction cs) (auto simp: candidate_before_rank not_less)

lemma sort_candidates_sort_key: "sort_candidates cs = sort_key candidate_rank cs"
  by (induction cs) (simp_all add: insert_candidate_insort)

lemma set_sort_candidates [simp]: "set (sort_candidates cs) = set cs"
  by (simp add: sort_candidates_sort_key)

lemma rank_identity: "candidate_rank a = candidate_rank b \<Longrightarrow> candidateIdentity a = candidateIdentity b"
  by (simp add: candidate_rank_def identityPair_def)

lemma candidate_of_identity [simp]: "candidateIdentity (candidate_of e) = entryIdentity e"
  by (simp add: candidate_of_def)

lemma candidate_of_inject: "candidate_of a = candidate_of b \<longleftrightarrow> a = b"
  by (cases a; cases b) (auto simp: candidate_of_def)

context claim_registry
begin

lemma ranks_distinct:
  assumes "consistent c"
  shows "distinct (map candidate_rank (sort_candidates (map candidate_of (filter P (entries c)))))"
proof -
  have "inj_on (candidate_rank \<circ> candidate_of) (set (entries c))"
    using identity_determines [OF assms] rank_identity by (fastforce intro: inj_onI)
  then have "distinct (map (candidate_rank \<circ> candidate_of) (filter P (entries c)))"
    using entries_distinct [OF assms] by (simp add: distinct_map inj_on_def)
  then show ?thesis
    by (auto simp: sort_candidates_sort_key distinct_map inj_on_def)
qed

text \<open>Two registries with the same entries, in any order, give the same candidates.\<close>

lemma order_independent:
  assumes "consistent c" "consistent d" "set (entries c) = set (entries d)"
  shows "orderedCandidates request (entries c) pins = orderedCandidates request (entries d) pins"
proof -
  have "sort_candidates (map candidate_of (filter P (entries c)))
      = sort_candidates (map candidate_of (filter P (entries d)))" (is "?a = ?b") for P
  proof (rule map_sorted_distinct_set_unique [of candidate_rank])
    show "set ?a = set ?b" using assms(3) by simp
    show "inj_on candidate_rank (set ?a \<union> set ?b)"
      using ranks_distinct [OF assms(1), of P] \<open>set ?a = set ?b\<close> by (simp add: distinct_map)
    show "distinct (map candidate_rank ?a)" "distinct (map candidate_rank ?b)"
      using ranks_distinct assms(1,2) by blast+
    show "sorted (map candidate_rank ?a)" "sorted (map candidate_rank ?b)"
      by (simp_all add: sort_candidates_sort_key)
  qed
  then show ?thesis
    by (simp add: orderedCandidates_def)
qed

lemma candidate_in_order:
  assumes "orderedCandidates request (entries c) pins = Inr cands"
  shows "cand \<in> set cands \<longleftrightarrow>
    (\<exists>entry nt. entry \<in> set (entries c) \<and> cand = candidate_of entry
      \<and> normalizeParserTypeName (rq_encoding request) (rq_type_name request) = Inr nt
      \<and> entry_matches request nt (forRoute pins (rq_route request)) entry)"
  using assms by (auto simp: orderedCandidates_def refuse_eq_Inr bindE_eq_Inr)

lemma order_ranked:
  assumes "consistent c" "orderedCandidates request (entries c) pins = Inr cands"
  shows "sorted_wrt candidate_before cands"
proof -
  obtain P where cands: "cands = sort_candidates (map candidate_of (filter P (entries c)))"
    using assms(2) by (auto simp: orderedCandidates_def refuse_eq_Inr bindE_eq_Inr)
  have "sorted (map candidate_rank cands)" "distinct (map candidate_rank cands)"
    using ranks_distinct [OF assms(1)] by (simp_all add: cands sort_candidates_sort_key)
  then have "sorted_wrt (<) (map candidate_rank cands)"
    by (simp add: strict_sorted_iff)
  moreover have "candidate_before = (\<lambda>a b. candidate_rank a < candidate_rank b)"
    by (intro ext candidate_before_rank)
  ultimately show ?thesis
    by (simp add: sorted_wrt_map)
qed

end

subsection \<open>Facts about reports and caches\<close>

lemma resolver_report_cache [simp]:
  "route_cache (resolver_report R level i m) route = route_cache R route"
  "rr_reported_ambiguities (resolver_report R level i m) = rr_reported_ambiguities R"
  by (cases route; simp add: resolver_report_def)+

lemma report_declines_cache [simp]: "route_cache (report_declines R ds) route = route_cache R route"
  by (simp add: report_declines_def)

lemma push_cache_same [simp]: "route_cache (push_cache R route e) route = route_cache R route @ [e]"
  by (cases route) simp_all

lemma add_trace_fields [simp]:
  "rs_status (add_trace k i d r) = rs_status r" "rs_winner (add_trace k i d r) = rs_winner r"
  "rs_winning_claim (add_trace k i d r) = rs_winning_claim r"
  "rs_retained_instance (add_trace k i d r) = rs_retained_instance r"
  "rs_ordered_candidates (add_trace k i d r) = rs_ordered_candidates r"
  by (simp_all add: add_trace_def)

lemma resolver_cache_update [simp]:
  "route_cache (R\<lparr>rr_reported_ambiguities := x\<rparr>) route = route_cache R route"
  by (cases route) simp_all

lemma note_ambiguity_fields [simp]:
  "rs_status (fst (note_ambiguity R request nt cands cand r)) = rs_status r"
  "rs_winner (fst (note_ambiguity R request nt cands cand r)) = rs_winner r"
  "rs_winning_claim (fst (note_ambiguity R request nt cands cand r)) = rs_winning_claim r"
  "rs_retained_instance (fst (note_ambiguity R request nt cands cand r)) = rs_retained_instance r"
  "rs_ordered_candidates (fst (note_ambiguity R request nt cands cand r)) = rs_ordered_candidates r"
  "route_cache (snd (note_ambiguity R request nt cands cand r)) route = route_cache R route"
  by (simp_all add: note_ambiguity_def Let_def)

lemma select_winner_fields [simp]:
  "rs_status (fst (select_winner R request nt cands cand decision ds r)) = kSelected"
  "rs_winner (fst (select_winner R request nt cands cand decision ds r)) = Some (candidateIdentity cand)"
  "rs_winning_claim (fst (select_winner R request nt cands cand decision ds r)) = Some (cd_claim cand)"
  "rs_retained_instance (fst (select_winner R request nt cands cand decision ds r)) = pd_retained_instance decision"
  "rs_ordered_candidates (fst (select_winner R request nt cands cand decision ds r)) = rs_ordered_candidates r"
  "route_cache (snd (select_winner R request nt cands cand decision ds r)) route = route_cache R route"
  by (simp_all add: select_winner_def Let_def case_prod_beta)

lemma reject_all_fields [simp]:
  "rs_status (fst (reject_all R pin ds r)) = (if pin = None then kNoProviderAccepted else kPinnedProviderRejected)"
  "rs_winner (fst (reject_all R pin ds r)) = rs_winner r"
  "rs_winning_claim (fst (reject_all R pin ds r)) = rs_winning_claim r"
  "rs_retained_instance (fst (reject_all R pin ds r)) = rs_retained_instance r"
  "rs_ordered_candidates (fst (reject_all R pin ds r)) = rs_ordered_candidates r"
  "route_cache (snd (reject_all R pin ds r)) route = route_cache R route"
  by (simp_all add: reject_all_def Let_def split: option.split)

subsection \<open>What a resolution leaves in the cache\<close>

text \<open>The configurations of the providers as a function: the lookup returns them and has no effect.\<close>

definition config_lookup :: "'w config_callback option \<Rightarrow> (string \<Rightarrow> ParserProviderConfig) \<Rightarrow> bool" where
  "config_lookup provider_config configs \<longleftrightarrow>
     (\<forall>provider w. lookup_config provider_config provider w = (Inr (configs provider), w))"

definition cached_decision :: "ParserRouteRequest \<Rightarrow> string \<Rightarrow> (string \<Rightarrow> ParserProviderConfig)
    \<Rightarrow> ParserRouteResolver \<Rightarrow> ParserRouteCandidate \<Rightarrow> ParserProbeDecision option" where
  "cached_decision request nt configs R cand = map_option ce_decision
     (find (cache_matches request nt cand (configs (pc_provider_id (cd_claim cand)))) (route_cache R (rq_route request)))"

definition rejects :: "ParserProbeDecision \<Rightarrow> bool" where
  "rejects d \<longleftrightarrow> pd_outcome d = kDecline \<or> pd_outcome d = kProbeError"

text \<open>The candidates up to the first one that is not rejected have a cached decision.\<close>

fun settled :: "ParserRouteRequest \<Rightarrow> string \<Rightarrow> (string \<Rightarrow> ParserProviderConfig) \<Rightarrow> ParserRouteResolver
    \<Rightarrow> ParserRouteCandidate list \<Rightarrow> bool" where
  "settled request nt configs R [] = True"
| "settled request nt configs R (c # cs) = (case cached_decision request nt configs R c of
     None \<Rightarrow> False | Some d \<Rightarrow> \<not> rejects d \<or> settled request nt configs R cs)"

fun first_accepted :: "ParserRouteRequest \<Rightarrow> string \<Rightarrow> (string \<Rightarrow> ParserProviderConfig) \<Rightarrow> ParserRouteResolver
    \<Rightarrow> ParserRouteCandidate list \<Rightarrow> (ParserRouteCandidate \<times> ParserProbeDecision) option" where
  "first_accepted request nt configs R [] = None"
| "first_accepted request nt configs R (c # cs) = (case cached_decision request nt configs R c of
     None \<Rightarrow> None
   | Some d \<Rightarrow> if rejects d then first_accepted request nt configs R cs else Some (c, d))"

text \<open>What the status, winner and instance of a result say about the first accepted candidate.\<close>

definition resolution_is :: "string option \<Rightarrow> (ParserRouteCandidate \<times> ParserProbeDecision) option
    \<Rightarrow> ParserRouteResolution \<Rightarrow> bool" where
  "resolution_is pin accepted r = (case accepted of
     None \<Rightarrow> rs_status r = (if pin = None then kNoProviderAccepted else kPinnedProviderRejected)
       \<and> rs_winner r = None \<and> rs_winning_claim r = None \<and> rs_retained_instance r = None
   | Some (c, d) \<Rightarrow> rs_status r = kSelected \<and> rs_winner r = Some (candidateIdentity c)
       \<and> rs_winning_claim r = Some (cd_claim c) \<and> rs_retained_instance r = pd_retained_instance d)"

lemma find_append: "find P (xs @ ys) = (case find P xs of Some x \<Rightarrow> Some x | None \<Rightarrow> find P ys)"
  by (induction xs) simp_all

lemma cached_decision_mono:
  assumes "route_cache R' (rq_route request) = route_cache R (rq_route request) @ es"
    and "cached_decision request nt configs R cand = Some d"
  shows "cached_decision request nt configs R' cand = Some d"
  using assms by (auto simp: cached_decision_def find_append)

lemma decide_cached:
  assumes "decide R request nt cand (configs (pc_provider_id (cd_claim cand))) probe w = (d, hit, R', w')"
  shows "cached_decision request nt configs R' cand = Some d
    \<and> (\<exists>es. route_cache R' (rq_route request) = route_cache R (rq_route request) @ es)"
proof (cases "find (cache_matches request nt cand (configs (pc_provider_id (cd_claim cand))))
    (route_cache R (rq_route request))")
  case None
  moreover have "cache_matches request nt cand (configs (pc_provider_id (cd_claim cand)))
      (cache_entry_for request nt cand (configs (pc_provider_id (cd_claim cand))) d)"
    by (simp add: cache_matches_def cache_entry_for_def)
  ultimately show ?thesis
    using assms by (auto simp: decide_def cached_decision_def find_append Let_def cache_entry_for_def
        split: prod.splits)
next
  case (Some e)
  then show ?thesis using assms by (simp add: decide_def cached_decision_def)
qed

lemma decide_hit:
  assumes "cached_decision request nt configs R cand = Some d"
  shows "decide R request nt cand (configs (pc_provider_id (cd_claim cand))) probe w = (d, True, R, w)"
  using assms by (auto simp: decide_def cached_decision_def)

text \<open>One step of the loop, with the lookup and the decision done.\<close>

lemma resolve_loop_step:
  assumes "lookup_config provider_config (pc_provider_id (cd_claim cand)) w0 = (Inr config, w)"
    and "decide R request nt cand config probe w = (d, hit, R', w')"
  shows "\<exists>ds' r' R''. route_cache R'' = route_cache R' \<and> rs_winner r' = rs_winner r
    \<and> rs_winning_claim r' = rs_winning_claim r \<and> rs_retained_instance r' = rs_retained_instance r
    \<and> rs_ordered_candidates r' = rs_ordered_candidates r
    \<and> resolve_loop request nt pin all provider_config probe (cand # rest) ds r R w0 =
      (if rejects d then resolve_loop request nt pin all provider_config probe rest ds' r' R'' w'
       else (Inr (fst (select_winner R' request nt all cand d ds r')),
             snd (select_winner R' request nt all cand d ds r'), w'))"
proof -
  let ?r = "if hit then add_trace kCacheHit (candidateIdentity cand) ''probe result reused'' r else r"
  note loop = resolve_loop.simps(2) [of request nt pin all provider_config probe cand rest ds r R w0] assms
  consider "pd_outcome d = kDecline" | "pd_outcome d = kProbeError" | "\<not> rejects d"
    by (auto simp: rejects_def)
  then show ?thesis
  proof cases
    case 1
    then show ?thesis
      by (intro exI [of _ "if hit then ds else _"] exI [of _ "add_trace kProbeDecline _ _ ?r"] exI [of _ R'])
        (auto simp: loop rejects_def Let_def)
  next
    case 2
    then show ?thesis
      by (intro exI [of _ ds] exI [of _ "add_trace kProbeErrorTrace _ _ ?r"]
          exI [of _ "if hit then R' else resolver_report R' _ _ _"])
        (auto simp: loop rejects_def Let_def fun_eq_iff)
  next
    case 3
    then show ?thesis
      by (intro exI [of _ ds] exI [of _ ?r] exI [of _ R']) (auto simp: loop rejects_def Let_def case_prod_beta)
  qed
qed

lemma resolve_loop_settles:
  assumes "config_lookup provider_config configs"
    and "resolve_loop request nt pin all provider_config probe cands ds r R w = (res, R', w')"
    and "rs_winner r = None" "rs_winning_claim r = None" "rs_retained_instance r = None"
  shows "\<exists>r' es. res = Inr r' \<and> route_cache R' (rq_route request) = route_cache R (rq_route request) @ es
    \<and> settled request nt configs R' cands
    \<and> resolution_is pin (first_accepted request nt configs R' cands) r'"
  using assms(2-)
proof (induction cands arbitrary: ds r R w)
  case Nil
  then show ?case by (auto simp: resolution_is_def case_prod_beta)
next
  case (Cons cand cands)
  let ?config = "configs (pc_provider_id (cd_claim cand))"
  have look: "lookup_config provider_config (pc_provider_id (cd_claim cand)) w = (Inr ?config, w)"
    using assms(1) by (simp add: config_lookup_def)
  obtain d hit R1 w1 where dec: "decide R request nt cand ?config probe w = (d, hit, R1, w1)"
    by (metis prod_cases4)
  from decide_cached [where configs = configs, OF dec] obtain es1 where cached: "cached_decision request nt configs R1 cand = Some d"
    and es1: "route_cache R1 (rq_route request) = route_cache R (rq_route request) @ es1" by blast
  from resolve_loop_step [OF look dec] obtain ds' r1 R2 where step: "route_cache R2 = route_cache R1"
    "rs_winner r1 = rs_winner r" "rs_winning_claim r1 = rs_winning_claim r"
    "rs_retained_instance r1 = rs_retained_instance r"
    "resolve_loop request nt pin all provider_config probe (cand # cands) ds r R w =
      (if rejects d then resolve_loop request nt pin all provider_config probe cands ds' r1 R2 w1
       else (Inr (fst (select_winner R1 request nt all cand d ds r1)),
             snd (select_winner R1 request nt all cand d ds r1), w1))"
    by blast
  show ?case
  proof (cases "rejects d")
    case True
    from Cons.IH [of ds' r1 R2 w1] obtain r' es where rest: "res = Inr r'"
      "route_cache R' (rq_route request) = route_cache R1 (rq_route request) @ es"
      "settled request nt configs R' cands" "resolution_is pin (first_accepted request nt configs R' cands) r'"
      using True step Cons.prems by auto
    have "cached_decision request nt configs R' cand = Some d"
      using cached_decision_mono [OF rest(2) cached] .
    with rest True es1 show ?thesis by simp
  next
    case False
    have "cached_decision request nt configs R' cand = Some d"
      using Cons.prems step False by (intro cached_decision_mono [OF _ cached, of _ "[]"]) auto
    with Cons.prems step False es1 show ?thesis
      by (auto simp: resolution_is_def)
  qed
qed

text \<open>With settled candidates the loop probes nothing and caches nothing, whatever the probe.\<close>

lemma resolve_loop_replay:
  assumes "config_lookup provider_config configs"
    and "settled request nt configs R cands"
    and "resolve_loop request nt pin all provider_config probe cands ds r R w = (res, R', w')"
  shows "w' = w \<and> route_cache R' = route_cache R"
  using assms(2-)
proof (induction cands arbitrary: ds r R)
  case Nil
  then show ?case by (auto simp: case_prod_beta fun_eq_iff)
next
  case (Cons cand cands)
  then obtain d where cached: "cached_decision request nt configs R cand = Some d"
    by (auto split: option.splits)
  have look: "lookup_config provider_config (pc_provider_id (cd_claim cand)) w
      = (Inr (configs (pc_provider_id (cd_claim cand))), w)"
    using assms(1) by (simp add: config_lookup_def)
  from resolve_loop_step [OF look decide_hit [OF cached]] obtain ds' r1 R2 where
    step: "route_cache R2 = route_cache R"
    "resolve_loop request nt pin all provider_config probe (cand # cands) ds r R w =
      (if rejects d then resolve_loop request nt pin all provider_config probe cands ds' r1 R2 w
       else (Inr (fst (select_winner R request nt all cand d ds r1)),
             snd (select_winner R request nt all cand d ds r1), w))"
    by blast
  show ?case
  proof (cases "rejects d")
    case True
    then have "settled request nt configs R cands"
      using Cons.prems(1) cached by simp
    moreover have "cached_decision request nt configs R2 = cached_decision request nt configs R"
      using step(1) by (simp add: cached_decision_def fun_eq_iff)
    then have "settled request nt configs R2 cs = settled request nt configs R cs" for cs
      by (induction cs) (simp_all split: option.split)
    ultimately show ?thesis
      using Cons.IH [of R2 ds' r1] Cons.prems(2) step True by simp
  next
    case False
    then show ?thesis using Cons.prems(2) step by (auto simp: fun_eq_iff)
  qed
qed

subsection \<open>Whom a resolution can select\<close>

lemma resolve_loop_winner:
  assumes "resolve_loop request nt pin all provider_config probe cands ds r R w = (Inr res, R', w')"
    and "rs_winner r = None" "rs_winning_claim r = None"
  shows "rs_ordered_candidates res = rs_ordered_candidates r \<and>
    (rs_winner res = None \<and> rs_winning_claim res = None
      \<and> rs_status res = (if pin = None then kNoProviderAccepted else kPinnedProviderRejected)
     \<or> (\<exists>c \<in> set cands. rs_status res = kSelected \<and> rs_winner res = Some (candidateIdentity c)
          \<and> rs_winning_claim res = Some (cd_claim c)))"
  using assms
proof (induction cands arbitrary: ds r R w)
  case Nil
  then show ?case by (auto simp: case_prod_beta)
next
  case (Cons cand cands)
  obtain config w1 where look: "lookup_config provider_config (pc_provider_id (cd_claim cand)) w = (Inr config, w1)"
    using Cons.prems(1) by (auto split: prod.splits sum.splits)
  obtain d hit R1 w2 where dec: "decide R request nt cand config probe w1 = (d, hit, R1, w2)"
    by (metis prod_cases4)
  from resolve_loop_step [OF look dec] obtain ds' r1 R2 where step:
    "rs_winner r1 = rs_winner r" "rs_winning_claim r1 = rs_winning_claim r"
    "rs_ordered_candidates r1 = rs_ordered_candidates r"
    "resolve_loop request nt pin all provider_config probe (cand # cands) ds r R w =
      (if rejects d then resolve_loop request nt pin all provider_config probe cands ds' r1 R2 w2
       else (Inr (fst (select_winner R1 request nt all cand d ds r1)),
             snd (select_winner R1 request nt all cand d ds r1), w2))"
    by blast
  show ?case
  proof (cases "rejects d")
    case True
    then show ?thesis using Cons.IH [of ds' r1 R2 w2] Cons.prems step by auto
  next
    case False
    then show ?thesis using Cons.prems step by auto
  qed
qed

lemma resolve_cases:
  assumes "resolve R request entries pins provider_config probe w = (Inr res, R', w')"
  obtains f nt cands where "probe = Some f"
    "normalizeParserTypeName (rq_encoding request) (rq_type_name request) = Inr nt"
    "orderedCandidates request entries pins = Inr cands"
    "cands = [] \<Longrightarrow> rs_winner res = None \<and> rs_winning_claim res = None \<and> rs_retained_instance res = None
       \<and> rs_ordered_candidates res = [] \<and> w' = w \<and> (\<forall>route. route_cache R' route = route_cache R route)
       \<and> rs_status res = (if forRoute pins (rq_route request) = None then kNoCandidates else kPinnedProviderUnavailable)"
    "cands \<noteq> [] \<Longrightarrow> resolve_loop request nt (forRoute pins (rq_route request)) cands provider_config f cands []
       (initial_resolution cands) R w = (Inr res, R', w')"
proof -
  obtain f where f: "probe = Some f"
    using assms by (cases probe) (auto simp: resolve_def)
  obtain nt where nt: "normalizeParserTypeName (rq_encoding request) (rq_type_name request) = Inr nt"
    using assms f by (auto simp: resolve_def split: sum.splits)
  obtain cands where cands: "orderedCandidates request entries pins = Inr cands"
    using assms f nt by (auto simp: resolve_def split: sum.splits)
  show thesis
    by (rule that [OF f nt cands])
      (use assms in \<open>auto simp: resolve_def f nt cands Let_def initial_resolution_def split: option.splits if_splits\<close>)
qed

lemma initial_resolution_fields [simp]:
  "rs_winner (initial_resolution cands) = None" "rs_winning_claim (initial_resolution cands) = None"
  "rs_retained_instance (initial_resolution cands) = None"
  "rs_ordered_candidates (initial_resolution cands) = map candidateIdentity cands"
  by (simp_all add: initial_resolution_def)

text \<open>What it means that a claim may serve a request.\<close>

definition claim_serves :: "ParserRouteRequest \<Rightarrow> ParserRoutePins \<Rightarrow> ParserClaim \<Rightarrow> bool" where
  "claim_serves request pins claim \<longleftrightarrow>
     pc_encoding claim = rq_encoding request \<and>
     (pc_route_flags claim AND routeFlag (rq_route request)) \<noteq> 0 \<and>
     (pc_type_name claim = ''*'' \<or>
      normalizeParserTypeName (rq_encoding request) (rq_type_name request) = Inr (pc_type_name claim)) \<and>
     (pc_schema_digests claim = {} \<or> rq_schema_digest request \<in> pc_schema_digests claim) \<and>
     (case forRoute pins (rq_route request) of None \<Rightarrow> True | Some p \<Rightarrow> pc_provider_id claim = p)"

lemma orderedCandidates_serve:
  assumes "orderedCandidates request entries pins = Inr cands" "cand \<in> set cands"
  shows "claim_serves request pins (cd_claim cand) \<and> (\<exists>e \<in> set entries. pe_claim e = cd_claim cand)"
proof -
  from assms obtain nt e where e: "normalizeParserTypeName (rq_encoding request) (rq_type_name request) = Inr nt"
      "e \<in> set entries" "cand = candidate_of e" "entry_matches request nt (forRoute pins (rq_route request)) e"
    by (auto simp: orderedCandidates_def refuse_eq_Inr bindE_eq_Inr)
  then have "claim_serves request pins (cd_claim cand)"
    by (auto simp: entry_matches_def Let_def claim_serves_def candidate_of_def split: if_splits option.splits)
  with e show ?thesis by (auto simp: candidate_of_def)
qed

lemma resolve_winner:
  assumes "resolve R request entries pins provider_config probe w = (Inr res, R', w')"
  shows "(rs_status res = kSelected \<longleftrightarrow> rs_winning_claim res \<noteq> None) \<and>
    rs_winner res = map_option identityPair (rs_winning_claim res) \<and>
    (\<forall>claim. rs_winning_claim res = Some claim \<longrightarrow>
       claim_serves request pins claim \<and> claim \<in> pe_claim ` set entries)"
proof -
  from assms obtain f nt cands where r: "orderedCandidates request entries pins = Inr cands"
    "cands = [] \<Longrightarrow> rs_winner res = None \<and> rs_winning_claim res = None
       \<and> rs_status res = (if forRoute pins (rq_route request) = None then kNoCandidates else kPinnedProviderUnavailable)"
    "cands \<noteq> [] \<Longrightarrow> resolve_loop request nt (forRoute pins (rq_route request)) cands provider_config f cands []
       (initial_resolution cands) R w = (Inr res, R', w')"
    by (rule resolve_cases) blast
  show ?thesis
  proof (cases "cands = []")
    case True
    then show ?thesis using r(2) by auto
  next
    case False
    from resolve_loop_winner [OF r(3) [OF False]] consider
      (none) "rs_winner res = None" "rs_winning_claim res = None" "rs_status res \<noteq> kSelected"
      | (some) c where "c \<in> set cands" "rs_status res = kSelected" "rs_winner res = Some (candidateIdentity c)"
          "rs_winning_claim res = Some (cd_claim c)"
      by (auto split: if_splits)
    then show ?thesis
    proof cases
      case none
      then show ?thesis by simp
    next
      case some
      then show ?thesis using orderedCandidates_serve [OF r(1) some(1)] by force
    qed
  qed
qed

subsection \<open>Resolving twice\<close>

lemma resolve_twice:
  assumes "config_lookup provider_config configs"
    and first: "resolve R request entries pins provider_config probe w = (Inr res, R', w')"
    and second: "resolve R' request entries pins provider_config (Some probe2) v = (res2, R2, v')"
  shows "v' = v \<and> route_cache R2 = route_cache R' \<and> (\<exists>r2. res2 = Inr r2 \<and> rs_status r2 = rs_status res
    \<and> rs_winner r2 = rs_winner res \<and> rs_winning_claim r2 = rs_winning_claim res
    \<and> rs_retained_instance r2 = rs_retained_instance res)"
proof -
  let ?pin = "forRoute pins (rq_route request)"
  from first obtain f nt cands where c: "probe = Some f"
    "normalizeParserTypeName (rq_encoding request) (rq_type_name request) = Inr nt"
    "orderedCandidates request entries pins = Inr cands"
    "cands \<noteq> [] \<Longrightarrow> resolve_loop request nt ?pin cands provider_config f cands []
       (initial_resolution cands) R w = (Inr res, R', w')"
    "cands = [] \<Longrightarrow> rs_winner res = None \<and> rs_winning_claim res = None \<and> rs_retained_instance res = None
       \<and> rs_status res = (if ?pin = None then kNoCandidates else kPinnedProviderUnavailable)"
    by (rule resolve_cases) blast
  show ?thesis
  proof (cases "cands = []")
    case True
    then show ?thesis
      using second c(5) [OF True]
      by (auto simp: resolve_def c(2,3) Let_def initial_resolution_def fun_eq_iff split: option.splits)
  next
    case False
    note settle = resolve_loop_settles [OF assms(1)]
    from settle [OF c(4) [OF False]] obtain es where r1: "settled request nt configs R' cands"
      "resolution_is ?pin (first_accepted request nt configs R' cands) res"
      by auto
    have loop2: "resolve_loop request nt ?pin cands provider_config probe2 cands []
       (initial_resolution cands) R' v = (res2, R2, v')"
      using second False by (simp add: resolve_def c(2,3) Let_def)
    from resolve_loop_replay [OF assms(1) r1(1) loop2] have same: "v' = v" "route_cache R2 = route_cache R'"
      by simp_all
    have "cached_decision request nt configs R2 = cached_decision request nt configs R'"
      by (simp add: cached_decision_def fun_eq_iff same)
    then have "first_accepted request nt configs R2 cs = first_accepted request nt configs R' cs" for cs
      by (induction cs) (simp_all split: option.split)
    with settle [OF loop2] obtain r2 where "res2 = Inr r2"
      "resolution_is ?pin (first_accepted request nt configs R' cands) r2"
      by auto
    with r1 same show ?thesis
      by (auto simp: resolution_is_def split: option.splits)
  qed
qed

subsection \<open>The first candidate that accepts\<close>

text \<open>A probe that is a function of the request: what it answers for a candidate.\<close>

definition probe_request :: "(string \<Rightarrow> ParserProviderConfig) \<Rightarrow> ParserRouteCandidate \<Rightarrow> ParserProbeRequest" where
  "probe_request configs cand = \<lparr>pr_claim = cd_claim cand, pr_provider_generation = cd_provider_generation cand,
     pr_config_json = cf_json (configs (pc_provider_id (cd_claim cand))),
     pr_config_digest = cf_digest (configs (pc_provider_id (cd_claim cand)))\<rparr>"

definition pure_probe :: "(ParserProbeRequest \<Rightarrow> ParserProbeDecision) \<Rightarrow> 'w probe_callback" where
  "pure_probe answer = (\<lambda>preq w. (Returned (answer preq), w))"

definition answer_for :: "(ParserProbeRequest \<Rightarrow> ParserProbeDecision) \<Rightarrow> (string \<Rightarrow> ParserProviderConfig)
    \<Rightarrow> ParserRouteCandidate \<Rightarrow> ParserProbeDecision" where
  "answer_for answer configs cand = checked_decision (answer (probe_request configs cand))"

text \<open>The abstract rule: the first candidate in policy order whose provider does not reject it.\<close>

definition first_accepting :: "(ParserProbeRequest \<Rightarrow> ParserProbeDecision) \<Rightarrow> (string \<Rightarrow> ParserProviderConfig)
    \<Rightarrow> ParserRouteCandidate list \<Rightarrow> ParserRouteCandidate option" where
  "first_accepting answer configs cands = find (\<lambda>c. pd_outcome (answer_for answer configs c) = kAccept) cands"

lemma answer_not_rejects: "\<not> rejects (answer_for answer configs c) \<longleftrightarrow> pd_outcome (answer_for answer configs c) = kAccept"
  by (auto simp: answer_for_def checked_decision_def rejects_def split: ParserProbeOutcome.split)

text \<open>Every cached entry of the route is the answer for a candidate.\<close>

definition cache_truthful :: "ParserRouteRequest \<Rightarrow> string \<Rightarrow> (string \<Rightarrow> ParserProviderConfig)
    \<Rightarrow> (ParserProbeRequest \<Rightarrow> ParserProbeDecision) \<Rightarrow> ParserRouteCandidate list \<Rightarrow> ParserRouteResolver \<Rightarrow> bool" where
  "cache_truthful request nt configs answer cands R \<longleftrightarrow>
     set (route_cache R (rq_route request)) \<subseteq>
       (\<lambda>c. cache_entry_for request nt c (configs (pc_provider_id (cd_claim c))) (answer_for answer configs c)) ` set cands"

lemma cached_truth:
  assumes "cache_truthful request nt configs answer all R" "inj_on candidateIdentity (set all)" "c \<in> set all"
    and "cached_decision request nt configs R c = Some d"
  shows "d = answer_for answer configs c"
proof -
  obtain e where e: "find (cache_matches request nt c (configs (pc_provider_id (cd_claim c))))
      (route_cache R (rq_route request)) = Some e" "d = ce_decision e"
    using assms(4) by (auto simp: cached_decision_def)
  then have "e \<in> set (route_cache R (rq_route request))"
      and match: "cache_matches request nt c (configs (pc_provider_id (cd_claim c))) e"
    by (auto simp: find_Some_iff)
  then obtain c' where c': "c' \<in> set all"
      "e = cache_entry_for request nt c' (configs (pc_provider_id (cd_claim c'))) (answer_for answer configs c')"
    using assms(1) unfolding cache_truthful_def by blast
  then have "candidateIdentity c' = candidateIdentity c"
    using match by (simp add: cache_matches_def cache_entry_for_def identityPair_def)
  then have "c' = c"
    using assms(2,3) c'(1) by (auto dest: inj_onD)
  then show ?thesis using e c' by (simp add: cache_entry_for_def)
qed

lemma decide_truthful:
  assumes "cache_truthful request nt configs answer all R" "c \<in> set all"
    and "decide R request nt c (configs (pc_provider_id (cd_claim c))) (pure_probe answer) w = (d, hit, R', w')"
  shows "cache_truthful request nt configs answer all R' \<and> w' = w"
  using assms
  by (auto simp: decide_def cache_truthful_def call_probe_def pure_probe_def answer_for_def probe_request_def Let_def
      split: option.splits)

lemma resolve_loop_truthful:
  assumes "config_lookup provider_config configs"
    and "cache_truthful request nt configs answer all R" "set cands \<subseteq> set all"
    and "resolve_loop request nt pin all' provider_config (pure_probe answer) cands ds r R w = (res, R', w')"
  shows "cache_truthful request nt configs answer all R' \<and> w' = w"
  using assms(2-)
proof (induction cands arbitrary: ds r R w)
  case Nil
  then show ?case by (auto simp: case_prod_beta cache_truthful_def)
next
  case (Cons cand cands)
  let ?config = "configs (pc_provider_id (cd_claim cand))"
  have look: "lookup_config provider_config (pc_provider_id (cd_claim cand)) w = (Inr ?config, w)"
    using assms(1) by (simp add: config_lookup_def)
  obtain d hit R1 w1 where dec: "decide R request nt cand ?config (pure_probe answer) w = (d, hit, R1, w1)"
    by (metis prod_cases4)
  have truth: "cache_truthful request nt configs answer all R1" "w1 = w"
    using decide_truthful [OF Cons.prems(1) _ dec] Cons.prems(2) by simp_all
  from resolve_loop_step [OF look dec] obtain ds' r1 R2 where step: "route_cache R2 = route_cache R1"
    "resolve_loop request nt pin all' provider_config (pure_probe answer) (cand # cands) ds r R w =
      (if rejects d then resolve_loop request nt pin all' provider_config (pure_probe answer) cands ds' r1 R2 w1
       else (Inr (fst (select_winner R1 request nt all' cand d ds r1)),
             snd (select_winner R1 request nt all' cand d ds r1), w1))"
    by blast
  show ?case
  proof (cases "rejects d")
    case True
    then show ?thesis
      using Cons.IH [of R2 ds' r1 w1] Cons.prems truth step by (simp add: cache_truthful_def)
  next
    case False
    then show ?thesis using Cons.prems truth step by (auto simp: cache_truthful_def)
  qed
qed

lemma first_accepted_truth:
  assumes "cache_truthful request nt configs answer all R" "inj_on candidateIdentity (set all)"
    and "set cands \<subseteq> set all" "settled request nt configs R cands"
  shows "first_accepted request nt configs R cands =
    map_option (\<lambda>c. (c, answer_for answer configs c)) (first_accepting answer configs cands)"
  using assms(3,4)
proof (induction cands)
  case (Cons c cs)
  then obtain d where d: "cached_decision request nt configs R c = Some d"
    by (auto split: option.splits)
  then have "d = answer_for answer configs c"
    using cached_truth [OF assms(1,2)] Cons.prems(1) by simp
  with Cons d show ?case
    by (auto simp: first_accepting_def answer_not_rejects [symmetric])
qed (simp add: first_accepting_def)

context claim_registry
begin

lemma resolve_first_accepting:
  assumes "consistent c" "config_lookup provider_config configs"
    and "orderedCandidates request (entries c) pins = Inr cands"
    and "\<forall>route. route_cache R route = []"
  shows "\<exists>res R'. resolve R request (entries c) pins provider_config (Some (pure_probe answer)) w = (Inr res, R', w)
    \<and> rs_winning_claim res = map_option cd_claim (first_accepting answer configs cands)
    \<and> rs_retained_instance res = Option.bind (first_accepting answer configs cands)
        (\<lambda>c. pd_retained_instance (answer_for answer configs c))
    \<and> (rs_status res = kSelected \<longleftrightarrow> first_accepting answer configs cands \<noteq> None)"
proof -
  obtain nt where nt: "normalizeParserTypeName (rq_encoding request) (rq_type_name request) = Inr nt"
    using assms(3) by (auto simp: orderedCandidates_def refuse_eq_Inr bindE_eq_Inr)
  let ?pin = "forRoute pins (rq_route request)"
  show ?thesis
  proof (cases "cands = []")
    case True
    then show ?thesis
      by (auto simp: resolve_def nt assms(3) Let_def first_accepting_def initial_resolution_def split: option.split)
  next
    case False
    obtain res R' w' where loop: "resolve_loop request nt ?pin cands provider_config (pure_probe answer) cands []
        (initial_resolution cands) R w = (res, R', w')"
      by (metis prod_cases3)
    have "cache_truthful request nt configs answer cands R"
      using assms(4) by (simp add: cache_truthful_def)
    then have truth: "cache_truthful request nt configs answer cands R'" "w' = w"
      using resolve_loop_truthful [OF assms(2) _ _ loop] by blast+
    have "cands = sort_candidates (map candidate_of (filter (entry_matches request nt ?pin) (entries c)))"
      using assms(3) nt by (auto simp: orderedCandidates_def refuse_eq_Inr)
    then have inj: "inj_on candidateIdentity (set cands)"
      using identity_determines [OF assms(1)] by (auto simp: inj_on_def)
    from resolve_loop_settles [OF assms(2) loop] obtain r' where r': "res = Inr r'"
      "settled request nt configs R' cands" "resolution_is ?pin (first_accepted request nt configs R' cands) r'"
      by auto
    have "resolve R request (entries c) pins provider_config (Some (pure_probe answer)) w = (Inr r', R', w)"
      using False loop r' truth by (simp add: resolve_def nt assms(3) Let_def)
    then show ?thesis
      using r'(3) first_accepted_truth [OF truth(1) inj subset_refl r'(2)]
      by (auto simp: resolution_is_def split: option.splits)
  qed
qed

end

end
