(* ===== verification/ProviderJob.thy ===== *)
theory ProviderJob
  imports Prelude
begin

section \<open>Import jobs (\<open>source/provider_job.cpp\<close>)\<close>

text \<open>
  A provider's import runs on a worker thread, while other threads cancel, join and destroy the job,
  and a watchdog may interrupt it. The state is \<open>JobState\<close> with the program counter of every thread
  that is inside one of its functions; a step is what one thread does atomically: a critical section
  of a mutex, an operation on an atomic, the start or the end of a callback, or the end of a wait.
  Threads of the host that call the job are the entries of \<open>js_api\<close>, threads that call the body's
  \<open>JobControl\<close> those of \<open>js_control\<close>. The callbacks that ran are recorded in \<open>js_events\<close>.
\<close>

subsection \<open>The state\<close>

datatype import_outcome = IMPORT_FAILED | IMPORT_CANCELLED | IMPORT_SUCCEEDED_EAGER_ONLY | IMPORT_SUCCEEDED_PROMOTED

type_synonym ImportOutcome = "import_outcome \<times> string"

text \<open>Where the worker is in \<open>run()\<close>: \<open>WArm\<close> is inside \<open>armWatchdog\<close>, waiting for the old watchdog.\<close>

datatype worker_pc =
  WGate
| WCheck
| WBody
| WArm
| WDisarm ImportOutcome
| WWaitHook ImportOutcome
| WStopWatchdog ImportOutcome
| WJoinWatchdog ImportOutcome
| WTerminal ImportOutcome
| WInTerminal
| WDone

text \<open>A call of \<open>onCancel\<close> or \<open>notifyDataset\<close>: before its critical section, or inside a callback.\<close>

datatype control_pc =
  CtlIdle
| CtlOnCancel nat
| CtlInHook nat
| CtlDataset u32
| CtlInDataset

text \<open>A call of cancel, join or destroy; the flag says that it is part of destroy.\<close>

datatype api_pc =
  ApiIdle
| CancelFlagged bool
| InCancelHook bool nat
| CancelHookDone bool
| JoinEnter bool
| JoinWaiting bool
| Joining bool
| Deleting

datatype watchdog_pc = WdNone | WdWaiting | WdExpiring | WdFinished

datatype job_event =
  EvBody
| EvDataset u32
| EvHookBegin nat
| EvHookEnd nat
| EvExpireBegin
| EvExpireEnd
| EvTerminal import_outcome string

record JobState =
  js_has_on_dataset :: bool
  js_out_job :: bool
  js_start_gate :: bool
  js_cancelled :: bool
  js_dataset_notified :: bool
  js_terminal_fired :: bool
  js_worker :: worker_pc
  js_join_in_progress :: bool
  js_joined :: bool
  js_cancel_hook :: "nat option"
  js_hook_fired :: bool
  js_hook_running :: bool
  js_watchdog_stop :: bool
  js_watchdog :: watchdog_pc
  js_control :: "control_pc list"
  js_api :: "api_pc list"
  js_destroying :: bool
  js_freed :: bool
  js_events :: "job_event list"

subsection \<open>Starting a job\<close>

text \<open>The caller's callback table: its size, and which of its pointers are not null.\<close>

record ImportCallbacks =
  cb_struct_size :: nat
  cb_on_dataset :: bool
  cb_on_terminal :: bool

definition fieldCovered :: "nat \<Rightarrow> nat \<Rightarrow> nat \<Rightarrow> bool" where
  "fieldCovered struct_size offset sz \<longleftrightarrow> struct_size \<ge> offset + sz"

text \<open>
  \<open>startJob\<close> up to the spawned worker, parked at the gate. The last three arguments say whether the
  thread could be created and how many other threads use the job.
\<close>

definition startJob :: "bool \<Rightarrow> bool \<Rightarrow> ImportCallbacks option \<Rightarrow> bool \<Rightarrow> nat \<Rightarrow> nat \<Rightarrow> string + JobState" where
  "startJob out_job_null has_body callbacks spawned controls callers =
     (if out_job_null then Inl ''null out_job''
      else if \<not> has_body then Inl ''a job body is required''
      else case callbacks of
        None \<Rightarrow> Inl ''on_terminal callback is required''
      | Some cb \<Rightarrow>
          if \<not> fieldCovered (cb_struct_size cb) 16 8 \<or> \<not> cb_on_terminal cb then
            Inl ''on_terminal callback is required''
          else if \<not> spawned then Inl ''could not start the import worker thread''
          else Inr \<lparr>js_has_on_dataset = (fieldCovered (cb_struct_size cb) 8 8 \<and> cb_on_dataset cb),
                 js_out_job = False, js_start_gate = False, js_cancelled = False,
                 js_dataset_notified = False, js_terminal_fired = False, js_worker = WGate,
                 js_join_in_progress = False, js_joined = False, js_cancel_hook = None,
                 js_hook_fired = False, js_hook_running = False, js_watchdog_stop = False,
                 js_watchdog = WdNone, js_control = replicate controls CtlIdle,
                 js_api = replicate callers ApiIdle, js_destroying = False, js_freed = False,
                 js_events = []\<rparr>)"

subsection \<open>Steps\<close>

definition log_event :: "job_event \<Rightarrow> JobState \<Rightarrow> JobState" where
  "log_event ev s = s\<lparr>js_events := js_events s @ [ev]\<rparr>"

definition set_api :: "nat \<Rightarrow> api_pc \<Rightarrow> JobState \<Rightarrow> JobState" where
  "set_api t pc s = s\<lparr>js_api := (js_api s)[t := pc]\<rparr>"

definition set_control :: "nat \<Rightarrow> control_pc \<Rightarrow> JobState \<Rightarrow> JobState" where
  "set_control t pc s = s\<lparr>js_control := (js_control s)[t := pc]\<rparr>"

definition api_at :: "JobState \<Rightarrow> nat \<Rightarrow> api_pc option" where
  "api_at s t = (if t < length (js_api s) then Some (js_api s ! t) else None)"

definition control_at :: "JobState \<Rightarrow> nat \<Rightarrow> control_pc option" where
  "control_at s t = (if t < length (js_control s) then Some (js_control s ! t) else None)"

text \<open>\<open>run()\<close>: the steps the worker takes on its own.\<close>

definition worker_step :: "JobState \<Rightarrow> JobState option" where
  "worker_step s = (case js_worker s of
     WGate \<Rightarrow> if js_start_gate s then Some (s\<lparr>js_worker := WCheck\<rparr>) else None
   | WCheck \<Rightarrow>
       if js_cancelled s then Some (s\<lparr>js_worker := WDisarm (IMPORT_CANCELLED, ''import cancelled'')\<rparr>)
       else Some (log_event EvBody (s\<lparr>js_worker := WBody\<rparr>))
   | WBody \<Rightarrow> None
   | WArm \<Rightarrow>
       if js_watchdog s = WdNone \<or> js_watchdog s = WdFinished then
         Some (s\<lparr>js_watchdog_stop := False, js_watchdog := WdWaiting, js_worker := WBody\<rparr>)
       else None
   | WDisarm r \<Rightarrow> Some (s\<lparr>js_cancel_hook := None, js_hook_fired := True, js_worker := WWaitHook r\<rparr>)
   | WWaitHook r \<Rightarrow> if \<not> js_hook_running s then Some (s\<lparr>js_worker := WStopWatchdog r\<rparr>) else None
   | WStopWatchdog r \<Rightarrow> Some (s\<lparr>js_watchdog_stop := True, js_worker := WJoinWatchdog r\<rparr>)
   | WJoinWatchdog r \<Rightarrow>
       if js_watchdog s = WdNone \<or> js_watchdog s = WdFinished then Some (s\<lparr>js_worker := WTerminal r\<rparr>)
       else None
   | WTerminal r \<Rightarrow>
       if js_terminal_fired s then Some (s\<lparr>js_worker := WDone\<rparr>)
       else Some (log_event (EvTerminal (fst r) (snd r)) (s\<lparr>js_terminal_fired := True, js_worker := WInTerminal\<rparr>))
   | WInTerminal \<Rightarrow> Some (s\<lparr>js_worker := WDone\<rparr>)
   | WDone \<Rightarrow> None)"

text \<open>
  The end of the body: a result, or an exception. The control handle is valid for the body only, so
  every call of it has returned by then.
\<close>

definition body_ends :: "ImportOutcome option \<Rightarrow> JobState \<Rightarrow> JobState option" where
  "body_ends result s =
     (if js_worker s = WBody \<and> list_all (\<lambda>c. c = CtlIdle) (js_control s) then
        Some (s\<lparr>js_worker := WDisarm (case result of
          Some r \<Rightarrow> r | None \<Rightarrow> (IMPORT_FAILED, ''internal error while running the import''))\<rparr>)
      else None)"

text \<open>\<open>armWatchdog\<close> on the body's thread: stop the old one, then (in \<open>worker_step\<close>) start the new one.\<close>

definition armWatchdog :: "int \<Rightarrow> bool \<Rightarrow> JobState \<Rightarrow> JobState option" where
  "armWatchdog timeout has_action s =
     (if js_worker s \<noteq> WBody then None
      else if timeout \<le> 0 \<or> \<not> has_action then Some s
      else Some (s\<lparr>js_watchdog_stop := True, js_worker := WArm\<rparr>))"

text \<open>The watchdog thread: it sees the stop, or its time runs out before, and its action returns.\<close>

datatype watchdog_event = WatchdogStopSeen | WatchdogTimeout | WatchdogActionReturns

definition watchdog_step :: "watchdog_event \<Rightarrow> JobState \<Rightarrow> JobState option" where
  "watchdog_step ev s = (case ev of
     WatchdogStopSeen \<Rightarrow>
       if js_watchdog s = WdWaiting \<and> js_watchdog_stop s then Some (s\<lparr>js_watchdog := WdFinished\<rparr>) else None
   | WatchdogTimeout \<Rightarrow>
       if js_watchdog s = WdWaiting \<and> \<not> js_watchdog_stop s then
         Some (log_event EvExpireBegin (s\<lparr>js_watchdog := WdExpiring\<rparr>)) else None
   | WatchdogActionReturns \<Rightarrow>
       if js_watchdog s = WdExpiring then Some (log_event EvExpireEnd (s\<lparr>js_watchdog := WdFinished\<rparr>)) else None)"

text \<open>\<open>JobControl\<close>: a thread calls it while the body runs, and then goes on by itself.\<close>

definition body_running :: "JobState \<Rightarrow> bool" where
  "body_running s \<longleftrightarrow> js_worker s = WBody \<or> js_worker s = WArm"

definition control_call :: "nat \<Rightarrow> control_pc \<Rightarrow> JobState \<Rightarrow> JobState option" where
  "control_call t pc s =
     (if control_at s t = Some CtlIdle \<and> body_running s then Some (set_control t pc s) else None)"

definition control_step :: "nat \<Rightarrow> JobState \<Rightarrow> JobState option" where
  "control_step t s = (case control_at s t of
     None \<Rightarrow> None
   | Some CtlIdle \<Rightarrow> None
   | Some (CtlOnCancel h) \<Rightarrow>
       if \<not> js_cancelled s then Some (set_control t CtlIdle (s\<lparr>js_cancel_hook := Some h\<rparr>))
       else if js_hook_fired s then Some (set_control t CtlIdle s)
       else Some (set_control t (CtlInHook h) (log_event (EvHookBegin h) (s\<lparr>js_hook_fired := True\<rparr>)))
   | Some (CtlInHook h) \<Rightarrow> Some (set_control t CtlIdle (log_event (EvHookEnd h) s))
   | Some (CtlDataset d) \<Rightarrow>
       if js_dataset_notified s then Some (set_control t CtlIdle s)
       else if \<not> js_has_on_dataset s then Some (set_control t CtlIdle (s\<lparr>js_dataset_notified := True\<rparr>))
       else Some (set_control t CtlInDataset (log_event (EvDataset d) (s\<lparr>js_dataset_notified := True\<rparr>)))
   | Some CtlInDataset \<Rightarrow> Some (set_control t CtlIdle s))"

text \<open>
  The calls of the host, once \<open>start\<close> has returned and until destroy: \<open>jobCancel\<close>, \<open>jobJoin\<close>,
  \<open>jobDestroy\<close>. Destroy ends the life of the job, so its caller lets no other call run beside it.
\<close>

datatype api_call = CallCancel | CallJoin | CallDestroy

definition api_begin :: "nat \<Rightarrow> api_call \<Rightarrow> JobState \<Rightarrow> JobState option" where
  "api_begin t call s =
     (if api_at s t \<noteq> Some ApiIdle \<or> \<not> js_start_gate s \<or> js_destroying s then None
      else case call of
        CallCancel \<Rightarrow> Some (set_api t (CancelFlagged False) (s\<lparr>js_cancelled := True\<rparr>))
      | CallJoin \<Rightarrow> Some (set_api t (JoinEnter False) s)
      | CallDestroy \<Rightarrow>
          if list_all (\<lambda>pc. pc = ApiIdle) (js_api s) then
            Some (set_api t (CancelFlagged True) (s\<lparr>js_cancelled := True, js_destroying := True\<rparr>))
          else None)"

definition after_cancel :: "bool \<Rightarrow> api_pc" where
  "after_cancel destroying = (if destroying then JoinEnter True else ApiIdle)"

definition after_join :: "bool \<Rightarrow> api_pc" where
  "after_join destroying = (if destroying then Deleting else ApiIdle)"

definition api_step :: "nat \<Rightarrow> JobState \<Rightarrow> JobState option" where
  "api_step t s = (case api_at s t of
     None \<Rightarrow> None
   | Some ApiIdle \<Rightarrow> None
   | Some (CancelFlagged d) \<Rightarrow>
       (case js_cancel_hook s of
          Some h \<Rightarrow>
            if \<not> js_hook_fired s then
              Some (set_api t (InCancelHook d h) (log_event (EvHookBegin h)
                (s\<lparr>js_hook_fired := True, js_hook_running := True, js_cancel_hook := None\<rparr>)))
            else Some (set_api t (after_cancel d) s)
        | None \<Rightarrow> Some (set_api t (after_cancel d) s))
   | Some (InCancelHook d h) \<Rightarrow> Some (set_api t (CancelHookDone d) (log_event (EvHookEnd h) s))
   | Some (CancelHookDone d) \<Rightarrow> Some (set_api t (after_cancel d) (s\<lparr>js_hook_running := False\<rparr>))
   | Some (JoinEnter d) \<Rightarrow>
       if js_joined s then Some (set_api t (after_join d) s)
       else if js_join_in_progress s then Some (set_api t (JoinWaiting d) s)
       else Some (set_api t (Joining d) (s\<lparr>js_join_in_progress := True\<rparr>))
   | Some (JoinWaiting d) \<Rightarrow> if js_joined s then Some (set_api t (after_join d) s) else None
   | Some (Joining d) \<Rightarrow>
       if js_worker s = WDone then Some (set_api t (after_join d) (s\<lparr>js_joined := True\<rparr>)) else None
   | Some Deleting \<Rightarrow> Some (set_api t ApiIdle (s\<lparr>js_freed := True\<rparr>)))"

text \<open>One step of any thread. The first two are the rest of \<open>startJob\<close>.\<close>

datatype job_action =
  PopulateOutJob
| ReleaseGate
| WorkerStep
| BodyEnds "ImportOutcome option"
| ArmWatchdog int bool
| Watchdog watchdog_event
| OnCancel nat nat
| NotifyDataset nat u32
| ControlStep nat
| ApiCall nat api_call
| ApiStep nat

fun job_step :: "job_action \<Rightarrow> JobState \<Rightarrow> JobState option" where
  "job_step PopulateOutJob s = (if \<not> js_out_job s then Some (s\<lparr>js_out_job := True\<rparr>) else None)"
| "job_step ReleaseGate s =
     (if js_out_job s \<and> \<not> js_start_gate s then Some (s\<lparr>js_start_gate := True\<rparr>) else None)"
| "job_step WorkerStep s = worker_step s"
| "job_step (BodyEnds result) s = body_ends result s"
| "job_step (ArmWatchdog timeout has_action) s = armWatchdog timeout has_action s"
| "job_step (Watchdog ev) s = watchdog_step ev s"
| "job_step (OnCancel t h) s = control_call t (CtlOnCancel h) s"
| "job_step (NotifyDataset t d) s = control_call t (CtlDataset d) s"
| "job_step (ControlStep t) s = control_step t s"
| "job_step (ApiCall t call) s = api_begin t call s"
| "job_step (ApiStep t) s = api_step t s"

fun job_run :: "job_action list \<Rightarrow> JobState \<Rightarrow> JobState option" where
  "job_run [] s = Some s"
| "job_run (a # as) s = (case job_step a s of None \<Rightarrow> None | Some s' \<Rightarrow> job_run as s')"

inductive job_reachable :: "JobState \<Rightarrow> JobState \<Rightarrow> bool" for s0 where
  initial: "job_reachable s0 s0"
| step: "job_reachable s0 s \<Longrightarrow> job_step a s = Some s' \<Longrightarrow> job_reachable s0 s'"

lemma job_run_reachable: "job_reachable s0 s \<Longrightarrow> job_run as s = Some s' \<Longrightarrow> job_reachable s0 s'"
  by (induction as arbitrary: s) (auto split: option.splits intro: job_reachable.step)

subsection \<open>Invariants\<close>

text \<open>How far the worker is.\<close>

fun phase :: "worker_pc \<Rightarrow> nat" where
  "phase WGate = 0"
| "phase WCheck = 1"
| "phase WBody = 2"
| "phase WArm = 2"
| "phase (WDisarm r) = 3"
| "phase (WWaitHook r) = 4"
| "phase (WStopWatchdog r) = 5"
| "phase (WJoinWatchdog r) = 6"
| "phase (WTerminal r) = 7"
| "phase WInTerminal = 8"
| "phase WDone = 9"

text \<open>How many threads of a list are at a kind of place.\<close>

definition threads :: "('a \<Rightarrow> bool) \<Rightarrow> 'a list \<Rightarrow> nat" where
  "threads P pcs = length (filter P pcs)"

lemma threads_update:
  "t < length pcs \<Longrightarrow>
     threads P (pcs[t := pc]) + (if P (pcs ! t) then 1 else 0) = threads P pcs + (if P pc then 1 else 0)"
proof (induction pcs arbitrary: t)
  case (Cons x xs)
  show ?case
  proof (cases t)
    case (Suc u)
    with Cons.prems Cons.IH [of u] show ?thesis
      by (auto simp: threads_def split: if_splits)
  qed (simp add: threads_def)
qed simp

lemma threads_zero: "threads P pcs = 0 \<longleftrightarrow> list_all (\<lambda>pc. \<not> P pc) pcs"
  by (auto simp: threads_def list_all_iff filter_empty_conv)

lemma threads_pos: "t < length pcs \<Longrightarrow> P (pcs ! t) \<Longrightarrow> threads P pcs > 0"
  by (auto simp: threads_def filter_empty_conv intro!: Nat.gr0I)

fun in_hook :: "api_pc \<Rightarrow> bool" where
  "in_hook (InCancelHook d h) = True"
| "in_hook (CancelHookDone d) = True"
| "in_hook _ = False"

fun destroys :: "api_pc \<Rightarrow> bool" where
  "destroys (CancelFlagged d) = d"
| "destroys (InCancelHook d h) = d"
| "destroys (CancelHookDone d) = d"
| "destroys (JoinEnter d) = d"
| "destroys (JoinWaiting d) = d"
| "destroys (Joining d) = d"
| "destroys Deleting = True"
| "destroys ApiIdle = False"

abbreviation api_busy :: "api_pc \<Rightarrow> bool" where "api_busy pc \<equiv> pc \<noteq> ApiIdle"
abbreviation control_busy :: "control_pc \<Rightarrow> bool" where "control_busy pc \<equiv> pc \<noteq> CtlIdle"

definition joining :: "api_pc \<Rightarrow> bool" where
  "joining pc \<longleftrightarrow> (\<exists>d. pc = Joining d)"

definition hook_begins :: "JobState \<Rightarrow> nat" where
  "hook_begins s = threads (\<lambda>e. \<exists>h. e = EvHookBegin h) (js_events s)"

definition dataset_calls :: "JobState \<Rightarrow> nat" where
  "dataset_calls s = threads (\<lambda>e. \<exists>d. e = EvDataset d) (js_events s)"

definition is_terminal :: "job_event \<Rightarrow> bool" where
  "is_terminal e \<longleftrightarrow> (\<exists>oc m. e = EvTerminal oc m)"

definition inv_gate :: "JobState \<Rightarrow> bool" where
  "inv_gate s \<longleftrightarrow> (js_start_gate s \<longrightarrow> js_out_job s) \<and> (phase (js_worker s) > 0 \<longrightarrow> js_start_gate s)
     \<and> (threads api_busy (js_api s) > 0 \<longrightarrow> js_start_gate s)
     \<and> (js_events s \<noteq> [] \<longrightarrow> js_start_gate s)
     \<and> (threads control_busy (js_control s) > 0 \<longrightarrow> phase (js_worker s) = 2)
     \<and> (js_watchdog s \<noteq> WdNone \<longrightarrow> js_start_gate s)"

definition inv_hook :: "JobState \<Rightarrow> bool" where
  "inv_hook s \<longleftrightarrow> threads in_hook (js_api s) = (if js_hook_running s then 1 else 0)
     \<and> (js_hook_running s \<longrightarrow> js_hook_fired s)
     \<and> hook_begins s \<le> (if js_hook_fired s then 1 else 0)
     \<and> (phase (js_worker s) \<ge> 4 \<longrightarrow> js_hook_fired s)
     \<and> (phase (js_worker s) \<ge> 5 \<longrightarrow> \<not> js_hook_running s)"

definition inv_watchdog :: "JobState \<Rightarrow> bool" where
  "inv_watchdog s \<longleftrightarrow> (phase (js_worker s) \<ge> 7 \<longrightarrow> js_watchdog s = WdNone \<or> js_watchdog s = WdFinished)
     \<and> (phase (js_worker s) \<ge> 6 \<or> js_worker s = WArm \<longrightarrow> js_watchdog_stop s)"

definition inv_dataset :: "JobState \<Rightarrow> bool" where
  "inv_dataset s \<longleftrightarrow> dataset_calls s \<le> (if js_dataset_notified s then 1 else 0)"

definition inv_terminal :: "JobState \<Rightarrow> bool" where
  "inv_terminal s \<longleftrightarrow> (js_terminal_fired s \<longleftrightarrow> phase (js_worker s) \<ge> 8)
     \<and> (js_terminal_fired s \<longrightarrow> (\<exists>pre oc m. js_events s = pre @ [EvTerminal oc m] \<and> list_all (\<lambda>e. \<not> is_terminal e) pre))
     \<and> (\<not> js_terminal_fired s \<longrightarrow> list_all (\<lambda>e. \<not> is_terminal e) (js_events s))"

definition inv_join :: "JobState \<Rightarrow> bool" where
  "inv_join s \<longleftrightarrow> (js_joined s \<longrightarrow> js_worker s = WDone \<and> js_join_in_progress s)
     \<and> (js_join_in_progress s \<and> \<not> js_joined s \<longrightarrow> threads joining (js_api s) = 1)
     \<and> (\<not> js_join_in_progress s \<or> js_joined s \<longrightarrow> threads joining (js_api s) = 0)"

definition inv_destroy :: "JobState \<Rightarrow> bool" where
  "inv_destroy s \<longleftrightarrow> (js_destroying s \<longrightarrow> threads api_busy (js_api s) = (if js_freed s then 0 else 1))
     \<and> (js_destroying s \<longrightarrow> js_cancelled s)
     \<and> list_all (\<lambda>pc. pc = ApiIdle \<or> destroys pc = js_destroying s) (js_api s)
     \<and> list_all (\<lambda>pc. pc = Deleting \<longrightarrow> js_joined s) (js_api s)
     \<and> (js_freed s \<longrightarrow> js_destroying s \<and> js_joined s)"

text \<open>What each kind of step can be, with its guard.\<close>

lemma api_at_Some: "api_at s t = Some pc \<longleftrightarrow> t < length (js_api s) \<and> js_api s ! t = pc"
  by (auto simp: api_at_def)

lemma control_at_Some: "control_at s t = Some pc \<longleftrightarrow> t < length (js_control s) \<and> js_control s ! t = pc"
  by (auto simp: control_at_def)

lemmas update_defs = set_api_def set_control_def log_event_def

lemma api_step_cases:
  assumes "api_step t s = Some s'"
  obtains (hook) d h where "api_at s t = Some (CancelFlagged d)" "js_cancel_hook s = Some h" "\<not> js_hook_fired s"
      "s' = set_api t (InCancelHook d h) (log_event (EvHookBegin h)
        (s\<lparr>js_hook_fired := True, js_hook_running := True, js_cancel_hook := None\<rparr>))"
    | (no_hook) d where "api_at s t = Some (CancelFlagged d)" "s' = set_api t (after_cancel d) s"
    | (hook_end) d h where "api_at s t = Some (InCancelHook d h)"
        "s' = set_api t (CancelHookDone d) (log_event (EvHookEnd h) s)"
    | (hook_done) d where "api_at s t = Some (CancelHookDone d)"
        "s' = set_api t (after_cancel d) (s\<lparr>js_hook_running := False\<rparr>)"
    | (joined) d where "api_at s t = Some (JoinEnter d) \<or> api_at s t = Some (JoinWaiting d)" "js_joined s"
        "s' = set_api t (after_join d) s"
    | (wait) d where "api_at s t = Some (JoinEnter d)" "\<not> js_joined s" "js_join_in_progress s"
        "s' = set_api t (JoinWaiting d) s"
    | (join) d where "api_at s t = Some (JoinEnter d)" "\<not> js_joined s" "\<not> js_join_in_progress s"
        "s' = set_api t (Joining d) (s\<lparr>js_join_in_progress := True\<rparr>)"
    | (join_end) d where "api_at s t = Some (Joining d)" "js_worker s = WDone"
        "s' = set_api t (after_join d) (s\<lparr>js_joined := True\<rparr>)"
    | (delete) "api_at s t = Some Deleting" "s' = set_api t ApiIdle (s\<lparr>js_freed := True\<rparr>)"
proof (cases "api_at s t")
  case None
  with assms show thesis by (simp add: api_step_def)
next
  case (Some pc)
  with assms that show thesis
    by (cases pc; cases "js_cancel_hook s") (auto simp: api_step_def split: if_split_asm)
qed

lemma control_step_cases:
  assumes "control_step t s = Some s'"
  obtains (register) h where "control_at s t = Some (CtlOnCancel h)" "\<not> js_cancelled s"
      "s' = set_control t CtlIdle (s\<lparr>js_cancel_hook := Some h\<rparr>)"
    | (return) pc where "control_at s t = Some pc" "control_busy pc" "s' = set_control t CtlIdle s"
    | (hook) h where "control_at s t = Some (CtlOnCancel h)" "js_cancelled s" "\<not> js_hook_fired s"
        "s' = set_control t (CtlInHook h) (log_event (EvHookBegin h) (s\<lparr>js_hook_fired := True\<rparr>))"
    | (hook_end) h where "control_at s t = Some (CtlInHook h)" "s' = set_control t CtlIdle (log_event (EvHookEnd h) s)"
    | (notified) d where "control_at s t = Some (CtlDataset d)" "\<not> js_dataset_notified s"
        "s' = set_control t CtlIdle (s\<lparr>js_dataset_notified := True\<rparr>)"
    | (dataset) d where "control_at s t = Some (CtlDataset d)" "\<not> js_dataset_notified s" "js_has_on_dataset s"
        "s' = set_control t CtlInDataset (log_event (EvDataset d) (s\<lparr>js_dataset_notified := True\<rparr>))"
proof (cases "control_at s t")
  case None
  with assms show thesis by (simp add: control_step_def)
next
  case (Some pc)
  with assms that show thesis
    by (cases pc) (auto simp: control_step_def split: if_split_asm)
qed

text \<open>The counters after a list of threads or of events has changed.\<close>

lemma threads_append [simp]: "threads P (xs @ ys) = threads P xs + threads P ys"
  by (simp add: threads_def)

lemma threads_single [simp]: "threads P [x] = (if P x then 1 else 0)"
  by (simp add: threads_def)

lemma list_all_update: "list_all P xs \<Longrightarrow> P x \<Longrightarrow> list_all P (xs[t := x])"
  by (auto simp: list_all_iff dest: subsetD [OF set_update_subset_insert])

lemma threads_api_at:
  assumes "api_at s t = Some old"
  shows "threads P ((js_api s)[t := pc]) + (if P old then 1 else 0) = threads P (js_api s) + (if P pc then 1 else 0)"
  using assms threads_update [of t "js_api s" P pc] by (auto simp: api_at_Some)

lemma threads_control_at:
  assumes "control_at s t = Some old"
  shows "threads P ((js_control s)[t := pc]) + (if P old then 1 else 0)
    = threads P (js_control s) + (if P pc then 1 else 0)"
  using assms threads_update [of t "js_control s" P pc] by (auto simp: control_at_Some)

lemma busy_api: "api_at s t = Some pc \<Longrightarrow> P pc \<Longrightarrow> threads P (js_api s) > 0"
  by (auto simp: api_at_Some intro: threads_pos)

lemma threads_set_api [simp]:
  assumes "api_at s t = Some old"
  shows "threads P ((js_api s)[t := pc]) = threads P (js_api s) + (if P pc then 1 else 0) - (if P old then 1 else 0)"
  using threads_api_at [OF assms, of P pc] by simp

lemma threads_set_control [simp]:
  assumes "control_at s t = Some old"
  shows "threads P ((js_control s)[t := pc])
    = threads P (js_control s) + (if P pc then 1 else 0) - (if P old then 1 else 0)"
  using threads_control_at [OF assms, of P pc] by simp

lemma busy_control: "control_at s t = Some pc \<Longrightarrow> P pc \<Longrightarrow> threads P (js_control s) > 0"
  by (auto simp: control_at_Some intro: threads_pos)

lemma simple_steps:
  "body_ends result s = Some s' \<Longrightarrow> js_worker s = WBody \<and> threads control_busy (js_control s) = 0
     \<and> (\<exists>r. s' = s\<lparr>js_worker := WDisarm r\<rparr>)"
  "armWatchdog timeout act s = Some s' \<Longrightarrow> js_worker s = WBody
     \<and> (s' = s \<or> s' = s\<lparr>js_watchdog_stop := True, js_worker := WArm\<rparr>)"
  "control_call t pc s = Some s' \<Longrightarrow> control_at s t = Some CtlIdle \<and> body_running s \<and> s' = set_control t pc s"
  subgoal by (auto simp: body_ends_def threads_zero list_all_iff simp del: split_paired_Ex split: if_split_asm)
  subgoal by (auto simp: armWatchdog_def split: if_split_asm)
  subgoal by (auto simp: control_call_def split: if_split_asm)
  done

lemma watchdog_step_cases:
  assumes "watchdog_step ev s = Some s'"
  obtains (stop) "js_watchdog s = WdWaiting" "js_watchdog_stop s" "s' = s\<lparr>js_watchdog := WdFinished\<rparr>"
    | (expire) "js_watchdog s = WdWaiting" "\<not> js_watchdog_stop s"
        "s' = log_event EvExpireBegin (s\<lparr>js_watchdog := WdExpiring\<rparr>)"
    | (expired) "js_watchdog s = WdExpiring" "s' = log_event EvExpireEnd (s\<lparr>js_watchdog := WdFinished\<rparr>)"
  using assms that by (cases ev) (auto simp: watchdog_step_def split: if_split_asm)

lemma api_begin_cases:
  assumes "api_begin t call s = Some s'"
  obtains (cancel) "api_at s t = Some ApiIdle" "js_start_gate s" "\<not> js_destroying s"
      "s' = set_api t (CancelFlagged False) (s\<lparr>js_cancelled := True\<rparr>)"
    | (join) "api_at s t = Some ApiIdle" "js_start_gate s" "\<not> js_destroying s" "s' = set_api t (JoinEnter False) s"
    | (destroy) "api_at s t = Some ApiIdle" "js_start_gate s" "\<not> js_destroying s" "threads api_busy (js_api s) = 0"
      "s' = set_api t (CancelFlagged True) (s\<lparr>js_cancelled := True, js_destroying := True\<rparr>)"
  using assms that by (cases call) (auto simp: api_begin_def threads_zero list_all_iff split: if_split_asm)

lemma worker_step_cases:
  assumes "worker_step s = Some s'"
  obtains (gate) "js_worker s = WGate" "js_start_gate s" "s' = s\<lparr>js_worker := WCheck\<rparr>"
    | (cancelled) "js_worker s = WCheck" "js_cancelled s"
        "s' = s\<lparr>js_worker := WDisarm (IMPORT_CANCELLED, ''import cancelled'')\<rparr>"
    | (body) "js_worker s = WCheck" "\<not> js_cancelled s" "s' = log_event EvBody (s\<lparr>js_worker := WBody\<rparr>)"
    | (armed) "js_worker s = WArm" "js_watchdog s = WdNone \<or> js_watchdog s = WdFinished"
        "s' = s\<lparr>js_watchdog_stop := False, js_watchdog := WdWaiting, js_worker := WBody\<rparr>"
    | (disarm) r where "js_worker s = WDisarm r"
        "s' = s\<lparr>js_cancel_hook := None, js_hook_fired := True, js_worker := WWaitHook r\<rparr>"
    | (hook_over) r where "js_worker s = WWaitHook r" "\<not> js_hook_running s" "s' = s\<lparr>js_worker := WStopWatchdog r\<rparr>"
    | (stop) r where "js_worker s = WStopWatchdog r" "s' = s\<lparr>js_watchdog_stop := True, js_worker := WJoinWatchdog r\<rparr>"
    | (stopped) r where "js_worker s = WJoinWatchdog r" "js_watchdog s = WdNone \<or> js_watchdog s = WdFinished"
        "s' = s\<lparr>js_worker := WTerminal r\<rparr>"
    | (again) r where "js_worker s = WTerminal r" "js_terminal_fired s" "s' = s\<lparr>js_worker := WDone\<rparr>"
    | (terminal) oc m where "js_worker s = WTerminal (oc, m)" "\<not> js_terminal_fired s"
        "s' = log_event (EvTerminal oc m) (s\<lparr>js_terminal_fired := True, js_worker := WInTerminal\<rparr>)"
    | (returned) "js_worker s = WInTerminal" "s' = s\<lparr>js_worker := WDone\<rparr>"
proof (cases "js_worker s")
  case WGate
  with assms that(1) show thesis by (auto simp: worker_step_def split: if_split_asm)
next
  case WCheck
  with assms that(2,3) show thesis by (auto simp: worker_step_def split: if_split_asm)
next
  case WBody
  with assms show thesis by (auto simp: worker_step_def split: if_split_asm)
next
  case WArm
  with assms that(4) show thesis by (auto simp: worker_step_def split: if_split_asm)
next
  case (WDisarm r)
  with assms that(5) show thesis by (auto simp: worker_step_def split: if_split_asm)
next
  case (WWaitHook r)
  with assms that(6) show thesis by (auto simp: worker_step_def split: if_split_asm)
next
  case (WStopWatchdog r)
  with assms that(7) show thesis by (auto simp: worker_step_def split: if_split_asm)
next
  case (WJoinWatchdog r)
  with assms that(8) show thesis by (auto simp: worker_step_def split: if_split_asm)
next
  case (WTerminal r)
  with assms that(9,10) show thesis by (cases r) (auto simp: worker_step_def split: if_split_asm)
next
  case WInTerminal
  with assms that(11) show thesis by (auto simp: worker_step_def split: if_split_asm)
next
  case WDone
  with assms show thesis by (auto simp: worker_step_def split: if_split_asm)
qed

lemmas job_step_elims = worker_step_cases control_step_cases api_step_cases watchdog_step_cases api_begin_cases

definition job_inv :: "JobState \<Rightarrow> bool" where
  "job_inv s \<longleftrightarrow> inv_gate s \<and> inv_hook s \<and> inv_watchdog s \<and> inv_dataset s \<and> inv_terminal s \<and> inv_join s
     \<and> inv_destroy s"

lemma phase_simps [simp]: "phase w = 0 \<longleftrightarrow> w = WGate" "phase w = 9 \<longleftrightarrow> w = WDone" "phase w \<le> 9"
  by (cases w; simp)+

lemma inv_gate_worker: "job_inv s \<Longrightarrow> worker_step s = Some s' \<Longrightarrow> inv_gate s'"
  by (erule worker_step_cases) (auto simp: job_inv_def inv_gate_def update_defs split: if_split_asm)

lemma inv_hook_worker: "job_inv s \<Longrightarrow> worker_step s = Some s' \<Longrightarrow> inv_hook s'"
  by (erule worker_step_cases) (auto simp: job_inv_def inv_hook_def hook_begins_def update_defs split: if_split_asm)

lemma inv_watchdog_worker: "job_inv s \<Longrightarrow> worker_step s = Some s' \<Longrightarrow> inv_watchdog s'"
  by (erule worker_step_cases) (auto simp: job_inv_def inv_watchdog_def update_defs split: if_split_asm)

lemma inv_dataset_worker: "job_inv s \<Longrightarrow> worker_step s = Some s' \<Longrightarrow> inv_dataset s'"
  by (erule worker_step_cases) (auto simp: job_inv_def inv_dataset_def dataset_calls_def update_defs split: if_split_asm)

lemma inv_terminal_worker: "job_inv s \<Longrightarrow> worker_step s = Some s' \<Longrightarrow> inv_terminal s'"
  by (erule worker_step_cases) (auto simp: job_inv_def inv_terminal_def is_terminal_def update_defs split: if_split_asm)

lemma inv_join_worker: "job_inv s \<Longrightarrow> worker_step s = Some s' \<Longrightarrow> inv_join s'"
  by (erule worker_step_cases) (auto simp: job_inv_def inv_join_def update_defs split: if_split_asm)

lemma inv_destroy_worker: "job_inv s \<Longrightarrow> worker_step s = Some s' \<Longrightarrow> inv_destroy s'"
  by (erule worker_step_cases) (auto simp: job_inv_def inv_destroy_def update_defs split: if_split_asm)

lemma inv_gate_control: "job_inv s \<Longrightarrow> control_step t s = Some s' \<Longrightarrow> inv_gate s'"
  by (erule control_step_cases; frule busy_control [where P = control_busy])
    (auto simp: job_inv_def inv_gate_def update_defs)

lemma inv_hook_control: "job_inv s \<Longrightarrow> control_step t s = Some s' \<Longrightarrow> inv_hook s'"
  by (erule control_step_cases) (auto simp: job_inv_def inv_hook_def hook_begins_def update_defs split: if_split_asm)

lemma inv_watchdog_control: "job_inv s \<Longrightarrow> control_step t s = Some s' \<Longrightarrow> inv_watchdog s'"
  by (erule control_step_cases) (auto simp: job_inv_def inv_watchdog_def update_defs split: if_split_asm)

lemma inv_dataset_control: "job_inv s \<Longrightarrow> control_step t s = Some s' \<Longrightarrow> inv_dataset s'"
  by (erule control_step_cases) (auto simp: job_inv_def inv_dataset_def dataset_calls_def update_defs split: if_split_asm)

lemma inv_terminal_control: "job_inv s \<Longrightarrow> control_step t s = Some s' \<Longrightarrow> inv_terminal s'"
  by (erule control_step_cases; frule busy_control [where P = control_busy])
    (auto simp: job_inv_def inv_gate_def inv_terminal_def is_terminal_def update_defs)

lemma inv_join_control: "job_inv s \<Longrightarrow> control_step t s = Some s' \<Longrightarrow> inv_join s'"
  by (erule control_step_cases) (auto simp: job_inv_def inv_join_def update_defs split: if_split_asm)

lemma inv_destroy_control: "job_inv s \<Longrightarrow> control_step t s = Some s' \<Longrightarrow> inv_destroy s'"
  by (erule control_step_cases) (auto simp: job_inv_def inv_destroy_def update_defs split: if_split_asm)

lemma inv_gate_api: "job_inv s \<Longrightarrow> api_step t s = Some s' \<Longrightarrow> inv_gate s'"
  by (erule api_step_cases; (elim disjE)?; frule busy_api [where P = api_busy])
    (auto simp: job_inv_def inv_gate_def update_defs)

lemma inv_hook_api: "job_inv s \<Longrightarrow> api_step t s = Some s' \<Longrightarrow> inv_hook s'"
  by (erule api_step_cases; (elim disjE)?; frule busy_api [where P = "\<lambda>pc. True"])
    (auto simp: job_inv_def inv_hook_def hook_begins_def update_defs after_cancel_def after_join_def dest: busy_api [where P = in_hook])

lemma inv_watchdog_api: "job_inv s \<Longrightarrow> api_step t s = Some s' \<Longrightarrow> inv_watchdog s'"
  by (erule api_step_cases) (auto simp: job_inv_def inv_watchdog_def update_defs split: if_split_asm)

lemma inv_dataset_api: "job_inv s \<Longrightarrow> api_step t s = Some s' \<Longrightarrow> inv_dataset s'"
  by (erule api_step_cases) (auto simp: job_inv_def inv_dataset_def dataset_calls_def update_defs split: if_split_asm)

lemma inv_terminal_api: "job_inv s \<Longrightarrow> api_step t s = Some s' \<Longrightarrow> inv_terminal s'"
  by (erule api_step_cases; (elim disjE)?)
    (auto simp: job_inv_def inv_hook_def inv_terminal_def is_terminal_def update_defs dest: busy_api [where P = in_hook])

lemma inv_join_api: "job_inv s \<Longrightarrow> api_step t s = Some s' \<Longrightarrow> inv_join s'"
  by (erule api_step_cases; (elim disjE)?)
    (auto simp: job_inv_def inv_join_def joining_def update_defs after_cancel_def after_join_def dest: busy_api [where P = joining])

lemma inv_destroy_api:
  assumes "job_inv s" "api_step t s = Some s'"
  shows "inv_destroy s'"
proof -
  have old: "\<forall>pc. api_at s t = Some pc \<longrightarrow> (pc = ApiIdle \<or> destroys pc = js_destroying s)
      \<and> (pc = Deleting \<longrightarrow> js_joined s)"
    using assms(1) by (auto simp: api_at_Some job_inv_def inv_destroy_def list_all_length)
  have counts: "js_destroying s \<longrightarrow> threads api_busy (js_api s) = (if js_freed s then 0 else 1)"
    and lists: "\<forall>pc \<in> set (js_api s). pc = ApiIdle \<or> destroys pc = js_destroying s"
      "\<forall>pc \<in> set (js_api s). pc = Deleting \<longrightarrow> js_joined s"
    and freed: "js_freed s \<longrightarrow> js_destroying s \<and> js_joined s" "js_destroying s \<longrightarrow> js_cancelled s"
    using assms(1) by (auto simp: job_inv_def inv_destroy_def list_all_iff)
  have "(js_destroying s' \<longrightarrow> threads api_busy (js_api s') = (if js_freed s' then 0 else 1))
      \<and> (js_freed s' \<longrightarrow> js_destroying s' \<and> js_joined s') \<and> (js_destroying s' \<longrightarrow> js_cancelled s')"
    using assms(2) counts freed old
    by - (erule api_step_cases; (elim disjE)?; frule busy_api [where P = api_busy]; auto simp: update_defs after_cancel_def after_join_def split: if_splits)
  moreover have "\<forall>pc \<in> set (js_api s'). pc = ApiIdle \<or> destroys pc = js_destroying s'"
    using assms(2) lists(1) old
    by (elim api_step_cases; (elim disjE)?)
      (auto simp: update_defs after_cancel_def after_join_def dest!: subsetD [OF set_update_subset_insert]
        split: if_splits)
  moreover have "\<forall>pc \<in> set (js_api s'). pc = Deleting \<longrightarrow> js_joined s'"
    using assms(2) lists(2)
    by (elim api_step_cases; (elim disjE)?)
      (auto simp: update_defs after_cancel_def after_join_def dest!: subsetD [OF set_update_subset_insert]
        split: if_splits)
  ultimately show ?thesis
    by (simp add: inv_destroy_def list_all_iff)
qed

lemma inv_gate_begin: "job_inv s \<Longrightarrow> api_begin t call s = Some s' \<Longrightarrow> inv_gate s'"
  by (erule api_begin_cases) (auto simp: job_inv_def inv_gate_def update_defs split: if_split_asm)

lemma inv_hook_begin: "job_inv s \<Longrightarrow> api_begin t call s = Some s' \<Longrightarrow> inv_hook s'"
  by (erule api_begin_cases) (auto simp: job_inv_def inv_hook_def hook_begins_def update_defs)

lemma inv_watchdog_begin: "job_inv s \<Longrightarrow> api_begin t call s = Some s' \<Longrightarrow> inv_watchdog s'"
  by (erule api_begin_cases) (auto simp: job_inv_def inv_watchdog_def update_defs split: if_split_asm)

lemma inv_dataset_begin: "job_inv s \<Longrightarrow> api_begin t call s = Some s' \<Longrightarrow> inv_dataset s'"
  by (erule api_begin_cases) (auto simp: job_inv_def inv_dataset_def dataset_calls_def update_defs split: if_split_asm)

lemma inv_terminal_begin: "job_inv s \<Longrightarrow> api_begin t call s = Some s' \<Longrightarrow> inv_terminal s'"
  by (erule api_begin_cases) (auto simp: job_inv_def inv_terminal_def is_terminal_def update_defs split: if_split_asm)

lemma inv_join_begin: "job_inv s \<Longrightarrow> api_begin t call s = Some s' \<Longrightarrow> inv_join s'"
  by (erule api_begin_cases) (auto simp: job_inv_def inv_join_def joining_def update_defs)

lemma inv_destroy_begin: "job_inv s \<Longrightarrow> api_begin t call s = Some s' \<Longrightarrow> inv_destroy s'"
  by (erule api_begin_cases) (auto simp: job_inv_def inv_destroy_def update_defs threads_zero list_all_iff
      dest!: subsetD [OF set_update_subset_insert])

lemma inv_gate_watchdog: "job_inv s \<Longrightarrow> watchdog_step ev s = Some s' \<Longrightarrow> inv_gate s'"
  by (erule watchdog_step_cases) (auto simp: job_inv_def inv_gate_def update_defs split: if_split_asm)

lemma inv_hook_watchdog: "job_inv s \<Longrightarrow> watchdog_step ev s = Some s' \<Longrightarrow> inv_hook s'"
  by (erule watchdog_step_cases) (auto simp: job_inv_def inv_hook_def hook_begins_def update_defs split: if_split_asm)

lemma inv_watchdog_watchdog: "job_inv s \<Longrightarrow> watchdog_step ev s = Some s' \<Longrightarrow> inv_watchdog s'"
  by (erule watchdog_step_cases) (auto simp: job_inv_def inv_watchdog_def update_defs split: if_split_asm)

lemma inv_dataset_watchdog: "job_inv s \<Longrightarrow> watchdog_step ev s = Some s' \<Longrightarrow> inv_dataset s'"
  by (erule watchdog_step_cases) (auto simp: job_inv_def inv_dataset_def dataset_calls_def update_defs split: if_split_asm)

lemma inv_terminal_watchdog: "job_inv s \<Longrightarrow> watchdog_step ev s = Some s' \<Longrightarrow> inv_terminal s'"
  by (erule watchdog_step_cases)
    (auto simp: job_inv_def inv_watchdog_def inv_terminal_def is_terminal_def update_defs)

lemma inv_join_watchdog: "job_inv s \<Longrightarrow> watchdog_step ev s = Some s' \<Longrightarrow> inv_join s'"
  by (erule watchdog_step_cases) (auto simp: job_inv_def inv_join_def update_defs split: if_split_asm)

lemma inv_destroy_watchdog: "job_inv s \<Longrightarrow> watchdog_step ev s = Some s' \<Longrightarrow> inv_destroy s'"
  by (erule watchdog_step_cases) (auto simp: job_inv_def inv_destroy_def update_defs split: if_split_asm)

subsection \<open>Every reachable state\<close>

text \<open>
  A property that holds at the start and that every kind of step keeps: what a proof about the job
  has to show.
\<close>

locale job_invariant =
  fixes I :: "JobState \<Rightarrow> bool"
  assumes populate: "I s \<Longrightarrow> I (s\<lparr>js_out_job := True\<rparr>)"
    and gate: "I s \<Longrightarrow> js_out_job s \<Longrightarrow> I (s\<lparr>js_start_gate := True\<rparr>)"
    and worker: "I s \<Longrightarrow> worker_step s = Some s' \<Longrightarrow> I s'"
    and body_end: "I s \<Longrightarrow> body_ends result s = Some s' \<Longrightarrow> I s'"
    and arm: "I s \<Longrightarrow> armWatchdog timeout act s = Some s' \<Longrightarrow> I s'"
    and watchdog: "I s \<Longrightarrow> watchdog_step ev s = Some s' \<Longrightarrow> I s'"
    and call: "I s \<Longrightarrow> control_call t pc s = Some s' \<Longrightarrow> I s'"
    and control: "I s \<Longrightarrow> control_step t s = Some s' \<Longrightarrow> I s'"
    and begin_call: "I s \<Longrightarrow> api_begin t c s = Some s' \<Longrightarrow> I s'"
    and api: "I s \<Longrightarrow> api_step t s = Some s' \<Longrightarrow> I s'"
begin

lemma step: "I s \<Longrightarrow> job_step a s = Some s' \<Longrightarrow> I s'"
  by (cases a; simp only: job_step.simps split: if_split_asm)
    (auto intro: populate gate worker body_end arm watchdog call control begin_call api)

lemma reachable: "job_reachable s0 s \<Longrightarrow> I s0 \<Longrightarrow> I s"
  by (induction rule: job_reachable.induct) (auto intro: step)

lemma run: "job_run as s = Some s' \<Longrightarrow> I s \<Longrightarrow> I s'"
  by (induction as arbitrary: s) (auto split: option.splits intro: step)

end

text \<open>The steps that change one or two fields.\<close>

lemma inv_gate_small:
  assumes "job_inv s"
  shows "inv_gate (s\<lparr>js_out_job := True\<rparr>)" and "js_out_job s \<Longrightarrow> inv_gate (s\<lparr>js_start_gate := True\<rparr>)"
    and "body_ends result s = Some s' \<Longrightarrow> inv_gate s'" and "armWatchdog timeout act s = Some s' \<Longrightarrow> inv_gate s'"
    and "control_call t pc s = Some s' \<Longrightarrow> inv_gate s'"
proof -
  note inv = assms [unfolded job_inv_def]
  show "inv_gate (s\<lparr>js_out_job := True\<rparr>)" "js_out_job s \<Longrightarrow> inv_gate (s\<lparr>js_start_gate := True\<rparr>)"
    using inv by (simp_all add: inv_gate_def)
  show "body_ends result s = Some s' \<Longrightarrow> inv_gate s'"
    using inv by (frule_tac simple_steps(1)) (elim conjE exE, simp add: inv_gate_def)
  show "armWatchdog timeout act s = Some s' \<Longrightarrow> inv_gate s'"
    using inv by (frule_tac simple_steps(2)) (elim conjE disjE, simp_all add: inv_gate_def)
  show "control_call t pc s = Some s' \<Longrightarrow> inv_gate s'"
    using inv by (frule_tac simple_steps(3)) (elim conjE, auto simp: inv_gate_def body_running_def set_control_def)
qed

lemma inv_hook_small:
  assumes "job_inv s"
  shows "inv_hook (s\<lparr>js_out_job := True\<rparr>)" and "js_out_job s \<Longrightarrow> inv_hook (s\<lparr>js_start_gate := True\<rparr>)"
    and "body_ends result s = Some s' \<Longrightarrow> inv_hook s'" and "armWatchdog timeout act s = Some s' \<Longrightarrow> inv_hook s'"
    and "control_call t pc s = Some s' \<Longrightarrow> inv_hook s'"
proof -
  note inv = assms [unfolded job_inv_def]
  show "inv_hook (s\<lparr>js_out_job := True\<rparr>)" "js_out_job s \<Longrightarrow> inv_hook (s\<lparr>js_start_gate := True\<rparr>)"
    using inv by (simp_all add: inv_hook_def hook_begins_def)
  show "body_ends result s = Some s' \<Longrightarrow> inv_hook s'"
    using inv by (frule_tac simple_steps(1)) (elim conjE exE, simp add: inv_hook_def hook_begins_def)
  show "armWatchdog timeout act s = Some s' \<Longrightarrow> inv_hook s'"
    using inv by (frule_tac simple_steps(2)) (elim conjE disjE, simp_all add: inv_hook_def hook_begins_def)
  show "control_call t pc s = Some s' \<Longrightarrow> inv_hook s'"
    using inv by (frule_tac simple_steps(3)) (elim conjE, auto simp: inv_hook_def hook_begins_def body_running_def set_control_def)
qed

lemma inv_watchdog_small:
  assumes "job_inv s"
  shows "inv_watchdog (s\<lparr>js_out_job := True\<rparr>)" and "js_out_job s \<Longrightarrow> inv_watchdog (s\<lparr>js_start_gate := True\<rparr>)"
    and "body_ends result s = Some s' \<Longrightarrow> inv_watchdog s'" and "armWatchdog timeout act s = Some s' \<Longrightarrow> inv_watchdog s'"
    and "control_call t pc s = Some s' \<Longrightarrow> inv_watchdog s'"
proof -
  note inv = assms [unfolded job_inv_def]
  show "inv_watchdog (s\<lparr>js_out_job := True\<rparr>)" "js_out_job s \<Longrightarrow> inv_watchdog (s\<lparr>js_start_gate := True\<rparr>)"
    using inv by (simp_all add: inv_watchdog_def)
  show "body_ends result s = Some s' \<Longrightarrow> inv_watchdog s'"
    using inv by (frule_tac simple_steps(1)) (elim conjE exE, simp add: inv_watchdog_def)
  show "armWatchdog timeout act s = Some s' \<Longrightarrow> inv_watchdog s'"
    using inv by (frule_tac simple_steps(2)) (elim conjE disjE, simp_all add: inv_watchdog_def)
  show "control_call t pc s = Some s' \<Longrightarrow> inv_watchdog s'"
    using inv by (frule_tac simple_steps(3)) (elim conjE, auto simp: inv_watchdog_def body_running_def set_control_def)
qed

lemma inv_dataset_small:
  assumes "job_inv s"
  shows "inv_dataset (s\<lparr>js_out_job := True\<rparr>)" and "js_out_job s \<Longrightarrow> inv_dataset (s\<lparr>js_start_gate := True\<rparr>)"
    and "body_ends result s = Some s' \<Longrightarrow> inv_dataset s'" and "armWatchdog timeout act s = Some s' \<Longrightarrow> inv_dataset s'"
    and "control_call t pc s = Some s' \<Longrightarrow> inv_dataset s'"
proof -
  note inv = assms [unfolded job_inv_def]
  show "inv_dataset (s\<lparr>js_out_job := True\<rparr>)" "js_out_job s \<Longrightarrow> inv_dataset (s\<lparr>js_start_gate := True\<rparr>)"
    using inv by (simp_all add: inv_dataset_def dataset_calls_def)
  show "body_ends result s = Some s' \<Longrightarrow> inv_dataset s'"
    using inv by (frule_tac simple_steps(1)) (elim conjE exE, simp add: inv_dataset_def dataset_calls_def)
  show "armWatchdog timeout act s = Some s' \<Longrightarrow> inv_dataset s'"
    using inv by (frule_tac simple_steps(2)) (elim conjE disjE, simp_all add: inv_dataset_def dataset_calls_def)
  show "control_call t pc s = Some s' \<Longrightarrow> inv_dataset s'"
    using inv by (frule_tac simple_steps(3)) (elim conjE, auto simp: inv_dataset_def dataset_calls_def body_running_def set_control_def)
qed

lemma inv_terminal_small:
  assumes "job_inv s"
  shows "inv_terminal (s\<lparr>js_out_job := True\<rparr>)" and "js_out_job s \<Longrightarrow> inv_terminal (s\<lparr>js_start_gate := True\<rparr>)"
    and "body_ends result s = Some s' \<Longrightarrow> inv_terminal s'" and "armWatchdog timeout act s = Some s' \<Longrightarrow> inv_terminal s'"
    and "control_call t pc s = Some s' \<Longrightarrow> inv_terminal s'"
proof -
  note inv = assms [unfolded job_inv_def]
  show "inv_terminal (s\<lparr>js_out_job := True\<rparr>)" "js_out_job s \<Longrightarrow> inv_terminal (s\<lparr>js_start_gate := True\<rparr>)"
    using inv by (simp_all add: inv_terminal_def is_terminal_def)
  show "body_ends result s = Some s' \<Longrightarrow> inv_terminal s'"
    using inv by (frule_tac simple_steps(1)) (elim conjE exE, simp add: inv_terminal_def is_terminal_def)
  show "armWatchdog timeout act s = Some s' \<Longrightarrow> inv_terminal s'"
    using inv by (frule_tac simple_steps(2)) (elim conjE disjE, simp_all add: inv_terminal_def is_terminal_def)
  show "control_call t pc s = Some s' \<Longrightarrow> inv_terminal s'"
    using inv by (frule_tac simple_steps(3)) (elim conjE, auto simp: inv_terminal_def is_terminal_def body_running_def set_control_def)
qed

lemma inv_join_small:
  assumes "job_inv s"
  shows "inv_join (s\<lparr>js_out_job := True\<rparr>)" and "js_out_job s \<Longrightarrow> inv_join (s\<lparr>js_start_gate := True\<rparr>)"
    and "body_ends result s = Some s' \<Longrightarrow> inv_join s'" and "armWatchdog timeout act s = Some s' \<Longrightarrow> inv_join s'"
    and "control_call t pc s = Some s' \<Longrightarrow> inv_join s'"
proof -
  note inv = assms [unfolded job_inv_def]
  show "inv_join (s\<lparr>js_out_job := True\<rparr>)" "js_out_job s \<Longrightarrow> inv_join (s\<lparr>js_start_gate := True\<rparr>)"
    using inv by (simp_all add: inv_join_def)
  show "body_ends result s = Some s' \<Longrightarrow> inv_join s'"
    using inv by (frule_tac simple_steps(1)) (elim conjE exE, simp add: inv_join_def)
  show "armWatchdog timeout act s = Some s' \<Longrightarrow> inv_join s'"
    using inv by (frule_tac simple_steps(2)) (elim conjE disjE, simp_all add: inv_join_def)
  show "control_call t pc s = Some s' \<Longrightarrow> inv_join s'"
    using inv by (frule_tac simple_steps(3)) (elim conjE, auto simp: inv_join_def body_running_def set_control_def)
qed

lemma inv_destroy_small:
  assumes "job_inv s"
  shows "inv_destroy (s\<lparr>js_out_job := True\<rparr>)" and "js_out_job s \<Longrightarrow> inv_destroy (s\<lparr>js_start_gate := True\<rparr>)"
    and "body_ends result s = Some s' \<Longrightarrow> inv_destroy s'" and "armWatchdog timeout act s = Some s' \<Longrightarrow> inv_destroy s'"
    and "control_call t pc s = Some s' \<Longrightarrow> inv_destroy s'"
proof -
  note inv = assms [unfolded job_inv_def]
  show "inv_destroy (s\<lparr>js_out_job := True\<rparr>)" "js_out_job s \<Longrightarrow> inv_destroy (s\<lparr>js_start_gate := True\<rparr>)"
    using inv by (simp_all add: inv_destroy_def)
  show "body_ends result s = Some s' \<Longrightarrow> inv_destroy s'"
    using inv by (frule_tac simple_steps(1)) (elim conjE exE, simp add: inv_destroy_def)
  show "armWatchdog timeout act s = Some s' \<Longrightarrow> inv_destroy s'"
    using inv by (frule_tac simple_steps(2)) (elim conjE disjE, simp_all add: inv_destroy_def)
  show "control_call t pc s = Some s' \<Longrightarrow> inv_destroy s'"
    using inv by (frule_tac simple_steps(3)) (elim conjE, auto simp: inv_destroy_def body_running_def set_control_def)
qed

lemmas small_steps = inv_gate_small inv_hook_small inv_watchdog_small inv_dataset_small inv_terminal_small inv_join_small inv_destroy_small

interpretation job: job_invariant job_inv
proof
  fix s s' :: JobState and t ev c result timeout act pc
  assume inv: "job_inv s"
  show "job_inv (s\<lparr>js_out_job := True\<rparr>)" "js_out_job s \<Longrightarrow> job_inv (s\<lparr>js_start_gate := True\<rparr>)"
    "body_ends result s = Some s' \<Longrightarrow> job_inv s'" "armWatchdog timeout act s = Some s' \<Longrightarrow> job_inv s'"
    "control_call t pc s = Some s' \<Longrightarrow> job_inv s'"
    by (simp_all only: job_inv_def [of s'] job_inv_def [of "s\<lparr>js_out_job := True\<rparr>"]
        job_inv_def [of "s\<lparr>js_start_gate := True\<rparr>"])
      (intro conjI small_steps [OF inv]; assumption)+
  show "worker_step s = Some s' \<Longrightarrow> job_inv s'"
    unfolding job_inv_def [of s'] using inv by (intro conjI inv_gate_worker inv_hook_worker inv_watchdog_worker
      inv_dataset_worker inv_terminal_worker inv_join_worker inv_destroy_worker)
  show "watchdog_step ev s = Some s' \<Longrightarrow> job_inv s'"
    unfolding job_inv_def [of s'] using inv by (intro conjI inv_gate_watchdog inv_hook_watchdog inv_watchdog_watchdog
      inv_dataset_watchdog inv_terminal_watchdog inv_join_watchdog inv_destroy_watchdog)
  show "control_step t s = Some s' \<Longrightarrow> job_inv s'"
    unfolding job_inv_def [of s'] using inv by (intro conjI inv_gate_control inv_hook_control inv_watchdog_control
      inv_dataset_control inv_terminal_control inv_join_control inv_destroy_control)
  show "api_begin t c s = Some s' \<Longrightarrow> job_inv s'"
    unfolding job_inv_def [of s'] using inv by (intro conjI inv_gate_begin inv_hook_begin inv_watchdog_begin
      inv_dataset_begin inv_terminal_begin inv_join_begin inv_destroy_begin)
  show "api_step t s = Some s' \<Longrightarrow> job_inv s'"
    unfolding job_inv_def [of s'] using inv by (intro conjI inv_gate_api inv_hook_api inv_watchdog_api
      inv_dataset_api inv_terminal_api inv_join_api inv_destroy_api)
qed

lemma threads_replicate [simp]: "\<not> P x \<Longrightarrow> threads P (replicate n x) = 0"
  by (simp add: threads_def)

lemma startJob_inv: "startJob out_null body cbs spawned n k = Inr s \<Longrightarrow> job_inv s"
  by (auto simp: startJob_def job_inv_def inv_gate_def inv_hook_def hook_begins_def inv_watchdog_def inv_dataset_def
      dataset_calls_def inv_terminal_def inv_join_def inv_destroy_def joining_def
      threads_def list_all_iff split: if_splits option.splits)

text \<open>The outcome of a job whose body never ran.\<close>

fun pending :: "worker_pc \<Rightarrow> ImportOutcome option" where
  "pending (WDisarm r) = Some r"
| "pending (WWaitHook r) = Some r"
| "pending (WStopWatchdog r) = Some r"
| "pending (WJoinWatchdog r) = Some r"
| "pending (WTerminal r) = Some r"
| "pending _ = None"

definition inv_body :: "JobState \<Rightarrow> bool" where
  "inv_body s \<longleftrightarrow> EvBody \<in> set (js_events s) \<or>
     \<not> body_running s \<and> (\<forall>r. pending (js_worker s) = Some r \<longrightarrow> fst r = IMPORT_CANCELLED \<and> js_cancelled s)
     \<and> (\<forall>oc m. EvTerminal oc m \<in> set (js_events s) \<longrightarrow> oc = IMPORT_CANCELLED \<and> js_cancelled s)"

interpretation job_body: job_invariant inv_body
proof
  fix s s' :: JobState and t ev c result timeout act pc
  assume inv: "inv_body s"
  show "inv_body (s\<lparr>js_out_job := True\<rparr>)" "inv_body (s\<lparr>js_start_gate := True\<rparr>)"
    using inv by (auto simp: inv_body_def body_running_def)
  show "worker_step s = Some s' \<Longrightarrow> inv_body s'"
    using inv by (elim worker_step_cases) (auto simp: inv_body_def body_running_def update_defs)
  show "watchdog_step ev s = Some s' \<Longrightarrow> inv_body s'"
    using inv by (elim watchdog_step_cases) (auto simp: inv_body_def body_running_def update_defs)
  show "control_step t s = Some s' \<Longrightarrow> inv_body s'"
    using inv by (elim control_step_cases) (auto simp: inv_body_def body_running_def update_defs)
  show "api_begin t c s = Some s' \<Longrightarrow> inv_body s'"
    using inv by (elim api_begin_cases) (auto simp: inv_body_def body_running_def update_defs)
  show "api_step t s = Some s' \<Longrightarrow> inv_body s'"
    using inv by (elim api_step_cases) (auto simp: inv_body_def body_running_def update_defs)
  show "body_ends result s = Some s' \<Longrightarrow> inv_body s'" "armWatchdog timeout act s = Some s' \<Longrightarrow> inv_body s'"
    "control_call t pc s = Some s' \<Longrightarrow> inv_body s'"
    using inv by (auto dest!: simple_steps simp del: split_paired_Ex simp: inv_body_def body_running_def update_defs)
qed

lemma startJob_body: "startJob out_null body cbs spawned n k = Inr s \<Longrightarrow> inv_body s"
  by (auto simp: startJob_def inv_body_def body_running_def split: if_splits option.splits)

subsection \<open>The job can always finish\<close>

text \<open>How much is left to do before the next step of the worker.\<close>

fun stage :: "worker_pc \<Rightarrow> nat" where
  "stage WArm = 8"
| "stage WGate = 10"
| "stage WCheck = 9"
| "stage w = 9 - phase w"

fun control_work :: "control_pc \<Rightarrow> nat" where
  "control_work CtlIdle = 0"
| "control_work (CtlOnCancel h) = 2"
| "control_work (CtlInHook h) = 1"
| "control_work (CtlDataset d) = 2"
| "control_work CtlInDataset = 1"

fun hook_work :: "api_pc \<Rightarrow> nat" where
  "hook_work (InCancelHook d h) = 2"
| "hook_work (CancelHookDone d) = 1"
| "hook_work _ = 0"

fun watchdog_work :: "watchdog_pc \<Rightarrow> nat" where
  "watchdog_work WdWaiting = 2"
| "watchdog_work WdExpiring = 1"
| "watchdog_work _ = 0"

definition job_work :: "JobState \<Rightarrow> nat" where
  "job_work s = sum_list (map control_work (js_control s)) + sum_list (map hook_work (js_api s))
     + watchdog_work (js_watchdog s) + (if js_out_job s then 0 else 1) + (if js_start_gate s then 0 else 1)"

lemma sum_list_replace:
  fixes f :: "'a \<Rightarrow> nat"
  shows "t < length xs \<Longrightarrow> sum_list (map f (xs[t := x])) + f (xs ! t) = sum_list (map f xs) + f x"
proof (induction xs arbitrary: t)
  case (Cons y ys)
  then show ?case by (cases t) (auto simp: algebra_simps)
qed simp

lemma threads_some: "threads P xs > 0 \<Longrightarrow> \<exists>t < length xs. P (xs ! t)"
  by (auto simp: threads_def filter_empty_conv in_set_conv_nth)

text \<open>A step on the way: the worker advances, or the work before its next step gets less.\<close>

definition closer :: "JobState \<Rightarrow> JobState \<Rightarrow> bool" where
  "closer s' s \<longleftrightarrow> stage (js_worker s') < stage (js_worker s)
     \<or> stage (js_worker s') = stage (js_worker s) \<and> job_work s' < job_work s"

lemma closer_control:
  assumes "threads control_busy (js_control s) > 0"
  shows "\<exists>t s'. job_step (ControlStep t) s = Some s' \<and> closer s' s"
proof -
  obtain t where t: "t < length (js_control s)" "js_control s ! t \<noteq> CtlIdle"
    using threads_some [OF assms] by blast
  have work: "control_work pc < control_work (js_control s ! t) \<Longrightarrow>
      sum_list (map control_work ((js_control s)[t := pc])) < sum_list (map control_work (js_control s))" for pc
    using sum_list_replace [OF t(1), of control_work pc] by linarith
  show ?thesis
    by (rule exI [of _ t], cases "js_control s ! t")
      (use t work in \<open>auto simp: control_step_def control_at_def update_defs closer_def job_work_def\<close>)
qed

lemma closer_hook:
  assumes "threads in_hook (js_api s) > 0"
  shows "\<exists>t s'. job_step (ApiStep t) s = Some s' \<and> closer s' s"
proof -
  obtain t where t: "t < length (js_api s)" "in_hook (js_api s ! t)"
    using threads_some [OF assms] by blast
  have work: "hook_work pc < hook_work (js_api s ! t) \<Longrightarrow>
      sum_list (map hook_work ((js_api s)[t := pc])) < sum_list (map hook_work (js_api s))" for pc
    using sum_list_replace [OF t(1), of hook_work pc] by linarith
  show ?thesis
    by (rule exI [of _ t], cases "js_api s ! t")
      (use t work in \<open>auto simp: api_step_def api_at_def update_defs closer_def job_work_def after_cancel_def\<close>)
qed

lemma closer_watchdog:
  assumes "js_watchdog_stop s" "js_watchdog s \<noteq> WdNone" "js_watchdog s \<noteq> WdFinished"
  shows "\<exists>ev s'. job_step (Watchdog ev) s = Some s' \<and> closer s' s"
proof (cases "js_watchdog s")
  case WdWaiting
  then show ?thesis
    using assms by (intro exI [of _ WatchdogStopSeen]) (simp add: watchdog_step_def closer_def job_work_def)
next
  case WdExpiring
  then show ?thesis
    by (intro exI [of _ WatchdogActionReturns]) (simp add: watchdog_step_def closer_def job_work_def update_defs)
qed (use assms in auto)

definition is_api_call :: "job_action \<Rightarrow> bool" where
  "is_api_call a \<longleftrightarrow> (\<exists>t c. a = ApiCall t c)"

lemma job_progress:
  assumes "job_inv s" "js_worker s \<noteq> WDone"
  shows "\<exists>a s'. \<not> is_api_call a \<and> job_step a s = Some s' \<and> closer s' s"
proof -
  note inv = assms(1) [unfolded job_inv_def]
  have worker: "worker_step s \<noteq> None \<Longrightarrow> closer (the (worker_step s)) s \<Longrightarrow> ?thesis"
    by (intro exI [of _ WorkerStep]) (auto simp: is_api_call_def)
  show ?thesis
  proof (cases "js_worker s")
    case WGate
    consider "\<not> js_out_job s" | "js_out_job s" "\<not> js_start_gate s" | "js_start_gate s"
      by blast
    then show ?thesis
    proof cases
      case 1
      then show ?thesis
        by (intro exI [of _ PopulateOutJob]) (simp add: is_api_call_def closer_def job_work_def)
    next
      case 2
      then show ?thesis
        by (intro exI [of _ ReleaseGate]) (simp add: is_api_call_def closer_def job_work_def)
    next
      case 3
      show ?thesis by (rule worker) (simp_all add: worker_step_def WGate 3 closer_def)
    qed
  next
    case WCheck
    show ?thesis
      by (cases "js_cancelled s"; rule worker) (simp_all add: worker_step_def WCheck closer_def update_defs)
  next
    case WBody
    show ?thesis
    proof (cases "threads control_busy (js_control s) > 0")
      case True
      then show ?thesis using closer_control by (force simp: is_api_call_def)
    next
      case False
      then have "body_ends None s = Some (s\<lparr>js_worker := WDisarm (IMPORT_FAILED, ''internal error while running the import'')\<rparr>)"
        by (simp add: body_ends_def WBody threads_zero)
      then show ?thesis
        by (intro exI [of _ "BodyEnds None"]) (simp add: is_api_call_def closer_def WBody)
    qed
  next
    case WArm
    show ?thesis
    proof (cases "js_watchdog s = WdNone \<or> js_watchdog s = WdFinished")
      case True
      show ?thesis by (rule worker) (use True in \<open>auto simp: worker_step_def WArm closer_def\<close>)
    next
      case False
      moreover have "js_watchdog_stop s" using inv WArm by (simp add: inv_watchdog_def)
      ultimately show ?thesis using closer_watchdog by (force simp: is_api_call_def)
    qed
  next
    case (WDisarm r)
    show ?thesis by (rule worker) (simp_all add: worker_step_def WDisarm closer_def)
  next
    case (WWaitHook r)
    show ?thesis
    proof (cases "js_hook_running s")
      case True
      then have "threads in_hook (js_api s) > 0" using inv by (simp add: inv_hook_def)
      then show ?thesis using closer_hook by (force simp: is_api_call_def)
    next
      case False
      show ?thesis by (rule worker) (simp_all add: worker_step_def WWaitHook closer_def False)
    qed
  next
    case (WStopWatchdog r)
    show ?thesis by (rule worker) (simp_all add: worker_step_def WStopWatchdog closer_def)
  next
    case (WJoinWatchdog r)
    show ?thesis
    proof (cases "js_watchdog s = WdNone \<or> js_watchdog s = WdFinished")
      case True
      show ?thesis by (rule worker) (use True in \<open>auto simp: worker_step_def WJoinWatchdog closer_def\<close>)
    next
      case False
      moreover have "js_watchdog_stop s" using inv WJoinWatchdog by (simp add: inv_watchdog_def)
      ultimately show ?thesis using closer_watchdog by (force simp: is_api_call_def)
    qed
  next
    case (WTerminal r)
    have "\<not> js_terminal_fired s" using inv WTerminal by (simp add: inv_terminal_def)
    then show ?thesis
      by (intro worker) (simp_all add: worker_step_def WTerminal closer_def update_defs)
  next
    case WInTerminal
    show ?thesis by (rule worker) (simp_all add: worker_step_def WInTerminal closer_def)
  next
    case WDone
    then show ?thesis using assms(2) by simp
  qed
qed

text \<open>From every state that satisfies the invariant some run without a call of the host ends the job.\<close>

lemma job_can_finish:
  assumes "job_inv s"
  shows "\<exists>as s'. list_all (\<lambda>a. \<not> is_api_call a) as \<and> job_run as s = Some s' \<and> js_worker s' = WDone"
  using assms
proof (induction s rule: wf_induct_rule [OF wf_measures [of "[\<lambda>s. stage (js_worker s), job_work]"]])
  case (1 s)
  show ?case
  proof (cases "js_worker s = WDone")
    case True
    then show ?thesis by (intro exI [of _ "[]"]) simp
  next
    case False
    from job_progress [OF "1.prems" False] obtain a s1 where
      step: "\<not> is_api_call a" "job_step a s = Some s1" "closer s1 s" by blast
    have "\<exists>as s'. list_all (\<lambda>a. \<not> is_api_call a) as \<and> job_run as s1 = Some s' \<and> js_worker s' = WDone"
      using step "1.prems" by (intro "1.IH") (auto simp: closer_def intro: job.step)
    then obtain as s' where "list_all (\<lambda>a. \<not> is_api_call a) as" "job_run as s1 = Some s'" "js_worker s' = WDone"
      by blast
    then show ?thesis
      using step by (intro exI [of _ "a # as"]) auto
  qed
qed

text \<open>After the worker has ended and the memory is freed no thread takes a step.\<close>

lemma freed_no_step:
  assumes "job_inv s" "js_freed s"
  shows "job_step a s = None"
proof -
  note inv = assms(1) [unfolded job_inv_def]
  have worker: "js_worker s = WDone" "js_joined s" "js_destroying s"
    using inv assms(2) by (auto simp: inv_destroy_def inv_join_def)
  have api: "\<And>t pc. api_at s t = Some pc \<Longrightarrow> pc = ApiIdle"
    using inv assms(2) worker by (auto simp: inv_destroy_def threads_zero list_all_length api_at_Some)
  have control: "\<And>t pc. control_at s t = Some pc \<Longrightarrow> pc = CtlIdle"
    using inv worker by (auto simp: inv_gate_def threads_zero list_all_length control_at_Some)
  have wd: "js_watchdog s = WdNone \<or> js_watchdog s = WdFinished"
    using inv worker by (simp add: inv_watchdog_def)
  have gate: "js_out_job s" "js_start_gate s"
    using inv worker by (simp_all add: inv_gate_def)
  show ?thesis
  proof (cases a)
    case (Watchdog ev)
    then show ?thesis using wd by (cases ev) (auto simp: watchdog_step_def)
  next
    case (ControlStep t)
    then show ?thesis using control [of t] by (auto simp: control_step_def split: option.splits)
  next
    case (ApiStep t)
    then show ?thesis using api [of t] by (auto simp: api_step_def split: option.splits)
  qed (use worker gate in \<open>auto simp: worker_step_def body_ends_def armWatchdog_def control_call_def
      body_running_def api_begin_def\<close>)
qed

text \<open>What the host can rely on when the terminal callback has been called.\<close>

lemma terminal_quiet:
  assumes "job_inv s" "js_terminal_fired s"
  shows "threads control_busy (js_control s) = 0 \<and> threads in_hook (js_api s) = 0
    \<and> (js_watchdog s = WdNone \<or> js_watchdog s = WdFinished)"
proof -
  note inv = assms(1) [unfolded job_inv_def]
  have "phase (js_worker s) \<ge> 8" using inv assms(2) by (simp add: inv_terminal_def)
  moreover have "threads control_busy (js_control s) > 0 \<longrightarrow> phase (js_worker s) = 2"
    using inv by (simp add: inv_gate_def)
  moreover have "phase (js_worker s) \<ge> 5 \<longrightarrow> threads in_hook (js_api s) = 0"
    using inv by (simp add: inv_hook_def)
  moreover have "phase (js_worker s) \<ge> 7 \<longrightarrow> js_watchdog s = WdNone \<or> js_watchdog s = WdFinished"
    using inv by (simp add: inv_watchdog_def)
  ultimately show ?thesis by auto
qed

end
