(* ===== verification/Policies.thy ===== *)
theory Policies
  imports TimeMath ClaimCatalog
begin

section \<open>Import policies (\<open>timestamp_policy.hpp\<close>, \<open>parser_array_policy.hpp\<close>, \<open>object_ingest_policy.hpp\<close>)\<close>

text \<open>
  Which column becomes the time axis, how long arrays are cut, and when a payload is fetched. Name
  lists and candidates are lists, an index of the code is a position in the list. The JSON values are
  those of \<open>json_api\<close>, extended by the accessors these headers use.
\<close>

subsection \<open>Storage and eligibility\<close>

datatype TimestampStorage =
  kNativeTimestamp | kInt64 | kUInt64 | kFloat64 | kInt32 | kUInt32 | kNarrowInt | kFloat32 | kOther

datatype TimestampEligibility = kEligible | kExplicitOnly | kIneligible

definition kEligibleHorizonSeconds :: nat where
  "kEligibleHorizonSeconds = 2147483647"

fun maxIntegerTicks :: "TimestampStorage \<Rightarrow> u64 option" where
  "maxIntegerTicks kInt64 = Some 0x7FFFFFFFFFFFFFFF"
| "maxIntegerTicks kUInt64 = Some 0xFFFFFFFFFFFFFFFF"
| "maxIntegerTicks kInt32 = Some 0x7FFFFFFF"
| "maxIntegerTicks kUInt32 = Some 0xFFFFFFFF"
| "maxIntegerTicks kNarrowInt = Some 0x7F"
| "maxIntegerTicks kNativeTimestamp = None"
| "maxIntegerTicks kFloat64 = None"
| "maxIntegerTicks kFloat32 = None"
| "maxIntegerTicks kOther = None"

definition timestampEligibility :: "TimestampStorage \<Rightarrow> TimeUnit \<Rightarrow> TimestampEligibility" where
  "timestampEligibility kind unit = (case kind of
     kNativeTimestamp \<Rightarrow> kEligible
   | kFloat64 \<Rightarrow> kEligible
   | kFloat32 \<Rightarrow> kExplicitOnly
   | kOther \<Rightarrow> kIneligible
   | _ \<Rightarrow>
       let ticks_per_second = (of_int (1000000000 div nanosecondsPer unit) :: u64);
           horizon_ticks = of_nat kEligibleHorizonSeconds * ticks_per_second in
       if the (maxIntegerTicks kind) \<ge> horizon_ticks then kEligible else kExplicitOnly)"

definition explicitOnlyWarning :: "TimestampStorage \<Rightarrow> TimeUnit \<Rightarrow> string" where
  "explicitOnlyWarning kind unit =
     (if timestampEligibility kind unit \<noteq> kExplicitOnly then []
      else if kind = kFloat32 then
        ''float32 keeps 24 significant bits, so instants near the present epoch are spaced over 100 s apart.''
      else ''Integer storage too narrow to reach present-day instants at the configured timestamp unit.'')"

subsection \<open>Names\<close>

record TimestampCandidate =
  tc_name :: string
  tc_kind :: TimestampStorage
  tc_is_list_element :: bool

record TimestampPolicy =
  tp_names :: "string list"
  tp_case_insensitive :: bool
  tp_unit :: TimeUnit

definition kCanonicalTimestampNames :: "string list" where
  "kCanonicalTimestampNames = [''timestamp_ns'', ''recording_timestamp_ns'', ''timestamp'', ''time'', ''ts'', ''t'',
     ''time_stamp'', ''datetime'', ''date_time'', ''_timestamp'', ''_time'']"

definition kCanonicalPolicy :: TimestampPolicy where
  "kCanonicalPolicy = \<lparr>tp_names = kCanonicalTimestampNames, tp_case_insensitive = True, tp_unit = kNanoseconds\<rparr>"

definition foldTimestampAscii :: "char \<Rightarrow> char" where
  "foldTimestampAscii v = (if CHR ''A'' \<le> v \<and> v \<le> CHR ''Z'' then char_of (of_char v + 32 :: nat) else v)"

definition timestampNamesEqualFolded :: "string \<Rightarrow> string \<Rightarrow> bool" where
  "timestampNamesEqualFolded left right \<longleftrightarrow>
     length left = length right \<and> list_all2 (\<lambda>a b. foldTimestampAscii a = foldTimestampAscii b) left right"

text \<open>A loop that returns the first index with a property.\<close>

fun find_index :: "('a \<Rightarrow> bool) \<Rightarrow> 'a list \<Rightarrow> nat option" where
  "find_index P [] = None"
| "find_index P (x # xs) = (if P x then Some 0 else map_option Suc (find_index P xs))"

definition timestampNamePriority :: "string \<Rightarrow> TimestampPolicy \<Rightarrow> nat option" where
  "timestampNamePriority nm policy =
     (case find_index (\<lambda>n. nm = n) (tp_names policy) of
        Some index \<Rightarrow> Some index
      | None \<Rightarrow>
          if \<not> tp_case_insensitive policy then None
          else find_index (timestampNamesEqualFolded nm) (tp_names policy))"

subsection \<open>Detection of the time column\<close>

text \<open>The test of the inner loops: a scalar that is eligible and has the name.\<close>

definition name_candidate :: "TimestampPolicy \<Rightarrow> TimeUnit \<Rightarrow> TimestampCandidate \<Rightarrow> bool" where
  "name_candidate single unit candidate \<longleftrightarrow> \<not> tc_is_list_element candidate
     \<and> timestampEligibility (tc_kind candidate) unit = kEligible
     \<and> timestampNamePriority (tc_name candidate) single \<noteq> None"

fun name_pass :: "string list \<Rightarrow> TimestampPolicy \<Rightarrow> TimestampCandidate list \<Rightarrow> nat option" where
  "name_pass [] policy candidates = None"
| "name_pass (n # names) policy candidates =
     (let exact_policy = \<lparr>tp_names = [n], tp_case_insensitive = False, tp_unit = tp_unit policy\<rparr>;
          folded_policy = \<lparr>tp_names = [n], tp_case_insensitive = True, tp_unit = tp_unit policy\<rparr> in
      case find_index (name_candidate exact_policy (tp_unit policy)) candidates of
        Some index \<Rightarrow> Some index
      | None \<Rightarrow>
          if \<not> tp_case_insensitive policy then name_pass names policy candidates
          else (case find_index (name_candidate folded_policy (tp_unit policy)) candidates of
            Some index \<Rightarrow> Some index
          | None \<Rightarrow> name_pass names policy candidates))"

definition detectTimestampColumn :: "TimestampCandidate list \<Rightarrow> TimestampPolicy \<Rightarrow> nat option" where
  "detectTimestampColumn candidates policy =
     (case find_index (\<lambda>c. \<not> tc_is_list_element c \<and> tc_kind c = kNativeTimestamp) candidates of
        Some index \<Rightarrow> Some index
      | None \<Rightarrow> name_pass (tp_names policy) policy candidates)"

subsection \<open>Detection is a search by preference\<close>

text \<open>
  The tests in the order of preference: native storage, then for every name the exact spelling before
  the folded one. The detected column is the first one that passes the first test anyone passes.
\<close>

definition exact_test :: "TimestampPolicy \<Rightarrow> string \<Rightarrow> TimestampCandidate \<Rightarrow> bool" where
  "exact_test policy n c \<longleftrightarrow> \<not> tc_is_list_element c
     \<and> timestampEligibility (tc_kind c) (tp_unit policy) = kEligible \<and> tc_name c = n"

definition folded_test :: "TimestampPolicy \<Rightarrow> string \<Rightarrow> TimestampCandidate \<Rightarrow> bool" where
  "folded_test policy n c \<longleftrightarrow> \<not> tc_is_list_element c
     \<and> timestampEligibility (tc_kind c) (tp_unit policy) = kEligible
     \<and> map foldTimestampAscii (tc_name c) = map foldTimestampAscii n"

definition preference_tests :: "TimestampPolicy \<Rightarrow> (TimestampCandidate \<Rightarrow> bool) list" where
  "preference_tests policy = (\<lambda>c. \<not> tc_is_list_element c \<and> tc_kind c = kNativeTimestamp) #
     concat (map (\<lambda>n. exact_test policy n # (if tp_case_insensitive policy then [folded_test policy n] else []))
       (tp_names policy))"

fun first_by_preference :: "('a \<Rightarrow> bool) list \<Rightarrow> 'a list \<Rightarrow> nat option" where
  "first_by_preference [] xs = None"
| "first_by_preference (P # Ps) xs = (case find_index P xs of Some i \<Rightarrow> Some i | None \<Rightarrow> first_by_preference Ps xs)"

lemma find_index_Some:
  "find_index P xs = Some i \<longleftrightarrow> i < length xs \<and> P (xs ! i) \<and> (\<forall>j < i. \<not> P (xs ! j))"
proof (induction xs arbitrary: i)
  case (Cons x xs)
  show ?case
    by (cases i) (auto simp: Cons.IH less_Suc_eq_0_disj nth_Cons split: nat.splits)
qed simp

lemma find_index_None: "find_index P xs = None \<longleftrightarrow> (\<forall>x \<in> set xs. \<not> P x)"
  by (induction xs) auto

lemma first_by_preference_Some:
  "first_by_preference Ps xs = Some i \<longleftrightarrow>
     (\<exists>k < length Ps. find_index (Ps ! k) xs = Some i \<and> (\<forall>k' < k. \<forall>x \<in> set xs. \<not> (Ps ! k') x))"
proof (induction Ps)
  case (Cons P Ps)
  show ?case
  proof (cases "find_index P xs")
    case None
    then have none: "\<forall>x \<in> set xs. \<not> P x" by (simp add: find_index_None)
    show ?thesis
    proof
      assume "first_by_preference (P # Ps) xs = Some i"
      then obtain k where "k < length Ps" "find_index (Ps ! k) xs = Some i" "\<forall>k' < k. \<forall>x \<in> set xs. \<not> (Ps ! k') x"
        using None Cons by auto
      then show "\<exists>k < length (P # Ps). find_index ((P # Ps) ! k) xs = Some i
          \<and> (\<forall>k' < k. \<forall>x \<in> set xs. \<not> ((P # Ps) ! k') x)"
        using none by (intro exI [of _ "Suc k"]) (auto simp: less_Suc_eq_0_disj)
    next
      assume "\<exists>k < length (P # Ps). find_index ((P # Ps) ! k) xs = Some i
          \<and> (\<forall>k' < k. \<forall>x \<in> set xs. \<not> ((P # Ps) ! k') x)"
      then obtain k where k: "k < length (P # Ps)" "find_index ((P # Ps) ! k) xs = Some i"
        "\<forall>k' < k. \<forall>x \<in> set xs. \<not> ((P # Ps) ! k') x" by blast
      with None obtain m where "k = Suc m" by (cases k) auto
      with k have "first_by_preference Ps xs = Some i"
        unfolding Cons.IH by (intro exI [of _ m]) force
      then show "first_by_preference (P # Ps) xs = Some i" using None by simp
    qed
  next
    case (Some j)
    then obtain x where "x \<in> set xs" "P x" by (metis find_index_Some nth_mem)
    with Some show ?thesis
      by (auto intro: exI [of _ 0]) (metis gr0I nth_Cons_0 option.inject)
  qed
qed simp

lemma folded_names: "timestampNamesEqualFolded a b \<longleftrightarrow> map foldTimestampAscii a = map foldTimestampAscii b"
  by (auto simp: timestampNamesEqualFolded_def list_all2_conv_all_nth list_eq_iff_nth_eq)

lemma name_candidate_tests:
  "name_candidate \<lparr>tp_names = [n], tp_case_insensitive = False, tp_unit = u\<rparr> (tp_unit policy) = exact_test policy n"
  "name_candidate \<lparr>tp_names = [n], tp_case_insensitive = True, tp_unit = u\<rparr> (tp_unit policy) = folded_test policy n"
  by (auto simp: fun_eq_iff name_candidate_def exact_test_def folded_test_def timestampNamePriority_def folded_names)

lemma detect_by_preference:
  "detectTimestampColumn candidates policy = first_by_preference (preference_tests policy) candidates"
proof -
  have "name_pass names policy candidates = first_by_preference
      (concat (map (\<lambda>n. exact_test policy n # (if tp_case_insensitive policy then [folded_test policy n] else []))
        names)) candidates" for names
    by (induction names) (auto simp: Let_def name_candidate_tests split: option.split)
  from this [of "tp_names policy"] show ?thesis
    by (simp add: detectTimestampColumn_def preference_tests_def split: option.split)
qed

lemma native_eligible: "timestampEligibility kNativeTimestamp unit = kEligible"
  by (simp add: timestampEligibility_def)

lemma preference_tests_eligible:
  assumes "P \<in> set (preference_tests policy)" "P c"
  shows "\<not> tc_is_list_element c \<and> timestampEligibility (tc_kind c) (tp_unit policy) = kEligible"
  using assms by (auto simp: preference_tests_def exact_test_def folded_test_def native_eligible split: if_splits)

text \<open>Which integer columns reach the horizon, written out.\<close>

lemma integer_eligibility:
  "timestampEligibility kind unit = kEligible \<longleftrightarrow>
     kind \<in> {kNativeTimestamp, kFloat64, kInt64, kUInt64}
     \<or> kind \<in> {kInt32, kUInt32} \<and> unit = kSeconds"
  by (cases kind; cases unit)
    (simp_all add: timestampEligibility_def nanosecondsPer_def kEligibleHorizonSeconds_def)

subsection \<open>Configuration values\<close>

text \<open>The accessors of the JSON library that the headers use beyond those of the claim catalog.\<close>

record 'j json_config = "'j json_api" +
  is_boolean :: "'j \<Rightarrow> bool"
  get_bool :: "'j \<Rightarrow> bool"
  json_set :: "'j \<Rightarrow> string \<Rightarrow> 'j \<Rightarrow> 'j"
  json_of_string :: "string \<Rightarrow> 'j"
  json_of_u32 :: "32 word \<Rightarrow> 'j"
  json_of_bool :: "bool \<Rightarrow> 'j"

definition kTimestampUnitKey :: string where "kTimestampUnitKey = ''timestamp_unit''"

definition timestampUnitFromJson :: "'j json_config \<Rightarrow> 'j \<Rightarrow> TimeUnit option" where
  "timestampUnitFromJson J obj = (case json_find J obj kTimestampUnitKey of
     None \<Rightarrow> Some kNanoseconds
   | Some v \<Rightarrow>
       if \<not> is_string J v then None
       else if get_string J v = ''ns'' then Some kNanoseconds
       else if get_string J v = ''us'' then Some kMicroseconds
       else if get_string J v = ''ms'' then Some kMilliseconds
       else if get_string J v = ''s'' then Some kSeconds
       else None)"

definition timestampUnitToJson :: "'j json_config \<Rightarrow> 'j \<Rightarrow> TimeUnit \<Rightarrow> 'j" where
  "timestampUnitToJson J obj unit = json_set J obj kTimestampUnitKey (json_of_string J (case unit of
     kNanoseconds \<Rightarrow> ''ns'' | kMicroseconds \<Rightarrow> ''us'' | kMilliseconds \<Rightarrow> ''ms'' | kSeconds \<Rightarrow> ''s''))"

datatype ArrayPolicy = kClamp | kSkip

record ArrayLimit =
  al_max_size :: "32 word"
  al_policy :: ArrayPolicy

definition default_ArrayLimit :: ArrayLimit where
  "default_ArrayLimit = \<lparr>al_max_size = 500, al_policy = kClamp\<rparr>"

definition clamp :: "ArrayLimit \<Rightarrow> bool" where
  "clamp limit \<longleftrightarrow> al_policy limit = kClamp"

definition kMaxArraySizeKey :: string where "kMaxArraySizeKey = ''max_array_size''"
definition kArrayPolicyKey :: string where "kArrayPolicyKey = ''array_policy''"

definition arrayLimitFromJson :: "'j json_config \<Rightarrow> 'j \<Rightarrow> ArrayLimit" where
  "arrayLimitFromJson J cfg =
     (if \<not> is_object J cfg then default_ArrayLimit
      else
        let limit = (case json_find J cfg kMaxArraySizeKey of
              None \<Rightarrow> default_ArrayLimit
            | Some it \<Rightarrow>
                if \<not> is_number_integer J it then default_ArrayLimit
                else let v = sint (get_i64 J it) in
                  if v \<ge> 0 \<and> v \<le> 4294967295 then default_ArrayLimit\<lparr>al_max_size := of_int v\<rparr>
                  else default_ArrayLimit);
            text_policy = Option.bind (json_find J cfg kArrayPolicyKey) (\<lambda>v. if is_string J v then Some v else None);
            discard = Option.bind (json_find J cfg ''discard_large_arrays'') (\<lambda>v. if is_boolean J v then Some v else None);
            clamped = Option.bind (json_find J cfg ''clamp_large_arrays'') (\<lambda>v. if is_boolean J v then Some v else None) in
        (case text_policy of
           Some v \<Rightarrow> limit\<lparr>al_policy := (if get_string J v = ''skip'' then kSkip else kClamp)\<rparr>
         | None \<Rightarrow> (case discard of
             Some v \<Rightarrow> limit\<lparr>al_policy := (if get_bool J v then kSkip else kClamp)\<rparr>
           | None \<Rightarrow> (case clamped of
               Some v \<Rightarrow> limit\<lparr>al_policy := (if get_bool J v then kClamp else kSkip)\<rparr>
             | None \<Rightarrow> limit))))"

definition arrayLimitToJson :: "'j json_config \<Rightarrow> 'j \<Rightarrow> ArrayLimit \<Rightarrow> 'j" where
  "arrayLimitToJson J cfg limit =
     json_set J (json_set J (json_set J (json_set J cfg
       kMaxArraySizeKey (json_of_u32 J (al_max_size limit)))
       kArrayPolicyKey (json_of_string J (if clamp limit then ''clamp'' else ''skip'')))
       ''clamp_large_arrays'' (json_of_bool J (clamp limit)))
       ''discard_large_arrays'' (json_of_bool J (\<not> clamp limit))"

text \<open>The documented behaviour of the library the round trips rely on: values and keys of an object.\<close>

definition json_objects :: "'j json_config \<Rightarrow> bool" where
  "json_objects J \<longleftrightarrow>
     (\<forall>obj k v k'. is_object J obj \<longrightarrow>
        is_object J (json_set J obj k v)
        \<and> json_find J (json_set J obj k v) k' = (if k' = k then Some v else json_find J obj k'))
     \<and> (\<forall>s. is_string J (json_of_string J s) \<and> get_string J (json_of_string J s) = s)
     \<and> (\<forall>n. is_number_integer J (json_of_u32 J n) \<and> get_i64 J (json_of_u32 J n) = ucast n)
     \<and> (\<forall>b. is_boolean J (json_of_bool J b) \<and> get_bool J (json_of_bool J b) = b)"

lemma timestampUnit_roundtrip:
  "json_objects J \<Longrightarrow> is_object J obj \<Longrightarrow> timestampUnitFromJson J (timestampUnitToJson J obj unit) = Some unit"
  by (cases unit) (simp_all add: json_objects_def timestampUnitFromJson_def timestampUnitToJson_def)

lemma sint_ucast_u32: "sint (ucast (n :: 32 word) :: 64 word) = uint n"
proof -
  have "uint n < 2 ^ 32" using uint_lt2p [of n] by simp
  moreover have "- (2 ^ 63) \<le> uint n"
    using uint_ge_0 [of n] by (rule order.trans [rotated]) simp
  ultimately have "signed_take_bit 63 (uint n) = uint n"
    by (intro signed_take_bit_int_eq_self) simp_all
  then show ?thesis
    using \<open>uint n < 2 ^ 32\<close> by (simp add: sint_uint unsigned_ucast_eq take_bit_int_eq_self)
qed

lemma arrayLimit_roundtrip:
  assumes "json_objects J" "is_object J cfg"
  shows "arrayLimitFromJson J (arrayLimitToJson J cfg limit) = limit"
proof -
  let ?cfg = "arrayLimitToJson J cfg limit"
  have find: "json_find J ?cfg kMaxArraySizeKey = Some (json_of_u32 J (al_max_size limit))"
    "json_find J ?cfg kArrayPolicyKey = Some (json_of_string J (if clamp limit then ''clamp'' else ''skip''))"
    "is_object J ?cfg"
    using assms by (simp_all add: arrayLimitToJson_def json_objects_def kMaxArraySizeKey_def kArrayPolicyKey_def)
  have num: "is_number_integer J (json_of_u32 J n)" "sint (get_i64 J (json_of_u32 J n)) = uint n" for n
    using assms(1) by (simp_all add: json_objects_def sint_ucast_u32)
  have str: "is_string J (json_of_string J s)" "get_string J (json_of_string J s) = s" for s
    using assms(1) by (simp_all add: json_objects_def)
  have "uint (al_max_size limit) \<le> 4294967295"
    using uint_lt2p [of "al_max_size limit"] by simp
  then have "arrayLimitFromJson J ?cfg = \<lparr>al_max_size = al_max_size limit, al_policy = al_policy limit\<rparr>"
    by (cases "al_policy limit")
      (simp_all add: arrayLimitFromJson_def find num str clamp_def Let_def default_ArrayLimit_def)
  then show ?thesis by simp
qed

subsection \<open>Object ingest policies\<close>

datatype ObjectIngestPolicy = kPureLazy | kLazyObjectsEagerScalars | kEager

record ObjectIngestPolicyResolver =
  ip_default :: ObjectIngestPolicy
  ip_by_type :: "u16 \<rightharpoonup> ObjectIngestPolicy"
  ip_by_source :: "string \<rightharpoonup> ObjectIngestPolicy"
  ip_by_topic :: "string \<rightharpoonup> ObjectIngestPolicy"

definition new_policy_resolver :: ObjectIngestPolicyResolver where
  "new_policy_resolver = \<lparr>ip_default = kLazyObjectsEagerScalars, ip_by_type = Map.empty, ip_by_source = Map.empty,
     ip_by_topic = Map.empty\<rparr>"

definition setDefault :: "ObjectIngestPolicy \<Rightarrow> ObjectIngestPolicyResolver \<Rightarrow> ObjectIngestPolicyResolver" where
  "setDefault p R = R\<lparr>ip_default := p\<rparr>"

definition setForType :: "u16 \<Rightarrow> ObjectIngestPolicy \<Rightarrow> ObjectIngestPolicyResolver \<Rightarrow> ObjectIngestPolicyResolver" where
  "setForType t p R = R\<lparr>ip_by_type := (ip_by_type R)(t \<mapsto> p)\<rparr>"

definition setForDataSource :: "string \<Rightarrow> ObjectIngestPolicy \<Rightarrow> ObjectIngestPolicyResolver \<Rightarrow> ObjectIngestPolicyResolver" where
  "setForDataSource s p R = R\<lparr>ip_by_source := (ip_by_source R)(s \<mapsto> p)\<rparr>"

definition setForTopic :: "string \<Rightarrow> ObjectIngestPolicy \<Rightarrow> ObjectIngestPolicyResolver \<Rightarrow> ObjectIngestPolicyResolver" where
  "setForTopic s p R = R\<lparr>ip_by_topic := (ip_by_topic R)(s \<mapsto> p)\<rparr>"

definition resolve_policy :: "ObjectIngestPolicyResolver \<Rightarrow> string \<Rightarrow> string \<Rightarrow> u16 \<Rightarrow> ObjectIngestPolicy" where
  "resolve_policy R source_id topic_name object_type = (case ip_by_topic R topic_name of
     Some p \<Rightarrow> p
   | None \<Rightarrow> (case ip_by_source R source_id of
       Some p \<Rightarrow> p
     | None \<Rightarrow> (case ip_by_type R object_type of Some p \<Rightarrow> p | None \<Rightarrow> ip_default R)))"

text \<open>A topic override decides for its topic, and a source override changes nothing where a topic has one.\<close>

lemma topic_override: "resolve_policy (setForTopic topic p R) s topic t = p"
  "other \<noteq> topic \<Longrightarrow> resolve_policy (setForTopic topic p R) s other t = resolve_policy R s other t"
  by (auto simp: resolve_policy_def setForTopic_def split: option.split)

lemma source_below_topic:
  "ip_by_topic R topic = Some q \<Longrightarrow> resolve_policy (setForDataSource src p R) s topic t = q"
  by (simp add: resolve_policy_def setForDataSource_def)

end
