(* ===== verification/ModuleAbi.thy ===== *)
theory ModuleAbi
  imports CdrReader Wire "HOL-Library.Monad_Syntax" "HOL-Library.Sublist"
begin

section \<open>The blocks exchanged with a parser module (\<open>parser_module_abi.cpp\<close>, \<open>parser_module_abi.h\<close>)\<close>

text \<open>
  The host-side codecs of the three little-endian blocks of the frozen parser-module interface:
  the binding information a host passes to \<open>bind\<close>, the framing of one message it passes to
  \<open>parse\<close>, and the output descriptor a module returns. A view is the bytes it shows; a writer
  appends to its block, so a sequence of calls is a concatenation; a reader is the bytes behind
  its cursor, and a reading method that returns \<open>false\<close> is None. Then the lemmas: what a writer
  accepts is read back exactly, and whatever a reader accepts shows only bytes of the block.
\<close>

subsection \<open>Records\<close>

text \<open>\<open>enum class Route : uint8_t\<close>: its two enumerators among the values of the underlying type.\<close>

type_synonym Route = u8

definition kScalar :: Route where "kScalar = 1"
definition kObject :: Route where "kObject = 2"

record BindingInfoV1 =
  bi_route :: Route
  bi_claim_index :: u32
  bi_expected_object_type :: u16
  bi_encoding :: bytes
  bi_type_name :: bytes
  bi_schema :: bytes
  bi_claim_id :: bytes
  bi_config_json :: bytes
  bi_schema_digest :: bytes

record ParseInputV1 =
  pin_has_timestamp :: bool
  pin_timestamp_ns :: Timestamp
  pin_payload :: bytes

record ObjectSpliceV1 =
  sp_field_number :: u32
  sp_input_offset :: u64
  sp_input_length :: u64

record ObjectOutputV1 =
  oo_object_type :: u16
  oo_splice :: "ObjectSpliceV1 option"
  oo_wire :: bytes

datatype ScalarValueV1 = SvF64 f64 | SvI64 u64 | SvU64 u64 | SvBool bool | SvString bytes

record ScalarFieldV1 =
  scf_name :: bytes
  scf_value :: ScalarValueV1

record ScalarOutputV1 =
  so_has_timestamp :: bool
  so_timestamp_ns :: Timestamp
  so_fields :: "ScalarFieldV1 list"

datatype OutputDescriptorV1 = ObjectOutput ObjectOutputV1 | ScalarOutput ScalarOutputV1

subsection \<open>Limits and checks\<close>

definition kBindingHeaderSize :: nat where "kBindingHeaderSize = 16"
definition kBindingFieldCountV1 :: nat where "kBindingFieldCountV1 = 6"
definition kBindingFieldDescriptorSize :: nat where "kBindingFieldDescriptorSize = 8"
definition kParseInputHeaderSize :: nat where "kParseInputHeaderSize = 24"
definition kObjectOutputFixedSize :: nat where "kObjectOutputFixedSize = 36"
definition kScalarOutputFixedSize :: nat where "kScalarOutputFixedSize = 24"
definition kScalarFieldPrefixSize :: nat where "kScalarFieldPrefixSize = 9"

definition uint32_max :: nat where "uint32_max = 0xFFFFFFFF"
definition size_max :: nat where "size_max = 0xFFFFFFFFFFFFFFFF"

definition malformed :: "string \<Rightarrow> string + 'a" where
  "malformed message = Inl (''malformed parser module block: '' @ message)"

definition checkedAdd :: "nat \<Rightarrow> nat \<Rightarrow> nat option" where
  "checkedAdd lhs rhs = (if rhs > size_max - lhs then None else Some (lhs + rhs))"

definition validRoute :: "u16 \<Rightarrow> bool" where
  "validRoute route \<longleftrightarrow> route = ucast kScalar \<or> route = ucast kObject"

definition subspan :: "bytes \<Rightarrow> nat \<Rightarrow> nat \<Rightarrow> bytes" where
  "subspan bs offset n = take n (drop offset bs)"

subsection \<open>\<open>ByteWriter\<close> and \<open>ByteReader\<close>\<close>

definition bw_littleEndian :: "nat \<Rightarrow> u64 \<Rightarrow> bytes" where
  "bw_littleEndian width value = map (\<lambda>i. ucast (drop_bit (8 * i) value AND 0xFF)) [0..<width]"

definition bw_u8 :: "u8 \<Rightarrow> bytes" where "bw_u8 value = [value]"
definition bw_u16 :: "u16 \<Rightarrow> bytes" where "bw_u16 value = bw_littleEndian 2 (ucast value)"
definition bw_u32 :: "u32 \<Rightarrow> bytes" where "bw_u32 value = bw_littleEndian 4 (ucast value)"
definition bw_u64 :: "u64 \<Rightarrow> bytes" where "bw_u64 value = bw_littleEndian 8 value"
definition bw_i64 :: "u64 \<Rightarrow> bytes" where "bw_i64 value = bw_u64 value"
definition bw_f64 :: "f64 \<Rightarrow> bytes" where "bw_f64 value = bw_u64 value"
definition bw_zeros :: "nat \<Rightarrow> bytes" where "bw_zeros count = replicate count 0"

type_synonym byte_reader = bytes

definition br_littleEndian :: "nat \<Rightarrow> byte_reader \<Rightarrow> (u64 \<times> byte_reader) option" where
  "br_littleEndian width r =
     (if length r < width then None else Some (le_loop (take width r) 0 0, drop width r))"

definition br_u8 :: "byte_reader \<Rightarrow> (u8 \<times> byte_reader) option" where
  "br_u8 r = (case r of [] \<Rightarrow> None | b # r \<Rightarrow> Some (b, r))"
definition br_u16 :: "byte_reader \<Rightarrow> (u16 \<times> byte_reader) option" where
  "br_u16 r = do { (v, r) \<leftarrow> br_littleEndian 2 r; Some (ucast v, r) }"
definition br_u32 :: "byte_reader \<Rightarrow> (u32 \<times> byte_reader) option" where
  "br_u32 r = do { (v, r) \<leftarrow> br_littleEndian 4 r; Some (ucast v, r) }"
definition br_u64 :: "byte_reader \<Rightarrow> (u64 \<times> byte_reader) option" where
  "br_u64 r = br_littleEndian 8 r"
definition br_i64 :: "byte_reader \<Rightarrow> (u64 \<times> byte_reader) option" where
  "br_i64 r = br_u64 r"
definition br_f64 :: "byte_reader \<Rightarrow> (f64 \<times> byte_reader) option" where
  "br_f64 r = br_u64 r"
definition br_skip :: "nat \<Rightarrow> byte_reader \<Rightarrow> byte_reader option" where
  "br_skip count r = (if count > length r then None else Some (drop count r))"
definition br_take :: "nat \<Rightarrow> byte_reader \<Rightarrow> (bytes \<times> byte_reader) option" where
  "br_take count r = (if count > length r then None else Some (take count r, drop count r))"

subsection \<open>Binding information\<close>

definition binding_spans :: "BindingInfoV1 \<Rightarrow> bytes list" where
  "binding_spans info = [bi_encoding info, bi_type_name info, bi_schema info, bi_claim_id info,
     bi_config_json info, bi_schema_digest info]"

text \<open>The loop that gives every field its offset and adds up the size of the block.\<close>

fun binding_offsets :: "bytes list \<Rightarrow> nat \<Rightarrow> string + u32 list \<times> nat" where
  "binding_offsets [] total_size = Inr ([], total_size)"
| "binding_offsets (f # fs) total_size =
     refuse (length f > uint32_max \<or> total_size > uint32_max)
       ''BindingInfo v1 field exceeds the uint32 offset/length limit''
       (case checkedAdd total_size (length f) of
          None \<Rightarrow> Inl ''BindingInfo v1 size overflows the host size type''
        | Some next_size \<Rightarrow>
            bindE (binding_offsets fs next_size) (\<lambda>(offsets, final). Inr (of_nat total_size # offsets, final)))"

definition writeBindingInfoV1 :: "BindingInfoV1 \<Rightarrow> string + bytes" where
  "writeBindingInfoV1 info = (let route = ucast (bi_route info) in
     refuse (\<not> validRoute route) ''BindingInfo v1 route must be scalar or object''
     (bindE (binding_offsets (binding_spans info)
              (kBindingHeaderSize + kBindingFieldCountV1 * kBindingFieldDescriptorSize)) (\<lambda>(offsets, total_size).
      refuse (total_size > uint32_max) ''BindingInfo v1 block exceeds the uint32 offset range''
      (Inr (bw_u16 1 @ bw_u16 route @ bw_u32 (bi_claim_index info) @ bw_u16 (bi_expected_object_type info)
        @ bw_u16 0 @ bw_u32 (of_nat kBindingFieldCountV1)
        @ concat (map2 (\<lambda>offset f. bw_u32 offset @ bw_u32 (of_nat (length f))) offsets (binding_spans info))
        @ concat (binding_spans info))))))"

definition readBindingHeader :: "byte_reader \<Rightarrow> (u16 \<times> u16 \<times> u32 \<times> u16 \<times> u32 \<times> byte_reader) option" where
  "readBindingHeader r = do {
     (version, r) \<leftarrow> br_u16 r;
     (route, r) \<leftarrow> br_u16 r;
     (claim_index, r) \<leftarrow> br_u32 r;
     (expected_object_type, r) \<leftarrow> br_u16 r;
     r \<leftarrow> br_skip 2 r;
     (field_count, r) \<leftarrow> br_u32 r;
     Some (version, route, claim_index, expected_object_type, field_count, r) }"

definition readBindingDescriptor :: "byte_reader \<Rightarrow> (u32 \<times> u32 \<times> byte_reader) option" where
  "readBindingDescriptor r = do {
     (offset, r) \<leftarrow> br_u32 r;
     (len, r) \<leftarrow> br_u32 r;
     Some (offset, len, r) }"

text \<open>The loop over the field table: the descriptors that are left, the index and the array of views.\<close>

fun binding_fields_loop :: "bytes \<Rightarrow> nat \<Rightarrow> nat \<Rightarrow> bytes list \<Rightarrow> byte_reader \<Rightarrow> string + bytes list" where
  "binding_fields_loop block 0 index spans r = Inr spans"
| "binding_fields_loop block (Suc count) index spans r = (case readBindingDescriptor r of
     None \<Rightarrow> malformed ''truncated BindingInfo field descriptor''
   | Some (offset, len, r) \<Rightarrow>
       if unat offset > length block \<or> unat len > length block - unat offset
       then malformed ''BindingInfo field range is outside the block''
       else binding_fields_loop block count (index + 1)
         (if index < kBindingFieldCountV1 then spans[index := subspan block (unat offset) (unat len)] else spans) r)"

definition binding_of_spans :: "u16 \<Rightarrow> u32 \<Rightarrow> u16 \<Rightarrow> bytes list \<Rightarrow> BindingInfoV1" where
  "binding_of_spans route claim_index expected spans =
     \<lparr>bi_route = ucast route, bi_claim_index = claim_index, bi_expected_object_type = expected,
      bi_encoding = spans ! 0, bi_type_name = spans ! 1, bi_schema = spans ! 2, bi_claim_id = spans ! 3,
      bi_config_json = spans ! 4, bi_schema_digest = spans ! 5\<rparr>"

definition readBindingInfoV1 :: "bytes \<Rightarrow> string + BindingInfoV1" where
  "readBindingInfoV1 block = (case readBindingHeader block of
     None \<Rightarrow> malformed ''truncated BindingInfo v1 header''
   | Some (version, route, claim_index, expected, field_count, r) \<Rightarrow>
       if version \<noteq> 1 then malformed ''unsupported BindingInfo version''
       else if \<not> validRoute route then malformed ''invalid BindingInfo route''
       else if unat field_count < kBindingFieldCountV1 then malformed ''BindingInfo v1 has fewer than six fields''
       else if unat field_count > length r div kBindingFieldDescriptorSize
       then malformed ''truncated BindingInfo field table''
       else bindE (binding_fields_loop block (unat field_count) 0 (replicate kBindingFieldCountV1 []) r)
              (\<lambda>spans. Inr (binding_of_spans route claim_index expected spans)))"

subsection \<open>Parse input\<close>

definition writeParseInputV1 :: "ParseInputV1 \<Rightarrow> string + bytes" where
  "writeParseInputV1 input = (case checkedAdd kParseInputHeaderSize (length (pin_payload input)) of
     None \<Rightarrow> Inl ''parse-input v1 size overflows the host size type''
   | Some _ \<Rightarrow> Inr (bw_u8 (if pin_has_timestamp input then 1 else 0) @ bw_zeros 7 @ bw_i64 (pin_timestamp_ns input)
       @ bw_u64 (of_nat (length (pin_payload input))) @ pin_payload input))"

definition readParseInputHeader :: "byte_reader \<Rightarrow> (u8 \<times> Timestamp \<times> u64 \<times> byte_reader) option" where
  "readParseInputHeader r = do {
     (flags, r) \<leftarrow> br_u8 r;
     r \<leftarrow> br_skip 7 r;
     (timestamp_ns, r) \<leftarrow> br_i64 r;
     (payload_length, r) \<leftarrow> br_u64 r;
     Some (flags, timestamp_ns, payload_length, r) }"

definition readParseInputV1 :: "bytes \<Rightarrow> string + ParseInputV1" where
  "readParseInputV1 block = (case readParseInputHeader block of
     None \<Rightarrow> malformed ''truncated parse-input v1 header''
   | Some (flags, timestamp_ns, payload_length, r) \<Rightarrow>
       if flags AND 0xFE \<noteq> 0 then malformed ''parse-input v1 has unknown flag bits''
       else if unat payload_length \<noteq> length r
       then malformed ''parse-input payload length does not match the block''
       else (case br_take (unat payload_length) r of
          None \<Rightarrow> malformed ''truncated parse-input payload''
        | Some (payload, r) \<Rightarrow> Inr \<lparr>pin_has_timestamp = (flags AND 1 \<noteq> 0), pin_timestamp_ns = timestamp_ns,
            pin_payload = payload\<rparr>))"

subsection \<open>Output descriptors\<close>

definition scalarValueSize :: "ScalarValueV1 \<Rightarrow> string + nat" where
  "scalarValueSize v = (case v of SvF64 _ \<Rightarrow> Inr 8 | SvI64 _ \<Rightarrow> Inr 8 | SvU64 _ \<Rightarrow> Inr 8 | SvBool _ \<Rightarrow> Inr 1
     | SvString s \<Rightarrow>
         refuse (length s > uint32_max) ''scalar string exceeds the v1 uint32 length limit''
         (case checkedAdd 4 (length s) of
            None \<Rightarrow> Inl ''scalar string size overflows the host size type''
          | Some n \<Rightarrow> Inr n))"

definition writeObjectOutputV1 :: "ObjectOutputV1 \<Rightarrow> string + bytes" where
  "writeObjectOutputV1 object = (case checkedAdd kObjectOutputFixedSize (length (oo_wire object)) of
     None \<Rightarrow> Inl ''object output v1 size overflows the host size type''
   | Some _ \<Rightarrow> Inr (bw_u16 1 @ bw_u8 kObject @ bw_u8 0 @ bw_u16 (oo_object_type object)
       @ bw_u16 (if oo_splice object \<noteq> None then 1 else 0)
       @ bw_u32 (case oo_splice object of Some sp \<Rightarrow> sp_field_number sp | None \<Rightarrow> 0)
       @ bw_u64 (case oo_splice object of Some sp \<Rightarrow> sp_input_offset sp | None \<Rightarrow> 0)
       @ bw_u64 (case oo_splice object of Some sp \<Rightarrow> sp_input_length sp | None \<Rightarrow> 0)
       @ bw_u64 (of_nat (length (oo_wire object))) @ oo_wire object))"

text \<open>The loop that adds up the end of the values.\<close>

fun scalar_values_end :: "ScalarFieldV1 list \<Rightarrow> nat \<Rightarrow> string + nat" where
  "scalar_values_end [] values_end = Inr values_end"
| "scalar_values_end (f # fs) values_end = bindE (scalarValueSize (scf_value f)) (\<lambda>value_size.
     if length (scf_name f) > uint32_max then Inl ''scalar output v1 field size exceeds its encoded range''
     else (case checkedAdd values_end kScalarFieldPrefixSize of
        None \<Rightarrow> Inl ''scalar output v1 field size exceeds its encoded range''
      | Some with_prefix \<Rightarrow> (case checkedAdd with_prefix value_size of
          None \<Rightarrow> Inl ''scalar output v1 field size exceeds its encoded range''
        | Some next_end \<Rightarrow> scalar_values_end fs next_end)))"

text \<open>The loop that places the names behind the values.\<close>

fun scalar_name_offsets :: "ScalarFieldV1 list \<Rightarrow> nat \<Rightarrow> string + u32 list" where
  "scalar_name_offsets [] total_size = Inr []"
| "scalar_name_offsets (f # fs) total_size =
     refuse (total_size > uint32_max) ''scalar output v1 name offset exceeds uint32''
     (case checkedAdd total_size (length (scf_name f)) of
        None \<Rightarrow> Inl ''scalar output v1 block exceeds the uint32 name-offset range''
      | Some next_size \<Rightarrow>
          refuse (next_size > uint32_max) ''scalar output v1 block exceeds the uint32 name-offset range''
          (bindE (scalar_name_offsets fs next_size) (\<lambda>offsets. Inr (of_nat total_size # offsets))))"

definition writeScalarValue :: "ScalarValueV1 \<Rightarrow> bytes" where
  "writeScalarValue v = (case v of
     SvF64 d \<Rightarrow> bw_u8 0 @ bw_f64 d
   | SvI64 i \<Rightarrow> bw_u8 1 @ bw_i64 i
   | SvU64 u \<Rightarrow> bw_u8 2 @ bw_u64 u
   | SvBool b \<Rightarrow> bw_u8 3 @ bw_u8 (if b then 1 else 0)
   | SvString s \<Rightarrow> bw_u8 4 @ bw_u32 (of_nat (length s)) @ s)"

definition writeScalarField :: "u32 \<Rightarrow> ScalarFieldV1 \<Rightarrow> bytes" where
  "writeScalarField name_offset f =
     bw_u32 name_offset @ bw_u32 (of_nat (length (scf_name f))) @ writeScalarValue (scf_value f)"

definition writeScalarOutputV1 :: "ScalarOutputV1 \<Rightarrow> string + bytes" where
  "writeScalarOutputV1 scalar =
     refuse (length (so_fields scalar) > uint32_max) ''scalar output v1 has too many fields''
     (bindE (scalar_values_end (so_fields scalar) kScalarOutputFixedSize) (\<lambda>values_end.
      bindE (scalar_name_offsets (so_fields scalar) values_end) (\<lambda>name_offsets.
      Inr (bw_u16 1 @ bw_u8 kScalar @ bw_u8 0 @ bw_u8 (if so_has_timestamp scalar then 1 else 0)
        @ bw_zeros 7 @ bw_i64 (so_timestamp_ns scalar) @ bw_u32 (of_nat (length (so_fields scalar)))
        @ concat (map2 writeScalarField name_offsets (so_fields scalar))
        @ concat (map scf_name (so_fields scalar))))))"

definition writeOutputDescriptorV1 :: "OutputDescriptorV1 \<Rightarrow> string + bytes" where
  "writeOutputDescriptorV1 output = (case output of
     ObjectOutput object \<Rightarrow> writeObjectOutputV1 object
   | ScalarOutput scalar \<Rightarrow> writeScalarOutputV1 scalar)"

definition readOutputHeader :: "byte_reader \<Rightarrow> (u16 \<times> u8 \<times> byte_reader) option" where
  "readOutputHeader r = do {
     (version, r) \<leftarrow> br_u16 r;
     (route, r) \<leftarrow> br_u8 r;
     r \<leftarrow> br_skip 1 r;
     Some (version, route, r) }"

definition readObjectHeader :: "byte_reader \<Rightarrow> (u16 \<times> u16 \<times> u32 \<times> u64 \<times> u64 \<times> u64 \<times> byte_reader) option" where
  "readObjectHeader r = do {
     (object_type, r) \<leftarrow> br_u16 r;
     (splice_count, r) \<leftarrow> br_u16 r;
     (field_number, r) \<leftarrow> br_u32 r;
     (input_offset, r) \<leftarrow> br_u64 r;
     (input_length, r) \<leftarrow> br_u64 r;
     (wire_length, r) \<leftarrow> br_u64 r;
     Some (object_type, splice_count, field_number, input_offset, input_length, wire_length, r) }"

definition readObjectOutputV1 :: "byte_reader \<Rightarrow> string + OutputDescriptorV1" where
  "readObjectOutputV1 r = (case readObjectHeader r of
     None \<Rightarrow> malformed ''truncated object output descriptor''
   | Some (object_type, splice_count, field_number, input_offset, input_length, wire_length, r) \<Rightarrow>
       if splice_count > 1 then malformed ''object output splice_count is not 0 or 1''
       else if unat wire_length \<noteq> length r
       then malformed ''object output wire length does not match the block''
       else (case br_take (unat wire_length) r of
          None \<Rightarrow> malformed ''truncated object output wire bytes''
        | Some (wire, r) \<Rightarrow> Inr (ObjectOutput \<lparr>oo_object_type = object_type,
            oo_splice = (if splice_count = 1
              then Some \<lparr>sp_field_number = field_number, sp_input_offset = input_offset,
                         sp_input_length = input_length\<rparr> else None),
            oo_wire = wire\<rparr>)))"

definition readScalarHeader :: "byte_reader \<Rightarrow> (u8 \<times> Timestamp \<times> u32 \<times> byte_reader) option" where
  "readScalarHeader r = do {
     (has_timestamp, r) \<leftarrow> br_u8 r;
     r \<leftarrow> br_skip 7 r;
     (timestamp_ns, r) \<leftarrow> br_i64 r;
     (field_count, r) \<leftarrow> br_u32 r;
     Some (has_timestamp, timestamp_ns, field_count, r) }"

definition readScalarPrefix :: "byte_reader \<Rightarrow> (u32 \<times> u32 \<times> u8 \<times> byte_reader) option" where
  "readScalarPrefix r = do {
     (name_offset, r) \<leftarrow> br_u32 r;
     (name_length, r) \<leftarrow> br_u32 r;
     (value_kind, r) \<leftarrow> br_u8 r;
     Some (name_offset, name_length, value_kind, r) }"

definition readScalarString :: "byte_reader \<Rightarrow> (bytes \<times> byte_reader) option" where
  "readScalarString r = do { (len, r) \<leftarrow> br_u32 r; br_take (unat len) r }"

text \<open>The switch over the value kind.\<close>

definition readScalarValue :: "u8 \<Rightarrow> byte_reader \<Rightarrow> string + ScalarValueV1 \<times> byte_reader" where
  "readScalarValue kind r =
     (if kind = 0 then (case br_f64 r of None \<Rightarrow> malformed ''truncated scalar float64 value''
        | Some (v, r) \<Rightarrow> Inr (SvF64 v, r))
      else if kind = 1 then (case br_i64 r of None \<Rightarrow> malformed ''truncated scalar int64 value''
        | Some (v, r) \<Rightarrow> Inr (SvI64 v, r))
      else if kind = 2 then (case br_u64 r of None \<Rightarrow> malformed ''truncated scalar uint64 value''
        | Some (v, r) \<Rightarrow> Inr (SvU64 v, r))
      else if kind = 3 then (case br_u8 r of None \<Rightarrow> malformed ''invalid scalar bool value''
        | Some (v, r) \<Rightarrow> if v > 1 then malformed ''invalid scalar bool value'' else Inr (SvBool (v \<noteq> 0), r))
      else if kind = 4 then
        (case readScalarString r of
           None \<Rightarrow> malformed ''truncated scalar string value''
         | Some (s, r) \<Rightarrow> Inr (SvString s, r))
      else malformed ''unknown scalar value kind'')"

text \<open>\<open>DecodedField\<close>: the offset and the length of the name, and the value.\<close>

fun scalar_fields_loop :: "nat \<Rightarrow> byte_reader \<Rightarrow> string + (u32 \<times> u32 \<times> ScalarValueV1) list" where
  "scalar_fields_loop 0 r = Inr []"
| "scalar_fields_loop (Suc count) r = (case readScalarPrefix r of
     None \<Rightarrow> malformed ''truncated scalar field descriptor''
   | Some (name_offset, name_length, value_kind, r) \<Rightarrow>
       bindE (readScalarValue value_kind r) (\<lambda>(v, r).
       bindE (scalar_fields_loop count r) (\<lambda>decoded. Inr ((name_offset, name_length, v) # decoded))))"

fun scalar_names_loop :: "bytes \<Rightarrow> (u32 \<times> u32 \<times> ScalarValueV1) list \<Rightarrow> string + ScalarFieldV1 list" where
  "scalar_names_loop block [] = Inr []"
| "scalar_names_loop block ((name_offset, name_length, v) # decoded) =
     (if unat name_offset > length block \<or> unat name_length > length block - unat name_offset
      then malformed ''scalar field name range is outside the block''
      else bindE (scalar_names_loop block decoded) (\<lambda>rest.
        Inr (\<lparr>scf_name = subspan block (unat name_offset) (unat name_length), scf_value = v\<rparr> # rest)))"

definition readScalarOutputV1 :: "bytes \<Rightarrow> byte_reader \<Rightarrow> string + OutputDescriptorV1" where
  "readScalarOutputV1 block r = (case readScalarHeader r of
     None \<Rightarrow> malformed ''truncated scalar output descriptor''
   | Some (has_timestamp, timestamp_ns, field_count, r) \<Rightarrow>
       if has_timestamp > 1 then malformed ''scalar output has_timestamp is not 0 or 1''
       else if unat field_count > length r div (kScalarFieldPrefixSize + 1)
       then malformed ''scalar output field count exceeds the block''
       else bindE (scalar_fields_loop (unat field_count) r) (\<lambda>decoded.
         bindE (scalar_names_loop block decoded) (\<lambda>fs.
         Inr (ScalarOutput \<lparr>so_has_timestamp = (has_timestamp \<noteq> 0), so_timestamp_ns = timestamp_ns,
           so_fields = fs\<rparr>))))"

definition readOutputDescriptorV1 :: "bytes \<Rightarrow> string + OutputDescriptorV1" where
  "readOutputDescriptorV1 block = (case readOutputHeader block of
     None \<Rightarrow> malformed ''truncated output descriptor header''
   | Some (version, route, r) \<Rightarrow>
       if version \<noteq> 1 then malformed ''unsupported output descriptor version''
       else if route = kObject then readObjectOutputV1 r
       else if route \<noteq> kScalar then malformed ''invalid output descriptor route''
       else readScalarOutputV1 block r)"


subsection \<open>Reading what was written\<close>

named_theorems abi_read "the readers on the bytes the writers append"

lemma ucast_and_FF: "ucast (v AND 0xFF :: u64) = (ucast v :: u8)"
  by (rule bit_word_eqI) (auto simp: bit_simps and_FF)

lemma bw_littleEndian_uint_bytes: "bw_littleEndian n v = uint_bytes True n v"
  by (simp add: bw_littleEndian_def uint_bytes_def ucast_and_FF)

lemma length_bw [simp]: "length (bw_u8 a) = 1" "length (bw_u16 b) = 2" "length (bw_u32 d) = 4"
  "length (bw_u64 e) = 8" "length (bw_i64 e) = 8" "length (bw_f64 e) = 8" "length (bw_zeros n) = n"
  by (simp_all add: bw_u8_def bw_u16_def bw_u32_def bw_u64_def bw_i64_def bw_f64_def bw_zeros_def
      bw_littleEndian_uint_bytes)

lemma br_littleEndian_bw:
  assumes "n \<le> 8"
  shows "br_littleEndian n (bw_littleEndian n v @ r) = Some (take_bit (8 * n) v, r)"
  using bytes_value_uint_bytes [OF assms, of True v]
  by (simp add: br_littleEndian_def bw_littleEndian_uint_bytes bytes_value_def)

lemma br_bw [simp, abi_read]:
  "br_u8 (bw_u8 a @ r) = Some (a, r)" "br_u16 (bw_u16 b @ r) = Some (b, r)"
  "br_u32 (bw_u32 d @ r) = Some (d, r)" "br_u64 (bw_u64 e @ r) = Some (e, r)"
  "br_i64 (bw_i64 e @ r) = Some (e, r)" "br_f64 (bw_f64 e @ r) = Some (e, r)"
  "br_skip n (bw_zeros n @ r) = Some r"
  by (simp_all add: br_u8_def bw_u8_def br_u16_def bw_u16_def br_u32_def bw_u32_def br_u64_def bw_u64_def
      br_i64_def bw_i64_def br_f64_def bw_f64_def br_skip_def br_littleEndian_bw take_bit_ucast ucast_ucast_u64
      take_bit_word_eq_self bw_zeros_def)

lemma br_skip_bw [simp, abi_read]: "br_skip 2 (bw_u16 b @ r) = Some r" "br_skip (Suc 0) (bw_u8 a @ r) = Some r"
  by (simp_all add: br_skip_def)

lemma br_take_append [simp, abi_read]: "br_take (length xs) (xs @ r) = Some (xs, r)" "br_take (length xs) xs = Some (xs, [])"
  by (simp_all add: br_take_def)

lemma ucast_route [simp]: "ucast (ucast (route :: u8) :: u16) = route"
  by (rule bit_word_eqI) (auto simp: bit_ucast_iff)

lemma subspan_append [simp]: "n = length f \<Longrightarrow> subspan (pre @ f @ post) (length pre) n = f"
  by (simp add: subspan_def)

lemma sublist_subspan [simp]: "sublist (subspan bs o' n) bs"
  by (metis subspan_def sublist_take sublist_drop sublist_order.order_trans)

lemma unat_of_nat_u32 [simp]: "n \<le> uint32_max \<Longrightarrow> unat (of_nat n :: u32) = n"
  by (simp add: uint32_max_def unat_of_nat take_bit_nat_eq_self)

lemma unat_of_nat_u64 [simp]: "n \<le> size_max \<Longrightarrow> unat (of_nat n :: u64) = n"
  by (simp add: size_max_def unat_of_nat take_bit_nat_eq_self)

lemma ucast_of_nat_u32 [simp]: "ucast (of_nat n :: u64) = (of_nat n :: u32)"
  by (rule bit_word_eqI) (simp add: bit_simps)

lemma checkedAdd_eq_Some: "lhs \<le> size_max \<Longrightarrow> checkedAdd lhs rhs = Some n \<longleftrightarrow> n = lhs + rhs \<and> n \<le> size_max"
  by (auto simp: checkedAdd_def)

subsubsection \<open>Binding information\<close>

lemma binding_offsets_length: "binding_offsets fs n = Inr (offsets, final) \<Longrightarrow> length offsets = length fs"
  by (induction fs arbitrary: n offsets) (auto simp: refuse_eq_Inr bindE_eq_Inr split: option.splits)

lemma binding_offsets_final:
  "binding_offsets fs n = Inr (offsets, final) \<Longrightarrow> final = n + length (concat fs)"
proof (induction fs arbitrary: n offsets)
  case (Cons f fs)
  then obtain rest where "binding_offsets fs (n + length f) = Inr (rest, final)"
    by (auto simp: refuse_eq_Inr bindE_eq_Inr checkedAdd_def split: option.splits if_splits)
  from Cons.IH [OF this] show ?case by simp
qed simp

lemma binding_offsets_total:
  assumes "n + length (concat fs) \<le> uint32_max"
  shows "\<exists>offsets. binding_offsets fs n = Inr (offsets, n + length (concat fs))"
  using assms
proof (induction fs arbitrary: n)
  case (Cons f fs)
  from Cons.IH [of "n + length f"] Cons.prems obtain offsets
    where "binding_offsets fs (n + length f) = Inr (offsets, n + length f + length (concat fs))"
    by (auto simp: add.assoc)
  with Cons.prems show ?case
    by (auto simp: refuse_def checkedAdd_def size_max_def uint32_max_def)
qed simp

lemma binding_fields_loop_written:
  assumes "binding_offsets fs (length pre) = Inr (offsets, final)" "index + length fs \<le> kBindingFieldCountV1"
    and "length spans = kBindingFieldCountV1"
  shows "binding_fields_loop (pre @ concat fs @ post) (length fs) index spans
     (concat (map2 (\<lambda>offset f. bw_u32 offset @ bw_u32 (of_nat (length f))) offsets fs) @ r)
     = Inr (take index spans @ fs @ drop (index + length fs) spans)"
  using assms
proof (induction fs arbitrary: pre index offsets spans)
  case (Cons f fs)
  from Cons.prems(1) obtain rest where rest: "offsets = of_nat (length pre) # rest"
      "length f \<le> uint32_max" "length pre \<le> uint32_max"
      "binding_offsets fs (length (pre @ f)) = Inr (rest, final)"
    by (auto simp: refuse_eq_Inr bindE_eq_Inr checkedAdd_def split: option.splits if_splits)
  have "binding_fields_loop ((pre @ f) @ concat fs @ post) (length fs) (Suc index) (spans[index := f])
     (concat (map2 (\<lambda>offset f. bw_u32 offset @ bw_u32 (of_nat (length f))) rest fs) @ r)
     = Inr (take (Suc index) (spans[index := f]) @ fs @ drop (Suc index + length fs) (spans[index := f]))"
    using Cons.prems(2,3) by (intro Cons.IH [OF rest(4)]) simp_all
  then show ?case
    using rest Cons.prems(2,3) by (simp add: readBindingDescriptor_def take_Suc_conv_app_nth)
qed simp

lemma writeBindingInfoV1_iff:
  "(\<exists>block. writeBindingInfoV1 info = Inr block) \<longleftrightarrow>
     validRoute (ucast (bi_route info)) \<and> 64 + length (concat (binding_spans info)) \<le> uint32_max"
proof -
  have total: "64 + length (concat (binding_spans info)) \<le> uint32_max \<Longrightarrow>
      \<exists>offsets. binding_offsets (binding_spans info) 64 = Inr (offsets, 64 + length (concat (binding_spans info)))"
    by (rule binding_offsets_total)
  show ?thesis
    using total binding_offsets_final [of "binding_spans info" 64]
    by (auto simp: writeBindingInfoV1_def Let_def refuse_eq_Inr bindE_eq_Inr kBindingHeaderSize_def
        kBindingFieldCountV1_def kBindingFieldDescriptorSize_def)
qed

lemma read_write_binding:
  assumes "writeBindingInfoV1 info = Inr block"
  shows "readBindingInfoV1 block = Inr info"
proof -
  let ?fs = "binding_spans info"
  define table where "table offsets = concat (map2 (\<lambda>offset f. bw_u32 offset @ bw_u32 (of_nat (length f))) offsets ?fs)" for offsets
  define hdr where "hdr = bw_u16 1 @ bw_u16 (ucast (bi_route info)) @ bw_u32 (bi_claim_index info)
      @ bw_u16 (bi_expected_object_type info) @ bw_u16 0 @ bw_u32 (of_nat kBindingFieldCountV1)"
  from assms obtain offsets final where valid: "validRoute (ucast (bi_route info))"
    and offsets: "binding_offsets ?fs 64 = Inr (offsets, final)"
    and block: "block = hdr @ table offsets @ concat ?fs"
    by (auto simp: writeBindingInfoV1_def Let_def refuse_eq_Inr bindE_eq_Inr kBindingHeaderSize_def
        kBindingFieldCountV1_def kBindingFieldDescriptorSize_def hdr_def table_def split: prod.splits)
  have n: "length ?fs = 6" by (simp add: binding_spans_def)
  obtain o1 o2 o3 o4 o5 o6 where six: "offsets = [o1, o2, o3, o4, o5, o6]"
    using binding_offsets_length [OF offsets] n by (auto simp: numeral_eq_Suc length_Suc_conv)
  have len: "length (hdr @ table offsets) = 64"
    by (simp add: hdr_def table_def six binding_spans_def)
  have "binding_fields_loop ((hdr @ table offsets) @ concat ?fs @ []) (length ?fs) 0 (replicate kBindingFieldCountV1 [])
     (table offsets @ concat ?fs) = Inr (take 0 (replicate kBindingFieldCountV1 []) @ ?fs
        @ drop (0 + length ?fs) (replicate kBindingFieldCountV1 []))"
    unfolding table_def using offsets len n
    by (intro binding_fields_loop_written) (simp_all add: kBindingFieldCountV1_def table_def)
  then have "binding_fields_loop block (unat (of_nat kBindingFieldCountV1 :: u32)) 0
      (replicate kBindingFieldCountV1 []) (table offsets @ concat ?fs) = Inr ?fs"
    unfolding block n by (simp add: kBindingFieldCountV1_def)
  moreover have "readBindingHeader block = Some (1, ucast (bi_route info), bi_claim_index info,
      bi_expected_object_type info, of_nat kBindingFieldCountV1, table offsets @ concat ?fs)"
    by (simp add: readBindingHeader_def block hdr_def)
  moreover have "6 \<le> length (table offsets @ concat ?fs) div 8"
    using len by (simp add: hdr_def)
  ultimately show ?thesis
    using valid by (simp add: readBindingInfoV1_def kBindingFieldDescriptorSize_def
        binding_of_spans_def binding_spans_def kBindingFieldCountV1_def)
qed


subsubsection \<open>Parse input\<close>

lemma write_parse_input:
  "writeParseInputV1 input = (if length (pin_payload input) + 24 \<le> size_max
     then Inr (bw_u8 (if pin_has_timestamp input then 1 else 0) @ bw_zeros 7 @ bw_i64 (pin_timestamp_ns input)
       @ bw_u64 (of_nat (length (pin_payload input))) @ pin_payload input)
     else Inl ''parse-input v1 size overflows the host size type'')"
  by (auto simp: writeParseInputV1_def checkedAdd_def kParseInputHeaderSize_def size_max_def)

lemma read_write_parse_input:
  assumes "writeParseInputV1 input = Inr block"
  shows "readParseInputV1 block = Inr input"
proof -
  have block: "block = bw_u8 (if pin_has_timestamp input then 1 else 0) @ bw_zeros 7 @ bw_i64 (pin_timestamp_ns input)
       @ bw_u64 (of_nat (length (pin_payload input))) @ pin_payload input"
    and fit: "length (pin_payload input) \<le> size_max"
    using assms by (auto simp: write_parse_input split: if_splits)
  have "readParseInputHeader block = Some (if pin_has_timestamp input then 1 else 0, pin_timestamp_ns input,
      of_nat (length (pin_payload input)), pin_payload input)"
    by (simp add: readParseInputHeader_def block)
  with fit show ?thesis
    by (simp add: readParseInputV1_def)
qed

subsubsection \<open>Output descriptors\<close>

lemma write_object_output:
  "writeObjectOutputV1 object = Inr block \<Longrightarrow> length (oo_wire object) \<le> size_max \<and>
     block = bw_u16 1 @ bw_u8 kObject @ bw_u8 0 @ bw_u16 (oo_object_type object)
       @ bw_u16 (if oo_splice object \<noteq> None then 1 else 0)
       @ bw_u32 (case oo_splice object of Some sp \<Rightarrow> sp_field_number sp | None \<Rightarrow> 0)
       @ bw_u64 (case oo_splice object of Some sp \<Rightarrow> sp_input_offset sp | None \<Rightarrow> 0)
       @ bw_u64 (case oo_splice object of Some sp \<Rightarrow> sp_input_length sp | None \<Rightarrow> 0)
       @ bw_u64 (of_nat (length (oo_wire object))) @ oo_wire object"
  by (auto simp: writeObjectOutputV1_def checkedAdd_def kObjectOutputFixedSize_def split: option.splits if_splits)

lemma read_write_object:
  assumes "writeObjectOutputV1 object = Inr block"
  shows "readOutputDescriptorV1 block = Inr (ObjectOutput object)"
proof -
  have block: "block = bw_u16 1 @ bw_u8 kObject @ bw_u8 0 @ bw_u16 (oo_object_type object)
       @ bw_u16 (if oo_splice object \<noteq> None then 1 else 0)
       @ bw_u32 (case oo_splice object of Some sp \<Rightarrow> sp_field_number sp | None \<Rightarrow> 0)
       @ bw_u64 (case oo_splice object of Some sp \<Rightarrow> sp_input_offset sp | None \<Rightarrow> 0)
       @ bw_u64 (case oo_splice object of Some sp \<Rightarrow> sp_input_length sp | None \<Rightarrow> 0)
       @ bw_u64 (of_nat (length (oo_wire object))) @ oo_wire object"
    and fit: "length (oo_wire object) \<le> size_max"
    using write_object_output [OF assms] by simp_all
  show ?thesis
    using fit by (cases "oo_splice object")
      (simp_all add: readOutputDescriptorV1_def readOutputHeader_def block readObjectOutputV1_def readObjectHeader_def)
qed

lemma read_write_scalar_value:
  assumes "scalarValueSize v = Inr n"
  shows "\<exists>kind rest. writeScalarValue v @ r = kind # rest \<and> readScalarValue kind rest = Inr (v, r)" and "length (writeScalarValue v) = 1 + n" and "n > 0"
  using assms
  by (cases v; auto simp: writeScalarValue_def readScalarValue_def scalarValueSize_def refuse_eq_Inr checkedAdd_def
      bw_u8_def br_u8_def readScalarString_def split: option.splits if_splits)+

lemma scalar_values_end_cons:
  assumes "scalar_values_end (f # fs) n = Inr final"
  obtains m where "scalarValueSize (scf_value f) = Inr m" "length (scf_name f) \<le> uint32_max"
    "scalar_values_end fs (n + 9 + m) = Inr final"
  using assms by (auto simp: bindE_eq_Inr checkedAdd_def kScalarFieldPrefixSize_def split: if_splits option.splits)

lemma length_writeScalarField:
  "scalarValueSize (scf_value f) = Inr m \<Longrightarrow> length (writeScalarField off f) = 9 + m"
  by (simp add: writeScalarField_def read_write_scalar_value)

lemma scalar_name_offsets_cons:
  assumes "scalar_name_offsets (f # fs) n = Inr offsets"
  obtains rest where "offsets = of_nat n # rest" "n \<le> uint32_max"
    "scalar_name_offsets fs (n + length (scf_name f)) = Inr rest"
  using assms by (auto simp: bindE_eq_Inr refuse_eq_Inr checkedAdd_def split: if_splits option.splits)

lemma scalar_name_offsets_length: "scalar_name_offsets fs n = Inr offsets \<Longrightarrow> length offsets = length fs"
proof (induction fs arbitrary: n offsets)
  case (Cons f fs)
  then show ?case by (elim scalar_name_offsets_cons) auto
qed simp

lemma scalar_values_end_exact:
  "scalar_values_end fs n = Inr final \<Longrightarrow> length offsets = length fs \<Longrightarrow>
   final = n + length (concat (map2 writeScalarField offsets fs))
   \<and> 10 * length fs \<le> length (concat (map2 writeScalarField offsets fs))"
proof (induction fs arbitrary: n offsets)
  case (Cons f fs)
  from Cons.prems(2) obtain off rest where off: "offsets = off # rest" "length rest = length fs"
    by (cases offsets) auto
  from Cons.prems(1) obtain m where m: "scalarValueSize (scf_value f) = Inr m"
    "scalar_values_end fs (n + 9 + m) = Inr final"
    by (rule scalar_values_end_cons)
  from Cons.IH [OF m(2) off(2)] read_write_scalar_value(3) [OF m(1)] show ?case
    by (simp add: off(1) length_writeScalarField [OF m(1)])
qed simp

lemma scalar_fields_loop_written:
  assumes "scalar_values_end fs n = Inr final" "length offsets = length fs"
  shows "scalar_fields_loop (length fs) (concat (map2 writeScalarField offsets fs) @ r)
    = Inr (map2 (\<lambda>off f. (off, of_nat (length (scf_name f)), scf_value f)) offsets fs)"
  using assms
proof (induction fs arbitrary: n offsets)
  case (Cons f fs)
  from Cons.prems(2) obtain off rest where off: "offsets = off # rest" "length rest = length fs"
    by (cases offsets) auto
  from Cons.prems(1) obtain m where m: "scalarValueSize (scf_value f) = Inr m"
    "scalar_values_end fs (n + 9 + m) = Inr final"
    by (rule scalar_values_end_cons)
  let ?r = "concat (map2 writeScalarField rest fs) @ r"
  obtain kind rest' where kind: "writeScalarValue (scf_value f) @ ?r = kind # rest'"
      "readScalarValue kind rest' = Inr (scf_value f, ?r)"
    using read_write_scalar_value(1) [OF m(1), of ?r] by blast
  show ?case
    using Cons.IH [OF m(2) off(2)] kind
    by (simp add: off(1) readScalarPrefix_def writeScalarField_def br_u8_def)
qed simp

lemma scalar_names_loop_written:
  assumes "scalar_name_offsets fs (length pre) = Inr offsets" "\<forall>f\<in>set fs. length (scf_name f) \<le> uint32_max"
  shows "scalar_names_loop (pre @ concat (map scf_name fs))
    (map2 (\<lambda>off f. (off, of_nat (length (scf_name f)), scf_value f)) offsets fs) = Inr fs"
  using assms
proof (induction fs arbitrary: pre offsets)
  case (Cons f fs)
  from Cons.prems(1) obtain rest where rest: "offsets = of_nat (length pre) # rest" "length pre \<le> uint32_max"
    "scalar_name_offsets fs (length (pre @ scf_name f)) = Inr rest"
    by (rule scalar_name_offsets_cons) simp
  from Cons.IH [OF rest(3)] Cons.prems(2) rest show ?case by simp
qed simp

lemma scalar_values_end_names:
  "scalar_values_end fs n = Inr final \<Longrightarrow> \<forall>f\<in>set fs. length (scf_name f) \<le> uint32_max"
proof (induction fs arbitrary: n)
  case (Cons f fs)
  then show ?case by (elim scalar_values_end_cons) auto
qed simp

lemma read_write_scalar:
  assumes "writeScalarOutputV1 scalar = Inr block"
  shows "readOutputDescriptorV1 block = Inr (ScalarOutput scalar)"
proof -
  let ?fs = "so_fields scalar"
  from assms obtain final offsets where few: "length ?fs \<le> uint32_max"
    and final: "scalar_values_end ?fs 24 = Inr final" and offsets: "scalar_name_offsets ?fs final = Inr offsets"
    and block: "block = bw_u16 1 @ bw_u8 kScalar @ bw_u8 0 @ bw_u8 (if so_has_timestamp scalar then 1 else 0)
        @ bw_zeros 7 @ bw_i64 (so_timestamp_ns scalar) @ bw_u32 (of_nat (length ?fs))
        @ concat (map2 writeScalarField offsets ?fs) @ concat (map scf_name ?fs)"
    by (auto simp: writeScalarOutputV1_def refuse_eq_Inr bindE_eq_Inr kScalarOutputFixedSize_def)
  let ?vals = "concat (map2 writeScalarField offsets ?fs)" and ?names = "concat (map scf_name ?fs)"
  define pre where "pre = bw_u16 1 @ bw_u8 kScalar @ bw_u8 0 @ bw_u8 (if so_has_timestamp scalar then 1 else 0)
        @ bw_zeros 7 @ bw_i64 (so_timestamp_ns scalar) @ bw_u32 (of_nat (length ?fs)) @ ?vals"
  have n: "length offsets = length ?fs" by (rule scalar_name_offsets_length [OF offsets])
  have sizes: "final = 24 + length ?vals" "10 * length ?fs \<le> length ?vals"
    using scalar_values_end_exact [OF final n] by auto
  have "length pre = final" by (simp add: pre_def sizes(1))
  then have names: "scalar_names_loop block
      (map2 (\<lambda>off f. (off, of_nat (length (scf_name f)), scf_value f)) offsets ?fs) = Inr ?fs"
    using scalar_names_loop_written [of ?fs pre offsets] offsets scalar_values_end_names [OF final]
    by (simp add: block pre_def)
  have "readOutputHeader block = Some (1, kScalar, bw_u8 (if so_has_timestamp scalar then 1 else 0)
        @ bw_zeros 7 @ bw_i64 (so_timestamp_ns scalar) @ bw_u32 (of_nat (length ?fs)) @ ?vals @ ?names)"
    by (simp add: readOutputHeader_def block)
  moreover have "length ?fs \<le> length (?vals @ ?names) div 10" using sizes(2) by simp
  moreover note scalar_fields_loop_written [OF final n, of ?names] names
  ultimately show ?thesis
    using few by (simp add: readOutputDescriptorV1_def readScalarOutputV1_def readScalarHeader_def kScalar_def
        kObject_def kScalarFieldPrefixSize_def)
qed

lemma read_write_output: "writeOutputDescriptorV1 out = Inr block \<Longrightarrow> readOutputDescriptorV1 block = Inr out"
  by (cases out) (auto simp: writeOutputDescriptorV1_def read_write_object read_write_scalar)

subsection \<open>Views stay inside the block\<close>

lemma binding_fields_loop_inside:
  "binding_fields_loop block n index spans r = Inr spans' \<Longrightarrow> \<forall>s\<in>set spans. sublist s block \<Longrightarrow>
   length spans' = length spans \<and> (\<forall>s\<in>set spans'. sublist s block)"
proof (induction n arbitrary: index spans r)
  case (Suc n)
  from Suc.prems(1) obtain spans2 r' o' l where "binding_fields_loop block n (index + 1) spans2 r' = Inr spans'"
    and "spans2 = spans[index := subspan block o' l] \<or> spans2 = spans"
    by (auto simp: malformed_def split: option.splits prod.splits if_splits)
  moreover from this(2) have "length spans2 = length spans" "\<forall>s\<in>set spans2. sublist s block"
    using Suc.prems(2) set_update_subset_insert [of spans index "subspan block o' l"] by auto
  ultimately show ?case
    using Suc.IH [of "index + 1" spans2 r'] by simp
qed auto

lemma br_suffix:
  "br_u8 r = Some (a, r') \<Longrightarrow> suffix r' r" "br_u16 r = Some (b, r') \<Longrightarrow> suffix r' r"
  "br_u32 r = Some (d, r') \<Longrightarrow> suffix r' r" "br_u64 r = Some (e, r') \<Longrightarrow> suffix r' r"
  "br_skip n r = Some r' \<Longrightarrow> suffix r' r" "br_take n r = Some (xs, r') \<Longrightarrow> suffix r' r"
  by (auto simp: br_u8_def br_u16_def br_u32_def br_u64_def br_littleEndian_def br_skip_def br_take_def suffix_drop
      suffix_Cons split: list.splits if_splits bind_splits)

lemma br_take_inside: "br_take n r = Some (xs, r') \<Longrightarrow> suffix r' r \<and> sublist xs r"
  by (auto simp: br_take_def suffix_drop split: if_splits)

lemma readScalarString_inside:
  assumes "readScalarString r = Some (s, r')"
  shows "suffix r' r \<and> sublist s r"
proof -
  from assms obtain len r2 where "br_u32 r = Some (len, r2)" "br_take (unat len) r2 = Some (s, r')"
    by (auto simp: readScalarString_def split: bind_splits)
  then have "suffix r2 r" "suffix r' r2" "sublist s r2"
    by (auto dest: br_suffix br_take_inside)
  then show ?thesis
    using suffix_order.order_trans sublist_order.order_trans suffix_imp_sublist by blast
qed

lemma readScalarValue_inside:
  "readScalarValue kind r = Inr (v, r') \<Longrightarrow> suffix r' r \<and> (\<forall>s. v = SvString s \<longrightarrow> sublist s r)"
  by (auto simp: readScalarValue_def br_f64_def br_i64_def malformed_def
      dest!: br_suffix readScalarString_inside
      split: option.splits prod.splits if_splits)

lemma readScalarPrefix_suffix: "readScalarPrefix r = Some (a, b, d, r') \<Longrightarrow> suffix r' r"
  by (auto simp: readScalarPrefix_def split: bind_splits dest!: br_suffix elim!: suffix_order.order_trans)

lemma scalar_fields_loop_inside:
  "scalar_fields_loop n r = Inr decoded \<Longrightarrow>
   length decoded = n \<and> (\<forall>off len s. (off, len, SvString s) \<in> set decoded \<longrightarrow> sublist s r)"
proof (induction n arbitrary: r decoded)
  case (Suc n)
  from Suc.prems obtain off len kind r1 v r2 rest where step: "readScalarPrefix r = Some (off, len, kind, r1)"
    "readScalarValue kind r1 = Inr (v, r2)" "scalar_fields_loop n r2 = Inr rest" "decoded = (off, len, v) # rest"
    by (auto simp: malformed_def bindE_eq_Inr split: option.splits)
  have "suffix r1 r" "suffix r2 r1" "\<forall>s. v = SvString s \<longrightarrow> sublist s r1"
    using readScalarPrefix_suffix [OF step(1)] readScalarValue_inside [OF step(2)] by auto
  then have "sublist r1 r" "sublist r2 r"
    using suffix_imp_sublist suffix_order.order_trans by blast+
  moreover have "\<forall>s. v = SvString s \<longrightarrow> sublist s r"
    using \<open>\<forall>s. v = SvString s \<longrightarrow> sublist s r1\<close> \<open>sublist r1 r\<close> sublist_order.order_trans by blast
  ultimately show ?case
    using Suc.IH [OF step(3)] sublist_order.order_trans [OF _ \<open>sublist r2 r\<close>] unfolding step(4) by auto
qed simp

lemma scalar_names_loop_inside:
  "scalar_names_loop block decoded = Inr fs \<Longrightarrow>
   map scf_value fs = map (\<lambda>(_, _, v). v) decoded \<and> (\<forall>f\<in>set fs. sublist (scf_name f) block)"
proof (induction decoded arbitrary: fs)
  case (Cons d decoded)
  then show ?case by (cases d) (auto simp: malformed_def bindE_eq_Inr split: if_splits)
qed simp


lemma replicate_spans_inside: "\<forall>s\<in>set (replicate n []). sublist s block"
  by (cases n) auto

lemma read_binding_inside:
  assumes "readBindingInfoV1 block = Inr info"
  shows "\<forall>s\<in>set (binding_spans info). sublist s block"
proof -
  from assms obtain version route claim_index expected field_count r where
    hdr: "readBindingHeader block = Some (version, route, claim_index, expected, field_count, r)"
    by (cases "readBindingHeader block") (auto simp: readBindingInfoV1_def malformed_def)
  with assms obtain spans where
    spans: "binding_fields_loop block (unat field_count) 0 (replicate kBindingFieldCountV1 []) r = Inr spans"
    and info: "info = binding_of_spans route claim_index expected spans"
    by (auto simp: readBindingInfoV1_def malformed_def bindE_eq_Inr split: if_splits)
  have "length spans = 6" and inside: "\<forall>s\<in>set spans. sublist s block"
    using binding_fields_loop_inside [OF spans replicate_spans_inside] by (simp_all add: kBindingFieldCountV1_def)
  then have "binding_spans info = spans"
    unfolding info by (auto simp: binding_spans_def binding_of_spans_def numeral_eq_Suc length_Suc_conv)
  with inside show ?thesis by simp
qed

lemma read_parse_input_inside:
  "readParseInputV1 block = Inr input \<Longrightarrow> suffix (pin_payload input) block \<and> length block = 24 + length (pin_payload input)"
  by (auto simp: readParseInputV1_def malformed_def readParseInputHeader_def br_take_def br_u8_def br_skip_def br_i64_def
      br_u64_def br_littleEndian_def suffix_drop suffix_Cons
      split: option.splits if_splits bind_splits list.splits)

lemma readOutputHeader_suffix: "readOutputHeader block = Some (version, route, r) \<Longrightarrow> suffix r block"
  by (auto simp: readOutputHeader_def split: bind_splits dest!: br_suffix elim!: suffix_order.order_trans)

lemma readScalarHeader_suffix: "readScalarHeader block = Some (a, b, d, r) \<Longrightarrow> suffix r block"
  by (auto simp: readScalarHeader_def br_i64_def split: bind_splits dest!: br_suffix elim!: suffix_order.order_trans)

lemma readObjectHeader_suffix: "readObjectHeader block = Some (a, b, d, e, f, g, r) \<Longrightarrow> suffix r block"
  by (auto simp: readObjectHeader_def split: bind_splits dest!: br_suffix elim!: suffix_order.order_trans)

text \<open>What an output descriptor shows: the wire bytes, or the names and the string values.\<close>

fun output_views :: "OutputDescriptorV1 \<Rightarrow> bytes set" where
  "output_views (ObjectOutput object) = {oo_wire object}"
| "output_views (ScalarOutput scalar) =
     scf_name ` set (so_fields scalar) \<union> {s. \<exists>f\<in>set (so_fields scalar). scf_value f = SvString s}"

lemma read_object_inside:
  "readObjectOutputV1 r = Inr out \<Longrightarrow> \<forall>s\<in>output_views out. sublist s r"
proof -
  assume "readObjectOutputV1 r = Inr out"
  moreover from this obtain a b d e f g r1 where hdr: "readObjectHeader r = Some (a, b, d, e, f, g, r1)"
    by (cases "readObjectHeader r") (auto simp: readObjectOutputV1_def malformed_def)
  moreover have "sublist r1 r" by (rule suffix_imp_sublist [OF readObjectHeader_suffix [OF hdr]])
  ultimately show ?thesis
    by (auto simp: readObjectOutputV1_def malformed_def br_take_def split: if_splits)
qed

lemma read_scalar_inside:
  assumes "readScalarOutputV1 block r = Inr out" "suffix r block"
  shows "\<forall>s\<in>output_views out. sublist s block"
proof -
  from assms(1) obtain a b d r1 decoded fs scalar where hdr: "readScalarHeader r = Some (a, b, d, r1)"
    and decoded: "scalar_fields_loop (unat d) r1 = Inr decoded" and fs: "scalar_names_loop block decoded = Inr fs"
    and out: "out = ScalarOutput scalar" "so_fields scalar = fs"
    by (auto simp: readScalarOutputV1_def malformed_def bindE_eq_Inr split: option.splits if_splits)
  have "sublist r1 block"
    using readScalarHeader_suffix [OF hdr] assms(2) suffix_order.order_trans suffix_imp_sublist by blast
  moreover have names: "map scf_value fs = map (\<lambda>(_, _, v). v) decoded" "\<forall>f\<in>set fs. sublist (scf_name f) block"
    using scalar_names_loop_inside [OF fs] by auto
  moreover have "sublist s r1" if "f \<in> set fs" "scf_value f = SvString s" for f s
  proof -
    have "SvString s \<in> set (map scf_value fs)" using that by (metis image_eqI list.set_map)
    then have "SvString s \<in> set (map (\<lambda>(_, _, v). v) decoded)" by (simp only: names(1))
    then obtain off len where "(off, len, SvString s) \<in> set decoded" by auto
    then show ?thesis using scalar_fields_loop_inside [OF decoded] by blast
  qed
  ultimately show ?thesis
    unfolding out(1) using out(2) sublist_order.order_trans [of _ r1 block] by auto
qed

lemma read_output_inside:
  assumes "readOutputDescriptorV1 block = Inr out"
  shows "\<forall>s\<in>output_views out. sublist s block"
proof -
  from assms obtain version route r where hdr: "readOutputHeader block = Some (version, route, r)"
    and cases: "readObjectOutputV1 r = Inr out \<or> readScalarOutputV1 block r = Inr out"
    by (auto simp: readOutputDescriptorV1_def malformed_def split: option.splits if_splits)
  have suf: "suffix r block" by (rule readOutputHeader_suffix [OF hdr])
  from cases show ?thesis
  proof
    assume "readObjectOutputV1 r = Inr out"
    then show ?thesis
      using read_object_inside suf suffix_imp_sublist sublist_order.order_trans by blast
  qed (rule read_scalar_inside [OF _ suf])
qed

end
