(* ===== verification/ObjectWriter.thy ===== *)
theory ObjectWriter
  imports ModuleAbi BuiltinObject
begin

section \<open>The output builders of parser modules (\<open>parser_module/object_writer.hpp\<close>)\<close>

text \<open>
  What a parser module writes its output with: the fallible wire writer, the object writer with one
  builder per kind of object, and the scalar writer. The module shares no code with the host, so
  these are definitions of their own; the lemmas relate the bytes they produce to the codecs and to
  the output descriptors of the host. Allocation always succeeds here. The vector, pose and
  point-field states have the fields of the builtin types and are those records; the enumerators of
  \<open>PointFieldDatatype\<close> are those of the builtin datatype, with the same numbers.
\<close>

subsection \<open>\<open>WireWriter\<close>\<close>

text \<open>
  A writer is the bytes it holds. A method gives the bytes after the call, or the error its status
  keeps from then on; every caller returns at the first error, so a chain of calls is a chain in the
  sum.
\<close>

type_synonym wire_op = "bytes \<Rightarrow> Status + bytes"

fun ww_all :: "wire_op list \<Rightarrow> wire_op" where
  "ww_all [] bs = Inr bs"
| "ww_all (f # fs) bs = bindE (f bs) (ww_all fs)"

text \<open>The loop of \<open>varint\<close>.\<close>

function ww_varint_loop :: "u64 \<Rightarrow> bytes" where
  "ww_varint_loop v =
     (let byte = (ucast (v AND 0x7F) :: u8); rest = drop_bit 7 v
      in if rest \<noteq> 0 then (byte OR 0x80) # ww_varint_loop rest else [byte])"
  by pat_completeness auto
termination
proof (relation "measure unat")
  fix v rest :: u64 and byte :: u8
  assume "rest = drop_bit 7 v" "rest \<noteq> 0"
  then have ne: "unat rest \<noteq> 0" using unat_eq_0 by blast
  have eq: "unat rest = unat v div 128"
    using \<open>rest = drop_bit 7 v\<close> by (simp add: drop_bit_eq_div unat_div)
  with ne have "unat v > 0" by (cases "unat v") simp_all
  then have "unat rest < unat v" unfolding eq by simp
  then show "(rest, v) \<in> measure unat" by simp
qed simp

declare ww_varint_loop.simps [simp del]

definition ww_varint :: "u64 \<Rightarrow> wire_op" where
  "ww_varint v bs = Inr (bs @ ww_varint_loop v)"

definition ww_tag :: "u32 \<Rightarrow> u8 \<Rightarrow> wire_op" where
  "ww_tag field_number wire_type bs =
     (if field_number = 0 \<or> field_number > 0x1FFFFFFF \<or> wire_type > 5 \<or> wire_type = 3 \<or> wire_type = 4
      then Inl (status_error ''invalid canonical-wire tag'')
      else ww_varint (push_bit 3 (ucast field_number) OR ucast wire_type) bs)"

definition ww_varintField :: "u32 \<Rightarrow> u64 \<Rightarrow> wire_op" where
  "ww_varintField field_number v = ww_all [ww_tag field_number 0, ww_varint v]"

definition ww_littleEndian :: "u64 \<Rightarrow> nat \<Rightarrow> wire_op" where
  "ww_littleEndian v width bs = Inr (bs @ map (\<lambda>i. ucast (drop_bit (i * 8) v)) [0..<width])"

definition ww_fixed32Field :: "u32 \<Rightarrow> u32 \<Rightarrow> wire_op" where
  "ww_fixed32Field field_number v = ww_all [ww_tag field_number 5, ww_littleEndian (ucast v) 4]"

definition ww_fixed64Field :: "u32 \<Rightarrow> u64 \<Rightarrow> wire_op" where
  "ww_fixed64Field field_number v = ww_all [ww_tag field_number 1, ww_littleEndian v 8]"

definition ww_rawFixed64 :: "u64 \<Rightarrow> wire_op" where
  "ww_rawFixed64 v = ww_littleEndian v 8"

definition ww_doubleField :: "u32 \<Rightarrow> f64 \<Rightarrow> wire_op" where
  "ww_doubleField field_number v = ww_fixed64Field field_number v"

definition ww_floatField :: "u32 \<Rightarrow> f32 \<Rightarrow> wire_op" where
  "ww_floatField field_number v = ww_fixed32Field field_number v"

definition ww_lengthDelimited :: "u32 \<Rightarrow> bytes \<Rightarrow> wire_op" where
  "ww_lengthDelimited field_number v =
     ww_all [ww_tag field_number 2, ww_varint (of_nat (length v)), \<lambda>bs. Inr (bs @ v)]"

definition ww_stringField :: "u32 \<Rightarrow> bytes \<Rightarrow> wire_op" where
  "ww_stringField field_number v = ww_lengthDelimited field_number v"

definition ww_messageField :: "u32 \<Rightarrow> bytes \<Rightarrow> wire_op" where
  "ww_messageField field_number nested = ww_lengthDelimited field_number nested"

text \<open>The calls on a fresh nested writer, then \<open>messageField\<close> with it.\<close>

definition ww_nested :: "u32 \<Rightarrow> wire_op list \<Rightarrow> wire_op" where
  "ww_nested field_number ops bs = bindE (ww_all ops []) (\<lambda>nested. ww_messageField field_number nested bs)"

text \<open>A call under a condition.\<close>

definition ww_when :: "bool \<Rightarrow> wire_op \<Rightarrow> wire_op" where
  "ww_when c f = (if c then f else Inr)"

subsection \<open>State\<close>

record ColorState =
  cs_r :: f64
  cs_g :: f64
  cs_b :: f64
  cs_a :: f64

definition pose_of :: "f64 \<Rightarrow> f64 \<Rightarrow> f64 \<Rightarrow> f64 \<Rightarrow> f64 \<Rightarrow> f64 \<Rightarrow> f64 \<Rightarrow> Pose" where
  "pose_of px py pz qx qy qz qw =
     \<lparr>pose_position = \<lparr>v3_x = px, v3_y = py, v3_z = pz\<rparr>,
      pose_orientation = \<lparr>quat_x = qx, quat_y = qy, quat_z = qz, quat_w = qw\<rparr>\<rparr>"


record PointCloudState =
  pcs_timestamp_ns :: Timestamp
  pcs_width :: u32
  pcs_height :: u32
  pcs_point_step :: u32
  pcs_row_step :: u32
  pcs_is_bigendian :: bool
  pcs_is_dense :: bool
  pcs_fields :: "PointField list"
  pcs_data :: bytes
  pcs_frame_id :: bytes

definition default_PointCloudState :: PointCloudState where
  "default_PointCloudState = \<lparr>pcs_timestamp_ns = 0, pcs_width = 0, pcs_height = 1,
     pcs_point_step = 0, pcs_row_step = 0, pcs_is_bigendian = False, pcs_is_dense = True,
     pcs_fields = [], pcs_data = [], pcs_frame_id = []\<rparr>"

record ImageState =
  ims_timestamp_ns :: Timestamp
  ims_width :: u32
  ims_height :: u32
  ims_encoding :: bytes
  ims_row_step :: u32
  ims_is_bigendian :: bool
  ims_data :: bytes
  ims_has_compressed_depth_min :: bool
  ims_compressed_depth_min :: f32
  ims_has_compressed_depth_max :: bool
  ims_compressed_depth_max :: f32
  ims_frame_id :: bytes

definition default_ImageState :: ImageState where
  "default_ImageState = \<lparr>ims_timestamp_ns = 0, ims_width = 0, ims_height = 0, ims_encoding = [],
     ims_row_step = 0, ims_is_bigendian = False, ims_data = [], ims_has_compressed_depth_min = False,
     ims_compressed_depth_min = 0, ims_has_compressed_depth_max = False, ims_compressed_depth_max = 0,
     ims_frame_id = []\<rparr>"

record DepthImageState =
  dis_timestamp_ns :: Timestamp
  dis_width :: u32
  dis_height :: u32
  dis_encoding :: bytes
  dis_data :: bytes
  dis_intrinsics :: "f64 list"
  dis_distortion_model :: bytes
  dis_distortion :: "f64 list"

definition default_DepthImageState :: DepthImageState where
  "default_DepthImageState = \<lparr>dis_timestamp_ns = 0, dis_width = 0, dis_height = 0,
     dis_encoding = [], dis_data = [], dis_intrinsics = replicate 9 0, dis_distortion_model = [],
     dis_distortion = []\<rparr>"

record OccupancyGridState =
  ogs_timestamp_ns :: Timestamp
  ogs_frame_id :: bytes
  ogs_origin :: Pose
  ogs_resolution :: f64
  ogs_width :: u32
  ogs_height :: u32
  ogs_data :: bytes

definition default_OccupancyGridState :: OccupancyGridState where
  "default_OccupancyGridState = \<lparr>ogs_timestamp_ns = 0, ogs_frame_id = [],
     ogs_origin = default_Pose, ogs_resolution = 0, ogs_width = 0, ogs_height = 0, ogs_data = []\<rparr>"

record CompressedPointCloudState =
  cps_timestamp_ns :: Timestamp
  cps_frame_id :: bytes
  cps_format :: bytes
  cps_data :: bytes

definition default_CompressedPointCloudState :: CompressedPointCloudState where
  "default_CompressedPointCloudState = \<lparr>cps_timestamp_ns = 0, cps_frame_id = [], cps_format = [],
     cps_data = []\<rparr>"

record Mesh3DState =
  mss_timestamp_ns :: Timestamp
  mss_frame_id :: bytes
  mss_id :: bytes
  mss_pose :: Pose
  mss_scale :: Vector3
  mss_format :: bytes
  mss_data :: bytes
  mss_url :: bytes
  mss_color :: ColorState
  mss_override_color :: bool

definition default_Mesh3DState :: Mesh3DState where
  "default_Mesh3DState = \<lparr>mss_timestamp_ns = 0, mss_frame_id = [], mss_id = [],
     mss_pose = default_Pose,
     mss_scale = \<lparr>v3_x = f64_one, v3_y = f64_one, v3_z = f64_one\<rparr>, mss_format = [],
     mss_data = [], mss_url = [],
     mss_color = \<lparr>cs_r = 0, cs_g = 0, cs_b = 0, cs_a = f64_one\<rparr>,
     mss_override_color = False\<rparr>"

record VideoFrameState =
  vfs_timestamp_ns :: Timestamp
  vfs_frame_id :: bytes
  vfs_data :: bytes
  vfs_format :: bytes

definition default_VideoFrameState :: VideoFrameState where
  "default_VideoFrameState = \<lparr>vfs_timestamp_ns = 0, vfs_frame_id = [], vfs_data = [],
     vfs_format = []\<rparr>"

record OccupancyGridUpdateState =
  ous_timestamp_ns :: Timestamp
  ous_frame_id :: bytes
  ous_x :: u32
  ous_y :: u32
  ous_width :: u32
  ous_height :: u32
  ous_data :: bytes

definition default_OccupancyGridUpdateState :: OccupancyGridUpdateState where
  "default_OccupancyGridUpdateState = \<lparr>ous_timestamp_ns = 0, ous_frame_id = [], ous_x = 0,
     ous_y = 0, ous_width = 0, ous_height = 0, ous_data = []\<rparr>"

record VoxelGridState =
  vgs_timestamp_ns :: Timestamp
  vgs_frame_id :: bytes
  vgs_origin :: Pose
  vgs_cell_size :: Vector3
  vgs_column_count :: u32
  vgs_row_count :: u32
  vgs_slice_count :: u32
  vgs_cell_stride :: u32
  vgs_row_stride :: u32
  vgs_slice_stride :: u32
  vgs_fields :: "PointField list"
  vgs_data :: bytes

definition default_VoxelGridState :: VoxelGridState where
  "default_VoxelGridState = \<lparr>vgs_timestamp_ns = 0, vgs_frame_id = [], vgs_origin = default_Pose,
     vgs_cell_size = default_Vector3, vgs_column_count = 0, vgs_row_count = 0, vgs_slice_count = 0,
     vgs_cell_stride = 0, vgs_row_stride = 0, vgs_slice_stride = 0, vgs_fields = [],
     vgs_data = []\<rparr>"

record GridMapState =
  gms_timestamp_ns :: Timestamp
  gms_frame_id :: bytes
  gms_origin :: Pose
  gms_cell_size :: Vector2
  gms_column_count :: u32
  gms_row_count :: u32
  gms_cell_stride :: u32
  gms_row_stride :: u32
  gms_fields :: "PointField list"
  gms_data :: bytes

definition default_GridMapState :: GridMapState where
  "default_GridMapState = \<lparr>gms_timestamp_ns = 0, gms_frame_id = [], gms_origin = default_Pose,
     gms_cell_size = default_Vector2, gms_column_count = 0, gms_row_count = 0, gms_cell_stride = 0,
     gms_row_stride = 0, gms_fields = [], gms_data = []\<rparr>"

text \<open>\<open>InputSpanRef\<close>, \<open>SpliceState\<close>, the kinds and the sources of the bulk data.\<close>

record InputSpanRef =
  isr_offset :: u64
  isr_length :: u64

record SpliceState =
  spl_has_value :: bool
  spl_reference :: InputSpanRef

datatype WriterKind =
  WkNone | WkPointCloud | WkImage | WkDepthImage | WkOccupancyGrid | WkCompressedPointCloud | WkMesh3D
  | WkVideoFrame | WkOccupancyGridUpdate | WkVoxelGrid | WkGridMap

datatype DataSource = DsNone | DsCopied | DsSpliced

record ObjectWriter =
  ow_kind :: WriterKind
  ow_status :: Status
  ow_input_payload :: buffer
  ow_data_source :: DataSource
  ow_point_cloud :: PointCloudState
  ow_image :: ImageState
  ow_depth_image :: DepthImageState
  ow_occupancy_grid :: OccupancyGridState
  ow_compressed_point_cloud :: CompressedPointCloudState
  ow_mesh3d :: Mesh3DState
  ow_video_frame :: VideoFrameState
  ow_occupancy_update :: OccupancyGridUpdateState
  ow_voxel_grid :: VoxelGridState
  ow_grid_map :: GridMapState
  ow_splice :: SpliceState

definition new_ObjectWriter :: "buffer \<Rightarrow> ObjectWriter" where
  "new_ObjectWriter payload = \<lparr>ow_kind = WkNone, ow_status = StOk, ow_input_payload = payload,
     ow_data_source = DsNone, ow_point_cloud = default_PointCloudState,
     ow_image = default_ImageState,
     ow_depth_image = default_DepthImageState,
     ow_occupancy_grid = default_OccupancyGridState,
     ow_compressed_point_cloud = default_CompressedPointCloudState,
     ow_mesh3d = default_Mesh3DState,
     ow_video_frame = default_VideoFrameState,
     ow_occupancy_update = default_OccupancyGridUpdateState,
     ow_voxel_grid = default_VoxelGridState,
     ow_grid_map = default_GridMapState,
     ow_splice = \<lparr>spl_has_value = False, spl_reference = \<lparr>isr_offset = 0, isr_length = 0\<rparr>\<rparr>\<rparr>"

subsection \<open>Operations the builders share\<close>

type_synonym builder_call = "ObjectWriter \<Rightarrow> Status \<times> ObjectWriter"

definition ow_fail :: "string \<Rightarrow> builder_call" where
  "ow_fail message ow =
     (let ow = (if isOk (ow_status ow) then ow\<lparr>ow_status := status_error message\<rparr> else ow) in (ow_status ow, ow))"

definition ow_select :: "WriterKind \<Rightarrow> builder_call" where
  "ow_select kind ow =
     (if ow_kind ow \<noteq> WkNone \<and> ow_kind ow \<noteq> kind
      then ow_fail ''ObjectWriter may emit only one object per parse call'' ow
      else (let ow = ow\<lparr>ow_kind := kind\<rparr> in (ow_status ow, ow)))"

text \<open>A setter that assigns and returns the status of the writer.\<close>

definition ow_assign :: "(ObjectWriter \<Rightarrow> ObjectWriter) \<Rightarrow> builder_call" where
  "ow_assign upd ow = (let ow = upd ow in (ow_status ow, ow))"

definition ow_setString :: "(bytes \<Rightarrow> ObjectWriter \<Rightarrow> ObjectWriter) \<Rightarrow> bytes \<Rightarrow> builder_call" where
  "ow_setString upd v ow = (if \<not> isOk (ow_status ow) then (ow_status ow, ow) else (StOk, upd v ow))"

text \<open>The methods that append an element.\<close>

definition ow_push :: "(ObjectWriter \<Rightarrow> ObjectWriter) \<Rightarrow> builder_call" where
  "ow_push upd ow = (if \<not> isOk (ow_status ow) then (ow_status ow, ow) else (StOk, upd ow))"

definition ow_setData :: "(bytes \<Rightarrow> ObjectWriter \<Rightarrow> ObjectWriter) \<Rightarrow> buffer \<Rightarrow> builder_call" where
  "ow_setData upd v ow =
     (if ow_data_source ow \<noteq> DsNone
      then ow_fail ''pj.parser.contract_violation: object bulk data source was selected more than once'' ow
      else case v of
        NullBuffer n \<Rightarrow> if n \<noteq> 0 then ow_fail ''ObjectWriter data source is null'' ow
                        else (StOk, (upd [] ow)\<lparr>ow_data_source := DsCopied\<rparr>)
      | Buffer bs \<Rightarrow> (StOk, (upd bs ow)\<lparr>ow_data_source := DsCopied\<rparr>))"

definition ow_setDataFromInput :: "InputSpanRef \<Rightarrow> builder_call" where
  "ow_setDataFromInput reference ow =
     (let payload_size = buffer_size (ow_input_payload ow) in
      if ow_data_source ow \<noteq> DsNone
      then ow_fail ''pj.parser.contract_violation: object bulk data source was selected more than once'' ow
      else if unat (isr_offset reference) > payload_size \<or>
              unat (isr_length reference) > payload_size - unat (isr_offset reference)
      then ow_fail ''pj.parser.contract_violation: object splice range is outside the parse payload'' ow
      else if (case ow_input_payload ow of NullBuffer n \<Rightarrow> n \<noteq> 0 | Buffer _ \<Rightarrow> False)
      then ow_fail ''pj.parser.contract_violation: object splice payload storage is null'' ow
      else (StOk, ow\<lparr>ow_splice := \<lparr>spl_has_value = True, spl_reference = reference\<rparr>, ow_data_source := DsSpliced\<rparr>))"


subsection \<open>The builders\<close>

text \<open>
  One definition per builder method: what it returns and the writer after the call. The arguments of
  \<open>setOrigin\<close> and \<open>setPose\<close> are the seven doubles of the pose.
\<close>

subsubsection \<open>\<open>ObjectWriter::PointCloudBuilder\<close>\<close>

definition pcb_new :: builder_call where "pcb_new = ow_select WkPointCloud"

definition pcb_setTimestamp :: "Timestamp \<Rightarrow> builder_call" where
  "pcb_setTimestamp v = ow_assign (ow_point_cloud_update (\<lambda>s. s\<lparr>pcs_timestamp_ns := v\<rparr>))"

definition pcb_setWidth :: "u32 \<Rightarrow> builder_call" where
  "pcb_setWidth v = ow_assign (ow_point_cloud_update (\<lambda>s. s\<lparr>pcs_width := v\<rparr>))"

definition pcb_setHeight :: "u32 \<Rightarrow> builder_call" where
  "pcb_setHeight v = ow_assign (ow_point_cloud_update (\<lambda>s. s\<lparr>pcs_height := v\<rparr>))"

definition pcb_setPointStep :: "u32 \<Rightarrow> builder_call" where
  "pcb_setPointStep v = ow_assign (ow_point_cloud_update (\<lambda>s. s\<lparr>pcs_point_step := v\<rparr>))"

definition pcb_setRowStep :: "u32 \<Rightarrow> builder_call" where
  "pcb_setRowStep v = ow_assign (ow_point_cloud_update (\<lambda>s. s\<lparr>pcs_row_step := v\<rparr>))"

definition pcb_setBigEndian :: "bool \<Rightarrow> builder_call" where
  "pcb_setBigEndian v = ow_assign (ow_point_cloud_update (\<lambda>s. s\<lparr>pcs_is_bigendian := v\<rparr>))"

definition pcb_setDense :: "bool \<Rightarrow> builder_call" where
  "pcb_setDense v = ow_assign (ow_point_cloud_update (\<lambda>s. s\<lparr>pcs_is_dense := v\<rparr>))"

definition pcb_setFrameId :: "bytes \<Rightarrow> builder_call" where
  "pcb_setFrameId v = ow_setString (\<lambda>d. ow_point_cloud_update (\<lambda>s. s\<lparr>pcs_frame_id := d\<rparr>)) v"

definition pcb_setData :: "buffer \<Rightarrow> builder_call" where
  "pcb_setData v = ow_setData (\<lambda>d. ow_point_cloud_update (\<lambda>s. s\<lparr>pcs_data := d\<rparr>)) v"

definition pcb_setDataFromInput :: "InputSpanRef \<Rightarrow> builder_call" where
  "pcb_setDataFromInput reference = ow_setDataFromInput reference"

definition pcb_addField :: "bytes \<Rightarrow> u32 \<Rightarrow> Datatype \<Rightarrow> u32 \<Rightarrow> builder_call" where
  "pcb_addField name offset datatype count = ow_push (ow_point_cloud_update (\<lambda>s. s\<lparr>pcs_fields := pcs_fields s @
     [\<lparr>pf_name = name, pf_offset = offset, pf_datatype = datatype, pf_count = count\<rparr>]\<rparr>))"

subsubsection \<open>\<open>ObjectWriter::ImageBuilder\<close>\<close>

definition imb_new :: builder_call where "imb_new = ow_select WkImage"

definition imb_setTimestamp :: "Timestamp \<Rightarrow> builder_call" where
  "imb_setTimestamp v = ow_assign (ow_image_update (\<lambda>s. s\<lparr>ims_timestamp_ns := v\<rparr>))"

definition imb_setWidth :: "u32 \<Rightarrow> builder_call" where
  "imb_setWidth v = ow_assign (ow_image_update (\<lambda>s. s\<lparr>ims_width := v\<rparr>))"

definition imb_setHeight :: "u32 \<Rightarrow> builder_call" where
  "imb_setHeight v = ow_assign (ow_image_update (\<lambda>s. s\<lparr>ims_height := v\<rparr>))"

definition imb_setEncoding :: "bytes \<Rightarrow> builder_call" where
  "imb_setEncoding v = ow_setString (\<lambda>d. ow_image_update (\<lambda>s. s\<lparr>ims_encoding := d\<rparr>)) v"

definition imb_setRowStep :: "u32 \<Rightarrow> builder_call" where
  "imb_setRowStep v = ow_assign (ow_image_update (\<lambda>s. s\<lparr>ims_row_step := v\<rparr>))"

definition imb_setBigEndian :: "bool \<Rightarrow> builder_call" where
  "imb_setBigEndian v = ow_assign (ow_image_update (\<lambda>s. s\<lparr>ims_is_bigendian := v\<rparr>))"

definition imb_setData :: "buffer \<Rightarrow> builder_call" where
  "imb_setData v = ow_setData (\<lambda>d. ow_image_update (\<lambda>s. s\<lparr>ims_data := d\<rparr>)) v"

definition imb_setDataFromInput :: "InputSpanRef \<Rightarrow> builder_call" where
  "imb_setDataFromInput reference = ow_setDataFromInput reference"

definition imb_setCompressedDepthMin :: "f32 \<Rightarrow> builder_call" where
  "imb_setCompressedDepthMin v = ow_assign (ow_image_update (\<lambda>s. s\<lparr>ims_has_compressed_depth_min := True, ims_compressed_depth_min := v\<rparr>))"

definition imb_setCompressedDepthMax :: "f32 \<Rightarrow> builder_call" where
  "imb_setCompressedDepthMax v = ow_assign (ow_image_update (\<lambda>s. s\<lparr>ims_has_compressed_depth_max := True, ims_compressed_depth_max := v\<rparr>))"

definition imb_setFrameId :: "bytes \<Rightarrow> builder_call" where
  "imb_setFrameId v = ow_setString (\<lambda>d. ow_image_update (\<lambda>s. s\<lparr>ims_frame_id := d\<rparr>)) v"

subsubsection \<open>\<open>ObjectWriter::DepthImageBuilder\<close>\<close>

definition dib_new :: builder_call where "dib_new = ow_select WkDepthImage"

definition dib_setTimestamp :: "Timestamp \<Rightarrow> builder_call" where
  "dib_setTimestamp v = ow_assign (ow_depth_image_update (\<lambda>s. s\<lparr>dis_timestamp_ns := v\<rparr>))"

definition dib_setWidth :: "u32 \<Rightarrow> builder_call" where
  "dib_setWidth v = ow_assign (ow_depth_image_update (\<lambda>s. s\<lparr>dis_width := v\<rparr>))"

definition dib_setHeight :: "u32 \<Rightarrow> builder_call" where
  "dib_setHeight v = ow_assign (ow_depth_image_update (\<lambda>s. s\<lparr>dis_height := v\<rparr>))"

definition dib_setEncoding :: "bytes \<Rightarrow> builder_call" where
  "dib_setEncoding v = ow_setString (\<lambda>d. ow_depth_image_update (\<lambda>s. s\<lparr>dis_encoding := d\<rparr>)) v"

definition dib_setData :: "buffer \<Rightarrow> builder_call" where
  "dib_setData v = ow_setData (\<lambda>d. ow_depth_image_update (\<lambda>s. s\<lparr>dis_data := d\<rparr>)) v"

definition dib_setDataFromInput :: "InputSpanRef \<Rightarrow> builder_call" where
  "dib_setDataFromInput reference = ow_setDataFromInput reference"

definition dib_setIntrinsics :: "f64 list \<Rightarrow> builder_call" where
  "dib_setIntrinsics v = ow_assign (ow_depth_image_update (\<lambda>s. s\<lparr>dis_intrinsics := v\<rparr>))"

definition dib_setDistortionModel :: "bytes \<Rightarrow> builder_call" where
  "dib_setDistortionModel v = ow_setString (\<lambda>d. ow_depth_image_update (\<lambda>s. s\<lparr>dis_distortion_model := d\<rparr>)) v"

definition dib_addDistortionCoefficient :: "f64 \<Rightarrow> builder_call" where
  "dib_addDistortionCoefficient v = ow_push (ow_depth_image_update (\<lambda>s. s\<lparr>dis_distortion := dis_distortion s @ [v]\<rparr>))"

subsubsection \<open>\<open>ObjectWriter::OccupancyGridBuilder\<close>\<close>

definition ogb_new :: builder_call where "ogb_new = ow_select WkOccupancyGrid"

definition ogb_setTimestamp :: "Timestamp \<Rightarrow> builder_call" where
  "ogb_setTimestamp v = ow_assign (ow_occupancy_grid_update (\<lambda>s. s\<lparr>ogs_timestamp_ns := v\<rparr>))"

definition ogb_setFrameId :: "bytes \<Rightarrow> builder_call" where
  "ogb_setFrameId v = ow_setString (\<lambda>d. ow_occupancy_grid_update (\<lambda>s. s\<lparr>ogs_frame_id := d\<rparr>)) v"

definition ogb_setOrigin :: "f64 \<Rightarrow> f64 \<Rightarrow> f64 \<Rightarrow> f64 \<Rightarrow> f64 \<Rightarrow> f64 \<Rightarrow> f64 \<Rightarrow> builder_call" where
  "ogb_setOrigin px py pz qx qy qz qw = ow_assign (ow_occupancy_grid_update (\<lambda>s. s\<lparr>ogs_origin := pose_of px py pz qx qy qz qw\<rparr>))"

definition ogb_setResolution :: "f64 \<Rightarrow> builder_call" where
  "ogb_setResolution v = ow_assign (ow_occupancy_grid_update (\<lambda>s. s\<lparr>ogs_resolution := v\<rparr>))"

definition ogb_setWidth :: "u32 \<Rightarrow> builder_call" where
  "ogb_setWidth v = ow_assign (ow_occupancy_grid_update (\<lambda>s. s\<lparr>ogs_width := v\<rparr>))"

definition ogb_setHeight :: "u32 \<Rightarrow> builder_call" where
  "ogb_setHeight v = ow_assign (ow_occupancy_grid_update (\<lambda>s. s\<lparr>ogs_height := v\<rparr>))"

definition ogb_setData :: "buffer \<Rightarrow> builder_call" where
  "ogb_setData v = ow_setData (\<lambda>d. ow_occupancy_grid_update (\<lambda>s. s\<lparr>ogs_data := d\<rparr>)) v"

definition ogb_setDataFromInput :: "InputSpanRef \<Rightarrow> builder_call" where
  "ogb_setDataFromInput reference = ow_setDataFromInput reference"

subsubsection \<open>\<open>ObjectWriter::CompressedPointCloudBuilder\<close>\<close>

definition cpb_new :: builder_call where "cpb_new = ow_select WkCompressedPointCloud"

definition cpb_setTimestamp :: "Timestamp \<Rightarrow> builder_call" where
  "cpb_setTimestamp v = ow_assign (ow_compressed_point_cloud_update (\<lambda>s. s\<lparr>cps_timestamp_ns := v\<rparr>))"

definition cpb_setFrameId :: "bytes \<Rightarrow> builder_call" where
  "cpb_setFrameId v = ow_setString (\<lambda>d. ow_compressed_point_cloud_update (\<lambda>s. s\<lparr>cps_frame_id := d\<rparr>)) v"

definition cpb_setFormat :: "bytes \<Rightarrow> builder_call" where
  "cpb_setFormat v = ow_setString (\<lambda>d. ow_compressed_point_cloud_update (\<lambda>s. s\<lparr>cps_format := d\<rparr>)) v"

definition cpb_setData :: "buffer \<Rightarrow> builder_call" where
  "cpb_setData v = ow_setData (\<lambda>d. ow_compressed_point_cloud_update (\<lambda>s. s\<lparr>cps_data := d\<rparr>)) v"

definition cpb_setDataFromInput :: "InputSpanRef \<Rightarrow> builder_call" where
  "cpb_setDataFromInput reference = ow_setDataFromInput reference"

subsubsection \<open>\<open>ObjectWriter::Mesh3DBuilder\<close>\<close>

definition msb_new :: builder_call where "msb_new = ow_select WkMesh3D"

definition msb_setTimestamp :: "Timestamp \<Rightarrow> builder_call" where
  "msb_setTimestamp v = ow_assign (ow_mesh3d_update (\<lambda>s. s\<lparr>mss_timestamp_ns := v\<rparr>))"

definition msb_setFrameId :: "bytes \<Rightarrow> builder_call" where
  "msb_setFrameId v = ow_setString (\<lambda>d. ow_mesh3d_update (\<lambda>s. s\<lparr>mss_frame_id := d\<rparr>)) v"

definition msb_setId :: "bytes \<Rightarrow> builder_call" where
  "msb_setId v = ow_setString (\<lambda>d. ow_mesh3d_update (\<lambda>s. s\<lparr>mss_id := d\<rparr>)) v"

definition msb_setPose :: "f64 \<Rightarrow> f64 \<Rightarrow> f64 \<Rightarrow> f64 \<Rightarrow> f64 \<Rightarrow> f64 \<Rightarrow> f64 \<Rightarrow> builder_call" where
  "msb_setPose px py pz qx qy qz qw = ow_assign (ow_mesh3d_update (\<lambda>s. s\<lparr>mss_pose := pose_of px py pz qx qy qz qw\<rparr>))"

definition msb_setScale :: "f64 \<Rightarrow> f64 \<Rightarrow> f64 \<Rightarrow> builder_call" where
  "msb_setScale x y z = ow_assign (ow_mesh3d_update (\<lambda>s. s\<lparr>mss_scale := \<lparr>v3_x = x, v3_y = y, v3_z = z\<rparr>\<rparr>))"

definition msb_setFormat :: "bytes \<Rightarrow> builder_call" where
  "msb_setFormat v = ow_setString (\<lambda>d. ow_mesh3d_update (\<lambda>s. s\<lparr>mss_format := d\<rparr>)) v"

definition msb_setData :: "buffer \<Rightarrow> builder_call" where
  "msb_setData v = ow_setData (\<lambda>d. ow_mesh3d_update (\<lambda>s. s\<lparr>mss_data := d\<rparr>)) v"

definition msb_setDataFromInput :: "InputSpanRef \<Rightarrow> builder_call" where
  "msb_setDataFromInput reference = ow_setDataFromInput reference"

definition msb_setUrl :: "bytes \<Rightarrow> builder_call" where
  "msb_setUrl v = ow_setString (\<lambda>d. ow_mesh3d_update (\<lambda>s. s\<lparr>mss_url := d\<rparr>)) v"

definition msb_setColor :: "f64 \<Rightarrow> f64 \<Rightarrow> f64 \<Rightarrow> f64 \<Rightarrow> builder_call" where
  "msb_setColor r g b a = ow_assign (ow_mesh3d_update (\<lambda>s. s\<lparr>mss_color := \<lparr>cs_r = r, cs_g = g, cs_b = b, cs_a = a\<rparr>\<rparr>))"

definition msb_setOverrideColor :: "bool \<Rightarrow> builder_call" where
  "msb_setOverrideColor v = ow_assign (ow_mesh3d_update (\<lambda>s. s\<lparr>mss_override_color := v\<rparr>))"

subsubsection \<open>\<open>ObjectWriter::VideoFrameBuilder\<close>\<close>

definition vfb_new :: builder_call where "vfb_new = ow_select WkVideoFrame"

definition vfb_setTimestamp :: "Timestamp \<Rightarrow> builder_call" where
  "vfb_setTimestamp v = ow_assign (ow_video_frame_update (\<lambda>s. s\<lparr>vfs_timestamp_ns := v\<rparr>))"

definition vfb_setFrameId :: "bytes \<Rightarrow> builder_call" where
  "vfb_setFrameId v = ow_setString (\<lambda>d. ow_video_frame_update (\<lambda>s. s\<lparr>vfs_frame_id := d\<rparr>)) v"

definition vfb_setData :: "buffer \<Rightarrow> builder_call" where
  "vfb_setData v = ow_setData (\<lambda>d. ow_video_frame_update (\<lambda>s. s\<lparr>vfs_data := d\<rparr>)) v"

definition vfb_setDataFromInput :: "InputSpanRef \<Rightarrow> builder_call" where
  "vfb_setDataFromInput reference = ow_setDataFromInput reference"

definition vfb_setFormat :: "bytes \<Rightarrow> builder_call" where
  "vfb_setFormat v = ow_setString (\<lambda>d. ow_video_frame_update (\<lambda>s. s\<lparr>vfs_format := d\<rparr>)) v"

subsubsection \<open>\<open>ObjectWriter::OccupancyGridUpdateBuilder\<close>\<close>

definition oub_new :: builder_call where "oub_new = ow_select WkOccupancyGridUpdate"

definition oub_setTimestamp :: "Timestamp \<Rightarrow> builder_call" where
  "oub_setTimestamp v = ow_assign (ow_occupancy_update_update (\<lambda>s. s\<lparr>ous_timestamp_ns := v\<rparr>))"

definition oub_setFrameId :: "bytes \<Rightarrow> builder_call" where
  "oub_setFrameId v = ow_setString (\<lambda>d. ow_occupancy_update_update (\<lambda>s. s\<lparr>ous_frame_id := d\<rparr>)) v"

definition oub_setX :: "u32 \<Rightarrow> builder_call" where
  "oub_setX v = ow_assign (ow_occupancy_update_update (\<lambda>s. s\<lparr>ous_x := v\<rparr>))"

definition oub_setY :: "u32 \<Rightarrow> builder_call" where
  "oub_setY v = ow_assign (ow_occupancy_update_update (\<lambda>s. s\<lparr>ous_y := v\<rparr>))"

definition oub_setWidth :: "u32 \<Rightarrow> builder_call" where
  "oub_setWidth v = ow_assign (ow_occupancy_update_update (\<lambda>s. s\<lparr>ous_width := v\<rparr>))"

definition oub_setHeight :: "u32 \<Rightarrow> builder_call" where
  "oub_setHeight v = ow_assign (ow_occupancy_update_update (\<lambda>s. s\<lparr>ous_height := v\<rparr>))"

definition oub_setData :: "buffer \<Rightarrow> builder_call" where
  "oub_setData v = ow_setData (\<lambda>d. ow_occupancy_update_update (\<lambda>s. s\<lparr>ous_data := d\<rparr>)) v"

definition oub_setDataFromInput :: "InputSpanRef \<Rightarrow> builder_call" where
  "oub_setDataFromInput reference = ow_setDataFromInput reference"

subsubsection \<open>\<open>ObjectWriter::VoxelGridBuilder\<close>\<close>

definition vgb_new :: builder_call where "vgb_new = ow_select WkVoxelGrid"

definition vgb_setTimestamp :: "Timestamp \<Rightarrow> builder_call" where
  "vgb_setTimestamp v = ow_assign (ow_voxel_grid_update (\<lambda>s. s\<lparr>vgs_timestamp_ns := v\<rparr>))"

definition vgb_setFrameId :: "bytes \<Rightarrow> builder_call" where
  "vgb_setFrameId v = ow_setString (\<lambda>d. ow_voxel_grid_update (\<lambda>s. s\<lparr>vgs_frame_id := d\<rparr>)) v"

definition vgb_setOrigin :: "f64 \<Rightarrow> f64 \<Rightarrow> f64 \<Rightarrow> f64 \<Rightarrow> f64 \<Rightarrow> f64 \<Rightarrow> f64 \<Rightarrow> builder_call" where
  "vgb_setOrigin px py pz qx qy qz qw = ow_assign (ow_voxel_grid_update (\<lambda>s. s\<lparr>vgs_origin := pose_of px py pz qx qy qz qw\<rparr>))"

definition vgb_setCellSize :: "f64 \<Rightarrow> f64 \<Rightarrow> f64 \<Rightarrow> builder_call" where
  "vgb_setCellSize x y z = ow_assign (ow_voxel_grid_update (\<lambda>s. s\<lparr>vgs_cell_size := \<lparr>v3_x = x, v3_y = y, v3_z = z\<rparr>\<rparr>))"

definition vgb_setColumnCount :: "u32 \<Rightarrow> builder_call" where
  "vgb_setColumnCount v = ow_assign (ow_voxel_grid_update (\<lambda>s. s\<lparr>vgs_column_count := v\<rparr>))"

definition vgb_setRowCount :: "u32 \<Rightarrow> builder_call" where
  "vgb_setRowCount v = ow_assign (ow_voxel_grid_update (\<lambda>s. s\<lparr>vgs_row_count := v\<rparr>))"

definition vgb_setSliceCount :: "u32 \<Rightarrow> builder_call" where
  "vgb_setSliceCount v = ow_assign (ow_voxel_grid_update (\<lambda>s. s\<lparr>vgs_slice_count := v\<rparr>))"

definition vgb_setCellStride :: "u32 \<Rightarrow> builder_call" where
  "vgb_setCellStride v = ow_assign (ow_voxel_grid_update (\<lambda>s. s\<lparr>vgs_cell_stride := v\<rparr>))"

definition vgb_setRowStride :: "u32 \<Rightarrow> builder_call" where
  "vgb_setRowStride v = ow_assign (ow_voxel_grid_update (\<lambda>s. s\<lparr>vgs_row_stride := v\<rparr>))"

definition vgb_setSliceStride :: "u32 \<Rightarrow> builder_call" where
  "vgb_setSliceStride v = ow_assign (ow_voxel_grid_update (\<lambda>s. s\<lparr>vgs_slice_stride := v\<rparr>))"

definition vgb_addField :: "bytes \<Rightarrow> u32 \<Rightarrow> Datatype \<Rightarrow> u32 \<Rightarrow> builder_call" where
  "vgb_addField name offset datatype count = ow_push (ow_voxel_grid_update (\<lambda>s. s\<lparr>vgs_fields := vgs_fields s @
     [\<lparr>pf_name = name, pf_offset = offset, pf_datatype = datatype, pf_count = count\<rparr>]\<rparr>))"

definition vgb_setData :: "buffer \<Rightarrow> builder_call" where
  "vgb_setData v = ow_setData (\<lambda>d. ow_voxel_grid_update (\<lambda>s. s\<lparr>vgs_data := d\<rparr>)) v"

definition vgb_setDataFromInput :: "InputSpanRef \<Rightarrow> builder_call" where
  "vgb_setDataFromInput reference = ow_setDataFromInput reference"

subsubsection \<open>\<open>ObjectWriter::GridMapBuilder\<close>\<close>

definition gmb_new :: builder_call where "gmb_new = ow_select WkGridMap"

definition gmb_setTimestamp :: "Timestamp \<Rightarrow> builder_call" where
  "gmb_setTimestamp v = ow_assign (ow_grid_map_update (\<lambda>s. s\<lparr>gms_timestamp_ns := v\<rparr>))"

definition gmb_setFrameId :: "bytes \<Rightarrow> builder_call" where
  "gmb_setFrameId v = ow_setString (\<lambda>d. ow_grid_map_update (\<lambda>s. s\<lparr>gms_frame_id := d\<rparr>)) v"

definition gmb_setOrigin :: "f64 \<Rightarrow> f64 \<Rightarrow> f64 \<Rightarrow> f64 \<Rightarrow> f64 \<Rightarrow> f64 \<Rightarrow> f64 \<Rightarrow> builder_call" where
  "gmb_setOrigin px py pz qx qy qz qw = ow_assign (ow_grid_map_update (\<lambda>s. s\<lparr>gms_origin := pose_of px py pz qx qy qz qw\<rparr>))"

definition gmb_setCellSize :: "f64 \<Rightarrow> f64 \<Rightarrow> builder_call" where
  "gmb_setCellSize x y = ow_assign (ow_grid_map_update (\<lambda>s. s\<lparr>gms_cell_size := \<lparr>v2_x = x, v2_y = y\<rparr>\<rparr>))"

definition gmb_setColumnCount :: "u32 \<Rightarrow> builder_call" where
  "gmb_setColumnCount v = ow_assign (ow_grid_map_update (\<lambda>s. s\<lparr>gms_column_count := v\<rparr>))"

definition gmb_setRowCount :: "u32 \<Rightarrow> builder_call" where
  "gmb_setRowCount v = ow_assign (ow_grid_map_update (\<lambda>s. s\<lparr>gms_row_count := v\<rparr>))"

definition gmb_setCellStride :: "u32 \<Rightarrow> builder_call" where
  "gmb_setCellStride v = ow_assign (ow_grid_map_update (\<lambda>s. s\<lparr>gms_cell_stride := v\<rparr>))"

definition gmb_setRowStride :: "u32 \<Rightarrow> builder_call" where
  "gmb_setRowStride v = ow_assign (ow_grid_map_update (\<lambda>s. s\<lparr>gms_row_stride := v\<rparr>))"

definition gmb_addField :: "bytes \<Rightarrow> u32 \<Rightarrow> Datatype \<Rightarrow> u32 \<Rightarrow> builder_call" where
  "gmb_addField name offset datatype count = ow_push (ow_grid_map_update (\<lambda>s. s\<lparr>gms_fields := gms_fields s @
     [\<lparr>pf_name = name, pf_offset = offset, pf_datatype = datatype, pf_count = count\<rparr>]\<rparr>))"

definition gmb_setData :: "buffer \<Rightarrow> builder_call" where
  "gmb_setData v = ow_setData (\<lambda>d. ow_grid_map_update (\<lambda>s. s\<lparr>gms_data := d\<rparr>)) v"

definition gmb_setDataFromInput :: "InputSpanRef \<Rightarrow> builder_call" where
  "gmb_setDataFromInput reference = ow_setDataFromInput reference"

subsection \<open>Writing the selected object\<close>

definition ow_writeTimestamp :: "Timestamp \<Rightarrow> wire_op" where
  "ow_writeTimestamp timestamp_ns =
     (let seconds = (of_int (sint timestamp_ns sdiv 1000000000) :: u64);
          nanos = (of_int (sint timestamp_ns smod 1000000000) :: u32);
          (seconds, nanos) = (if sint nanos < 0 then (seconds - 1, nanos + 1000000000) else (seconds, nanos))
      in ww_nested 1 [ww_varintField 1 seconds, ww_varintField 2 (ucast nanos)])"

definition ow_writeVector2 :: "u32 \<Rightarrow> Vector2 \<Rightarrow> wire_op" where
  "ow_writeVector2 field v = ww_nested field [ww_doubleField 1 (v2_x v), ww_doubleField 2 (v2_y v)]"

definition ow_writeVector3 :: "u32 \<Rightarrow> Vector3 \<Rightarrow> wire_op" where
  "ow_writeVector3 field v =
     ww_nested field [ww_doubleField 1 (v3_x v), ww_doubleField 2 (v3_y v), ww_doubleField 3 (v3_z v)]"

definition ow_writePose :: "u32 \<Rightarrow> Pose \<Rightarrow> wire_op" where
  "ow_writePose field v = ww_nested field
     [ow_writeVector3 1 (pose_position v),
      ww_nested 2 [ww_doubleField 1 (quat_x (pose_orientation v)), ww_doubleField 2 (quat_y (pose_orientation v)),
        ww_doubleField 3 (quat_z (pose_orientation v)), ww_doubleField 4 (quat_w (pose_orientation v))]]"

definition ow_writeColor :: "u32 \<Rightarrow> ColorState \<Rightarrow> wire_op" where
  "ow_writeColor field v = ww_nested field
     [ww_doubleField 1 (cs_r v), ww_doubleField 2 (cs_g v), ww_doubleField 3 (cs_b v), ww_doubleField 4 (cs_a v)]"

definition ow_writePointField :: "u32 \<Rightarrow> PointField \<Rightarrow> wire_op" where
  "ow_writePointField field_number field = ww_nested field_number
     [ww_stringField 1 (pf_name field), ww_varintField 2 (ucast (pf_offset field)),
      ww_varintField 3 (ucast (pointFieldDatatypeToWire (pf_datatype field))),
      ww_varintField 4 (ucast (pf_count field))]"

definition ow_writePackedDoubles :: "u32 \<Rightarrow> f64 list \<Rightarrow> wire_op" where
  "ow_writePackedDoubles field values bs =
     bindE (ww_all (map ww_rawFixed64 values) []) (\<lambda>packed. ww_lengthDelimited field packed bs)"

definition ow_writePointCloud :: "PointCloudState \<Rightarrow> bool \<Rightarrow> Status + bytes" where
  "ow_writePointCloud s has_splice = ww_all
     ([ow_writeTimestamp (pcs_timestamp_ns s),
       ww_varintField 2 (ucast (pcs_width s)),
       ww_varintField 3 (ucast (pcs_height s)),
       ww_varintField 4 (ucast (pcs_point_step s)),
       ww_varintField 5 (ucast (pcs_row_step s)),
       ww_varintField 6 (if pcs_is_bigendian s then 1 else 0),
       ww_varintField 7 (if pcs_is_dense s then 1 else 0)]
      @ map (ow_writePointField 8) (pcs_fields s)
      @ [ww_when (\<not> has_splice) (ww_lengthDelimited 9 (pcs_data s)),
         ww_stringField 10 (pcs_frame_id s)]) []"

definition ow_writeImage :: "ImageState \<Rightarrow> bool \<Rightarrow> Status + bytes" where
  "ow_writeImage s has_splice = ww_all
     [ow_writeTimestamp (ims_timestamp_ns s),
      ww_varintField 2 (ucast (ims_width s)),
      ww_varintField 3 (ucast (ims_height s)),
      ww_stringField 4 (ims_encoding s),
      ww_varintField 5 (ucast (ims_row_step s)),
      ww_varintField 6 (if ims_is_bigendian s then 1 else 0),
      ww_when (\<not> has_splice) (ww_lengthDelimited 7 (ims_data s)),
      ww_when (ims_has_compressed_depth_min s) (ww_fixed32Field 8 (ims_compressed_depth_min s)),
      ww_when (ims_has_compressed_depth_max s) (ww_fixed32Field 9 (ims_compressed_depth_max s)),
      ww_stringField 10 (ims_frame_id s)] []"

definition ow_writeDepthImage :: "DepthImageState \<Rightarrow> bool \<Rightarrow> Status + bytes" where
  "ow_writeDepthImage s has_splice = ww_all
     [ow_writeTimestamp (dis_timestamp_ns s),
      ww_varintField 2 (ucast (dis_width s)),
      ww_varintField 3 (ucast (dis_height s)),
      ww_stringField 4 (dis_encoding s),
      ww_when (\<not> has_splice) (ww_lengthDelimited 5 (dis_data s)),
      ow_writePackedDoubles 6 (dis_intrinsics s),
      ww_stringField 7 (dis_distortion_model s),
      ow_writePackedDoubles 8 (dis_distortion s)] []"

definition ow_writeOccupancyGrid :: "OccupancyGridState \<Rightarrow> bool \<Rightarrow> Status + bytes" where
  "ow_writeOccupancyGrid s has_splice = ww_all
     [ow_writeTimestamp (ogs_timestamp_ns s),
      ww_stringField 2 (ogs_frame_id s),
      ow_writePose 3 (ogs_origin s),
      ww_doubleField 4 (ogs_resolution s),
      ww_varintField 5 (ucast (ogs_width s)),
      ww_varintField 6 (ucast (ogs_height s)),
      ww_when (\<not> has_splice) (ww_lengthDelimited 7 (ogs_data s))] []"

definition ow_writeCompressedPointCloud :: "CompressedPointCloudState \<Rightarrow> bool \<Rightarrow> Status + bytes" where
  "ow_writeCompressedPointCloud s has_splice = ww_all
     [ow_writeTimestamp (cps_timestamp_ns s),
      ww_stringField 2 (cps_frame_id s),
      ww_stringField 3 (cps_format s),
      ww_when (\<not> has_splice) (ww_lengthDelimited 4 (cps_data s))] []"

definition ow_writeMesh3D :: "Mesh3DState \<Rightarrow> bool \<Rightarrow> Status + bytes" where
  "ow_writeMesh3D s has_splice = ww_all
     [ow_writeTimestamp (mss_timestamp_ns s),
      ww_stringField 2 (mss_frame_id s),
      ww_stringField 3 (mss_id s),
      ow_writePose 4 (mss_pose s),
      ow_writeVector3 5 (mss_scale s),
      ww_stringField 6 (mss_format s),
      ww_when (\<not> has_splice) (ww_lengthDelimited 7 (mss_data s)),
      ww_stringField 8 (mss_url s),
      ow_writeColor 9 (mss_color s),
      ww_varintField 10 (if mss_override_color s then 1 else 0)] []"

definition ow_writeVideoFrame :: "VideoFrameState \<Rightarrow> bool \<Rightarrow> Status + bytes" where
  "ow_writeVideoFrame s has_splice = ww_all
     [ow_writeTimestamp (vfs_timestamp_ns s),
      ww_stringField 2 (vfs_frame_id s),
      ww_when (\<not> has_splice) (ww_lengthDelimited 3 (vfs_data s)),
      ww_stringField 4 (vfs_format s)] []"

definition ow_writeOccupancyGridUpdate :: "OccupancyGridUpdateState \<Rightarrow> bool \<Rightarrow> Status + bytes" where
  "ow_writeOccupancyGridUpdate s has_splice = ww_all
     [ow_writeTimestamp (ous_timestamp_ns s),
      ww_stringField 2 (ous_frame_id s),
      ww_varintField 3 (ucast (ous_x s)),
      ww_varintField 4 (ucast (ous_y s)),
      ww_varintField 5 (ucast (ous_width s)),
      ww_varintField 6 (ucast (ous_height s)),
      ww_when (\<not> has_splice) (ww_lengthDelimited 7 (ous_data s))] []"

definition ow_writeGridMap :: "GridMapState \<Rightarrow> bool \<Rightarrow> Status + bytes" where
  "ow_writeGridMap s has_splice = ww_all
     ([ow_writeTimestamp (gms_timestamp_ns s),
       ww_stringField 2 (gms_frame_id s),
       ow_writePose 3 (gms_origin s),
       ow_writeVector2 4 (gms_cell_size s),
       ww_varintField 5 (ucast (gms_column_count s)),
       ww_varintField 6 (ucast (gms_row_count s)),
       ww_varintField 7 (ucast (gms_cell_stride s)),
       ww_varintField 8 (ucast (gms_row_stride s))]
      @ map (ow_writePointField 9) (gms_fields s)
      @ [ww_when (\<not> has_splice) (ww_lengthDelimited 10 (gms_data s))]) []"

definition ow_writeVoxelGrid :: "VoxelGridState \<Rightarrow> bool \<Rightarrow> Status + bytes" where
  "ow_writeVoxelGrid s has_splice = ww_all
     ([ow_writeTimestamp (vgs_timestamp_ns s),
       ww_stringField 2 (vgs_frame_id s),
       ow_writePose 3 (vgs_origin s),
       ow_writeVector3 4 (vgs_cell_size s),
       ww_varintField 5 (ucast (vgs_column_count s)),
       ww_varintField 6 (ucast (vgs_row_count s)),
       ww_varintField 7 (ucast (vgs_slice_count s)),
       ww_varintField 8 (ucast (vgs_cell_stride s)),
       ww_varintField 9 (ucast (vgs_row_stride s)),
       ww_varintField 10 (ucast (vgs_slice_stride s))]
      @ map (ow_writePointField 11) (vgs_fields s)
      @ [ww_when (\<not> has_splice) (ww_lengthDelimited 12 (vgs_data s))]) []"

definition ow_writeSelected :: "ObjectWriter \<Rightarrow> Status + bytes" where
  "ow_writeSelected ow = (let has_splice = spl_has_value (ow_splice ow) in case ow_kind ow of
     WkPointCloud \<Rightarrow> ow_writePointCloud (ow_point_cloud ow) has_splice
   | WkImage \<Rightarrow> ow_writeImage (ow_image ow) has_splice
   | WkDepthImage \<Rightarrow> ow_writeDepthImage (ow_depth_image ow) has_splice
   | WkOccupancyGrid \<Rightarrow> ow_writeOccupancyGrid (ow_occupancy_grid ow) has_splice
   | WkCompressedPointCloud \<Rightarrow> ow_writeCompressedPointCloud (ow_compressed_point_cloud ow) has_splice
   | WkMesh3D \<Rightarrow> ow_writeMesh3D (ow_mesh3d ow) has_splice
   | WkVideoFrame \<Rightarrow> ow_writeVideoFrame (ow_video_frame ow) has_splice
   | WkOccupancyGridUpdate \<Rightarrow> ow_writeOccupancyGridUpdate (ow_occupancy_update ow) has_splice
   | WkVoxelGrid \<Rightarrow> ow_writeVoxelGrid (ow_voxel_grid ow) has_splice
   | WkGridMap \<Rightarrow> ow_writeGridMap (ow_grid_map ow) has_splice
   | WkNone \<Rightarrow> Inl (status_error ''ObjectWriter has no selected object type''))"

fun selectedObjectType :: "WriterKind \<Rightarrow> u16" where
  "selectedObjectType WkImage = 1"
| "selectedObjectType WkPointCloud = 3"
| "selectedObjectType WkDepthImage = 4"
| "selectedObjectType WkOccupancyGrid = 7"
| "selectedObjectType WkCompressedPointCloud = 8"
| "selectedObjectType WkMesh3D = 9"
| "selectedObjectType WkVideoFrame = 10"
| "selectedObjectType WkOccupancyGridUpdate = 15"
| "selectedObjectType WkVoxelGrid = 18"
| "selectedObjectType WkGridMap = 20"
| "selectedObjectType WkNone = 0"

fun selectedSpliceField :: "WriterKind \<Rightarrow> u32" where
  "selectedSpliceField WkImage = 7"
| "selectedSpliceField WkPointCloud = 9"
| "selectedSpliceField WkDepthImage = 5"
| "selectedSpliceField WkOccupancyGrid = 7"
| "selectedSpliceField WkCompressedPointCloud = 4"
| "selectedSpliceField WkMesh3D = 7"
| "selectedSpliceField WkVideoFrame = 3"
| "selectedSpliceField WkOccupancyGridUpdate = 7"
| "selectedSpliceField WkVoxelGrid = 12"
| "selectedSpliceField WkGridMap = 10"
| "selectedSpliceField WkNone = 0"

definition appendLittle :: "u64 \<Rightarrow> nat \<Rightarrow> bytes" where
  "appendLittle v width = map (\<lambda>i. ucast (drop_bit (i * 8) v)) [0..<width]"

definition ow_finish :: "ObjectWriter \<Rightarrow> Status + bytes" where
  "ow_finish ow =
     (if \<not> isOk (ow_status ow) then Inl (ow_status ow)
      else if ow_kind ow = WkNone then Inl (status_error ''ObjectWriter has no selected object type'')
      else bindE (ow_writeSelected ow) (\<lambda>wire.
        let has_splice = spl_has_value (ow_splice ow); reference = spl_reference (ow_splice ow)
        in Inr (appendLittle 1 2 @ [2] @ [0] @ appendLittle (ucast (selectedObjectType (ow_kind ow))) 2
          @ appendLittle (if has_splice then 1 else 0) 2
          @ appendLittle (if has_splice then ucast (selectedSpliceField (ow_kind ow)) else 0) 4
          @ appendLittle (if has_splice then isr_offset reference else 0) 8
          @ appendLittle (if has_splice then isr_length reference else 0) 8
          @ appendLittle (of_nat (length wire)) 8 @ wire)))"

subsection \<open>\<open>ScalarWriter\<close>\<close>

text \<open>The variant of the values is that of the descriptor, with an owned string.\<close>

record ScalarWriter =
  sw_has_timestamp :: bool
  sw_timestamp_ns :: Timestamp
  sw_fields :: "ScalarFieldV1 list"
  sw_status :: Status

definition new_ScalarWriter :: ScalarWriter where
  "new_ScalarWriter = \<lparr>sw_has_timestamp = False, sw_timestamp_ns = 0, sw_fields = [], sw_status = StOk\<rparr>"

definition sw_fail :: "string \<Rightarrow> ScalarWriter \<Rightarrow> Status \<times> ScalarWriter" where
  "sw_fail message sw =
     (let sw = (if isOk (sw_status sw) then sw\<lparr>sw_status := status_error message\<rparr> else sw) in (sw_status sw, sw))"

definition sw_setTimestamp :: "Timestamp \<Rightarrow> ScalarWriter \<Rightarrow> Status \<times> ScalarWriter" where
  "sw_setTimestamp timestamp_ns sw = (sw_status sw, sw\<lparr>sw_has_timestamp := True, sw_timestamp_ns := timestamp_ns\<rparr>)"

definition sw_addValue :: "bytes \<Rightarrow> ScalarValueV1 \<Rightarrow> ScalarWriter \<Rightarrow> Status \<times> ScalarWriter" where
  "sw_addValue name v sw =
     (if \<not> isOk (sw_status sw) then (sw_status sw, sw)
      else (StOk, sw\<lparr>sw_fields := sw_fields sw @ [\<lparr>scf_name = name, scf_value = v\<rparr>]\<rparr>))"

definition sw_add_double :: "bytes \<Rightarrow> f64 \<Rightarrow> ScalarWriter \<Rightarrow> Status \<times> ScalarWriter" where
  "sw_add_double name v = sw_addValue name (SvF64 v)"
definition sw_add_int64 :: "bytes \<Rightarrow> u64 \<Rightarrow> ScalarWriter \<Rightarrow> Status \<times> ScalarWriter" where
  "sw_add_int64 name v = sw_addValue name (SvI64 v)"
definition sw_add_uint64 :: "bytes \<Rightarrow> u64 \<Rightarrow> ScalarWriter \<Rightarrow> Status \<times> ScalarWriter" where
  "sw_add_uint64 name v = sw_addValue name (SvU64 v)"
definition sw_add_bool :: "bytes \<Rightarrow> bool \<Rightarrow> ScalarWriter \<Rightarrow> Status \<times> ScalarWriter" where
  "sw_add_bool name v = sw_addValue name (SvBool v)"
definition sw_add_string :: "bytes \<Rightarrow> bytes \<Rightarrow> ScalarWriter \<Rightarrow> Status \<times> ScalarWriter" where
  "sw_add_string name v = sw_addValue name (SvString v)"

text \<open>A C string: None is the null pointer.\<close>

definition sw_add_cstring :: "bytes \<Rightarrow> bytes option \<Rightarrow> ScalarWriter \<Rightarrow> Status \<times> ScalarWriter" where
  "sw_add_cstring name v = sw_add_string name (case v of None \<Rightarrow> [] | Some s \<Rightarrow> s)"

definition sw_value_size :: "ScalarValueV1 \<Rightarrow> Status + nat" where
  "sw_value_size v = (case v of
     SvBool _ \<Rightarrow> Inr 1
   | SvString s \<Rightarrow>
       if length s > uint32_max then Inl (status_error ''scalar string exceeds the descriptor length range'')
       else Inr (4 + length s)
   | _ \<Rightarrow> Inr 8)"

fun sw_values_end :: "ScalarFieldV1 list \<Rightarrow> nat \<Rightarrow> Status + nat" where
  "sw_values_end [] names_offset = Inr names_offset"
| "sw_values_end (f # fs) names_offset = bindE (sw_value_size (scf_value f)) (\<lambda>value_size.
     if names_offset > size_max - 9 - value_size
     then Inl (status_error ''scalar output descriptor size overflow'')
     else sw_values_end fs (names_offset + (9 + value_size)))"

fun sw_names_end :: "ScalarFieldV1 list \<Rightarrow> nat \<Rightarrow> Status + nat" where
  "sw_names_end [] total_size = Inr total_size"
| "sw_names_end (f # fs) total_size =
     (if length (scf_name f) > uint32_max \<or> length (scf_name f) > size_max - total_size
      then Inl (status_error ''scalar field names exceed the descriptor offset range'')
      else sw_names_end fs (total_size + length (scf_name f)))"

definition sw_writeValue :: "ScalarValueV1 \<Rightarrow> bytes" where
  "sw_writeValue v = (case v of
     SvF64 d \<Rightarrow> [0] @ appendLittle d 8
   | SvI64 i \<Rightarrow> [1] @ appendLittle i 8
   | SvU64 u \<Rightarrow> [2] @ appendLittle u 8
   | SvBool b \<Rightarrow> [3] @ [if b then 1 else 0]
   | SvString s \<Rightarrow> [4] @ appendLittle (of_nat (length s)) 4 @ s)"

text \<open>The loop over the fields, with the offset of the next name.\<close>

fun sw_write_fields :: "ScalarFieldV1 list \<Rightarrow> nat \<Rightarrow> bytes" where
  "sw_write_fields [] current_name = []"
| "sw_write_fields (f # fs) current_name =
     appendLittle (of_nat current_name) 4 @ appendLittle (of_nat (length (scf_name f))) 4
     @ sw_writeValue (scf_value f) @ sw_write_fields fs (current_name + length (scf_name f))"

definition sw_finish :: "ScalarWriter \<Rightarrow> Status + bytes" where
  "sw_finish sw =
     (if \<not> isOk (sw_status sw) then Inl (sw_status sw)
      else bindE (sw_values_end (sw_fields sw) 24) (\<lambda>names_offset.
        bindE (sw_names_end (sw_fields sw) names_offset) (\<lambda>total_size.
        if total_size > uint32_max \<or> length (sw_fields sw) > uint32_max
        then Inl (status_error ''scalar output descriptor exceeds the v1 offset range'')
        else Inr (appendLittle 1 2 @ [1] @ [0] @ [if sw_has_timestamp sw then 1 else 0] @ replicate 7 0
          @ appendLittle (sw_timestamp_ns sw) 8 @ appendLittle (of_nat (length (sw_fields sw))) 4
          @ sw_write_fields (sw_fields sw) names_offset @ concat (map scf_name (sw_fields sw))))))"


subsection \<open>Calls of a parser\<close>

text \<open>Every method a parser module can call on a writer through a builder.\<close>

inductive builder_method :: "builder_call \<Rightarrow> bool" where
   pcb_new_method: "builder_method pcb_new"
| pcb_setTimestamp_method: "builder_method (pcb_setTimestamp a)"
| pcb_setWidth_method: "builder_method (pcb_setWidth a)"
| pcb_setHeight_method: "builder_method (pcb_setHeight a)"
| pcb_setPointStep_method: "builder_method (pcb_setPointStep a)"
| pcb_setRowStep_method: "builder_method (pcb_setRowStep a)"
| pcb_setBigEndian_method: "builder_method (pcb_setBigEndian a)"
| pcb_setDense_method: "builder_method (pcb_setDense a)"
| pcb_setFrameId_method: "builder_method (pcb_setFrameId a)"
| pcb_setData_method: "builder_method (pcb_setData a)"
| pcb_setDataFromInput_method: "builder_method (pcb_setDataFromInput a)"
| pcb_addField_method: "builder_method (pcb_addField a b c e)"
| imb_new_method: "builder_method imb_new"
| imb_setTimestamp_method: "builder_method (imb_setTimestamp a)"
| imb_setWidth_method: "builder_method (imb_setWidth a)"
| imb_setHeight_method: "builder_method (imb_setHeight a)"
| imb_setEncoding_method: "builder_method (imb_setEncoding a)"
| imb_setRowStep_method: "builder_method (imb_setRowStep a)"
| imb_setBigEndian_method: "builder_method (imb_setBigEndian a)"
| imb_setData_method: "builder_method (imb_setData a)"
| imb_setDataFromInput_method: "builder_method (imb_setDataFromInput a)"
| imb_setCompressedDepthMin_method: "builder_method (imb_setCompressedDepthMin a)"
| imb_setCompressedDepthMax_method: "builder_method (imb_setCompressedDepthMax a)"
| imb_setFrameId_method: "builder_method (imb_setFrameId a)"
| dib_new_method: "builder_method dib_new"
| dib_setTimestamp_method: "builder_method (dib_setTimestamp a)"
| dib_setWidth_method: "builder_method (dib_setWidth a)"
| dib_setHeight_method: "builder_method (dib_setHeight a)"
| dib_setEncoding_method: "builder_method (dib_setEncoding a)"
| dib_setData_method: "builder_method (dib_setData a)"
| dib_setDataFromInput_method: "builder_method (dib_setDataFromInput a)"
| dib_setIntrinsics_method: "length a = 9 \<Longrightarrow> builder_method (dib_setIntrinsics a)"
| dib_setDistortionModel_method: "builder_method (dib_setDistortionModel a)"
| dib_addDistortionCoefficient_method: "builder_method (dib_addDistortionCoefficient a)"
| ogb_new_method: "builder_method ogb_new"
| ogb_setTimestamp_method: "builder_method (ogb_setTimestamp a)"
| ogb_setFrameId_method: "builder_method (ogb_setFrameId a)"
| ogb_setOrigin_method: "builder_method (ogb_setOrigin a b c e f g h)"
| ogb_setResolution_method: "builder_method (ogb_setResolution a)"
| ogb_setWidth_method: "builder_method (ogb_setWidth a)"
| ogb_setHeight_method: "builder_method (ogb_setHeight a)"
| ogb_setData_method: "builder_method (ogb_setData a)"
| ogb_setDataFromInput_method: "builder_method (ogb_setDataFromInput a)"
| cpb_new_method: "builder_method cpb_new"
| cpb_setTimestamp_method: "builder_method (cpb_setTimestamp a)"
| cpb_setFrameId_method: "builder_method (cpb_setFrameId a)"
| cpb_setFormat_method: "builder_method (cpb_setFormat a)"
| cpb_setData_method: "builder_method (cpb_setData a)"
| cpb_setDataFromInput_method: "builder_method (cpb_setDataFromInput a)"
| msb_new_method: "builder_method msb_new"
| msb_setTimestamp_method: "builder_method (msb_setTimestamp a)"
| msb_setFrameId_method: "builder_method (msb_setFrameId a)"
| msb_setId_method: "builder_method (msb_setId a)"
| msb_setPose_method: "builder_method (msb_setPose a b c e f g h)"
| msb_setScale_method: "builder_method (msb_setScale a b c)"
| msb_setFormat_method: "builder_method (msb_setFormat a)"
| msb_setData_method: "builder_method (msb_setData a)"
| msb_setDataFromInput_method: "builder_method (msb_setDataFromInput a)"
| msb_setUrl_method: "builder_method (msb_setUrl a)"
| msb_setColor_method: "builder_method (msb_setColor a b c e)"
| msb_setOverrideColor_method: "builder_method (msb_setOverrideColor a)"
| vfb_new_method: "builder_method vfb_new"
| vfb_setTimestamp_method: "builder_method (vfb_setTimestamp a)"
| vfb_setFrameId_method: "builder_method (vfb_setFrameId a)"
| vfb_setData_method: "builder_method (vfb_setData a)"
| vfb_setDataFromInput_method: "builder_method (vfb_setDataFromInput a)"
| vfb_setFormat_method: "builder_method (vfb_setFormat a)"
| oub_new_method: "builder_method oub_new"
| oub_setTimestamp_method: "builder_method (oub_setTimestamp a)"
| oub_setFrameId_method: "builder_method (oub_setFrameId a)"
| oub_setX_method: "builder_method (oub_setX a)"
| oub_setY_method: "builder_method (oub_setY a)"
| oub_setWidth_method: "builder_method (oub_setWidth a)"
| oub_setHeight_method: "builder_method (oub_setHeight a)"
| oub_setData_method: "builder_method (oub_setData a)"
| oub_setDataFromInput_method: "builder_method (oub_setDataFromInput a)"
| vgb_new_method: "builder_method vgb_new"
| vgb_setTimestamp_method: "builder_method (vgb_setTimestamp a)"
| vgb_setFrameId_method: "builder_method (vgb_setFrameId a)"
| vgb_setOrigin_method: "builder_method (vgb_setOrigin a b c e f g h)"
| vgb_setCellSize_method: "builder_method (vgb_setCellSize a b c)"
| vgb_setColumnCount_method: "builder_method (vgb_setColumnCount a)"
| vgb_setRowCount_method: "builder_method (vgb_setRowCount a)"
| vgb_setSliceCount_method: "builder_method (vgb_setSliceCount a)"
| vgb_setCellStride_method: "builder_method (vgb_setCellStride a)"
| vgb_setRowStride_method: "builder_method (vgb_setRowStride a)"
| vgb_setSliceStride_method: "builder_method (vgb_setSliceStride a)"
| vgb_addField_method: "builder_method (vgb_addField a b c e)"
| vgb_setData_method: "builder_method (vgb_setData a)"
| vgb_setDataFromInput_method: "builder_method (vgb_setDataFromInput a)"
| gmb_new_method: "builder_method gmb_new"
| gmb_setTimestamp_method: "builder_method (gmb_setTimestamp a)"
| gmb_setFrameId_method: "builder_method (gmb_setFrameId a)"
| gmb_setOrigin_method: "builder_method (gmb_setOrigin a b c e f g h)"
| gmb_setCellSize_method: "builder_method (gmb_setCellSize a b)"
| gmb_setColumnCount_method: "builder_method (gmb_setColumnCount a)"
| gmb_setRowCount_method: "builder_method (gmb_setRowCount a)"
| gmb_setCellStride_method: "builder_method (gmb_setCellStride a)"
| gmb_setRowStride_method: "builder_method (gmb_setRowStride a)"
| gmb_addField_method: "builder_method (gmb_addField a b c e)"
| gmb_setData_method: "builder_method (gmb_setData a)"
| gmb_setDataFromInput_method: "builder_method (gmb_setDataFromInput a)"

lemmas builder_defs =
  pcb_new_def pcb_setTimestamp_def pcb_setWidth_def pcb_setHeight_def pcb_setPointStep_def
  pcb_setRowStep_def pcb_setBigEndian_def pcb_setDense_def pcb_setFrameId_def pcb_setData_def
  pcb_setDataFromInput_def pcb_addField_def imb_new_def imb_setTimestamp_def imb_setWidth_def
  imb_setHeight_def imb_setEncoding_def imb_setRowStep_def imb_setBigEndian_def imb_setData_def
  imb_setDataFromInput_def imb_setCompressedDepthMin_def imb_setCompressedDepthMax_def
  imb_setFrameId_def dib_new_def dib_setTimestamp_def dib_setWidth_def dib_setHeight_def
  dib_setEncoding_def dib_setData_def dib_setDataFromInput_def dib_setIntrinsics_def
  dib_setDistortionModel_def dib_addDistortionCoefficient_def ogb_new_def ogb_setTimestamp_def
  ogb_setFrameId_def ogb_setOrigin_def ogb_setResolution_def ogb_setWidth_def ogb_setHeight_def
  ogb_setData_def ogb_setDataFromInput_def cpb_new_def cpb_setTimestamp_def cpb_setFrameId_def
  cpb_setFormat_def cpb_setData_def cpb_setDataFromInput_def msb_new_def msb_setTimestamp_def
  msb_setFrameId_def msb_setId_def msb_setPose_def msb_setScale_def msb_setFormat_def
  msb_setData_def msb_setDataFromInput_def msb_setUrl_def msb_setColor_def msb_setOverrideColor_def
  vfb_new_def vfb_setTimestamp_def vfb_setFrameId_def vfb_setData_def vfb_setDataFromInput_def
  vfb_setFormat_def oub_new_def oub_setTimestamp_def oub_setFrameId_def oub_setX_def oub_setY_def
  oub_setWidth_def oub_setHeight_def oub_setData_def oub_setDataFromInput_def vgb_new_def
  vgb_setTimestamp_def vgb_setFrameId_def vgb_setOrigin_def vgb_setCellSize_def
  vgb_setColumnCount_def vgb_setRowCount_def vgb_setSliceCount_def vgb_setCellStride_def
  vgb_setRowStride_def vgb_setSliceStride_def vgb_addField_def vgb_setData_def
  vgb_setDataFromInput_def gmb_new_def gmb_setTimestamp_def gmb_setFrameId_def gmb_setOrigin_def
  gmb_setCellSize_def gmb_setColumnCount_def gmb_setRowCount_def gmb_setCellStride_def
  gmb_setRowStride_def gmb_addField_def gmb_setData_def gmb_setDataFromInput_def

subsection \<open>What every call keeps\<close>

text \<open>
  The state of a writer that a parser has reached by calls on its builders. The payload is the one
  it was made with; a splice is there exactly when it is the chosen source, and lies inside the
  payload; and the nine intrinsics are nine.
\<close>

inductive writer_reachable :: "buffer \<Rightarrow> ObjectWriter \<Rightarrow> bool" for payload where
  reach_new: "writer_reachable payload (new_ObjectWriter payload)"
| reach_call: "writer_reachable payload ow \<Longrightarrow> builder_method call \<Longrightarrow> writer_reachable payload (snd (call ow))"

definition writer_ok :: "buffer \<Rightarrow> ObjectWriter \<Rightarrow> bool" where
  "writer_ok payload ow \<longleftrightarrow>
     ow_input_payload ow = payload \<and>
     (spl_has_value (ow_splice ow) \<longleftrightarrow> ow_data_source ow = DsSpliced) \<and>
     (ow_data_source ow = DsSpliced \<longrightarrow>
        unat (isr_offset (spl_reference (ow_splice ow))) + unat (isr_length (spl_reference (ow_splice ow)))
          \<le> length (buffer_bytes payload)) \<and>
     length (dis_intrinsics (ow_depth_image ow)) = 9"

text \<open>A call that leaves everything but the fields of the objects alone.\<close>

definition core_of :: "ObjectWriter \<Rightarrow> buffer \<times> SpliceState \<times> DataSource \<times> nat" where
  "core_of ow = (ow_input_payload ow, ow_splice ow, ow_data_source ow, length (dis_intrinsics (ow_depth_image ow)))"

lemma writer_ok_core: "core_of ow' = core_of ow \<Longrightarrow> writer_ok p ow \<Longrightarrow> writer_ok p ow'"
  by (simp add: core_of_def writer_ok_def)

lemma core_of_fail: "core_of (snd (ow_fail message ow)) = core_of ow"
  by (simp add: ow_fail_def core_of_def)

lemma writer_ok_select: "writer_ok p ow \<Longrightarrow> writer_ok p (snd (ow_select kind ow))"
  by (rule writer_ok_core [of _ ow]) (simp_all add: ow_select_def core_of_def ow_fail_def)

lemma writer_ok_assign: "core_of (upd ow) = core_of ow \<Longrightarrow> writer_ok p ow \<Longrightarrow> writer_ok p (snd (ow_assign upd ow))"
  by (rule writer_ok_core [of _ ow]) (simp_all add: ow_assign_def Let_def)

lemma writer_ok_setString:
  "core_of (upd v ow) = core_of ow \<Longrightarrow> writer_ok p ow \<Longrightarrow> writer_ok p (snd (ow_setString upd v ow))"
  by (rule writer_ok_core [of _ ow]) (simp_all add: ow_setString_def)

lemma writer_ok_push: "core_of (upd ow) = core_of ow \<Longrightarrow> writer_ok p ow \<Longrightarrow> writer_ok p (snd (ow_push upd ow))"
  by (rule writer_ok_core [of _ ow]) (simp_all add: ow_push_def)

lemma writer_ok_setData:
  assumes "\<And>d. core_of (upd d ow) = core_of ow" and "writer_ok p ow"
  shows "writer_ok p (snd (ow_setData upd v ow))"
proof -
  have "writer_ok p ((upd d ow)\<lparr>ow_data_source := DsCopied\<rparr>)" if "ow_data_source ow = DsNone" for d
    using assms(1) [of d] assms(2) that by (simp add: writer_ok_def core_of_def)
  then show ?thesis
    using assms(2) writer_ok_core [OF core_of_fail assms(2)]
    by (simp add: ow_setData_def split: buffer.split)
qed

lemma writer_ok_setDataFromInput:
  assumes "writer_ok p ow"
  shows "writer_ok p (snd (ow_setDataFromInput reference ow))"
proof -
  note failed = writer_ok_core [OF core_of_fail assms]
  show ?thesis
    using assms failed
    by (cases p) (auto simp: ow_setDataFromInput_def Let_def writer_ok_def)
qed

lemmas writer_ok_calls = writer_ok_select writer_ok_assign writer_ok_setString writer_ok_push writer_ok_setData
  writer_ok_setDataFromInput

lemma writer_ok_intrinsics:
  "length a = 9 \<Longrightarrow> writer_ok p ow \<Longrightarrow>
   writer_ok p (snd (ow_assign (ow_depth_image_update (dis_intrinsics_update (\<lambda>_. a))) ow))"
  by (simp add: ow_assign_def writer_ok_def)

lemma writer_ok_new: "writer_ok p (new_ObjectWriter p)"
  by (simp add: new_ObjectWriter_def writer_ok_def default_DepthImageState_def)

lemma writer_ok_method: "builder_method call \<Longrightarrow> writer_ok p ow \<Longrightarrow> writer_ok p (snd (call ow))"
  by (induction rule: builder_method.induct)
    (simp_all add: builder_defs writer_ok_intrinsics writer_ok_calls core_of_def)

lemma writer_reachable_ok: "writer_reachable p ow \<Longrightarrow> writer_ok p ow"
  by (induction rule: writer_reachable.induct)
    (simp_all add: writer_ok_new writer_ok_method)

text \<open>The first error stays, and the kind once chosen.\<close>

definition keeps_failure :: "builder_call \<Rightarrow> bool" where
  "keeps_failure call \<longleftrightarrow> (\<forall>ow. \<not> isOk (ow_status ow) \<longrightarrow> ow_status (snd (call ow)) = ow_status ow)"

definition keeps_kind :: "builder_call \<Rightarrow> bool" where
  "keeps_kind call \<longleftrightarrow> (\<forall>ow. ow_kind ow \<noteq> WkNone \<longrightarrow> ow_kind (snd (call ow)) = ow_kind ow)"

lemma keeps_calls:
  "keeps_failure (ow_select kind)" "keeps_failure (ow_setDataFromInput reference)"
  "keeps_kind (ow_select kind)" "keeps_kind (ow_setDataFromInput reference)"
  by (auto simp: keeps_failure_def keeps_kind_def ow_select_def ow_setDataFromInput_def ow_fail_def Let_def)

lemma keeps_updates:
  "(\<And>ow. ow_status (upd ow) = ow_status ow) \<Longrightarrow> keeps_failure (ow_assign upd)"
  "(\<And>ow. ow_kind (upd ow) = ow_kind ow) \<Longrightarrow> keeps_kind (ow_assign upd)"
  "(\<And>ow. ow_status (upd ow) = ow_status ow) \<Longrightarrow> keeps_failure (ow_push upd)"
  "(\<And>ow. ow_kind (upd ow) = ow_kind ow) \<Longrightarrow> keeps_kind (ow_push upd)"
  "(\<And>d ow. ow_status (fld d ow) = ow_status ow) \<Longrightarrow> keeps_failure (ow_setString fld v)"
  "(\<And>d ow. ow_kind (fld d ow) = ow_kind ow) \<Longrightarrow> keeps_kind (ow_setString fld v)"
  "(\<And>d ow. ow_status (fld d ow) = ow_status ow) \<Longrightarrow> keeps_failure (ow_setData fld b)"
  "(\<And>d ow. ow_kind (fld d ow) = ow_kind ow) \<Longrightarrow> keeps_kind (ow_setData fld b)"
  by (auto simp: keeps_failure_def keeps_kind_def ow_assign_def ow_push_def ow_setString_def ow_setData_def ow_fail_def
      Let_def split: buffer.split)

lemma method_keeps: "builder_method call \<Longrightarrow> keeps_failure call \<and> keeps_kind call"
  by (induction rule: builder_method.induct) (simp_all add: builder_defs keeps_calls keeps_updates)

end

