(* ===== verification/ModuleExports.thy ===== *)
theory ModuleExports
  imports ObjectWriter CdrLocator
begin

section \<open>The exports of a parser module (\<open>parser_module/module.hpp\<close>)\<close>

text \<open>
  The module side of the interface: its own readers of the two input blocks, and the table of
  instances behind the exported functions. A token names a slot and a generation; destroying an
  instance moves its slot to the next generation, and a slot whose generation has wrapped around is
  never used again. The parser class of the module is a parameter, with exceptions as None; the
  memory a caller passes is the bytes at the address (a null address is \<open>NullBuffer\<close>), and the two
  output pointers are the block that is written through them. Allocation always succeeds.
\<close>

subsection \<open>Readers\<close>

text \<open>\<open>LittleEndianReader\<close>: the bytes behind its position.\<close>

definition ler_read :: "nat \<Rightarrow> byte_reader \<Rightarrow> (u64 \<times> byte_reader) option" where
  "ler_read width r = (if width > length r then None else Some (le_loop (take width r) 0 0, drop width r))"

definition ler_read16 :: "byte_reader \<Rightarrow> (u16 \<times> byte_reader) option" where
  "ler_read16 r = do { (v, r) \<leftarrow> ler_read 2 r; Some (ucast v, r) }"
definition ler_read32 :: "byte_reader \<Rightarrow> (u32 \<times> byte_reader) option" where
  "ler_read32 r = do { (v, r) \<leftarrow> ler_read 4 r; Some (ucast v, r) }"

definition ler_skip :: "nat \<Rightarrow> byte_reader \<Rightarrow> byte_reader option" where
  "ler_skip n r = (if n > length r then None else Some (drop n r))"

definition module_error :: "string \<Rightarrow> Status + 'a" where
  "module_error message = Inl (status_error message)"

definition module_binding_header :: "byte_reader \<Rightarrow> (u16 \<times> u16 \<times> u32 \<times> u16 \<times> u32 \<times> byte_reader) option" where
  "module_binding_header r = do {
     (version, r) \<leftarrow> ler_read16 r;
     (route, r) \<leftarrow> ler_read16 r;
     (claim_index, r) \<leftarrow> ler_read32 r;
     (expected_type, r) \<leftarrow> ler_read16 r;
     (reserved, r) \<leftarrow> ler_read16 r;
     (field_count, r) \<leftarrow> ler_read32 r;
     Some (version, route, claim_index, expected_type, field_count, r) }"

fun module_binding_loop :: "bytes \<Rightarrow> nat \<Rightarrow> nat \<Rightarrow> bytes list \<Rightarrow> byte_reader \<Rightarrow> Status + bytes list" where
  "module_binding_loop block 0 index spans r = Inr spans"
| "module_binding_loop block (Suc count) index spans r =
     (case do { (offset, r) \<leftarrow> ler_read32 r; (len, r) \<leftarrow> ler_read32 r; Some (offset, len, r) } of
        None \<Rightarrow> module_error ''truncated BindingInfo field descriptor''
      | Some (offset, len, r) \<Rightarrow>
          if unat offset > length block \<or> unat len > length block - unat offset
          then module_error ''BindingInfo field range is outside the block''
          else module_binding_loop block count (index + 1)
            (if index < 6 then spans[index := subspan block (unat offset) (unat len)] else spans) r)"

definition readBindingInfo :: "buffer \<Rightarrow> Status + BindingInfoV1" where
  "readBindingInfo view = (case view of
     NullBuffer n \<Rightarrow> module_error ''truncated BindingInfo v1 header''
   | Buffer block \<Rightarrow>
       if length block < 16 then module_error ''truncated BindingInfo v1 header''
       else (case module_binding_header block of
          None \<Rightarrow> module_error ''truncated BindingInfo v1 header''
        | Some (version, route, claim_index, expected_type, field_count, r) \<Rightarrow>
            if version \<noteq> 1 \<or> (route \<noteq> 1 \<and> route \<noteq> 2)
            then module_error ''unsupported BindingInfo version or route''
            else if unat field_count < 6 \<or> unat field_count > length r div 8
            then module_error ''truncated BindingInfo field table''
            else bindE (module_binding_loop block (unat field_count) 0 (replicate 6 []) r)
                   (\<lambda>spans. Inr (binding_of_spans route claim_index expected_type spans))))"

definition readParseInput :: "buffer \<Rightarrow> Status + ParseInputV1" where
  "readParseInput view = (case view of
     NullBuffer n \<Rightarrow> module_error ''truncated ParseInput v1 header''
   | Buffer block \<Rightarrow>
       if length block < 24 then module_error ''truncated ParseInput v1 header''
       else let flags = block ! 0 in
         if flags AND 0xFE \<noteq> 0 then module_error ''ParseInput v1 has unknown flag bits''
         else (case ler_skip 8 block of
            None \<Rightarrow> module_error ''truncated ParseInput v1 flags''
          | Some r \<Rightarrow>
              (case do { (timestamp, r) \<leftarrow> ler_read 8 r; (payload_length, r) \<leftarrow> ler_read 8 r;
                         Some (timestamp, payload_length, r) } of
                 None \<Rightarrow> module_error ''truncated ParseInput v1 header''
               | Some (timestamp, payload_length, r) \<Rightarrow>
                   if unat payload_length \<noteq> length r
                   then module_error ''ParseInput payload length does not match the block''
                   else Inr \<lparr>pin_has_timestamp = (flags AND 1 \<noteq> 0), pin_timestamp_ns = timestamp,
                     pin_payload = take (unat payload_length) r\<rparr>)))"

subsection \<open>The parser class\<close>

text \<open>
  What the exports call on \<open>Parser\<close>. A status of None is an exception; the parser is in the state
  the call left it in.
\<close>

record 'p parser_class =
  pa_new :: "'p option"
  pa_bind :: "BindingInfoV1 \<Rightarrow> 'p \<Rightarrow> Status option \<times> 'p"
  pa_parseObject :: "bytes \<Rightarrow> bool \<Rightarrow> Timestamp \<Rightarrow> ObjectWriter \<Rightarrow> 'p \<Rightarrow> Status option \<times> ObjectWriter \<times> 'p"
  pa_parseScalars :: "bytes \<Rightarrow> bool \<Rightarrow> Timestamp \<Rightarrow> ScalarWriter \<Rightarrow> 'p \<Rightarrow> Status option \<times> ScalarWriter \<times> 'p"

text \<open>\<open>FunctionalParser::parseObject\<close> and \<open>parseScalars\<close>, for a parser that does not override them.\<close>

definition default_parseObject ::
  "bytes \<Rightarrow> bool \<Rightarrow> Timestamp \<Rightarrow> ObjectWriter \<Rightarrow> 'p \<Rightarrow> Status option \<times> ObjectWriter \<times> 'p" where
  "default_parseObject payload has_timestamp timestamp writer p =
     (Some (status_error ''object route is not implemented by this parser module''), writer, p)"

definition default_parseScalars ::
  "bytes \<Rightarrow> bool \<Rightarrow> Timestamp \<Rightarrow> ScalarWriter \<Rightarrow> 'p \<Rightarrow> Status option \<times> ScalarWriter \<times> 'p" where
  "default_parseScalars payload has_timestamp timestamp writer p =
     (Some (status_error ''scalar route is not implemented by this parser module''), writer, p)"

subsection \<open>The table of instances\<close>

record 'p Instance =
  in_parser :: 'p
  in_claim_index :: u32
  in_route :: u8
  in_bound :: bool
  in_output :: bytes
  in_error :: string

record 'p Slot =
  sl_instance :: "'p Instance option"
  sl_generation :: u32

text \<open>
  \<open>Table\<close> (the slots that are in use and the capacity) with the two buffers of errors that belong
  to no instance. An error buffer is the text in front of its first NUL.
\<close>

record 'p module_state =
  ms_slots :: "'p Slot list"
  ms_capacity :: nat
  ms_creation_error :: string
  ms_bad_token_error :: string

definition new_module :: "'p module_state" where
  "new_module = \<lparr>ms_slots = [], ms_capacity = 0, ms_creation_error = [], ms_bad_token_error = []\<rparr>"

definition fresh_slot :: "'p Slot" where
  "fresh_slot = \<lparr>sl_instance = None, sl_generation = 1\<rparr>"

definition kModuleOk :: int where "kModuleOk = 0"
definition kModuleDecline :: int where "kModuleDecline = 1"
definition kModuleError :: int where "kModuleError = - 1"
definition kModuleBadToken :: int where "kModuleBadToken = - 2"
definition kModuleMalformedInput :: int where "kModuleMalformedInput = - 3"
definition kModuleBadClaimIndex :: int where "kModuleBadClaimIndex = - 4"
definition kCreationErrorToken :: u64 where "kCreationErrorToken = 0"
definition kErrorBufferSize :: nat where "kErrorBufferSize = 512"

text \<open>\<open>copyMessage\<close> into an error buffer, and the text a later reader of the buffer finds.\<close>

definition recordError :: "string \<Rightarrow> string" where
  "recordError message = takeWhile (\<lambda>c. c \<noteq> CHR 0x00) (take (kErrorBufferSize - 1) message)"

definition tokenFor :: "nat \<Rightarrow> u32 \<Rightarrow> u64" where
  "tokenFor index generation = push_bit 32 (ucast generation) OR of_nat (index + 1)"

definition findSlotLocked :: "'p Slot list \<Rightarrow> u64 \<Rightarrow> nat option" where
  "findSlotLocked slots token =
     (let encoded_index = (ucast token :: u32); generation = (ucast (drop_bit 32 token) :: u32)
      in if encoded_index = 0 \<or> generation = 0 then None
         else let index = unat (encoded_index - 1) in
           if index \<ge> length slots then None
           else if sl_instance (slots ! index) \<noteq> None \<and> sl_generation (slots ! index) = generation then Some index
           else None)"

text \<open>The result of \<open>Table::grow\<close>: the new capacity, or None for \<open>false\<close>.\<close>

definition grow :: "nat \<Rightarrow> nat option" where
  "grow capacity =
     (let next_capacity = (if capacity = 0 then 8 else capacity * 2)
      in if next_capacity > uint32_max then None else Some next_capacity)"

text \<open>The search for a slot that is free and not retired, from an index on.\<close>

fun free_slot :: "'p Slot list \<Rightarrow> nat \<Rightarrow> nat" where
  "free_slot [] index = index"
| "free_slot (s # ss) index =
     (if sl_instance s \<noteq> None \<or> sl_generation s = 0 then free_slot ss (index + 1) else index)"

definition new_Instance :: "'p \<Rightarrow> u32 \<Rightarrow> 'p Instance" where
  "new_Instance p claim_index = \<lparr>in_parser = p, in_claim_index = claim_index, in_route = kScalar, in_bound = False,
     in_output = [], in_error = []\<rparr>"

definition recordCreationError :: "string \<Rightarrow> 'p module_state \<Rightarrow> 'p module_state" where
  "recordCreationError message ms = ms\<lparr>ms_creation_error := recordError message\<rparr>"

text \<open>A slot for a new instance: one that is free, or a new one at the end. None is a failed \<open>grow\<close>.\<close>

definition claim_slot :: "'p module_state \<Rightarrow> (nat \<times> 'p module_state) option" where
  "claim_slot ms =
     (let slot_index = free_slot (ms_slots ms) 0
      in if slot_index = length (ms_slots ms)
         then (case (if length (ms_slots ms) = ms_capacity ms then grow (ms_capacity ms) else Some (ms_capacity ms)) of
             None \<Rightarrow> None
           | Some capacity \<Rightarrow>
               Some (slot_index, ms\<lparr>ms_slots := ms_slots ms @ [fresh_slot], ms_capacity := capacity\<rparr>))
         else Some (slot_index, ms))"

definition slot_instance :: "nat \<Rightarrow> 'p Instance \<Rightarrow> 'p module_state \<Rightarrow> 'p module_state" where
  "slot_instance index i ms = ms\<lparr>ms_slots := (ms_slots ms)[index := (ms_slots ms ! index)\<lparr>sl_instance := Some i\<rparr>]\<rparr>"

definition module_create :: "'p parser_class \<Rightarrow> nat \<Rightarrow> u32 \<Rightarrow> 'p module_state \<Rightarrow> u64 \<times> 'p module_state" where
  "module_create parser claim_count claim_index ms =
     (if unat claim_index \<ge> claim_count
      then (kCreationErrorToken, recordCreationError ''claim index is outside the module manifest'' ms)
      else case pa_new parser of
        None \<Rightarrow> (kCreationErrorToken, recordCreationError ''parser-module constructor failed'' ms)
      | Some p \<Rightarrow> (case claim_slot ms of
            None \<Rightarrow> (kCreationErrorToken,
              recordCreationError ''parser-module instance-table allocation failed'' ms)
          | Some (slot_index, ms) \<Rightarrow>
              if slot_index \<ge> uint32_max
              then (kCreationErrorToken, recordCreationError ''parser-module instance table is full'' ms)
              else (tokenFor slot_index (sl_generation (ms_slots ms ! slot_index)),
                    slot_instance slot_index (new_Instance p claim_index) ms)))"

definition failBadToken :: "string \<Rightarrow> 'p module_state \<Rightarrow> 'p module_state" where
  "failBadToken message ms = ms\<lparr>ms_bad_token_error := recordError message\<rparr>"

definition module_destroy :: "u64 \<Rightarrow> 'p module_state \<Rightarrow> 'p module_state" where
  "module_destroy token ms = (case findSlotLocked (ms_slots ms) token of
     None \<Rightarrow> failBadToken ''pj_module_destroy received a stale or unknown instance token'' ms
   | Some index \<Rightarrow> ms\<lparr>ms_slots := (ms_slots ms)[index :=
       \<lparr>sl_instance = None, sl_generation = sl_generation (ms_slots ms ! index) + 1\<rparr>]\<rparr>)"

definition fail_instance :: "'p Instance \<Rightarrow> int \<Rightarrow> string \<Rightarrow> int \<times> 'p Instance" where
  "fail_instance i code message = (code, i\<lparr>in_error := recordError message\<rparr>)"

definition bind_instance :: "'p parser_class \<Rightarrow> buffer \<Rightarrow> 'p Instance \<Rightarrow> int \<times> 'p Instance" where
  "bind_instance parser view i = (case view of
     NullBuffer n \<Rightarrow> fail_instance i kModuleMalformedInput ''BindingInfo buffer is unreadable''
   | Buffer block \<Rightarrow> (case readBindingInfo view of
       Inl status \<Rightarrow> fail_instance i kModuleMalformedInput (status_message status)
     | Inr info \<Rightarrow>
         if bi_claim_index info \<noteq> in_claim_index i
         then fail_instance i kModuleBadClaimIndex ''BindingInfo claim index does not match the instance''
         else (case pa_bind parser info (in_parser i) of
             (None, p) \<Rightarrow> fail_instance (i\<lparr>in_parser := p\<rparr>) kModuleError ''parser-module bind threw an exception''
           | (Some status, p) \<Rightarrow>
               let i = i\<lparr>in_parser := p, in_bound := isOk status, in_route := bi_route info\<rparr>
               in if isOk status then (kModuleOk, i\<lparr>in_error := []\<rparr>)
                  else (case status of StDecline _ \<Rightarrow> kModuleDecline | _ \<Rightarrow> kModuleError,
                        i\<lparr>in_error := recordError (status_message status)\<rparr>))))"

definition module_bind :: "'p parser_class \<Rightarrow> u64 \<Rightarrow> buffer \<Rightarrow> 'p module_state \<Rightarrow> int \<times> 'p module_state" where
  "module_bind parser token view ms = (case findSlotLocked (ms_slots ms) token of
     None \<Rightarrow> (kModuleBadToken, failBadToken ''pj_module_bind received a stale or unknown instance token'' ms)
   | Some index \<Rightarrow> (case bind_instance parser view (the (sl_instance (ms_slots ms ! index))) of
       (code, i) \<Rightarrow> (code, slot_instance index i ms)))"

text \<open>
  The parse of one route: the status of the parser, the block of its writer, and the parser after
  the call.
\<close>

definition parse_route ::
  "'p parser_class \<Rightarrow> u8 \<Rightarrow> ParseInputV1 \<Rightarrow> 'p \<Rightarrow> Status option \<times> (Status + bytes) \<times> 'p" where
  "parse_route parser route input p =
     (if route = kObject
      then (case pa_parseObject parser (pin_payload input) (pin_has_timestamp input) (pin_timestamp_ns input)
                  (new_ObjectWriter (Buffer (pin_payload input))) p of
              (status, writer, p) \<Rightarrow> (status, ow_finish writer, p))
      else (case pa_parseScalars parser (pin_payload input) (pin_has_timestamp input) (pin_timestamp_ns input)
                  new_ScalarWriter p of
              (status, writer, p) \<Rightarrow> (status, sw_finish writer, p)))"

text \<open>Also the block that is written through the output pointers, when it is.\<close>

definition parse_instance ::
  "'p parser_class \<Rightarrow> buffer \<Rightarrow> bool \<Rightarrow> 'p Instance \<Rightarrow> (int \<times> bytes option) \<times> 'p Instance" where
  "parse_instance parser view output_pointers i =
     (let failed = (\<lambda>i code message. case fail_instance i code message of (code, i) \<Rightarrow> ((code, None), i)) in
      if \<not> in_bound i then failed i kModuleError ''parser-module instance is not bound''
      else if \<not> output_pointers then failed i kModuleMalformedInput ''ParseInput buffer is unreadable''
      else case view of
        NullBuffer n \<Rightarrow> failed i kModuleMalformedInput ''ParseInput buffer is unreadable''
      | Buffer block \<Rightarrow> (case readParseInput view of
          Inl status \<Rightarrow> failed i kModuleMalformedInput (status_message status)
        | Inr input \<Rightarrow> (case parse_route parser (in_route i) input (in_parser i) of
            (status, output, p) \<Rightarrow>
              let i = i\<lparr>in_parser := p\<rparr> in case status of
                None \<Rightarrow> failed i kModuleError ''parser-module parse threw an exception''
              | Some status \<Rightarrow>
                  if \<not> isOk status then failed i kModuleError (status_message status)
                  else (case output of
                     Inl e \<Rightarrow> failed i kModuleError (status_message e)
                   | Inr out \<Rightarrow> ((kModuleOk, Some out), i\<lparr>in_output := out, in_error := []\<rparr>)))))"

definition module_parse ::
  "'p parser_class \<Rightarrow> u64 \<Rightarrow> buffer \<Rightarrow> bool \<Rightarrow> 'p module_state \<Rightarrow> (int \<times> bytes option) \<times> 'p module_state" where
  "module_parse parser token view output_pointers ms = (case findSlotLocked (ms_slots ms) token of
     None \<Rightarrow> ((kModuleBadToken, None), failBadToken ''pj_module_parse received a stale or unknown instance token'' ms)
   | Some index \<Rightarrow> (case parse_instance parser view output_pointers (the (sl_instance (ms_slots ms ! index))) of
       (result, i) \<Rightarrow> (result, slot_instance index i ms)))"

text \<open>The text that is copied to a buffer of some capacity; a null buffer gets nothing.\<close>

definition module_lastError :: "u64 \<Rightarrow> nat \<Rightarrow> 'p module_state \<Rightarrow> string" where
  "module_lastError token capacity ms =
     (let source_text = (if token = kCreationErrorToken then ms_creation_error ms
        else case findSlotLocked (ms_slots ms) token of
          Some index \<Rightarrow> in_error (the (sl_instance (ms_slots ms ! index)))
        | None \<Rightarrow> ms_bad_token_error ms)
      in take capacity source_text)"

subsection \<open>The two sides read the same\<close>

definition same_answer :: "'e + 'a \<Rightarrow> 'f + 'a \<Rightarrow> bool" where
  "same_answer x y \<longleftrightarrow> (case x of Inl _ \<Rightarrow> (\<exists>e. y = Inl e) | Inr a \<Rightarrow> y = Inr a)"

lemma same_answer_simps [simp]:
  "same_answer (Inl e) (Inl f)" "same_answer (Inr a) (Inr b) \<longleftrightarrow> a = b"
  "same_answer (Inl e) (Inr b) \<longleftrightarrow> False" "same_answer (Inr a) (Inl f) \<longleftrightarrow> False"
  "same_answer (module_error m) (malformed m')"
  by (auto simp: same_answer_def module_error_def malformed_def)

lemma same_answer_bindE:
  "same_answer x y \<Longrightarrow> (\<And>a. same_answer (f a) (g a)) \<Longrightarrow> same_answer (bindE x f) (bindE y g)"
  by (cases x; cases y) (auto simp: same_answer_def)

lemma ler_read_br: "ler_read width r = br_littleEndian width r"
  by (simp add: ler_read_def br_littleEndian_def)

lemma ler_widths: "ler_read16 r = br_u16 r" "ler_read32 r = br_u32 r"
  by (simp_all add: ler_read16_def ler_read32_def br_u16_def br_u32_def ler_read_br)

lemma module_binding_header_eq: "module_binding_header r = readBindingHeader r"
proof -
  have skip: "do { (reserved, r) \<leftarrow> br_u16 r; k r } = do { r \<leftarrow> br_skip 2 r; k r }" for k :: "_ \<Rightarrow> 'x option" and r
    by (auto simp: br_u16_def br_skip_def br_littleEndian_def)
  show ?thesis by (simp add: module_binding_header_def readBindingHeader_def ler_widths skip)
qed

lemma module_binding_loop_same:
  "same_answer (module_binding_loop block n index spans r) (binding_fields_loop block n index spans r)"
proof (induction n arbitrary: index spans r)
  case (Suc n)
  have desc: "do { (offset, r) \<leftarrow> ler_read32 r; (len, r) \<leftarrow> ler_read32 r; Some (offset, len, r) } = readBindingDescriptor r"
    by (simp add: readBindingDescriptor_def ler_widths)
  show ?case
    unfolding module_binding_loop.simps binding_fields_loop.simps desc kBindingFieldCountV1_def
    by (auto intro: Suc.IH split: option.split)
qed simp

lemma validRoute_iff: "validRoute route \<longleftrightarrow> route = 1 \<or> route = 2"
  by (simp add: validRoute_def kScalar_def kObject_def)

lemma short_header: "length block < 16 \<Longrightarrow> readBindingHeader block = None"
  by (auto simp: readBindingHeader_def br_u16_def br_u32_def br_skip_def br_littleEndian_def)

lemma readBindingInfo_same: "same_answer (readBindingInfo (Buffer block)) (readBindingInfoV1 block)"
proof (cases "readBindingHeader block")
  case None
  then show ?thesis by (auto simp: readBindingInfo_def readBindingInfoV1_def module_binding_header_eq)
next
  case (Some h)
  then have "\<not> length block < 16" using short_header by auto
  moreover obtain version route claim_index expected n r where h: "h = (version, route, claim_index, expected, n, r)"
    by (cases h)
  ultimately show ?thesis
    using Some by (auto simp: readBindingInfo_def readBindingInfoV1_def module_binding_header_eq validRoute_iff
        kBindingFieldCountV1_def kBindingFieldDescriptorSize_def intro!: same_answer_bindE module_binding_loop_same)
qed

lemma readParseInput_same: "same_answer (readParseInput (Buffer block)) (readParseInputV1 block)"
proof (cases "length block < 24")
  case True
  then have "readParseInputHeader block = None"
    by (auto simp: readParseInputHeader_def br_u8_def br_skip_def br_i64_def br_u64_def br_littleEndian_def split: list.splits)
  with True show ?thesis by (simp add: readParseInput_def readParseInputV1_def)
next
  case False
  then obtain flags rest where block: "block = flags # rest" and rest: "\<not> length rest < 23" by (cases block) auto
  then have "readParseInputHeader block = do {
      (timestamp, r) \<leftarrow> br_u64 (drop 7 rest); (payload_length, r) \<leftarrow> br_u64 r; Some (flags, timestamp, payload_length, r) }"
    by (simp add: readParseInputHeader_def br_u8_def br_skip_def br_i64_def)
  with False show ?thesis
    by (auto simp: readParseInput_def readParseInputV1_def block ler_skip_def ler_read_br br_u64_def br_take_def Let_def
        split: option.split bind_splits)
qed

subsection \<open>Tokens\<close>

definition token_index :: "u64 \<Rightarrow> u32" where "token_index token = ucast token"
definition token_generation :: "u64 \<Rightarrow> u32" where "token_generation token = ucast (drop_bit 32 token)"

lemma token_parts:
  assumes "i < uint32_max"
  shows "token_index (tokenFor i g) = of_nat (i + 1)" and "token_generation (tokenFor i g) = g"
proof -
  define w :: u64 where "w = of_nat (i + 1)"
  have "unat w = i + 1"
    unfolding w_def by (rule unat_of_nat_u64) (use assms in \<open>simp add: uint32_max_def size_max_def\<close>)
  then have "unat w < 2 ^ 32" using assms by (simp add: uint32_max_def)
  then have w: "take_bit 32 w = w"
    by (simp add: word_unat_eq_iff unsigned_take_bit_eq take_bit_nat_eq_self)
  then have high: "\<not> bit w n" if "32 \<le> n" for n using that by (metis bit_take_bit_iff not_le)
  have "ucast (push_bit 32 (ucast g) OR w) = (ucast w :: u32)"
    by (rule bit_word_eqI) (auto simp: bit_simps)
  then have "token_index (tokenFor i g) = ucast w"
    by (simp only: token_index_def tokenFor_def w_def [symmetric])
  then show "token_index (tokenFor i g) = of_nat (i + 1)"
    unfolding w_def by (simp only: ucast_of_nat_u32)
  have "ucast (drop_bit 32 (push_bit 32 (ucast g) OR w)) = g"
    using high by (intro bit_word_eqI) (auto simp: bit_simps dest: bit_imp_le_length)
  then show "token_generation (tokenFor i g) = g"
    by (simp only: token_generation_def tokenFor_def w_def [symmetric])
qed

text \<open>The slot a token names, whatever is in it.\<close>

definition token_slot :: "u64 \<Rightarrow> nat" where "token_slot token = unat (token_index token - 1)"

lemma findSlot_iff:
  "findSlotLocked slots token = Some index \<longleftrightarrow>
     token_index token \<noteq> 0 \<and> token_generation token \<noteq> 0 \<and> index = token_slot token \<and> index < length slots \<and>
     sl_instance (slots ! index) \<noteq> None \<and> sl_generation (slots ! index) = token_generation token"
  by (auto simp: findSlotLocked_def token_index_def token_generation_def token_slot_def Let_def)

lemma token_slot_tokenFor: "i < uint32_max \<Longrightarrow> token_index (tokenFor i g) \<noteq> 0 \<and> token_slot (tokenFor i g) = i"
proof -
  assume i: "i < uint32_max"
  have "unat (of_nat (i + 1) :: u32) = i + 1" by (rule unat_of_nat_u32) (use i in simp)
  then have ne: "(of_nat (i + 1) :: u32) \<noteq> 0" by (metis add_eq_0_iff_both_eq_0 one_neq_zero unsigned_0)
  have "unat ((of_nat (i + 1) :: u32) - 1) = i"
    by (subst unat_minus_one [OF ne]) (simp only: \<open>unat (of_nat (i + 1) :: u32) = i + 1\<close> diff_add_inverse2)
  with ne show ?thesis by (simp only: token_slot_def token_parts(1) [OF i] simp_thms)
qed

text \<open>Two tokens with the same slot and generation are the same.\<close>

lemma token_ext:
  assumes "token_index t \<noteq> 0" "token_index u \<noteq> 0" "token_slot t = token_slot u" "token_generation t = token_generation u"
  shows "t = u"
proof -
  have "token_index t - 1 = token_index u - 1" using assms(3) by (simp only: token_slot_def word_unat_eq_iff)
  then have low: "token_index t = token_index u" by simp
  show ?thesis
  proof (rule bit_word_eqI)
    fix n assume n: "n < LENGTH(64)"
    show "bit t n \<longleftrightarrow> bit u n"
    proof (cases "n < 32")
      case True
      then have "bit (token_index t) n \<longleftrightarrow> bit t n" "bit (token_index u) n \<longleftrightarrow> bit u n"
        by (simp_all add: token_index_def bit_simps)
      with low show ?thesis by simp
    next
      case False
      then have "bit (token_generation t) (n - 32) \<longleftrightarrow> bit t n" "bit (token_generation u) (n - 32) \<longleftrightarrow> bit u n"
        using n by (auto simp: token_generation_def bit_simps)
      with assms(4) show ?thesis by simp
    qed
  qed
qed

text \<open>A token of an earlier generation of its slot, or of a slot that is retired.\<close>

definition stale :: "'p Slot list \<Rightarrow> u64 \<Rightarrow> bool" where
  "stale slots token \<longleftrightarrow> token_slot token < length slots \<and>
     (sl_generation (slots ! token_slot token) = 0 \<or> token_generation token < sl_generation (slots ! token_slot token))"

lemma stale_not_found: "stale slots token \<Longrightarrow> findSlotLocked slots token = None"
  by (cases "findSlotLocked slots token") (auto simp: findSlot_iff stale_def)

text \<open>How the slots may change: none goes away, and a generation moves on by one or stays.\<close>

definition slots_step :: "'p Slot list \<Rightarrow> 'p Slot list \<Rightarrow> bool" where
  "slots_step ss ss' \<longleftrightarrow> length ss \<le> length ss' \<and> (\<forall>i < length ss.
     sl_generation (ss' ! i) = sl_generation (ss ! i) \<or>
     sl_generation (ss ! i) \<noteq> 0 \<and> sl_generation (ss' ! i) = sl_generation (ss ! i) + 1)"

lemma stale_step: "slots_step ss ss' \<Longrightarrow> stale ss token \<Longrightarrow> stale ss' token"
proof -
  assume step: "slots_step ss ss'" and "stale ss token"
  then have i: "token_slot token < length ss" "token_slot token < length ss'"
    and gen: "sl_generation (ss ! token_slot token) = 0 \<or> token_generation token < sl_generation (ss ! token_slot token)"
    by (auto simp: stale_def slots_step_def)
  let ?g = "sl_generation (ss ! token_slot token)" and ?g' = "sl_generation (ss' ! token_slot token)"
  from step i(1) consider "?g' = ?g" | "?g \<noteq> 0" "?g' = ?g + 1" by (auto simp: slots_step_def)
  then show "stale ss' token"
  proof cases
    case 2
    have "?g + 1 = 0 \<or> ?g < ?g + 1"
      using unatSuc [of ?g] by (cases "1 + ?g = 0") (simp_all add: word_less_nat_alt add.commute)
    with 2 gen i show ?thesis by (auto simp: stale_def intro: less_trans)
  qed (use gen i in \<open>auto simp: stale_def\<close>)
qed

lemma slots_step_refl [simp]: "slots_step ss ss"
  by (simp add: slots_step_def)

lemma slots_step_update:
  "sl_generation s = sl_generation (ss ! i) \<Longrightarrow> slots_step ss (ss[i := s])"
  by (cases "i < length ss") (auto simp: slots_step_def nth_list_update)

lemma slots_step_destroy:
  "sl_generation (ss ! i) \<noteq> 0 \<Longrightarrow> sl_generation s = sl_generation (ss ! i) + 1 \<Longrightarrow> slots_step ss (ss[i := s])"
  by (cases "i < length ss") (auto simp: slots_step_def nth_list_update)

lemma slots_step_append: "slots_step (ss @ [s]) ss' \<Longrightarrow> slots_step ss ss'"
  by (auto simp: slots_step_def nth_append split: if_splits)

subsubsection \<open>Creating\<close>

lemma free_slot_spec:
  "free_slot ss k = index \<Longrightarrow> k \<le> index \<and> index \<le> k + length ss \<and>
   (index < k + length ss \<longrightarrow> sl_instance (ss ! (index - k)) = None \<and> sl_generation (ss ! (index - k)) \<noteq> 0)"
proof (induction ss arbitrary: k)
  case (Cons s ss)
  show ?case
  proof (cases "sl_instance s \<noteq> None \<or> sl_generation s = 0")
    case True
    then have "free_slot ss (k + 1) = index" using Cons.prems by simp
    from Cons.IH [OF this] show ?thesis by (auto simp: nth_Cons' Suc_diff_le)
  next
    case False
    then show ?thesis using Cons.prems by auto
  qed
qed simp

lemma claim_slot_spec:
  assumes "claim_slot ms = Some (index, ms')"
  shows "ms_slots ms' = ms_slots ms \<or> ms_slots ms' = ms_slots ms @ [fresh_slot]" and "index < length (ms_slots ms')"
    and "sl_instance (ms_slots ms' ! index) = None" and "sl_generation (ms_slots ms' ! index) \<noteq> 0"
proof -
  have spec: "free_slot (ms_slots ms) 0 \<le> length (ms_slots ms)"
    "free_slot (ms_slots ms) 0 < length (ms_slots ms) \<Longrightarrow>
      sl_instance (ms_slots ms ! free_slot (ms_slots ms) 0) = None \<and> sl_generation (ms_slots ms ! free_slot (ms_slots ms) 0) \<noteq> 0"
    using free_slot_spec [of "ms_slots ms" 0] by auto
  consider "index = free_slot (ms_slots ms) 0" "index \<noteq> length (ms_slots ms)" "ms' = ms"
    | capacity where "index = length (ms_slots ms)"
      "ms' = ms\<lparr>ms_slots := ms_slots ms @ [fresh_slot], ms_capacity := capacity\<rparr>"
  proof (cases "free_slot (ms_slots ms) 0 = length (ms_slots ms)")
    case True
    with assms that(2) show ?thesis by (auto simp: claim_slot_def Let_def split: option.splits)
  next
    case False
    then have "claim_slot ms = Some (free_slot (ms_slots ms) 0, ms)" by (simp add: claim_slot_def Let_def)
    with assms have eq: "index = free_slot (ms_slots ms) 0" "ms' = ms" by auto
    show ?thesis by (rule that(1) [OF eq(1) _ eq(2)]) (simp add: eq(1) False)
  qed
  note cases = this
  show "ms_slots ms' = ms_slots ms \<or> ms_slots ms' = ms_slots ms @ [fresh_slot]"
    by (cases rule: cases) simp_all
  show "index < length (ms_slots ms')" by (cases rule: cases) (use spec in simp_all)
  show "sl_instance (ms_slots ms' ! index) = None"
    by (cases rule: cases) (use spec in \<open>simp_all add: fresh_slot_def\<close>)
  show "sl_generation (ms_slots ms' ! index) \<noteq> 0"
    by (cases rule: cases) (use spec in \<open>simp_all add: fresh_slot_def\<close>)
qed

text \<open>What a successful \<open>create\<close> does: an instance in a slot that was free or is new.\<close>

lemma module_create_ok:
  assumes "module_create parser n claim_index ms = (token, ms')" "token \<noteq> 0"
  obtains p index ms1 where
    "unat claim_index < n" "pa_new parser = Some p" "claim_slot ms = Some (index, ms1)" "index < uint32_max"
    "token = tokenFor index (sl_generation (ms_slots ms1 ! index))"
    "ms' = slot_instance index (new_Instance p claim_index) ms1"
  using assms unfolding module_create_def kCreationErrorToken_def
  by (auto split: if_splits option.splits prod.splits)

lemma slot_instance_slots [simp]:
  "ms_slots (slot_instance index i ms) = (ms_slots ms)[index := (ms_slots ms ! index)\<lparr>sl_instance := Some i\<rparr>]"
  by (simp add: slot_instance_def)

lemma slot_instance_step: "slots_step (ms_slots ms) (ms_slots (slot_instance index i ms))"
  by (simp add: slots_step_update)

lemma recordCreationError_slots [simp]: "ms_slots (recordCreationError m ms) = ms_slots ms"
  by (simp add: recordCreationError_def)

lemma failBadToken_slots [simp]: "ms_slots (failBadToken m ms) = ms_slots ms"
  by (simp add: failBadToken_def)

lemma claim_slot_step:
  assumes "claim_slot ms = Some (index, ms1)" "slots_step (ms_slots ms1) ss"
  shows "slots_step (ms_slots ms) ss"
  using claim_slot_spec(1) [OF assms(1)] assms(2) slots_step_append by auto

lemma create_slots_step: "slots_step (ms_slots ms) (ms_slots (snd (module_create parser n claim_index ms)))"
proof (cases "claim_slot ms")
  case None
  then show ?thesis by (simp add: module_create_def split: option.split)
next
  case (Some c)
  obtain index ms1 where c: "c = (index, ms1)" by (cases c)
  have "slots_step (ms_slots ms1) (ms_slots (slot_instance index i ms1))" for i by (rule slot_instance_step)
  from claim_slot_step [OF Some [unfolded c] this] claim_slot_step [OF Some [unfolded c] slots_step_refl]
  show ?thesis using Some c by (simp add: module_create_def split: option.split)
qed

text \<open>The token of a new instance is found, and was neither in use nor stale before.\<close>

lemma created_token:
  assumes "module_create parser n claim_index ms = (token, ms')" "token \<noteq> 0"
  shows "findSlotLocked (ms_slots ms') token = Some (token_slot token)"
    and "findSlotLocked (ms_slots ms) token = None" and "\<not> stale (ms_slots ms) token"
proof -
  obtain p index ms1 where c: "claim_slot ms = Some (index, ms1)" "index < uint32_max"
    "token = tokenFor index (sl_generation (ms_slots ms1 ! index))"
    "ms' = slot_instance index (new_Instance p claim_index) ms1"
    using module_create_ok [OF assms] by metis
  note spec = claim_slot_spec [OF c(1)]
  have token: "token_index token \<noteq> 0" "token_slot token = index" "token_generation token = sl_generation (ms_slots ms1 ! index)"
    using token_slot_tokenFor [OF c(2)] token_parts(2) [OF c(2)] unfolding c(3) by auto
  show "findSlotLocked (ms_slots ms') token = Some (token_slot token)"
    using spec(2,4) token by (simp add: findSlot_iff c(4))
  show "findSlotLocked (ms_slots ms) token = None"
  proof (rule ccontr)
    assume "findSlotLocked (ms_slots ms) token \<noteq> None"
    then have "index < length (ms_slots ms) \<and> sl_instance (ms_slots ms ! index) \<noteq> None"
      using token(2) by (auto simp del: not_None_eq simp: findSlot_iff)
    with spec(1,3) show False by (auto simp: nth_append)
  qed
  show "\<not> stale (ms_slots ms) token"
    using spec(1,4) token by (auto simp: stale_def nth_append split: if_splits)
qed

subsubsection \<open>Every call\<close>

text \<open>The instance behind a token.\<close>

definition instance_of :: "'p module_state \<Rightarrow> u64 \<Rightarrow> 'p Instance option" where
  "instance_of ms token = (case findSlotLocked (ms_slots ms) token of
     None \<Rightarrow> None | Some index \<Rightarrow> sl_instance (ms_slots ms ! index))"

lemma instance_of_iff:
  "instance_of ms token = Some i \<longleftrightarrow>
     token_index token \<noteq> 0 \<and> token_generation token \<noteq> 0 \<and> token_slot token < length (ms_slots ms) \<and>
     sl_instance (ms_slots ms ! token_slot token) = Some i \<and>
     sl_generation (ms_slots ms ! token_slot token) = token_generation token"
proof (cases "findSlotLocked (ms_slots ms) token")
  case None
  then have "\<not> (token_index token \<noteq> 0 \<and> token_generation token \<noteq> 0 \<and> token_slot token < length (ms_slots ms) \<and>
     sl_instance (ms_slots ms ! token_slot token) \<noteq> None \<and>
     sl_generation (ms_slots ms ! token_slot token) = token_generation token)"
    using findSlot_iff [of "ms_slots ms" token "token_slot token"] by simp
  with None show ?thesis by (auto simp: instance_of_def)
next
  case (Some index)
  then show ?thesis using findSlot_iff [of "ms_slots ms" token index] by (auto simp: instance_of_def)
qed

lemma findSlot_instance: "findSlotLocked (ms_slots ms) token = Some index \<Longrightarrow>
  index = token_slot token \<and> instance_of ms token = sl_instance (ms_slots ms ! index) \<and> (\<exists>i. instance_of ms token = Some i)"
  using findSlot_iff [of "ms_slots ms" token index] by (auto simp: instance_of_def)

lemma instance_of_None: "instance_of ms token = None \<longleftrightarrow> findSlotLocked (ms_slots ms) token = None"
  using findSlot_instance [of ms token] by (cases "findSlotLocked (ms_slots ms) token") (auto simp: instance_of_def)

lemma stale_instance_of: "stale (ms_slots ms) token \<Longrightarrow> instance_of ms token = None"
  by (simp add: instance_of_None stale_not_found)

text \<open>Two live tokens of one slot are the same token.\<close>

lemma live_slots_differ:
  "instance_of ms t = Some i \<Longrightarrow> instance_of ms u = Some j \<Longrightarrow> t \<noteq> u \<Longrightarrow> token_slot t \<noteq> token_slot u"
  using token_ext [of t u] by (auto simp: instance_of_iff)

lemma slot_instance_other:
  assumes "instance_of ms u = Some j" "instance_of ms t = Some i" "t \<noteq> u"
  shows "instance_of (slot_instance (token_slot u) x ms) t = Some i"
  using assms live_slots_differ [OF assms(2,1,3)] by (simp add: instance_of_iff)

lemma slot_instance_own:
  "instance_of ms u = Some j \<Longrightarrow> instance_of (slot_instance (token_slot u) x ms) u = Some x"
  by (simp add: instance_of_iff)

lemma create_other:
  assumes "instance_of ms t = Some i"
  shows "instance_of (snd (module_create parser n claim_index ms)) t = Some i"
proof (cases "claim_slot ms")
  case None
  then show ?thesis using assms by (simp add: module_create_def instance_of_iff split: option.split)
next
  case (Some c)
  obtain index ms1 where c: "c = (index, ms1)" by (cases c)
  note spec = claim_slot_spec [OF Some [unfolded c]]
  have ms1: "instance_of ms1 t = Some i" using assms spec(1) by (auto simp: instance_of_iff nth_append)
  then have "token_slot t \<noteq> index" using spec(3) by (auto simp: instance_of_iff)
  then have "instance_of (slot_instance index x ms1) t = Some i" for x using ms1 by (simp add: instance_of_iff)
  then show ?thesis using Some c ms1 assms by (simp add: module_create_def instance_of_iff split: option.split)
qed

lemma destroy_other:
  assumes "instance_of ms t = Some i" "t \<noteq> u"
  shows "instance_of (module_destroy u ms) t = Some i"
proof (cases "findSlotLocked (ms_slots ms) u")
  case None
  then show ?thesis using assms by (simp add: module_destroy_def instance_of_iff)
next
  case (Some index)
  from findSlot_instance [OF this] obtain j where u: "index = token_slot u" "instance_of ms u = Some j" by blast
  have "token_slot t \<noteq> index" using live_slots_differ [OF assms(1) u(2) assms(2)] u(1) by simp
  then show ?thesis using Some assms by (simp add: module_destroy_def instance_of_iff)
qed

lemma destroy_stale:
  assumes "instance_of ms t = Some i"
  shows "stale (ms_slots (module_destroy t ms)) t"
proof -
  have "findSlotLocked (ms_slots ms) t = Some (token_slot t)" using assms by (auto simp: findSlot_iff instance_of_iff)
  moreover have "g + 1 = 0 \<or> g < g + 1" for g :: u32
    using unatSuc [of g] by (cases "1 + g = 0") (simp_all add: word_less_nat_alt add.commute)
  ultimately show ?thesis using assms by (simp add: module_destroy_def stale_def instance_of_iff)
qed

text \<open>The calls of a host on a module, each with the token it hands out.\<close>

datatype module_request =
    McCreate u32 | McDestroy u64 | McBind u64 buffer | McParse u64 buffer bool

fun module_call :: "'p parser_class \<Rightarrow> nat \<Rightarrow> module_request \<Rightarrow> 'p module_state \<Rightarrow> u64 list \<times> 'p module_state" where
  "module_call parser n (McCreate claim_index) ms =
     (case module_create parser n claim_index ms of (token, ms) \<Rightarrow> (if token = kCreationErrorToken then [] else [token], ms))"
| "module_call parser n (McDestroy token) ms = ([], module_destroy token ms)"
| "module_call parser n (McBind token view) ms = ([], snd (module_bind parser token view ms))"
| "module_call parser n (McParse token view pointers) ms = ([], snd (module_parse parser token view pointers ms))"

fun module_calls :: "'p parser_class \<Rightarrow> nat \<Rightarrow> module_request list \<Rightarrow> 'p module_state \<Rightarrow> u64 list \<times> 'p module_state" where
  "module_calls parser n [] ms = ([], ms)"
| "module_calls parser n (c # cs) ms =
     (case module_call parser n c ms of (tokens, ms) \<Rightarrow>
        case module_calls parser n cs ms of (later, ms) \<Rightarrow> (tokens @ later, ms))"

text \<open>The token a call names, besides the one it makes.\<close>

fun call_token :: "module_request \<Rightarrow> u64 option" where
  "call_token (McCreate claim_index) = None"
| "call_token (McDestroy token) = Some token"
| "call_token (McBind token view) = Some token"
| "call_token (McParse token view pointers) = Some token"

lemma module_call_create: "snd (module_call parser n (McCreate claim_index) ms) = snd (module_create parser n claim_index ms)"
  by (simp add: case_prod_beta)

lemma module_calls_Cons:
  "fst (module_calls parser n (c # cs) ms) =
     fst (module_call parser n c ms) @ fst (module_calls parser n cs (snd (module_call parser n c ms)))"
  "snd (module_calls parser n (c # cs) ms) = snd (module_calls parser n cs (snd (module_call parser n c ms)))"
  by (simp_all add: case_prod_beta)

declare module_calls.simps(2) [simp del] module_calls_Cons [simp]

lemma on_instance:
  assumes "\<forall>index. findSlotLocked (ms_slots ms) token = Some index \<longrightarrow> (\<exists>x. ms' = slot_instance index x ms)"
    and "findSlotLocked (ms_slots ms) token = None \<longrightarrow> ms_slots ms' = ms_slots ms"
  shows "slots_step (ms_slots ms) (ms_slots ms')"
    and "instance_of ms t = Some i \<Longrightarrow> t \<noteq> token \<Longrightarrow> instance_of ms' t = Some i"
    and "instance_of ms token = Some j \<Longrightarrow> instance_of ms' token \<noteq> None"
proof -
  consider "ms_slots ms' = ms_slots ms"
    | x j where "ms' = slot_instance (token_slot token) x ms" "instance_of ms token = Some j"
  proof (cases "findSlotLocked (ms_slots ms) token")
    case None
    with assms(2) that(1) show ?thesis by simp
  next
    case (Some index)
    from findSlot_instance [OF Some] obtain i where "index = token_slot token" "instance_of ms token = Some i" by blast
    with assms(1) Some that(2) show ?thesis by auto
  qed
  note cases = this
  show "slots_step (ms_slots ms) (ms_slots ms')"
    by (cases rule: cases) (simp_all add: slots_step_update)
  have same: "instance_of ms' u = instance_of ms u" if "ms_slots ms' = ms_slots ms" for u
    unfolding instance_of_def that by (rule refl)
  show "instance_of ms' t = Some i" if "instance_of ms t = Some i" "t \<noteq> token"
  proof (cases rule: cases)
    case (2 x j)
    from slot_instance_other [OF 2(2) that, of x] 2(1) show ?thesis by simp
  qed (use that same in simp)
  show "instance_of ms' token \<noteq> None" if "instance_of ms token = Some j"
  proof (cases rule: cases)
    case (2 x j)
    from slot_instance_own [OF 2(2), of x] 2(1) show ?thesis by simp
  qed (use that same in simp)
qed

lemma bind_on_instance:
  "\<forall>index. findSlotLocked (ms_slots ms) token = Some index \<longrightarrow>
     (\<exists>x. snd (module_bind parser token view ms) = slot_instance index x ms)"
  "findSlotLocked (ms_slots ms) token = None \<longrightarrow> ms_slots (snd (module_bind parser token view ms)) = ms_slots ms"
  by (auto simp: module_bind_def split: prod.split)

lemma parse_on_instance:
  "\<forall>index. findSlotLocked (ms_slots ms) token = Some index \<longrightarrow>
     (\<exists>x. snd (module_parse parser token view pointers ms) = slot_instance index x ms)"
  "findSlotLocked (ms_slots ms) token = None \<longrightarrow> ms_slots (snd (module_parse parser token view pointers ms)) = ms_slots ms"
  by (auto simp: module_parse_def split: prod.split)

lemmas bind_effect = on_instance [OF bind_on_instance]
lemmas parse_effect = on_instance [OF parse_on_instance]

lemma destroy_slots_step: "slots_step (ms_slots ms) (ms_slots (module_destroy token ms))"
  by (auto simp: module_destroy_def findSlot_iff intro!: slots_step_destroy split: option.split)

lemma call_slots_step: "slots_step (ms_slots ms) (ms_slots (snd (module_call parser n c ms)))"
  by (cases c) (simp_all only: module_call_create module_call.simps(2-4) snd_conv
      create_slots_step destroy_slots_step bind_effect(1) parse_effect(1))

text \<open>A call on another token leaves an instance as it is.\<close>

lemma call_isolated:
  assumes "instance_of ms t = Some i" "call_token c \<noteq> Some t"
  shows "instance_of (snd (module_call parser n c ms)) t = Some i"
proof (cases c)
  case (McCreate claim_index)
  with create_other [OF assms(1), of parser n claim_index] show ?thesis by (simp only: module_call_create)
next
  case (McDestroy token)
  with assms have "t \<noteq> token" by auto
  from destroy_other [OF assms(1) this] McDestroy show ?thesis by simp
next
  case (McBind token view)
  with assms have "t \<noteq> token" by auto
  from bind_effect(2) [OF assms(1) this] McBind show ?thesis by simp
next
  case (McParse token view pointers)
  with assms have "t \<noteq> token" by auto
  from parse_effect(2) [OF assms(1) this] McParse show ?thesis by simp
qed

text \<open>A token that was handed out is live until it is destroyed, and stale ever after.\<close>

definition issued :: "'p module_state \<Rightarrow> u64 \<Rightarrow> bool" where
  "issued ms token \<longleftrightarrow> instance_of ms token \<noteq> None \<or> stale (ms_slots ms) token"

lemma issued_call: "issued ms token \<Longrightarrow> issued (snd (module_call parser n c ms)) token"
proof (cases "stale (ms_slots ms) token")
  case True
  from stale_step [OF call_slots_step this, of parser n c] show ?thesis by (simp add: issued_def)
next
  case False
  assume "issued ms token"
  with False obtain i where i: "instance_of ms token = Some i" by (auto simp: issued_def)
  show ?thesis
  proof (cases "call_token c = Some token")
    case True
    with i show ?thesis
      using destroy_stale [OF i] bind_effect(3) [OF i] parse_effect(3) [OF i] by (cases c) (auto simp: issued_def)
  next
    case False
    with call_isolated [OF i False] show ?thesis by (auto simp: issued_def)
  qed
qed

lemma issued_created: "token \<in> set (fst (module_call parser n c ms)) \<Longrightarrow> \<not> issued ms token \<and>
  issued (snd (module_call parser n c ms)) token \<and> fst (module_call parser n c ms) = [token]"
proof (cases c)
  case (McCreate claim_index)
  obtain t ms' where create: "module_create parser n claim_index ms = (t, ms')"
    by (cases "module_create parser n claim_index ms")
  assume "token \<in> set (fst (module_call parser n c ms))"
  with McCreate create have "t = token" "t \<noteq> 0" by (auto simp: kCreationErrorToken_def split: if_splits)
  with created_token [OF create] McCreate create show ?thesis
    by (simp add: issued_def instance_of_None kCreationErrorToken_def)
qed simp_all

lemma issued_calls:
  "issued ms token \<Longrightarrow> issued (snd (module_calls parser n cs ms)) token \<and> token \<notin> set (fst (module_calls parser n cs ms))"
proof (induction cs arbitrary: ms)
  case (Cons c cs)
  from Cons.IH [OF issued_call [OF Cons.prems, of parser n c]] issued_created [of token parser n c ms] Cons.prems
  show ?case by auto
qed simp

lemma calls_distinct: "distinct (fst (module_calls parser n cs ms))"
proof (induction cs arbitrary: ms)
  case (Cons c cs)
  show ?case
  proof (cases "fst (module_call parser n c ms)")
    case Nil
    with Cons.IH show ?thesis by simp
  next
    case (Cons t ts)
    then have "t \<in> set (fst (module_call parser n c ms))" by simp
    from issued_created [OF this] have "issued (snd (module_call parser n c ms)) t" "fst (module_call parser n c ms) = [t]"
      by auto
    with issued_calls [of "snd (module_call parser n c ms)" t parser n cs] Cons.IH show ?thesis by simp
  qed
qed simp

lemma stale_calls:
  "stale (ms_slots ms) token \<Longrightarrow> stale (ms_slots (snd (module_calls parser n cs ms))) token"
proof (induction cs arbitrary: ms)
  case (Cons c cs)
  from Cons.IH [OF stale_step [OF call_slots_step Cons.prems, of parser n c]]
  show ?case by auto
qed simp

lemma isolated_calls:
  "instance_of ms t = Some i \<Longrightarrow> \<forall>c \<in> set cs. call_token c \<noteq> Some t \<Longrightarrow>
   instance_of (snd (module_calls parser n cs ms)) t = Some i"
proof (induction cs arbitrary: ms)
  case (Cons c cs)
  from Cons.prems have "instance_of (snd (module_call parser n c ms)) t = Some i" by (intro call_isolated) auto
  from Cons.IH [OF this] Cons.prems show ?case by auto
qed simp

end
