(* ===== verification/WriterWire.thy ===== *)
theory WriterWire
  imports ObjectWriter
begin

section \<open>What the host reads from the module's writers\<close>

text \<open>
  The bridge between \<open>ObjectWriter\<close> and the host: the wire the module writes for an object is the
  wire of the builtin codec (with the bulk field left out when it is spliced), so the codec decodes
  it to that object; the block that \<open>finish\<close> returns is the output descriptor of that wire; and the
  scalar writer writes the block the host's own writer writes.
\<close>

subsection \<open>The wire writer writes canonical wire\<close>

lemma ww_varint_loop_eq: "ww_varint_loop v = appendVarint v"
proof (induction v rule: ww_varint_loop.induct)
  case (1 v)
  have rest: "drop_bit 7 v \<noteq> 0 \<longleftrightarrow> 0x80 \<le> v"
    by (simp add: word_unat_eq_iff drop_bit_eq_div unat_div word_le_nat_alt not_less div_greater_zero_iff)
  have last: "ucast (v AND 0x7F) = (ucast v :: u8)" if "\<not> 0x80 \<le> v"
  proof -
    have "unat v < 2 ^ 7" using that by (simp add: word_le_nat_alt)
    then have "take_bit 7 v = v"
      by (simp add: word_unat_eq_iff unsigned_take_bit_eq take_bit_nat_eq_self)
    then show ?thesis by (simp add: and_7F)
  qed
  have more: "(ucast (v AND 0x7F) :: u8) OR 0x80 = ucast ((v AND 0x7F) OR 0x80)"
    by (rule bit_word_eqI) (auto simp: bit_simps)
  show ?case
  proof (cases "drop_bit 7 v = 0")
    case True
    then show ?thesis using rest last by (subst ww_varint_loop.simps, subst appendVarint.simps) (simp add: Let_def)
  next
    case False
    then show ?thesis using rest more 1
      by (subst ww_varint_loop.simps, subst appendVarint.simps) (simp add: Let_def)
  qed
qed


definition field_number_ok :: "u32 \<Rightarrow> bool" where
  "field_number_ok f \<longleftrightarrow> f \<noteq> 0 \<and> f \<le> 0x1FFFFFFF"

lemma ww_tag_eq:
  assumes "field_number_ok f" "ty \<in> {kVarint, kFixed64, kLengthDelimited, kFixed32}" "b = ucast (wireTypeToBits ty)"
  shows "ww_tag f b bs = Inr (bs @ w_tag f ty)"
  using assms by (auto simp: ww_tag_def field_number_ok_def wireTypeToBits_def ww_varint_def ww_varint_loop_eq w_tag_def)

lemma little_endian_fixed:
  "map (\<lambda>i. ucast (drop_bit (i * 8) v) :: u8) [0..<8] = appendFixed64 v"
  "map (\<lambda>i. ucast (drop_bit (i * 8) (ucast w :: u64)) :: u8) [0..<4] = appendFixed32 w"
proof -
  show "map (\<lambda>i. ucast (drop_bit (i * 8) v) :: u8) [0..<8] = appendFixed64 v"
    by (simp add: appendFixed64_def ucast_and_FF mult.commute)
  have "ucast (drop_bit n (ucast w :: u64)) = (ucast (drop_bit n w AND 0xFF) :: u8)" for n
    by (rule bit_word_eqI) (auto simp: bit_simps and_FF dest: bit_imp_le_length)
  then show "map (\<lambda>i. ucast (drop_bit (i * 8) (ucast w :: u64)) :: u8) [0..<4] = appendFixed32 w"
    by (simp add: appendFixed32_def mult.commute)
qed

named_theorems writes "the bytes every wire operation appends"

lemma ww_fields [writes]:
  assumes "field_number_ok f"
  shows "ww_varintField f v bs = Inr (bs @ w_varint f v)"
    and "ww_fixed32Field f x bs = Inr (bs @ w_floatField f x)"
    and "ww_doubleField f d bs = Inr (bs @ w_doubleField f d)"
    and "ww_lengthDelimited f s bs = Inr (bs @ w_bytes f s)"
    and "ww_stringField f s bs = Inr (bs @ w_string f s)"
    and "ww_messageField f s bs = Inr (bs @ w_message f s)"
  using assms
  by (simp_all add: ww_varintField_def ww_tag_eq [where ty = kVarint] ww_tag_eq [where ty = kFixed32]
      ww_tag_eq [where ty = kFixed64] ww_tag_eq [where ty = kLengthDelimited] wireTypeToBits_def
      ww_varint_def ww_varint_loop_eq w_varint_def ww_fixed32Field_def ww_fixed64Field_def ww_doubleField_def
      ww_littleEndian_def little_endian_fixed w_floatField_def w_fixed32_def w_doubleField_def w_fixed64_def
      ww_lengthDelimited_def w_bytes_def ww_stringField_def w_string_def ww_messageField_def w_message_def)

lemma field_numbers [simp]: "field_number_ok 1" "field_number_ok 2" "field_number_ok 3" "field_number_ok 4"
  "field_number_ok 5" "field_number_ok 6" "field_number_ok 7" "field_number_ok 8" "field_number_ok 9"
  "field_number_ok 10" "field_number_ok 11" "field_number_ok 12"
  by (simp_all add: field_number_ok_def)

lemma ww_when_writes [writes]: "ww_when True op bs = op bs" "ww_when False op bs = Inr bs"
  by (simp_all add: ww_when_def)

lemma ww_nested_writes [writes]:
  "field_number_ok f \<Longrightarrow> ww_all ops [] = Inr d \<Longrightarrow> ww_nested f ops bs = Inr (bs @ w_message f d)"
  by (simp add: ww_nested_def writes)

lemma ww_all_map:
  assumes "\<And>x bs. op x bs = Inr (bs @ d x)"
  shows "ww_all (map op xs @ ops) bs = ww_all ops (bs @ concat (map d xs))"
    and "ww_all (map op xs) bs = Inr (bs @ concat (map d xs))"
  by (induction xs arbitrary: bs) (simp_all add: assms)

lemma ow_writeTimestamp_writes [writes]: "ow_writeTimestamp t bs = Inr (bs @ w_message 1 (writeTimestamp t))"
proof -
  have "ww_all [ww_varintField 1 a, ww_varintField 2 b] [] = Inr (w_varint 1 a @ w_varint 2 b)" for a b
    by (simp add: writes)
  then show ?thesis
    by (simp add: ow_writeTimestamp_def writeTimestamp_def splitTimestamp_def Let_def writes)
qed

lemma ow_geometry_writes [writes]:
  assumes "field_number_ok f"
  shows "ow_writeVector2 f v bs = Inr (bs @ w_message f (writeVector2 v))"
    and "ow_writeVector3 f u bs = Inr (bs @ w_message f (writeVector3 u))"
    and "ow_writePointField f x bs = Inr (bs @ w_message f (writePointField x))"
    and "ow_writePackedDoubles f ds bs = Inr (bs @ w_bytes f (concat (map appendFixed64 ds)))"
  using assms
  by (simp_all add: ow_writeVector2_def ow_writeVector3_def ow_writePointField_def writes
      writeVector2_def writeVector3_def writePointField_def ow_writePackedDoubles_def ww_all_map(2) [where d = appendFixed64]
      ww_rawFixed64_def ww_littleEndian_def little_endian_fixed)

lemma ow_writePose_writes [writes]:
  assumes "field_number_ok f"
  shows "ow_writePose f p bs = Inr (bs @ w_message f (writePose p))"
  using assms by (simp add: ow_writePose_def writes writePose_def writeQuaternion_def)

text \<open>A colour is written with the doubles of the state, which need not be those of bytes.\<close>

definition color_wire :: "ColorState \<Rightarrow> bytes" where
  "color_wire v = w_doubleField 1 (cs_r v) @ w_doubleField 2 (cs_g v) @ w_doubleField 3 (cs_b v) @ w_doubleField 4 (cs_a v)"

lemma ow_writeColor_writes [writes]:
  "field_number_ok f \<Longrightarrow> ow_writeColor f v bs = Inr (bs @ w_message f (color_wire v))"
  by (simp add: ow_writeColor_def writes color_wire_def)

lemmas ow_writePointFields [writes] = ww_all_map [where op = "ow_writePointField f" and d = "\<lambda>x. w_message f (writePointField x)" for f]


subsection \<open>The objects\<close>

text \<open>The bulk field: its bytes and their owner after decoding, empty when it is spliced.\<close>

definition bulk_data :: "bool \<Rightarrow> bytes \<Rightarrow> bytes" where
  "bulk_data has_splice d = (if has_splice then [] else d)"

definition bulk_anchor :: "bool \<Rightarrow> bytes \<Rightarrow> anchor" where
  "bulk_anchor has_splice d = (if has_splice then NoAnchor else OwnedCopy d)"

definition written_Image :: "ImageState \<Rightarrow> bool \<Rightarrow> Image" where
  "written_Image s has_splice = \<lparr>img_width = ims_width s, img_height = ims_height s,
     img_encoding = ims_encoding s, img_row_step = ims_row_step s, img_is_bigendian = ims_is_bigendian s,
     img_data = bulk_data has_splice (ims_data s), img_anchor = bulk_anchor has_splice (ims_data s),
     img_compressed_depth_min = (if ims_has_compressed_depth_min s then Some (ims_compressed_depth_min s) else None),
     img_compressed_depth_max = (if ims_has_compressed_depth_max s then Some (ims_compressed_depth_max s) else None),
     img_timestamp_ns = ims_timestamp_ns s, img_frame_id = ims_frame_id s\<rparr>"

definition written_DepthImage :: "DepthImageState \<Rightarrow> bool \<Rightarrow> DepthImage" where
  "written_DepthImage s has_splice = \<lparr>depth_width = dis_width s, depth_height = dis_height s,
     depth_encoding = dis_encoding s, depth_data = bulk_data has_splice (dis_data s),
     depth_anchor = bulk_anchor has_splice (dis_data s), depth_K = dis_intrinsics s,
     depth_distortion_model = dis_distortion_model s, depth_D = dis_distortion s,
     depth_timestamp_ns = dis_timestamp_ns s\<rparr>"

lemma decode_written_Image:
  assumes "ow_writeImage s has_splice = Inr wire" "fits wire"
  shows "deserializeImage (Buffer wire) = Inr (written_Image s has_splice) \<and> wire \<noteq> []"
  using assms
  by (cases has_splice; cases "ims_has_compressed_depth_min s"; cases "ims_has_compressed_depth_max s")
    (auto simp: ow_writeImage_def writes deserializeImage_def deserialize_fields_def written_Image_def bulk_data_def
      bulk_anchor_def default_Image_def image_fields.parse_simps field_actions deserializeImage_field_def
      readBytesIntoImage_def readTimestampMessage_def timestamp.nested fits_lengths)

lemma decode_written_DepthImage:
  assumes "ow_writeDepthImage s has_splice = Inr wire" "fits wire" "length (dis_intrinsics s) = 9"
  shows "deserializeDepthImage (Buffer wire) = Inr (written_DepthImage s has_splice) \<and> wire \<noteq> []"
  using assms
  by (cases has_splice)
    (auto simp: ow_writeDepthImage_def writes deserializeDepthImage_def deserialize_fields_def written_DepthImage_def
      bulk_data_def bulk_anchor_def default_DepthImage_def depth_image_fields.parse_simps field_actions
      deserializeDepthImage_field_def readBytesIntoDepth_def readTimestampMessage_def timestamp.nested fits_lengths)

lemma shrinks_readBytesOwning: "shrinks readBytesOwning"
  by (simp add: readBytesOwning_def)

lemma readBytesOwning_delimited:
  "fits d \<Longrightarrow> readBytesOwning (delimited d @ rest) out = (True, rest, out\<lparr>vf_data := d, vf_anchor := OwnedCopy d\<rparr>)"
  by (simp add: readBytesOwning_def store_def)

lemmas video_frame_simps = field_handler.parse_simps [OF parseVideoFrame_handler [OF shrinks_readBytesOwning]]

definition written_PointCloud :: "PointCloudState \<Rightarrow> bool \<Rightarrow> PointCloud" where
  "written_PointCloud s has_splice = \<lparr>pc_width = pcs_width s, pc_height = pcs_height s,
     pc_point_step = pcs_point_step s, pc_row_step = pcs_row_step s, pc_is_bigendian = pcs_is_bigendian s,
     pc_is_dense = pcs_is_dense s, pc_frame_id = pcs_frame_id s, pc_fields = pcs_fields s,
     pc_data = bulk_data has_splice (pcs_data s), pc_anchor = bulk_anchor has_splice (pcs_data s),
     pc_timestamp_ns = pcs_timestamp_ns s\<rparr>"

lemma decode_written_PointCloud:
  assumes "ow_writePointCloud s has_splice = Inr wire" "fits wire"
  shows "deserializePointCloud (Buffer wire) = Inr (written_PointCloud s has_splice) \<and> wire \<noteq> []"
  using assms
  by (cases has_splice)
    (auto simp: ow_writePointCloud_def writes deserialize_fields_def written_PointCloud_def bulk_data_def bulk_anchor_def
      deserializePointCloud_def decodePointCloud_def default_PointCloud_def point_cloud_fields.parse_simps
      field_actions decodePointCloud_field_def readBytesIntoCloud_def cloud_owner_def
      readPointFieldIntoVector_def readTimestampMessage_def timestamp.nested
      fits_lengths point_field.repeated [OF point_cloud_fields.field_handler_axioms, where f = 8 and init = default_PointField
        and upd = pc_fields_update] point_field.repeated_last [OF point_cloud_fields.field_handler_axioms, where f = 8 and init = default_PointField
        and upd = pc_fields_update])

definition written_OccupancyGrid :: "OccupancyGridState \<Rightarrow> bool \<Rightarrow> OccupancyGrid" where
  "written_OccupancyGrid s has_splice = \<lparr>og_timestamp_ns = ogs_timestamp_ns s,
     og_frame_id = ogs_frame_id s, og_origin = ogs_origin s, og_resolution = ogs_resolution s,
     og_width = ogs_width s, og_height = ogs_height s, og_data = bulk_data has_splice (ogs_data s),
     og_anchor = bulk_anchor has_splice (ogs_data s)\<rparr>"

lemma decode_written_OccupancyGrid:
  assumes "ow_writeOccupancyGrid s has_splice = Inr wire" "fits wire"
  shows "deserializeOccupancyGrid (Buffer wire) = Inr (written_OccupancyGrid s has_splice) \<and> wire \<noteq> []"
  using assms
  by (cases has_splice)
    (auto simp: ow_writeOccupancyGrid_def writes deserialize_fields_def written_OccupancyGrid_def bulk_data_def bulk_anchor_def
      deserializeOccupancyGrid_def default_OccupancyGrid_def occupancy_grid_fields.parse_simps field_actions
      deserializeOccupancyGrid_field_def readBytesIntoOccupancyGrid_def readPoseMessage_def
      readTimestampMessage_def pose.nested timestamp.nested
      fits_lengths)

definition written_CompressedPointCloud :: "CompressedPointCloudState \<Rightarrow> bool \<Rightarrow> CompressedPointCloud" where
  "written_CompressedPointCloud s has_splice = \<lparr>cpc_timestamp_ns = cps_timestamp_ns s,
     cpc_frame_id = cps_frame_id s, cpc_format = cps_format s,
     cpc_data = bulk_data has_splice (cps_data s), cpc_anchor = bulk_anchor has_splice (cps_data s)\<rparr>"

lemma decode_written_CompressedPointCloud:
  assumes "ow_writeCompressedPointCloud s has_splice = Inr wire" "fits wire"
  shows "deserializeCompressedPointCloud (Buffer wire) = Inr (written_CompressedPointCloud s has_splice) \<and> wire \<noteq> []"
  using assms
  by (cases has_splice)
    (auto simp: ow_writeCompressedPointCloud_def writes deserialize_fields_def written_CompressedPointCloud_def bulk_data_def bulk_anchor_def
      deserializeCompressedPointCloud_def default_CompressedPointCloud_def
      compressed_cloud_fields.parse_simps field_actions deserializeCompressedPointCloud_field_def
      readBytesIntoCompressedCloud_def readTimestampMessage_def timestamp.nested
      fits_lengths)

definition written_VideoFrame :: "VideoFrameState \<Rightarrow> bool \<Rightarrow> VideoFrame" where
  "written_VideoFrame s has_splice = \<lparr>vf_timestamp_ns = vfs_timestamp_ns s,
     vf_frame_id = vfs_frame_id s, vf_format = vfs_format s, vf_data = bulk_data has_splice (vfs_data s),
     vf_anchor = bulk_anchor has_splice (vfs_data s)\<rparr>"

lemma decode_written_VideoFrame:
  assumes "ow_writeVideoFrame s has_splice = Inr wire" "fits wire"
  shows "deserializeVideoFrame (Buffer wire) = Inr (written_VideoFrame s has_splice) \<and> wire \<noteq> []"
  using assms
  by (cases has_splice)
    (auto simp: ow_writeVideoFrame_def writes deserialize_fields_def written_VideoFrame_def bulk_data_def bulk_anchor_def
      deserializeVideoFrame_def default_VideoFrame_def video_frame_simps field_actions
      parseVideoFrame_field_def readBytesOwning_delimited readTimestampMessage_def timestamp.nested
      fits_lengths)

definition written_OccupancyGridUpdate :: "OccupancyGridUpdateState \<Rightarrow> bool \<Rightarrow> OccupancyGridUpdate" where
  "written_OccupancyGridUpdate s has_splice = \<lparr>ogu_timestamp_ns = ous_timestamp_ns s,
     ogu_frame_id = ous_frame_id s, ogu_x = ous_x s, ogu_y = ous_y s, ogu_width = ous_width s,
     ogu_height = ous_height s, ogu_data = bulk_data has_splice (ous_data s),
     ogu_anchor = bulk_anchor has_splice (ous_data s)\<rparr>"

lemma decode_written_OccupancyGridUpdate:
  assumes "ow_writeOccupancyGridUpdate s has_splice = Inr wire" "fits wire"
  shows "deserializeOccupancyGridUpdate (Buffer wire) = Inr (written_OccupancyGridUpdate s has_splice) \<and> wire \<noteq> []"
  using assms
  by (cases has_splice)
    (auto simp: ow_writeOccupancyGridUpdate_def writes deserialize_fields_def written_OccupancyGridUpdate_def bulk_data_def bulk_anchor_def
      deserializeOccupancyGridUpdate_def default_OccupancyGridUpdate_def
      occupancy_grid_update_fields.parse_simps field_actions deserializeOccupancyGridUpdate_field_def
      readBytesIntoUpdate_def readTimestampMessage_def timestamp.nested
      fits_lengths)

definition written_VoxelGrid :: "VoxelGridState \<Rightarrow> bool \<Rightarrow> VoxelGrid" where
  "written_VoxelGrid s has_splice = \<lparr>vg_timestamp_ns = vgs_timestamp_ns s,
     vg_frame_id = vgs_frame_id s, vg_origin = vgs_origin s, vg_cell_size = vgs_cell_size s,
     vg_column_count = vgs_column_count s, vg_row_count = vgs_row_count s,
     vg_slice_count = vgs_slice_count s, vg_cell_stride = vgs_cell_stride s,
     vg_row_stride = vgs_row_stride s, vg_slice_stride = vgs_slice_stride s, vg_fields = vgs_fields s,
     vg_data = bulk_data has_splice (vgs_data s), vg_anchor = bulk_anchor has_splice (vgs_data s)\<rparr>"

lemma decode_written_VoxelGrid:
  assumes "ow_writeVoxelGrid s has_splice = Inr wire" "fits wire"
  shows "deserializeVoxelGrid (Buffer wire) = Inr (written_VoxelGrid s has_splice) \<and> wire \<noteq> []"
  using assms
  by (cases has_splice)
    (auto simp: ow_writeVoxelGrid_def writes deserialize_fields_def written_VoxelGrid_def bulk_data_def bulk_anchor_def
      deserializeVoxelGrid_def default_VoxelGrid_def voxel_grid_fields.parse_simps field_actions
      deserializeVoxelGrid_field_def readBytesIntoVoxelGrid_def readPointFieldIntoVector_def
      readPoseMessage_def readTimestampMessage_def readVector3Message_def pose.nested timestamp.nested
      vector3.nested readVarintInto_def
      fits_lengths point_field.repeated [OF voxel_grid_fields.field_handler_axioms, where f = 11 and init = default_PointField
        and upd = vg_fields_update] point_field.repeated_last [OF voxel_grid_fields.field_handler_axioms, where f = 11 and init = default_PointField
        and upd = vg_fields_update])

definition color_of_state :: "(f64 \<Rightarrow> u8) \<Rightarrow> ColorState \<Rightarrow> ColorRGBA" where
  "color_of_state nan_cast v = \<lparr>color_r = normalizedToByte nan_cast (cs_r v), color_g = normalizedToByte nan_cast (cs_g v),
     color_b = normalizedToByte nan_cast (cs_b v), color_a = normalizedToByte nan_cast (cs_a v)\<rparr>"

lemma decode_color_wire: "decodeColor nan_cast (color_wire v) y = (True, color_of_state nan_cast v)"
  by (simp add: decodeColor_def color_wire_def color_fields.parse_simps handle_or_skip_def decodeColor_field_def
      store_def default_color_doubles_def color_of_state_def)

lemma nested_color_wire:
  "fits (color_wire v) \<Longrightarrow>
   readNested (decodeColor nan_cast) (delimited (color_wire v) @ rest) y = (True, rest, color_of_state nan_cast v)"
  by (simp add: readNested_def decode_color_wire)

definition written_Mesh3D :: "(f64 \<Rightarrow> u8) \<Rightarrow> Mesh3DState \<Rightarrow> bool \<Rightarrow> Mesh3D" where
  "written_Mesh3D nan_cast s has_splice = \<lparr>mesh_timestamp_ns = mss_timestamp_ns s,
     mesh_frame_id = mss_frame_id s, mesh_id = mss_id s, mesh_pose = mss_pose s, mesh_scale = mss_scale s,
     mesh_format = mss_format s, mesh_data = bulk_data has_splice (mss_data s),
     mesh_anchor = bulk_anchor has_splice (mss_data s), mesh_url = mss_url s,
     mesh_color = color_of_state nan_cast (mss_color s), mesh_override_color = mss_override_color s\<rparr>"

lemma decode_written_Mesh3D:
  assumes "ow_writeMesh3D s has_splice = Inr wire" "fits wire"
  shows "deserializeMesh3D nan_cast (Buffer wire) = Inr (written_Mesh3D nan_cast s has_splice) \<and> wire \<noteq> []"
  using assms
  by (cases has_splice)
    (auto simp: ow_writeMesh3D_def writes deserialize_fields_def written_Mesh3D_def bulk_data_def bulk_anchor_def
      deserializeMesh3D_def default_Mesh3D_def mesh3d_fields.parse_simps field_actions deserializeMesh3D_field_def
      readBytesIntoMesh_def readColorMessage_def readPoseMessage_def readTimestampMessage_def readVector3Message_def
      pose.nested timestamp.nested vector3.nested nested_color_wire fits_lengths)

definition written_GridMap :: "GridMapState \<Rightarrow> bool \<Rightarrow> GridMap" where
  "written_GridMap s has_splice = \<lparr>gm_timestamp_ns = gms_timestamp_ns s,
     gm_frame_id = gms_frame_id s, gm_origin = gms_origin s, gm_cell_size = gms_cell_size s,
     gm_column_count = gms_column_count s, gm_row_count = gms_row_count s,
     gm_cell_stride = gms_cell_stride s, gm_row_stride = gms_row_stride s, gm_fields = gms_fields s,
     gm_data = bulk_data has_splice (gms_data s), gm_anchor = bulk_anchor has_splice (gms_data s)\<rparr>"

lemma parse_written_GridMap:
  assumes "ow_writeGridMap s has_splice = Inr wire" "fits wire"
  shows "parseFields deserializeGridMap_field wire default_GridMap = (True, written_GridMap s has_splice) \<and> wire \<noteq> []"
  using assms
  by (cases has_splice)
    (auto simp: ow_writeGridMap_def writes written_GridMap_def bulk_data_def bulk_anchor_def default_GridMap_def
      grid_map_fields.parse_simps field_actions deserializeGridMap_field_def readBytesIntoGridMap_def
      readPointFieldIntoVector_def readPoseMessage_def readTimestampMessage_def readVarintInto_def
      readVector2Message_def pose.nested timestamp.nested vector2.nested fits_lengths
      point_field.repeated [OF grid_map_fields.field_handler_axioms, where f = 9 and init = default_PointField
        and upd = gm_fields_update]
      point_field.repeated_last [OF grid_map_fields.field_handler_axioms, where f = 9 and init = default_PointField
        and upd = gm_fields_update])

text \<open>The codec of the grid map validates the layout of what it decoded.\<close>

lemma decode_written_GridMap:
  assumes "ow_writeGridMap s has_splice = Inr wire" "fits wire"
  shows "deserializeGridMap (Buffer wire) =
    (case validateLayout (written_GridMap s has_splice) (gm_data (written_GridMap s has_splice) \<noteq> []) of
       Inl e \<Rightarrow> Inl e | Inr _ \<Rightarrow> Inr (written_GridMap s has_splice)) \<and> wire \<noteq> []"
  using parse_written_GridMap [OF assms] by (simp add: deserializeGridMap_def)

subsection \<open>The dispatcher\<close>

definition written_object :: "(f64 \<Rightarrow> u8) \<Rightarrow> ObjectWriter \<Rightarrow> BuiltinObject" where
  "written_object nan_cast ow = (let has_splice = spl_has_value (ow_splice ow) in case ow_kind ow of
     WkPointCloud \<Rightarrow> ObjPointCloud (written_PointCloud (ow_point_cloud ow) has_splice)
   | WkImage \<Rightarrow> ObjImage (written_Image (ow_image ow) has_splice)
   | WkDepthImage \<Rightarrow> ObjDepthImage (written_DepthImage (ow_depth_image ow) has_splice)
   | WkOccupancyGrid \<Rightarrow> ObjOccupancyGrid (written_OccupancyGrid (ow_occupancy_grid ow) has_splice)
   | WkCompressedPointCloud \<Rightarrow> ObjCompressedPointCloud (written_CompressedPointCloud (ow_compressed_point_cloud ow) has_splice)
   | WkMesh3D \<Rightarrow> ObjMesh3D (written_Mesh3D nan_cast (ow_mesh3d ow) has_splice)
   | WkVideoFrame \<Rightarrow> ObjVideoFrame (written_VideoFrame (ow_video_frame ow) has_splice)
   | WkOccupancyGridUpdate \<Rightarrow> ObjOccupancyGridUpdate (written_OccupancyGridUpdate (ow_occupancy_update ow) has_splice)
   | WkVoxelGrid \<Rightarrow> ObjVoxelGrid (written_VoxelGrid (ow_voxel_grid ow) has_splice)
   | WkGridMap \<Rightarrow> ObjGridMap (written_GridMap (ow_grid_map ow) has_splice)
   | WkNone \<Rightarrow> EmptyObject)"

text \<open>What the codec of the grid map checks when it decodes; the other codecs check nothing.\<close>

definition layout_accepted :: "ObjectWriter \<Rightarrow> bool" where
  "layout_accepted ow \<longleftrightarrow> (ow_kind ow = WkGridMap \<longrightarrow>
     (let grid = written_GridMap (ow_grid_map ow) (spl_has_value (ow_splice ow))
      in validateLayout grid (gm_data grid \<noteq> []) = Inr ()))"

lemma type_of_value_selected:
  "type_of_value 1 = Some kImage" "type_of_value 3 = Some kPointCloud" "type_of_value 4 = Some kDepthImage"
  "type_of_value 7 = Some kOccupancyGrid" "type_of_value 8 = Some kCompressedPointCloud"
  "type_of_value 9 = Some kMesh3D" "type_of_value 10 = Some kVideoFrame"
  "type_of_value 15 = Some kOccupancyGridUpdate" "type_of_value 18 = Some kVoxelGrid" "type_of_value 20 = Some kGridMap"
  by (simp_all add: type_of_value_def)

lemma decode_written:
  assumes "ow_writeSelected ow = Inr wire" "fits wire" "length (dis_intrinsics (ow_depth_image ow)) = 9"
    "layout_accepted ow"
  shows "deserializeBuiltinObject nan_cast (selectedObjectType (ow_kind ow)) (Buffer wire) = Inr (written_object nan_cast ow)"
  using assms
  by (cases "ow_kind ow")
    (auto simp: ow_writeSelected_def Let_def deserializeBuiltinObject_def type_of_value_selected deserializeAs_def eraseDecoded_def
      written_object_def layout_accepted_def
      dest!: decode_written_PointCloud decode_written_Image decode_written_DepthImage decode_written_OccupancyGrid
        decode_written_CompressedPointCloud decode_written_Mesh3D [where nan_cast = nan_cast] decode_written_VideoFrame
        decode_written_OccupancyGridUpdate decode_written_VoxelGrid decode_written_GridMap)

subsection \<open>The descriptor of a finished object\<close>

lemma appendLittle_bw: "appendLittle v n = bw_littleEndian n v"
  by (simp add: appendLittle_def bw_littleEndian_def ucast_and_FF mult.commute)

definition writer_splice :: "ObjectWriter \<Rightarrow> ObjectSpliceV1 option" where
  "writer_splice ow = (if spl_has_value (ow_splice ow)
     then Some \<lparr>sp_field_number = selectedSpliceField (ow_kind ow),
                sp_input_offset = isr_offset (spl_reference (ow_splice ow)),
                sp_input_length = isr_length (spl_reference (ow_splice ow))\<rparr> else None)"

lemma appendLittle_ucast:
  "appendLittle (ucast (b :: u16)) 2 = bw_u16 b" "appendLittle (ucast (d :: u32)) 4 = bw_u32 d" "appendLittle e 8 = bw_u64 e"
  "appendLittle 1 2 = bw_u16 1" "appendLittle 0 2 = bw_u16 0" "appendLittle 0 4 = bw_u32 0"
  by (simp_all add: appendLittle_bw bw_u16_def bw_u32_def bw_u64_def)

lemma finish_described:
  assumes "ow_finish ow = Inr block" "length block \<le> size_max"
  obtains wire where "ow_writeSelected ow = Inr wire"
    "writeOutputDescriptorV1 (ObjectOutput \<lparr>oo_object_type = selectedObjectType (ow_kind ow),
       oo_splice = writer_splice ow, oo_wire = wire\<rparr>) = Inr block"
    "fits wire" "isOk (ow_status ow)" "ow_kind ow \<noteq> WkNone"
proof -
  from assms(1) obtain wire where wire: "ow_writeSelected ow = Inr wire" and ok: "isOk (ow_status ow)" "ow_kind ow \<noteq> WkNone"
    by (auto simp: ow_finish_def bindE_eq_Inr split: if_splits)
  with assms(1) have block: "block = bw_u16 1 @ bw_u8 kObject @ bw_u8 0 @ bw_u16 (selectedObjectType (ow_kind ow))
      @ bw_u16 (if spl_has_value (ow_splice ow) then 1 else 0)
      @ bw_u32 (if spl_has_value (ow_splice ow) then selectedSpliceField (ow_kind ow) else 0)
      @ bw_u64 (if spl_has_value (ow_splice ow) then isr_offset (spl_reference (ow_splice ow)) else 0)
      @ bw_u64 (if spl_has_value (ow_splice ow) then isr_length (spl_reference (ow_splice ow)) else 0)
      @ bw_u64 (of_nat (length wire)) @ wire"
    by (cases "spl_has_value (ow_splice ow)")
      (auto simp: ow_finish_def Let_def appendLittle_ucast bw_u8_def kObject_def)
  with assms(2) have "36 + length wire \<le> size_max" by simp
  then show thesis
    using that [OF wire _ _ ok] block
    by (simp add: writeOutputDescriptorV1_def writeObjectOutputV1_def checkedAdd_def kObjectOutputFixedSize_def
        size_max_def fits_def writer_splice_def)
qed

subsection \<open>The scalar writer\<close>

definition scalar_output :: "ScalarWriter \<Rightarrow> ScalarOutputV1" where
  "scalar_output sw = \<lparr>so_has_timestamp = sw_has_timestamp sw, so_timestamp_ns = sw_timestamp_ns sw, so_fields = sw_fields sw\<rparr>"

definition same_result :: "'e + 'a \<Rightarrow> 'f + 'a \<Rightarrow> bool" where
  "same_result x y \<longleftrightarrow> (case (x, y) of (Inr a, Inr b) \<Rightarrow> a = b | (Inl _, Inl _) \<Rightarrow> True | _ \<Rightarrow> False)"

lemma sw_value_size_same:
  "sw_value_size v = Inr n \<longleftrightarrow> scalarValueSize v = Inr n"
  by (cases v) (auto simp: sw_value_size_def scalarValueSize_def refuse_eq_Inr checkedAdd_def size_max_def uint32_max_def)

lemma appendLittle_4: "appendLittle v 4 = bw_u32 (ucast v)"
proof -
  have "(ucast (drop_bit (8 * i) v AND 0xFF) :: u8) = ucast (drop_bit (8 * i) (ucast (ucast v :: u32) :: u64) AND 0xFF)"
    if "i < 4" for i
    using that by (intro bit_word_eqI) (auto simp: bit_simps and_FF)
  then show ?thesis
    by (auto simp: appendLittle_bw bw_u32_def bw_littleEndian_def)
qed

lemma sw_writeValue_eq: "sw_writeValue v = writeScalarValue v"
  by (cases v) (simp_all add: sw_writeValue_def writeScalarValue_def appendLittle_ucast(3) appendLittle_4 bw_u8_def
      bw_f64_def bw_i64_def)

lemma sw_values_end_same:
  "\<forall>f\<in>set fs. length (scf_name f) \<le> uint32_max \<Longrightarrow> n \<le> size_max \<Longrightarrow>
   sw_values_end fs n = Inr m \<longleftrightarrow> scalar_values_end fs n = Inr m"
proof (induction fs arbitrary: n)
  case (Cons f fs)
  show ?case
  proof (cases "\<exists>k. scalarValueSize (scf_value f) = Inr k")
    case True
    then obtain k where k: "scalarValueSize (scf_value f) = Inr k" by blast
    then have k': "sw_value_size (scf_value f) = Inr k" by (simp add: sw_value_size_same)
    have "k \<le> 4 + uint32_max"
      using k by (cases "scf_value f") (auto simp: scalarValueSize_def refuse_eq_Inr checkedAdd_def uint32_max_def split: if_splits)
    then show ?thesis
      using k k' Cons by (auto simp: checkedAdd_def kScalarFieldPrefixSize_def size_max_def uint32_max_def add.assoc)
  next
    case False
    then obtain e where e: "scalarValueSize (scf_value f) = Inl e" by (cases "scalarValueSize (scf_value f)") auto
    from False obtain e' where e': "sw_value_size (scf_value f) = Inl e'"
      by (cases "sw_value_size (scf_value f)") (auto simp: sw_value_size_same)
    show ?thesis by (simp add: e e')
  qed
qed simp

definition names_length :: "ScalarFieldV1 list \<Rightarrow> nat" where
  "names_length fs = length (concat (map scf_name fs))"

lemma names_length_simps [simp]:
  "names_length [] = 0" "names_length (f # fs) = length (scf_name f) + names_length fs"
  by (simp_all add: names_length_def)

lemma sw_names_end_iff:
  "n \<le> uint32_max \<Longrightarrow> sw_names_end fs n = Inr t \<and> t \<le> uint32_max \<longleftrightarrow> t = n + names_length fs \<and> t \<le> uint32_max"
  "sw_names_end fs n = Inr t \<Longrightarrow> n \<le> t"
proof -
  have le: "sw_names_end fs n = Inr t \<Longrightarrow> n \<le> t" for fs n
  proof (induction fs arbitrary: n)
    case (Cons f fs)
    then have "n + length (scf_name f) \<le> t" by (simp split: if_splits)
    then show ?case by simp
  qed simp
  show "sw_names_end fs n = Inr t \<Longrightarrow> n \<le> t" by (rule le)
  show "sw_names_end fs n = Inr t \<and> t \<le> uint32_max \<longleftrightarrow> t = n + names_length fs \<and> t \<le> uint32_max" if "n \<le> uint32_max"
    using that
  proof (induction fs arbitrary: n)
    case (Cons f fs)
    show ?case
    proof (cases "n + length (scf_name f) \<le> uint32_max")
      case True
      then show ?thesis
        using Cons.IH [OF True] by (auto simp: uint32_max_def size_max_def add.assoc)
    next
      case False
      then show ?thesis using le [of fs "n + length (scf_name f)"] by (auto split: if_splits)
    qed
  qed auto
qed

lemma scalar_name_offsets_iff:
  "n \<le> size_max \<Longrightarrow> (\<exists>offsets. scalar_name_offsets fs n = Inr offsets) \<longleftrightarrow> fs = [] \<or> n + names_length fs \<le> uint32_max"
proof (induction fs arbitrary: n)
  case (Cons f fs)
  show ?case
  proof (cases "n + length (scf_name f) \<le> uint32_max")
    case True
    then have "n + length (scf_name f) \<le> size_max" by (simp add: uint32_max_def size_max_def)
    from Cons.IH [OF this] True show ?thesis
      by (auto simp: checkedAdd_def refuse_def uint32_max_def size_max_def add.assoc bindE_eq_Inr)
  next
    case False
    then show ?thesis by (auto simp: checkedAdd_def refuse_def)
  qed
qed simp

lemma sw_write_fields_eq:
  "scalar_name_offsets fs n = Inr offsets \<Longrightarrow> sw_write_fields fs n = concat (map2 writeScalarField offsets fs)"
proof (induction fs arbitrary: n offsets)
  case (Cons f fs)
  from Cons.prems obtain rest where "offsets = of_nat n # rest"
    "scalar_name_offsets fs (n + length (scf_name f)) = Inr rest"
    by (rule scalar_name_offsets_cons)
  with Cons.IH show ?case by (simp add: appendLittle_4 sw_writeValue_eq writeScalarField_def)
qed simp

lemma scalar_values_end_le: "scalar_values_end fs n = Inr m \<Longrightarrow> n \<le> m"
proof (induction fs arbitrary: n)
  case (Cons f fs)
  from Cons.prems obtain k where "scalar_values_end fs (n + 9 + k) = Inr m" by (rule scalar_values_end_cons)
  from Cons.IH [OF this] show ?case by simp
qed simp

lemma sw_names_end_names: "sw_names_end fs n = Inr t \<Longrightarrow> \<forall>f\<in>set fs. length (scf_name f) \<le> uint32_max"
  by (induction fs arbitrary: n) (auto split: if_splits)

text \<open>The block of the scalar writer is the host's, and it fails exactly when the host's writer does.\<close>

lemma scalar_block:
  assumes ve: "scalar_values_end fs 24 = Inr ve" and offs: "scalar_name_offsets fs ve = Inr offsets"
    and ok: "isOk (sw_status sw)" and fs: "fs = sw_fields sw" and n: "length fs \<le> uint32_max"
    and t: "ve + names_length fs \<le> uint32_max"
  shows "\<exists>block. sw_finish sw = Inr block \<and> writeScalarOutputV1 (scalar_output sw) = Inr block"
proof -
  have names: "\<forall>f\<in>set fs. length (scf_name f) \<le> uint32_max" by (rule scalar_values_end_names [OF ve])
  have "sw_values_end fs 24 = Inr ve"
    using sw_values_end_same [OF names, of 24 ve] ve by (simp add: size_max_def)
  moreover have "sw_names_end fs ve = Inr (ve + names_length fs)"
    using sw_names_end_iff(1) [of ve fs "ve + names_length fs"] t by simp
  ultimately show ?thesis
    using ok n t offs ve
    by (simp add: sw_finish_def writeScalarOutputV1_def scalar_output_def flip: fs)
      (simp add: kScalarOutputFixedSize_def sw_write_fields_eq appendLittle_ucast(4) appendLittle_ucast(3) appendLittle_4
        bw_u8_def kScalar_def bw_zeros_def bw_i64_def)
qed

lemma sw_finish_same:
  assumes ok: "isOk (sw_status sw)"
  shows "same_result (sw_finish sw) (writeScalarOutputV1 (scalar_output sw))"
proof (cases "\<exists>block. writeScalarOutputV1 (scalar_output sw) = Inr block")
  case True
  define fs where fs: "fs = sw_fields sw"
  from True obtain block ve offsets where n: "length fs \<le> uint32_max"
    and ve: "scalar_values_end fs 24 = Inr ve" and offs: "scalar_name_offsets fs ve = Inr offsets"
    by (auto simp: writeScalarOutputV1_def scalar_output_def refuse_eq_Inr bindE_eq_Inr kScalarOutputFixedSize_def fs)
  have "ve + names_length fs \<le> uint32_max"
  proof (cases "fs = []")
    case True
    then show ?thesis using ve by (simp add: uint32_max_def)
  next
    case False
    have "ve \<le> size_max"
    proof (cases fs)
      case (Cons f rest)
      then have "ve \<le> uint32_max" using offs by (simp add: refuse_eq_Inr)
      then show ?thesis by (simp add: uint32_max_def size_max_def)
    qed (use False in simp)
    then show ?thesis using scalar_name_offsets_iff [of ve fs] offs False by auto
  qed
  from scalar_block [OF ve offs ok fs n this] show ?thesis by (auto simp: same_result_def)
next
  case False
  then obtain e where e: "writeScalarOutputV1 (scalar_output sw) = Inl e"
    by (cases "writeScalarOutputV1 (scalar_output sw)") auto
  define fs where fs: "fs = sw_fields sw"
  have "\<not> (\<exists>block. sw_finish sw = Inr block)"
  proof
    assume "\<exists>block. sw_finish sw = Inr block"
    then obtain ve t where ve': "sw_values_end fs 24 = Inr ve" and t: "sw_names_end fs ve = Inr t" "t \<le> uint32_max"
      and n: "length fs \<le> uint32_max"
      by (auto simp: sw_finish_def bindE_eq_Inr fs not_less split: if_splits)
    have ve: "scalar_values_end fs 24 = Inr ve"
      using sw_values_end_same [OF sw_names_end_names [OF t(1)], of 24 ve] ve' by (simp add: size_max_def)
    have "ve \<le> uint32_max" using sw_names_end_iff(2) [OF t(1)] t(2) by simp
    then have bound: "ve + names_length fs \<le> uint32_max" using sw_names_end_iff(1) [of ve fs t] t by simp
    then obtain offsets where "scalar_name_offsets fs ve = Inr offsets"
      using scalar_name_offsets_iff [of ve fs] \<open>ve \<le> uint32_max\<close> by (auto simp: uint32_max_def size_max_def)
    from scalar_block [OF ve this ok fs n bound] e show False by auto
  qed
  with e show ?thesis by (cases "sw_finish sw") (auto simp: same_result_def)
qed

end
