(* ===== verification/ModuleRuntime.thy ===== *)
theory ModuleRuntime
  imports ModuleExports WriterWire
begin

section \<open>The host side of a parser module (\<open>parser_module_runtime.cpp\<close>, \<open>builtin_object_abi.h\<close>)\<close>

text \<open>
  The owner of one instance of a native module: it writes the input blocks, calls the module, and
  copies what the module answers, after checking it; and the tracker of the faults of a claim. The
  functions of the module are a record; what a host may rely on is a locale, which the exports of
  \<open>ModuleExports\<close> satisfy for every parser class. Then what one message comes to, from the writer
  of the parser to the object of the host.
\<close>

subsection \<open>The functions of a module\<close>

text \<open>
  The five calls with the module's memory threaded through. \<open>ma_last_error\<close> is given a buffer of
  512 NULs: the length it returns and what it has written. The output of \<open>ma_parse\<close> is the block
  behind the two output pointers, None when they are null or the block is unreadable.
\<close>

record 'm module_abi =
  ma_create :: "u32 \<Rightarrow> 'm \<Rightarrow> u64 \<times> 'm"
  ma_destroy :: "u64 \<Rightarrow> 'm \<Rightarrow> 'm"
  ma_bind :: "u64 \<Rightarrow> bytes \<Rightarrow> 'm \<Rightarrow> int \<times> 'm"
  ma_parse :: "u64 \<Rightarrow> bytes \<Rightarrow> 'm \<Rightarrow> (int \<times> bytes option) \<times> 'm"
  ma_last_error :: "u64 \<Rightarrow> 'm \<Rightarrow> nat \<times> string"

definition copyLastError :: "'m module_abi \<Rightarrow> u64 \<Rightarrow> 'm \<Rightarrow> string + string" where
  "copyLastError abi token ms = (case ma_last_error abi token ms of (written, buffer) \<Rightarrow>
     if written > 512 then Inl ''pj_module_last_error returned a length larger than its buffer''
     else Inr (takeWhile (\<lambda>c. c \<noteq> CHR 0x00) (take written buffer)))"

subsection \<open>Results\<close>

datatype ParserModuleFaultKind = FkNone | FkDataError | FkContractViolation

datatype ParserModuleBindOutcome = BoAccept | BoDecline | BoError

record ParserModuleBindResult =
  br_outcome :: ParserModuleBindOutcome
  br_fault :: ParserModuleFaultKind
  br_result_code :: int
  br_message :: string

record ParserModuleScalarField =
  pmf_name :: bytes
  pmf_value :: ScalarValueV1

record ParserModuleScalarOutput =
  pms_has_timestamp :: bool
  pms_timestamp_ns :: Timestamp
  pms_fields :: "ParserModuleScalarField list"

record ParserModuleObjectSplice =
  pmx_field_number :: u32
  pmx_input_offset :: u64
  pmx_payload_bytes :: bytes

record ParserModuleObjectOutput =
  pmo_object :: BuiltinObject
  pmo_wire :: bytes
  pmo_splice :: "ParserModuleObjectSplice option"

datatype ParserModuleOutput = PmScalar ParserModuleScalarOutput | PmObject ParserModuleObjectOutput

record ParserModuleParseResult =
  ppr_fault :: ParserModuleFaultKind
  ppr_result_code :: int
  ppr_message :: string
  ppr_output :: "ParserModuleOutput option"

definition contractViolation :: "int \<Rightarrow> string \<Rightarrow> ParserModuleParseResult" where
  "contractViolation code message =
     \<lparr>ppr_fault = FkContractViolation, ppr_result_code = code, ppr_message = message, ppr_output = None\<rparr>"

subsection \<open>Owning an output\<close>

definition ownScalarOutput :: "ScalarOutputV1 \<Rightarrow> ParserModuleScalarOutput" where
  "ownScalarOutput scalar = \<lparr>pms_has_timestamp = so_has_timestamp scalar, pms_timestamp_ns = so_timestamp_ns scalar,
     pms_fields = map (\<lambda>field. \<lparr>pmf_name = scf_name field, pmf_value = scf_value field\<rparr>) (so_fields scalar)\<rparr>"

definition pj_builtin_object_splice_fields_v1 :: "(u16 \<times> u32) list" where
  "pj_builtin_object_splice_fields_v1 =
     [(1, 7), (3, 9), (4, 5), (7, 7), (8, 4), (9, 7), (10, 3), (15, 7), (18, 12), (20, 10)]"

definition pj_builtin_object_splice_field_number_v1 :: "u16 \<Rightarrow> u32 option" where
  "pj_builtin_object_splice_field_number_v1 object_type = map_of pj_builtin_object_splice_fields_v1 object_type"

text \<open>The lambda \<open>attach\<close> with the switch that picks its type. None: nothing was attached.\<close>

definition attach_data :: "BuiltinObjectType option \<Rightarrow> bytes \<Rightarrow> BuiltinObject \<Rightarrow> BuiltinObject option" where
  "attach_data type d object = (case type of
     Some kImage \<Rightarrow> (case object of
         ObjImage v \<Rightarrow> Some (ObjImage (v\<lparr>img_data := d, img_anchor := OwnedCopy d\<rparr>)) | _ \<Rightarrow> None)
   | Some kPointCloud \<Rightarrow> (case object of
         ObjPointCloud v \<Rightarrow> Some (ObjPointCloud (v\<lparr>pc_data := d, pc_anchor := OwnedCopy d\<rparr>)) | _ \<Rightarrow> None)
   | Some kDepthImage \<Rightarrow> (case object of
         ObjDepthImage v \<Rightarrow> Some (ObjDepthImage (v\<lparr>depth_data := d, depth_anchor := OwnedCopy d\<rparr>)) | _ \<Rightarrow> None)
   | Some kOccupancyGrid \<Rightarrow> (case object of
         ObjOccupancyGrid v \<Rightarrow> Some (ObjOccupancyGrid (v\<lparr>og_data := d, og_anchor := OwnedCopy d\<rparr>)) | _ \<Rightarrow> None)
   | Some kCompressedPointCloud \<Rightarrow> (case object of
         ObjCompressedPointCloud v \<Rightarrow> Some (ObjCompressedPointCloud (v\<lparr>cpc_data := d, cpc_anchor := OwnedCopy d\<rparr>)) | _ \<Rightarrow> None)
   | Some kMesh3D \<Rightarrow> (case object of
         ObjMesh3D v \<Rightarrow> Some (ObjMesh3D (v\<lparr>mesh_data := d, mesh_anchor := OwnedCopy d\<rparr>)) | _ \<Rightarrow> None)
   | Some kVideoFrame \<Rightarrow> (case object of
         ObjVideoFrame v \<Rightarrow> Some (ObjVideoFrame (v\<lparr>vf_data := d, vf_anchor := OwnedCopy d\<rparr>)) | _ \<Rightarrow> None)
   | Some kOccupancyGridUpdate \<Rightarrow> (case object of
         ObjOccupancyGridUpdate v \<Rightarrow> Some (ObjOccupancyGridUpdate (v\<lparr>ogu_data := d, ogu_anchor := OwnedCopy d\<rparr>)) | _ \<Rightarrow> None)
   | Some kVoxelGrid \<Rightarrow> (case object of
         ObjVoxelGrid v \<Rightarrow> Some (ObjVoxelGrid (v\<lparr>vg_data := d, vg_anchor := OwnedCopy d\<rparr>)) | _ \<Rightarrow> None)
   | Some kGridMap \<Rightarrow> (case object of
         ObjGridMap v \<Rightarrow> Some (ObjGridMap (v\<lparr>gm_data := d, gm_anchor := OwnedCopy d\<rparr>)) | _ \<Rightarrow> None)
   | _ \<Rightarrow> None)"

text \<open>The block of \<open>ownObjectOutput\<close> for an output with a splice.\<close>

definition own_splice ::
  "u16 \<Rightarrow> bytes \<Rightarrow> BuiltinObject \<Rightarrow> ObjectSpliceV1 \<Rightarrow> string + BuiltinObject \<times> ParserModuleObjectSplice" where
  "own_splice type payload decoded sref =
     (if pj_builtin_object_splice_field_number_v1 type \<noteq> Some (sp_field_number sref)
      then Inl ''output splice field is not eligible for the object type''
      else if unat (sp_input_offset sref) > length payload \<or>
              unat (sp_input_length sref) > length payload - unat (sp_input_offset sref)
      then Inl ''output splice range is outside the parse payload''
      else let materialized = subspan payload (unat (sp_input_offset sref)) (unat (sp_input_length sref)) in
        (case attach_data (type_of_value type) materialized decoded of
           None \<Rightarrow> Inl ''output splice could not be attached to its canonical object''
         | Some attached \<Rightarrow>
             let owned = (attached, \<lparr>pmx_field_number = sp_field_number sref,
                   pmx_input_offset = sp_input_offset sref, pmx_payload_bytes = materialized\<rparr>)
             in (case (type_of_value type, attached) of
                   (Some kGridMap, ObjGridMap grid) \<Rightarrow> (case validateGridMap grid of
                       Inl e \<Rightarrow> Inl (''output spliced GridMap layout is invalid: '' @ e)
                     | Inr _ \<Rightarrow> Inr owned)
                 | _ \<Rightarrow> Inr owned)))"

definition ownObjectOutput ::
  "(f64 \<Rightarrow> u8) \<Rightarrow> ObjectOutputV1 \<Rightarrow> bytes \<Rightarrow> u16 \<Rightarrow> string + ParserModuleObjectOutput" where
  "ownObjectOutput nan_cast out payload expected_type =
     (if oo_object_type out \<noteq> expected_type
      then Inl (''output object type '' @ to_string (unat (oo_object_type out)) @ '' does not match bound type '' @
        to_string (unat expected_type))
      else case deserializeBuiltinObject nan_cast (oo_object_type out) (Buffer (oo_wire out)) of
        Inl e \<Rightarrow> Inl (''output canonical wire is malformed: '' @ e)
      | Inr decoded \<Rightarrow> (case oo_splice out of
            None \<Rightarrow> Inr \<lparr>pmo_object = decoded, pmo_wire = oo_wire out, pmo_splice = None\<rparr>
          | Some sref \<Rightarrow> bindE (own_splice (oo_object_type out) payload decoded sref) (\<lambda>(attached, owned).
              Inr \<lparr>pmo_object = attached, pmo_wire = oo_wire out, pmo_splice = Some owned\<rparr>)))"

subsection \<open>\<open>NativeParserModuleInstance\<close>\<close>

record NativeParserModuleInstance =
  ni_module :: bool
  ni_token :: u64
  ni_claim_index :: u32
  ni_bound_route :: Route
  ni_expected_object_type :: u16
  ni_bound :: bool

definition ni_valid :: "NativeParserModuleInstance \<Rightarrow> bool" where
  "ni_valid ni \<longleftrightarrow> ni_token ni \<noteq> 0"

definition empty_instance :: NativeParserModuleInstance where
  "empty_instance = \<lparr>ni_module = False, ni_token = 0, ni_claim_index = 0, ni_bound_route = kScalar,
     ni_expected_object_type = 0, ni_bound = False\<rparr>"

text \<open>The constructor that moves: the new owner and what is left of the old one.\<close>

definition instance_move :: "NativeParserModuleInstance \<Rightarrow> NativeParserModuleInstance \<times> NativeParserModuleInstance" where
  "instance_move other = (other, other\<lparr>ni_module := False, ni_token := 0, ni_bound := False\<rparr>)"

definition instance_reset :: "'m module_abi \<Rightarrow> NativeParserModuleInstance \<Rightarrow> 'm \<Rightarrow> NativeParserModuleInstance \<times> 'm" where
  "instance_reset abi ni ms =
     (ni\<lparr>ni_module := False, ni_token := 0, ni_bound := False\<rparr>,
      if ni_module ni \<and> ni_token ni \<noteq> 0 then ma_destroy abi (ni_token ni) ms else ms)"

text \<open>The assignment that moves, of another owner: both owners after it.\<close>

definition instance_assign :: "'m module_abi \<Rightarrow> NativeParserModuleInstance \<Rightarrow> NativeParserModuleInstance \<Rightarrow> 'm \<Rightarrow>
  NativeParserModuleInstance \<times> NativeParserModuleInstance \<times> 'm" where
  "instance_assign abi ni other ms = (case instance_reset abi ni ms of (_, ms) \<Rightarrow>
     case instance_move other of (moved, left) \<Rightarrow> (moved, left, ms))"

definition instance_create :: "'m module_abi \<Rightarrow> u32 \<Rightarrow> 'm \<Rightarrow> (string + NativeParserModuleInstance) \<times> 'm" where
  "instance_create abi claim_index ms = (case ma_create abi claim_index ms of (token, ms) \<Rightarrow>
     (if token = 0 then Inl (case copyLastError abi 0 ms of Inl e \<Rightarrow> e | Inr message \<Rightarrow> message)
      else Inr (empty_instance\<lparr>ni_module := True, ni_token := token, ni_claim_index := claim_index\<rparr>), ms))"

text \<open>How \<open>bind\<close> reads the code of the module, with the message still to be copied, or None.\<close>

definition bind_outcome :: "int \<Rightarrow> ParserModuleBindResult" where
  "bind_outcome code = (let result = \<lparr>br_outcome = BoError, br_fault = FkNone, br_result_code = code, br_message = []\<rparr> in
     if code = 0 then result\<lparr>br_outcome := BoAccept\<rparr>
     else if code = 1 then result\<lparr>br_outcome := BoDecline\<rparr>
     else if code < 0 then (if code = - 2 then result\<lparr>br_fault := FkContractViolation\<rparr> else result)
     else result\<lparr>br_fault := FkContractViolation,
       br_message := ''pj_module_bind returned an out-of-contract positive result''\<rparr>)"

definition instance_bind :: "'m module_abi \<Rightarrow> BindingInfoV1 \<Rightarrow> NativeParserModuleInstance \<Rightarrow> 'm \<Rightarrow>
  (string + ParserModuleBindResult) \<times> NativeParserModuleInstance \<times> 'm" where
  "instance_bind abi info ni ms =
     (if \<not> ni_valid ni then (Inl ''cannot bind an invalid native parser-module instance'', ni, ms)
      else if bi_claim_index info \<noteq> ni_claim_index ni
      then (Inl ''BindingInfo claim_index does not match the created instance'', ni, ms)
      else case writeBindingInfoV1 info of
        Inl e \<Rightarrow> (Inl e, ni, ms)
      | Inr encoded \<Rightarrow> (case ma_bind abi (ni_token ni) encoded ms of (code, ms) \<Rightarrow>
          let result = bind_outcome code in
          if code = 0
          then (Inr result, ni\<lparr>ni_bound_route := bi_route info,
                  ni_expected_object_type := bi_expected_object_type info, ni_bound := True\<rparr>, ms)
          else if code > 1 then (Inr result, ni\<lparr>ni_bound := False\<rparr>, ms)
          else (Inr (case copyLastError abi (ni_token ni) ms of
                   Inl e \<Rightarrow> result\<lparr>br_fault := FkContractViolation, br_message := e\<rparr>
                 | Inr message \<Rightarrow> result\<lparr>br_message := message\<rparr>), ni\<lparr>ni_bound := False\<rparr>, ms)))"

text \<open>What \<open>parse\<close> makes of the code and the block of the module.\<close>

definition consume_output :: "(f64 \<Rightarrow> u8) \<Rightarrow> NativeParserModuleInstance \<Rightarrow> bytes \<Rightarrow> int \<Rightarrow> bytes option \<Rightarrow>
  ParserModuleParseResult" where
  "consume_output nan_cast ni payload code block =
     (if code \<noteq> 0 then contractViolation code ''pj_module_parse returned a nonzero non-error result''
      else if block = None \<or> block = Some [] \<or> length (the block) > size_max
      then contractViolation code ''pj_module_parse returned an unreadable output descriptor''
      else case readOutputDescriptorV1 (the block) of
        Inl e \<Rightarrow> contractViolation code (''malformed output descriptor: '' @ e)
      | Inr descriptor \<Rightarrow>
          let ok = (\<lambda>out. \<lparr>ppr_fault = FkNone, ppr_result_code = code, ppr_message = [], ppr_output = Some out\<rparr>) in
          if ni_bound_route ni = kScalar
          then (case descriptor of
              ScalarOutput scalar \<Rightarrow> ok (PmScalar (ownScalarOutput scalar))
            | ObjectOutput _ \<Rightarrow> contractViolation code ''output descriptor route does not match the scalar binding'')
          else (case descriptor of
              ScalarOutput _ \<Rightarrow> contractViolation code ''output descriptor route does not match the object binding''
            | ObjectOutput out \<Rightarrow> (case ownObjectOutput nan_cast out payload (ni_expected_object_type ni) of
                  Inl e \<Rightarrow> contractViolation code e
                | Inr owned \<Rightarrow> ok (PmObject owned))))"

definition instance_parse :: "(f64 \<Rightarrow> u8) \<Rightarrow> 'm module_abi \<Rightarrow> ParseInputV1 \<Rightarrow> NativeParserModuleInstance \<Rightarrow> 'm \<Rightarrow>
  (string + ParserModuleParseResult) \<times> 'm" where
  "instance_parse nan_cast abi input ni ms =
     (if \<not> ni_valid ni then (Inl ''cannot parse with an invalid native parser-module instance'', ms)
      else if \<not> ni_bound ni then (Inl ''cannot parse before an accepted module bind'', ms)
      else case writeParseInputV1 input of
        Inl e \<Rightarrow> (Inl e, ms)
      | Inr encoded \<Rightarrow> (case ma_parse abi (ni_token ni) encoded ms of ((code, block), ms) \<Rightarrow>
          (Inr (if code < 0
             then (case copyLastError abi (ni_token ni) ms of
                 Inl e \<Rightarrow> contractViolation code e
               | Inr message \<Rightarrow>
                   \<lparr>ppr_fault = (if code = - 2 then FkContractViolation else FkDataError),
                    ppr_result_code = code, ppr_message = message, ppr_output = None\<rparr>)
             else consume_output nan_cast ni (pin_payload input) code block), ms)))"

subsection \<open>\<open>ParserModuleStrikeTracker\<close>\<close>

record ParserModuleClaimKey =
  ck_module_id :: string
  ck_claim_id :: string

datatype ParserModuleClaimHealth = ChActive | ChQuarantined | ChDisabled

record ParserModuleStrikeState =
  ss_health :: ParserModuleClaimHealth
  ss_strikes :: u8
  ss_quarantine_count :: u8

type_synonym strike_states = "ParserModuleClaimKey \<rightharpoonup> ParserModuleStrikeState"

definition default_StrikeState :: ParserModuleStrikeState where
  "default_StrikeState = \<lparr>ss_health = ChActive, ss_strikes = 0, ss_quarantine_count = 0\<rparr>"

definition strike :: "ParserModuleStrikeState \<Rightarrow> ParserModuleStrikeState" where
  "strike state =
     (let state = state\<lparr>ss_strikes := ss_strikes state + 1\<rparr> in
      if ss_strikes state = 3
      then let state = state\<lparr>ss_strikes := 0, ss_quarantine_count := ss_quarantine_count state + 1\<rparr>
           in state\<lparr>ss_health := (if ss_quarantine_count state = 1 then ChQuarantined else ChDisabled)\<rparr>
      else state)"

definition tracker_state :: "ParserModuleClaimKey \<Rightarrow> strike_states \<Rightarrow> ParserModuleStrikeState" where
  "tracker_state key states = (case states key of None \<Rightarrow> default_StrikeState | Some state \<Rightarrow> state)"

definition recordFault :: "ParserModuleClaimKey \<Rightarrow> ParserModuleFaultKind \<Rightarrow> strike_states \<Rightarrow>
  ParserModuleStrikeState \<times> strike_states" where
  "recordFault key fault states =
     (let state = tracker_state key states;
          state' = (if fault \<noteq> FkContractViolation \<or> ss_health state \<noteq> ChActive then state else strike state)
      in (state', states(key \<mapsto> state')))"

definition markRecreated :: "ParserModuleClaimKey \<Rightarrow> strike_states \<Rightarrow> bool \<times> strike_states" where
  "markRecreated key states = (case states key of
     None \<Rightarrow> (False, states)
   | Some state \<Rightarrow> if ss_health state \<noteq> ChQuarantined then (False, states)
                   else (True, states(key \<mapsto> state\<lparr>ss_health := ChActive\<rparr>)))"

subsection \<open>What a host may rely on\<close>

text \<open>
  The contract of a module. \<open>facts\<close> is what the module knows of a live token: its claim, and the
  route it is bound to. The laws say when a token is live, which calls change what is known of it,
  which codes a call on a live token returns, and what the block of a successful parse is.
\<close>

fun descriptor_route :: "OutputDescriptorV1 \<Rightarrow> Route" where
  "descriptor_route (ObjectOutput out) = kObject"
| "descriptor_route (ScalarOutput scalar) = kScalar"

locale module_contract =
  fixes abi :: "'m module_abi" and facts :: "'m \<Rightarrow> u64 \<Rightarrow> (u32 \<times> Route option) option"
  assumes last_error_bound: "ma_last_error abi token ms = (written, buffer) \<Longrightarrow> written \<le> 512"
    and create_new: "ma_create abi claim ms = (token, ms') \<Longrightarrow> token \<noteq> 0 \<Longrightarrow>
      facts ms token = None \<and> facts ms' token = Some (claim, None)"
    and create_keeps: "facts ms t = Some x \<Longrightarrow> facts (snd (ma_create abi claim ms)) t = Some x"
    and destroy_keeps: "facts ms t = Some x \<Longrightarrow> t \<noteq> token \<Longrightarrow> facts (ma_destroy abi token ms) t = Some x"
    and bind_keeps: "facts ms t = Some x \<Longrightarrow> t \<noteq> token \<Longrightarrow> facts (snd (ma_bind abi token block ms)) t = Some x"
    and bind_claim: "facts ms token = Some (claim, r) \<Longrightarrow> \<exists>r'. facts (snd (ma_bind abi token block ms)) token = Some (claim, r')"
    and bind_code: "facts ms token = Some x \<Longrightarrow> fst (ma_bind abi token block ms) \<le> 1 \<and> fst (ma_bind abi token block ms) \<noteq> - 2"
    and bind_route: "facts ms token = Some (claim, r) \<Longrightarrow> ma_bind abi token block ms = (0, ms') \<Longrightarrow>
      readBindingInfoV1 block = Inr info \<Longrightarrow> facts ms' token = Some (claim, Some (bi_route info))"
    and parse_keeps: "facts ms t = Some x \<Longrightarrow> facts (snd (ma_parse abi token block ms)) t = Some x"
    and parse_code: "facts ms token = Some x \<Longrightarrow>
      fst (fst (ma_parse abi token block ms)) \<le> 0 \<and> fst (fst (ma_parse abi token block ms)) \<noteq> - 2"
    and parse_block: "facts ms token = Some (claim, Some route) \<Longrightarrow> ma_parse abi token block ms = ((0, out), ms') \<Longrightarrow>
      \<exists>answer. out = Some answer \<and> answer \<noteq> [] \<and> (length answer \<le> size_max \<longrightarrow>
        (\<exists>d. readOutputDescriptorV1 answer = Inr d \<and> (descriptor_route d = kScalar \<longleftrightarrow> route = kScalar)))"

text \<open>The owners of a host and the module behind them.\<close>

inductive owners_step :: "(f64 \<Rightarrow> u8) \<Rightarrow> 'm module_abi \<Rightarrow> NativeParserModuleInstance list \<times> 'm \<Rightarrow>
    NativeParserModuleInstance list \<times> 'm \<Rightarrow> bool" for nan_cast abi where
  owner_created: "instance_create abi claim ms = (Inr ni, ms') \<Longrightarrow> owners_step nan_cast abi (os, ms) (os @ [ni], ms')"
| owner_refused: "instance_create abi claim ms = (Inl e, ms') \<Longrightarrow> owners_step nan_cast abi (os, ms) (os, ms')"
| owner_bound: "i < length os \<Longrightarrow> instance_bind abi info (os ! i) ms = (r, ni, ms') \<Longrightarrow>
    owners_step nan_cast abi (os, ms) (os[i := ni], ms')"
| owner_parsed: "i < length os \<Longrightarrow> instance_parse nan_cast abi input (os ! i) ms = (r, ms') \<Longrightarrow>
    owners_step nan_cast abi (os, ms) (os, ms')"
| owner_destroyed: "i < length os \<Longrightarrow> instance_reset abi (os ! i) ms = (ni, ms') \<Longrightarrow>
    owners_step nan_cast abi (os, ms) (os[i := ni], ms')"
| owner_assigned: "i < length os \<Longrightarrow> j < length os \<Longrightarrow> i \<noteq> j \<Longrightarrow>
    instance_assign abi (os ! i) (os ! j) ms = (ni, left, ms') \<Longrightarrow>
    owners_step nan_cast abi (os, ms) (os[i := ni, j := left], ms')"

definition owners_reachable :: "(f64 \<Rightarrow> u8) \<Rightarrow> 'm module_abi \<Rightarrow> 'm \<Rightarrow> NativeParserModuleInstance list \<times> 'm \<Rightarrow> bool" where
  "owners_reachable nan_cast abi ms hs \<longleftrightarrow> (owners_step nan_cast abi)\<^sup>*\<^sup>* ([], ms) hs"

text \<open>What an owner and the module agree on.\<close>

definition owner_agrees :: "(u32 \<times> Route option) option \<Rightarrow> NativeParserModuleInstance \<Rightarrow> bool" where
  "owner_agrees known ni \<longleftrightarrow> ni_module ni \<and> (\<exists>r. known = Some (ni_claim_index ni, r) \<and>
     (ni_bound ni \<longrightarrow> r = Some (ni_bound_route ni)))"

lemma owner_agreesE:
  assumes "owner_agrees known ni"
  obtains r where "ni_module ni" "known = Some (ni_claim_index ni, r)" "ni_bound ni \<Longrightarrow> r = Some (ni_bound_route ni)"
  using assms unfolding owner_agrees_def by blast

lemma owner_agreesI:
  "ni_module ni \<Longrightarrow> known = Some (ni_claim_index ni, r) \<Longrightarrow> (ni_bound ni \<Longrightarrow> r = Some (ni_bound_route ni)) \<Longrightarrow>
   owner_agrees known ni"
  by (simp add: owner_agrees_def)

definition owners_ok :: "(u64 \<Rightarrow> (u32 \<times> Route option) option) \<Rightarrow> NativeParserModuleInstance list \<Rightarrow> bool" where
  "owners_ok known os \<longleftrightarrow> (\<forall>i < length os. ni_valid (os ! i) \<longrightarrow> owner_agrees (known (ni_token (os ! i))) (os ! i)) \<and>
     (\<forall>i < length os. \<forall>j < length os. ni_valid (os ! i) \<longrightarrow> ni_token (os ! i) = ni_token (os ! j) \<longrightarrow> i = j)"

lemma owners_okI:
  assumes "\<And>i. i < length os \<Longrightarrow> ni_valid (os ! i) \<Longrightarrow> owner_agrees (known (ni_token (os ! i))) (os ! i)"
    and "\<And>i j. i < length os \<Longrightarrow> j < length os \<Longrightarrow> ni_valid (os ! i) \<Longrightarrow> ni_token (os ! i) = ni_token (os ! j) \<Longrightarrow> i = j"
  shows "owners_ok known os"
  using assms by (simp add: owners_ok_def)

lemma owners_ok_agrees: "owners_ok known os \<Longrightarrow> i < length os \<Longrightarrow> ni_valid (os ! i) \<Longrightarrow>
    owner_agrees (known (ni_token (os ! i))) (os ! i)"
  by (simp add: owners_ok_def)

lemma owners_ok_unique: "owners_ok known os \<Longrightarrow> i < length os \<Longrightarrow> j < length os \<Longrightarrow> ni_valid (os ! i) \<Longrightarrow>
    ni_token (os ! i) = ni_token (os ! j) \<Longrightarrow> i = j"
  by (simp add: owners_ok_def)

text \<open>Changing one owner, when the module keeps what it knows of the others.\<close>

lemma owners_ok_update:
  assumes ok: "owners_ok known os" and i: "i < length os"
    and keeps: "\<And>t x. known t = Some x \<Longrightarrow> t \<noteq> ni_token (os ! i) \<Longrightarrow> known' t = Some x"
    and new: "ni_valid ni \<Longrightarrow> ni_token ni = ni_token (os ! i) \<and> owner_agrees (known' (ni_token ni)) ni"
  shows "owners_ok known' (os[i := ni])"
proof (rule owners_okI)
  fix j assume j: "j < length (os[i := ni])" and valid: "ni_valid (os[i := ni] ! j)"
  show "owner_agrees (known' (ni_token (os[i := ni] ! j))) (os[i := ni] ! j)"
  proof (cases "j = i")
    case True
    with valid i have "ni_valid ni" by simp
    then have "owner_agrees (known' (ni_token ni)) ni" using new by blast
    with True i show ?thesis by simp
  next
    case False
    with j valid have v: "j < length os" "ni_valid (os ! j)" by simp_all
    have "ni_token (os ! j) \<noteq> ni_token (os ! i)" using owners_ok_unique [OF ok v(1) i v(2)] False by blast
    moreover obtain r where r: "known (ni_token (os ! j)) = Some (ni_claim_index (os ! j), r)"
      using owners_ok_agrees [OF ok v] by (auto simp: owner_agrees_def)
    ultimately have "known' (ni_token (os ! j)) = known (ni_token (os ! j))" using keeps [OF r] by simp
    then show ?thesis using owners_ok_agrees [OF ok v] False by simp
  qed
next
  fix j k assume j: "j < length (os[i := ni])" and k: "k < length (os[i := ni])" and valid: "ni_valid (os[i := ni] ! j)"
    and eq: "ni_token (os[i := ni] ! j) = ni_token (os[i := ni] ! k)"
  have same: "ni_valid (os ! k) \<and> ni_token (os[i := ni] ! k) = ni_token (os ! k)"
    if "ni_valid (os[i := ni] ! k)" for k
  proof (cases "k = i")
    case True
    with that i have "ni_valid ni" by simp
    with new have "ni_token ni = ni_token (os ! i)" by blast
    with True i \<open>ni_valid ni\<close> show ?thesis by (simp add: ni_valid_def)
  qed (use that in simp)
  from valid eq have valid': "ni_valid (os[i := ni] ! k)" by (simp add: ni_valid_def)
  from j k have "j < length os" "k < length os" by simp_all
  from owners_ok_unique [OF ok this] same [OF valid] same [OF valid'] eq show "j = k" by metis
qed

lemma owners_ok_known:
  assumes "owners_ok known os" and "\<And>t x. known t = Some x \<Longrightarrow> known' t = Some x"
  shows "owners_ok known' os"
proof (rule owners_okI)
  fix i assume i: "i < length os" "ni_valid (os ! i)"
  from owners_ok_agrees [OF assms(1) i] show "owner_agrees (known' (ni_token (os ! i))) (os ! i)"
    by (rule owner_agreesE) (rule owner_agreesI, assumption, rule assms(2), assumption, blast)
qed (rule owners_ok_unique [OF assms(1)])

lemma bind_outcome_fault: "code \<le> 1 \<Longrightarrow> code \<noteq> - 2 \<Longrightarrow> br_fault (bind_outcome code) = FkNone"
  by (simp add: bind_outcome_def Let_def)

context module_contract
begin

lemma copied: "\<exists>message. copyLastError abi token ms = Inr message"
proof (cases "ma_last_error abi token ms")
  case (Pair written buffer)
  from last_error_bound [OF this] Pair show ?thesis by (simp add: copyLastError_def)
qed

lemma create_ok:
  assumes "owners_ok (facts ms) os" "instance_create abi claim ms = (Inr ni, ms')"
  shows "owners_ok (facts ms') (os @ [ni])"
proof -
  obtain token where c: "ma_create abi claim ms = (token, ms')" "token \<noteq> 0"
    and ni: "ni = empty_instance\<lparr>ni_module := True, ni_token := token, ni_claim_index := claim\<rparr>"
    using assms(2) by (auto simp: instance_create_def split: prod.splits if_splits)
  from create_new [OF c] have new: "facts ms token = None" "facts ms' token = Some (claim, None)" by auto
  have fresh: "ni_token (os ! i) \<noteq> token" if "i < length os" "ni_valid (os ! i)" for i
    using owners_ok_agrees [OF assms(1) that] new(1) by (auto simp: owner_agrees_def)
  have known: "owners_ok (facts ms') os"
    by (rule owners_ok_known [OF assms(1)]) (use create_keeps [where claim = claim and ms = ms] c(1) in force)
  show ?thesis
  proof (rule owners_okI)
    fix i assume i: "i < length (os @ [ni])" "ni_valid ((os @ [ni]) ! i)"
    show "owner_agrees (facts ms' (ni_token ((os @ [ni]) ! i))) ((os @ [ni]) ! i)"
    proof (cases "i < length os")
      case True
      with i(2) owners_ok_agrees [OF known True] show ?thesis by (simp add: nth_append)
    next
      case False
      with i(1) have "(os @ [ni]) ! i = ni" by (simp add: nth_append)
      then show ?thesis by (simp add: ni new(2) owner_agrees_def empty_instance_def)
    qed
  next
    fix i j assume "i < length (os @ [ni])" "j < length (os @ [ni])" "ni_valid ((os @ [ni]) ! i)"
      "ni_token ((os @ [ni]) ! i) = ni_token ((os @ [ni]) ! j)"
    moreover have "ni_token ni = token" by (simp add: ni)
    ultimately show "i = j"
      using owners_ok_unique [OF known] fresh [of i] fresh [of j]
      by (auto simp: nth_append ni_valid_def not_less less_Suc_eq split: if_splits)
  qed
qed

lemma create_failed_ok:
  assumes "owners_ok (facts ms) os" "instance_create abi claim ms = (r, ms')"
  shows "owners_ok (facts ms') os"
proof -
  have "ms' = snd (ma_create abi claim ms)" using assms(2) by (auto simp: instance_create_def split: prod.splits)
  then show ?thesis using owners_ok_known [OF assms(1)] create_keeps by blast
qed

lemma bind_state:
  assumes "instance_bind abi info ni ms = (r, ni', ms')"
  obtains "ni' = ni" "ms' = ms" "\<exists>e. r = Inl e"
  | block code where "ni_valid ni" "bi_claim_index info = ni_claim_index ni" "writeBindingInfoV1 info = Inr block"
      "ma_bind abi (ni_token ni) block ms = (code, ms')"
      "ni' = (if code = 0 then ni\<lparr>ni_bound_route := bi_route info,
                  ni_expected_object_type := bi_expected_object_type info, ni_bound := True\<rparr> else ni\<lparr>ni_bound := False\<rparr>)"
proof (cases "ni_valid ni \<and> bi_claim_index info = ni_claim_index ni \<and> (\<exists>block. writeBindingInfoV1 info = Inr block)")
  case True
  then obtain block where block: "writeBindingInfoV1 info = Inr block" by blast
  obtain code ms1 where call: "ma_bind abi (ni_token ni) block ms = (code, ms1)"
    by (cases "ma_bind abi (ni_token ni) block ms")
  from assms True block call have "ms' = ms1 \<and> ni' = (if code = 0 then ni\<lparr>ni_bound_route := bi_route info,
      ni_expected_object_type := bi_expected_object_type info, ni_bound := True\<rparr> else ni\<lparr>ni_bound := False\<rparr>)"
    by (simp add: instance_bind_def Let_def split: if_splits)
  with that(2) True block call show thesis by blast
next
  case False
  with assms have "ni' = ni \<and> ms' = ms \<and> (\<exists>e. r = Inl e)"
    by (cases "writeBindingInfoV1 info") (auto simp: instance_bind_def split: if_splits)
  with that(1) show thesis by blast
qed

lemma bind_ok:
  assumes ok: "owners_ok (facts ms) os" and i: "i < length os"
    and bind: "instance_bind abi info (os ! i) ms = (r, ni, ms')"
  shows "owners_ok (facts ms') (os[i := ni])"
proof (cases rule: bind_state [OF bind])
  case 1
  with ok i show ?thesis by (simp add: list_update_id)
next
  case (2 block code)
  have agrees: "owner_agrees (facts ms (ni_token (os ! i))) (os ! i)" by (rule owners_ok_agrees [OF ok i 2(1)])
  then obtain q where q: "ni_module (os ! i)" "facts ms (ni_token (os ! i)) = Some (ni_claim_index (os ! i), q)"
    by (auto simp: owner_agrees_def)
  obtain q' where q': "facts ms' (ni_token (os ! i)) = Some (ni_claim_index (os ! i), q')"
    using bind_claim [OF q(2), of block] 2(4) by auto
  show ?thesis
  proof (rule owners_ok_update [OF ok i])
    fix t x assume "facts ms t = Some x" "t \<noteq> ni_token (os ! i)"
    from bind_keeps [OF this, of block] 2(4) show "facts ms' t = Some x" by simp
  next
    have "readBindingInfoV1 block = Inr info" by (rule read_write_binding [OF 2(3)])
    then have "facts ms' (ni_token (os ! i)) = Some (ni_claim_index (os ! i), Some (bi_route info))" if "code = 0"
      using bind_route [OF q(2)] 2(4) that by blast
    then show "ni_token ni = ni_token (os ! i) \<and> owner_agrees (facts ms' (ni_token ni)) ni"
      using q(1) q' by (simp add: 2(5) owner_agrees_def)
  qed
qed

lemma parse_ok:
  assumes "owners_ok (facts ms) os" "instance_parse nan_cast abi input ni ms = (r, ms')"
  shows "owners_ok (facts ms') os"
proof -
  have "ms' = ms \<or> (\<exists>block. ms' = snd (ma_parse abi (ni_token ni) block ms))"
  proof (cases "ni_valid ni \<and> ni_bound ni \<and> (\<exists>block. writeParseInputV1 input = Inr block)")
    case True
    then obtain block where "writeParseInputV1 input = Inr block" by blast
    with True assms(2) have "ms' = snd (ma_parse abi (ni_token ni) block ms)"
      by (simp add: instance_parse_def case_prod_beta)
    then show ?thesis by blast
  next
    case False
    with assms(2) show ?thesis by (auto simp: instance_parse_def split: if_splits sum.splits)
  qed
  then show ?thesis using owners_ok_known [OF assms(1)] parse_keeps assms(1) by blast
qed

lemma reset_ok:
  assumes ok: "owners_ok (facts ms) os" and i: "i < length os" and reset: "instance_reset abi (os ! i) ms = (ni, ms')"
  shows "owners_ok (facts ms') (os[i := ni])"
proof (rule owners_ok_update [OF ok i])
  fix t x assume "facts ms t = Some x" "t \<noteq> ni_token (os ! i)"
  with destroy_keeps [OF this] reset show "facts ms' t = Some x" by (auto simp: instance_reset_def split: if_splits)
qed (use reset in \<open>auto simp: instance_reset_def ni_valid_def\<close>)

lemma assign_ok:
  assumes ok: "owners_ok (facts ms) os" and ij: "i < length os" "j < length os" "i \<noteq> j"
    and assign: "instance_assign abi (os ! i) (os ! j) ms = (ni, left, ms')"
  shows "owners_ok (facts ms') (os[i := ni, j := left])"
proof -
  obtain empty where reset: "instance_reset abi (os ! i) ms = (empty, ms')"
    and ni: "ni = os ! j" "left = (os ! j)\<lparr>ni_module := False, ni_token := 0, ni_bound := False\<rparr>"
    using assign by (auto simp: instance_assign_def instance_move_def split: prod.splits)
  define os1 where "os1 = os[i := empty]"
  have ok1: "owners_ok (facts ms') os1" unfolding os1_def by (rule reset_ok [OF ok ij(1) reset])
  have invalid: "\<not> ni_valid empty" using reset by (auto simp: instance_reset_def ni_valid_def)
  have at: "os[i := ni, j := left] ! k = (if k = j then left else if k = i then os ! j else os1 ! k)"
    if "k < length os" for k
    using that ij by (simp add: nth_list_update ni(1) os1_def)
  have left: "\<not> ni_valid left" by (simp add: ni(2) ni_valid_def)
  have j1: "os1 ! j = os ! j" using ij by (simp add: os1_def)
  show ?thesis
  proof (rule owners_okI)
    fix k assume k: "k < length (os[i := ni, j := left])" "ni_valid (os[i := ni, j := left] ! k)"
    then have "k < length os" by simp
    with k(2) at left have "k \<noteq> j" by auto
    then show "owner_agrees (facts ms' (ni_token (os[i := ni, j := left] ! k))) (os[i := ni, j := left] ! k)"
      using k at [OF \<open>k < length os\<close>] owners_ok_agrees [OF ok1, of k] owners_ok_agrees [OF ok1, of j] ij j1
      by (auto simp: os1_def split: if_splits)
  next
    fix k l assume k: "k < length (os[i := ni, j := left])" and l: "l < length (os[i := ni, j := left])"
      and valid: "ni_valid (os[i := ni, j := left] ! k)"
      and eq: "ni_token (os[i := ni, j := left] ! k) = ni_token (os[i := ni, j := left] ! l)"
    from eq valid have valid': "ni_valid (os[i := ni, j := left] ! l)" by (simp add: ni_valid_def)
    define src where "src = (\<lambda>k. if k = i then j else k)"
    have src: "os[i := ni, j := left] ! k = os1 ! src k \<and> src k < length os1 \<and> k \<noteq> j"
      if "k < length os" "ni_valid (os[i := ni, j := left] ! k)" for k
      using at [OF that(1)] that left ij j1 by (auto simp: src_def os1_def split: if_splits)
    from k l have "k < length os" "l < length os" by simp_all
    note sk = src [OF this(1) valid] and sl = src [OF this(2) valid']
    have "src k = src l" using owners_ok_unique [OF ok1] sk sl valid eq by metis
    then show "k = l" using sk sl by (auto simp: src_def split: if_splits)
  qed
qed

text \<open>The owners and the module agree in every state a host can reach.\<close>

lemma step_ok: "owners_step nan_cast abi hs hs' \<Longrightarrow> owners_ok (facts (snd hs)) (fst hs) \<Longrightarrow> owners_ok (facts (snd hs')) (fst hs')"
  by (induction rule: owners_step.induct)
    (auto intro: create_ok create_failed_ok bind_ok parse_ok reset_ok assign_ok)

lemma reachable_ok: "owners_reachable nan_cast abi ms hs \<Longrightarrow> owners_ok (facts (snd hs)) (fst hs)"
  unfolding owners_reachable_def
proof (induction rule: rtranclp_induct)
  case base
  show ?case by (simp add: owners_ok_def)
next
  case (step hs hs')
  from step_ok [OF step.hyps(2) step.IH] show ?case .
qed

text \<open>A conforming module is not blamed for a bind.\<close>

lemma bind_blameless:
  assumes "owner_agrees (facts ms (ni_token ni)) ni" "instance_bind abi info ni ms = (Inr r, ni', ms')"
  shows "br_fault r = FkNone"
proof -
  from assms(1) obtain x where x: "facts ms (ni_token ni) = Some x" by (auto simp: owner_agrees_def)
  obtain block code where "ma_bind abi (ni_token ni) block ms = (code, ms')"
    and r: "r = bind_outcome code \<or> (\<exists>message. r = (bind_outcome code)\<lparr>br_message := message\<rparr>)"
    using assms(2) copied [of "ni_token ni" ms']
    by (auto simp: instance_bind_def Let_def split: if_splits sum.splits prod.splits)
  with bind_code [OF x, of block] have "br_fault (bind_outcome code) = FkNone" by (intro bind_outcome_fault) auto
  with r show ?thesis by auto
qed

text \<open>Of a parse it can only be blamed for an object that is not what was bound, or does not fit.\<close>

lemma parse_blame:
  assumes agrees: "owner_agrees (facts ms (ni_token ni)) ni"
    and parse: "instance_parse nan_cast abi input ni ms = (Inr r, ms')" and fault: "ppr_fault r = FkContractViolation"
  obtains block out e where "ma_parse abi (ni_token ni) block ms = ((0, Some out), ms')" "length out > size_max"
  | block out d e where "ma_parse abi (ni_token ni) block ms = ((0, Some out), ms')"
      "readOutputDescriptorV1 out = Inr (ObjectOutput d)" "ni_bound_route ni \<noteq> kScalar"
      "ownObjectOutput nan_cast d (pin_payload input) (ni_expected_object_type ni) = Inl e" "ppr_message r = e"
proof -
  from parse have bound: "ni_bound ni" by (auto simp: instance_parse_def split: if_splits)
  with agrees obtain x where x: "facts ms (ni_token ni) = Some (x, Some (ni_bound_route ni))"
    by (auto simp: owner_agrees_def)
  obtain block code out where b: "ma_parse abi (ni_token ni) block ms = ((code, out), ms')"
    and r: "r = (if code < 0 then (case copyLastError abi (ni_token ni) ms' of
                 Inl e \<Rightarrow> contractViolation code e
               | Inr message \<Rightarrow>
                   \<lparr>ppr_fault = (if code = - 2 then FkContractViolation else FkDataError),
                    ppr_result_code = code, ppr_message = message, ppr_output = None\<rparr>)
             else consume_output nan_cast ni (pin_payload input) code out)"
    using parse by (auto simp: instance_parse_def split: if_splits sum.splits prod.splits)
  from parse_code [OF x, of block] b have code: "code \<le> 0" "code \<noteq> - 2" by auto
  with r fault copied [of "ni_token ni" ms'] have zero: "code = 0" by (auto split: if_splits)
  with b have b0: "ma_parse abi (ni_token ni) block ms = ((0, out), ms')" by simp
  obtain answer where answer: "out = Some answer" "answer \<noteq> []"
    and read: "length answer \<le> size_max \<Longrightarrow> (\<exists>d. readOutputDescriptorV1 answer = Inr d \<and>
        (descriptor_route d = kScalar \<longleftrightarrow> ni_bound_route ni = kScalar))"
    using parse_block [OF x b0] by auto
  show thesis
  proof (cases "length answer \<le> size_max")
    case True
    from read [OF True] obtain d where d: "readOutputDescriptorV1 answer = Inr d"
      "descriptor_route d = kScalar \<longleftrightarrow> ni_bound_route ni = kScalar" by blast
    show thesis
    proof (cases d)
      case (ObjectOutput o')
      with d(2) have route: "ni_bound_route ni \<noteq> kScalar" by (simp add: kObject_def kScalar_def)
      from r zero answer d(1) True ObjectOutput route fault obtain e where
        "ownObjectOutput nan_cast o' (pin_payload input) (ni_expected_object_type ni) = Inl e" "ppr_message r = e"
        by (auto simp: consume_output_def contractViolation_def split: sum.splits)
      with that(2) b0 answer(1) d(1) ObjectOutput route show thesis by blast
    next
      case (ScalarOutput s)
      with d(2) r zero answer d(1) True fault show thesis by (simp add: consume_output_def)
    qed
  next
    case False
    with that(1) b0 answer(1) show thesis by auto
  qed
qed

end

subsection \<open>The exports satisfy the contract\<close>

definition module_exports :: "'p parser_class \<Rightarrow> nat \<Rightarrow> 'p module_state module_abi" where
  "module_exports parser n = \<lparr>ma_create = module_create parser n, ma_destroy = module_destroy,
     ma_bind = (\<lambda>token block. module_bind parser token (Buffer block)),
     ma_parse = (\<lambda>token block. module_parse parser token (Buffer block) True),
     ma_last_error = (\<lambda>token ms. let message = module_lastError token 512 ms in (length message, message))\<rparr>"

lemma module_exports_simps [simp]:
  "ma_create (module_exports parser n) = module_create parser n"
  "ma_destroy (module_exports parser n) = module_destroy"
  "ma_bind (module_exports parser n) token block = module_bind parser token (Buffer block)"
  "ma_parse (module_exports parser n) token block = module_parse parser token (Buffer block) True"
  "ma_last_error (module_exports parser n) token ms =
     (length (module_lastError token 512 ms), module_lastError token 512 ms)"
  by (simp_all add: module_exports_def Let_def)

definition instance_facts :: "'p Instance \<Rightarrow> u32 \<times> Route option" where
  "instance_facts i = (in_claim_index i,
     if in_bound i then Some (if in_route i = kObject then kObject else kScalar) else None)"

definition token_facts :: "'p module_state \<Rightarrow> u64 \<Rightarrow> (u32 \<times> Route option) option" where
  "token_facts ms token = map_option instance_facts (instance_of ms token)"

lemma token_facts_iff: "token_facts ms token = Some x \<longleftrightarrow> (\<exists>i. instance_of ms token = Some i \<and> instance_facts i = x)"
  by (auto simp: token_facts_def)

text \<open>A call on a live token is the call of its instance.\<close>

lemma found: "instance_of ms token = Some i \<Longrightarrow>
  findSlotLocked (ms_slots ms) token = Some (token_slot token) \<and> sl_instance (ms_slots ms ! token_slot token) = Some i"
  by (auto simp: instance_of_iff findSlot_iff)

lemma module_bind_live:
  assumes "instance_of ms token = Some i" "bind_instance parser view i = (code, i')"
  shows "module_bind parser token view ms = (code, slot_instance (token_slot token) i' ms)"
    and "instance_of (snd (module_bind parser token view ms)) token = Some i'"
  using found [OF assms(1)] assms(2) slot_instance_own [OF assms(1)] by (simp_all add: module_bind_def)

lemma module_parse_live:
  assumes "instance_of ms token = Some i" "parse_instance parser view pointers i = (result, i')"
  shows "module_parse parser token view pointers ms = (result, slot_instance (token_slot token) i' ms)"
    and "instance_of (snd (module_parse parser token view pointers ms)) token = Some i'"
  using found [OF assms(1)] assms(2) slot_instance_own [OF assms(1)] by (simp_all add: module_parse_def)

lemma same_answer_Inr: "same_answer x y \<Longrightarrow> y = Inr a \<Longrightarrow> x = Inr a"
  by (cases x) (auto simp: same_answer_def)

lemma bind_instance_effect:
  assumes "bind_instance parser (Buffer block) i = (code, i')"
  shows "in_claim_index i' = in_claim_index i" and "code \<le> 1 \<and> code \<noteq> - 2"
    and "code = 0 \<Longrightarrow> readBindingInfoV1 block = Inr info \<Longrightarrow> in_bound i' \<and> in_route i' = bi_route info"
proof -
  show "in_claim_index i' = in_claim_index i"
    using assms by (auto simp: bind_instance_def fail_instance_def Let_def split: sum.splits if_splits prod.splits option.splits)
  show "code \<le> 1 \<and> code \<noteq> - 2"
    using assms by (auto simp: bind_instance_def fail_instance_def Let_def kModuleOk_def kModuleDecline_def kModuleError_def
        kModuleMalformedInput_def kModuleBadClaimIndex_def split: sum.splits if_splits prod.splits option.splits Status.splits)
  assume code: "code = 0" and info: "readBindingInfoV1 block = Inr info"
  from same_answer_Inr [OF readBindingInfo_same info] have "readBindingInfo (Buffer block) = Inr info" .
  with assms code show "in_bound i' \<and> in_route i' = bi_route info"
    by (auto simp: bind_instance_def fail_instance_def Let_def kModuleOk_def kModuleDecline_def kModuleError_def
        kModuleMalformedInput_def kModuleBadClaimIndex_def split: if_splits prod.splits option.splits Status.splits)
qed

text \<open>A parse that succeeds is the block of the writer of the route.\<close>

lemma parse_instance_effect:
  assumes "parse_instance parser view pointers i = ((code, out), i')"
  shows "instance_facts i' = instance_facts i" and "code \<le> 0 \<and> code \<noteq> - 2"
    and "code = 0 \<Longrightarrow> \<exists>input p answer. readParseInput view = Inr input \<and> in_bound i \<and> out = Some answer \<and>
      parse_route parser (in_route i) input (in_parser i) = (Some StOk, Inr answer, p)"
proof -
  have isOk: "isOk status \<Longrightarrow> status = StOk" for status by (cases status) (simp_all add: isOk_def)
  have split: "(code = - 1 \<or> code = - 3) \<and> instance_facts i' = instance_facts i \<or>
    (\<exists>input p answer. readParseInput view = Inr input \<and> in_bound i \<and>
      parse_route parser (in_route i) input (in_parser i) = (Some StOk, Inr answer, p) \<and>
      code = 0 \<and> out = Some answer \<and> i' = i\<lparr>in_parser := p, in_output := answer, in_error := []\<rparr>)"
  proof (cases "in_bound i \<and> pointers \<and> (\<exists>block. view = Buffer block) \<and> (\<exists>input. readParseInput view = Inr input)")
    case True
    then obtain block input where view: "view = Buffer block" and input: "readParseInput (Buffer block) = Inr input" by blast
    obtain status written p where route: "parse_route parser (in_route i) input (in_parser i) = (status, written, p)"
      by (cases "parse_route parser (in_route i) input (in_parser i)")
    show ?thesis
      using assms True by (auto simp: parse_instance_def fail_instance_def instance_facts_def Let_def view input route
          kModuleOk_def kModuleError_def dest!: isOk split: option.splits sum.splits if_splits)
  next
    case False
    then show ?thesis
      using assms by (auto simp: parse_instance_def fail_instance_def instance_facts_def Let_def
          kModuleError_def kModuleMalformedInput_def split: buffer.splits sum.splits if_splits)
  qed
  have "instance_facts (i\<lparr>in_parser := p, in_output := a, in_error := []\<rparr>) = instance_facts i" for p a
    by (simp add: instance_facts_def)
  with split show "instance_facts i' = instance_facts i" by metis
  show "code \<le> 0 \<and> code \<noteq> - 2" using split by auto
  show "code = 0 \<Longrightarrow> \<exists>input p answer. readParseInput view = Inr input \<and> in_bound i \<and> out = Some answer \<and>
      parse_route parser (in_route i) input (in_parser i) = (Some StOk, Inr answer, p)"
    using split by auto
qed

lemma sw_finish_ok: "sw_finish sw = Inr block \<Longrightarrow> isOk (sw_status sw)"
  by (auto simp: sw_finish_def split: if_splits)

lemma route_block:
  assumes "parse_route parser route input p = (Some StOk, Inr answer, p')"
  shows "answer \<noteq> []" and "length answer \<le> size_max \<Longrightarrow>
    \<exists>d. readOutputDescriptorV1 answer = Inr d \<and> (descriptor_route d = kScalar \<longleftrightarrow> route \<noteq> kObject)"
proof -
  consider w where "route = kObject" "ow_finish w = Inr answer" | w where "route \<noteq> kObject" "sw_finish w = Inr answer"
    using assms by (cases "route = kObject") (auto simp: parse_route_def split: prod.splits)
  note cases = this
  have scalar: "writeOutputDescriptorV1 (ScalarOutput (scalar_output w)) = Inr answer" if "sw_finish w = Inr answer" for w
    using sw_finish_same [OF sw_finish_ok [OF that]] that
    by (auto simp: same_result_def writeOutputDescriptorV1_def split: sum.splits)
  show "answer \<noteq> []"
  proof (cases rule: cases)
    case (1 w)
    then show ?thesis by (auto simp: ow_finish_def bindE_eq_Inr Let_def split: if_splits)
  next
    case (2 w)
    from read_write_output [OF scalar [OF 2(2)]] show ?thesis
      by (auto simp: readOutputDescriptorV1_def readOutputHeader_def br_u16_def br_littleEndian_def malformed_def)
  qed
  assume len: "length answer \<le> size_max"
  show "\<exists>d. readOutputDescriptorV1 answer = Inr d \<and> (descriptor_route d = kScalar \<longleftrightarrow> route \<noteq> kObject)"
  proof (cases rule: cases)
    case (1 w)
    obtain wire where "writeOutputDescriptorV1 (ObjectOutput \<lparr>oo_object_type = selectedObjectType (ow_kind w),
       oo_splice = writer_splice w, oo_wire = wire\<rparr>) = Inr answer"
      using finish_described [OF 1(2) len] .
    from read_write_output [OF this] 1(1) show ?thesis by (simp add: kObject_def kScalar_def)
  next
    case (2 w)
    from read_write_output [OF scalar [OF 2(2)]] 2(1) show ?thesis by simp
  qed
qed

lemma read_binding_route: "readBindingInfoV1 block = Inr info \<Longrightarrow> bi_route info = kScalar \<or> bi_route info = kObject"
  by (auto simp: readBindingInfoV1_def bindE_eq_Inr refuse_eq_Inr binding_of_spans_def validRoute_iff kScalar_def kObject_def
      malformed_def split: option.splits prod.splits if_splits)

interpretation exports: module_contract "module_exports parser n" token_facts for parser :: "'p parser_class" and n
proof
  fix token :: u64 and ms :: "'p module_state" and written buffer
  assume "ma_last_error (module_exports parser n) token ms = (written, buffer)"
  then show "written \<le> 512" by (auto simp: module_lastError_def Let_def)
next
  fix claim :: u32 and ms ms' :: "'p module_state" and token :: u64
  assume create: "ma_create (module_exports parser n) claim ms = (token, ms')" and ne: "token \<noteq> 0"
  then have c: "module_create parser n claim ms = (token, ms')" by simp
  obtain p index ms1 where made: "claim_slot ms = Some (index, ms1)" "index < uint32_max"
    "token = tokenFor index (sl_generation (ms_slots ms1 ! index))" "ms' = slot_instance index (new_Instance p claim) ms1"
    using module_create_ok [OF c ne] by metis
  have "token_slot token = index" using token_slot_tokenFor [OF made(2)] made(3) by simp
  with created_token(1) [OF c ne] claim_slot_spec(2) [OF made(1)] made(4)
  have "instance_of ms' token = Some (new_Instance p claim)" by (simp add: instance_of_def)
  moreover have "instance_of ms token = None" using created_token(2) [OF c ne] by (simp add: instance_of_None)
  ultimately show "token_facts ms token = None \<and> token_facts ms' token = Some (claim, None)"
    by (simp add: token_facts_def instance_facts_def new_Instance_def)
next
  fix claim t :: "_ word" and ms :: "'p module_state" and x
  assume "token_facts ms t = Some x"
  then show "token_facts (snd (ma_create (module_exports parser n) claim ms)) t = Some x"
    using create_other [of ms t _ parser n claim] by (auto simp: token_facts_iff)
next
  fix t token :: u64 and ms :: "'p module_state" and x
  assume "token_facts ms t = Some x" "t \<noteq> token"
  then show "token_facts (ma_destroy (module_exports parser n) token ms) t = Some x"
    using destroy_other [of ms t _ token] by (auto simp: token_facts_iff)
next
  fix t token :: u64 and ms :: "'p module_state" and x block
  assume "token_facts ms t = Some x" "t \<noteq> token"
  then show "token_facts (snd (ma_bind (module_exports parser n) token block ms)) t = Some x"
    using bind_effect(2) [of ms t _ token] by (auto simp: token_facts_iff)
next
  fix token :: u64 and ms :: "'p module_state" and claim r block
  assume "token_facts ms token = Some (claim, r)"
  then obtain i where i: "instance_of ms token = Some i" "in_claim_index i = claim"
    by (auto simp: token_facts_iff instance_facts_def)
  obtain code i' where b: "bind_instance parser (Buffer block) i = (code, i')" by (cases "bind_instance parser (Buffer block) i")
  from module_bind_live [OF i(1) b] bind_instance_effect(1) [OF b] i(2)
  show "\<exists>r'. token_facts (snd (ma_bind (module_exports parser n) token block ms)) token = Some (claim, r')"
    by (simp add: token_facts_def instance_facts_def)
next
  fix token :: u64 and ms :: "'p module_state" and x block
  assume "token_facts ms token = Some x"
  then obtain i where i: "instance_of ms token = Some i" by (auto simp: token_facts_iff)
  obtain code i' where b: "bind_instance parser (Buffer block) i = (code, i')" by (cases "bind_instance parser (Buffer block) i")
  from module_bind_live [OF i b] bind_instance_effect(2) [OF b]
  show "fst (ma_bind (module_exports parser n) token block ms) \<le> 1 \<and> fst (ma_bind (module_exports parser n) token block ms) \<noteq> - 2"
    by simp
next
  fix token :: u64 and ms ms' :: "'p module_state" and claim r block info
  assume "token_facts ms token = Some (claim, r)" and call: "ma_bind (module_exports parser n) token block ms = (0, ms')"
    and info: "readBindingInfoV1 block = Inr info"
  then obtain i where i: "instance_of ms token = Some i" "in_claim_index i = claim"
    by (auto simp: token_facts_iff instance_facts_def)
  obtain code i' where b: "bind_instance parser (Buffer block) i = (code, i')" by (cases "bind_instance parser (Buffer block) i")
  from module_bind_live [OF i(1) b] call have "code = 0" "instance_of ms' token = Some i'" by auto
  with bind_instance_effect(1,3) [OF b] info i(2) read_binding_route [OF info]
  show "token_facts ms' token = Some (claim, Some (bi_route info))"
    by (auto simp: token_facts_def instance_facts_def)
next
  fix t token :: u64 and ms :: "'p module_state" and x block
  assume "token_facts ms t = Some x"
  then obtain i where i: "instance_of ms t = Some i" "instance_facts i = x" by (auto simp: token_facts_iff)
  show "token_facts (snd (ma_parse (module_exports parser n) token block ms)) t = Some x"
  proof (cases "t = token")
    case True
    obtain code out i' where p: "parse_instance parser (Buffer block) True i = ((code, out), i')"
      by (cases "parse_instance parser (Buffer block) True i") auto
    from module_parse_live(2) [OF i(1) p] parse_instance_effect(1) [OF p] i(2) True show ?thesis
      by (simp add: token_facts_def)
  next
    case False
    with i parse_effect(2) [OF i(1) False] show ?thesis by (simp add: token_facts_def)
  qed
next
  fix token :: u64 and ms :: "'p module_state" and x block
  assume "token_facts ms token = Some x"
  then obtain i where i: "instance_of ms token = Some i" by (auto simp: token_facts_iff)
  obtain code out i' where p: "parse_instance parser (Buffer block) True i = ((code, out), i')"
    by (cases "parse_instance parser (Buffer block) True i") auto
  from module_parse_live(1) [OF i p] parse_instance_effect(2) [OF p]
  show "fst (fst (ma_parse (module_exports parser n) token block ms)) \<le> 0 \<and>
    fst (fst (ma_parse (module_exports parser n) token block ms)) \<noteq> - 2"
    by simp
next
  fix token :: u64 and ms ms' :: "'p module_state" and claim route block out
  assume facts: "token_facts ms token = Some (claim, Some route)"
    and call: "ma_parse (module_exports parser n) token block ms = ((0, out), ms')"
  then obtain i where i: "instance_of ms token = Some i" "instance_facts i = (claim, Some route)" by (auto simp: token_facts_iff)
  obtain code out' i' where p: "parse_instance parser (Buffer block) True i = ((code, out'), i')"
    by (cases "parse_instance parser (Buffer block) True i") auto
  with module_parse_live(1) [OF i(1) p] call have "code = 0" "out' = out" by auto
  with parse_instance_effect(3) [OF p] obtain input p' answer where answer: "out = Some answer"
    and route: "parse_route parser (in_route i) input (in_parser i) = (Some StOk, Inr answer, p')" by blast
  have "in_route i \<noteq> kObject \<longleftrightarrow> route = kScalar"
    using i(2) by (auto simp: instance_facts_def kScalar_def kObject_def split: if_splits)
  with route_block [OF route] answer
  show "\<exists>answer. out = Some answer \<and> answer \<noteq> [] \<and> (length answer \<le> size_max \<longrightarrow>
      (\<exists>d. readOutputDescriptorV1 answer = Inr d \<and> (descriptor_route d = kScalar \<longleftrightarrow> route = kScalar)))"
    by auto
qed

subsection \<open>One message, from the writer to the host\<close>

text \<open>
  A splice is only a way to carry the bulk bytes: the host receives what the same calls would have
  written with the bytes of the range inline.
\<close>

definition splice_range :: "bytes \<Rightarrow> ObjectWriter \<Rightarrow> bytes" where
  "splice_range payload w = subspan payload (unat (isr_offset (spl_reference (ow_splice w))))
     (unat (isr_length (spl_reference (ow_splice w))))"

definition set_bulk :: "bytes \<Rightarrow> ObjectWriter \<Rightarrow> ObjectWriter" where
  "set_bulk d w = (case ow_kind w of
     WkImage \<Rightarrow> ow_image_update (ims_data_update (\<lambda>_. d)) w
   | WkPointCloud \<Rightarrow> ow_point_cloud_update (pcs_data_update (\<lambda>_. d)) w
   | WkDepthImage \<Rightarrow> ow_depth_image_update (dis_data_update (\<lambda>_. d)) w
   | WkOccupancyGrid \<Rightarrow> ow_occupancy_grid_update (ogs_data_update (\<lambda>_. d)) w
   | WkCompressedPointCloud \<Rightarrow> ow_compressed_point_cloud_update (cps_data_update (\<lambda>_. d)) w
   | WkMesh3D \<Rightarrow> ow_mesh3d_update (mss_data_update (\<lambda>_. d)) w
   | WkVideoFrame \<Rightarrow> ow_video_frame_update (vfs_data_update (\<lambda>_. d)) w
   | WkOccupancyGridUpdate \<Rightarrow> ow_occupancy_update_update (ous_data_update (\<lambda>_. d)) w
   | WkVoxelGrid \<Rightarrow> ow_voxel_grid_update (vgs_data_update (\<lambda>_. d)) w
   | WkGridMap \<Rightarrow> ow_grid_map_update (gms_data_update (\<lambda>_. d)) w
   | WkNone \<Rightarrow> w)"

definition inlined :: "bytes \<Rightarrow> ObjectWriter \<Rightarrow> ObjectWriter" where
  "inlined payload w = (if spl_has_value (ow_splice w)
     then (set_bulk (splice_range payload w) w)\<lparr>ow_splice := (ow_splice w)\<lparr>spl_has_value := False\<rparr>\<rparr> else w)"

definition delivery_ok :: "bytes \<Rightarrow> ObjectWriter \<Rightarrow> bool" where
  "delivery_ok payload w \<longleftrightarrow> (ow_kind w = WkGridMap \<longrightarrow>
     (let grid = written_GridMap (ow_grid_map (inlined payload w)) False
      in validateLayout grid (gm_data grid \<noteq> [] \<or> spl_has_value (ow_splice w)) = Inr ()))"

lemma validateLayout_header:
  assumes "validateLayout g True = Inr ()" "gm_cell_stride h = gm_cell_stride g" "gm_row_stride h = gm_row_stride g"
    "gm_fields h = gm_fields g" "gm_column_count h = gm_column_count g" "gm_row_count h = gm_row_count g"
  shows "validateLayout h False = Inr ()"
  using assms by (auto simp: validateLayout_def split: sum.splits if_splits)

lemma inlined_simps [simp]:
  "ow_kind (inlined payload w) = ow_kind w" "spl_has_value (ow_splice (inlined payload w)) = False"
  by (auto simp: inlined_def set_bulk_def split: WriterKind.split)

lemma delivery_layout: "delivery_ok payload w \<Longrightarrow> layout_accepted w"
proof (cases "spl_has_value (ow_splice w)")
  case True
  have grid: "ow_kind w = WkGridMap \<Longrightarrow> ow_grid_map (inlined payload w) = (ow_grid_map w)\<lparr>gms_data := splice_range payload w\<rparr>"
    using True by (simp add: inlined_def set_bulk_def)
  assume ok: "delivery_ok payload w"
  show ?thesis
  proof (cases "ow_kind w = WkGridMap")
    case True': True
    have "validateLayout (written_GridMap (ow_grid_map w) True) False = Inr ()"
      by (rule validateLayout_header [where g = "written_GridMap (ow_grid_map (inlined payload w)) False"])
        (use ok True True' in \<open>simp_all add: delivery_ok_def Let_def grid [OF True'] written_GridMap_def\<close>)
    with True show ?thesis by (simp add: layout_accepted_def Let_def written_GridMap_def bulk_data_def)
  qed (simp add: layout_accepted_def)
qed (simp add: delivery_ok_def layout_accepted_def inlined_def)

lemma attach_inlined:
  assumes "spl_has_value (ow_splice w)" "ow_kind w \<noteq> WkNone"
  shows "attach_data (type_of_value (selectedObjectType (ow_kind w))) (splice_range payload w) (written_object nan_cast w)
    = Some (written_object nan_cast (inlined payload w))"
  using assms
  by (cases "ow_kind w")
    (simp_all add: attach_data_def type_of_value_selected written_object_def inlined_def set_bulk_def Let_def
      bulk_data_def bulk_anchor_def written_Image_def written_PointCloud_def written_DepthImage_def
      written_OccupancyGrid_def written_CompressedPointCloud_def written_Mesh3D_def written_VideoFrame_def
      written_OccupancyGridUpdate_def written_VoxelGrid_def written_GridMap_def)

lemma splice_eligible:
  "k \<noteq> WkNone \<Longrightarrow> pj_builtin_object_splice_field_number_v1 (selectedObjectType k) = Some (selectedSpliceField k)"
  by (cases k) (simp_all add: pj_builtin_object_splice_field_number_v1_def pj_builtin_object_splice_fields_v1_def)

lemma own_writer_splice:
  assumes "writer_ok (Buffer payload) w" "delivery_ok payload w" "writer_splice w = Some sref" "ow_kind w \<noteq> WkNone"
  shows "own_splice (selectedObjectType (ow_kind w)) payload (written_object nan_cast w) sref =
    Inr (written_object nan_cast (inlined payload w), \<lparr>pmx_field_number = sp_field_number sref,
      pmx_input_offset = sp_input_offset sref, pmx_payload_bytes = splice_range payload w\<rparr>)"
proof -
  have sref: "spl_has_value (ow_splice w)" "sp_field_number sref = selectedSpliceField (ow_kind w)"
    "sp_input_offset sref = isr_offset (spl_reference (ow_splice w))"
    "sp_input_length sref = isr_length (spl_reference (ow_splice w))"
    using assms(3) by (auto simp: writer_splice_def split: if_splits)
  have range: "unat (sp_input_offset sref) + unat (sp_input_length sref) \<le> length payload"
    using assms(1) sref by (simp add: writer_ok_def)
  have piece: "subspan payload (unat (sp_input_offset sref)) (unat (sp_input_length sref)) = splice_range payload w"
    by (simp add: splice_range_def sref)
  have grid: "validateGridMap g = Inr ()"
    if "type_of_value (selectedObjectType (ow_kind w)) = Some kGridMap" "written_object nan_cast (inlined payload w) = ObjGridMap g" for g
    using that assms(2) sref(1)
    by (cases "ow_kind w") (auto simp: type_of_value_selected delivery_ok_def Let_def written_object_def validateGridMap_def)
  show ?thesis
    using range grid
    by (auto simp: own_splice_def piece splice_eligible [OF assms(4)] sref(2) attach_inlined [OF sref(1) assms(4)] Let_def
        split: BuiltinObject.split option.split BuiltinObjectType.split)
qed

definition delivered :: "(f64 \<Rightarrow> u8) \<Rightarrow> bytes \<Rightarrow> ObjectWriter \<Rightarrow> bytes \<Rightarrow> ParserModuleParseResult" where
  "delivered nan_cast payload w wire = \<lparr>ppr_fault = FkNone, ppr_result_code = 0, ppr_message = [],
     ppr_output = Some (PmObject \<lparr>pmo_object = written_object nan_cast (inlined payload w), pmo_wire = wire,
       pmo_splice = map_option (\<lambda>sref. \<lparr>pmx_field_number = sp_field_number sref,
         pmx_input_offset = sp_input_offset sref, pmx_payload_bytes = splice_range payload w\<rparr>) (writer_splice w)\<rparr>)\<rparr>"

lemma consume_written:
  assumes reach: "writer_reachable (Buffer payload) w" and finish: "ow_finish w = Inr block" and len: "length block \<le> size_max"
    and ok: "delivery_ok payload w" and bound: "ni_bound_route ni \<noteq> kScalar"
    and expected: "ni_expected_object_type ni = selectedObjectType (ow_kind w)"
  obtains wire where "ow_writeSelected w = Inr wire"
    "consume_output nan_cast ni payload 0 (Some block) = delivered nan_cast payload w wire"
proof -
  obtain wire where wire: "ow_writeSelected w = Inr wire" and fits: "fits wire" and kind: "ow_kind w \<noteq> WkNone"
    and written: "writeOutputDescriptorV1 (ObjectOutput \<lparr>oo_object_type = selectedObjectType (ow_kind w),
      oo_splice = writer_splice w, oo_wire = wire\<rparr>) = Inr block"
    using finish_described [OF finish len] .
  note read = read_write_output [OF written]
  have wok: "writer_ok (Buffer payload) w" by (rule writer_reachable_ok [OF reach])
  have decode: "deserializeBuiltinObject nan_cast (selectedObjectType (ow_kind w)) (Buffer wire) = Inr (written_object nan_cast w)"
    by (rule decode_written [OF wire fits _ delivery_layout [OF ok]]) (use wok in \<open>simp add: writer_ok_def\<close>)
  have ne: "block \<noteq> []"
    using finish by (auto simp: ow_finish_def bindE_eq_Inr Let_def split: if_splits)
  have "consume_output nan_cast ni payload 0 (Some block) = delivered nan_cast payload w wire"
  proof (cases "writer_splice w")
    case None
    then have "inlined payload w = w" by (simp add: inlined_def writer_splice_def split: if_splits)
    with None ne len read bound expected decode show ?thesis
      by (simp add: consume_output_def ownObjectOutput_def delivered_def)
  next
    case (Some sref)
    with ne len read bound expected decode own_writer_splice [OF wok ok Some kind, of nan_cast] show ?thesis
      by (simp add: consume_output_def ownObjectOutput_def delivered_def)
  qed
  with that wire show thesis by blast
qed

text \<open>A grid map whose layout the host does not accept for its data is refused: by the codec, or when the splice is attached.\<close>

lemma rejected_grid:
  assumes "\<not> delivery_ok payload w"
  shows "ow_kind w = WkGridMap"
    and "validateLayout (written_GridMap (ow_grid_map (inlined payload w)) False)
      (gm_data (written_GridMap (ow_grid_map (inlined payload w)) False) \<noteq> [] \<or> spl_has_value (ow_splice w)) \<noteq> Inr ()"
  using assms by (auto simp: delivery_ok_def Let_def)

lemma decode_rejected:
  assumes "ow_writeSelected w = Inr wire" "fits wire" "\<not> layout_accepted w"
  shows "\<exists>e. deserializeBuiltinObject nan_cast (selectedObjectType (ow_kind w)) (Buffer wire) = Inl e"
proof -
  let ?g = "written_GridMap (ow_grid_map w) (spl_has_value (ow_splice w))"
  from assms(3) have kind: "ow_kind w = WkGridMap" and bad: "validateLayout ?g (gm_data ?g \<noteq> []) \<noteq> Inr ()"
    by (auto simp: layout_accepted_def Let_def)
  from bad obtain e where e: "validateLayout ?g (gm_data ?g \<noteq> []) = Inl e"
    by (cases "validateLayout ?g (gm_data ?g \<noteq> [])") auto
  from assms(1) kind have "ow_writeGridMap (ow_grid_map w) (spl_has_value (ow_splice w)) = Inr wire"
    by (simp add: ow_writeSelected_def)
  from decode_written_GridMap [OF this assms(2)] e have "deserializeGridMap (Buffer wire) = Inl e" "wire \<noteq> []" by simp_all
  then show ?thesis
    using kind by (simp add: deserializeBuiltinObject_def type_of_value_selected deserializeAs_def eraseDecoded_def)
qed

lemma own_rejected:
  assumes "\<not> delivery_ok payload w" "layout_accepted w" "writer_splice w = Some sref"
  shows "\<exists>e. own_splice (selectedObjectType (ow_kind w)) payload (written_object nan_cast w) sref = Inl e"
proof -
  note kind = rejected_grid(1) [OF assms(1)]
  have sref: "spl_has_value (ow_splice w)" "sp_input_offset sref = isr_offset (spl_reference (ow_splice w))"
    "sp_input_length sref = isr_length (spl_reference (ow_splice w))"
    using assms(3) by (auto simp: writer_splice_def split: if_splits)
  have piece: "subspan payload (unat (sp_input_offset sref)) (unat (sp_input_length sref)) = splice_range payload w"
    by (simp add: splice_range_def sref)
  let ?g = "written_GridMap (ow_grid_map (inlined payload w)) False"
  have attached: "attach_data (type_of_value (selectedObjectType (ow_kind w))) (splice_range payload w) (written_object nan_cast w)
      = Some (ObjGridMap ?g)"
    using attach_inlined [OF sref(1), of payload nan_cast] kind by (simp add: written_object_def)
  have bad: "validateGridMap ?g \<noteq> Inr ()"
    using rejected_grid(2) [OF assms(1)] sref(1) by (simp add: validateGridMap_def)
  then obtain e where "validateGridMap ?g = Inl e" by (cases "validateGridMap ?g") auto
  moreover have "type_of_value (selectedObjectType (ow_kind w)) = Some kGridMap" using kind by (simp add: type_of_value_selected)
  ultimately show ?thesis using attached by (auto simp: own_splice_def piece Let_def)
qed

lemma consume_rejected:
  assumes finish: "ow_finish w = Inr block" and len: "length block \<le> size_max" and bad: "\<not> delivery_ok payload w"
    and bound: "ni_bound_route ni \<noteq> kScalar" and expected: "ni_expected_object_type ni = selectedObjectType (ow_kind w)"
  obtains wire e where "ow_writeSelected w = Inr wire" "consume_output nan_cast ni payload 0 (Some block) = contractViolation 0 e"
proof -
  obtain wire where wire: "ow_writeSelected w = Inr wire" and fits: "fits wire" and kind: "ow_kind w \<noteq> WkNone"
    and written: "writeOutputDescriptorV1 (ObjectOutput \<lparr>oo_object_type = selectedObjectType (ow_kind w),
      oo_splice = writer_splice w, oo_wire = wire\<rparr>) = Inr block"
    using finish_described [OF finish len] .
  note read = read_write_output [OF written]
  have ne: "block \<noteq> []"
    using finish by (auto simp: ow_finish_def bindE_eq_Inr Let_def split: if_splits)
  have "\<exists>e. ownObjectOutput nan_cast \<lparr>oo_object_type = selectedObjectType (ow_kind w), oo_splice = writer_splice w, oo_wire = wire\<rparr>
      payload (ni_expected_object_type ni) = Inl e"
  proof (cases "layout_accepted w")
    case False
    from decode_rejected [OF wire fits False, of nan_cast] show ?thesis by (auto simp: ownObjectOutput_def expected)
  next
    case True
    from bad True obtain sref where sref: "writer_splice w = Some sref"
      by (cases "writer_splice w") (auto simp: writer_splice_def delivery_ok_def layout_accepted_def inlined_def split: if_splits)
    have grid: "ow_kind w = WkGridMap" by (rule rejected_grid(1) [OF bad])
    then have "ow_writeGridMap (ow_grid_map w) (spl_has_value (ow_splice w)) = Inr wire"
      using wire by (simp add: ow_writeSelected_def)
    from decode_written_GridMap [OF this fits] True grid
    have "deserializeBuiltinObject nan_cast (selectedObjectType (ow_kind w)) (Buffer wire) = Inr (written_object nan_cast w)"
      by (simp add: layout_accepted_def Let_def deserializeBuiltinObject_def type_of_value_selected deserializeAs_def
          eraseDecoded_def written_object_def)
    then show ?thesis
      using own_rejected [OF bad True sref, of nan_cast] by (auto simp: ownObjectOutput_def expected sref bindE_def)
  qed
  then obtain e where "consume_output nan_cast ni payload 0 (Some block) = contractViolation 0 e"
    using ne len read bound by (auto simp: consume_output_def)
  with that wire show thesis by blast
qed

text \<open>The whole way: the host's parse of one message on an owner that agrees with the module.\<close>

lemma parse_through:
  assumes agrees: "owner_agrees (token_facts ms (ni_token ni)) ni" and valid: "ni_valid ni" and bound: "ni_bound ni"
    and i: "instance_of ms (ni_token ni) = Some i" and size: "length (pin_payload input) + 24 \<le> size_max"
    and route: "parse_route parser (in_route i) input (in_parser i) = (Some StOk, Inr block, p)"
  shows "fst (instance_parse nan_cast (module_exports parser n) input ni ms) =
    Inr (consume_output nan_cast ni (pin_payload input) 0 (Some block))"
proof -
  obtain encoded where encoded: "writeParseInputV1 input = Inr encoded" using size by (simp add: write_parse_input)
  from same_answer_Inr [OF readParseInput_same read_write_parse_input [OF this]]
  have read: "readParseInput (Buffer encoded) = Inr input" .
  from agrees bound i have "in_bound i"
    by (auto simp: owner_agrees_def token_facts_def instance_facts_def split: if_splits)
  then have "parse_instance parser (Buffer encoded) True i =
      ((0, Some block), i\<lparr>in_parser := p, in_output := block, in_error := []\<rparr>)"
    using read route by (simp add: parse_instance_def Let_def isOk_def kModuleOk_def)
  from module_parse_live(1) [OF i this] encoded valid bound show ?thesis
    by (simp add: instance_parse_def)
qed

lemma bound_route_kObject:
  "owner_agrees (token_facts ms (ni_token ni)) ni \<Longrightarrow> ni_bound ni \<Longrightarrow> instance_of ms (ni_token ni) = Some i \<Longrightarrow>
   in_route i = kObject \<longleftrightarrow> ni_bound_route ni \<noteq> kScalar"
  by (auto simp: owner_agrees_def token_facts_def instance_facts_def kScalar_def kObject_def split: if_splits)

lemma object_answered:
  assumes agrees: "owner_agrees (token_facts ms (ni_token ni)) ni" and valid: "ni_valid ni" and bound: "ni_bound ni"
    and i: "instance_of ms (ni_token ni) = Some i" and size: "length (pin_payload input) + 24 \<le> size_max"
    and route: "ni_bound_route ni \<noteq> kScalar" and expected: "ni_expected_object_type ni = selectedObjectType (ow_kind w)"
    and call: "pa_parseObject parser (pin_payload input) (pin_has_timestamp input) (pin_timestamp_ns input)
      (new_ObjectWriter (Buffer (pin_payload input))) (in_parser i) = (Some StOk, w, p)"
    and reach: "writer_reachable (Buffer (pin_payload input)) w" and finish: "ow_finish w = Inr block"
    and len: "length block \<le> size_max"
  shows "\<exists>wire. ow_writeSelected w = Inr wire \<and>
    (if delivery_ok (pin_payload input) w
     then fst (instance_parse nan_cast (module_exports parser n) input ni ms) = Inr (delivered nan_cast (pin_payload input) w wire)
     else \<exists>e. fst (instance_parse nan_cast (module_exports parser n) input ni ms) = Inr (contractViolation 0 e))"
proof -
  have "parse_route parser (in_route i) input (in_parser i) = (Some StOk, Inr block, p)"
    using bound_route_kObject [OF agrees bound i] route call finish by (simp add: parse_route_def)
  note through = parse_through [OF agrees valid bound i size this]
  show ?thesis
  proof (cases "delivery_ok (pin_payload input) w")
    case True
    from consume_written [OF reach finish len True route expected] obtain wire where "ow_writeSelected w = Inr wire"
      "consume_output nan_cast ni (pin_payload input) 0 (Some block) = delivered nan_cast (pin_payload input) w wire" .
    with True show ?thesis by (simp add: through)
  next
    case False
    from consume_rejected [OF finish len False route expected] obtain wire e where "ow_writeSelected w = Inr wire"
      "consume_output nan_cast ni (pin_payload input) 0 (Some block) = contractViolation 0 e" .
    with False show ?thesis by (auto simp: through)
  qed
qed

text \<open>A scalar answer arrives field by field.\<close>

lemma scalar_delivered:
  assumes agrees: "owner_agrees (token_facts ms (ni_token ni)) ni" and valid: "ni_valid ni" and bound: "ni_bound ni"
    and i: "instance_of ms (ni_token ni) = Some i" and size: "length (pin_payload input) + 24 \<le> size_max"
    and route: "ni_bound_route ni = kScalar"
    and call: "pa_parseScalars parser (pin_payload input) (pin_has_timestamp input) (pin_timestamp_ns input)
      new_ScalarWriter (in_parser i) = (Some StOk, sw, p)"
    and finish: "sw_finish sw = Inr block" and len: "length block \<le> size_max"
  shows "fst (instance_parse nan_cast (module_exports parser n) input ni ms) = Inr \<lparr>ppr_fault = FkNone,
    ppr_result_code = 0, ppr_message = [], ppr_output = Some (PmScalar (ownScalarOutput (scalar_output sw)))\<rparr>"
proof -
  have "parse_route parser (in_route i) input (in_parser i) = (Some StOk, Inr block, p)"
    using bound_route_kObject [OF agrees bound i] route call finish by (simp add: parse_route_def)
  note through = parse_through [OF agrees valid bound i size this]
  have "writeOutputDescriptorV1 (ScalarOutput (scalar_output sw)) = Inr block"
    using sw_finish_same [OF sw_finish_ok [OF finish]] finish
    by (auto simp: same_result_def writeOutputDescriptorV1_def split: sum.splits)
  note read = read_write_output [OF this]
  then have "block \<noteq> []"
    by (auto simp: readOutputDescriptorV1_def readOutputHeader_def br_u16_def br_littleEndian_def malformed_def)
  with through read route len show ?thesis by (simp add: consume_output_def)
qed

subsection \<open>The tracker against a count\<close>

text \<open>
  What the tracker is meant to do, as a count of the contract violations of one claim that were
  counted: the third one quarantines, and nothing counts until the claim is recreated; the sixth
  disables for good.
\<close>

datatype tracker_event = TeFault ParserModuleClaimKey ParserModuleFaultKind | TeRecreated ParserModuleClaimKey

fun tracker_step :: "tracker_event \<Rightarrow> strike_states \<Rightarrow> strike_states" where
  "tracker_step (TeFault key fault) states = snd (recordFault key fault states)"
| "tracker_step (TeRecreated key) states = snd (markRecreated key states)"

fun count_step :: "ParserModuleClaimKey \<Rightarrow> tracker_event \<Rightarrow> nat \<times> bool \<Rightarrow> nat \<times> bool" where
  "count_step key (TeFault k fault) (n, lifted) =
     (if k = key \<and> fault = FkContractViolation \<and> n < 6 \<and> (n = 3 \<longrightarrow> lifted) then (n + 1, lifted) else (n, lifted))"
| "count_step key (TeRecreated k) (n, lifted) = (n, lifted \<or> k = key \<and> n = 3)"

definition strike_state_of :: "nat \<times> bool \<Rightarrow> ParserModuleStrikeState" where
  "strike_state_of c = (case c of (n, lifted) \<Rightarrow>
     \<lparr>ss_health = (if n = 6 then ChDisabled else if n = 3 \<and> \<not> lifted then ChQuarantined else ChActive),
      ss_strikes = of_nat (n mod 3), ss_quarantine_count = of_nat (n div 3)\<rparr>)"

lemma strike_counts:
  assumes "n < 6" "n = 3 \<longrightarrow> lifted" "3 < n \<longrightarrow> lifted" "n < 3 \<longrightarrow> \<not> lifted"
  shows "strike (strike_state_of (n, lifted)) = strike_state_of (n + 1, lifted)"
proof -
  from assms(1) have "n \<in> {0, 1, 2, 3, 4, 5}" by auto
  with assms(2-4) show ?thesis by (auto simp: strike_def strike_state_of_def)
qed

definition count_ok :: "nat \<times> bool \<Rightarrow> bool" where
  "count_ok c \<longleftrightarrow> (case c of (n, lifted) \<Rightarrow> n \<le> 6 \<and> (3 < n \<longrightarrow> lifted) \<and> (n < 3 \<longrightarrow> \<not> lifted))"

lemma count_ok_step: "count_ok c \<Longrightarrow> count_ok (count_step key e c)"
  by (cases e; cases c) (auto simp: count_ok_def)

lemma tracker_step_counts:
  assumes "tracker_state key states = strike_state_of c" "count_ok c"
  shows "tracker_state key (tracker_step e states) = strike_state_of (count_step key e c)"
proof (cases e)
  case (TeFault k fault)
  obtain n lifted where c: "c = (n, lifted)" by (cases c)
  have n: "n \<le> 6" "3 < n \<longrightarrow> lifted" "n < 3 \<longrightarrow> \<not> lifted" using assms(2) by (auto simp: c count_ok_def)
  show ?thesis
  proof (cases "k = key \<and> fault = FkContractViolation \<and> n < 6 \<and> (n = 3 \<longrightarrow> lifted)")
    case True
    then have "ss_health (strike_state_of c) = ChActive" by (auto simp: c strike_state_of_def)
    moreover have "strike (strike_state_of c) = strike_state_of (n + 1, lifted)"
      unfolding c using True n by (intro strike_counts) auto
    ultimately show ?thesis
      using True assms(1) by (auto simp: TeFault c recordFault_def Let_def tracker_state_def)
  next
    case False
    then have "k = key \<and> fault = FkContractViolation \<longrightarrow> ss_health (strike_state_of c) \<noteq> ChActive"
      using n by (auto simp: c strike_state_of_def)
    moreover have "count_step key e c = c" using False by (auto simp: TeFault c)
    ultimately show ?thesis
      using assms(1) by (auto simp: TeFault recordFault_def Let_def tracker_state_def)
  qed
next
  case (TeRecreated k)
  obtain n lifted where c: "c = (n, lifted)" by (cases c)
  show ?thesis
  proof (cases "k = key \<and> n = 3 \<and> \<not> lifted")
    case True
    then have "ss_health (tracker_state key states) = ChQuarantined" using assms(1) by (simp add: c strike_state_of_def)
    then obtain s where s: "states key = Some s" "ss_health s = ChQuarantined"
      by (auto simp: tracker_state_def default_StrikeState_def split: option.splits)
    with True assms(1) show ?thesis by (simp add: TeRecreated c markRecreated_def tracker_state_def strike_state_of_def)
  next
    case False
    then have same: "count_step key e c = c \<or> strike_state_of (count_step key e c) = strike_state_of c"
      by (auto simp: TeRecreated c)
    have "k = key \<longrightarrow> ss_health (strike_state_of c) \<noteq> ChQuarantined" using False by (auto simp: c strike_state_of_def)
    with same assms(1) show ?thesis
      by (auto simp: TeRecreated markRecreated_def tracker_state_def split: option.splits)
  qed
qed

lemma tracker_counts:
  "tracker_state key (fold tracker_step es Map.empty) = strike_state_of (fold (count_step key) es (0, False))"
proof -
  have "tracker_state key (fold tracker_step es states) = strike_state_of (fold (count_step key) es c)"
    if "tracker_state key states = strike_state_of c" "count_ok c" for states c
    using that
  proof (induction es arbitrary: states c)
    case (Cons e es)
    show ?case
      using Cons.IH [OF tracker_step_counts [OF Cons.prems] count_ok_step [OF Cons.prems(2)]] by simp
  qed simp
  then show ?thesis by (simp add: tracker_state_def strike_state_of_def default_StrikeState_def count_ok_def)
qed

end
