(* ===== verification/ProtoReader.thy ===== *)
theory ProtoReader
  imports ModuleAbi
begin

section \<open>The protobuf reader of parser modules (\<open>parser_module/proto_reader.hpp\<close>)\<close>

text \<open>
  A schema-less reader of one protobuf message: it walks the fields, keeps those with a number, and
  reads them as integers, fixed-width values, bytes or messages; groups are skipped to a depth of
  64. A position is the bytes behind it, and a view the bytes it shows; a message in null storage
  is \<open>NullBuffer\<close>. Allocation always succeeds. Then the lemmas: a message of encoded items gives back
  its items, whatever order and nesting they have, and no view leaves the message.
\<close>

subsection \<open>Wire primitives\<close>

datatype ProtoWireType = PwVarint | PwFixed64 | PwLengthDelimited | PwStartGroup | PwEndGroup | PwFixed32

record ProtoField =
  pf_number :: u32
  pf_wire_type :: ProtoWireType
  pf_integer :: u64
  pf_bytes :: bytes

definition proto_error :: "string \<Rightarrow> Status + 'a" where
  "proto_error message = Inl (status_error message)"

definition kMaxRecursionDepth :: nat where "kMaxRecursionDepth = 64"
definition kMaximumFields :: nat where "kMaximumFields = 65536"

definition max_field_number :: u64 where "max_field_number = 0x1FFFFFFF"

definition wire_type_of :: "u8 \<Rightarrow> ProtoWireType" where
  "wire_type_of w = (if w = 0 then PwVarint else if w = 1 then PwFixed64 else if w = 2 then PwLengthDelimited
     else if w = 3 then PwStartGroup else if w = 4 then PwEndGroup else PwFixed32)"

fun pr_varint_loop :: "nat \<Rightarrow> u64 \<Rightarrow> bytes \<Rightarrow> Status + u64 \<times> bytes" where
  "pr_varint_loop byte_index value [] =
     (if byte_index < 10 then proto_error ''truncated protobuf varint''
      else proto_error ''protobuf varint exceeds ten bytes'')"
| "pr_varint_loop byte_index value (byte # r) =
     (if byte_index < 10
      then if byte_index = 9 \<and> byte AND 0xFE \<noteq> 0 then proto_error ''protobuf varint overflows uint64''
           else let value' = value OR push_bit (byte_index * 7) (ucast (byte AND 0x7F))
                in if byte AND 0x80 = 0 then Inr (value', r) else pr_varint_loop (Suc byte_index) value' r
      else proto_error ''protobuf varint exceeds ten bytes'')"

definition pr_readVarint :: "bytes \<Rightarrow> Status + u64 \<times> bytes" where
  "pr_readVarint r = pr_varint_loop 0 0 r"

definition pr_readLittleEndian :: "bytes \<Rightarrow> nat \<Rightarrow> u64" where
  "pr_readLittleEndian data width = le_loop (take width data) 0 0"

definition skipValue :: "bytes \<Rightarrow> ProtoWireType \<Rightarrow> Status + bytes" where
  "skipValue r wire_type =
     (if wire_type = PwVarint then (case pr_readVarint r of Inl e \<Rightarrow> Inl e | Inr (value, r) \<Rightarrow> Inr r)
      else if wire_type = PwFixed64 \<or> wire_type = PwFixed32
      then let width = (if wire_type = PwFixed64 then 8 else 4)
           in if width > length r then proto_error ''truncated protobuf fixed field'' else Inr (drop width r)
      else if wire_type = PwLengthDelimited
      then (case pr_readVarint r of
             Inl e \<Rightarrow> proto_error ''truncated protobuf length-delimited field''
           | Inr (len, r) \<Rightarrow>
               if unat len > length r then proto_error ''truncated protobuf length-delimited field''
               else Inr (drop (unat len) r))
      else proto_error ''invalid protobuf group field'')"

lemma pr_varint_loop_shorter: "pr_varint_loop i value r = Inr (v, r') \<Longrightarrow> length r' < length r"
  by (induction i "value" r rule: pr_varint_loop.induct)
    (auto simp: proto_error_def Let_def split: if_splits intro: less_SucI)

lemma pr_readVarint_shorter: "pr_readVarint r = Inr (v, r') \<Longrightarrow> length r' < length r"
  by (auto simp: pr_readVarint_def dest: pr_varint_loop_shorter)

lemma skipValue_shorter: "skipValue r ty = Inr r' \<Longrightarrow> length r' \<le> length r"
  by (auto simp: skipValue_def proto_error_def Let_def split: if_splits sum.splits dest!: pr_readVarint_shorter)

text \<open>
  The loop of \<open>skipGroup\<close>; the check of the depth in front of it is in \<open>skipGroup\<close>, and stands here
  where the group recurses.
\<close>

function skipGroup_loop :: "nat \<Rightarrow> u32 \<Rightarrow> bytes \<Rightarrow> Status + bytes" where
  "skipGroup_loop depth group_number r =
     (if r = [] then proto_error ''truncated protobuf group''
      else case pr_readVarint r of
        Inl e \<Rightarrow> Inl e
      | Inr (key, r1) \<Rightarrow>
          let raw_field_number = drop_bit 3 key; wire_value = (ucast (key AND 7) :: u8);
              field_number = (ucast raw_field_number :: u32); wire_type = wire_type_of wire_value in
          if raw_field_number = 0 \<or> raw_field_number > max_field_number \<or> wire_value > 5
          then proto_error ''invalid protobuf field inside a group''
          else if wire_type = PwEndGroup
          then (if field_number = group_number then Inr r1
                else proto_error ''protobuf group end tag does not match'')
          else if wire_type = PwStartGroup
          then (if depth + 1 > kMaxRecursionDepth then proto_error ''protobuf recursion depth exceeds 64''
                else case skipGroup_loop (depth + 1) field_number r1 of
                  Inl e \<Rightarrow> Inl e
                | Inr r2 \<Rightarrow> skipGroup_loop depth group_number r2)
          else (case skipValue r1 wire_type of
                  Inl e \<Rightarrow> Inl e
                | Inr r2 \<Rightarrow> skipGroup_loop depth group_number r2))"
  by pat_completeness auto

termination
proof -
  have shorter: "skipGroup_loop depth group_number r = Inr r' \<Longrightarrow> length r' < length r"
    if "skipGroup_loop_dom (depth, group_number, r)" for depth group_number r r'
    using that
  proof (induction depth group_number r arbitrary: r' rule: skipGroup_loop.pinduct)
    case (1 depth group_number r)
    show ?case
      using "1.prems" "1.IH"
      by (subst (asm) skipGroup_loop.psimps [OF "1.hyps"])
        (fastforce simp: proto_error_def Let_def dest!: pr_readVarint_shorter skipValue_shorter split: if_splits sum.splits)
  qed
  show "All skipGroup_loop_dom"
    by (relation "measure (\<lambda>(depth, group_number, r). length r)")
      (auto dest!: pr_readVarint_shorter skipValue_shorter shorter)
qed

declare skipGroup_loop.simps [simp del]

lemma pr_readVarint_suffix: "pr_readVarint r = Inr (v, r') \<Longrightarrow> suffix r' r"
proof -
  have "pr_varint_loop i acc r = Inr (v, r') \<Longrightarrow> suffix r' r" for i acc
  proof (induction r arbitrary: i acc)
    case (Cons b r)
    then show ?case by (auto simp: proto_error_def Let_def suffix_ConsI split: if_splits)
  qed (auto simp: proto_error_def split: if_splits)
  then show "pr_readVarint r = Inr (v, r') \<Longrightarrow> suffix r' r" by (simp add: pr_readVarint_def)
qed

lemma suffix_drop_trans: "suffix b r \<Longrightarrow> suffix (drop n b) r"
  by (rule suffix_order.order_trans [OF suffix_drop])

lemma sublist_suffix_trans: "suffix b r \<Longrightarrow> sublist s b \<Longrightarrow> sublist s r"
  by (rule sublist_order.order_trans [OF _ suffix_imp_sublist])

lemma sublist_take_trans: "suffix b r \<Longrightarrow> sublist (take n b) r"
  by (rule sublist_suffix_trans [OF _ sublist_take])

lemma skipValue_suffix: "skipValue r ty = Inr r' \<Longrightarrow> suffix r' r"
  by (auto simp: skipValue_def proto_error_def Let_def suffix_drop suffix_drop_trans split: if_splits sum.splits
      dest!: pr_readVarint_suffix)

lemma skipGroup_loop_suffix: "skipGroup_loop depth g r = Inr r' \<Longrightarrow> suffix r' r"
proof (induction depth g r arbitrary: r' rule: skipGroup_loop.induct)
  case (1 depth g r)
  from "1.prems" obtain key r1 where r: "r \<noteq> []" and key: "pr_readVarint r = Inr (key, r1)"
    by (subst (asm) skipGroup_loop.simps) (auto simp: proto_error_def split: if_splits sum.splits)
  let ?raw = "drop_bit 3 key" and ?w = "ucast (key AND 7) :: u8"
  have r1: "suffix r1 r" by (rule pr_readVarint_suffix [OF key])
  note IH = "1.IH" [OF r key refl refl refl refl refl]
  have "r' = r1 \<or> (\<exists>r2. suffix r2 r1 \<and> suffix r' r2)"
    using "1.prems" r key IH
    by (subst (asm) skipGroup_loop.simps)
      (auto simp: proto_error_def Let_def split: if_splits sum.splits dest: skipValue_suffix)
  with r1 show ?case by (auto intro: suffix_order.trans)
qed

definition skipGroup :: "bytes \<Rightarrow> u32 \<Rightarrow> nat \<Rightarrow> Status + bytes" where
  "skipGroup r group_number depth =
     (if depth > kMaxRecursionDepth then proto_error ''protobuf recursion depth exceeds 64''
      else skipGroup_loop depth group_number r)"

lemma skipGroup_shorter: "skipGroup r g depth = Inr r' \<Longrightarrow> length r' \<le> length r"
  by (auto simp: skipGroup_def proto_error_def split: if_splits dest!: skipGroup_loop_suffix suffix_length_le)

text \<open>The cases of the switch of \<open>nextField\<close>, behind the key.\<close>

definition proto_value :: "u32 \<Rightarrow> ProtoWireType \<Rightarrow> nat \<Rightarrow> bytes \<Rightarrow> Status + ProtoField \<times> bytes" where
  "proto_value field_number wire_type depth r =
     (let field = \<lparr>pf_number = field_number, pf_wire_type = wire_type, pf_integer = 0, pf_bytes = []\<rparr> in
      case wire_type of
        PwVarint \<Rightarrow> bindE (pr_readVarint r) (\<lambda>(value, r). Inr (field\<lparr>pf_integer := value\<rparr>, r))
      | PwFixed64 \<Rightarrow>
          if 8 > length r then proto_error ''truncated protobuf fixed64 field''
          else Inr (field\<lparr>pf_integer := pr_readLittleEndian r 8\<rparr>, drop 8 r)
      | PwLengthDelimited \<Rightarrow> bindE (pr_readVarint r) (\<lambda>(len, r).
          if unat len > length r then proto_error ''protobuf length-delimited field exceeds the remaining input''
          else Inr (field\<lparr>pf_bytes := take (unat len) r\<rparr>, drop (unat len) r))
      | PwStartGroup \<Rightarrow> bindE (skipGroup r field_number (depth + 1)) (\<lambda>r. Inr (field, r))
      | PwEndGroup \<Rightarrow> proto_error ''unexpected protobuf end-group tag''
      | PwFixed32 \<Rightarrow>
          if 4 > length r then proto_error ''truncated protobuf fixed32 field''
          else Inr (field\<lparr>pf_integer := pr_readLittleEndian r 4\<rparr>, drop 4 r))"

definition nextField :: "bytes \<Rightarrow> nat \<Rightarrow> Status + ProtoField \<times> bytes" where
  "nextField r depth = bindE (pr_readVarint r) (\<lambda>(key, r).
     let raw_field_number = drop_bit 3 key; wire_value = (ucast (key AND 7) :: u8) in
     if raw_field_number = 0 \<or> raw_field_number > max_field_number
     then proto_error ''protobuf field number is invalid''
     else if wire_value > 5 then proto_error ''protobuf wire type is invalid''
     else proto_value (ucast raw_field_number) (wire_type_of wire_value) depth r)"

lemma proto_value_shorter: "proto_value n ty depth r = Inr (f, r') \<Longrightarrow> length r' \<le> length r"
  by (auto simp: proto_value_def Let_def proto_error_def bindE_eq_Inr dest!: pr_readVarint_shorter skipGroup_shorter
      split: ProtoWireType.splits if_splits)

lemma nextField_shorter: "nextField r depth = Inr (f, r') \<Longrightarrow> length r' < length r"
  by (auto simp: nextField_def Let_def proto_error_def bindE_eq_Inr dest!: pr_readVarint_shorter proto_value_shorter
      split: if_splits)

subsection \<open>The reader\<close>

record ProtoReader =
  prr_message :: buffer
  prr_depth :: nat

definition new_ProtoReader :: "buffer \<Rightarrow> ProtoReader" where
  "new_ProtoReader message = \<lparr>prr_message = message, prr_depth = 0\<rparr>"

definition push_field :: "ProtoField list \<Rightarrow> ProtoField \<Rightarrow> Status + ProtoField list" where
  "push_field found field =
     (if length found = kMaximumFields
      then proto_error ''protobuf field match count exceeds the configured limit''
      else Inr (found @ [field]))"

function matching_loop :: "u32 \<Rightarrow> nat \<Rightarrow> bytes \<Rightarrow> ProtoField list \<Rightarrow> Status + ProtoField list" where
  "matching_loop field_number depth r found =
     (if r = [] then Inr found
      else case nextField r depth of
        Inl e \<Rightarrow> Inl e
      | Inr (field, r') \<Rightarrow>
          if pf_number field = field_number
          then (case push_field found field of
                 Inl e \<Rightarrow> Inl e
               | Inr found \<Rightarrow> matching_loop field_number depth r' found)
          else matching_loop field_number depth r' found)"
  by pat_completeness auto
termination
  by (relation "measure (\<lambda>(n, depth, r, found). length r)") (auto dest: nextField_shorter)

declare matching_loop.simps [simp del]

definition matching :: "ProtoReader \<Rightarrow> u32 \<Rightarrow> Status + ProtoField list" where
  "matching reader field_number =
     (if field_number = 0 \<or> field_number > 0x1FFFFFFF then proto_error ''protobuf field number is invalid''
      else case prr_message reader of
        NullBuffer n \<Rightarrow> if n = 0 then Inr [] else proto_error ''protobuf input storage is null''
      | Buffer message \<Rightarrow> matching_loop field_number (prr_depth reader) message [])"

definition pr_last :: "ProtoReader \<Rightarrow> u32 \<Rightarrow> Status + ProtoField" where
  "pr_last reader field_number = bindE (matching reader field_number) (\<lambda>found.
     if found = [] then proto_error ''protobuf field is absent'' else Inr (last found))"

definition pr_varint :: "ProtoReader \<Rightarrow> u32 \<Rightarrow> Status + u64" where
  "pr_varint reader field_number = bindE (pr_last reader field_number) (\<lambda>field.
     if pf_wire_type field \<noteq> PwVarint then proto_error ''protobuf field is not a varint'' else Inr (pf_integer field))"

definition zigzag_decode :: "u64 \<Rightarrow> u64" where
  "zigzag_decode v = drop_bit 1 v XOR (0 - (v AND 1))"

definition pr_zigzag :: "ProtoReader \<Rightarrow> u32 \<Rightarrow> Status + u64" where
  "pr_zigzag reader field_number = bindE (pr_varint reader field_number) (\<lambda>v. Inr (zigzag_decode v))"

definition pr_fixed32 :: "ProtoReader \<Rightarrow> u32 \<Rightarrow> Status + u32" where
  "pr_fixed32 reader field_number = bindE (pr_last reader field_number) (\<lambda>field.
     if pf_wire_type field \<noteq> PwFixed32 then proto_error ''protobuf field is not fixed32'' else Inr (ucast (pf_integer field)))"

definition pr_fixed64 :: "ProtoReader \<Rightarrow> u32 \<Rightarrow> Status + u64" where
  "pr_fixed64 reader field_number = bindE (pr_last reader field_number) (\<lambda>field.
     if pf_wire_type field \<noteq> PwFixed64 then proto_error ''protobuf field is not fixed64'' else Inr (pf_integer field))"

definition pr_bytes :: "ProtoReader \<Rightarrow> u32 \<Rightarrow> Status + bytes" where
  "pr_bytes reader field_number = bindE (pr_last reader field_number) (\<lambda>field.
     if pf_wire_type field \<noteq> PwLengthDelimited then proto_error ''protobuf field is not length-delimited''
     else Inr (pf_bytes field))"

definition pr_submessage :: "ProtoReader \<Rightarrow> u32 \<Rightarrow> Status + ProtoReader" where
  "pr_submessage reader field_number =
     (if prr_depth reader = kMaxRecursionDepth then proto_error ''protobuf recursion depth exceeds 64''
      else bindE (pr_bytes reader field_number) (\<lambda>v.
        Inr \<lparr>prr_message = Buffer v, prr_depth = prr_depth reader + 1\<rparr>))"

function packed_varints :: "bytes \<Rightarrow> u64 list \<Rightarrow> Status + u64 list" where
  "packed_varints r values =
     (if r = [] then Inr values
      else case pr_readVarint r of Inl e \<Rightarrow> Inl e | Inr (v, r') \<Rightarrow> packed_varints r' (values @ [v]))"
  by pat_completeness auto
termination
  by (relation "measure (\<lambda>(r, values). length r)") (auto dest: pr_readVarint_shorter)

declare packed_varints.simps [simp del]

fun repeated_varints_loop :: "ProtoField list \<Rightarrow> u64 list \<Rightarrow> Status + u64 list" where
  "repeated_varints_loop [] values = Inr values"
| "repeated_varints_loop (field # found) values =
     (if pf_wire_type field = PwVarint then repeated_varints_loop found (values @ [pf_integer field])
      else if pf_wire_type field \<noteq> PwLengthDelimited
      then proto_error ''repeated protobuf integer uses an incompatible wire type''
      else bindE (packed_varints (pf_bytes field) values) (repeated_varints_loop found))"

definition repeatedVarints :: "ProtoReader \<Rightarrow> u32 \<Rightarrow> Status + u64 list" where
  "repeatedVarints reader field_number =
     bindE (matching reader field_number) (\<lambda>found. repeated_varints_loop found [])"

function packed_fixed :: "nat \<Rightarrow> bytes \<Rightarrow> u64 list \<Rightarrow> u64 list" where
  "packed_fixed width r values =
     (if r = [] \<or> width = 0 then values
      else packed_fixed width (drop width r) (values @ [pr_readLittleEndian r width]))"
  by pat_completeness auto
termination
  by (relation "measure (\<lambda>(width, r, values). length r)") auto

declare packed_fixed.simps [simp del]

text \<open>The values are cut to the type of the vector, which is as wide as the field.\<close>

fun repeated_fixed_loop :: "ProtoWireType \<Rightarrow> nat \<Rightarrow> ProtoField list \<Rightarrow> u64 list \<Rightarrow> Status + u64 list" where
  "repeated_fixed_loop unpacked_type width [] values = Inr values"
| "repeated_fixed_loop unpacked_type width (field # found) values =
     (if pf_wire_type field = unpacked_type
      then repeated_fixed_loop unpacked_type width found (values @ [pf_integer field])
      else if pf_wire_type field \<noteq> PwLengthDelimited \<or> length (pf_bytes field) mod width \<noteq> 0
      then proto_error ''repeated protobuf fixed field uses an incompatible wire encoding''
      else repeated_fixed_loop unpacked_type width found (packed_fixed width (pf_bytes field) values))"

definition repeatedFixed :: "ProtoReader \<Rightarrow> u32 \<Rightarrow> ProtoWireType \<Rightarrow> nat \<Rightarrow> Status + u64 list" where
  "repeatedFixed reader field_number unpacked_type width =
     bindE (matching reader field_number) (\<lambda>found. repeated_fixed_loop unpacked_type width found [])"

definition repeatedFixed32 :: "ProtoReader \<Rightarrow> u32 \<Rightarrow> Status + u32 list" where
  "repeatedFixed32 reader field_number =
     bindE (repeatedFixed reader field_number PwFixed32 4) (\<lambda>values. Inr (map ucast values))"

definition repeatedFixed64 :: "ProtoReader \<Rightarrow> u32 \<Rightarrow> Status + u64 list" where
  "repeatedFixed64 reader field_number = repeatedFixed reader field_number PwFixed64 8"

subsection \<open>The two varint decoders\<close>

lemma last_byte: "(b :: u8) AND 0xFE = 0 \<longleftrightarrow> b AND 0x80 = 0 \<and> \<not> 1 < (ucast (b AND 0x7F) :: u64)"
proof -
  have "\<forall>n \<in> set [0..<256]. ((of_nat n :: u8) AND 0xFE = 0) = ((of_nat n :: u8) AND 0x80 = 0 \<and>
      \<not> 1 < (ucast ((of_nat n :: u8) AND 0x7F) :: u64))"
    by code_simp
  moreover have "unat b \<in> set [0..<256]" using unsigned_less [of b] by simp
  ultimately have "((of_nat (unat b) :: u8) AND 0xFE = 0) = ((of_nat (unat b) :: u8) AND 0x80 = 0 \<and>
      \<not> 1 < (ucast ((of_nat (unat b) :: u8) AND 0x7F) :: u64))" by (rule bspec)
  then show ?thesis by simp
qed

text \<open>The module's reader and the codecs of the host accept the same varints.\<close>

lemma pr_varint_loop_agrees:
  "i \<le> 10 \<Longrightarrow> pr_varint_loop i acc r = Inr (v, r') \<longleftrightarrow> readVarint_loop i (7 * i) acc r = (Some v, r')"
proof (induction r arbitrary: i acc)
  case Nil
  then show ?case by (simp add: proto_error_def)
next
  case (Cons b r)
  show ?case
  proof (cases "i < 9")
    case True
    have [simp]: "i * 7 + 7 = 7 + i * 7" by simp
    from True have "7 * i \<noteq> 63" by linarith
    with True Cons.IH [of "Suc i"] show ?thesis
      by (simp add: Let_def mult.commute del: mult_Suc_right)
  next
    case False
    with Cons.prems consider "i = 9" | "i = 10" by linarith
    then show ?thesis
    proof cases
      case 1
      have stop: "readVarint_loop (Suc 9) 70 a r \<noteq> (Some v, r')" for a by (cases r) auto
      from 1 last_byte [of b] stop show ?thesis by (simp add: proto_error_def Let_def)
    qed (simp add: proto_error_def)
  qed
qed

lemma pr_readVarint_agrees: "pr_readVarint r = Inr (v, r') \<longleftrightarrow> readVarint r = (Some v, r')"
  using pr_varint_loop_agrees [of 0 0 r v r'] by (simp add: pr_readVarint_def readVarint_def)

lemma pr_readVarint_append [simp]: "pr_readVarint (appendVarint v @ r) = Inr (v, r)"
  by (simp add: pr_readVarint_agrees)

subsection \<open>Messages of encoded items\<close>

datatype proto_item =
    PiVarint u32 u64
  | PiFixed64 u32 u64
  | PiFixed32 u32 u32
  | PiBytes u32 bytes
  | PiGroup u32 "proto_item list"

definition pi_tag :: "u32 \<Rightarrow> u64 \<Rightarrow> bytes" where
  "pi_tag number wire_value = appendVarint (push_bit 3 (ucast number) OR wire_value)"

fun encode_item :: "proto_item \<Rightarrow> bytes" where
  "encode_item (PiVarint n v) = pi_tag n 0 @ appendVarint v"
| "encode_item (PiFixed64 n v) = pi_tag n 1 @ bw_u64 v"
| "encode_item (PiFixed32 n v) = pi_tag n 5 @ bw_u32 v"
| "encode_item (PiBytes n d) = pi_tag n 2 @ delimited d"
| "encode_item (PiGroup n items) = pi_tag n 3 @ concat (map encode_item items) @ pi_tag n 4"

definition encode_items :: "proto_item list \<Rightarrow> bytes" where
  "encode_items items = concat (map encode_item items)"

fun item_number :: "proto_item \<Rightarrow> u32" where
  "item_number (PiVarint n v) = n"
| "item_number (PiFixed64 n v) = n"
| "item_number (PiFixed32 n w) = n"
| "item_number (PiBytes n d) = n"
| "item_number (PiGroup n items) = n"

definition number_ok :: "u32 \<Rightarrow> bool" where
  "number_ok n \<longleftrightarrow> n \<noteq> 0 \<and> n \<le> 0x1FFFFFFF"

text \<open>An item whose numbers and lengths exist, with groups nested no deeper than the limit.\<close>

fun item_ok :: "nat \<Rightarrow> proto_item \<Rightarrow> bool" where
  "item_ok depth (PiVarint n v) = number_ok n"
| "item_ok depth (PiFixed64 n v) = number_ok n"
| "item_ok depth (PiFixed32 n w) = number_ok n"
| "item_ok depth (PiBytes n d) = (number_ok n \<and> fits d)"
| "item_ok depth (PiGroup n items) = (number_ok n \<and> depth < 64 \<and> (\<forall>i \<in> set items. item_ok (Suc depth) i))"

fun item_field :: "proto_item \<Rightarrow> ProtoField" where
  "item_field (PiVarint n v) = \<lparr>pf_number = n, pf_wire_type = PwVarint, pf_integer = v, pf_bytes = []\<rparr>"
| "item_field (PiFixed64 n v) = \<lparr>pf_number = n, pf_wire_type = PwFixed64, pf_integer = v, pf_bytes = []\<rparr>"
| "item_field (PiFixed32 n w) = \<lparr>pf_number = n, pf_wire_type = PwFixed32, pf_integer = ucast w, pf_bytes = []\<rparr>"
| "item_field (PiBytes n d) = \<lparr>pf_number = n, pf_wire_type = PwLengthDelimited, pf_integer = 0, pf_bytes = d\<rparr>"
| "item_field (PiGroup n items) = \<lparr>pf_number = n, pf_wire_type = PwStartGroup, pf_integer = 0, pf_bytes = []\<rparr>"

lemma item_field_number [simp]: "pf_number (item_field i) = item_number i"
  by (cases i) simp_all

lemma pi_tag_ne [simp]: "pi_tag n t \<noteq> []"
  by (simp add: pi_tag_def)

lemma encode_item_ne [simp]: "encode_item i \<noteq> []"
  by (cases i) simp_all

lemma read_tag [simp]: "pr_readVarint (pi_tag n t @ r) = Inr (push_bit 3 (ucast n) OR t, r)"
  by (simp add: pi_tag_def)

lemma key_parts:
  assumes "t \<le> 5"
  shows "drop_bit 3 (push_bit 3 (ucast (n :: u32)) OR t :: u64) = ucast n"
    and "ucast ((push_bit 3 (ucast n) OR t :: u64) AND 7) = (ucast t :: u8)"
proof -
  have "unat t < 2 ^ 3" using assms by (simp add: word_le_nat_alt)
  then have t: "take_bit 3 t = t"
    by (simp add: word_unat_eq_iff unsigned_take_bit_eq take_bit_nat_eq_self)
  show "drop_bit 3 (push_bit 3 (ucast (n :: u32)) OR t :: u64) = ucast n" by (rule tag_field_bits [OF t])
  show "ucast ((push_bit 3 (ucast n) OR t :: u64) AND 7) = (ucast t :: u8)"
    by (simp only: and_7 tag_type_bits [OF t])
qed

lemma number_range:
  assumes "number_ok n"
  shows "(ucast n :: u64) \<noteq> 0" "\<not> (max_field_number < (ucast n :: u64))" "ucast (ucast n :: u64) = n"
proof -
  have u: "unat (ucast n :: u64) = unat n"
    by (simp add: unsigned_ucast_eq take_bit_nat_eq_self unsigned_less [THEN less_le_trans])
  show "(ucast n :: u64) \<noteq> 0" using assms u by (metis number_ok_def unat_0 unat_eq_zero)
  show "\<not> (max_field_number < (ucast n :: u64))"
    using assms u by (simp add: number_ok_def max_field_number_def word_less_nat_alt word_le_nat_alt)
  show "ucast (ucast n :: u64) = n" by (simp add: unsigned_ucast_eq take_bit_word_eq_self)
qed

lemma read_fixed [simp]:
  "pr_readLittleEndian (bw_u64 v @ r) 8 = v" "pr_readLittleEndian (bw_u32 w @ r) 4 = ucast w"
proof -
  have le: "le_loop (bw_littleEndian n v) 0 0 = take_bit (8 * n) v" if "n \<le> 8" for n v
    using bytes_value_uint_bytes [of n True v] that by (simp add: bw_littleEndian_uint_bytes bytes_value_def)
  show "pr_readLittleEndian (bw_u64 v @ r) 8 = v"
    using le [of 8 v] by (simp add: pr_readLittleEndian_def bw_u64_def take_bit_word_eq_self bw_littleEndian_def)
  have "take_bit 32 (ucast w :: u64) = ucast w" by (rule bit_word_eqI) (auto simp: bit_simps dest: bit_imp_le_length)
  then show "pr_readLittleEndian (bw_u32 w @ r) 4 = ucast w"
    using le [of 4 "ucast w"] by (simp add: pr_readLittleEndian_def bw_u32_def bw_littleEndian_def)
qed

lemma wire_types [simp]:
  "wire_type_of 0 = PwVarint" "wire_type_of 1 = PwFixed64" "wire_type_of 2 = PwLengthDelimited"
  "wire_type_of 3 = PwStartGroup" "wire_type_of 4 = PwEndGroup" "wire_type_of 5 = PwFixed32"
  by (simp_all add: wire_type_of_def)

lemma nextField_tag:
  assumes "number_ok n" "t \<in> {0, 1, 2, 3, 4, 5}"
  shows "nextField (pi_tag n t @ r) depth = proto_value n (wire_type_of (ucast t)) depth r"
  using assms key_parts [of t n] number_range [OF assms(1)]
  by (auto simp: nextField_def Let_def bindE_def word_le_nat_alt)

lemma skip_tag:
  assumes "number_ok n" "t \<in> {0, 1, 2, 5}"
  shows "skipGroup_loop depth g (pi_tag n t @ r) =
    (case skipValue r (wire_type_of (ucast t)) of Inl e \<Rightarrow> Inl e | Inr r2 \<Rightarrow> skipGroup_loop depth g r2)"
  using assms key_parts [of t n] number_range [OF assms(1)]
  by (subst skipGroup_loop.simps) (auto simp: Let_def word_le_nat_alt)

lemma skip_end: "number_ok g \<Longrightarrow> skipGroup_loop depth g (pi_tag g 4 @ r) = Inr r"
  using key_parts [of 4 g] number_range [of g]
  by (subst skipGroup_loop.simps) (auto simp: Let_def word_le_nat_alt)

lemma skip_start:
  "number_ok n \<Longrightarrow> depth < 64 \<Longrightarrow> skipGroup_loop depth g (pi_tag n 3 @ r) =
    (case skipGroup_loop (Suc depth) n r of Inl e \<Rightarrow> Inl e | Inr r2 \<Rightarrow> skipGroup_loop depth g r2)"
  using key_parts [of 3 n] number_range [of n]
  by (subst skipGroup_loop.simps) (auto simp: Let_def word_le_nat_alt kMaxRecursionDepth_def)

lemma delimited_length: "fits d \<Longrightarrow> unat (of_nat (length d) :: u64) = length d"
  by (rule unat_of_nat_u64) (simp add: fits_def size_max_def)

text \<open>A group is skipped item by item, nested groups included.\<close>

lemma skip_item: "item_ok depth i \<Longrightarrow> skipGroup_loop depth g (encode_item i @ r) = skipGroup_loop depth g r"
proof (induction i arbitrary: depth g r)
  case (PiGroup n items)
  have all: "\<forall>i \<in> set xs. item_ok (Suc depth) i \<Longrightarrow> set xs \<subseteq> set items \<Longrightarrow>
      skipGroup_loop (Suc depth) n (concat (map encode_item xs) @ r') = skipGroup_loop (Suc depth) n r'" for xs r'
    using PiGroup.IH by (induction xs) auto
  from PiGroup.prems all [of items] show ?case by (simp add: skip_start skip_end)
qed (simp_all add: skip_tag skipValue_def delimited_def delimited_length)

lemma skip_group:
  "number_ok n \<Longrightarrow> depth < 64 \<Longrightarrow> \<forall>i \<in> set items. item_ok (Suc depth) i \<Longrightarrow>
   skipGroup (encode_items items @ pi_tag n 4 @ r) n (Suc depth) = Inr r"
proof -
  assume n: "number_ok n" "depth < 64" and items: "\<forall>i \<in> set items. item_ok (Suc depth) i"
  from items have "skipGroup_loop (Suc depth) n (encode_items items @ r') = skipGroup_loop (Suc depth) n r'" for r'
    by (induction items) (simp_all add: encode_items_def skip_item)
  with n show ?thesis by (simp add: skipGroup_def kMaxRecursionDepth_def skip_end)
qed

lemma nextField_item:
  assumes "item_ok depth i"
  shows "nextField (encode_item i @ r) depth = Inr (item_field i, r)"
proof (cases i)
  case (PiGroup n items)
  with assms show ?thesis
    using skip_group [of n depth items r] by (simp add: nextField_tag proto_value_def bindE_def encode_items_def)
qed (use assms in \<open>simp_all add: nextField_tag proto_value_def bindE_def delimited_def delimited_length\<close>)

text \<open>The fields of a number, in the order in which they stand in the message.\<close>

definition items_of :: "u32 \<Rightarrow> proto_item list \<Rightarrow> proto_item list" where
  "items_of n items = filter (\<lambda>i. item_number i = n) items"

lemma matching_loop_items:
  "\<forall>i \<in> set items. item_ok depth i \<Longrightarrow> length found + length (items_of n items) \<le> kMaximumFields \<Longrightarrow>
   matching_loop n depth (encode_items items) found = Inr (found @ map item_field (items_of n items))"
proof (induction items arbitrary: found)
  case Nil
  then show ?case by (simp add: encode_items_def items_of_def matching_loop.simps)
next
  case (Cons i items)
  have step: "nextField (encode_item i @ encode_items items) depth = Inr (item_field i, encode_items items)"
    using Cons.prems by (intro nextField_item) simp
  have encode: "encode_items (i # items) = encode_item i @ encode_items items" by (simp add: encode_items_def)
  show ?case
    unfolding encode
    using Cons.IH [of "if item_number i = n then found @ [item_field i] else found"] Cons.prems
    by (subst matching_loop.simps) (auto simp: step push_field_def items_of_def)
qed

definition item_reader :: "nat \<Rightarrow> proto_item list \<Rightarrow> ProtoReader" where
  "item_reader depth items = \<lparr>prr_message = Buffer (encode_items items), prr_depth = depth\<rparr>"

lemma matching_items:
  assumes "number_ok n" "\<forall>i \<in> set items. item_ok depth i" "length (items_of n items) \<le> kMaximumFields"
  shows "matching (item_reader depth items) n = Inr (map item_field (items_of n items))"
  using assms matching_loop_items [of items depth "[]" n]
  by (simp add: matching_def item_reader_def number_ok_def word_le_nat_alt word_less_nat_alt)

text \<open>Beyond the limit the message is refused.\<close>

lemma matching_loop_full:
  "\<forall>i \<in> set items. item_ok depth i \<Longrightarrow> length found \<le> kMaximumFields \<Longrightarrow>
   kMaximumFields < length found + length (items_of n items) \<Longrightarrow> \<exists>e. matching_loop n depth (encode_items items) found = Inl e"
proof (induction items arbitrary: found)
  case Nil
  then show ?case by (simp add: items_of_def)
next
  case (Cons i items)
  have step: "nextField (encode_item i @ encode_items items) depth = Inr (item_field i, encode_items items)"
    using Cons.prems by (intro nextField_item) simp
  have encode: "encode_items (i # items) = encode_item i @ encode_items items" by (simp add: encode_items_def)
  show ?case
    unfolding encode
    using Cons.IH [of "if item_number i = n then found @ [item_field i] else found"] Cons.prems
    by (subst matching_loop.simps) (auto simp: step push_field_def items_of_def proto_error_def split: if_splits)
qed

subsection \<open>Reading an encoded message\<close>

lemma last_item:
  assumes "matching (item_reader depth items) n = Inr (map item_field (items_of n items))"
  shows "pr_last (item_reader depth items) n =
    (if items_of n items = [] then proto_error ''protobuf field is absent'' else Inr (item_field (last (items_of n items))))"
  using assms by (simp add: pr_last_def bindE_def last_map)

definition zigzag_encode :: "u64 \<Rightarrow> u64" where
  "zigzag_encode v = push_bit 1 v XOR (if bit v 63 then - 1 else 0)"

lemma zigzag_roundtrip: "zigzag_decode (zigzag_encode v) = v"
proof -
  have "0 - (1 :: u64) = - 1" by simp
  moreover have "zigzag_encode v AND 1 = (if bit v 63 then 1 else 0)"
    by (rule bit_word_eqI) (auto simp: zigzag_encode_def bit_simps mult.commute [of v 2])
  moreover have "drop_bit 1 (zigzag_encode v) XOR (if bit v 63 then - 1 else 0) = v"
  proof (rule bit_word_eqI)
    fix m assume "m < LENGTH(64)"
    then consider "m < 63" | "m = 63" by fastforce
    then show "bit (drop_bit 1 (zigzag_encode v) XOR (if bit v 63 then - 1 else 0)) m \<longleftrightarrow> bit v m"
      by cases (auto simp: zigzag_encode_def bit_simps mult.commute [of v 2])
  qed
  ultimately show ?thesis by (auto simp: zigzag_decode_def)
qed

text \<open>A repeated field, packed or not, in any mixture.\<close>

lemma packed_varints_append: "packed_varints (concat (map appendVarint vs)) values = Inr (values @ vs)"
proof (induction vs arbitrary: "values")
  case (Cons v vs)
  show ?case by (subst packed_varints.simps) (simp add: Cons.IH)
qed (simp add: packed_varints.simps)

lemma packed_fixed_append:
  assumes "\<And>v r. pr_readLittleEndian (enc v @ r) width = f v" "\<And>v. length (enc v) = width" "0 < width"
  shows "packed_fixed width (concat (map enc vs)) values = values @ map f vs"
proof (induction vs arbitrary: "values")
  case (Cons v vs)
  have "enc v \<noteq> []" using assms(2) [of v] assms(3) by auto
  then show ?case by (subst packed_fixed.simps) (simp add: Cons.IH assms)
qed (simp add: packed_fixed.simps)

datatype 'a run = Single 'a | Packed "'a list"

fun run_values :: "'a run \<Rightarrow> 'a list" where
  "run_values (Single v) = [v]"
| "run_values (Packed vs) = vs"

fun varint_item :: "u32 \<Rightarrow> u64 run \<Rightarrow> proto_item" where
  "varint_item n (Single v) = PiVarint n v"
| "varint_item n (Packed vs) = PiBytes n (concat (map appendVarint vs))"

fun fixed64_item :: "u32 \<Rightarrow> u64 run \<Rightarrow> proto_item" where
  "fixed64_item n (Single v) = PiFixed64 n v"
| "fixed64_item n (Packed vs) = PiBytes n (concat (map bw_u64 vs))"

fun fixed32_item :: "u32 \<Rightarrow> u32 run \<Rightarrow> proto_item" where
  "fixed32_item n (Single v) = PiFixed32 n v"
| "fixed32_item n (Packed vs) = PiBytes n (concat (map bw_u32 vs))"

lemma repeated_varints_runs:
  "repeated_varints_loop (map (item_field \<circ> varint_item n) runs) values = Inr (values @ concat (map run_values runs))"
proof (induction runs arbitrary: "values")
  case (Cons run runs)
  then show ?case by (cases run) (simp_all add: packed_varints_append bindE_def)
qed simp

lemma length_concat_const: "(\<And>v. length (enc v) = w) \<Longrightarrow> length (concat (map enc vs)) = w * length vs"
  by (induction vs) simp_all

lemma repeated_fixed64_runs:
  "repeated_fixed_loop PwFixed64 8 (map (item_field \<circ> fixed64_item n) runs) values = Inr (values @ concat (map run_values runs))"
proof (induction runs arbitrary: "values")
  case (Cons run runs)
  then show ?case
    using packed_fixed_append [of bw_u64 8 "\<lambda>v. v"] length_concat_const [of bw_u64 8]
    by (cases run) simp_all
qed simp

lemma repeated_fixed32_runs:
  "repeated_fixed_loop PwFixed32 4 (map (item_field \<circ> fixed32_item n) runs) values =
    Inr (values @ map ucast (concat (map run_values runs)))"
proof (induction runs arbitrary: "values")
  case (Cons run runs)
  then show ?case
    using packed_fixed_append [of bw_u32 4 "\<lambda>v. ucast v"] length_concat_const [of bw_u32 4]
    by (cases run) simp_all
qed simp

subsection \<open>No view leaves the message\<close>

lemma nextField_inside: "nextField r depth = Inr (f, r') \<Longrightarrow> suffix r' r \<and> sublist (pf_bytes f) r"
proof -
  assume "nextField r depth = Inr (f, r')"
  then obtain key r1 n ty where key: "pr_readVarint r = Inr (key, r1)" and v: "proto_value n ty depth r1 = Inr (f, r')"
    by (auto simp: nextField_def Let_def proto_error_def bindE_eq_Inr split: if_splits)
  have "suffix r' r1 \<and> sublist (pf_bytes f) r1"
    using v by (auto simp: proto_value_def Let_def proto_error_def bindE_eq_Inr skipGroup_def
        dest!: pr_readVarint_suffix skipGroup_loop_suffix
        intro: suffix_drop suffix_drop_trans sublist_take_trans
        split: ProtoWireType.splits if_splits)
  moreover have "suffix r1 r" by (rule pr_readVarint_suffix [OF key])
  ultimately show ?thesis by (auto intro: suffix_order.trans sublist_suffix_trans)
qed

lemma matching_loop_inside:
  "matching_loop n depth r found = Inr fs \<Longrightarrow> \<forall>f \<in> set found. sublist (pf_bytes f) message \<Longrightarrow> suffix r message \<Longrightarrow>
   \<forall>f \<in> set fs. sublist (pf_bytes f) message"
proof (induction n depth r found rule: matching_loop.induct)
  case (1 n depth r found)
  show ?case
  proof (cases "r = []")
    case True
    with "1.prems" show ?thesis by (simp add: matching_loop.simps)
  next
    case False
    with "1.prems"(1) obtain f r' where next': "nextField r depth = Inr (f, r')"
      by (subst (asm) matching_loop.simps) (auto split: sum.splits)
    from nextField_inside [OF this] "1.prems"(3) have f: "sublist (pf_bytes f) message" and r': "suffix r' message"
      by (auto intro: suffix_order.trans sublist_suffix_trans)
    show ?thesis
    proof (cases "pf_number f = n")
      case True
      with "1.prems"(1) False next' obtain found' where push: "push_field found f = Inr found'"
        and rest: "matching_loop n depth r' found' = Inr fs"
        by (subst (asm) matching_loop.simps) (auto split: sum.splits)
      have "\<forall>f \<in> set found'. sublist (pf_bytes f) message"
        using push "1.prems"(2) f by (auto simp: push_field_def proto_error_def split: if_splits)
      from "1.IH"(1) [OF False next' refl True push rest this r'] show ?thesis .
    next
      case ne: False
      with "1.prems"(1) False next' have "matching_loop n depth r' found = Inr fs"
        by (subst (asm) matching_loop.simps) auto
      from "1.IH"(2) [OF False next' refl ne this "1.prems"(2) r'] show ?thesis .
    qed
  qed
qed

lemma matching_inside:
  "matching reader n = Inr fs \<Longrightarrow> f \<in> set fs \<Longrightarrow> sublist (pf_bytes f) (buffer_bytes (prr_message reader))"
  by (auto simp: matching_def proto_error_def split: if_splits buffer.splits
      dest: matching_loop_inside [where found = "[]" and message = "buffer_bytes (prr_message reader)"])

end
