(* ===== verification/ProtoLocator.thy ===== *)
theory ProtoLocator
  imports ProtoReader "HOL-Library.List_Lexorder"
begin

section \<open>Field paths of protobuf schemas (\<open>parser_module/proto_field_locator.hpp\<close>)\<close>

text \<open>
  The compiler that turns field paths into paths of field numbers against a \<open>FileDescriptorSet\<close>, and
  the lookup of a planned path in a message. A string is the bytes of its characters, ordered as
  \<open>std::string\<close> orders them. \<open>std::sort\<close> is a stable sort here, which is the same wherever the
  duplicate checks behind it pass. Allocation always succeeds. Then the lemmas: what is known of a
  schema that was accepted, which paths compile and to which numbers, and what a planned path finds.
\<close>

subsection \<open>Schemas\<close>

record ProtoSchemaField =
  psf_name :: bytes
  psf_number :: u32
  psf_type :: u32
  psf_type_name :: bytes
  psf_repeated :: bool

record ProtoSchemaMessage =
  psm_full_name :: bytes
  psm_fields :: "ProtoSchemaField list"
  psm_top_level :: bool

record ProtoRequestedField =
  prq_path :: bytes
  prq_numbers :: "u32 list"

definition dot_char :: u8 where "dot_char = 0x2E"

definition normalizeProtoTypeName :: "bytes \<Rightarrow> bytes" where
  "normalizeProtoTypeName name = (if name \<noteq> [] \<and> hd name = dot_char then tl name else name)"

fun findMessage_loop :: "bytes \<Rightarrow> ProtoSchemaMessage list \<Rightarrow> nat \<Rightarrow> Status + nat" where
  "findMessage_loop full_name [] index = proto_error ''protobuf message type is absent from FileDescriptorSet''"
| "findMessage_loop full_name (m # ms) index =
     (if psm_full_name m = full_name then Inr index else findMessage_loop full_name ms (index + 1))"

definition findMessage :: "ProtoSchemaMessage list \<Rightarrow> bytes \<Rightarrow> Status + nat" where
  "findMessage messages full_name = findMessage_loop full_name messages 0"

text \<open>The name of a declaration, or None when it is missing, empty or not a string.\<close>

definition name_of :: "ProtoReader \<Rightarrow> bytes option" where
  "name_of reader = (case pr_last reader 1 of
     Inl e \<Rightarrow> None
   | Inr field \<Rightarrow> if pf_wire_type field \<noteq> PwLengthDelimited \<or> pf_bytes field = [] then None else Some (pf_bytes field))"

definition parseField :: "bytes \<Rightarrow> Status + ProtoSchemaField" where
  "parseField bs = (let field = new_ProtoReader (Buffer bs) in
     case (name_of field, pr_varint field 3, pr_varint field 4, pr_varint field 5) of
       (Some name, Inr number, Inr label, Inr ty) \<Rightarrow>
         if number = 0 \<or> number > max_field_number \<or> label = 0 \<or> label > 3 \<or> ty = 0 \<or> ty > 18 \<or> ty = 10
         then proto_error ''FieldDescriptorProto uses an unsupported field number, label, or type''
         else let result = \<lparr>psf_name = name, psf_number = ucast number, psf_type = ucast ty, psf_type_name = [],
                psf_repeated = (label = 3)\<rparr> in
           if psf_type result = 11
           then (case pr_last field 6 of
               Inl e \<Rightarrow> proto_error ''message FieldDescriptorProto is missing type_name''
             | Inr type_name \<Rightarrow>
                 if pf_wire_type type_name \<noteq> PwLengthDelimited
                 then proto_error ''message FieldDescriptorProto is missing type_name''
                 else Inr (result\<lparr>psf_type_name := normalizeProtoTypeName (pf_bytes type_name)\<rparr>))
           else Inr result
     | _ \<Rightarrow> proto_error ''FieldDescriptorProto is missing a required field'')"

fun parse_fields :: "ProtoField list \<Rightarrow> ProtoSchemaField list \<Rightarrow> Status + ProtoSchemaField list" where
  "parse_fields [] decoded = Inr decoded"
| "parse_fields (field # rest) decoded =
     (if pf_wire_type field \<noteq> PwLengthDelimited then proto_error ''DescriptorProto field entry is not a message''
      else bindE (parseField (pf_bytes field)) (\<lambda>f. parse_fields rest (decoded @ [f])))"

fun adjacent_equal :: "('a \<Rightarrow> 'b) \<Rightarrow> 'a list \<Rightarrow> bool" where
  "adjacent_equal f (x # y # zs) = (f x = f y \<or> adjacent_equal f (y # zs))"
| "adjacent_equal f _ = False"

definition order_fields :: "ProtoSchemaField list \<Rightarrow> Status + ProtoSchemaField list" where
  "order_fields decoded =
     (let decoded = sort_key psf_name decoded in
      if adjacent_equal psf_name decoded
      then proto_error ''DescriptorProto contains a duplicate field name or number''
      else let decoded = sort_key psf_number decoded in
        if adjacent_equal psf_number decoded
        then proto_error ''DescriptorProto contains a duplicate field name or number''
        else Inr decoded)"

text \<open>
  \<open>parseMessage\<close>, with the loop over the nested declarations. The nesting limit is what ends the
  recursion.
\<close>

definition full_name_of :: "bytes \<Rightarrow> bytes \<Rightarrow> bytes" where
  "full_name_of parent name = (if parent = [] then name else parent @ [dot_char] @ name)"

text \<open>The fields of one declaration, in the table behind the messages before it.\<close>

definition declare_message ::
  "ProtoReader \<Rightarrow> bytes \<Rightarrow> bool \<Rightarrow> ProtoSchemaMessage list \<Rightarrow> Status + bytes \<times> ProtoSchemaMessage list" where
  "declare_message message parent top_level messages = (case name_of message of
     None \<Rightarrow> proto_error ''DescriptorProto is missing its name''
   | Some name \<Rightarrow>
       let full_name = full_name_of parent name in
       if full_name \<in> psm_full_name ` set messages
       then proto_error ''FileDescriptorSet contains a duplicate message name''
       else bindE (matching message 2) (\<lambda>found. bindE (parse_fields found []) (\<lambda>decoded.
         bindE (order_fields decoded) (\<lambda>decoded.
           Inr (full_name, messages @ [\<lparr>psm_full_name = full_name, psm_fields = decoded, psm_top_level = top_level\<rparr>])))))"

function parseMessage :: "nat \<Rightarrow> bytes \<Rightarrow> bytes \<Rightarrow> bool \<Rightarrow> ProtoSchemaMessage list \<Rightarrow> Status + ProtoSchemaMessage list"
  and parse_nested :: "nat \<Rightarrow> ProtoField list \<Rightarrow> bytes \<Rightarrow> ProtoSchemaMessage list \<Rightarrow> Status + ProtoSchemaMessage list" where
  "parseMessage depth bs parent top_level messages =
     (if depth > kMaxRecursionDepth then proto_error ''protobuf descriptor nesting depth exceeds 64''
      else let message = new_ProtoReader (Buffer bs) in
        case declare_message message parent top_level messages of
          Inl e \<Rightarrow> Inl e
        | Inr (full_name, messages) \<Rightarrow> (case matching message 3 of
              Inl e \<Rightarrow> Inl e
            | Inr nested \<Rightarrow> parse_nested (depth + 1) nested full_name messages))"
| "parse_nested depth [] full_name messages = Inr messages"
| "parse_nested depth (declaration # rest) full_name messages =
     (if pf_wire_type declaration \<noteq> PwLengthDelimited
      then proto_error ''DescriptorProto nested_type is not a message''
      else case parseMessage depth (pf_bytes declaration) full_name False messages of
        Inl e \<Rightarrow> Inl e
      | Inr messages \<Rightarrow> parse_nested depth rest full_name messages)"
  by pat_completeness auto
termination
  by (relation "measures [\<lambda>x. case x of Inl (d, _) \<Rightarrow> kMaxRecursionDepth + 1 - d | Inr (d, _) \<Rightarrow> kMaxRecursionDepth + 1 - d,
      \<lambda>x. case x of Inl _ \<Rightarrow> 0 | Inr (d, fs, _) \<Rightarrow> length fs + 1]")
    (auto simp: kMaxRecursionDepth_def)

declare parseMessage.simps [simp del]

fun parse_declarations :: "ProtoField list \<Rightarrow> bytes \<Rightarrow> ProtoSchemaMessage list \<Rightarrow> Status + ProtoSchemaMessage list" where
  "parse_declarations [] package messages = Inr messages"
| "parse_declarations (declaration # rest) package messages =
     (if pf_wire_type declaration \<noteq> PwLengthDelimited
      then proto_error ''FileDescriptorProto message_type is not a message''
      else bindE (parseMessage 1 (pf_bytes declaration) package True messages) (parse_declarations rest package))"

definition parseFile :: "bytes \<Rightarrow> ProtoSchemaMessage list \<Rightarrow> Status + ProtoSchemaMessage list" where
  "parseFile bs messages = (let file = new_ProtoReader (Buffer bs) in
     bindE (matching file 2) (\<lambda>packages.
       if packages \<noteq> [] \<and> pf_wire_type (last packages) \<noteq> PwLengthDelimited
       then proto_error ''FileDescriptorProto package is not a string''
       else let package = (if packages = [] then [] else pf_bytes (last packages)) in
         bindE (matching file 4) (\<lambda>declarations. parse_declarations declarations package messages)))"

fun parse_files :: "ProtoField list \<Rightarrow> ProtoSchemaMessage list \<Rightarrow> Status + ProtoSchemaMessage list" where
  "parse_files [] messages = Inr messages"
| "parse_files (file_field # rest) messages =
     (if pf_wire_type file_field \<noteq> PwLengthDelimited
      then proto_error ''FileDescriptorSet file entry is not a message''
      else bindE (parseFile (pf_bytes file_field) messages) (parse_files rest))"

text \<open>The last top-level message, and how many there are.\<close>

fun top_level_root :: "ProtoSchemaMessage list \<Rightarrow> nat \<Rightarrow> nat \<times> nat \<Rightarrow> nat \<times> nat" where
  "top_level_root [] index found = found"
| "top_level_root (m # ms) index (root, count) =
     top_level_root ms (index + 1) (if psm_top_level m then (index, count + 1) else (root, count))"

record ProtoFieldLocator =
  pl_messages :: "ProtoSchemaMessage list"
  pl_root_index :: nat

definition new_ProtoFieldLocator :: "buffer \<Rightarrow> bytes \<Rightarrow> Status + ProtoFieldLocator" where
  "new_ProtoFieldLocator descriptor_set root_type =
     (if buffer_missing descriptor_set then proto_error ''FileDescriptorSet is empty''
      else bindE (matching (new_ProtoReader descriptor_set) 1) (\<lambda>files.
        if files = [] then proto_error ''FileDescriptorSet contains no files''
        else bindE (parse_files files []) (\<lambda>messages.
          if root_type = []
          then (case top_level_root messages 0 (0, 0) of (root, count) \<Rightarrow>
            if count \<noteq> 1
            then proto_error ''protobuf root type is required when FileDescriptorSet has multiple top-level messages''
            else Inr \<lparr>pl_messages = messages, pl_root_index = root\<rparr>)
          else bindE (findMessage messages (normalizeProtoTypeName root_type)) (\<lambda>root.
            Inr \<lparr>pl_messages = messages, pl_root_index = root\<rparr>))))"

subsection \<open>Paths\<close>

function compile_path_loop :: "ProtoSchemaMessage list \<Rightarrow> nat \<Rightarrow> bytes \<Rightarrow> u32 list \<Rightarrow> Status + u32 list" where
  "compile_path_loop messages message_index path numbers =
     (if path = [] then proto_error ''protobuf field path is malformed''
      else let component = takeWhile (\<lambda>c. c \<noteq> dot_char) path; rest = dropWhile (\<lambda>c. c \<noteq> dot_char) path in
        if component = [] then proto_error ''protobuf field path contains an empty component''
        else case find (\<lambda>f. psf_name f = component) (psm_fields (messages ! message_index)) of
          None \<Rightarrow> proto_error ''protobuf field path is absent from FileDescriptorSet''
        | Some selected \<Rightarrow>
            let numbers = numbers @ [psf_number selected] in
            if rest = [] then Inr numbers
            else if psf_type selected \<noteq> 11 \<or> psf_repeated selected
            then proto_error ''protobuf field path may descend only through singular message fields''
            else (case findMessage messages (psf_type_name selected) of
                Inl e \<Rightarrow> Inl e
              | Inr nested \<Rightarrow>
                  if length numbers \<ge> kMaxRecursionDepth then proto_error ''protobuf field path depth exceeds 64''
                  else compile_path_loop messages nested (tl rest) numbers))"
  by pat_completeness auto
termination
proof (relation "measure (\<lambda>(ms, i, path, ns). length path)", goal_cases)
  case (2 ms i path ns)
  have "length (dropWhile (\<lambda>c. c \<noteq> dot_char) path) \<le> length path" by (rule length_dropWhile_le)
  with 2 show ?case by (cases "dropWhile (\<lambda>c. c \<noteq> dot_char) path") auto
qed simp

declare compile_path_loop.simps [simp del]

definition proto_compilePath :: "ProtoFieldLocator \<Rightarrow> bytes \<Rightarrow> Status + ProtoRequestedField" where
  "proto_compilePath locator path =
     (if path = [] then proto_error ''protobuf field path is empty''
      else bindE (compile_path_loop (pl_messages locator) (pl_root_index locator) path []) (\<lambda>numbers.
        Inr \<lparr>prq_path = path, prq_numbers = numbers\<rparr>))"

type_synonym ProtoTraversalPlan = "ProtoRequestedField list"

fun proto_locate_loop :: "ProtoFieldLocator \<Rightarrow> bytes list \<Rightarrow> ProtoTraversalPlan \<Rightarrow> Status + ProtoTraversalPlan" where
  "proto_locate_loop locator [] plan = Inr plan"
| "proto_locate_loop locator (path # paths) plan = bindE (proto_compilePath locator path) (\<lambda>request.
     if prq_path request \<in> prq_path ` set plan then proto_error ''duplicate protobuf field path requested''
     else proto_locate_loop locator paths (plan @ [request]))"

definition proto_locate :: "Status + ProtoFieldLocator \<Rightarrow> bytes list \<Rightarrow> Status + ProtoTraversalPlan" where
  "proto_locate locator paths = bindE locator (\<lambda>locator. bindE (proto_locate_loop locator paths []) (\<lambda>plan.
     if plan = [] then proto_error ''at least one protobuf field path is required'' else Inr plan))"

fun proto_plan_field_loop :: "bytes \<Rightarrow> ProtoTraversalPlan \<Rightarrow> nat \<Rightarrow> Status + nat" where
  "proto_plan_field_loop path [] index = proto_error ''field path is not present in the protobuf traversal plan''"
| "proto_plan_field_loop path (r # rs) index =
     (if prq_path r = path then Inr index else proto_plan_field_loop path rs (index + 1))"

definition proto_plan_field :: "ProtoTraversalPlan \<Rightarrow> bytes \<Rightarrow> Status + nat" where
  "proto_plan_field plan path = proto_plan_field_loop path plan 0"

definition numberPath :: "ProtoTraversalPlan \<Rightarrow> nat \<Rightarrow> Status + u32 list" where
  "numberPath plan field_id =
     (if field_id \<ge> length plan then proto_error ''protobuf field id is outside the traversal plan''
      else Inr (prq_numbers (plan ! field_id)))"

fun locate_numbers :: "ProtoReader \<Rightarrow> u32 list \<Rightarrow> Status + ProtoField" where
  "locate_numbers current [] = proto_error ''protobuf field path is empty''"
| "locate_numbers current [number] = pr_last current number"
| "locate_numbers current (number # numbers) = bindE (pr_last current number) (\<lambda>field.
     if pf_wire_type field \<noteq> PwLengthDelimited
     then proto_error ''protobuf field-path intermediate is not a message''
     else locate_numbers (new_ProtoReader (Buffer (pf_bytes field))) numbers)"

definition proto_plan_locate :: "ProtoTraversalPlan \<Rightarrow> ProtoReader \<Rightarrow> nat \<Rightarrow> Status + ProtoField" where
  "proto_plan_locate plan reader field_id =
     (if field_id \<ge> length plan then proto_error ''protobuf field id is outside the traversal plan''
      else let numbers = prq_numbers (plan ! field_id) in
        if length numbers > kMaxRecursionDepth then proto_error ''protobuf field path depth exceeds 64''
        else locate_numbers reader numbers)"

subsection \<open>What is known of an accepted schema\<close>

definition field_ok :: "ProtoSchemaField \<Rightarrow> bool" where
  "field_ok f \<longleftrightarrow> psf_name f \<noteq> [] \<and> number_ok (psf_number f) \<and> 1 \<le> psf_type f \<and> psf_type f \<le> 18 \<and> psf_type f \<noteq> 10"

definition fields_ok :: "ProtoSchemaField list \<Rightarrow> bool" where
  "fields_ok fs \<longleftrightarrow> (\<forall>f \<in> set fs. field_ok f) \<and> distinct (map psf_name fs) \<and>
     sorted_wrt (\<lambda>x y. psf_number x < psf_number y) fs"

definition proto_schema_ok :: "ProtoSchemaMessage list \<Rightarrow> bool" where
  "proto_schema_ok ms \<longleftrightarrow> distinct (map psm_full_name ms) \<and> (\<forall>m \<in> set ms. fields_ok (psm_fields m))"

lemma adjacent_sorted:
  "sorted (map f xs) \<Longrightarrow> \<not> adjacent_equal f xs \<longleftrightarrow> sorted_wrt (\<lambda>x y. f x < (f y :: 'b::linorder)) xs"
proof (induction f xs rule: adjacent_equal.induct)
  case (1 f x y zs)
  then show ?case by fastforce
qed auto

lemma distinct_sort_key: "distinct (map f (sort_key g xs)) \<longleftrightarrow> distinct (map f xs)"
  by (simp add: distinct_map)

lemma sorted_strict: "sorted_wrt (\<lambda>x y. f x < f y) (sort_key f xs) \<longleftrightarrow> distinct (map f xs)" for f :: "'a \<Rightarrow> 'b::linorder"
proof -
  have "sorted_wrt (<) (map f (sort_key f xs)) \<longleftrightarrow> distinct (map f (sort_key f xs))"
    using strict_sorted_iff [of "map f (sort_key f xs)"] sorted_sort_key [of f xs] by blast
  then show ?thesis by (simp only: sorted_wrt_map distinct_sort_key)
qed

lemma adjacent_sort: "adjacent_equal f (sort_key f xs) \<longleftrightarrow> \<not> distinct (map f xs)" for f :: "'a \<Rightarrow> 'b::linorder"
  using adjacent_sorted [of f "sort_key f xs"] sorted_sort_key [of f xs] sorted_strict [of f xs] by blast

text \<open>The fields of a message are accepted exactly when no name and no number stands twice.\<close>

lemma order_fields_iff:
  "order_fields decoded = Inr fs \<longleftrightarrow> distinct (map psf_name decoded) \<and> distinct (map psf_number decoded) \<and>
     fs = sort_key psf_number (sort_key psf_name decoded)"
  by (auto simp: order_fields_def Let_def proto_error_def distinct_sort_key adjacent_sort)

lemma order_fields_ok:
  assumes "order_fields decoded = Inr fs" "\<forall>f \<in> set decoded. field_ok f"
  shows "fields_ok fs"
proof -
  from assms(1) have d: "distinct (map psf_name decoded)" "distinct (map psf_number decoded)"
    and fs: "fs = sort_key psf_number (sort_key psf_name decoded)" by (auto simp: order_fields_iff)
  have "sorted_wrt (\<lambda>x y. psf_number x < psf_number y) fs"
    unfolding fs sorted_strict distinct_sort_key by (rule d(2))
  with assms(2) d(1) show ?thesis by (simp add: fields_ok_def fs distinct_sort_key)
qed

lemma ucast_down_range:
  "unat (a :: u64) \<le> n \<Longrightarrow> n < 2 ^ 32 \<Longrightarrow> unat (ucast a :: u32) = unat a"
  by (simp add: unsigned_ucast_eq unsigned_take_bit_eq take_bit_nat_eq_self)

lemma parseField_ok: "parseField bs = Inr f \<Longrightarrow> field_ok f"
proof -
  assume p: "parseField bs = Inr f"
  then obtain name number label ty where name: "name_of (new_ProtoReader (Buffer bs)) = Some name"
    and range: "\<not> (number = 0 \<or> number > max_field_number \<or> label = (0 :: u64) \<or> label > 3 \<or> ty = 0 \<or> ty > 18 \<or> ty = (10 :: u64))"
    and f: "psf_name f = name" "psf_number f = ucast (number :: u64)" "psf_type f = ucast ty"
    by (auto simp: parseField_def Let_def proto_error_def split: option.splits sum.splits if_splits)
  have un: "unat number \<noteq> 0" "unat number \<le> 0x1FFFFFFF" and ut: "unat ty \<noteq> 0" "unat ty \<le> 18" "unat ty \<noteq> 10"
    using range unat_eq_zero [of number] unat_eq_zero [of ty] word_unat_eq_iff [of ty 10]
    by (simp_all add: max_field_number_def word_less_nat_alt)
  have n: "unat (ucast number :: u32) = unat number" by (rule ucast_down_range [OF un(2)]) simp
  have t: "unat (ucast ty :: u32) = unat ty" by (rule ucast_down_range [OF ut(2)]) simp
  have "name \<noteq> []" using name by (auto simp: name_of_def split: sum.splits if_splits)
  moreover have "number_ok (ucast number)"
    using un n unat_eq_zero [of "ucast number :: u32"] by (simp add: number_ok_def word_le_nat_alt)
  moreover have "1 \<le> (ucast ty :: u32) \<and> (ucast ty :: u32) \<le> 18 \<and> (ucast ty :: u32) \<noteq> 10"
    using ut t word_unat_eq_iff [of "ucast ty :: u32" 10] by (simp add: word_le_nat_alt)
  ultimately show ?thesis by (simp add: field_ok_def f)
qed

lemma parse_fields_ok: "parse_fields found decoded = Inr fs \<Longrightarrow> \<forall>f \<in> set decoded. field_ok f \<Longrightarrow> \<forall>f \<in> set fs. field_ok f"
proof (induction found arbitrary: decoded)
  case (Cons field rest)
  from Cons.prems(1) obtain f where f: "parseField (pf_bytes field) = Inr f" and rest: "parse_fields rest (decoded @ [f]) = Inr fs"
    by (auto simp: proto_error_def bindE_eq_Inr split: if_splits)
  from Cons.prems(2) parseField_ok [OF f] have "\<forall>f \<in> set (decoded @ [f]). field_ok f" by simp
  from Cons.IH [OF rest this] show ?case .
qed simp

lemma declare_message_ok:
  assumes "declare_message message parent is_top messages = Inr (full_name, messages')" "proto_schema_ok messages"
  shows "proto_schema_ok messages' \<and> length messages' = length messages + 1 \<and> take (length messages) messages' = messages"
proof -
  from assms(1) obtain found decoded fs where fs: "order_fields decoded = Inr fs" "parse_fields found [] = Inr decoded"
    and new: "full_name \<notin> psm_full_name ` set messages"
    and messages': "messages' = messages @ [\<lparr>psm_full_name = full_name, psm_fields = fs, psm_top_level = is_top\<rparr>]"
    by (auto simp: declare_message_def Let_def proto_error_def bindE_eq_Inr split: option.splits if_splits)
  have "fields_ok fs" by (rule order_fields_ok [OF fs(1) parse_fields_ok [OF fs(2)]]) simp
  with assms(2) new show ?thesis by (simp add: messages' proto_schema_ok_def)
qed

lemma parseMessage_ok:
  "parseMessage depth bs parent is_top messages = Inr messages' \<Longrightarrow> proto_schema_ok messages \<Longrightarrow> proto_schema_ok messages'"
  "parse_nested depth found full_name messages = Inr messages' \<Longrightarrow> proto_schema_ok messages \<Longrightarrow> proto_schema_ok messages'"
proof (induction depth bs parent is_top messages and depth found full_name messages arbitrary: messages' and messages'
    rule: parseMessage_parse_nested.induct)
  case (1 depth bs parent is_top messages)
  from "1.prems"(1) obtain full_name ms nested where depth: "\<not> depth > kMaxRecursionDepth"
    and decl: "declare_message (new_ProtoReader (Buffer bs)) parent is_top messages = Inr (full_name, ms)"
    and nested: "matching (new_ProtoReader (Buffer bs)) 3 = Inr nested"
    and rest: "parse_nested (depth + 1) nested full_name ms = Inr messages'"
    by (subst (asm) parseMessage.simps) (auto simp: Let_def proto_error_def split: if_splits sum.splits prod.splits)
  have "proto_schema_ok ms" using declare_message_ok [OF decl "1.prems"(2)] by simp
  from "1.IH" [OF depth refl decl refl nested rest this] show ?case .
next
  case (3 depth d rest full_name messages)
  from "3.prems"(1) obtain ms where ok: "\<not> pf_wire_type d \<noteq> PwLengthDelimited"
    and one: "parseMessage depth (pf_bytes d) full_name False messages = Inr ms"
    and more: "parse_nested depth rest full_name ms = Inr messages'"
    by (auto simp: proto_error_def split: if_splits sum.splits)
  from "3.IH"(1) [OF ok one "3.prems"(2)] have "proto_schema_ok ms" .
  from "3.IH"(2) [OF ok one more this] show ?case .
qed simp

lemma parse_declarations_ok:
  "parse_declarations found package messages = Inr messages' \<Longrightarrow> proto_schema_ok messages \<Longrightarrow> proto_schema_ok messages'"
proof (induction found arbitrary: messages)
  case (Cons d rest)
  then show ?case by (auto simp: proto_error_def bindE_eq_Inr dest: parseMessage_ok(1) split: if_splits)
qed simp

lemma parse_files_ok:
  "parse_files found messages = Inr messages' \<Longrightarrow> proto_schema_ok messages \<Longrightarrow> proto_schema_ok messages'"
proof (induction found arbitrary: messages)
  case (Cons d rest)
  then show ?case
    by (auto simp: proto_error_def bindE_eq_Inr parseFile_def Let_def dest: parse_declarations_ok split: if_splits)
qed simp

lemma findMessage_loop_iff:
  "findMessage_loop n ms k = Inr i \<longleftrightarrow> k \<le> i \<and> i < k + length ms \<and> psm_full_name (ms ! (i - k)) = n \<and>
     (\<forall>j < i - k. psm_full_name (ms ! j) \<noteq> n)"
proof (induction ms arbitrary: k)
  case (Cons m ms)
  show ?case
  proof (cases "psm_full_name m = n")
    case True
    then show ?thesis by (auto simp: nth_Cons' split: if_splits)
  next
    case False
    have eq: "i - k = Suc (i - Suc k)" if "Suc k \<le> i" using that by simp
    show ?thesis
    proof (cases "Suc k \<le> i")
      case True
      with False Cons.IH [of "Suc k"] eq [OF True] show ?thesis by (auto simp: less_Suc_eq_0_disj)
    next
      case small: False
      then have "i \<le> k" by simp
      with False Cons.IH [of "Suc k"] small show ?thesis by (cases "i = k") auto
    qed
  qed
qed (auto simp: proto_error_def)

lemma findMessage_ok: "findMessage ms n = Inr i \<Longrightarrow> i < length ms \<and> psm_full_name (ms ! i) = n"
  using findMessage_loop_iff [of n ms 0 i] by (simp add: findMessage_def)

lemma top_level_root_less:
  "top_level_root ms k (root, count) = (root', count') \<Longrightarrow> count \<le> count' \<and>
   (count < count' \<longrightarrow> k \<le> root' \<and> root' < k + length ms \<and> psm_top_level (ms ! (root' - k))) \<and> (count = count' \<longrightarrow> root' = root)"
proof (induction ms arbitrary: k root count)
  case (Cons m ms)
  show ?case
  proof (cases "psm_top_level m")
    case True
    with Cons.IH [of "Suc k" k "Suc count"] Cons.prems show ?thesis
      by (auto simp: nth_Cons' split: if_splits)
  next
    case False
    with Cons.IH [of "Suc k" root count] Cons.prems show ?thesis
      by (auto simp: nth_Cons' split: if_splits)
  qed
qed simp

definition locator_ok :: "ProtoFieldLocator \<Rightarrow> bool" where
  "locator_ok locator \<longleftrightarrow> proto_schema_ok (pl_messages locator) \<and> pl_root_index locator < length (pl_messages locator)"

lemma new_locator_ok:
  assumes "new_ProtoFieldLocator descriptor_set root_type = Inr locator"
  shows "locator_ok locator"
proof -
  define pick where "pick = (\<lambda>messages. if root_type = []
    then (case top_level_root messages 0 (0, 0) of (root, count) \<Rightarrow>
      if count \<noteq> 1
      then proto_error ''protobuf root type is required when FileDescriptorSet has multiple top-level messages''
      else Inr \<lparr>pl_messages = messages, pl_root_index = root\<rparr>)
    else bindE (findMessage messages (normalizeProtoTypeName root_type)) (\<lambda>root.
      Inr \<lparr>pl_messages = messages, pl_root_index = root\<rparr>))"
  obtain files messages where parsed: "parse_files files [] = Inr messages" and root: "pick messages = Inr locator"
    using assms unfolding new_ProtoFieldLocator_def pick_def [symmetric]
    by (auto simp: proto_error_def bindE_eq_Inr split: if_splits)
  have "proto_schema_ok messages" by (rule parse_files_ok [OF parsed]) (simp add: proto_schema_ok_def)
  moreover have "pl_messages locator = messages \<and> pl_root_index locator < length messages"
  proof (cases "root_type = []")
    case True
    obtain r count where top: "top_level_root messages 0 (0, 0) = (r, count)" by (cases "top_level_root messages 0 (0, 0)")
    with root True have "count = 1" "locator = \<lparr>pl_messages = messages, pl_root_index = r\<rparr>"
      by (auto simp: pick_def proto_error_def split: if_splits)
    with top_level_root_less [OF top] show ?thesis by simp
  next
    case False
    with root show ?thesis by (auto simp: pick_def bindE_eq_Inr dest: findMessage_ok)
  qed
  ultimately show ?thesis by (simp add: locator_ok_def)
qed

subsection \<open>Which paths compile\<close>

text \<open>The components of a path, and the numbers a schema gives them.\<close>

function components :: "bytes \<Rightarrow> bytes list" where
  "components path = takeWhile (\<lambda>c. c \<noteq> dot_char) path #
     (if dropWhile (\<lambda>c. c \<noteq> dot_char) path = [] then [] else components (tl (dropWhile (\<lambda>c. c \<noteq> dot_char) path)))"
  by pat_completeness auto
termination
proof (relation "measure length", goal_cases)
  case (2 path)
  have "length (dropWhile (\<lambda>c. c \<noteq> dot_char) path) \<le> length path" by (rule length_dropWhile_le)
  with 2 show ?case by (cases "dropWhile (\<lambda>c. c \<noteq> dot_char) path") auto
qed simp

declare components.simps [simp del]

inductive proto_path :: "ProtoSchemaMessage list \<Rightarrow> ProtoSchemaMessage \<Rightarrow> bytes list \<Rightarrow> u32 list \<Rightarrow> bool" for ms where
  path_leaf: "f \<in> set (psm_fields m) \<Longrightarrow> proto_path ms m [psf_name f] [psf_number f]"
| path_step: "f \<in> set (psm_fields m) \<Longrightarrow> psf_type f = 11 \<Longrightarrow> \<not> psf_repeated f \<Longrightarrow> m' \<in> set ms \<Longrightarrow>
    psm_full_name m' = psf_type_name f \<Longrightarrow> proto_path ms m' cs ns \<Longrightarrow> proto_path ms m (psf_name f # cs) (psf_number f # ns)"

lemma proto_path_head: "proto_path ms m (c # cs) ns \<Longrightarrow> \<exists>f \<in> set (psm_fields m). psf_name f = c"
  by (cases rule: proto_path.cases) auto

lemma proto_path_ne: "proto_path ms m cs ns \<Longrightarrow> cs \<noteq> [] \<and> ns \<noteq> [] \<and> length ns = length cs"
  by (induction rule: proto_path.induct) auto

lemma find_field: "distinct (map psf_name fs) \<Longrightarrow> find (\<lambda>f. psf_name f = c) fs = Some f \<longleftrightarrow> f \<in> set fs \<and> psf_name f = c"
  by (induction fs) (auto simp: rev_image_eqI)

lemma findMessage_iff:
  assumes "distinct (map psm_full_name ms)"
  shows "findMessage ms n = Inr i \<longleftrightarrow> i < length ms \<and> psm_full_name (ms ! i) = n"
proof
  assume i: "i < length ms \<and> psm_full_name (ms ! i) = n"
  then have "psm_full_name (ms ! j) \<noteq> n" if "j < i" for j
    using assms that nth_eq_iff_index_eq [of "map psm_full_name ms" i j] by auto
  with i show "findMessage ms n = Inr i"
    using findMessage_loop_iff [of n ms 0 i] by (simp add: findMessage_def)
qed (auto dest: findMessage_ok)

lemma field_unique:
  "fields_ok fs \<Longrightarrow> f \<in> set fs \<Longrightarrow> g \<in> set fs \<Longrightarrow> psf_name f = psf_name g \<Longrightarrow> f = g"
  by (auto simp: fields_ok_def distinct_map inj_on_def)

lemma proto_path_one:
  assumes "fields_ok (psm_fields m)" "f \<in> set (psm_fields m)" "psf_name f = c"
  shows "proto_path ms m [c] ns \<longleftrightarrow> ns = [psf_number f]"
proof
  assume "proto_path ms m [c] ns"
  then show "ns = [psf_number f]"
  proof (cases rule: proto_path.cases)
    case (path_leaf g)
    with field_unique [OF assms(1), of g f] assms(2,3) show ?thesis by simp
  next
    case (path_step g m' ns')
    from proto_path_ne [OF path_step(8)] show ?thesis by simp
  qed
next
  assume "ns = [psf_number f]"
  with proto_path.path_leaf [OF assms(2)] assms(3) show "proto_path ms m [c] ns" by simp
qed

lemma proto_path_more:
  assumes "fields_ok (psm_fields m)" "f \<in> set (psm_fields m)" "psf_name f = c" "cs \<noteq> []"
  shows "proto_path ms m (c # cs) ns \<longleftrightarrow> psf_type f = 11 \<and> \<not> psf_repeated f \<and>
    (\<exists>i ns'. i < length ms \<and> psm_full_name (ms ! i) = psf_type_name f \<and> proto_path ms (ms ! i) cs ns' \<and> ns = psf_number f # ns')"
    (is "?path \<longleftrightarrow> ?step")
proof
  assume ?path
  then show ?step
  proof (cases rule: proto_path.cases)
    case (path_leaf g)
    with assms(4) show ?thesis by simp
  next
    case (path_step g m' ns')
    then have "g = f" using field_unique [OF assms(1), of g f] assms(2,3) by simp
    moreover obtain i where "i < length ms" "m' = ms ! i" using path_step(6) by (auto simp: in_set_conv_nth)
    ultimately show ?thesis using path_step by blast
  qed
next
  assume ?step
  then obtain i ns' where i: "psf_type f = 11" "\<not> psf_repeated f" "i < length ms"
    "psm_full_name (ms ! i) = psf_type_name f" "proto_path ms (ms ! i) cs ns'" "ns = psf_number f # ns'" by blast
  from proto_path.path_step [OF assms(2) i(1,2) nth_mem [OF i(3)] i(4,5)] assms(3) i(6) show ?path by simp
qed

text \<open>Compiling a path from any message: the numbers of its components, at most 64 of them.\<close>

lemma compile_path_loop_iff:
  assumes schema: "proto_schema_ok ms"
  shows "mi < length ms \<Longrightarrow> length numbers < 64 \<Longrightarrow> compile_path_loop ms mi path numbers = Inr out \<longleftrightarrow>
    (\<exists>ns. proto_path ms (ms ! mi) (components path) ns \<and> out = numbers @ ns \<and> length out \<le> 64)"
proof (induction path arbitrary: mi numbers rule: measure_induct_rule [of length])
  case (less path)
  let ?c = "takeWhile (\<lambda>c. c \<noteq> dot_char) path" and ?rest = "dropWhile (\<lambda>c. c \<noteq> dot_char) path"
  have fs: "fields_ok (psm_fields (ms ! mi))" using schema less.prems(1) by (simp add: proto_schema_ok_def)
  then have names: "distinct (map psf_name (psm_fields (ms ! mi)))" and ne: "\<forall>f \<in> set (psm_fields (ms ! mi)). psf_name f \<noteq> []"
    by (auto simp: fields_ok_def field_ok_def)
  have shorter: "length (tl ?rest) < length path" if "?rest \<noteq> []"
    using length_dropWhile_le [of "\<lambda>c. c \<noteq> dot_char" path] that by (cases ?rest) auto
  have comps: "components path = ?c # (if ?rest = [] then [] else components (tl ?rest))"
    by (rule components.simps)
  show ?case
  proof (cases "find (\<lambda>f. psf_name f = ?c) (psm_fields (ms ! mi))")
    case None
    then have none: "\<forall>f \<in> set (psm_fields (ms ! mi)). psf_name f \<noteq> ?c" by (auto simp: find_None_iff)
    then have "\<not> proto_path ms (ms ! mi) (components path) ns" for ns
      unfolding comps using proto_path_head by blast
    moreover have "compile_path_loop ms mi path numbers \<noteq> Inr out"
      using None by (subst compile_path_loop.simps) (simp add: proto_error_def Let_def)
    ultimately show ?thesis by blast
  next
    case (Some f)
    with find_field [OF names] have f: "f \<in> set (psm_fields (ms ! mi))" "psf_name f = ?c" by auto
    with ne have c: "?c \<noteq> []" "path \<noteq> []" by auto
    show ?thesis
    proof (cases "?rest = []")
      case True
      have "compile_path_loop ms mi path numbers = Inr (numbers @ [psf_number f])"
        using Some c True by (subst compile_path_loop.simps) (simp add: Let_def)
      moreover have "proto_path ms (ms ! mi) (components path) ns \<longleftrightarrow> ns = [psf_number f]" for ns
        unfolding comps if_P [OF True] by (rule proto_path_one [OF fs f])
      ultimately have "compile_path_loop ms mi path numbers = Inr out \<longleftrightarrow> out = numbers @ [psf_number f]"
        and "(\<exists>ns. proto_path ms (ms ! mi) (components path) ns \<and> out = numbers @ ns \<and> length out \<le> 64) \<longleftrightarrow>
          out = numbers @ [psf_number f] \<and> length out \<le> 64"
        by (simp_all only: sum.inject simp_thms) blast+
      moreover have "length (numbers @ [psf_number f]) \<le> 64" using less.prems(2) by simp
      ultimately show ?thesis by blast
    next
      case rest: False
      have comps': "components path = ?c # components (tl ?rest)"
        unfolding comps using rest by (simp only: if_False)
      have loop: "compile_path_loop ms mi path numbers =
        (if psf_type f \<noteq> 11 \<or> psf_repeated f
         then proto_error ''protobuf field path may descend only through singular message fields''
         else case findMessage ms (psf_type_name f) of
                Inl e \<Rightarrow> Inl e
              | Inr nested \<Rightarrow>
                  if length (numbers @ [psf_number f]) \<ge> kMaxRecursionDepth then proto_error ''protobuf field path depth exceeds 64''
                  else compile_path_loop ms nested (tl ?rest) (numbers @ [psf_number f]))"
        using Some c rest by (subst compile_path_loop.simps) (simp add: Let_def del: dropWhile_eq_Nil_conv)
      have path: "proto_path ms (ms ! mi) (components path) ns \<longleftrightarrow> psf_type f = 11 \<and> \<not> psf_repeated f \<and>
        (\<exists>i ns'. i < length ms \<and> psm_full_name (ms ! i) = psf_type_name f \<and> proto_path ms (ms ! i) (components (tl ?rest)) ns' \<and>
          ns = psf_number f # ns')" for ns
        unfolding comps' by (rule proto_path_more [OF fs f]) (subst components.simps, simp)
      have full: "distinct (map psm_full_name ms)" using schema by (simp add: proto_schema_ok_def)
      show ?thesis
      proof (cases "psf_type f = 11 \<and> \<not> psf_repeated f \<and> (\<exists>i. findMessage ms (psf_type_name f) = Inr i)")
        case True
        then obtain i where i: "findMessage ms (psf_type_name f) = Inr i" by blast
        have iu: "j < length ms \<and> psm_full_name (ms ! j) = psf_type_name f \<longleftrightarrow> j = i" for j
          using findMessage_iff [OF full, of "psf_type_name f" j] unfolding i sum.inject by blast
        show ?thesis
        proof (cases "length (numbers @ [psf_number f]) < 64")
          case small: True
          have "i < length ms" using iu [of i] by simp
          from less.IH [OF shorter [OF rest] this small]
          have loop': "compile_path_loop ms mi path numbers = Inr out \<longleftrightarrow>
            (\<exists>ns. proto_path ms (ms ! i) (components (tl ?rest)) ns \<and> out = (numbers @ [psf_number f]) @ ns \<and> length out \<le> 64)"
            using loop True i small by (simp add: kMaxRecursionDepth_def)
          have "proto_path ms (ms ! mi) (components path) ns \<longleftrightarrow>
            (\<exists>ns'. proto_path ms (ms ! i) (components (tl ?rest)) ns' \<and> ns = psf_number f # ns')" for ns
          proof
            assume "proto_path ms (ms ! mi) (components path) ns"
            then obtain j ns' where j: "j < length ms \<and> psm_full_name (ms ! j) = psf_type_name f"
              "proto_path ms (ms ! j) (components (tl ?rest)) ns'" "ns = psf_number f # ns'" unfolding path by blast
            with iu [of j] show "\<exists>ns'. proto_path ms (ms ! i) (components (tl ?rest)) ns' \<and> ns = psf_number f # ns'" by blast
          next
            assume "\<exists>ns'. proto_path ms (ms ! i) (components (tl ?rest)) ns' \<and> ns = psf_number f # ns'"
            with iu [of i] True show "proto_path ms (ms ! mi) (components path) ns" unfolding path by blast
          qed
          then show ?thesis unfolding loop' by force
        next
          case False
          then have "compile_path_loop ms mi path numbers \<noteq> Inr out"
            using loop True i by (simp add: kMaxRecursionDepth_def proto_error_def)
          moreover have "\<not> (proto_path ms (ms ! mi) (components path) ns \<and> length (numbers @ ns) \<le> 64)" for ns
          proof
            assume ns: "proto_path ms (ms ! mi) (components path) ns \<and> length (numbers @ ns) \<le> 64"
            then obtain j ns' where "proto_path ms (ms ! j) (components (tl ?rest)) ns'" "ns = psf_number f # ns'"
              unfolding path by blast
            with proto_path_ne [OF this(1)] have "2 \<le> length ns" by (cases ns') simp_all
            with ns False show False by simp
          qed
          ultimately show ?thesis by auto
        qed
      next
        case False
        then have "compile_path_loop ms mi path numbers \<noteq> Inr out"
          using loop by (auto simp: proto_error_def split: sum.splits)
        moreover have "\<not> proto_path ms (ms ! mi) (components path) ns" for ns
          using False path [of ns] findMessage_iff [OF full, of "psf_type_name f"] by blast
        ultimately show ?thesis by blast
      qed
    qed
  qed
qed

lemma compilePath_iff:
  assumes "locator_ok locator"
  shows "proto_compilePath locator path = Inr request \<longleftrightarrow>
    prq_path request = path \<and> length (prq_numbers request) \<le> 64 \<and>
    proto_path (pl_messages locator) (pl_messages locator ! pl_root_index locator) (components path) (prq_numbers request)"
proof (cases "path = []")
  case True
  have "components [] = [[]]" by (subst components.simps) simp
  moreover have "\<not> proto_path (pl_messages locator) (pl_messages locator ! pl_root_index locator) ([] # cs) ns" for cs ns
  proof
    assume "proto_path (pl_messages locator) (pl_messages locator ! pl_root_index locator) ([] # cs) ns"
    from proto_path_head [OF this] obtain f where "f \<in> set (psm_fields (pl_messages locator ! pl_root_index locator))"
      "psf_name f = []" by blast
    moreover have "pl_messages locator ! pl_root_index locator \<in> set (pl_messages locator)"
      using assms by (simp add: locator_ok_def)
    ultimately show False using assms by (auto simp: locator_ok_def proto_schema_ok_def fields_ok_def field_ok_def)
  qed
  ultimately show ?thesis using True by (simp add: proto_compilePath_def proto_error_def)
next
  case False
  from assms have "proto_schema_ok (pl_messages locator)" "pl_root_index locator < length (pl_messages locator)"
    by (simp_all add: locator_ok_def)
  from compile_path_loop_iff [OF this, of "[]" path] False show ?thesis
    by (cases request) (auto simp: proto_compilePath_def bindE_eq_Inr)
qed

subsection \<open>Plans\<close>

lemma proto_locate_loop_ok:
  "proto_locate_loop locator paths plan = Inr plan' \<Longrightarrow> distinct (map prq_path plan) \<Longrightarrow>
   distinct (map prq_path plan') \<and> (\<exists>requests. plan' = plan @ requests \<and> list_all2 (\<lambda>path r. proto_compilePath locator path = Inr r) paths requests)"
proof (induction paths arbitrary: plan)
  case (Cons path paths)
  from Cons.prems(1) obtain r where r: "proto_compilePath locator path = Inr r" and new: "prq_path r \<notin> prq_path ` set plan"
    and rest: "proto_locate_loop locator paths (plan @ [r]) = Inr plan'"
    by (auto simp: bindE_eq_Inr proto_error_def split: if_splits)
  have "distinct (map prq_path (plan @ [r]))" using Cons.prems(2) new by simp
  from Cons.IH [OF rest this] obtain requests where "distinct (map prq_path plan')" "plan' = (plan @ [r]) @ requests"
    "list_all2 (\<lambda>path r. proto_compilePath locator path = Inr r) paths requests" by blast
  with r show ?case by auto
qed simp

lemma proto_plan_field_loop_iff:
  "distinct (map prq_path plan) \<Longrightarrow> i < length plan \<Longrightarrow> proto_plan_field_loop (prq_path (plan ! i)) plan k = Inr (k + i)"
proof (induction plan arbitrary: i k)
  case (Cons r plan)
  show ?case
  proof (cases i)
    case (Suc j)
    with Cons.prems have "prq_path r \<noteq> prq_path (plan ! j)" by auto
    with Suc Cons.prems Cons.IH [of j "Suc k"] show ?thesis by simp
  qed simp
qed simp

text \<open>The ids of a plan are the positions of the paths it was compiled from.\<close>

lemma planned_paths:
  assumes "proto_locate (Inr locator) paths = Inr plan"
  shows "length plan = length paths" and "i < length paths \<Longrightarrow> proto_plan_field plan (paths ! i) = Inr i"
    and "i < length paths \<Longrightarrow> proto_compilePath locator (paths ! i) = Inr (plan ! i)"
proof -
  have "proto_locate_loop locator paths [] = Inr plan"
    using assms by (auto simp: proto_locate_def bindE_eq_Inr proto_error_def split: if_splits)
  from proto_locate_loop_ok [OF this] have d: "distinct (map prq_path plan)"
    and all: "list_all2 (\<lambda>path r. proto_compilePath locator path = Inr r) paths plan" by auto
  show len: "length plan = length paths" using list_all2_lengthD [OF all] by simp
  show compiled: "i < length paths \<Longrightarrow> proto_compilePath locator (paths ! i) = Inr (plan ! i)" for i
    using list_all2_nthD [OF all] by simp
  assume i: "i < length paths"
  then have "prq_path (plan ! i) = paths ! i"
    using compiled [OF i] by (cases "plan ! i") (auto simp: proto_compilePath_def bindE_eq_Inr proto_error_def split: if_splits)
  with proto_plan_field_loop_iff [OF d, of i 0] i len show "proto_plan_field plan (paths ! i) = Inr i"
    by (simp add: proto_plan_field_def)
qed

subsection \<open>Lookups in a message\<close>

text \<open>Messages as trees: the fields that are read as messages are known to be messages.\<close>

datatype proto_tree = PtItem proto_item | PtMessage u32 "proto_tree list"

fun tree_item :: "proto_tree \<Rightarrow> proto_item" where
  "tree_item (PtItem i) = i"
| "tree_item (PtMessage n ts) = PiBytes n (encode_items (map tree_item ts))"

definition level_ok :: "proto_tree list \<Rightarrow> bool" where
  "level_ok ts \<longleftrightarrow> (\<forall>t \<in> set ts. item_ok 0 (tree_item t)) \<and> length ts \<le> kMaximumFields"

fun tree_ok :: "proto_tree \<Rightarrow> bool" where
  "tree_ok (PtItem i) = item_ok 0 i"
| "tree_ok (PtMessage n ts) = (item_ok 0 (tree_item (PtMessage n ts)) \<and> level_ok ts \<and> (\<forall>t \<in> set ts. tree_ok t))"

definition trees_of :: "u32 \<Rightarrow> proto_tree list \<Rightarrow> proto_tree list" where
  "trees_of n ts = filter (\<lambda>t. item_number (tree_item t) = n) ts"

text \<open>The field at a path of numbers: the last one of its number at each level.\<close>

fun tree_lookup :: "u32 list \<Rightarrow> proto_tree list \<Rightarrow> ProtoField option" where
  "tree_lookup [] ts = None"
| "tree_lookup [n] ts = (if trees_of n ts = [] then None else Some (item_field (tree_item (last (trees_of n ts)))))"
| "tree_lookup (n # ns) ts = (if trees_of n ts = [] then None
     else case last (trees_of n ts) of PtItem i \<Rightarrow> None | PtMessage m ts' \<Rightarrow> tree_lookup ns ts')"

lemma items_of_trees: "items_of n (map tree_item ts) = map tree_item (trees_of n ts)"
  by (simp add: items_of_def trees_of_def filter_map o_def)

lemma last_tree:
  assumes "level_ok ts" "number_ok n"
  shows "pr_last (item_reader 0 (map tree_item ts)) n = (if trees_of n ts = [] then proto_error ''protobuf field is absent''
    else Inr (item_field (tree_item (last (trees_of n ts)))))"
proof -
  have "length (items_of n (map tree_item ts)) \<le> kMaximumFields"
    using assms(1) by (simp add: items_of_trees trees_of_def level_ok_def order_trans [OF length_filter_le])
  with assms have "matching (item_reader 0 (map tree_item ts)) n = Inr (map item_field (items_of n (map tree_item ts)))"
    by (intro matching_items) (auto simp: level_ok_def)
  from last_item [OF this] show ?thesis by (simp add: items_of_trees last_map)
qed

lemma locate_numbers_tree:
  "level_ok ts \<Longrightarrow> \<forall>t \<in> set ts. tree_ok t \<Longrightarrow> \<forall>n \<in> set ns. number_ok n \<Longrightarrow> tree_lookup ns ts = Some f \<Longrightarrow>
   locate_numbers (item_reader 0 (map tree_item ts)) ns = Inr f"
proof (induction ns arbitrary: ts)
  case Nil
  then show ?case by simp
next
  case (Cons n ns)
  have found: "trees_of n ts \<noteq> []" using Cons.prems(4) by (cases ns) (auto split: if_splits)
  with last_tree [OF Cons.prems(1), of n] Cons.prems(3)
  have last: "pr_last (item_reader 0 (map tree_item ts)) n = Inr (item_field (tree_item (last (trees_of n ts))))" by simp
  show ?case
  proof (cases ns)
    case Nil
    with Cons.prems(4) found last show ?thesis by simp
  next
    case more: (Cons m ns')
    from Cons.prems(4) found more obtain k ts' where sub: "last (trees_of n ts) = PtMessage k ts'"
      and lookup: "tree_lookup ns ts' = Some f"
      by (auto split: proto_tree.splits)
    have "last (trees_of n ts) \<in> set ts" using found last_in_set [of "trees_of n ts"] by (auto simp: trees_of_def)
    with Cons.prems(2) sub have "tree_ok (PtMessage k ts')" by metis
    then have "locate_numbers (item_reader 0 (map tree_item ts')) ns = Inr f"
      using Cons.prems(3) lookup by (intro Cons.IH) auto
    with last sub more show ?thesis by (simp add: bindE_def item_reader_def new_ProtoReader_def)
  qed
qed

lemma proto_path_numbers:
  "proto_path ms m cs ns \<Longrightarrow> m \<in> set ms \<Longrightarrow> proto_schema_ok ms \<Longrightarrow> \<forall>n \<in> set ns. number_ok n"
  by (induction rule: proto_path.induct) (auto simp: proto_schema_ok_def fields_ok_def field_ok_def)

end
