(* ===== verification/ParserModules.thy ===== *)
theory ParserModules
  imports ModuleRuntime ProtoLocator
begin

text \<open>
  The parser modules as a whole: the properties that the blocks of the ABI, the writers, the exports of a module,
  the host's runtime and the protobuf readers have together. \<open>Spec2Isabelle\<close> documents the model.
\<close>

section \<open>The blocks of the module ABI\<close>

text \<open>C7. What one side encodes, the other side decodes to the same value. A binding and a parse input that the host
  writes are read back by the module's readers and by the host's; what a module's scalar or object writer finishes, and
  what the host's own encoder makes, is read by the host: the scalar fields that were added, or the object type, the wire
  object and the splice of a block whose bytes a size can count. A binding is refused only for an unknown route or a size that its 32-bit offsets cannot hold.\<close>

theorem blocks_read_back:
  assumes "writeParseInputV1 input = Inr input_block" and "writeOutputDescriptorV1 descriptor = Inr output_block"
    and "sw_finish sw = Inr scalar_block" and "ow_finish w = Inr object_block" and "length object_block \<le> size_max"
  shows "readParseInput (Buffer input_block) = Inr input \<and> readParseInputV1 input_block = Inr input
    \<and> (if validRoute (ucast (bi_route info)) \<and> 64 + length (concat (binding_spans info)) \<le> uint32_max
       then \<exists>block. writeBindingInfoV1 info = Inr block \<and> readBindingInfo (Buffer block) = Inr info
         \<and> readBindingInfoV1 block = Inr info
       else \<exists>e. writeBindingInfoV1 info = Inl e)
    \<and> readOutputDescriptorV1 output_block = Inr descriptor
    \<and> readOutputDescriptorV1 scalar_block = Inr (ScalarOutput (scalar_output sw))
    \<and> (\<exists>wire. ow_writeSelected w = Inr wire \<and> readOutputDescriptorV1 object_block = Inr (ObjectOutput
         \<lparr>oo_object_type = selectedObjectType (ow_kind w), oo_splice = writer_splice w, oo_wire = wire\<rparr>))"
proof (intro conjI)
  show input: "readParseInputV1 input_block = Inr input" by (rule read_write_parse_input [OF assms(1)])
  show "readParseInput (Buffer input_block) = Inr input" by (rule same_answer_Inr [OF readParseInput_same input])
  have "\<exists>e. writeBindingInfoV1 info = Inl e" if "\<nexists>block. writeBindingInfoV1 info = Inr block"
    using that by (cases "writeBindingInfoV1 info") auto
  moreover have "readBindingInfo (Buffer block) = Inr info \<and> readBindingInfoV1 block = Inr info"
    if "writeBindingInfoV1 info = Inr block" for block
    using same_answer_Inr [OF readBindingInfo_same read_write_binding [OF that]] read_write_binding [OF that] by blast
  ultimately show "if validRoute (ucast (bi_route info)) \<and> 64 + length (concat (binding_spans info)) \<le> uint32_max
      then \<exists>block. writeBindingInfoV1 info = Inr block \<and> readBindingInfo (Buffer block) = Inr info
        \<and> readBindingInfoV1 block = Inr info
      else \<exists>e. writeBindingInfoV1 info = Inl e"
    using writeBindingInfoV1_iff [of info] unfolding if_bool_eq_conj by blast
  show "readOutputDescriptorV1 output_block = Inr descriptor" by (rule read_write_output [OF assms(2)])
  have "writeOutputDescriptorV1 (ScalarOutput (scalar_output sw)) = Inr scalar_block"
    using sw_finish_same [OF sw_finish_ok [OF assms(3)]] assms(3)
    by (auto simp: same_result_def writeOutputDescriptorV1_def split: sum.splits)
  then show "readOutputDescriptorV1 scalar_block = Inr (ScalarOutput (scalar_output sw))" by (rule read_write_output)
  show "\<exists>wire. ow_writeSelected w = Inr wire \<and> readOutputDescriptorV1 object_block = Inr (ObjectOutput
      \<lparr>oo_object_type = selectedObjectType (ow_kind w), oo_splice = writer_splice w, oo_wire = wire\<rparr>)"
    using finish_described [OF assms(4,5)] read_write_output by metis
qed

definition sample_input :: ParseInputV1 where
  "sample_input = \<lparr>pin_has_timestamp = True, pin_timestamp_ns = - 1, pin_payload = [7, 8, 9]\<rparr>"

definition sample_scalars :: ScalarOutputV1 where
  "sample_scalars = \<lparr>so_has_timestamp = False, so_timestamp_ns = 0,
     so_fields = [\<lparr>scf_name = [97], scf_value = SvBool True\<rparr>, \<lparr>scf_name = [98], scf_value = SvString [65, 66]\<rparr>]\<rparr>"

definition sample_input_block :: bytes where
  "sample_input_block = bw_u8 1 @ bw_zeros 7 @ bw_i64 (- 1) @ bw_u64 3 @ [7, 8, 9]"

lemma sample_input_block: "writeParseInputV1 sample_input = Inr sample_input_block"
  by (simp add: write_parse_input sample_input_def sample_input_block_def size_max_def)

definition sample_scalar_block :: bytes where
  "sample_scalar_block = projr (writeOutputDescriptorV1 (ScalarOutput sample_scalars))"

lemma sample_scalar_block: "writeOutputDescriptorV1 (ScalarOutput sample_scalars) = Inr sample_scalar_block"
  by (simp add: sample_scalar_block_def writeOutputDescriptorV1_def writeScalarOutputV1_def sample_scalars_def
      scalarValueSize_def checkedAdd_def refuse_def bindE_def size_max_def uint32_max_def
      kScalarOutputFixedSize_def kScalarFieldPrefixSize_def)

definition one_scalar :: ScalarWriter where
  "one_scalar = snd (sw_add_bool [97] True new_ScalarWriter)"

definition one_scalar_block :: bytes where
  "one_scalar_block = projr (sw_finish one_scalar)"

lemma one_scalar_block: "sw_finish one_scalar = Inr one_scalar_block"
proof -
  have "scalar_output one_scalar = \<lparr>so_has_timestamp = False, so_timestamp_ns = 0,
      so_fields = [\<lparr>scf_name = [97], scf_value = SvBool True\<rparr>]\<rparr>" "isOk (sw_status one_scalar)"
    by code_simp+
  then have "\<exists>block. writeScalarOutputV1 (scalar_output one_scalar) = Inr block"
    by (simp add: writeScalarOutputV1_def scalarValueSize_def checkedAdd_def refuse_def bindE_def size_max_def uint32_max_def
        kScalarOutputFixedSize_def kScalarFieldPrefixSize_def)
  then show ?thesis
    using sw_finish_same [OF \<open>isOk (sw_status one_scalar)\<close>] by (auto simp: same_result_def one_scalar_block_def split: sum.splits)
qed

definition spliced_frame :: ObjectWriter where
  "spliced_frame = snd (vfb_setDataFromInput \<lparr>isr_offset = 1, isr_length = 2\<rparr> (snd (vfb_new (new_ObjectWriter (Buffer [7, 8, 9])))))"

definition frame_block :: bytes where
  "frame_block = projr (ow_finish spliced_frame)"

lemma frame_block: "ow_finish spliced_frame = Inr frame_block \<and> length frame_block < 100"
  by code_simp

lemma blocks_read_back_witness:
  "readParseInput (Buffer sample_input_block) = Inr sample_input
   \<and> readOutputDescriptorV1 one_scalar_block = Inr (ScalarOutput (scalar_output one_scalar))
   \<and> (\<exists>wire. readOutputDescriptorV1 frame_block = Inr (ObjectOutput
     \<lparr>oo_object_type = selectedObjectType WkVideoFrame, oo_splice = writer_splice spliced_frame, oo_wire = wire\<rparr>))"
proof -
  have "ow_kind spliced_frame = WkVideoFrame" by code_simp
  moreover have "length frame_block \<le> size_max" using frame_block by (simp add: size_max_def)
  ultimately show ?thesis
    using blocks_read_back [OF sample_input_block sample_scalar_block one_scalar_block conjunct1 [OF frame_block]] by auto
qed

definition sample_binding :: BindingInfoV1 where
  "sample_binding = \<lparr>bi_route = kScalar, bi_claim_index = 0, bi_expected_object_type = 0, bi_encoding = [106],
     bi_type_name = [84], bi_schema = [1, 2], bi_claim_id = [99], bi_config_json = [123, 125], bi_schema_digest = []\<rparr>"

definition sample_binding_block :: bytes where
  "sample_binding_block = projr (writeBindingInfoV1 sample_binding)"

lemma sample_binding_block: "writeBindingInfoV1 sample_binding = Inr sample_binding_block"
proof -
  have "\<exists>block. writeBindingInfoV1 sample_binding = Inr block"
    unfolding writeBindingInfoV1_iff
    by (simp add: sample_binding_def binding_spans_def validRoute_def kScalar_def uint32_max_def)
  then show ?thesis by (auto simp: sample_binding_block_def)
qed

text \<open>C8. The readers inside a module, which were written without the C++ library, and those of the host accept
  the same blocks and read the same values.\<close>

theorem module_reads_as_host:
  "same_answer (readBindingInfo (Buffer block)) (readBindingInfoV1 block)
    \<and> same_answer (readParseInput (Buffer block)) (readParseInputV1 block)"
  by (rule conjI [OF readBindingInfo_same readParseInput_same])

section \<open>Object and scalar writers\<close>

text \<open>C9. Whatever builder methods a parser calls, a splice it registers lies inside the payload, and after the
  first error no later call changes the status and the writer produces no output.\<close>

theorem writer_splice_and_errors:
  assumes "writer_reachable payload ow" and "builder_method call"
  shows "(if spl_has_value (ow_splice ow)
       then unat (isr_offset (spl_reference (ow_splice ow))) + unat (isr_length (spl_reference (ow_splice ow)))
         \<le> length (buffer_bytes payload) else True)
    \<and> (if isOk (ow_status ow) then True
       else ow_status (snd (call ow)) = ow_status ow \<and> ow_finish (snd (call ow)) = Inl (ow_status ow))"
proof -
  have "writer_ok payload ow" by (rule writer_reachable_ok [OF assms(1)])
  moreover have "keeps_failure call" using method_keeps [OF assms(2)] by blast
  ultimately show ?thesis by (auto simp: writer_ok_def keeps_failure_def ow_finish_def)
qed

lemma spliced_frame_reachable: "writer_reachable (Buffer [7, 8, 9]) spliced_frame"
  unfolding spliced_frame_def by (intro reach_call reach_new builder_method.intros)

definition failed_writer :: ObjectWriter where
  "failed_writer = snd (vfb_setDataFromInput \<lparr>isr_offset = 2, isr_length = 2\<rparr> (snd (vfb_new (new_ObjectWriter (Buffer [7, 8, 9])))))"

lemma failed_writer_reachable: "writer_reachable (Buffer [7, 8, 9]) failed_writer"
  unfolding failed_writer_def by (intro reach_call reach_new builder_method.intros)

lemma writer_splice_and_errors_witness:
  "ow_finish (snd (vfb_setFormat [104] failed_writer)) = Inl (ow_status failed_writer) \<and> \<not> isOk (ow_status failed_writer)"
proof -
  have "\<not> isOk (ow_status failed_writer)" by code_simp
  with writer_splice_and_errors [OF failed_writer_reachable vfb_setFormat_method [of "[104]"]] show ?thesis by simp
qed

text \<open>C10. The scalar writer of a module encodes byte for byte what the host's encoder makes of the same fields, and
  fails only when that encoder fails.\<close>

theorem scalar_writer_as_host:
  assumes "isOk (sw_status sw)"
  shows "same_result (sw_finish sw) (writeOutputDescriptorV1 (ScalarOutput (scalar_output sw)))"
  using sw_finish_same [OF assms] by (simp add: writeOutputDescriptorV1_def)

lemma scalar_writer_as_host_witness: "same_result (sw_finish one_scalar) (writeOutputDescriptorV1 (ScalarOutput (scalar_output one_scalar)))"
proof (rule scalar_writer_as_host)
  show "isOk (sw_status one_scalar)" by code_simp
qed

section \<open>From a parser to the host\<close>

text \<open>C11. An object that a parser wrote arrives in the host as it was meant. In every state that the owners of a
  host and a module can reach, when the parser fills the writer for the object type that was bound, by builder
  calls, and payload and output fit their blocks, the host's parse returns that object: the wire bytes decode to it, and a range of the payload that
  the parser only pointed at takes the place of the data, as if the parser had copied it. The one exception is a grid
  map whose layout the host's `validateLayout` does not accept together with its data, inline or spliced: the writer
  finishes it without that check, and the host answers it with a contract violation.\<close>

theorem message_delivered:
  assumes "owners_reachable nan_cast (module_exports parser n) start (owners, ms)"
    and "k < length owners" and "ni = owners ! k" and "ni_valid ni" and "ni_bound ni" and "ni_bound_route ni \<noteq> kScalar"
    and "instance_of ms (ni_token ni) = Some i" and "length (pin_payload input) + 24 \<le> size_max"
    and "pa_parseObject parser (pin_payload input) (pin_has_timestamp input) (pin_timestamp_ns input)
      (new_ObjectWriter (Buffer (pin_payload input))) (in_parser i) = (Some StOk, w, p)"
    and "writer_reachable (Buffer (pin_payload input)) w" and "ni_expected_object_type ni = selectedObjectType (ow_kind w)"
    and "ow_finish w = Inr block" and "length block \<le> size_max"
  shows "\<exists>wire. ow_writeSelected w = Inr wire \<and>
    (if ow_kind w = WkGridMap \<and>
       (let grid = written_GridMap (ow_grid_map (inlined (pin_payload input) w)) False
        in validateLayout grid (gm_data grid \<noteq> [] \<or> spl_has_value (ow_splice w)) \<noteq> Inr ())
     then \<exists>e. fst (instance_parse nan_cast (module_exports parser n) input ni ms) = Inr (contractViolation 0 e)
     else fst (instance_parse nan_cast (module_exports parser n) input ni ms) = Inr (delivered nan_cast (pin_payload input) w wire))"
proof -
  have "owners_ok (token_facts ms) owners" using exports.reachable_ok [OF assms(1)] by simp
  then have "owner_agrees (token_facts ms (ni_token ni)) ni" using owners_ok_agrees assms(2-4) by blast
  from object_answered [OF this assms(4,5,7,8,6,11,9,10,12,13), of nan_cast n] show ?thesis
    unfolding delivery_ok_def by (auto simp: Let_def split: if_splits)
qed

text \<open>A parser that hands a part of its payload on as a video frame.\<close>

definition frame_parser :: "nat parser_class" where
  "frame_parser = \<lparr>pa_new = Some 0, pa_bind = (\<lambda>info p. (Some StOk, p)),
     pa_parseObject = (\<lambda>payload has_timestamp timestamp w p.
       (Some StOk, snd (vfb_setDataFromInput \<lparr>isr_offset = 1, isr_length = 2\<rparr> (snd (vfb_new w))), p + 1)),
     pa_parseScalars = (\<lambda>payload has_timestamp timestamp w p. (Some StOk, snd (sw_add_bool [97] True w), p + 1))\<rparr>"

definition frame_binding :: "WriterKind \<Rightarrow> BindingInfoV1" where
  "frame_binding kind = sample_binding\<lparr>bi_route := kObject, bi_expected_object_type := selectedObjectType kind\<rparr>"

lemma frame_binding_parts: "bi_route (frame_binding kind) = kObject" "bi_claim_index (frame_binding kind) = 0"
  "bi_expected_object_type (frame_binding kind) = selectedObjectType kind"
  by (simp_all add: frame_binding_def sample_binding_def)

definition frame_token :: u64 where "frame_token = 0x100000001"

definition frame_module :: "nat Instance \<Rightarrow> nat module_state" where
  "frame_module i = \<lparr>ms_slots = [\<lparr>sl_instance = Some i, sl_generation = 1\<rparr>], ms_capacity = 8,
     ms_creation_error = [], ms_bad_token_error = []\<rparr>"

definition frame_instance :: "nat Instance" where
  "frame_instance = (new_Instance 0 0)\<lparr>in_bound := True, in_route := kObject\<rparr>"

definition frame_owner :: NativeParserModuleInstance where
  "frame_owner = empty_instance\<lparr>ni_module := True, ni_token := frame_token\<rparr>"

definition bound_frame_owner :: "WriterKind \<Rightarrow> NativeParserModuleInstance" where
  "bound_frame_owner kind = frame_owner\<lparr>ni_bound_route := kObject, ni_expected_object_type := selectedObjectType kind,
     ni_bound := True\<rparr>"

lemmas frame_owner_defs = bound_frame_owner_def frame_owner_def empty_instance_def ni_valid_def

lemma frame_token: "tokenFor 0 1 = frame_token" "frame_token \<noteq> 0"
  "findSlotLocked (ms_slots (frame_module i)) frame_token = Some 0" "slot_instance 0 i' (frame_module i) = frame_module i'"
  by (simp_all add: tokenFor_def frame_token_def findSlotLocked_def frame_module_def slot_instance_def)

lemma instance_of_frame: "instance_of (frame_module i) frame_token = Some i"
  by (simp add: instance_of_def frame_token) (simp add: frame_module_def)

lemma frame_created: "instance_create (module_exports frame_parser 1) 0 new_module = (Inr frame_owner, frame_module (new_Instance 0 0))"
proof -
  have "claim_slot new_module = Some (0, (new_module :: nat module_state)\<lparr>ms_slots := [fresh_slot], ms_capacity := 8\<rparr>)"
    by (simp add: claim_slot_def new_module_def grow_def uint32_max_def)
  then have "module_create frame_parser 1 0 new_module = (frame_token, frame_module (new_Instance 0 0))"
    by (simp add: module_create_def frame_parser_def fresh_slot_def frame_token uint32_max_def)
      (simp add: slot_instance_def new_module_def frame_module_def)
  then show ?thesis
    by (simp add: instance_create_def frame_token frame_owner_def empty_instance_def)
qed

definition frame_binding_block :: "WriterKind \<Rightarrow> bytes" where
  "frame_binding_block kind = projr (writeBindingInfoV1 (frame_binding kind))"

lemma frame_binding_block: "writeBindingInfoV1 (frame_binding kind) = Inr (frame_binding_block kind)"
proof -
  have "\<exists>block. writeBindingInfoV1 (frame_binding kind) = Inr block"
    unfolding writeBindingInfoV1_iff
    by (simp add: frame_binding_def sample_binding_def binding_spans_def validRoute_def kObject_def uint32_max_def)
  then show ?thesis by (auto simp: frame_binding_block_def)
qed

lemma frame_bound:
  assumes "i = new_Instance 0 0 \<or> i = frame_instance" and "ni = frame_owner \<or> ni = bound_frame_owner before"
  shows "instance_bind (module_exports frame_parser 1) (frame_binding kind) ni (frame_module i) =
    (Inr \<lparr>br_outcome = BoAccept, br_fault = FkNone, br_result_code = 0, br_message = []\<rparr>,
     bound_frame_owner kind, frame_module frame_instance)"
proof -
  have "readBindingInfo (Buffer (frame_binding_block kind)) = Inr (frame_binding kind)"
    using readBindingInfo_same [of "frame_binding_block kind"] read_write_binding [OF frame_binding_block]
    by (auto simp: same_answer_def split: sum.splits)
  then have "bind_instance frame_parser (Buffer (frame_binding_block kind)) i = (kModuleOk, frame_instance)"
    using assms(1) by (auto simp: bind_instance_def frame_binding_parts new_Instance_def
        frame_parser_def isOk_def frame_instance_def Let_def)
  then have bind: "module_bind frame_parser frame_token (Buffer (frame_binding_block kind)) (frame_module i)
      = (kModuleOk, frame_module frame_instance)"
    by (simp add: module_bind_def frame_token) (simp add: frame_module_def)
  have "ni_valid ni" "ni_token ni = frame_token" "ni_claim_index ni = 0"
    using assms(2) by (auto simp: frame_owner_defs frame_token)
  moreover have "ni\<lparr>ni_bound_route := kObject, ni_expected_object_type := selectedObjectType kind, ni_bound := True\<rparr>
      = bound_frame_owner kind"
    using assms(2) by (auto simp: bound_frame_owner_def)
  ultimately show ?thesis
    by (simp add: instance_bind_def frame_binding_block bind kModuleOk_def bind_outcome_def Let_def frame_binding_parts)
qed

lemma frame_reachable:
  "owners_reachable nan_cast (module_exports frame_parser 1) new_module ([bound_frame_owner kind], frame_module frame_instance)"
proof -
  have "owners_step nan_cast (module_exports frame_parser 1) ([], new_module) ([frame_owner], frame_module (new_Instance 0 0))"
    using owner_created [OF frame_created, of nan_cast "[]"] by simp
  moreover have "owners_step nan_cast (module_exports frame_parser 1) ([frame_owner], frame_module (new_Instance 0 0))
      ([bound_frame_owner kind], frame_module frame_instance)"
    using owner_bound [of 0 "[frame_owner]" "module_exports frame_parser 1" "frame_binding kind"] frame_bound by simp
  ultimately show ?thesis unfolding owners_reachable_def by (meson rtranclp.rtrancl_into_rtrancl rtranclp.rtrancl_refl)
qed

lemma message_delivered_witness:
  "\<exists>wire. ow_writeSelected spliced_frame = Inr wire \<and>
    fst (instance_parse (\<lambda>_. 0) (module_exports frame_parser 1) sample_input (bound_frame_owner WkVideoFrame) (frame_module frame_instance))
      = Inr (delivered (\<lambda>_. 0) [7, 8, 9] spliced_frame wire)"
proof -
  have "ni_valid (bound_frame_owner WkVideoFrame)" "ni_bound (bound_frame_owner WkVideoFrame)" "ni_token (bound_frame_owner WkVideoFrame) = frame_token"
    "ni_bound_route (bound_frame_owner WkVideoFrame) \<noteq> kScalar" "ni_expected_object_type (bound_frame_owner WkVideoFrame) = selectedObjectType WkVideoFrame"
    by (simp_all add: bound_frame_owner_def frame_owner_def empty_instance_def ni_valid_def frame_token kObject_def kScalar_def)
  moreover have "pa_parseObject frame_parser [7, 8, 9] t s (new_ObjectWriter (Buffer [7, 8, 9])) (in_parser frame_instance)
      = (Some StOk, spliced_frame, 1)" for t s
    by (simp add: frame_parser_def spliced_frame_def frame_instance_def new_Instance_def)
  moreover have "ow_kind spliced_frame = WkVideoFrame" by code_simp
  ultimately show ?thesis
    using message_delivered [OF frame_reachable [of "\<lambda>_. 0" WkVideoFrame], of 0 "bound_frame_owner WkVideoFrame" frame_instance sample_input spliced_frame 1 frame_block]
      frame_block spliced_frame_reachable instance_of_frame [of frame_instance]
    by (simp add: sample_input_def size_max_def)
qed

section \<open>The instances of a module\<close>

text \<open>C12. No history of calls, with any tokens and any blocks, makes a module hand out the same token twice, even
  though destroyed slots are used again.\<close>

theorem tokens_never_reused:
  "distinct (fst (module_calls parser n calls ms))"
  by (rule calls_distinct)

text \<open>C13. A token that was destroyed stays dead: after any further calls, which may fill its slot again, bind and
  parse answer \<open>bad token\<close> to it, and it is not handed out again.\<close>

theorem destroyed_token_rejected:
  assumes "instance_of ms token = Some i"
    and "after = snd (module_calls parser n calls (module_destroy token ms))"
  shows "fst (module_bind parser token view after) = kModuleBadToken
    \<and> fst (module_parse parser token view pointers after) = (kModuleBadToken, None)
    \<and> token \<notin> set (fst (module_calls parser n calls (module_destroy token ms)))"
proof -
  have dead: "stale (ms_slots (module_destroy token ms)) token" by (rule destroy_stale [OF assms(1)])
  have "findSlotLocked (ms_slots after) token = None"
    unfolding assms(2) by (rule stale_not_found [OF stale_calls [OF dead]])
  moreover have "issued (module_destroy token ms) token" by (simp add: issued_def dead)
  ultimately show ?thesis
    using issued_calls [of "module_destroy token ms" token] by (simp add: module_bind_def module_parse_def)
qed

lemma destroyed_token_rejected_witness:
  "fst (module_bind frame_parser frame_token (Buffer []) (snd (module_calls frame_parser 1 [McCreate 0, McDestroy 7]
      (module_destroy frame_token (frame_module frame_instance))))) = kModuleBadToken"
  using destroyed_token_rejected [OF instance_of_frame [of frame_instance] refl] by blast

text \<open>C14. Instances are isolated: calls with other tokens, valid or not, leave an instance with its parser, its
  binding, its last output and its last error as they are.\<close>

theorem instances_isolated:
  assumes "instance_of ms token = Some i" and "Some token \<notin> set (map call_token calls)"
  shows "instance_of (snd (module_calls parser n calls ms)) token = Some i"
  by (rule isolated_calls [OF assms(1)]) (use assms(2) in force)

lemma instances_isolated_witness:
  "instance_of (snd (module_calls frame_parser 1 [McCreate 0, McParse 7 (Buffer []) True, McDestroy 0x200000001]
     (frame_module frame_instance))) frame_token = Some frame_instance"
  using instances_isolated [OF instance_of_frame [of frame_instance],
      of "[McCreate 0, McParse 7 (Buffer []) True, McDestroy 0x200000001]" frame_parser 1]
  by (simp add: frame_token_def)

section \<open>The host's owners of instances\<close>

text \<open>C15. In every state that the owners of a host and a module can reach, through any creates, binds, parses,
  resets and moves, each valid owner has a live instance of its own, with the claim and the route that the owner
  recorded, and no two owners share one.\<close>

theorem owners_agree_with_module:
  assumes "owners_reachable nan_cast (module_exports parser n) start (owners, ms)"
    and "j < length owners" and "k < length owners" and "ni_valid (owners ! j)"
  shows "(\<exists>i. instance_of ms (ni_token (owners ! j)) = Some i \<and> in_claim_index i = ni_claim_index (owners ! j)
      \<and> (if ni_bound (owners ! j) then in_bound i \<and> (in_route i = kObject \<longleftrightarrow> ni_bound_route (owners ! j) = kObject) else True))
    \<and> (ni_token (owners ! j) = ni_token (owners ! k) \<longleftrightarrow> j = k)"
proof -
  have ok: "owners_ok (token_facts ms) owners" using exports.reachable_ok [OF assms(1)] by simp
  obtain r where r: "token_facts ms (ni_token (owners ! j)) = Some (ni_claim_index (owners ! j), r)"
      "ni_bound (owners ! j) \<Longrightarrow> r = Some (ni_bound_route (owners ! j))"
    using owners_ok_agrees [OF ok assms(2,4)] unfolding owner_agrees_def by blast
  from r(1) obtain i where "instance_of ms (ni_token (owners ! j)) = Some i" "in_claim_index i = ni_claim_index (owners ! j)"
    "r = (if in_bound i then Some (if in_route i = kObject then kObject else kScalar) else None)"
    by (auto simp: token_facts_iff instance_facts_def)
  with r(2) show ?thesis
    using owners_ok_unique [OF ok assms(2,3,4)] by (auto simp: kObject_def kScalar_def split: if_splits)
qed

lemma bound_frame_owner_valid: "ni_valid (bound_frame_owner kind)"
  by (simp add: bound_frame_owner_def frame_owner_def empty_instance_def ni_valid_def frame_token)

lemma owners_agree_with_module_witness:
  "\<exists>i. instance_of (frame_module frame_instance) frame_token = Some i \<and> in_bound i"
  using owners_agree_with_module [OF frame_reachable [of "\<lambda>_. 0" WkVideoFrame], of 0 0] bound_frame_owner_valid
  by (simp add: frame_owner_defs) blast

text \<open>C16. A module that keeps the contract is not struck: in every reachable state, the host never reports a contract
  violation for a bind of one of its owners, the first one included, and for a parse only when the output has more bytes
  than an address can count, or is an object that does not match the binding or does not decode, and then with that
  reason as the message.\<close>

theorem conforming_module_not_blamed:
  assumes "owners_reachable nan_cast (module_exports parser n) start (owners, ms)"
    and "k < length owners" and "ni_valid (owners ! k)"
  shows "(case instance_bind (module_exports parser n) info (owners ! k) ms of (Inr r, _) \<Rightarrow> br_fault r = FkNone | _ \<Rightarrow> True)
    \<and> (case instance_parse nan_cast (module_exports parser n) input (owners ! k) ms of
        (Inr p, ms2) \<Rightarrow> if ppr_fault p = FkContractViolation
          then \<exists>block out. module_parse parser (ni_token (owners ! k)) (Buffer block) True ms = ((0, Some out), ms2)
            \<and> (length out > size_max
              \<or> (\<exists>d e. readOutputDescriptorV1 out = Inr (ObjectOutput d) \<and> ni_bound_route (owners ! k) \<noteq> kScalar
                \<and> ownObjectOutput nan_cast d (pin_payload input) (ni_expected_object_type (owners ! k)) = Inl e
                \<and> ppr_message p = e))
          else True
      | _ \<Rightarrow> True)"
proof (rule conjI)
  have "owners_ok (token_facts ms) owners" using exports.reachable_ok [OF assms(1)] by simp
  then have agrees: "owner_agrees (token_facts ms (ni_token (owners ! k))) (owners ! k)"
    using owners_ok_agrees assms(2,3) by blast
  show "case instance_bind (module_exports parser n) info (owners ! k) ms of (Inr r, _) \<Rightarrow> br_fault r = FkNone | _ \<Rightarrow> True"
    using exports.bind_blameless [OF agrees] by (auto split: prod.splits sum.splits)
  have "\<exists>block out. module_parse parser (ni_token (owners ! k)) (Buffer block) True ms = ((0, Some out), ms2)
      \<and> (length out > size_max
        \<or> (\<exists>d e. readOutputDescriptorV1 out = Inr (ObjectOutput d) \<and> ni_bound_route (owners ! k) \<noteq> kScalar
          \<and> ownObjectOutput nan_cast d (pin_payload input) (ni_expected_object_type (owners ! k)) = Inl e \<and> ppr_message p = e))"
    if "instance_parse nan_cast (module_exports parser n) input (owners ! k) ms = (Inr p, ms2)" "ppr_fault p = FkContractViolation" for p ms2
    by (rule exports.parse_blame [OF agrees that]; force)
  then show "case instance_parse nan_cast (module_exports parser n) input (owners ! k) ms of
        (Inr p, ms2) \<Rightarrow> if ppr_fault p = FkContractViolation
          then \<exists>block out. module_parse parser (ni_token (owners ! k)) (Buffer block) True ms = ((0, Some out), ms2)
            \<and> (length out > size_max
              \<or> (\<exists>d e. readOutputDescriptorV1 out = Inr (ObjectOutput d) \<and> ni_bound_route (owners ! k) \<noteq> kScalar
                \<and> ownObjectOutput nan_cast d (pin_payload input) (ni_expected_object_type (owners ! k)) = Inl e
                \<and> ppr_message p = e))
          else True
      | _ \<Rightarrow> True"
    by (simp split: prod.split sum.split)
qed

lemma conforming_module_not_blamed_witness:
  "\<exists>r p out ms2. fst (instance_bind (module_exports frame_parser 1) (frame_binding WkImage) frame_owner
       (frame_module (new_Instance 0 0))) = Inr r \<and> br_fault r = FkNone
   \<and> fst (instance_parse (\<lambda>_. 0) (module_exports frame_parser 1) sample_input (bound_frame_owner WkImage)
       (frame_module frame_instance)) = Inr p
   \<and> (\<exists>block. module_parse frame_parser frame_token (Buffer block) True (frame_module frame_instance) = ((0, Some out), ms2))"
proof -
  let ?ni = "bound_frame_owner WkImage" and ?ms = "frame_module frame_instance"
    and ?abi = "module_exports frame_parser 1"
  have len: "length frame_block \<le> size_max" using frame_block by (simp add: size_max_def)
  have kind: "ow_kind spliced_frame = WkVideoFrame" by code_simp
  obtain wire where wire: "ow_writeSelected spliced_frame = Inr wire"
    and described: "writeOutputDescriptorV1 (ObjectOutput \<lparr>oo_object_type = selectedObjectType (ow_kind spliced_frame),
       oo_splice = writer_splice spliced_frame, oo_wire = wire\<rparr>) = Inr frame_block"
    using finish_described [OF conjunct1 [OF frame_block] len] by metis
  note read = read_write_output [OF described]
  have "parse_route frame_parser (in_route frame_instance) sample_input (in_parser frame_instance) =
      (Some StOk, Inr frame_block, 1)"
    using frame_block by (simp add: parse_route_def frame_instance_def new_Instance_def frame_parser_def sample_input_def
        spliced_frame_def)
  moreover have "owner_agrees (token_facts ?ms (ni_token ?ni)) ?ni"
    using owners_ok_agrees [OF exports.reachable_ok [OF frame_reachable [of "\<lambda>_. 0" WkImage]], of 0] bound_frame_owner_valid by simp
  ultimately have parse: "fst (instance_parse (\<lambda>_. 0) ?abi sample_input ?ni ?ms)
      = Inr (consume_output (\<lambda>_. 0) ?ni (pin_payload sample_input) 0 (Some frame_block))"
    using instance_of_frame [of frame_instance]
    by (intro parse_through) (simp_all add: frame_owner_defs frame_token sample_input_def size_max_def)
  obtain e where own: "ownObjectOutput (\<lambda>_. 0) \<lparr>oo_object_type = selectedObjectType WkVideoFrame,
       oo_splice = writer_splice spliced_frame, oo_wire = wire\<rparr> [7, 8, 9] (selectedObjectType WkImage) = Inl e"
    by (simp add: ownObjectOutput_def)
  have "ppr_fault (consume_output (\<lambda>_. 0) ?ni (pin_payload sample_input) 0 (Some frame_block)) = FkContractViolation"
    using len read own by (auto simp: consume_output_def frame_owner_defs kObject_def kScalar_def contractViolation_def kind
        sample_input_def)
  moreover obtain ms2 where "instance_parse (\<lambda>_. 0) ?abi sample_input ?ni ?ms
      = (Inr (consume_output (\<lambda>_. 0) ?ni (pin_payload sample_input) 0 (Some frame_block)), ms2)"
    using parse by (cases "instance_parse (\<lambda>_. 0) ?abi sample_input ?ni ?ms") simp
  ultimately have blame: "\<exists>block out. module_parse frame_parser (ni_token ?ni) (Buffer block) True ?ms = ((0, Some out), ms2)"
    using conforming_module_not_blamed [OF frame_reachable [of "\<lambda>_. 0" WkImage], of 0 "frame_binding WkImage" sample_input]
      bound_frame_owner_valid [of WkImage] by auto
  have "owners_step (\<lambda>_. 0) ?abi ([], new_module) ([frame_owner], frame_module (new_Instance 0 0))"
    using owner_created [OF frame_created, of "\<lambda>_. 0" "[]"] by simp
  then have "owners_reachable (\<lambda>_. 0) ?abi new_module ([frame_owner], frame_module (new_Instance 0 0))"
    unfolding owners_reachable_def by (rule r_into_rtranclp)
  from conforming_module_not_blamed [OF this, of 0 "frame_binding WkImage"] frame_bound [of "new_Instance 0 0" frame_owner WkImage WkImage]
  show ?thesis using blame parse by (auto simp: frame_owner_defs frame_token)
qed

text \<open>C17. The strike tracker refines a count: for every history of faults and recreations of many claims, what it
  holds for a claim is a function of the number of strikes that count (contract violations of that claim while it is
  active, six at most) and of whether the one quarantine was lifted: three strikes quarantine the claim, a recreation
  lifts that once, and the sixth disables it for good.\<close>

theorem strikes_refine_count:
  "tracker_state key (fold tracker_step events Map.empty) = strike_state_of (fold (count_step key) events (0, False))"
  by (rule tracker_counts)

section \<open>Protobuf payloads\<close>

text \<open>Reading small payloads by rewriting.\<close>

lemmas pr_eval = matching_def matching_loop.simps nextField_def pr_readVarint_def bindE_def Let_def proto_value_def
  wire_type_of_def push_field_def kMaximumFields_def max_field_number_def new_ProtoReader_def

text \<open>C18. The varint reader of the modules and the one of the host's codecs, written separately, accept the same
  bytes with the same value and the same rest.\<close>

theorem module_varints_as_host:
  "pr_readVarint r = Inr (v, rest) \<longleftrightarrow> readVarint r = (Some v, rest)"
  by (rule pr_readVarint_agrees)

text \<open>C19. From a message of any items, with groups nested within the limit, the reader returns exactly the items with
  the number that was asked for, in order, and \<open>last\<close> the last of them; the items with other numbers, whole groups
  included, are passed over. With more than 65536 of them the message is refused.\<close>

theorem proto_fields_of_message:
  assumes "number_ok n" and "list_all (item_ok depth) items"
  shows "if length (items_of n items) \<le> kMaximumFields
    then matching (item_reader depth items) n = Inr (map item_field (items_of n items))
      \<and> pr_last (item_reader depth items) n = (if items_of n items = [] then proto_error ''protobuf field is absent''
          else Inr (item_field (last (items_of n items))))
    else \<exists>e. matching_loop n depth (encode_items items) [] = Inl e"
  using matching_items [OF assms(1), of items depth] last_item [of depth items n]
    matching_loop_full [of items depth "[]" n] assms(2) by (simp add: list_all_iff)

lemma proto_fields_of_message_witness:
  "matching (item_reader 0 [PiVarint 1 5, PiGroup 2 [PiVarint 1 9], PiBytes 1 [7]]) 1
     = Inr [item_field (PiVarint 1 5), item_field (PiBytes 1 [7])]"
proof -
  have "number_ok 1" "list_all (item_ok 0) [PiVarint 1 5, PiGroup 2 [PiVarint 1 9], PiBytes 1 [7]]"
    by (simp_all add: number_ok_def fits_def)
  from proto_fields_of_message [OF this] show ?thesis by (simp add: items_of_def kMaximumFields_def)
qed

text \<open>C20. A repeated field reads the same from every mixture of single and packed occurrences: the values in order,
  for varints and for both fixed widths.\<close>

theorem repeated_any_mixture:
  assumes "number_ok n" and "list_all (item_ok depth) items" and "length (items_of n items) \<le> kMaximumFields"
  shows "(if items_of n items = map (varint_item n) varints
       then repeatedVarints (item_reader depth items) n = Inr (concat (map run_values varints)) else True)
    \<and> (if items_of n items = map (fixed64_item n) fixed64s
       then repeatedFixed64 (item_reader depth items) n = Inr (concat (map run_values fixed64s)) else True)
    \<and> (if items_of n items = map (fixed32_item n) fixed32s
       then repeatedFixed32 (item_reader depth items) n = Inr (concat (map run_values fixed32s)) else True)"
proof -
  have m: "matching (item_reader depth items) n = Inr (map item_field (items_of n items))"
    using assms by (intro matching_items) (simp_all add: list_all_iff)
  have "ucast (ucast w :: u64) = w" for w :: u32 by (rule bit_word_eqI) (simp add: bit_simps)
  then have narrow: "map (ucast \<circ> (ucast :: u32 \<Rightarrow> u64)) ws = ws" for ws by (simp add: map_idI)
  have "repeatedVarints (item_reader depth items) n = Inr (concat (map run_values varints))"
    if "items_of n items = map (varint_item n) varints"
    using m repeated_varints_runs [of n varints "[]"] by (simp add: that repeatedVarints_def bindE_def)
  moreover have "repeatedFixed64 (item_reader depth items) n = Inr (concat (map run_values fixed64s))"
    if "items_of n items = map (fixed64_item n) fixed64s"
    using m repeated_fixed64_runs [of n fixed64s "[]"] by (simp add: that repeatedFixed64_def repeatedFixed_def bindE_def)
  moreover have "repeatedFixed32 (item_reader depth items) n = Inr (concat (map run_values fixed32s))"
    if "items_of n items = map (fixed32_item n) fixed32s"
    using m repeated_fixed32_runs [of n fixed32s "[]"]
    by (simp add: that repeatedFixed32_def repeatedFixed_def bindE_def narrow)
  ultimately show ?thesis by simp
qed

lemma repeated_any_mixture_witness:
  "repeatedVarints (item_reader 0 [varint_item 3 (Single 5), PiFixed32 4 0, varint_item 3 (Packed [300, 7])]) 3 = Inr [5, 300, 7]"
proof -
  have "number_ok 3" "list_all (item_ok 0) [varint_item 3 (Single 5), PiFixed32 4 0, varint_item 3 (Packed [300, 7])]"
    "length (items_of 3 [varint_item 3 (Single 5), PiFixed32 4 0, varint_item 3 (Packed [300, 7])]) \<le> kMaximumFields"
    by (simp_all add: number_ok_def fits_def items_of_def kMaximumFields_def appendVarint.simps)
  from repeated_any_mixture [OF this, of "[Single 5, Packed [300, 7]]" "[]" "[]"]
  show ?thesis by (simp add: items_of_def)
qed

section \<open>Plans of protobuf fields\<close>

text \<open>C21. The compiler of field paths accepts exactly the paths of the schema: from a descriptor set that was
  accepted, a path compiles to the numbers of a chain of fields from the root message, each but the last a singular
  message field whose type is the next message, and to nothing else; the depth is limited to 64.\<close>

theorem proto_paths_compile:
  assumes "new_ProtoFieldLocator descriptor_set root_type = Inr locator"
  shows "proto_compilePath locator path = Inr request \<longleftrightarrow>
    prq_path request = path \<and> length (prq_numbers request) \<le> 64 \<and>
    proto_path (pl_messages locator) (pl_messages locator ! pl_root_index locator) (components path) (prq_numbers request)"
  by (rule compilePath_iff [OF new_locator_ok [OF assms]])

text \<open>A schema with one message \<open>M\<close> that has a field \<open>x\<close>, number 1, of type \<open>uint32\<close>.\<close>

definition sample_set :: bytes where
  "sample_set = [10, 16, 34, 14, 10, 1, 77, 18, 9, 10, 1, 120, 24, 1, 32, 1, 40, 13]"

definition sample_locator :: ProtoFieldLocator where
  "sample_locator = \<lparr>pl_messages = [\<lparr>psm_full_name = [77], psm_fields = [\<lparr>psf_name = [120], psf_number = 1, psf_type = 13,
     psf_type_name = [], psf_repeated = False\<rparr>], psm_top_level = True\<rparr>], pl_root_index = 0\<rparr>"

lemma parse_sample_field: "parseField [10, 1, 120, 24, 1, 32, 1, 40, 13] = Inr \<lparr>psf_name = [120], psf_number = 1, psf_type = 13, psf_type_name = [], psf_repeated = False\<rparr>"
  by (simp add: parseField_def name_of_def pr_varint_def pr_last_def pr_eval)

lemma parse_sample_message: "parseMessage 1 [10, 1, 77, 18, 9, 10, 1, 120, 24, 1, 32, 1, 40, 13] [] True [] = Inr (pl_messages sample_locator)"
  by (subst parseMessage.simps) (simp add: declare_message_def name_of_def pr_last_def pr_eval parse_sample_field order_fields_def
    full_name_of_def kMaxRecursionDepth_def sample_locator_def)

lemma sample_locator: "new_ProtoFieldLocator (Buffer sample_set) [] = Inr sample_locator"
  by (simp add: new_ProtoFieldLocator_def sample_set_def pr_eval parseFile_def parse_sample_message [unfolded One_nat_def]) (simp add: sample_locator_def)

lemma compile_sample: "proto_compilePath sample_locator [120] = Inr \<lparr>prq_path = [120], prq_numbers = [1]\<rparr>"
  by (simp add: proto_compilePath_def compile_path_loop.simps sample_locator_def dot_char_def bindE_def)

lemma proto_paths_compile_witness:
  "length (prq_numbers \<lparr>prq_path = [120], prq_numbers = [1]\<rparr>) \<le> 64
   \<and> proto_path (pl_messages sample_locator) (pl_messages sample_locator ! pl_root_index sample_locator) (components [120]) [1]"
proof -
  show ?thesis
    using proto_paths_compile [OF sample_locator, of "[120]" "\<lparr>prq_path = [120], prq_numbers = [1]\<rparr>"] compile_sample by simp
qed

text \<open>C22. A plan finds what it was made for: for every message tree whose fields have numbers that exist, with no more
  fields on a level than the reader takes and groups within the limit, the plan compiled from a schema returns, under the id of a requested path, the last
  field at that path.\<close>

theorem planned_proto_lookup:
  assumes "new_ProtoFieldLocator descriptor_set root_type = Inr locator"
    and "proto_locate (Inr locator) paths = Inr plan" and "i < length paths"
    and "level_ok trees" and "list_all tree_ok trees" and "tree_lookup (prq_numbers (plan ! i)) trees = Some field"
  shows "proto_plan_field plan (paths ! i) = Inr i
    \<and> proto_plan_locate plan (item_reader 0 (map tree_item trees)) i = Inr field"
proof -
  have ok: "locator_ok locator" by (rule new_locator_ok [OF assms(1)])
  note plan = planned_paths [OF assms(2)]
  have path: "length (prq_numbers (plan ! i)) \<le> 64"
    "proto_path (pl_messages locator) (pl_messages locator ! pl_root_index locator) (components (paths ! i)) (prq_numbers (plan ! i))"
    using compilePath_iff [OF ok] plan(3) [OF assms(3)] by blast+
  have "\<forall>n \<in> set (prq_numbers (plan ! i)). number_ok n"
    by (rule proto_path_numbers [OF path(2)]) (use ok in \<open>auto simp: locator_ok_def\<close>)
  then have "locate_numbers (item_reader 0 (map tree_item trees)) (prq_numbers (plan ! i)) = Inr field"
    using locate_numbers_tree [OF assms(4) _ _ assms(6)] assms(5) by (simp add: list_all_iff)
  then show ?thesis
    using plan(1,2) assms(3) path(1) by (simp add: proto_plan_locate_def kMaxRecursionDepth_def)
qed

lemma planned_proto_lookup_witness:
  "proto_plan_locate [\<lparr>prq_path = [120], prq_numbers = [1]\<rparr>] (item_reader 0 [PiBytes 9 [1, 2], PiVarint 1 300]) 0
     = Inr (item_field (PiVarint 1 300))"
proof -
  have plan: "proto_locate (Inr sample_locator) [[120]] = Inr [\<lparr>prq_path = [120], prq_numbers = [1]\<rparr>]"
    by (simp add: proto_locate_def compile_sample bindE_def)
  show ?thesis
    using planned_proto_lookup [OF sample_locator plan, of 0 "[PtItem (PiBytes 9 [1, 2]), PtItem (PiVarint 1 300)]"]
    by (simp add: level_ok_def number_ok_def fits_def kMaximumFields_def trees_of_def)
qed

end
