(* ===== verification/SourceIdentity.thy ===== *)
theory SourceIdentity
  imports Policies BuiltinObject
begin

section \<open>Digests and identities of sources\<close>

text \<open>
  \<open>pj_base/src/source/sha256.cpp\<close> and the identity part of \<open>source_descriptor.cpp\<close>: the SHA-256 digest with its
  one-pass padding, and the identity strings that name a request. A text is a \<open>string\<close>; its bytes are the codes
  of its characters.
\<close>

type_synonym digest = "u8 list"

definition text_bytes :: "string \<Rightarrow> bytes" where
  "text_bytes s = map of_char s"

subsection \<open>The compression function\<close>

definition kK :: "u32 list" where
  "kK = concat [
    [0x428a2f98, 0x71374491, 0xb5c0fbcf, 0xe9b5dba5, 0x3956c25b, 0x59f111f1, 0x923f82a4, 0xab1c5ed5],
    [0xd807aa98, 0x12835b01, 0x243185be, 0x550c7dc3, 0x72be5d74, 0x80deb1fe, 0x9bdc06a7, 0xc19bf174],
    [0xe49b69c1, 0xefbe4786, 0x0fc19dc6, 0x240ca1cc, 0x2de92c6f, 0x4a7484aa, 0x5cb0a9dc, 0x76f988da],
    [0x983e5152, 0xa831c66d, 0xb00327c8, 0xbf597fc7, 0xc6e00bf3, 0xd5a79147, 0x06ca6351, 0x14292967],
    [0x27b70a85, 0x2e1b2138, 0x4d2c6dfc, 0x53380d13, 0x650a7354, 0x766a0abb, 0x81c2c92e, 0x92722c85],
    [0xa2bfe8a1, 0xa81a664b, 0xc24b8b70, 0xc76c51a3, 0xd192e819, 0xd6990624, 0xf40e3585, 0x106aa070],
    [0x19a4c116, 0x1e376c08, 0x2748774c, 0x34b0bcb5, 0x391c0cb3, 0x4ed8aa4a, 0x5b9cca4f, 0x682e6ff3],
    [0x748f82ee, 0x78a5636f, 0x84c87814, 0x8cc70208, 0x90befffa, 0xa4506ceb, 0xbef9a3f7, 0xc67178f2]]"

definition rotr :: "u32 \<Rightarrow> nat \<Rightarrow> u32" where
  "rotr x n = drop_bit n x OR push_bit (32 - n) x"

text \<open>The message schedule: sixteen big-endian words of the block, and the words computed from them.\<close>

definition block_word :: "bytes \<Rightarrow> nat \<Rightarrow> u32" where
  "block_word block t = push_bit 24 (ucast (block ! (4 * t))) OR push_bit 16 (ucast (block ! (4 * t + 1)))
     OR push_bit 8 (ucast (block ! (4 * t + 2))) OR ucast (block ! (4 * t + 3))"

definition schedule_word :: "u32 list \<Rightarrow> nat \<Rightarrow> u32" where
  "schedule_word w t =
     (let s0 = rotr (w ! (t - 15)) 7 XOR rotr (w ! (t - 15)) 18 XOR drop_bit 3 (w ! (t - 15));
          s1 = rotr (w ! (t - 2)) 17 XOR rotr (w ! (t - 2)) 19 XOR drop_bit 10 (w ! (t - 2))
      in w ! (t - 16) + s0 + w ! (t - 7) + s1)"

definition schedule :: "bytes \<Rightarrow> u32 list" where
  "schedule block = fold (\<lambda>t w. w @ [schedule_word w t]) [16..<64] (map (block_word block) [0..<16])"

text \<open>One round, on the eight working variables.\<close>

fun sha_round :: "u32 list \<Rightarrow> nat \<Rightarrow> u32 list \<Rightarrow> u32 list" where
  "sha_round w t [a, b, c, d, e, f, g, h] =
     (let big_s1 = rotr e 6 XOR rotr e 11 XOR rotr e 25;
          ch = (e AND f) XOR (NOT e AND g);
          t1 = h + big_s1 + ch + kK ! t + w ! t;
          big_s0 = rotr a 2 XOR rotr a 13 XOR rotr a 22;
          maj = (a AND b) XOR (a AND c) XOR (b AND c);
          t2 = big_s0 + maj
      in [t1 + t2, a, b, c, d + t1, e, f, g])"
| "sha_round w t other = other"

definition compress :: "u32 list \<Rightarrow> bytes \<Rightarrow> u32 list" where
  "compress h block = map2 (+) h (fold (sha_round (schedule block)) [0..<64] h)"

subsection \<open>The digest\<close>

definition sha256_init :: "u32 list" where
  "sha256_init = [0x6a09e667, 0xbb67ae85, 0x3c6ef372, 0xa54ff53a, 0x510e527f, 0x9b05688c, 0x1f83d9ab, 0x5be0cd19]"

text \<open>The loop over the full blocks: the state and the bytes that are left.\<close>

function absorb :: "u32 list \<Rightarrow> bytes \<Rightarrow> u32 list \<times> bytes" where
  "absorb h bs = (if 64 \<le> length bs then absorb (compress h bs) (drop 64 bs) else (h, bs))"
  by pat_completeness auto
termination by (relation "measure (\<lambda>(h, bs). length bs)") auto

declare absorb.simps [simp del]

text \<open>The tail of 128 bytes: the rest, \<open>0x80\<close>, and the bit length at the end of its first or second block.\<close>

definition tail_blocks :: "nat \<Rightarrow> nat" where
  "tail_blocks rem = (if rem + 1 + 8 \<le> 64 then 1 else 2)"

definition sha_tail :: "bytes \<Rightarrow> u64 \<Rightarrow> bytes" where
  "sha_tail rest bit_len =
     (let n = length rest; tail = rest @ [0x80] @ replicate (127 - n) 0
      in fold (\<lambda>i tail. tail[tail_blocks n * 64 - 1 - i := ucast (drop_bit (8 * i) bit_len)]) [0..<8] tail)"

definition digest_bytes :: "u32 list \<Rightarrow> digest" where
  "digest_bytes h = concat (map (\<lambda>x. [ucast (drop_bit 24 x), ucast (drop_bit 16 x), ucast (drop_bit 8 x), ucast x]) h)"

definition sha256 :: "bytes \<Rightarrow> digest" where
  "sha256 bytes = (case absorb sha256_init bytes of (h, rest) \<Rightarrow>
     let bit_len = of_nat (length bytes) * 8; tail = sha_tail rest bit_len; h = compress h tail
     in digest_bytes (if tail_blocks (length rest) = 2 then compress h (drop 64 tail) else h))"

subsection \<open>The digest as the standard defines it\<close>

text \<open>
  The padded message is a whole number of blocks: \<open>0x80\<close>, as few zeros as possible, and the length in bits as
  eight big-endian bytes. The digest is the compression of its blocks one after the other.
\<close>

definition length_bytes :: "u64 \<Rightarrow> bytes" where
  "length_bytes n = map (\<lambda>i. ucast (drop_bit (8 * (7 - i)) n)) [0..<8]"

definition padded :: "bytes \<Rightarrow> bytes" where
  "padded m = m @ [0x80] @ replicate ((55 + 64 - length m mod 64) mod 64) 0 @ length_bytes (of_nat (length m) * 8)"

function blocks :: "bytes \<Rightarrow> bytes list" where
  "blocks m = (if 64 \<le> length m then take 64 m # blocks (drop 64 m) else [])"
  by pat_completeness auto
termination by (relation "measure length") auto

declare blocks.simps [simp del]

definition sha256_standard :: "bytes \<Rightarrow> digest" where
  "sha256_standard m = digest_bytes (fold (\<lambda>block h. compress h block) (blocks (padded m)) sha256_init)"

lemma compress_take:
  assumes "64 \<le> length bs"
  shows "compress h (take 64 bs) = compress h bs"
proof -
  have word: "block_word (take 64 bs) t = block_word bs t" if "t < 16" for t
  proof -
    have "4 * t + 3 < 64" using that by simp
    then show ?thesis by (simp add: block_word_def)
  qed
  have "map (block_word (take 64 bs)) ts = map (block_word bs) ts" if "\<forall>t \<in> set ts. t < 16" for ts
    using that by (induction ts) (simp_all add: word)
  moreover have "\<forall>t \<in> set [0..<16]. t < 16" by (simp only: set_upt) simp
  ultimately have first: "map (block_word (take 64 bs)) [0..<16] = map (block_word bs) [0..<16]" by blast
  show ?thesis unfolding compress_def schedule_def first ..
qed

lemma absorb_blocks:
  assumes "absorb h bs = (h', rest)"
  shows "length rest < 64 \<and> rest = drop (64 * (length bs div 64)) bs
    \<and> fold (\<lambda>block h. compress h block) (blocks (bs @ extra)) h = fold (\<lambda>block h. compress h block) (blocks (rest @ extra)) h'"
  using assms
proof (induction h bs rule: absorb.induct)
  case (1 h bs)
  show ?case
  proof (cases "64 \<le> length bs")
    case True
    then have "absorb (compress h bs) (drop 64 bs) = (h', rest)" using "1.prems" by (simp add: absorb.simps [of h bs])
    note IH = "1.IH" [OF True this]
    have "blocks (bs @ extra) = take 64 bs # blocks (drop 64 bs @ extra)"
      using True by (subst blocks.simps) simp
    moreover have "drop (64 * ((length bs - 64) div 64)) (drop 64 bs) = drop (64 * (length bs div 64)) bs"
      using True by (simp add: le_div_geq algebra_simps)
    ultimately show ?thesis using IH True by (simp add: compress_take)
  next
    case False
    then show ?thesis using "1.prems" by (simp add: absorb.simps [of h bs])
  qed
qed

text \<open>The eight stores put the length behind the zeros.\<close>

lemma eight_stores:
  assumes "length zs = 8" "k = length pre + 8"
  shows "fold (\<lambda>i tail. tail[k - 1 - i := ucast (drop_bit (8 * i) n)]) [0..<8] (pre @ zs @ post) = pre @ length_bytes n @ post"
proof -
  obtain a b c d e f g h where zs: "zs = [a, b, c, d, e, f, g, h]"
    using assms(1) by (auto simp: numeral_eq_Suc length_Suc_conv)
  show ?thesis by (simp add: assms(2) zs upt_rec length_bytes_def list_update_append)
qed

lemma sha_tail_padded:
  assumes "length rest < 64"
  shows "sha_tail rest n = rest @ [0x80] @ replicate (tail_blocks (length rest) * 64 - 9 - length rest) 0 @ length_bytes n
    @ replicate (128 - tail_blocks (length rest) * 64) 0"
proof -
  let ?r = "length rest" and ?k = "tail_blocks (length rest) * 64"
  have k: "?r + 9 \<le> ?k" "?k \<le> 128" using assms by (auto simp: tail_blocks_def)
  have "replicate (127 - ?r) (0 :: u8) = replicate (?k - 9 - ?r) 0 @ replicate 8 0 @ replicate (128 - ?k) 0"
    using k by (simp flip: replicate_add)
  then have "rest @ [0x80] @ replicate (127 - ?r) 0
      = (rest @ [0x80] @ replicate (?k - 9 - ?r) 0) @ replicate 8 0 @ replicate (128 - ?k) 0"
    by simp
  then show ?thesis
    using eight_stores [of "replicate 8 0" ?k "rest @ [0x80] @ replicate (?k - 9 - ?r) 0" n] k
    by (simp add: sha_tail_def Let_def)
qed

lemma blocks_one: "length m = 64 \<Longrightarrow> blocks m = [m]"
  by (simp add: blocks.simps [of m] blocks.simps [of "[]"])

lemma blocks_two: "length m = 128 \<Longrightarrow> blocks m = [take 64 m, drop 64 m]"
  by (simp add: blocks.simps [of m] blocks_one)

text \<open>The one-pass digest is the standard one.\<close>

lemma sha256_is_standard: "sha256 m = sha256_standard m"
proof -
  obtain h rest where a: "absorb sha256_init m = (h, rest)" by (cases "absorb sha256_init m")
  let ?n = "of_nat (length m) * 8 :: u64"
  define zeros where "zeros = (55 + 64 - length m mod 64) mod 64"
  define final where "final = [0x80] @ replicate zeros 0 @ length_bytes ?n"
  have r: "length rest < 64" "length m mod 64 = length rest"
    using absorb_blocks [OF a, of "[]"] by (auto simp: modulo_nat_def)
  have all: "fold (\<lambda>block h. compress h block) (blocks (padded m)) sha256_init
      = fold (\<lambda>block h. compress h block) (blocks (rest @ final)) h"
    using absorb_blocks [OF a, of final] by (simp only: padded_def final_def zeros_def)
  have len: "length (length_bytes ?n) = 8" by (simp add: length_bytes_def)
  show ?thesis
  proof (cases "length rest \<le> 55")
    case True
    then have z: "zeros = 55 - length rest" using r by (simp add: zeros_def mod_if)
    have tail: "sha_tail rest ?n = (rest @ final) @ replicate 64 0"
      using True sha_tail_padded [OF r(1), of ?n] by (simp add: tail_blocks_def final_def z)
    have one: "blocks (rest @ final) = [rest @ final]"
      using True len by (intro blocks_one) (simp add: final_def z)
    have size: "length (rest @ final) = 64" using True len by (simp add: final_def z)
    have "compress h (sha_tail rest ?n) = compress h (rest @ final)"
      unfolding tail using compress_take [of "(rest @ final) @ replicate 64 0" h] size
      by (metis append_eq_conv_conj length_append le_add1)
    with True show ?thesis by (simp add: sha256_def sha256_standard_def a all one tail_blocks_def Let_def)
  next
    case False
    then have z: "zeros = 119 - length rest" using r by (simp add: zeros_def mod_if)
    have tail: "sha_tail rest ?n = rest @ final"
      using False sha_tail_padded [OF r(1), of ?n] by (simp add: tail_blocks_def final_def z)
    have two: "blocks (rest @ final) = [take 64 (rest @ final), drop 64 (rest @ final)]"
      using False r(1) len by (intro blocks_two) (simp add: final_def z)
    have "compress h (take 64 (rest @ final)) = compress h (rest @ final)"
      using False r(1) len by (intro compress_take) (simp add: final_def z)
    with False two tail show ?thesis by (simp add: sha256_def sha256_standard_def a all tail_blocks_def Let_def)
  qed
qed

lemma length_sha_round: "length h = 8 \<Longrightarrow> length (sha_round w t h) = 8"
  by (auto simp: numeral_eq_Suc length_Suc_conv Let_def)

lemma length_compress: "length h = 8 \<Longrightarrow> length (compress h block) = 8"
proof -
  have "length (fold (sha_round w) ts g) = 8" if "length g = 8" for w ts g
    using that by (induction ts arbitrary: g) (simp_all add: length_sha_round)
  then show "length h = 8 \<Longrightarrow> length (compress h block) = 8" by (simp add: compress_def)
qed

lemma length_sha256 [simp]: "length (sha256 m) = 32"
proof -
  have "length (fold (\<lambda>block h. compress h block) bs h) = 8" if "length h = 8" for bs h
    using that by (induction bs arbitrary: h) (simp_all add: length_compress)
  then have "length (fold (\<lambda>block h. compress h block) (blocks (padded m)) sha256_init) = 8" by (simp add: sha256_init_def)
  moreover have "length (digest_bytes h) = 4 * length h" for h by (induction h) (simp_all add: digest_bytes_def)
  ultimately show ?thesis by (simp add: sha256_is_standard sha256_standard_def)
qed

subsection \<open>Identities\<close>

record IdentityScheme =
  is_prefix :: string
  is_digest_hex_chars :: nat

definition normalizedHexChars :: "nat \<Rightarrow> nat" where
  "normalizedHexChars hex_chars = (if hex_chars < 32 then 32 else if hex_chars > 64 then 64 else hex_chars - hex_chars mod 2)"

definition hexChars :: "IdentityScheme \<Rightarrow> nat" where
  "hexChars scheme = normalizedHexChars (is_digest_hex_chars scheme)"

definition kHex :: string where "kHex = ''0123456789abcdef''"

definition sha256Hex :: "string \<Rightarrow> nat \<Rightarrow> string" where
  "sha256Hex text hex_chars =
     (let digest = sha256 (text_bytes text); bytes = normalizedHexChars hex_chars div 2
      in concat (map (\<lambda>b. [kHex ! unat (drop_bit 4 b), kHex ! unat (b AND 0xF)]) (take bytes digest)))"

definition identityFor :: "IdentityScheme \<Rightarrow> string \<Rightarrow> string" where
  "identityFor scheme canonical_json = is_prefix scheme @ sha256Hex canonical_json (hexChars scheme)"

definition lower_hex :: "char \<Rightarrow> bool" where
  "lower_hex c \<longleftrightarrow> (CHR ''0'' \<le> c \<and> c \<le> CHR ''9'') \<or> (CHR ''a'' \<le> c \<and> c \<le> CHR ''f'')"

definition digestOf :: "IdentityScheme \<Rightarrow> string \<Rightarrow> string option" where
  "digestOf scheme identity =
     (if length identity \<noteq> length (is_prefix scheme) + hexChars scheme \<or> take (length (is_prefix scheme)) identity \<noteq> is_prefix scheme
      then None
      else let hex = drop (length (is_prefix scheme)) identity
           in if list_all lower_hex hex then Some hex else None)"

lemma digestOf_iff: "digestOf scheme identity = Some d \<longleftrightarrow>
    identity = is_prefix scheme @ d \<and> length d = hexChars scheme \<and> list_all lower_hex d"
  by (auto simp: digestOf_def Let_def dest: arg_cong [where f = length]
      intro: append_take_drop_id [of "length (is_prefix scheme)" identity, symmetric, THEN trans])

lemma hexChars_bounds: "32 \<le> hexChars scheme \<and> hexChars scheme \<le> 64 \<and> even (hexChars scheme)"
  by (auto simp: hexChars_def normalizedHexChars_def elim: oddE)
    presburger+

lemma normalized_again: "normalizedHexChars (hexChars scheme) = hexChars scheme"
  using hexChars_bounds [of scheme] by (auto simp: normalizedHexChars_def)

lemma kHex_lower: "n < 16 \<Longrightarrow> lower_hex (kHex ! n)"
proof -
  have "list_all lower_hex kHex" by code_simp
  then show "n < 16 \<Longrightarrow> lower_hex (kHex ! n)" by (simp add: list_all_length kHex_def)
qed

lemma nibbles: "unat (drop_bit 4 (b :: u8)) < 16" "unat (b AND 0xF) < 16"
proof -
  have "b AND 0xF = take_bit 4 b" by (simp add: take_bit_eq_mask mask_numeral)
  then show "unat (b AND 0xF) < 16" by (simp add: unsigned_take_bit_eq take_bit_nat_less_exp [of 4, simplified])
  have "unat b < 256" using unsigned_less [of b] by simp
  then have "unat b div 16 < 16" by (simp add: less_mult_imp_div_less)
  moreover have "unat (drop_bit 4 b) = unat b div 16" by (simp add: unat_div drop_bit_eq_div)
  ultimately show "unat (drop_bit 4 b) < 16" by simp
qed

lemma sha256Hex_shape: "length (sha256Hex text n) = normalizedHexChars n \<and> list_all lower_hex (sha256Hex text n)"
proof -
  have "length (concat (map (\<lambda>b :: u8. [f b, g b]) bs)) = 2 * length bs" for f g :: "u8 \<Rightarrow> char" and bs
    by (induction bs) simp_all
  moreover have "list_all lower_hex (concat (map (\<lambda>b :: u8. [kHex ! unat (drop_bit 4 b), kHex ! unat (b AND 0xF)]) bs))" for bs
    by (induction bs) (simp_all add: kHex_lower nibbles)
  moreover have "2 * (normalizedHexChars n div 2) = normalizedHexChars n" "normalizedHexChars n div 2 \<le> 32"
    using hexChars_bounds [of "\<lparr>is_prefix = [], is_digest_hex_chars = n\<rparr>"] div_le_mono [of "normalizedHexChars n" 64 2]
    by (simp_all add: hexChars_def)
  ultimately show ?thesis by (simp add: sha256Hex_def Let_def)
qed

text \<open>Minting and parsing agree.\<close>

lemma digestOf_identityFor: "digestOf scheme (identityFor scheme s) = Some (sha256Hex s (hexChars scheme))"
  by (simp add: digestOf_iff identityFor_def sha256Hex_shape normalized_again)

end
