(* ===== verification/SharedDirectory.thy ===== *)
theory SharedDirectory
  imports SourceIdentity "HOL-Library.AList"
begin

section \<open>A directory that many processes share\<close>

text \<open>
  What \<open>request_cache.cpp\<close> uses of the operating system, and the wrappers \<open>pj_base/src/source/file_lock.cpp\<close> and
  \<open>fs_durability.cpp\<close> (their POSIX side). The operations of the cache are programs of atomic system calls, so that
  the calls of several of them may interleave. The directory, the table of advisory locks and what the next calls
  will do are the world they run in. All files are named relative to the root of the cache.
\<close>

subsection \<open>Programs of system calls\<close>

type_synonym file_name = string

record entry =
  en_regular :: bool
  en_content :: bytes
  en_mtime :: int

datatype lock_mode = LockShared | LockExclusive

text \<open>A lock that is held: the open file it belongs to, the lock file, and the mode.\<close>

record flock =
  fk_handle :: nat
  fk_name :: file_name
  fk_mode :: lock_mode

datatype root_status = RsMissing | RsDirectory | RsOther

text \<open>The error codes that the code tells apart: none, no such file, any other.\<close>

datatype error_code = EcNone | EcMissing | EcOther string

definition is_error :: "error_code \<Rightarrow> bool" where
  "is_error ec \<longleftrightarrow> ec \<noteq> EcNone"

fun ec_message :: "error_code \<Rightarrow> string" where
  "ec_message EcNone = ''Success''"
| "ec_message EcMissing = ''No such file or directory''"
| "ec_message (EcOther reason) = reason"

text \<open>
  The world: the entries of the root, the locks, the next handle, the clock, the free space, and for the calls to
  come whether each of them fails, and with which text.
\<close>

record world =
  wd_root :: root_status
  wd_entries :: "(file_name \<times> entry) list"
  wd_locks :: "flock list"
  wd_next :: nat
  wd_time :: int
  wd_free :: u64
  wd_faults :: "nat \<Rightarrow> string option"

datatype 'a prog = Ret 'a | Act "world \<Rightarrow> world \<times> 'a prog"

primrec then_do :: "'a prog \<Rightarrow> ('a \<Rightarrow> 'b prog) \<Rightarrow> 'b prog" where
  "then_do (Ret a) k = k a"
| "then_do (Act f) k = Act (map_prod id (\<lambda>p. then_do p k) \<circ> f)"

text \<open>A program that runs alone.\<close>

primrec run_alone :: "'a prog \<Rightarrow> world \<Rightarrow> world \<times> 'a" where
  "run_alone (Ret a) = (\<lambda>w. (w, a))"
| "run_alone (Act f) = (\<lambda>w. case map_prod id run_alone (f w) of (w', continue) \<Rightarrow> continue w')"

definition system_call :: "(world \<Rightarrow> world \<times> 'a) \<Rightarrow> 'a prog" where
  "system_call f = Act (\<lambda>w. case f w of (w', a) \<Rightarrow> (w', Ret a))"

text \<open>A call that the operating system may refuse, with what it does when it does not.\<close>

definition faulty :: "(string \<Rightarrow> 'a) \<Rightarrow> (world \<Rightarrow> world \<times> 'a) \<Rightarrow> 'a prog" where
  "faulty refused f = system_call (\<lambda>w.
     let w' = w\<lparr>wd_faults := \<lambda>n. wd_faults w (n + 1)\<rparr>
     in case wd_faults w 0 of Some reason \<Rightarrow> (w', refused reason) | None \<Rightarrow> f w')"

definition entry_of :: "world \<Rightarrow> file_name \<Rightarrow> entry option" where
  "entry_of w n = map_of (wd_entries w) n"

definition set_entry :: "file_name \<Rightarrow> entry \<Rightarrow> world \<Rightarrow> world" where
  "set_entry n e w = w\<lparr>wd_entries := AList.update n e (wd_entries w)\<rparr>"

definition drop_entry :: "file_name \<Rightarrow> world \<Rightarrow> world" where
  "drop_entry n w = w\<lparr>wd_entries := AList.delete n (wd_entries w)\<rparr>"

text \<open>\<open>std::filesystem\<close>, as far as the code uses it.\<close>

definition is_regular_file :: "file_name \<Rightarrow> (bool \<times> error_code) prog" where
  "is_regular_file n = faulty (\<lambda>r. (False, EcOther r)) (\<lambda>w. (w, case entry_of w n of
     None \<Rightarrow> (False, EcMissing) | Some e \<Rightarrow> (en_regular e, EcNone)))"

definition last_write_time :: "file_name \<Rightarrow> (error_code + int) prog" where
  "last_write_time n = faulty (\<lambda>r. Inl (EcOther r)) (\<lambda>w. (w, case entry_of w n of
     None \<Rightarrow> Inl EcMissing | Some e \<Rightarrow> Inr (en_mtime e)))"

definition file_size :: "file_name \<Rightarrow> (error_code + u64) prog" where
  "file_size n = faulty (\<lambda>r. Inl (EcOther r)) (\<lambda>w. (w, case entry_of w n of
     None \<Rightarrow> Inl EcMissing
   | Some e \<Rightarrow> if en_regular e then Inr (of_nat (length (en_content e))) else Inl (EcOther ''Is a directory'')))"

definition remove_file :: "file_name \<Rightarrow> (bool \<times> error_code) prog" where
  "remove_file n = faulty (\<lambda>r. (False, EcOther r)) (\<lambda>w.
     if entry_of w n = None then (w, (False, EcNone)) else (drop_entry n w, (True, EcNone)))"

definition rename_file :: "file_name \<Rightarrow> file_name \<Rightarrow> error_code prog" where
  "rename_file a b = faulty EcOther (\<lambda>w. case entry_of w a of
     None \<Rightarrow> (w, EcMissing)
   | Some e \<Rightarrow> (case entry_of w b of
         Some old \<Rightarrow> if en_regular old then (set_entry b e (drop_entry a w), EcNone) else (w, EcOther ''Is a directory'')
       | None \<Rightarrow> (set_entry b e (drop_entry a w), EcNone)))"

text \<open>Opening a stream that truncates, and setting a time stamp to now.\<close>

definition create_empty :: "file_name \<Rightarrow> unit prog" where
  "create_empty n = faulty (\<lambda>_. ()) (\<lambda>w. case entry_of w n of
     Some e \<Rightarrow> (if en_regular e then set_entry n (e\<lparr>en_content := [], en_mtime := wd_time w\<rparr>) w else w, ())
   | None \<Rightarrow> (set_entry n \<lparr>en_regular = True, en_content = [], en_mtime = wd_time w\<rparr> w, ()))"

definition set_write_time :: "file_name \<Rightarrow> int \<Rightarrow> unit prog" where
  "set_write_time n stamp = faulty (\<lambda>_. ()) (\<lambda>w. case entry_of w n of
     Some e \<Rightarrow> (set_entry n (e\<lparr>en_mtime := stamp\<rparr>) w, ()) | None \<Rightarrow> (w, ()))"

definition clock_now :: "int prog" where "clock_now = system_call (\<lambda>w. (w, wd_time w))"

text \<open>The status of the root, unless it cannot be told.\<close>

definition status_of_root :: "root_status option prog" where
  "status_of_root = faulty (\<lambda>_. None) (\<lambda>w. (w, Some (wd_root w)))"

definition free_space :: "u64 option prog" where "free_space = faulty (\<lambda>_. None) (\<lambda>w. (w, Some (wd_free w)))"

text \<open>A directory iterator: the names at the time it is opened, and one increment.\<close>

definition open_directory :: "file_name list option prog" where
  "open_directory = faulty (\<lambda>_. None) (\<lambda>w. (w, if wd_root w = RsDirectory then Some (map fst (wd_entries w)) else None))"

definition increment_ok :: "bool prog" where "increment_ok = faulty (\<lambda>_. False) (\<lambda>w. (w, True))"

text \<open>
  \<open>ensureDir0700\<close> and \<open>syncFile\<close> of \<open>fs_durability.cpp\<close>; permissions are not part of the world, and what is in it
  is durable. The path is the one that the messages name.
\<close>

definition ensureDir0700 :: "unit prog" where
  "ensureDir0700 = faulty (\<lambda>_. ()) (\<lambda>w. (if wd_root w = RsMissing then w\<lparr>wd_root := RsDirectory\<rparr> else w, ()))"

definition open_for_sync :: "file_name \<Rightarrow> string option prog" where
  "open_for_sync n = faulty Some (\<lambda>w. (w, if entry_of w n = None then Some (ec_message EcMissing) else None))"

definition fsync :: "string option prog" where "fsync = faulty Some (\<lambda>w. (w, None))"

definition syncFile :: "string \<Rightarrow> file_name \<Rightarrow> string option prog" where
  "syncFile path n = then_do (open_for_sync n) (\<lambda>refused. case refused of
     Some reason \<Rightarrow> Ret (Some (''could not reopen for fsync: '' @ path @ '': '' @ reason))
   | None \<Rightarrow> then_do fsync (\<lambda>refused. Ret (map_option (\<lambda>reason. ''fsync failed: '' @ path @ '': '' @ reason) refused)))"

subsection \<open>Advisory locks\<close>

definition lock_conflict :: "flock list \<Rightarrow> file_name \<Rightarrow> lock_mode \<Rightarrow> bool" where
  "lock_conflict locks n mode \<longleftrightarrow> list_ex (\<lambda>l. fk_name l = n \<and> (mode = LockExclusive \<or> fk_mode l = LockExclusive)) locks"

datatype lock_refusal = HeldElsewhere | LockFailed string

text \<open>Opening the lock file creates it; \<open>flock\<close> itself does not block. A lock is known by the number it is given.\<close>

definition open_lock_file :: "file_name \<Rightarrow> string option prog" where
  "open_lock_file n = faulty Some (\<lambda>w.
     if wd_root w \<noteq> RsDirectory then (w, Some (ec_message EcMissing))
     else case entry_of w n of
       None \<Rightarrow> (set_entry n \<lparr>en_regular = True, en_content = [], en_mtime = wd_time w\<rparr> w, None)
     | Some e \<Rightarrow> (w, if en_regular e then None else Some ''Is a directory''))"

definition flock_nb :: "file_name \<Rightarrow> lock_mode \<Rightarrow> (lock_refusal + nat) prog" where
  "flock_nb n mode = faulty (\<lambda>r. Inl (LockFailed r)) (\<lambda>w.
     if lock_conflict (wd_locks w) n mode then (w, Inl HeldElsewhere)
     else (w\<lparr>wd_locks := \<lparr>fk_handle = wd_next w, fk_name = n, fk_mode = mode\<rparr> # wd_locks w, wd_next := wd_next w + 1\<rparr>,
           Inr (wd_next w)))"

text \<open>\<open>tryAcquireHandle\<close>: the lock, or whether it is held elsewhere and the message.\<close>

definition tryAcquire :: "string \<Rightarrow> file_name \<Rightarrow> lock_mode \<Rightarrow> (bool \<times> string + nat) prog" where
  "tryAcquire path n mode = then_do (open_lock_file n) (\<lambda>refused. case refused of
     Some reason \<Rightarrow> Ret (Inl (False, ''could not open lock file '' @ path @ '': '' @ reason))
   | None \<Rightarrow> then_do (flock_nb n mode) (\<lambda>r. Ret (case r of
       Inr h \<Rightarrow> Inr h
     | Inl HeldElsewhere \<Rightarrow> Inl (True, ''lock is held elsewhere: '' @ path)
     | Inl (LockFailed reason) \<Rightarrow> Inl (False, ''flock failed on '' @ path @ '': '' @ reason))))"

definition unlock :: "nat \<Rightarrow> world \<Rightarrow> world" where
  "unlock h w = w\<lparr>wd_locks := filter (\<lambda>l. fk_handle l \<noteq> h) (wd_locks w)\<rparr>"

definition release_lock :: "nat \<Rightarrow> unit prog" where
  "release_lock h = system_call (\<lambda>w. (unlock h w, ()))"

text \<open>
  \<open>downgradeToShared\<close>: the conversion is not atomic. The lock is given up, and then taken again in shared mode;
  when that fails the lock is gone.
\<close>

definition downgradeToShared :: "nat \<Rightarrow> file_name \<Rightarrow> (string + nat) prog" where
  "downgradeToShared h n = then_do (release_lock h) (\<lambda>_. then_do (flock_nb n LockShared) (\<lambda>r. Ret (case r of
     Inr h' \<Rightarrow> Inr h'
   | Inl HeldElsewhere \<Rightarrow> Inl (''shared downgrade lost the conversion race: '' @ ''Resource temporarily unavailable'')
   | Inl (LockFailed reason) \<Rightarrow> Inl (''shared downgrade lost the conversion race: '' @ reason))))"

end
