(* ===== verification/SourceTrust.thy ===== *)
theory SourceTrust
  imports SourceIdentity "HOL-Library.List_Lexorder" "HOL-Library.Char_ord"
begin

section \<open>Origins, outcomes and presentation of sources\<close>

text \<open>
  \<open>origin.cpp\<close> with the parsers of \<open>text_utils.hpp\<close>, \<open>outcome_ledger.cpp\<close> and \<open>presentation.cpp\<close> of the source
  providers. A text is a \<open>string\<close> of bytes.
\<close>

subsection \<open>Texts\<close>

definition ascii_lower :: "char \<Rightarrow> char" where
  "ascii_lower c = (if CHR ''A'' \<le> c \<and> c \<le> CHR ''Z'' then char_of (of_char c + 32 :: nat) else c)"

definition lowerAscii :: "string \<Rightarrow> string" where "lowerAscii s = map ascii_lower s"

definition decimal_digit :: "char \<Rightarrow> bool" where "decimal_digit c \<longleftrightarrow> CHR ''0'' \<le> c \<and> c \<le> CHR ''9''"

text \<open>\<open>std::from_chars\<close> of an unsigned type: all digits, and no more than the greatest value.\<close>

definition decimal_value :: "string \<Rightarrow> nat" where
  "decimal_value s = foldl (\<lambda>v c. 10 * v + (of_char c - 48)) 0 s"

definition from_chars :: "nat \<Rightarrow> string \<Rightarrow> nat option" where
  "from_chars greatest s = (if s = [] \<or> \<not> list_all decimal_digit s \<or> decimal_value s > greatest then None else Some (decimal_value s))"

definition parsePort :: "string \<Rightarrow> nat option" where
  "parsePort s = (if s = [] then None else case from_chars (2 ^ 32 - 1) s of
     None \<Rightarrow> None | Some v \<Rightarrow> if v = 0 \<or> v > 65535 then None else Some v)"

definition parseDecimalNs :: "string \<Rightarrow> nat option" where
  "parseDecimalNs s = (if s = [] \<or> length s > 20 \<or> \<not> list_all decimal_digit s then None else from_chars (2 ^ 63 - 1) s)"

text \<open>\<open>find\<close> of a text, and \<open>rfind\<close> of a character.\<close>

fun find_text :: "string \<Rightarrow> string \<Rightarrow> nat option" where
  "find_text pat s = (if take (length pat) s = pat then Some 0
     else case s of [] \<Rightarrow> None | _ # rest \<Rightarrow> map_option Suc (find_text pat rest))"

declare find_text.simps [simp del]

primrec rfind :: "char \<Rightarrow> string \<Rightarrow> nat option" where
  "rfind c [] = None"
| "rfind c (x # xs) = (case rfind c xs of Some i \<Rightarrow> Some (Suc i) | None \<Rightarrow> if x = c then Some 0 else None)"

subsection \<open>Origins\<close>

record Origin =
  og_scheme :: string
  og_host :: string
  og_port :: nat

record OriginPolicy =
  op_allowed_schemes :: "string list"
  op_default_ports :: "(string \<times> nat) list"

definition host_byte :: "char \<Rightarrow> bool" where
  "host_byte c \<longleftrightarrow> (CHR ''a'' \<le> c \<and> c \<le> CHR ''z'') \<or> (CHR ''0'' \<le> c \<and> c \<le> CHR ''9'') \<or> c \<in> {CHR ''.'', CHR ''-'', CHR ''_''}"

definition validHostBytes :: "string \<Rightarrow> bool" where
  "validHostBytes host \<longleftrightarrow> host \<noteq> [] \<and> list_all host_byte host"

definition validateSchemelessOrigin :: "string \<Rightarrow> string option" where
  "validateSchemelessOrigin origin = (case find_text '':'' origin of
     None \<Rightarrow> Some ''origin must be host:port''
   | Some colon \<Rightarrow>
       if colon = 0 then Some ''origin must be host:port''
       else if \<not> validHostBytes (take colon origin) then Some ''origin host must be lowercase [a-z0-9._-]''
       else let port = drop (colon + 1) origin
         in if port = [] \<or> length port > 5 \<or> hd port = CHR ''0'' \<or> parsePort port = None
            then Some ''origin port must be a 1..65535 decimal with no leading zero'' else None)"

text \<open>The authority: what is between the scheme and the path, split at its last colon.\<close>

definition parse_authority :: "OriginPolicy \<Rightarrow> string \<Rightarrow> string \<Rightarrow> Origin option" where
  "parse_authority policy scheme authority = (case rfind (CHR '':'') authority of
     None \<Rightarrow> (case map_of (op_default_ports policy) scheme of
         None \<Rightarrow> None
       | Some port \<Rightarrow> Some \<lparr>og_scheme = scheme, og_host = lowerAscii authority, og_port = port\<rparr>)
   | Some colon \<Rightarrow> (case parsePort (drop (colon + 1) authority) of
         None \<Rightarrow> None
       | Some port \<Rightarrow> if colon = 0 then None
           else Some \<lparr>og_scheme = scheme, og_host = lowerAscii (take colon authority), og_port = port\<rparr>))"

definition parseOrigin :: "OriginPolicy \<Rightarrow> string \<Rightarrow> Origin option" where
  "parseOrigin policy uri = (case find_text ''://'' uri of
     None \<Rightarrow> None
   | Some scheme_end \<Rightarrow>
       if scheme_end = 0 then None
       else let scheme = lowerAscii (take scheme_end uri) in
         if scheme \<notin> set (op_allowed_schemes policy) then None
         else if CHR ''?'' \<in> set uri \<or> CHR ''#'' \<in> set uri then None
         else let authority = takeWhile (\<lambda>c. c \<noteq> CHR ''/'') (drop (scheme_end + 3) uri) in
           if authority = [] then None
           else case parse_authority policy scheme authority of
             None \<Rightarrow> None
           | Some origin \<Rightarrow> if validHostBytes (og_host origin) then Some origin else None)"

definition originKey :: "Origin \<Rightarrow> string" where
  "originKey origin = og_scheme origin @ ''://'' @ og_host origin @ '':'' @ to_string (og_port origin)"

definition sameOrigin :: "OriginPolicy \<Rightarrow> string \<Rightarrow> string \<Rightarrow> bool" where
  "sameOrigin policy a b \<longleftrightarrow> parseOrigin policy a \<noteq> None \<and> parseOrigin policy b \<noteq> None \<and> parseOrigin policy a = parseOrigin policy b"

definition separator :: "char \<Rightarrow> bool" where
  "separator c \<longleftrightarrow> c = CHR '','' \<or> c = CHR '';'' \<or> of_char c \<in> {9, 10, 11, 12, 13, 32 :: nat}"

fun origin_tokens :: "string \<Rightarrow> string \<Rightarrow> string list" where
  "origin_tokens seen [] = (if seen = [] then [] else [seen])"
| "origin_tokens seen (c # cs) =
     (if separator c then (if seen = [] then [] else [seen]) @ origin_tokens [] cs else origin_tokens (seen @ [c]) cs)"

definition parseOriginList :: "OriginPolicy \<Rightarrow> string \<Rightarrow> Origin list" where
  "parseOriginList policy s = List.map_filter (parseOrigin policy) (origin_tokens [] s)"

definition originAllowed :: "OriginPolicy \<Rightarrow> Origin list \<Rightarrow> string \<Rightarrow> bool" where
  "originAllowed policy allowlist uri \<longleftrightarrow> (case parseOrigin policy uri of None \<Rightarrow> False | Some origin \<Rightarrow> origin \<in> set allowlist)"

subsection \<open>The outcome of an ingest\<close>

datatype TopicOutcome = TopicPending | TopicOk | TopicEmptyOk | TopicFailed

datatype IngestOutcome = IngestFailed | IngestCancelled | IngestCompleted

text \<open>The ordered map of topics, as an association list without duplicates.\<close>

type_synonym ledger = "(string \<times> TopicOutcome) list"

definition new_ledger :: "string list \<Rightarrow> ledger" where
  "new_ledger topics = map (\<lambda>t. (t, TopicPending)) (sort (remdups topics))"

definition record_outcome :: "string \<Rightarrow> TopicOutcome \<Rightarrow> ledger \<Rightarrow> ledger \<times> bool" where
  "record_outcome topic r ledger = (if map_of ledger topic = None then (ledger, False)
     else (map (\<lambda>(t, old). (t, if t = topic then r else old)) ledger, True))"

definition topic_outcome :: "ledger \<Rightarrow> string \<Rightarrow> TopicOutcome" where
  "topic_outcome ledger topic = (case map_of ledger topic of None \<Rightarrow> TopicPending | Some r \<Rightarrow> r)"

definition ATTESTS_EMPTY_TOPICS :: u64 where "ATTESTS_EMPTY_TOPICS = 1"

fun completion_loop :: "u64 \<Rightarrow> ledger \<Rightarrow> IngestOutcome \<times> u64" where
  "completion_loop flags [] = (IngestCompleted, flags)"
| "completion_loop flags ((_, TopicOk) # rest) = completion_loop flags rest"
| "completion_loop flags ((_, TopicEmptyOk) # rest) = completion_loop (flags OR ATTESTS_EMPTY_TOPICS) rest"
| "completion_loop flags ((_, _) # rest) = (IngestFailed, 0)"

definition computeCompletion :: "ledger \<Rightarrow> bool \<Rightarrow> IngestOutcome \<times> u64" where
  "computeCompletion ledger cancelled = (if cancelled then (IngestCancelled, 0) else completion_loop 0 ledger)"

subsection \<open>Presentation\<close>

definition kBase64UrlAlphabet :: string where
  "kBase64UrlAlphabet = ''ABCDEFGHIJKLMNOPQRSTUVWXYZabcdefghijklmnopqrstuvwxyz0123456789-_''"

definition sextet :: "nat \<Rightarrow> u32 \<Rightarrow> char" where
  "sextet k v = kBase64UrlAlphabet ! unat (drop_bit k v AND 0x3f)"

definition octet :: "nat \<Rightarrow> u8 \<Rightarrow> u32" where "octet k b = push_bit k (ucast b)"

fun base64UrlUnpadded :: "bytes \<Rightarrow> string" where
  "base64UrlUnpadded (a # b # c # rest) = (let v = octet 16 a OR octet 8 b OR octet 0 c
     in [sextet 18 v, sextet 12 v, sextet 6 v, sextet 0 v] @ base64UrlUnpadded rest)"
| "base64UrlUnpadded [a, b] = (let v = octet 16 a OR octet 8 b in [sextet 18 v, sextet 12 v, sextet 6 v])"
| "base64UrlUnpadded [a] = (let v = octet 16 a in [sextet 18 v, sextet 12 v])"
| "base64UrlUnpadded [] = []"

definition isControlOrFormat :: "nat \<Rightarrow> bool" where
  "isControlOrFormat c \<longleftrightarrow> c < 0x20 \<or> c = 0x7f \<or> (c \<ge> 0x80 \<and> c \<le> 0x9f) \<or> c = 0x061c \<or> (c \<ge> 0x200b \<and> c \<le> 0x200f)
     \<or> (c \<ge> 0x2028 \<and> c \<le> 0x202e) \<or> (c \<ge> 0x2060 \<and> c \<le> 0x2064) \<or> (c \<ge> 0x2066 \<and> c \<le> 0x2069) \<or> c = 0xfeff"

definition kMaxPresentationChars :: nat where "kMaxPresentationChars = 200"

text \<open>One step at a text that is not empty: the width and the UTF-16 units of what is there, and its code point.\<close>

definition lead_width :: "nat \<Rightarrow> nat" where
  "lead_width lead = (if lead \<ge> 0xc2 \<and> lead \<le> 0xdf then 2 else if lead \<ge> 0xe0 \<and> lead \<le> 0xef then 3
     else if lead \<ge> 0xf0 \<and> lead \<le> 0xf4 then 4 else 1)"

definition continuation :: "nat \<Rightarrow> bool" where "continuation b \<longleftrightarrow> b div 64 = 2"

definition utf8_step :: "nat list \<Rightarrow> nat \<times> nat \<times> nat" where
  "utf8_step s =
     (let lead = hd s; width = lead_width lead
      in if length s < width \<or> \<not> list_all continuation (take (width - 1) (tl s)) then (1, 1, lead)
         else (width, if width = 4 then 2 else 1,
           if width = 2 then (lead mod 32) * 64 + s ! 1 mod 64
           else if width = 3 then (lead mod 16) * 4096 + (s ! 1 mod 64) * 64 + s ! 2 mod 64
           else if width = 4 then 0x10000 else lead))"

function cap_loop :: "nat \<Rightarrow> nat list \<Rightarrow> nat list" where
  "cap_loop used [] = []"
| "cap_loop used (b # s) = (case utf8_step (b # s) of (width, units, code_point) \<Rightarrow>
     if isControlOrFormat code_point then cap_loop used (drop (width - 1) s)
     else if used + units > kMaxPresentationChars then []
     else take width (b # s) @ cap_loop (used + units) (drop (width - 1) s))"
  by pat_completeness auto
termination by (relation "measure (length \<circ> snd)") auto

definition capPresentation :: "nat list \<Rightarrow> nat list" where "capPresentation s = cap_loop 0 s"

definition kSettingsPrefix :: string where "kSettingsPrefix = ''source_presentation/v1/''"

definition sourcePresentationSettingsGroup :: "string \<Rightarrow> string" where
  "sourcePresentationSettingsGroup identity = kSettingsPrefix @ base64UrlUnpadded (text_bytes identity)"

record SourcePresentation =
  pr_display_name :: string
  pr_fallback_name :: string
  pr_origin :: string

text \<open>The settings of the host: what a key reads as, if it can be read, and a write that may be lost.\<close>

record 's settings_api =
  st_value :: "'s \<Rightarrow> string \<Rightarrow> string option"
  st_setValue :: "'s \<Rightarrow> string \<Rightarrow> string \<Rightarrow> 's"

definition cap_text :: "string \<Rightarrow> string" where "cap_text s = map char_of (capPresentation (map of_char s))"

definition setIfChanged :: "'s settings_api \<Rightarrow> string \<Rightarrow> string \<Rightarrow> 's \<Rightarrow> 's" where
  "setIfChanged S key v s = (if st_value S s key = Some v then s else st_setValue S s key v)"

definition recordSourcePresentation :: "'s settings_api \<Rightarrow> string \<Rightarrow> SourcePresentation \<Rightarrow> 's \<Rightarrow> 's" where
  "recordSourcePresentation S identity p s =
     (if identity = [] then s
      else let group = sourcePresentationSettingsGroup identity;
               s = setIfChanged S (group @ ''/display_name'')
                 (cap_text (if pr_display_name p = [] then pr_fallback_name p else pr_display_name p)) s
        in if pr_origin p = [] then s else setIfChanged S (group @ ''/origin'') (cap_text (pr_origin p)) s)"


subsection \<open>Facts on texts\<close>

lemma char_le: "c \<le> d \<longleftrightarrow> (of_char c :: nat) \<le> of_char d"
  by (simp add: less_eq_char_def)

lemma char_code: "of_char c < (256 :: nat)" by simp

lemma of_char_lower: "of_char (ascii_lower c) = (if 65 \<le> (of_char c :: nat) \<and> of_char c \<le> (90 :: nat) then of_char c + 32 else (of_char c :: nat))"
  using char_code [of c] by (simp add: ascii_lower_def char_le)

lemma char_eqI: "(of_char c :: nat) = of_char d \<Longrightarrow> c = d"
  by simp

lemma ascii_lower_again [simp]: "ascii_lower (ascii_lower c) = ascii_lower c"
  by (rule char_eqI) (simp add: of_char_lower)

lemma ascii_lower_fixed: "of_char c < (65 :: nat) \<or> of_char c > (90 :: nat) \<Longrightarrow> ascii_lower c = c"
  by (rule char_eqI) (auto simp: of_char_lower)

lemma ascii_lower_small: "of_char d < (65 :: nat) \<Longrightarrow> ascii_lower c = d \<longleftrightarrow> c = d"
proof (cases "65 \<le> (of_char c :: nat) \<and> of_char c \<le> (90 :: nat)")
  case True
  assume "of_char d < (65 :: nat)"
  then have "(of_char c :: nat) \<noteq> of_char d" "(of_char (ascii_lower c) :: nat) \<noteq> of_char d"
    using True of_char_lower [of c] by auto
  then show ?thesis by metis
next
  case False
  then show ?thesis using ascii_lower_fixed [of c] by auto
qed

lemma lowerAscii_member: "of_char d < (65 :: nat) \<Longrightarrow> d \<in> set (lowerAscii s) \<Longrightarrow> d \<in> set s"
  unfolding lowerAscii_def set_map image_iff using ascii_lower_small by metis

lemma lowerAscii_again [simp]: "lowerAscii (lowerAscii s) = lowerAscii s"
  by (simp add: lowerAscii_def comp_def)

lemma host_byte_code: "host_byte c \<Longrightarrow> of_char c \<noteq> (47 :: nat) \<and> of_char c \<noteq> (58 :: nat) \<and> of_char c \<noteq> (63 :: nat)
    \<and> of_char c \<noteq> (35 :: nat) \<and> (of_char c < (65 :: nat) \<or> of_char c > (90 :: nat))"
  by (auto simp: host_byte_def char_le)

lemma host_byte_not: "host_byte c \<Longrightarrow> c \<noteq> CHR ''/'' \<and> c \<noteq> CHR '':'' \<and> c \<noteq> CHR ''?'' \<and> c \<noteq> CHR ''#''"
  using host_byte_code [of c] by auto

lemma lowerAscii_host: "list_all host_byte h \<Longrightarrow> lowerAscii h = h"
  by (induction h) (auto simp: lowerAscii_def dest: host_byte_code intro!: ascii_lower_fixed)

lemma decimal_digit_host: "decimal_digit c \<Longrightarrow> host_byte c"
  by (simp add: decimal_digit_def host_byte_def)

lemma to_string_decimal: "to_string n \<noteq> [] \<and> list_all decimal_digit (to_string n) \<and> decimal_value (to_string n) = n"
proof (induction n rule: to_string.induct)
  case (1 n)
  have d: "decimal_digit (char_of (48 + k))" if "k < 10" for k :: nat
    using that by (simp add: decimal_digit_def char_le)
  have value_append: "decimal_value (s @ [c]) = 10 * decimal_value s + (of_char c - 48)" for s c
    by (simp add: decimal_value_def)
  show ?case
  proof (cases "n < 10")
    case True
    then show ?thesis using d [of n] value_append [of "[]"] by (simp add: to_string.simps [of n] decimal_value_def)
  next
    case False
    then show ?thesis using d [of "n mod 10"] 1 by (simp add: to_string.simps [of n] value_append)
  qed
qed

lemma from_chars_to_string: "n \<le> greatest \<Longrightarrow> from_chars greatest (to_string n) = Some n"
  using to_string_decimal [of n] by (simp add: from_chars_def)

lemma parsePort_to_string: "0 < n \<Longrightarrow> n \<le> 65535 \<Longrightarrow> parsePort (to_string n) = Some n"
  using to_string_decimal [of n] by (simp add: parsePort_def from_chars_to_string)

lemma parsePort_bounds: "parsePort s = Some n \<Longrightarrow> 0 < n \<and> n \<le> 65535"
  by (auto simp: parsePort_def split: if_split_asm option.splits)

lemma find_text_Some:
  "find_text pat s = Some k \<longleftrightarrow> k \<le> length s \<and> take (length pat) (drop k s) = pat \<and> (\<forall>i<k. take (length pat) (drop i s) \<noteq> pat)"
proof (induction s arbitrary: k)
  case Nil
  then show ?case by (auto simp: find_text.simps [of pat "[]"])
next
  case (Cons c s)
  show ?case
  proof (cases "take (length pat) (c # s) = pat")
    case True
    then show ?thesis by (auto simp: find_text.simps [of pat "c # s"])
  next
    case False
    then show ?thesis using Cons
      by (cases k) (auto simp: find_text.simps [of pat "c # s"] less_Suc_eq_0_disj)
  qed
qed

lemma rfind_last: "c \<notin> set ys \<Longrightarrow> rfind c (xs @ c # ys) = Some (length xs)"
proof -
  assume "c \<notin> set ys"
  then have "rfind c ys = None" by (induction ys) auto
  then show ?thesis by (induction xs) auto
qed

subsection \<open>The key of an origin\<close>

text \<open>The end of the scheme is found again after the scheme has been lowered and the rest replaced.\<close>

lemma find_scheme_end:
  assumes "find_text ''://'' uri = Some k"
  shows "find_text ''://'' (lowerAscii (take k uri) @ ''://'' @ rest) = Some k"
proof -
  let ?s = "lowerAscii (take k uri) @ ''://'' @ rest"
  have uri: "k \<le> length uri" "take 3 (drop k uri) = ''://''" "\<And>i. i < k \<Longrightarrow> take 3 (drop i uri) \<noteq> ''://''"
    using assms by (simp_all add: find_text_Some numeral_3_eq_3)
  have len: "length (lowerAscii (take k uri)) = k" using uri(1) by (simp add: lowerAscii_def)
  have "take 3 (drop i ?s) \<noteq> ''://''" if i: "i < k" for i
  proof
    assume eq: "take 3 (drop i ?s) = ''://''"
    have "uri = take k uri @ ''://'' @ drop (k + 3) uri"
      using uri(2) append_take_drop_id [of 3 "drop k uri"] append_take_drop_id [of k uri] by (simp add: add.commute)
    then have "take 3 (drop i uri) = take 3 (drop i (take k uri) @ ''://'' @ drop (k + 3) uri)"
      using i uri(1) by (metis diff_is_0_eq drop0 drop_append length_take less_imp_le min.absorb2)
    moreover have "take 3 (drop i ?s) = take 3 (drop i (lowerAscii (take k uri)) @ ''://'' @ rest)"
      using i len by simp
    moreover have "drop i (lowerAscii (take k uri)) = map ascii_lower (drop i (take k uri))"
      by (simp add: lowerAscii_def drop_map)
    moreover have "take 3 (xs @ ''://'' @ a) = ''://'' " if "take 3 (map ascii_lower xs @ ''://'' @ b) = ''://''" "xs \<noteq> []" for xs a b
      using that by (cases xs; cases "tl xs"; cases "tl (tl xs)") (auto simp: ascii_lower_small)
    moreover have "drop i (take k uri) \<noteq> []" using i uri(1) by simp
    ultimately have "take 3 (drop i uri) = ''://''" using eq by metis
    then show False using uri(3) i by blast
  qed
  then show ?thesis using len by (simp add: find_text_Some numeral_3_eq_3)
qed

text \<open>Default ports that can be written: none of them is 0.\<close>

definition proper_ports :: "OriginPolicy \<Rightarrow> bool" where
  "proper_ports policy \<longleftrightarrow> list_all (\<lambda>(_, port). 0 < port \<and> port \<le> 65535) (op_default_ports policy)"

lemma parse_authority_origin:
  assumes "parse_authority policy scheme authority = Some origin" and "proper_ports policy"
  shows "og_scheme origin = scheme \<and> 0 < og_port origin \<and> og_port origin \<le> 65535"
  using assms by (auto simp: parse_authority_def proper_ports_def list_all_iff
      split: option.splits if_split_asm dest!: map_of_SomeD dest: parsePort_bounds)

lemma parseOrigin_key:
  assumes "parseOrigin policy uri = Some origin" and "proper_ports policy"
  shows "parseOrigin policy (originKey origin) = Some origin"
proof -
  obtain k where k: "find_text ''://'' uri = Some k" "k \<noteq> 0" using assms(1)
    by (auto simp: parseOrigin_def split: option.splits if_split_asm)
  let ?scheme = "lowerAscii (take k uri)"
  let ?authority = "takeWhile (\<lambda>c. c \<noteq> CHR ''/'') (drop (k + 3) uri)"
  have parsed: "?scheme \<in> set (op_allowed_schemes policy)" "CHR ''?'' \<notin> set uri" "CHR ''#'' \<notin> set uri"
    "parse_authority policy ?scheme ?authority = Some origin" "validHostBytes (og_host origin)"
    using assms(1) k by (auto simp: parseOrigin_def Let_def split: option.splits if_split_asm)
  have origin: "og_scheme origin = ?scheme" "0 < og_port origin" "og_port origin \<le> 65535"
    using parse_authority_origin [OF parsed(4) assms(2)] by auto
  let ?port = "to_string (og_port origin)"
  have host: "list_all host_byte (og_host origin)" "og_host origin \<noteq> []" using parsed(5) by (auto simp: validHostBytes_def)
  have port: "list_all host_byte ?port" using to_string_decimal [of "og_port origin"] decimal_digit_host
    by (auto simp: list_all_iff)
  have key: "originKey origin = ?scheme @ ''://'' @ og_host origin @ '':'' @ ?port"
    by (simp add: originKey_def origin(1))
  have len: "length ?scheme = k" using k(1) by (simp add: find_text_Some lowerAscii_def)
  have scheme: "CHR ''?'' \<notin> set ?scheme" "CHR ''#'' \<notin> set ?scheme"
    using parsed(2,3) lowerAscii_member [of "CHR ''?''" "take k uri"] lowerAscii_member [of "CHR ''#''" "take k uri"]
    by (auto dest: in_set_takeD)
  have clean: "c \<noteq> CHR ''/'' \<and> c \<noteq> CHR ''?'' \<and> c \<noteq> CHR ''#''" if "c \<in> set (og_host origin @ '':'' @ ?port)" for c
    using that host(1) port host_byte_not by (auto simp: list_all_iff)
  then have authority: "takeWhile (\<lambda>c. c \<noteq> CHR ''/'') (og_host origin @ '':'' @ ?port) = og_host origin @ '':'' @ ?port"
    by (subst takeWhile_eq_all_conv) blast
  have "CHR '':'' \<notin> set ?port" using port host_byte_not by (auto simp: list_all_iff)
  then have colon: "rfind (CHR '':'') (og_host origin @ '':'' @ ?port) = Some (length (og_host origin))"
    using rfind_last [of "CHR '':''" ?port "og_host origin"] by simp
  have "parse_authority policy ?scheme (og_host origin @ '':'' @ ?port) = Some origin"
    using host origin lowerAscii_host [OF host(1)] parsePort_to_string [OF origin(2,3)]
    unfolding parse_authority_def colon by (cases origin) simp
  moreover have "CHR ''?'' \<notin> set (og_host origin @ '':'' @ ?port)" "CHR ''#'' \<notin> set (og_host origin @ '':'' @ ?port)"
    using clean by blast+
  then have "CHR ''?'' \<notin> set (originKey origin)" "CHR ''#'' \<notin> set (originKey origin)"
    using scheme by (simp_all add: key)
  moreover have "find_text ''://'' (originKey origin) = Some k"
    unfolding key by (rule find_scheme_end [OF k(1)])
  moreover have "take k (originKey origin) = ?scheme" "drop (k + 3) (originKey origin) = og_host origin @ '':'' @ ?port"
    unfolding key using len by simp_all
  ultimately show ?thesis
    using k(2) parsed(1,5) authority unfolding parseOrigin_def Let_def by (simp only: option.case lowerAscii_again) simp
qed

lemma originKey_injective:
  assumes "parseOrigin policy a = Some x" and "parseOrigin policy b = Some y" and "proper_ports policy" and "originKey x = originKey y"
  shows "x = y"
  using parseOrigin_key [OF assms(1,3)] parseOrigin_key [OF assms(2,3)] assms(4) by (metis option.inject)


subsection \<open>Completion\<close>

text \<open>What was recorded last for a topic.\<close>

definition last_outcome :: "(string \<times> TopicOutcome) list \<Rightarrow> string \<Rightarrow> TopicOutcome" where
  "last_outcome records topic = (case map_of (rev records) topic of None \<Rightarrow> TopicPending | Some r \<Rightarrow> r)"

definition record_all :: "(string \<times> TopicOutcome) list \<Rightarrow> ledger \<Rightarrow> ledger" where
  "record_all records ledger = fold (\<lambda>(t, r) l. fst (record_outcome t r l)) records ledger"

lemma map_of_recorded:
  "map_of (map (\<lambda>(t, old). (t, if t = topic then r else old)) l) t
    = (if t = topic then map_option (\<lambda>_. r) (map_of l t) else map_of l t)"
  by (induction l) auto

lemma record_outcome_topics: "map fst (fst (record_outcome t r l)) = map fst l"
  by (auto simp: record_outcome_def)

lemma record_all_topics: "map fst (record_all records l) = map fst l"
  unfolding record_all_def by (induction records arbitrary: l) (auto simp: record_outcome_topics)

lemma record_all_outcome:
  "map_of (record_all records l) t = (case map_of l t of None \<Rightarrow> None
     | Some old \<Rightarrow> Some (case map_of (rev records) t of None \<Rightarrow> old | Some r \<Rightarrow> r))"
proof (induction records arbitrary: l)
  case Nil
  then show ?case by (simp add: record_all_def split: option.split)
next
  case (Cons x records)
  obtain u r where x: "x = (u, r)" by (cases x)
  have step: "record_all (x # records) l = record_all records (fst (record_outcome u r l))"
    by (simp add: record_all_def x)
  have "map_of (fst (record_outcome u r l)) t = (if t = u then map_option (\<lambda>_. r) (map_of l t) else map_of l t)"
    by (auto simp: record_outcome_def map_of_recorded)
  then show ?case unfolding step Cons.IH by (auto simp: x map_add_def split: option.split)
qed

lemma completion_loop_iff:
  "completion_loop flags l = (IngestCompleted, f) \<longleftrightarrow> (\<forall>x\<in>set l. snd x \<in> {TopicOk, TopicEmptyOk})
     \<and> f = (if \<exists>x\<in>set l. snd x = TopicEmptyOk then flags OR ATTESTS_EMPTY_TOPICS else flags)"
proof (induction flags l rule: completion_loop.induct)
  case (3 flags t rest)
  have "(flags OR ATTESTS_EMPTY_TOPICS) OR ATTESTS_EMPTY_TOPICS = flags OR ATTESTS_EMPTY_TOPICS" by (simp add: or.assoc)
  with 3 show ?case by auto
qed auto

lemma completion_of_records:
  assumes "l = record_all records (new_ledger topics)"
  shows "computeCompletion l False = (IngestCompleted, f) \<longleftrightarrow>
    (\<forall>t\<in>set topics. last_outcome records t \<in> {TopicOk, TopicEmptyOk})
    \<and> f = (if \<exists>t\<in>set topics. last_outcome records t = TopicEmptyOk then ATTESTS_EMPTY_TOPICS else 0)"
proof -
  have "map fst l = sort (remdups topics)" by (simp add: assms record_all_topics new_ledger_def comp_def)
  then have fsts: "fst ` set l = set topics" "distinct (map fst l)"
    by (simp_all flip: set_map)
  have new: "map_of (new_ledger topics) t = Some TopicPending" if "t \<in> set topics" for t
    using that by (simp add: new_ledger_def map_of_map_restrict)
  have outcome: "r = last_outcome records t" if "(t, r) \<in> set l" for t r
  proof -
    have "map_of l t = Some r" using fsts(2) that by simp
    moreover have "t \<in> set topics" using fsts(1) that by force
    ultimately show ?thesis using new [of t] by (simp add: assms record_all_outcome last_outcome_def split: option.splits)
  qed
  have "(\<forall>x\<in>set l. P (snd x)) \<longleftrightarrow> (\<forall>t\<in>set topics. P (last_outcome records t))" for P
    using outcome fsts(1) by (metis (no_types, lifting) image_iff prod.collapse)
  from this [of "\<lambda>r. r \<in> {TopicOk, TopicEmptyOk}"] this [of "\<lambda>r. r \<noteq> TopicEmptyOk"]
  show ?thesis by (simp add: computeCompletion_def completion_loop_iff) blast
qed

subsection \<open>Groups of settings\<close>

lemma alphabet_distinct: "distinct kBase64UrlAlphabet" by code_simp

lemma alphabet_length: "length kBase64UrlAlphabet = 64" by code_simp

lemma low_six: "x AND 0x3f = take_bit 6 (x :: u32)"
  by (simp add: take_bit_eq_mask mask_numeral)

lemma sextet_eq: "sextet k v = sextet k w \<longleftrightarrow> drop_bit k v AND 0x3f = drop_bit k w AND (0x3f :: u32)"
proof -
  have "unat (x AND 0x3f :: u32) < 64" for x
  proof -
    have "x AND 0x3f = take_bit 6 x" by (simp add: take_bit_eq_mask mask_numeral)
    then show ?thesis using take_bit_nat_less_exp [of 6 "unat x"] by (simp add: unsigned_take_bit_eq)
  qed
  then show ?thesis unfolding sextet_def
    by (metis alphabet_distinct alphabet_length nth_eq_iff_index_eq unsigned_word_eqI)
qed

lemma sextet_bits:
  assumes "drop_bit k v AND 0x3f = drop_bit k w AND (0x3f :: u32)" and "j < 6"
  shows "bit v (k + j) = bit w (k + j)"
proof -
  have six: "x AND 0x3f = take_bit 6 x" for x :: u32 by (simp add: take_bit_eq_mask mask_numeral)
  have "bit (take_bit 6 (drop_bit k v)) j = bit (take_bit 6 (drop_bit k w)) j" using assms(1) by (simp add: six)
  then show ?thesis using assms(2) by (simp add: bit_take_bit_iff bit_drop_bit_eq)
qed

lemma bit_octet: "bit (octet k b) n \<longleftrightarrow> n < 32 \<and> k \<le> n \<and> n - k < 8 \<and> bit b (n - k)"
  by (auto simp: octet_def bit_push_bit_iff bit_ucast_iff dest: bit_imp_le_length)

lemma octets_eq:
  assumes "sextet 18 (octet 16 a OR octet 8 b OR octet 0 c) = sextet 18 (octet 16 a' OR octet 8 b' OR octet 0 c')"
    "sextet 12 (octet 16 a OR octet 8 b OR octet 0 c) = sextet 12 (octet 16 a' OR octet 8 b' OR octet 0 c')"
    "sextet 6 (octet 16 a OR octet 8 b OR octet 0 c) = sextet 6 (octet 16 a' OR octet 8 b' OR octet 0 c')"
    "sextet 0 (octet 16 a OR octet 8 b OR octet 0 c) = sextet 0 (octet 16 a' OR octet 8 b' OR octet 0 c')"
  shows "a = a' \<and> b = b' \<and> c = c'"
proof -
  let ?v = "octet 16 a OR octet 8 b OR octet 0 c"
  let ?w = "octet 16 a' OR octet 8 b' OR octet 0 c'"
  note bits = assms [unfolded sextet_eq, THEN sextet_bits]
  have all: "bit ?v n = bit ?w n" if "n < 24" for n
  proof -
    have n: "n = 6 * (n div 6) + n mod 6" "n mod 6 < 6" "n div 6 < 4" using that by auto
    consider "n div 6 = 0" | "n div 6 = 1" | "n div 6 = 2" | "n div 6 = 3" using n(3) by linarith
    then show ?thesis
    proof cases
      case 1
      then show ?thesis using bits(4) [OF n(2)] n(1) by simp
    next
      case 2
      then show ?thesis using bits(3) [OF n(2)] n(1) by simp
    next
      case 3
      then show ?thesis using bits(2) [OF n(2)] n(1) by simp
    next
      case 4
      then show ?thesis using bits(1) [OF n(2)] n(1) by simp
    qed
  qed
  have "bit a i = bit a' i" "bit b i = bit b' i" "bit c i = bit c' i" if i: "i < 8" for i
    using all [of "16 + i"] all [of "8 + i"] all [of i] i by (auto simp: bit_or_iff bit_octet)
  then show ?thesis by (auto intro!: bit_word_eqI)
qed

lemma sextets_two:
  assumes "sextet 18 (octet 16 a OR octet 8 b) = sextet 18 (octet 16 a' OR octet 8 b')"
    "sextet 12 (octet 16 a OR octet 8 b) = sextet 12 (octet 16 a' OR octet 8 b')"
    "sextet 6 (octet 16 a OR octet 8 b) = sextet 6 (octet 16 a' OR octet 8 b')"
  shows "a = a' \<and> b = b'"
proof -
  have "sextet 0 (octet 16 a OR octet 8 b) = sextet 0 (octet 16 a' OR octet 8 b')" for a b a' b'
    unfolding sextet_eq low_six by (rule bit_word_eqI) (auto simp: bit_or_iff bit_octet bit_take_bit_iff bit_drop_bit_eq)
  then show ?thesis using octets_eq [of a b 0 a' b' 0] assms by (simp add: octet_def)
qed

lemma sextets_one:
  assumes "sextet 18 (octet 16 a) = sextet 18 (octet 16 a')" "sextet 12 (octet 16 a) = sextet 12 (octet 16 a')"
  shows "a = a'"
proof -
  have "sextet 6 (octet 16 a) = sextet 6 (octet 16 a')" for a a'
    unfolding sextet_eq low_six by (rule bit_word_eqI) (auto simp: bit_or_iff bit_octet bit_take_bit_iff bit_drop_bit_eq)
  then show ?thesis using sextets_two [of a 0 a' 0] assms by (simp add: octet_def)
qed

lemma base64_injective: "base64UrlUnpadded x = base64UrlUnpadded y \<Longrightarrow> x = y"
proof (induction x arbitrary: y rule: base64UrlUnpadded.induct)
  case (1 a b c rest)
  then show ?case
    by (cases y rule: base64UrlUnpadded.cases) (auto simp: Let_def dest: octets_eq)
next
  case (2 a b)
  then show ?case by (cases y rule: base64UrlUnpadded.cases) (auto simp: Let_def dest: sextets_two)
next
  case (3 a)
  then show ?case by (cases y rule: base64UrlUnpadded.cases) (auto simp: Let_def dest: sextets_one)
next
  case 4
  then show ?case by (cases y rule: base64UrlUnpadded.cases) (auto simp: Let_def)
qed

lemma sextet_alphabet: "sextet k v \<in> set kBase64UrlAlphabet"
proof -
  have "v' AND 0x3f = take_bit 6 v'" for v' :: u32 by (simp add: take_bit_eq_mask mask_numeral)
  then have "unat (drop_bit k v AND 0x3f) < 64"
    using take_bit_nat_less_exp [of 6 "unat (drop_bit k v)"] by (simp add: unsigned_take_bit_eq)
  then show ?thesis unfolding sextet_def using alphabet_length by (metis nth_mem)
qed

lemma base64_alphabet: "set (base64UrlUnpadded x) \<subseteq> set kBase64UrlAlphabet"
  by (induction x rule: base64UrlUnpadded.induct) (simp_all add: Let_def sextet_alphabet)

lemma text_bytes_injective: "text_bytes a = text_bytes b \<Longrightarrow> a = b"
  unfolding text_bytes_def
proof (rule map_injective)
  show "inj (of_char :: char \<Rightarrow> u8)"
  proof (rule injI)
    fix c d :: char
    assume "(of_char c :: u8) = of_char d"
    then have bits: "bit (of_char c :: u8) n = bit (of_char d :: u8) n" for n by simp
    show "c = d"
    proof (cases c, cases d)
      fix a0 a1 a2 a3 a4 a5 a6 a7 b0 b1 b2 b3 b4 b5 b6 b7
      assume c: "c = Char a0 a1 a2 a3 a4 a5 a6 a7" and d: "d = Char b0 b1 b2 b3 b4 b5 b6 b7"
      show ?thesis
        using bits [of 0] bits [of 1] bits [of 2] bits [of 3] bits [of 4] bits [of 5] bits [of 6] bits [of 7]
        unfolding c d of_char_def bit_horner_sum_bit_iff char.sel by (simp add: possible_bit_word nth_Cons')
    qed
  qed
qed

text \<open>Two sources never share a group of settings, and no source's group is inside another's.\<close>

lemma settings_group_injective:
  "sourcePresentationSettingsGroup a = sourcePresentationSettingsGroup b \<longleftrightarrow> a = b"
  using base64_injective text_bytes_injective by (auto simp: sourcePresentationSettingsGroup_def)


subsection \<open>What a presentation keeps\<close>

definition utf8 :: "nat \<Rightarrow> nat list" where
  "utf8 c = (if c < 0x80 then [c]
     else if c < 0x800 then [0xc0 + c div 64, 0x80 + c mod 64]
     else if c < 0x10000 then [0xe0 + c div 4096, 0x80 + c div 64 mod 64, 0x80 + c mod 64]
     else [0xf0 + c div 262144, 0x80 + c div 4096 mod 64, 0x80 + c div 64 mod 64, 0x80 + c mod 64])"

definition utf16_units :: "nat \<Rightarrow> nat" where "utf16_units c = (if c \<ge> 0x10000 then 2 else 1)"

text \<open>The code points that are kept: no control or format characters, as many as the units allow.\<close>

fun capped :: "nat \<Rightarrow> nat list \<Rightarrow> nat list" where
  "capped used [] = []"
| "capped used (c # cs) = (if isControlOrFormat c then capped used cs
     else if used + utf16_units c > kMaxPresentationChars then [] else c # capped (used + utf16_units c) cs)"

lemma trailing_byte:
  assumes "y < 64"
  shows "continuation (128 + y)" and "(128 + y) mod 64 = y"
proof -
  have "(128 + y) div 64 = 2" using assms by simp
  then show "continuation (128 + y)" by (simp add: continuation_def)
  show "(128 + y) mod 64 = y" using mod_mult_self3 [of 2 64 y] assms by simp
qed

lemma utf8_step_two:
  assumes "2 \<le> x" "x < 32" "y < 64"
  shows "utf8_step ((192 + x) # (128 + y) # rest) = (2, 1, x * 64 + y)"
proof -
  have "(192 + x) mod 32 = x" using mod_mult_self3 [of 6 32 x] assms by simp
  moreover have "lead_width (192 + x) = 2" using assms by (simp add: lead_width_def)
  ultimately show ?thesis using trailing_byte [OF assms(3)] by (simp add: utf8_step_def)
qed

lemma utf8_step_three:
  assumes "x < 16" "y < 64" "z < 64"
  shows "utf8_step ((224 + x) # (128 + y) # (128 + z) # rest) = (3, 1, x * 4096 + y * 64 + z)"
proof -
  have "(224 + x) mod 16 = x" using mod_mult_self3 [of 14 16 x] assms by simp
  moreover have "lead_width (224 + x) = 3" using assms by (simp add: lead_width_def)
  ultimately show ?thesis using trailing_byte [OF assms(2)] trailing_byte [OF assms(3)] by (simp add: utf8_step_def)
qed

lemma utf8_step_four:
  assumes "x \<le> 4" "t < 64" "y < 64" "z < 64"
  shows "utf8_step ((240 + x) # (128 + t) # (128 + y) # (128 + z) # rest) = (4, 2, 0x10000)"
proof -
  have "lead_width (240 + x) = 4" using assms by (simp add: lead_width_def)
  then show ?thesis using trailing_byte [OF assms(2)] trailing_byte [OF assms(3)] trailing_byte [OF assms(4)]
    by (simp add: utf8_step_def)
qed

lemma utf8_step_encoded:
  assumes "c < 0x110000"
  shows "utf8_step (utf8 c @ rest) = (length (utf8 c), utf16_units c, min c 0x10000)"
proof -
  have low: "m mod 64 < 64" for m :: nat by simp
  consider "c < 0x80" | "0x80 \<le> c" "c < 0x800" | "0x800 \<le> c" "c < 0x10000" | "0x10000 \<le> c" by linarith
  then show ?thesis
  proof cases
    case 1
    then show ?thesis by (simp add: utf8_step_def utf8_def lead_width_def utf16_units_def)
  next
    case 2
    then have "c div 64 < 32" "2 \<le> c div 64" by (simp_all add: less_mult_imp_div_less less_eq_div_iff_mult_less_eq)
    from utf8_step_two [OF this(2,1) low] show ?thesis
      using 2 div_mult_mod_eq [of c 64] by (simp add: utf8_def utf16_units_def)
  next
    case 3
    then have "c div 4096 < 16" by (simp add: less_mult_imp_div_less)
    note step = utf8_step_three [OF this low low]
    have "c div 4096 = c div 64 div 64" by (simp flip: div_mult2_eq)
    then have "c div 4096 * 4096 + c div 64 mod 64 * 64 + c mod 64 = c"
      using div_mult_mod_eq [of "c div 64" 64] div_mult_mod_eq [of c 64] by linarith
    then show ?thesis using 3 step [of "c div 64" c rest] by (simp add: utf8_def utf16_units_def)
  next
    case 4
    have "c div 262144 < 5" using assms by (simp add: less_mult_imp_div_less)
    then have "c div 262144 \<le> 4" by linarith
    from utf8_step_four [OF this low low low] show ?thesis using 4 by (simp add: utf8_def utf16_units_def)
  qed
qed

lemma control_min: "isControlOrFormat (min c 0x10000) = isControlOrFormat c"
  by (auto simp: isControlOrFormat_def min_def)

lemma utf8_Cons: obtains b r where "utf8 c = b # r" "length (utf8 c) = Suc (length r)"
  by (cases "utf8 c") (auto simp: utf8_def split: if_splits)

lemma cap_loop_encoded:
  assumes "\<forall>c\<in>set cs. c < 0x110000"
  shows "cap_loop used (concat (map utf8 cs)) = concat (map utf8 (capped used cs))"
  using assms
proof (induction cs arbitrary: used)
  case (Cons c cs)
  obtain b r where u: "utf8 c = b # r" by (rule utf8_Cons [of c])
  have step: "utf8_step (b # r @ concat (map utf8 cs)) = (Suc (length r), utf16_units c, min c 0x10000)"
    using utf8_step_encoded [of c "concat (map utf8 cs)"] Cons.prems u by simp
  show ?case using Cons by (simp add: u step control_min)
qed simp

lemma capPresentation_encoded:
  "\<forall>c\<in>set cs. c < 0x110000 \<Longrightarrow> capPresentation (concat (map utf8 cs)) = concat (map utf8 (capped 0 cs))"
  by (simp add: capPresentation_def cap_loop_encoded)

lemma capped_clean: "list_all (\<lambda>c. \<not> isControlOrFormat c) (capped used cs)"
proof (induction used cs rule: capped.induct)
  case (2 used c cs)
  then show ?case by simp
qed simp

lemma capped_units: "used \<le> kMaxPresentationChars \<Longrightarrow> used + sum_list (map utf16_units (capped used cs)) \<le> kMaxPresentationChars"
  by (induction used cs rule: capped.induct) auto

lemma utf8_step_size: "utf8_step (b # s) = (width, units, c) \<Longrightarrow> width \<le> 3 * units \<and> 0 < units"
proof -
  have "1 \<le> lead_width b \<and> lead_width b \<le> 4" by (simp add: lead_width_def)
  then show "utf8_step (b # s) = (width, units, c) \<Longrightarrow> width \<le> 3 * units \<and> 0 < units"
    by (auto simp: utf8_step_def Let_def split: if_split_asm)
qed

lemma cap_loop_size: "used \<le> kMaxPresentationChars \<Longrightarrow> 3 * used + length (cap_loop used s) \<le> 3 * kMaxPresentationChars"
proof (induction used s rule: cap_loop.induct)
  case (2 used b s)
  obtain width units c where step: "utf8_step (b # s) = (width, units, c)" by (cases "utf8_step (b # s)") auto
  have "length (take width (b # s)) \<le> 3 * units" using utf8_step_size [OF step] by (simp add: min.coboundedI2)
  moreover have "3 * (used + units) + length (cap_loop (used + units) (drop (width - 1) s)) \<le> 3 * kMaxPresentationChars"
    if "\<not> isControlOrFormat c" "\<not> kMaxPresentationChars < used + units"
    using 2(2) [OF step [symmetric] refl that] that(2) by simp
  moreover have "3 * used + length (cap_loop used (drop (width - 1) s)) \<le> 3 * kMaxPresentationChars" if "isControlOrFormat c"
    using 2(1) [OF step [symmetric] refl that] 2(3) by simp
  ultimately show ?case using 2(3) step by (simp del: drop_append take_Cons' length_take) linarith
qed simp

end
