(* ===== verification/RequestCache.thy ===== *)
theory RequestCache
  imports SharedDirectory SourceTrust
begin

section \<open>The request cache of the source providers\<close>

text \<open>
  \<open>pj_base/src/source/request_cache.cpp\<close>: one validated file per request identity. The constructor's validator is a
  parameter: what it is given of the file it opens (nothing when there is none), the digest, and its reason when it
  rejects.
\<close>

type_synonym validator = "bytes option \<Rightarrow> string \<Rightarrow> string option"

record CacheSpec =
  cs_root :: string
  cs_artifact_suffix :: string
  cs_identity :: IdentityScheme

record CacheError =
  ce_message :: string
  ce_retryable :: bool

definition final_error :: "string \<Rightarrow> CacheError" where
  "final_error message = \<lparr>ce_message = message, ce_retryable = False\<rparr>"

record CleanupPolicy =
  cp_max_total_bytes :: u64
  cp_min_free_bytes :: u64
  cp_orphan_partial_age :: int

record CleanupResult =
  cr_bytes_scanned :: u64
  cr_bytes_reclaimed :: u64
  cr_bytes_held_over_target :: u64
  cr_target_met :: bool
  cr_had_errors :: bool

definition new_CleanupResult :: CleanupResult where
  "new_CleanupResult = \<lparr>cr_bytes_scanned = 0, cr_bytes_reclaimed = 0, cr_bytes_held_over_target = 0,
     cr_target_met = True, cr_had_errors = False\<rparr>"

definition saturatedAdd :: "u64 \<Rightarrow> u64 \<Rightarrow> u64" where
  "saturatedAdd a b = (if b > (- 1) - a then - 1 else a + b)"

subsection \<open>Names\<close>

definition artifact :: "CacheSpec \<Rightarrow> string \<Rightarrow> file_name" where
  "artifact sp digest = digest @ cs_artifact_suffix sp"

definition lockOf :: "file_name \<Rightarrow> file_name" where "lockOf a = a @ ''.lock''"

definition touchOf :: "file_name \<Rightarrow> file_name" where "touchOf a = a @ ''.touch''"

definition partialOf :: "nat \<Rightarrow> file_name \<Rightarrow> file_name" where "partialOf pid a = a @ ''.partial.'' @ to_string pid"

datatype Classified = KArtifact | KPartial file_name | KOther

definition classify :: "CacheSpec \<Rightarrow> file_name \<Rightarrow> Classified" where
  "classify sp name =
     (let hex = hexChars (cs_identity sp); rest = drop hex name; marker = cs_artifact_suffix sp @ ''.partial.''
      in if \<not> (length name \<ge> hex \<and> list_all lower_hex (take hex name)) then KOther
         else if rest = cs_artifact_suffix sp then KArtifact
         else if length rest > length marker \<and> take (length marker) rest = marker
           \<and> list_all decimal_digit (drop (length marker) rest)
         then KPartial (take hex name @ cs_artifact_suffix sp)
         else KOther)"

text \<open>The path of a name, as the messages show it.\<close>

definition path_string :: "CacheSpec \<Rightarrow> file_name \<Rightarrow> string" where
  "path_string sp n = (if last (cs_root sp) = CHR ''/'' then cs_root sp @ n else cs_root sp @ ''/'' @ n)"

definition tryExclusive :: "CacheSpec \<Rightarrow> file_name \<Rightarrow> (bool \<times> string + nat) prog" where
  "tryExclusive sp n = tryAcquire (path_string sp n) n LockExclusive"

definition tryShared :: "CacheSpec \<Rightarrow> file_name \<Rightarrow> (string + nat) prog" where
  "tryShared sp n = then_do (tryAcquire (path_string sp n) n LockShared) (\<lambda>r. Ret (map_sum snd id r))"

subsection \<open>The stamps of the files\<close>

definition touchStamp :: "file_name \<Rightarrow> unit prog" where
  "touchStamp a = then_do (create_empty (touchOf a)) (\<lambda>_. then_do clock_now (\<lambda>now. set_write_time (touchOf a) now))"

definition readLruStamp :: "file_name \<Rightarrow> (int option \<times> error_code) prog" where
  "readLruStamp a = then_do (last_write_time (touchOf a)) (\<lambda>r. case r of
     Inr stamp \<Rightarrow> Ret (Some stamp, EcNone)
   | Inl _ \<Rightarrow> then_do (last_write_time a) (\<lambda>r. Ret (case r of
       Inr stamp \<Rightarrow> (Some stamp, EcNone) | Inl ec \<Rightarrow> (None, ec))))"

definition isMissing :: "error_code \<Rightarrow> bool" where "isMissing ec \<longleftrightarrow> ec = EcMissing"

definition noteErrorUnlessMissing :: "error_code \<Rightarrow> CleanupResult \<Rightarrow> CleanupResult" where
  "noteErrorUnlessMissing ec r = (if is_error ec \<and> \<not> isMissing ec then r\<lparr>cr_had_errors := True\<rparr> else r)"

definition cleanupResultSummary :: "CleanupResult \<Rightarrow> string" where
  "cleanupResultSummary r =
     ''cache cleanup scanned '' @ to_string (unat (cr_bytes_scanned r)) @ '' bytes and reclaimed '' @
     to_string (unat (cr_bytes_reclaimed r)) @ '' bytes; target '' @ (if cr_target_met r then ''met'' else ''not met'') @
     (if cr_bytes_held_over_target r \<noteq> 0
      then '', '' @ to_string (unat (cr_bytes_held_over_target r)) @ '' bytes remain over target'' else []) @
     (if cr_had_errors r then '', filesystem or lock errors occurred'' else [])"

subsection \<open>Write transactions\<close>

record Hit =
  hit_path :: file_name
  hit_lease :: nat

record WriteTransaction =
  wt_digest :: string
  wt_artifact :: file_name
  wt_partial :: file_name
  wt_lock :: nat
  wt_finished :: bool

definition validate_file :: "validator \<Rightarrow> file_name \<Rightarrow> string \<Rightarrow> string option prog" where
  "validate_file v n digest = system_call (\<lambda>w. (w, v (map_option en_content (entry_of w n)) digest))"

text \<open>\<open>commit\<close>: how it fails, the hand-over of the lock, and the whole.\<close>

definition commit_fail :: "WriteTransaction \<Rightarrow> string \<Rightarrow> (CacheError + Hit) prog" where
  "commit_fail t reason = then_do (remove_file (wt_partial t)) (\<lambda>_.
     then_do (release_lock (wt_lock t)) (\<lambda>_. Ret (Inl (final_error reason))))"

definition commit_lease :: "CacheSpec \<Rightarrow> WriteTransaction \<Rightarrow> (CacheError + Hit) prog" where
  "commit_lease sp t = then_do (downgradeToShared (wt_lock t) (lockOf (wt_artifact t))) (\<lambda>r. case r of
     Inr h \<Rightarrow> Ret (Inr \<lparr>hit_path = wt_artifact t, hit_lease = h\<rparr>)
   | Inl _ \<Rightarrow> then_do (tryShared sp (lockOf (wt_artifact t))) (\<lambda>r. case r of
       Inl _ \<Rightarrow> Ret (Inl \<lparr>ce_message = ''published, but the read lease was lost to a concurrent holder; retry the lookup'',
         ce_retryable = True\<rparr>)
     | Inr h \<Rightarrow> then_do (is_regular_file (wt_artifact t)) (\<lambda>(regular, ec).
         if \<not> regular \<or> is_error ec
         then then_do (release_lock h) (\<lambda>_. Ret (Inl (final_error ''artifact vanished during the lease handoff'')))
         else Ret (Inr \<lparr>hit_path = wt_artifact t, hit_lease = h\<rparr>))))"

definition publish :: "CacheSpec \<Rightarrow> WriteTransaction \<Rightarrow> (CacheError + Hit) prog" where
  "publish sp t = then_do (syncFile (path_string sp (wt_partial t)) (wt_partial t)) (\<lambda>failed. case failed of
     Some reason \<Rightarrow> commit_fail t reason
   | None \<Rightarrow> then_do (rename_file (wt_partial t) (wt_artifact t)) (\<lambda>ec.
       if is_error ec then commit_fail t (''atomic rename failed: '' @ ec_message ec)
       else then_do (touchStamp (wt_artifact t)) (\<lambda>_. commit_lease sp t)))"

definition commit :: "CacheSpec \<Rightarrow> validator option \<Rightarrow> WriteTransaction \<Rightarrow> (CacheError + Hit) prog" where
  "commit sp validator t =
     (if wt_finished t then Ret (Inl (final_error ''write transaction already finished''))
      else let what = ''cache commit rejected '' @ wt_partial t @ '': '' in case validator of
        None \<Rightarrow> commit_fail t (what @ ''no artifact validator configured'')
      | Some v \<Rightarrow> then_do (validate_file v (wt_partial t) (wt_digest t)) (\<lambda>rejected. case rejected of
          Some reason \<Rightarrow> commit_fail t (what @ reason)
        | None \<Rightarrow> publish sp t))"

definition abort :: "WriteTransaction \<Rightarrow> unit prog" where
  "abort t = (if wt_finished t then Ret ()
     else then_do (remove_file (wt_partial t)) (\<lambda>_. release_lock (wt_lock t)))"

subsection \<open>The operations that an identity addresses\<close>

text \<open>\<open>resolveIdentity\<close>: the digest and the artifact.\<close>

definition resolveIdentity :: "CacheSpec \<Rightarrow> string \<Rightarrow> bool \<Rightarrow> (CacheError + string \<times> file_name) prog" where
  "resolveIdentity sp identity create_root = (case digestOf (cs_identity sp) identity of
     None \<Rightarrow> Ret (Inl (final_error (''invalid descriptor identity (want '' @ is_prefix (cs_identity sp) @ ''<'' @
       to_string (hexChars (cs_identity sp)) @ '' lowercase hex>)'')))
   | Some digest \<Rightarrow>
       if cs_root sp = [] then Ret (Inl (final_error ''cache root is not configured''))
       else then_do (if create_root then ensureDir0700 else Ret ()) (\<lambda>_. Ret (Inr (digest, artifact sp digest))))"

definition pathFor :: "CacheSpec \<Rightarrow> string \<Rightarrow> file_name prog" where
  "pathFor sp identity = then_do (resolveIdentity sp identity False) (\<lambda>r. Ret (case r of Inr (_, a) \<Rightarrow> a | Inl _ \<Rightarrow> []))"

text \<open>\<open>lookup\<close>: the shared lock first, then the validation under it.\<close>

definition validated_hit :: "validator \<Rightarrow> string \<Rightarrow> file_name \<Rightarrow> nat \<Rightarrow> (string + Hit) prog" where
  "validated_hit v digest a h = then_do (validate_file v a digest) (\<lambda>rejected. case rejected of
     Some reason \<Rightarrow> then_do (release_lock h) (\<lambda>_. Ret (Inl (''artifact rejected: '' @ reason)))
   | None \<Rightarrow> then_do (touchStamp a) (\<lambda>_. Ret (Inr \<lparr>hit_path = a, hit_lease = h\<rparr>)))"

definition lookup_artifact :: "CacheSpec \<Rightarrow> validator option \<Rightarrow> string \<Rightarrow> file_name \<Rightarrow> (string + Hit) prog" where
  "lookup_artifact sp validator digest a = (case validator of
     None \<Rightarrow> Ret (Inl ''no artifact validator configured'')
   | Some v \<Rightarrow> then_do (is_regular_file a) (\<lambda>(regular, ec).
       if \<not> regular \<or> is_error ec then Ret (Inl ''no artifact for this identity'')
       else then_do (tryShared sp (lockOf a)) (\<lambda>lease. case lease of
         Inl lease_error \<Rightarrow> Ret (Inl (''artifact is locked by a materialization or eviction (retry): '' @ lease_error))
       | Inr h \<Rightarrow> validated_hit v digest a h)))"

definition lookup :: "CacheSpec \<Rightarrow> validator option \<Rightarrow> string \<Rightarrow> (string + Hit) prog" where
  "lookup sp validator identity = then_do (resolveIdentity sp identity False) (\<lambda>resolved. case resolved of
     Inl e \<Rightarrow> Ret (Inl (ce_message e))
   | Inr (digest, a) \<Rightarrow> lookup_artifact sp validator digest a)"

definition acquireReadLease :: "CacheSpec \<Rightarrow> string \<Rightarrow> (CacheError + Hit) prog" where
  "acquireReadLease sp identity = then_do (resolveIdentity sp identity True) (\<lambda>resolved. case resolved of
     Inl e \<Rightarrow> Ret (Inl e)
   | Inr (digest, a) \<Rightarrow> then_do (tryShared sp (lockOf a)) (\<lambda>lease. Ret (case lease of
       Inl lock_error \<Rightarrow> Inl \<lparr>ce_message = ''cache read lease unavailable: '' @ lock_error, ce_retryable = True\<rparr>
     | Inr h \<Rightarrow> Inr \<lparr>hit_path = a, hit_lease = h\<rparr>)))"

definition beginWrite :: "CacheSpec \<Rightarrow> nat \<Rightarrow> string \<Rightarrow> (CacheError + WriteTransaction) prog" where
  "beginWrite sp pid identity = then_do (resolveIdentity sp identity True) (\<lambda>resolved. case resolved of
     Inl e \<Rightarrow> Ret (Inl e)
   | Inr (digest, a) \<Rightarrow> then_do (tryExclusive sp (lockOf a)) (\<lambda>lock. Ret (case lock of
       Inl (contended, lock_error) \<Rightarrow>
         Inl \<lparr>ce_message = ''cache materialize lock unavailable: '' @ lock_error, ce_retryable = contended\<rparr>
     | Inr h \<Rightarrow> Inr \<lparr>wt_digest = digest, wt_artifact = a, wt_partial = partialOf pid a, wt_lock = h, wt_finished = False\<rparr>)))"

subsection \<open>Cleaning up\<close>

record StalePartial =
  sp_file :: file_name
  sp_artifact :: file_name

record EvictionCandidate =
  ec_file :: file_name
  ec_size :: u64
  ec_stamp :: int

record Scan =
  sc_stale_partials :: "StalePartial list"
  sc_candidates :: "EvictionCandidate list"
  sc_total :: u64

text \<open>The age of a policy in ticks of the file clock, and the least time of that clock.\<close>

definition age_ticks :: "CleanupPolicy \<Rightarrow> int" where "age_ticks policy = cp_orphan_partial_age policy * 3600000000000"

definition file_time_min :: int where "file_time_min = - (2 ^ 63)"

definition note_error :: "CleanupResult \<Rightarrow> CleanupResult" where "note_error r = r\<lparr>cr_had_errors := True\<rparr>"

definition scan_partial :: "CleanupPolicy \<Rightarrow> int \<Rightarrow> file_name \<Rightarrow> file_name \<Rightarrow> Scan \<Rightarrow> CleanupResult \<Rightarrow> (Scan \<times> CleanupResult) prog" where
  "scan_partial policy now n a scan r = then_do (last_write_time n) (\<lambda>mtime. Ret (case mtime of
     Inl _ \<Rightarrow> (scan, note_error r)
   | Inr mtime \<Rightarrow>
       if now - mtime \<ge> age_ticks policy
       then (scan\<lparr>sc_stale_partials := sc_stale_partials scan @ [\<lparr>sp_file = n, sp_artifact = a\<rparr>]\<rparr>, r) else (scan, r)))"

definition scan_artifact :: "file_name \<Rightarrow> Scan \<Rightarrow> CleanupResult \<Rightarrow> (Scan \<times> CleanupResult) prog" where
  "scan_artifact n scan r = then_do (file_size n) (\<lambda>sz. case sz of
     Inl _ \<Rightarrow> Ret (scan, note_error r)
   | Inr sz \<Rightarrow> then_do (readLruStamp n) (\<lambda>(stamp, _). Ret
       (scan\<lparr>sc_total := saturatedAdd (sc_total scan) sz,
             sc_candidates := sc_candidates scan @
               [\<lparr>ec_file = n, ec_size = sz, ec_stamp = (case stamp of Some s \<Rightarrow> s | None \<Rightarrow> file_time_min)\<rparr>]\<rparr>, r)))"

definition scan_entry :: "CacheSpec \<Rightarrow> CleanupPolicy \<Rightarrow> int \<Rightarrow> file_name \<Rightarrow> Scan \<Rightarrow> CleanupResult \<Rightarrow> (Scan \<times> CleanupResult) prog" where
  "scan_entry sp policy now n scan r = then_do (is_regular_file n) (\<lambda>(regular, ec).
     if \<not> regular \<or> is_error ec then Ret (scan, if is_error ec then note_error r else r)
     else case classify sp n of
       KPartial a \<Rightarrow> scan_partial policy now n a scan r
     | KArtifact \<Rightarrow> scan_artifact n scan r
     | KOther \<Rightarrow> Ret (scan, r))"

primrec scan_names :: "CacheSpec \<Rightarrow> CleanupPolicy \<Rightarrow> int \<Rightarrow> file_name list \<Rightarrow> Scan \<Rightarrow> CleanupResult \<Rightarrow> (bool \<times> Scan \<times> CleanupResult) prog" where
  "scan_names sp policy now [] scan r = Ret (True, scan, r)"
| "scan_names sp policy now (n # names) scan r = then_do (scan_entry sp policy now n scan r) (\<lambda>(scan, r).
     then_do increment_ok (\<lambda>ok. if ok then scan_names sp policy now names scan r else Ret (False, scan, r)))"

definition new_Scan :: Scan where "new_Scan = \<lparr>sc_stale_partials = [], sc_candidates = [], sc_total = 0\<rparr>"

definition scanRoot :: "CacheSpec \<Rightarrow> CleanupPolicy \<Rightarrow> CleanupResult \<Rightarrow> (Scan \<times> CleanupResult) prog" where
  "scanRoot sp policy r = then_do clock_now (\<lambda>now. then_do open_directory (\<lambda>names. 
     then_do (case names of None \<Rightarrow> Ret (False, new_Scan, r) | Some names \<Rightarrow> scan_names sp policy now names new_Scan r)
       (\<lambda>(ok, scan, r). Ret (scan, if ok then r else r\<lparr>cr_target_met := False, cr_had_errors := True\<rparr>))))"

text \<open>What is done to one stale partial under its lock.\<close>

definition remove_partial :: "CleanupPolicy \<Rightarrow> file_name \<Rightarrow> CleanupResult \<Rightarrow> CleanupResult prog" where
  "remove_partial policy n r = then_do (is_regular_file n) (\<lambda>(regular, ec).
     if \<not> regular then Ret (noteErrorUnlessMissing ec r)
     else then_do (last_write_time n) (\<lambda>mtime. case mtime of
       Inl ec \<Rightarrow> Ret (noteErrorUnlessMissing ec r)
     | Inr mtime \<Rightarrow> then_do clock_now (\<lambda>now.
         if now - mtime < age_ticks policy then Ret r
         else then_do (file_size n) (\<lambda>sz. then_do (remove_file n) (\<lambda>(removed, ec).
           let r = noteErrorUnlessMissing ec r in Ret (case sz of
             Inr sz \<Rightarrow> if \<not> is_error ec \<and> removed
               then r\<lparr>cr_bytes_reclaimed := saturatedAdd (cr_bytes_reclaimed r) sz\<rparr> else r
           | Inl _ \<Rightarrow> r))))))"

definition locked :: "CacheSpec \<Rightarrow> file_name \<Rightarrow> (bool \<Rightarrow> 'a) \<Rightarrow> 'a prog \<Rightarrow> 'a prog" where
  "locked sp a refused body = then_do (tryExclusive sp (lockOf a)) (\<lambda>lock. case lock of
     Inl (contended, _) \<Rightarrow> Ret (refused contended)
   | Inr h \<Rightarrow> then_do body (\<lambda>r. then_do (release_lock h) (\<lambda>_. Ret r)))"

definition note_lock :: "CleanupResult \<Rightarrow> bool \<Rightarrow> CleanupResult" where
  "note_lock r contended = r\<lparr>cr_had_errors := cr_had_errors r \<or> \<not> contended\<rparr>"

primrec removeStalePartials :: "CacheSpec \<Rightarrow> StalePartial list \<Rightarrow> CleanupPolicy \<Rightarrow> CleanupResult \<Rightarrow> CleanupResult prog" where
  "removeStalePartials sp [] policy r = Ret r"
| "removeStalePartials sp (p # ps) policy r =
     then_do (locked sp (sp_artifact p) (note_lock r) (remove_partial policy (sp_file p) r))
       (\<lambda>r. removeStalePartials sp ps policy r)"

text \<open>What is counted while evicting: the total, the free space when it is asked for, and the result.\<close>

record Eviction =
  ev_total :: u64
  ev_available :: "u64 option"
  ev_result :: CleanupResult

definition bytesOverTarget :: "CleanupPolicy \<Rightarrow> Eviction \<Rightarrow> u64" where
  "bytesOverTarget policy s =
     (let size_excess = (if ev_total s > cp_max_total_bytes policy then ev_total s - cp_max_total_bytes policy else 0);
          free_deficit = (case ev_available s of
            Some available \<Rightarrow> if available < cp_min_free_bytes policy then cp_min_free_bytes policy - available else 0
          | None \<Rightarrow> 0)
      in max size_excess free_deficit)"

definition map_result :: "(CleanupResult \<Rightarrow> CleanupResult) \<Rightarrow> Eviction \<Rightarrow> Eviction" where
  "map_result f s = s\<lparr>ev_result := f (ev_result s)\<rparr>"

definition credit :: "u64 \<Rightarrow> Eviction \<Rightarrow> Eviction" where
  "credit sz s = \<lparr>ev_total = ev_total s - sz,
     ev_available = map_option (\<lambda>available. saturatedAdd available sz) (ev_available s),
     ev_result = (ev_result s)\<lparr>cr_bytes_reclaimed := saturatedAdd (cr_bytes_reclaimed (ev_result s)) sz\<rparr>\<rparr>"

text \<open>What is done to one victim under its lock.\<close>

definition evict_victim :: "EvictionCandidate \<Rightarrow> Eviction \<Rightarrow> Eviction prog" where
  "evict_victim victim s = then_do (is_regular_file (ec_file victim)) (\<lambda>(regular, ec).
     if \<not> regular then Ret (map_result (noteErrorUnlessMissing ec) s)
     else then_do (file_size (ec_file victim)) (\<lambda>sz. case sz of
       Inl ec \<Rightarrow> Ret (map_result (noteErrorUnlessMissing ec) s)
     | Inr current_size \<Rightarrow>
         if current_size \<noteq> ec_size victim then Ret s
         else then_do (readLruStamp (ec_file victim)) (\<lambda>(stamp, ec). case stamp of
           None \<Rightarrow> Ret (map_result (noteErrorUnlessMissing ec) s)
         | Some current_stamp \<Rightarrow>
             if current_stamp \<noteq> ec_stamp victim then Ret s
             else then_do (remove_file (ec_file victim)) (\<lambda>(removed, ec).
               let s = map_result (noteErrorUnlessMissing ec) s in
               if is_error ec \<or> \<not> removed then Ret s
               else then_do (remove_file (touchOf (ec_file victim))) (\<lambda>(_, ec).
                 Ret (map_result (\<lambda>r. r\<lparr>cr_had_errors := cr_had_errors r \<or> is_error ec\<rparr>) (credit (ec_size victim) s)))))))"

primrec evict_loop :: "CacheSpec \<Rightarrow> CleanupPolicy \<Rightarrow> EvictionCandidate list \<Rightarrow> Eviction \<Rightarrow> Eviction prog" where
  "evict_loop sp policy [] s = Ret s"
| "evict_loop sp policy (victim # victims) s =
     (if bytesOverTarget policy s = 0 then Ret s
      else then_do (locked sp (ec_file victim) (\<lambda>contended. map_result (\<lambda>r. note_lock r contended) s) (evict_victim victim s))
        (\<lambda>s. evict_loop sp policy victims s))"

definition evictUntilUnderBudget :: "CacheSpec \<Rightarrow> EvictionCandidate list \<Rightarrow> u64 \<Rightarrow> CleanupPolicy \<Rightarrow> CleanupResult \<Rightarrow> CleanupResult prog" where
  "evictUntilUnderBudget sp candidates total_bytes policy r =
     then_do (if cp_min_free_bytes policy \<noteq> 0 then then_do free_space (\<lambda>space. Ret (map_option Some space)) else Ret (Some None))
       (\<lambda>available. case available of
          None \<Rightarrow> Ret (r\<lparr>cr_target_met := False, cr_had_errors := True\<rparr>)
        | Some available \<Rightarrow>
            then_do (evict_loop sp policy (sort_key ec_stamp candidates)
                \<lparr>ev_total = total_bytes, ev_available = available, ev_result = r\<rparr>)
              (\<lambda>s. let held = bytesOverTarget policy s
                in Ret ((ev_result s)\<lparr>cr_bytes_held_over_target := held, cr_target_met := held = 0\<rparr>)))"

definition cleanupImpl :: "CacheSpec \<Rightarrow> CleanupPolicy \<Rightarrow> unit prog \<Rightarrow> CleanupResult prog" where
  "cleanupImpl sp policy between_scan_and_evict =
     (if cs_root sp = [] then Ret new_CleanupResult
      else then_do status_of_root (\<lambda>status.
        if status = Some RsMissing then Ret new_CleanupResult
        else if status \<noteq> Some RsDirectory
        then Ret (new_CleanupResult\<lparr>cr_target_met := cp_max_total_bytes policy = - 1 \<and> cp_min_free_bytes policy = 0,
          cr_had_errors := True\<rparr>)
        else then_do (scanRoot sp policy new_CleanupResult) (\<lambda>(scan, r).
          if \<not> cr_target_met r then Ret r
          else then_do between_scan_and_evict (\<lambda>_.
            then_do (removeStalePartials sp (sc_stale_partials scan) policy (r\<lparr>cr_bytes_scanned := sc_total scan\<rparr>))
              (\<lambda>r. evictUntilUnderBudget sp (sc_candidates scan) (sc_total scan) policy r)))))"

definition cleanup :: "CacheSpec \<Rightarrow> CleanupPolicy \<Rightarrow> CleanupResult prog" where
  "cleanup sp policy = cleanupImpl sp policy (Ret ())"

end
