(* ===== verification/CacheSafety.thy ===== *)
theory CacheSafety
  imports RequestCache
begin

section \<open>Many users of one cache\<close>

text \<open>
  What holds however the system calls of several users interleave. A thread knows which locks are its own and what
  is in the files these locks protect; every step of an operation is careful, which keeps the knowledge of the other
  threads true.
\<close>

subsection \<open>Names that belong to the cache\<close>

definition is_artifact :: "CacheSpec \<Rightarrow> file_name \<Rightarrow> bool" where
  "is_artifact sp n \<longleftrightarrow> classify sp n = KArtifact"

definition artifact_digest :: "CacheSpec \<Rightarrow> file_name \<Rightarrow> string" where
  "artifact_digest sp n = take (hexChars (cs_identity sp)) n"

text \<open>The lock that protects a file: the one of its artifact.\<close>

definition guard_of :: "CacheSpec \<Rightarrow> file_name \<Rightarrow> file_name option" where
  "guard_of sp n = (case classify sp n of KArtifact \<Rightarrow> Some (lockOf n) | KPartial a \<Rightarrow> Some (lockOf a) | KOther \<Rightarrow> None)"

definition sidecar :: "CacheSpec \<Rightarrow> string \<Rightarrow> file_name \<Rightarrow> bool" where
  "sidecar sp ext n \<longleftrightarrow> length ext \<le> length n \<and> drop (length n - length ext) n = ext
     \<and> is_artifact sp (take (length n - length ext) n)"

text \<open>A file that is neither an artifact, nor a partial, nor a sidecar of an artifact.\<close>

definition foreign :: "CacheSpec \<Rightarrow> file_name \<Rightarrow> bool" where
  "foreign sp n \<longleftrightarrow> classify sp n = KOther \<and> \<not> sidecar sp ''.lock'' n \<and> \<not> sidecar sp ''.touch'' n"

lemma artifact_iff: "is_artifact sp n \<longleftrightarrow> (\<exists>d. n = d @ cs_artifact_suffix sp \<and> length d = hexChars (cs_identity sp) \<and> list_all lower_hex d)"
proof
  assume "is_artifact sp n"
  then have "hexChars (cs_identity sp) \<le> length n \<and> list_all lower_hex (take (hexChars (cs_identity sp)) n)
      \<and> drop (hexChars (cs_identity sp)) n = cs_artifact_suffix sp"
    by (auto simp: is_artifact_def classify_def Let_def split: if_splits)
  then show "\<exists>d. n = d @ cs_artifact_suffix sp \<and> length d = hexChars (cs_identity sp) \<and> list_all lower_hex d"
    by (intro exI [of _ "take (hexChars (cs_identity sp)) n"]) (metis append_take_drop_id length_take min.absorb2)
qed (auto simp: is_artifact_def classify_def Let_def)

lemma artifact_resolved:
  assumes "digestOf (cs_identity sp) identity = Some d"
  shows "is_artifact sp (artifact sp d)" and "artifact_digest sp (artifact sp d) = d"
  using assms by (auto simp: artifact_iff artifact_def artifact_digest_def digestOf_iff)

lemma artifact_length: "is_artifact sp n \<Longrightarrow> length n = hexChars (cs_identity sp) + length (cs_artifact_suffix sp)"
  by (auto simp: artifact_iff)

lemma sidecars [simp]:
  assumes "is_artifact sp a"
  shows "\<not> is_artifact sp (lockOf a)" "\<not> is_artifact sp (touchOf a)" "\<not> foreign sp (lockOf a)" "\<not> foreign sp (touchOf a)"
  using assms artifact_length [of sp a] artifact_length [of sp "lockOf a"] artifact_length [of sp "touchOf a"]
  by (auto simp: lockOf_def touchOf_def foreign_def sidecar_def)

lemma sidecars_unguarded [simp]:
  assumes "is_artifact sp a"
  shows "guard_of sp (lockOf a) = None" "guard_of sp (touchOf a) = None"
  using assms by (auto simp: artifact_iff guard_of_def classify_def lockOf_def touchOf_def Let_def list_all_append)

lemma partial_artifact:
  assumes "classify sp n = KPartial a"
  shows "is_artifact sp a"
  using assms by (auto simp: artifact_iff classify_def Let_def min_def split: if_splits)

lemma partialOf_partial: "is_artifact sp a \<Longrightarrow> classify sp (partialOf pid a) = KPartial a"
  using to_string_decimal [of pid] by (auto simp: artifact_iff classify_def partialOf_def Let_def)

lemma guard_artifact [simp]: "is_artifact sp a \<Longrightarrow> guard_of sp a = Some (lockOf a)"
  by (simp add: is_artifact_def guard_of_def)

lemma guard_partial [simp]: "classify sp n = KPartial a \<Longrightarrow> guard_of sp n = Some (lockOf a)"
  by (simp add: guard_of_def)

lemma lockOf_eq [simp]: "lockOf a = lockOf b \<longleftrightarrow> a = b"
  by (simp add: lockOf_def)

subsection \<open>Knowledge and careful steps\<close>

definition consistent :: "world \<Rightarrow> bool" where
  "consistent w \<longleftrightarrow> distinct (map fk_handle (wd_locks w)) \<and> (\<forall>l\<in>set (wd_locks w). fk_handle l < wd_next w)
     \<and> (\<forall>l\<in>set (wd_locks w). \<forall>k\<in>set (wd_locks w). fk_name l = fk_name k \<longrightarrow> fk_mode l = LockExclusive \<longrightarrow> l = k)"

definition accepted :: "CacheSpec \<Rightarrow> validator option \<Rightarrow> file_name \<Rightarrow> entry \<Rightarrow> bool" where
  "accepted sp validator n e \<longleftrightarrow> (case validator of None \<Rightarrow> False
     | Some v \<Rightarrow> v (Some (en_content e)) (artifact_digest sp n) = None)"

definition knows :: "CacheSpec \<Rightarrow> world \<Rightarrow> flock set \<Rightarrow> (file_name \<times> entry) set \<Rightarrow> bool" where
  "knows sp w H F \<longleftrightarrow> H \<subseteq> set (wd_locks w)
     \<and> (\<forall>x\<in>F. entry_of w (fst x) = Some (snd x) \<and> (\<exists>l\<in>H. guard_of sp (fst x) = Some (fk_name l)))"

text \<open>
  What a thread may do to a file: to one that is protected, only with the exclusive lock, and what it leaves under
  the name of an artifact is accepted; of the others, only to a sidecar.
\<close>

definition permitted :: "CacheSpec \<Rightarrow> validator option \<Rightarrow> flock set \<Rightarrow> file_name \<Rightarrow> entry option \<Rightarrow> bool" where
  "permitted sp v H n after \<longleftrightarrow> (case guard_of sp n of None \<Rightarrow> \<not> foreign sp n
     | Some lock \<Rightarrow> (\<exists>l\<in>H. fk_name l = lock \<and> fk_mode l = LockExclusive)
         \<and> (is_artifact sp n \<longrightarrow> (\<forall>e. after = Some e \<longrightarrow> accepted sp v n e)))"

definition careful :: "CacheSpec \<Rightarrow> validator option \<Rightarrow> flock set \<Rightarrow> world \<Rightarrow> world \<Rightarrow> flock set \<Rightarrow> bool" where
  "careful sp v H w w' H' \<longleftrightarrow> consistent w' \<and> set (wd_locks w) - H \<subseteq> set (wd_locks w') \<and> wd_next w \<le> wd_next w'
     \<and> (\<forall>l\<in>H'. l \<in> H \<or> wd_next w \<le> fk_handle l)
     \<and> (\<forall>n. entry_of w' n \<noteq> entry_of w n \<longrightarrow> permitted sp v H n (entry_of w' n))"

lemma knows_locks: "knows sp w H F \<Longrightarrow> H \<subseteq> set (wd_locks w)"
  by (simp add: knows_def)

lemma knows_file:
  assumes "knows sp w H F" and "(n, e) \<in> F"
  obtains l where "l \<in> H" "guard_of sp n = Some (fk_name l)" "entry_of w n = Some e"
proof -
  have "\<exists>l\<in>H. entry_of w n = Some e \<and> guard_of sp n = Some (fk_name l)"
    using bspec [OF conjunct2 [OF assms(1) [unfolded knows_def]] assms(2)] by simp
  then show thesis using that by blast
qed

lemma careful_entry: "careful sp v H w w' H' \<Longrightarrow> entry_of w' n \<noteq> entry_of w n \<Longrightarrow> permitted sp v H n (entry_of w' n)"
  unfolding careful_def by blast

lemma permitted_guarded:
  assumes "permitted sp v H n after" and "guard_of sp n = Some lock"
  obtains l where "l \<in> H" "fk_name l = lock" "fk_mode l = LockExclusive"
  using assms by (auto simp: permitted_def)

text \<open>A careful step of one thread keeps what another one knows.\<close>

lemma knowledge_stable:
  assumes "careful sp v H w w' H'" "consistent w" "H \<subseteq> set (wd_locks w)" "knows sp w K F" "H \<inter> K = {}"
  shows "knows sp w' K F" and "H' \<inter> K = {}"
proof -
  have "entry_of w' n = Some e \<and> (\<exists>l\<in>K. guard_of sp n = Some (fk_name l))" if ne: "(n, e) \<in> F" for n e
  proof -
    obtain l where l: "l \<in> K" "guard_of sp n = Some (fk_name l)" "entry_of w n = Some e"
      using knows_file [OF assms(4) ne] by metis
    have "entry_of w' n = entry_of w n"
    proof (rule ccontr)
      assume "entry_of w' n \<noteq> entry_of w n"
      then obtain k where k: "k \<in> H" "fk_name k = fk_name l" "fk_mode k = LockExclusive"
        using permitted_guarded [OF careful_entry [OF assms(1)] l(2)] by metis
      moreover have "k \<in> set (wd_locks w)" "l \<in> set (wd_locks w)" using k(1) l(1) assms(3,4) by (auto simp: knows_def)
      ultimately have "k = l" using assms(2) by (auto simp: consistent_def)
      then show False using k(1) l(1) assms(5) by auto
    qed
    with l show ?thesis by auto
  qed
  then show "knows sp w' K F" using assms(1,4,5) unfolding knows_def careful_def by auto
  have "l \<notin> K" if "l \<in> H'" for l
  proof (cases "l \<in> H")
    case False
    then have "wd_next w \<le> fk_handle l" using assms(1) that by (auto simp: careful_def)
    moreover have "fk_handle l < wd_next w" if "l \<in> K"
      using assms(2) knows_locks [OF assms(4)] that unfolding consistent_def by blast
    ultimately show ?thesis by linarith
  qed (use assms(5) in blast)
  then show "H' \<inter> K = {}" by blast
qed

inductive safe :: "CacheSpec \<Rightarrow> validator option \<Rightarrow> (flock set \<Rightarrow> (file_name \<times> entry) set \<Rightarrow> 'a \<Rightarrow> bool)
    \<Rightarrow> flock set \<Rightarrow> (file_name \<times> entry) set \<Rightarrow> 'a prog \<Rightarrow> bool"
  for sp v Q where
  safe_Ret: "Q H F a \<Longrightarrow> safe sp v Q H F (Ret a)"
| safe_Act: "(\<And>w. consistent w \<Longrightarrow> knows sp w H F \<Longrightarrow> \<exists>H' F'. careful sp v H w (fst (f w)) H' \<and> knows sp (fst (f w)) H' F'
      \<and> safe sp v Q H' F' (snd (f w))) \<Longrightarrow> safe sp v Q H F (Act f)"

inductive_simps safe_Ret_iff [simp]: "safe sp v Q H F (Ret a)"

inductive_cases safe_ActE: "safe sp v Q H F (Act f)"

lemma safe_bind:
  assumes "safe sp v R H F p" and "\<And>H' F' a. R H' F' a \<Longrightarrow> safe sp v Q H' F' (k a)"
  shows "safe sp v Q H F (then_do p k)"
  using assms(1)
proof (induction rule: safe.induct)
  case (safe_Ret H F a)
  then show ?case using assms(2) by simp
next
  case (safe_Act H F f)
  have "\<exists>H' F'. careful sp v H w (fst (f w)) H' \<and> knows sp (fst (f w)) H' F' \<and> safe sp v Q H' F' (then_do (snd (f w)) k)"
    if "consistent w" "knows sp w H F" for w
    using safe_Act [OF that] by blast
  then show ?case unfolding then_do.simps by (intro safe.safe_Act) (simp only: o_apply fst_map_prod snd_map_prod id_apply)
qed

lemma safe_mono:
  assumes "safe sp v R H F p" and "\<And>H' F' a. R H' F' a \<Longrightarrow> Q H' F' a"
  shows "safe sp v Q H F p"
  using assms(1)
proof (induction rule: safe.induct)
  case (safe_Act H F f)
  show ?case by (intro safe.safe_Act) (use safe_Act in blast)
qed (simp add: assms(2))

lemma safe_call:
  assumes "\<And>w. consistent w \<Longrightarrow> knows sp w H F \<Longrightarrow> \<exists>H' F'. careful sp v H w (fst (f w)) H' \<and> knows sp (fst (f w)) H' F'
    \<and> Q H' F' (snd (f w))"
  shows "safe sp v Q H F (system_call f)"
  using assms by (auto simp: system_call_def case_prod_beta intro!: safe_Act)

lemma consistent_faults [simp]: "consistent (w\<lparr>wd_faults := g\<rparr>) = consistent w"
  by (simp add: consistent_def)

lemma knows_faults [simp]: "knows sp (w\<lparr>wd_faults := g\<rparr>) H F = knows sp w H F"
  by (simp add: knows_def entry_of_def)

lemma careful_faults [simp]: "careful sp v H (w\<lparr>wd_faults := g\<rparr>) w' H' = careful sp v H w w' H'"
  by (simp add: careful_def entry_of_def)

lemma careful_refl: "consistent w \<Longrightarrow> careful sp v H w w H"
  by (simp add: careful_def)

lemma careful_faulted: "consistent w \<Longrightarrow> careful sp v H w (w\<lparr>wd_faults := g\<rparr>) H"
  by (simp add: careful_def entry_of_def)

lemma safe_faulty:
  assumes "\<And>r. Q H F (refused r)"
    and "\<And>w. consistent w \<Longrightarrow> knows sp w H F \<Longrightarrow> \<exists>H' F'. careful sp v H w (fst (f w)) H' \<and> knows sp (fst (f w)) H' F'
      \<and> Q H' F' (snd (f w))"
  shows "safe sp v Q H F (faulty refused f)"
  unfolding faulty_def
proof (rule safe_call)
  fix w assume w: "consistent w" "knows sp w H F"
  let ?w = "w\<lparr>wd_faults := \<lambda>n. wd_faults w (n + 1)\<rparr>"
  have "consistent ?w" "knows sp ?w H F" using w by simp_all
  from assms(2) [OF this] show "\<exists>H' F'. careful sp v H w
      (fst (let w' = ?w in case wd_faults w 0 of Some reason \<Rightarrow> (w', refused reason) | None \<Rightarrow> f w')) H'
    \<and> knows sp (fst (let w' = ?w in case wd_faults w 0 of Some reason \<Rightarrow> (w', refused reason) | None \<Rightarrow> f w')) H' F'
    \<and> Q H' F' (snd (let w' = ?w in case wd_faults w 0 of Some reason \<Rightarrow> (w', refused reason) | None \<Rightarrow> f w'))"
    using assms(1) careful_faulted [OF w(1)] w by (cases "wd_faults w 0") (auto simp: Let_def intro!: exI)
qed


subsection \<open>Calls that leave the knowledge alone\<close>

named_theorems quiet_intros

definition quiet :: "CacheSpec \<Rightarrow> validator option \<Rightarrow> 'a prog \<Rightarrow> bool" where
  "quiet sp v p \<longleftrightarrow> (\<forall>H F. safe sp v (\<lambda>H' F' _. H' = H \<and> F' = F) H F p)"

lemma quiet_Ret [quiet_intros]: "quiet sp v (Ret a)"
  by (simp add: quiet_def)

lemma quiet_bind: "quiet sp v p \<Longrightarrow> (\<And>a. safe sp v Q H F (k a)) \<Longrightarrow> safe sp v Q H F (then_do p k)"
  unfolding quiet_def by (rule safe_bind [where R = "\<lambda>H' F' _. H' = H \<and> F' = F"]) auto

lemma quiet_then_do [quiet_intros]: "quiet sp v p \<Longrightarrow> (\<And>a. quiet sp v (k a)) \<Longrightarrow> quiet sp v (then_do p k)"
  by (subst quiet_def) (auto simp: quiet_def [of sp v "k _"] intro!: quiet_bind)

lemma entry_of_set_entry [simp]: "entry_of (set_entry n e w) m = (if m = n then Some e else entry_of w m)"
  by (simp add: entry_of_def set_entry_def update_conv')

lemma entry_of_drop_entry [simp]: "entry_of (drop_entry n w) m = (if m = n then None else entry_of w m)"
  by (simp add: entry_of_def drop_entry_def delete_conv')

lemma entry_fields [simp]:
  "wd_locks (set_entry n e w) = wd_locks w" "wd_next (set_entry n e w) = wd_next w"
  "wd_locks (drop_entry n w) = wd_locks w" "wd_next (drop_entry n w) = wd_next w"
  "consistent (set_entry n e w) = consistent w" "consistent (drop_entry n w) = consistent w"
  by (simp_all add: set_entry_def drop_entry_def consistent_def)

text \<open>A call that changes only sidecars.\<close>

lemma quiet_faulty:
  assumes "\<And>w. wd_locks (fst (f w)) = wd_locks w" and "\<And>w. wd_next (fst (f w)) = wd_next w"
    and "\<And>w n. entry_of (fst (f w)) n \<noteq> entry_of w n \<Longrightarrow> guard_of sp n = None \<and> \<not> foreign sp n"
  shows "quiet sp v (faulty refused f)"
  unfolding quiet_def
proof (intro allI safe_faulty)
  fix H F w
  assume w: "consistent w" "knows sp w H F"
  have same: "entry_of (fst (f w)) n = entry_of w n" if ne: "(n, e) \<in> F" for n e
    using knows_file [OF w(2) ne] assms(3) [of w n] by (metis option.distinct(1))
  have "careful sp v H w (fst (f w)) H"
    using w(1) assms by (auto simp: careful_def consistent_def permitted_def)
  moreover have "knows sp (fst (f w)) H F"
    using w(2) same assms(1) by (auto simp: knows_def)
  ultimately show "\<exists>H' F'. careful sp v H w (fst (f w)) H' \<and> knows sp (fst (f w)) H' F' \<and> H' = H \<and> F' = F"
    by blast
qed simp

lemma quiet_read: "(\<And>w. fst (f w) = w) \<Longrightarrow> quiet sp v (faulty refused f)"
  by (rule quiet_faulty) simp_all

lemma quiet_reads [quiet_intros]:
  "quiet sp v (is_regular_file n)" "quiet sp v (last_write_time n)" "quiet sp v (file_size n)" "quiet sp v status_of_root"
  "quiet sp v free_space" "quiet sp v open_directory" "quiet sp v increment_ok" "quiet sp v (open_for_sync n)" "quiet sp v fsync"
  unfolding is_regular_file_def last_write_time_def file_size_def status_of_root_def free_space_def open_directory_def
    increment_ok_def open_for_sync_def fsync_def
  by (rule quiet_read, simp)+

lemma quiet_clock [quiet_intros]: "quiet sp v clock_now"
  by (auto simp: quiet_def clock_now_def intro!: safe_call careful_refl)

lemma quiet_option [quiet_intros]: "(\<And>a. quiet sp v (p a)) \<Longrightarrow> quiet sp v q \<Longrightarrow> quiet sp v (case x of None \<Rightarrow> q | Some a \<Rightarrow> p a)"
  by (cases x) simp_all

lemma quiet_sum [quiet_intros]: "(\<And>a. quiet sp v (p a)) \<Longrightarrow> (\<And>b. quiet sp v (q b)) \<Longrightarrow> quiet sp v (case x of Inl a \<Rightarrow> p a | Inr b \<Rightarrow> q b)"
  by (cases x) simp_all

lemma quiet_prod [quiet_intros]: "(\<And>a b. quiet sp v (p a b)) \<Longrightarrow> quiet sp v (case x of (a, b) \<Rightarrow> p a b)"
  by (cases x) simp

lemma quiet_if [quiet_intros]: "quiet sp v p \<Longrightarrow> quiet sp v q \<Longrightarrow> quiet sp v (if c then p else q)"
  by simp

lemma quiet_sidecars:
  assumes "is_artifact sp a"
  shows "quiet sp v (create_empty (touchOf a))" "quiet sp v (set_write_time (touchOf a) t)"
    "quiet sp v (remove_file (touchOf a))" "quiet sp v (open_lock_file (lockOf a))"
  unfolding create_empty_def set_write_time_def remove_file_def open_lock_file_def
  by (rule quiet_faulty, use assms in \<open>auto split: option.splits if_splits\<close>)+

lemma quiet_touchStamp [quiet_intros]: "is_artifact sp a \<Longrightarrow> quiet sp v (touchStamp a)"
  unfolding touchStamp_def by (intro quiet_intros quiet_sidecars)

lemma quiet_readLruStamp [quiet_intros]: "quiet sp v (readLruStamp n)"
  unfolding readLruStamp_def by (intro quiet_intros)

lemma quiet_syncFile [quiet_intros]: "quiet sp v (syncFile path n)"
  unfolding syncFile_def by (intro quiet_intros)

lemma quiet_ensureDir [quiet_intros]: "quiet sp v ensureDir0700"
  unfolding ensureDir0700_def by (rule quiet_faulty) (auto simp: entry_of_def split: if_split_asm)

lemma quiet_resolve [quiet_intros]: "quiet sp v (resolveIdentity sp identity create_root)"
  unfolding resolveIdentity_def by (intro quiet_intros)

subsection \<open>Locks\<close>

lemma flock_safe:
  "safe sp v (\<lambda>H' F' r. F' = F \<and> H' = (case r of Inl _ \<Rightarrow> H | Inr h \<Rightarrow> insert \<lparr>fk_handle = h, fk_name = n, fk_mode = mode\<rparr> H))
     H F (flock_nb n mode)"
  unfolding flock_nb_def
proof (rule safe_faulty)
  fix w
  assume w: "consistent w" "knows sp w H F"
  let ?l = "\<lparr>fk_handle = wd_next w, fk_name = n, fk_mode = mode\<rparr>"
  let ?w = "w\<lparr>wd_locks := ?l # wd_locks w, wd_next := wd_next w + 1\<rparr>"
  show "\<exists>H' F'. careful sp v H w (fst (if lock_conflict (wd_locks w) n mode then (w, Inl HeldElsewhere) else (?w, Inr (wd_next w)))) H'
    \<and> knows sp (fst (if lock_conflict (wd_locks w) n mode then (w, Inl HeldElsewhere) else (?w, Inr (wd_next w)))) H' F'
    \<and> F' = F \<and> H' = (case snd (if lock_conflict (wd_locks w) n mode then (w, Inl HeldElsewhere) else (?w, Inr (wd_next w)))
        of Inl _ \<Rightarrow> H | Inr h \<Rightarrow> insert \<lparr>fk_handle = h, fk_name = n, fk_mode = mode\<rparr> H)"
  proof (cases "lock_conflict (wd_locks w) n mode")
    case True
    then show ?thesis using w careful_refl by auto
  next
    case False
    have free: "fk_name l = n \<Longrightarrow> mode = LockShared \<and> fk_mode l = LockShared" if "l \<in> set (wd_locks w)" for l
      using False that by (cases mode; cases "fk_mode l") (auto simp: lock_conflict_def list_ex_iff)
    have "consistent ?w"
      using w(1) free unfolding consistent_def by (auto simp: less_Suc_eq)
    then have "careful sp v H w ?w (insert ?l H)" by (auto simp: careful_def entry_of_def)
    moreover have "knows sp ?w (insert ?l H) F" using w(2) by (auto simp: knows_def entry_of_def)
    ultimately show ?thesis using False by auto
  qed
qed simp

lemma tryAcquire_safe:
  assumes "is_artifact sp a"
  shows "safe sp v (\<lambda>H' F' r. F' = F \<and> H' = (case r of Inl _ \<Rightarrow> H | Inr h \<Rightarrow> insert \<lparr>fk_handle = h, fk_name = lockOf a, fk_mode = mode\<rparr> H))
     H F (tryAcquire path (lockOf a) mode)"
  unfolding tryAcquire_def
proof (rule quiet_bind [OF quiet_sidecars(4) [OF assms]])
  fix refused
  show "safe sp v (\<lambda>H' F' r. F' = F \<and> H' = (case r of Inl _ \<Rightarrow> H | Inr h \<Rightarrow> insert \<lparr>fk_handle = h, fk_name = lockOf a, fk_mode = mode\<rparr> H)) H F
    (case refused of Some reason \<Rightarrow> Ret (Inl (False, ''could not open lock file '' @ path @ '': '' @ reason))
     | None \<Rightarrow> then_do (flock_nb (lockOf a) mode) (\<lambda>r. Ret (case r of
         Inr h \<Rightarrow> Inr h
       | Inl HeldElsewhere \<Rightarrow> Inl (True, ''lock is held elsewhere: '' @ path)
       | Inl (LockFailed reason) \<Rightarrow> Inl (False, ''flock failed on '' @ path @ '': '' @ reason))))"
    by (cases refused) (auto intro!: safe_bind [OF flock_safe] split: sum.splits lock_refusal.splits)
qed

text \<open>Giving up the only lock.\<close>

lemma release_safe:
  assumes "fk_handle l = h"
  shows "safe sp v (\<lambda>H' F' _. H' = {} \<and> F' = {}) {l} F (release_lock h)"
  unfolding release_lock_def
proof (rule safe_call)
  fix w
  assume w: "consistent w" "knows sp w {l} F"
  have "k = l" if "k \<in> set (wd_locks w)" "fk_handle k = h" for k
    using w that assms by (auto simp: consistent_def knows_def distinct_map dest: inj_onD)
  then have "set (wd_locks w) - {l} \<subseteq> set (wd_locks (unlock h w))" by (auto simp: unlock_def)
  moreover have "consistent (unlock h w)"
    using w(1) by (auto simp: consistent_def unlock_def distinct_map_filter)
  ultimately have "careful sp v {l} w (unlock h w) {}" by (auto simp: careful_def unlock_def entry_of_def)
  then show "\<exists>H' F'. careful sp v {l} w (fst (unlock h w, ())) H' \<and> knows sp (fst (unlock h w, ())) H' F' \<and> H' = {} \<and> F' = {}"
    by (auto simp: knows_def)
qed


subsection \<open>Calls on protected files\<close>

text \<open>A validator that reads the file: where there is none, it rejects.\<close>

definition rejects_missing :: "validator option \<Rightarrow> bool" where
  "rejects_missing validator \<longleftrightarrow> (\<forall>v digest. validator = Some v \<longrightarrow> v None digest \<noteq> None)"

lemma validate_safe:
  assumes "rejects_missing (Some f)" and "l \<in> H" and "guard_of sp n = Some (fk_name l)"
  shows "safe sp v (\<lambda>H' F' r. H' = H \<and> (case r of None \<Rightarrow> \<exists>e. F' = insert (n, e) F \<and> f (Some (en_content e)) digest = None | Some _ \<Rightarrow> F' = F))
    H F (validate_file f n digest)"
  unfolding validate_file_def
proof (rule safe_call)
  fix w
  assume w: "consistent w" "knows sp w H F"
  show "\<exists>H' F'. careful sp v H w (fst (w, f (map_option en_content (entry_of w n)) digest)) H'
    \<and> knows sp (fst (w, f (map_option en_content (entry_of w n)) digest)) H' F' \<and> H' = H
    \<and> (case snd (w, f (map_option en_content (entry_of w n)) digest) of None \<Rightarrow> \<exists>e. F' = insert (n, e) F \<and> f (Some (en_content e)) digest = None
       | Some _ \<Rightarrow> F' = F)"
  proof (cases "f (map_option en_content (entry_of w n)) digest")
    case None
    have "f None digest \<noteq> None" using assms(1) unfolding rejects_missing_def by blast
    then obtain e where e: "entry_of w n = Some e" "f (Some (en_content e)) digest = None"
      using None by (cases "entry_of w n") auto
    then have "knows sp w H (insert (n, e) F)" using w(2) assms by (auto simp: knows_def)
    then show ?thesis using None e careful_refl [OF w(1)] by auto
  next
    case (Some reason)
    then show ?thesis using w careful_refl by auto
  qed
qed

lemma exclusive_safe:
  assumes "l \<in> H" "fk_mode l = LockExclusive"
    and "\<And>w. wd_locks (fst (f w)) = wd_locks w" and "\<And>w. wd_next (fst (f w)) = wd_next w"
    and "\<And>w n. knows sp w H F \<Longrightarrow> entry_of (fst (f w)) n \<noteq> entry_of w n \<Longrightarrow> guard_of sp n = Some (fk_name l)
      \<and> (is_artifact sp n \<longrightarrow> (\<forall>e. entry_of (fst (f w)) n = Some e \<longrightarrow> accepted sp v n e))"
  shows "safe sp v (\<lambda>H' F' _. H' = H) H F (faulty refused f)"
proof (rule safe_faulty)
  fix w
  assume w: "consistent w" "knows sp w H F"
  have "permitted sp v H n (entry_of (fst (f w)) n)" if "entry_of (fst (f w)) n \<noteq> entry_of w n" for n
    using assms(1,2) assms(5) [OF w(2) that] by (auto simp: permitted_def)
  then have "careful sp v H w (fst (f w)) H"
    using w(1) assms(3,4) by (auto simp: careful_def consistent_def)
  moreover have "knows sp (fst (f w)) H {}" using w(2) assms(3) by (simp add: knows_def)
  ultimately show "\<exists>H' F'. careful sp v H w (fst (f w)) H' \<and> knows sp (fst (f w)) H' F' \<and> H' = H" by blast
qed simp

lemma remove_safe:
  assumes "l \<in> H" "fk_mode l = LockExclusive" "guard_of sp n = Some (fk_name l)"
  shows "safe sp v (\<lambda>H' F' _. H' = H) H F (remove_file n)"
  unfolding remove_file_def
  by (rule exclusive_safe [OF assms(1,2)]) (use assms(3) in \<open>auto split: if_split_asm\<close>)

lemma remove_under_lock:
  assumes "fk_mode l = LockExclusive" "guard_of sp n = Some (fk_name l)"
  shows "safe sp v (\<lambda>H' _ _. H' = {l}) {l} F (remove_file n)"
  by (rule remove_safe) (use assms in auto)

lemma rename_safe:
  assumes "l \<in> H" "fk_mode l = LockExclusive" "fk_name l = lockOf a"
    and "classify sp p = KPartial a" "(p, e) \<in> F" "accepted sp v a e"
  shows "safe sp v (\<lambda>H' F' _. H' = H) H F (rename_file p a)"
  unfolding rename_file_def
proof (rule exclusive_safe [OF assms(1,2)])
  have a: "is_artifact sp a" "p \<noteq> a" "\<not> is_artifact sp p"
    using partial_artifact [OF assms(4)] assms(4) by (auto simp: is_artifact_def)
  fix w n
  let ?r = "case entry_of w p of None \<Rightarrow> (w, EcMissing)
      | Some e \<Rightarrow> (case entry_of w a of
          Some old \<Rightarrow> if en_regular old then (set_entry a e (drop_entry p w), EcNone) else (w, EcOther ''Is a directory'')
        | None \<Rightarrow> (set_entry a e (drop_entry p w), EcNone))"
  assume w: "knows sp w H F" and changed: "entry_of (fst ?r) n \<noteq> entry_of w n"
  have e: "entry_of w p = Some e" using knows_file [OF w assms(5)] by metis
  then have n: "n = a \<and> entry_of (fst ?r) n = Some e \<or> n = p \<and> entry_of (fst ?r) n = None"
    using changed a by (auto split: option.splits if_split_asm)
  show "guard_of sp n = Some (fk_name l) \<and> (is_artifact sp n \<longrightarrow> (\<forall>e. entry_of (fst ?r) n = Some e \<longrightarrow> accepted sp v n e))"
  proof (cases "n = a")
    case True
    then show ?thesis using n a assms(3,6) by auto
  next
    case False
    then show ?thesis using n a assms(3,4) by auto
  qed
qed (auto split: option.splits)

subsection \<open>The operations are careful\<close>

lemma tryExclusive_safe:
  assumes "is_artifact sp a"
  shows "safe sp v (\<lambda>H' F' r. F' = F \<and> H' = (case r of Inl _ \<Rightarrow> H | Inr h \<Rightarrow> insert \<lparr>fk_handle = h, fk_name = lockOf a, fk_mode = LockExclusive\<rparr> H))
     H F (tryExclusive sp (lockOf a))"
  unfolding tryExclusive_def by (rule tryAcquire_safe [OF assms])

lemma tryShared_safe:
  assumes "is_artifact sp a"
  shows "safe sp v (\<lambda>H' F' r. F' = F \<and> H' = (case r of Inl _ \<Rightarrow> H | Inr h \<Rightarrow> insert \<lparr>fk_handle = h, fk_name = lockOf a, fk_mode = LockShared\<rparr> H))
     H F (tryShared sp (lockOf a))"
  unfolding tryShared_def by (rule safe_bind [OF tryAcquire_safe [OF assms]]) (auto split: sum.splits)

text \<open>Something done under the lock of an artifact, with no other lock held before or after.\<close>

lemma locked_safe:
  assumes "is_artifact sp a"
    and "\<And>l F. fk_name l = lockOf a \<Longrightarrow> fk_mode l = LockExclusive \<Longrightarrow> safe sp v (\<lambda>H' _ _. H' = {l}) {l} F body"
  shows "safe sp v (\<lambda>H' _ _. H' = {}) {} F (locked sp a refused body)"
  unfolding locked_def
proof (rule safe_bind [OF tryExclusive_safe [OF assms(1)]], elim conjE)
  fix H' F' and r :: "bool \<times> string + nat"
  assume H': "H' = (case r of Inl _ \<Rightarrow> {} | Inr h \<Rightarrow> insert \<lparr>fk_handle = h, fk_name = lockOf a, fk_mode = LockExclusive\<rparr> {})"
  show "safe sp v (\<lambda>H' _ _. H' = {}) H' F' (case r of Inl (contended, _) \<Rightarrow> Ret (refused contended)
     | Inr h \<Rightarrow> then_do body (\<lambda>r. then_do (release_lock h) (\<lambda>_. Ret r)))"
  proof (cases r)
    case (Inr h)
    let ?l = "\<lparr>fk_handle = h, fk_name = lockOf a, fk_mode = LockExclusive\<rparr>"
    have "safe sp v (\<lambda>H' _ _. H' = {}) {?l} F' (then_do body (\<lambda>r. then_do (release_lock h) (\<lambda>_. Ret r)))"
      by (rule safe_bind [OF assms(2)]) (auto intro!: safe_bind [OF release_safe])
    then show ?thesis using Inr H' by simp
  qed (use H' in auto)
qed

lemma remove_partial_safe:
  assumes "fk_mode l = LockExclusive" "guard_of sp n = Some (fk_name l)"
  shows "safe sp v (\<lambda>H' _ _. H' = {l}) {l} F (remove_partial policy n r)"
  unfolding remove_partial_def
  by (auto simp: Let_def intro!: quiet_bind [OF quiet_reads(1)] quiet_bind [OF quiet_reads(2)] quiet_bind [OF quiet_reads(3)]
      quiet_bind [OF quiet_clock] safe_bind [OF remove_under_lock] assms split: sum.splits)

lemma evict_victim_safe:
  assumes "fk_mode l = LockExclusive" "fk_name l = lockOf (ec_file victim)" "is_artifact sp (ec_file victim)"
  shows "safe sp v (\<lambda>H' _ _. H' = {l}) {l} F (evict_victim victim s)"
proof -
  have "guard_of sp (ec_file victim) = Some (fk_name l)" using assms by simp
  then show ?thesis unfolding evict_victim_def
    by (auto simp: Let_def intro!: quiet_bind [OF quiet_reads(1)] quiet_bind [OF quiet_reads(3)] quiet_bind [OF quiet_readLruStamp]
        safe_bind [OF remove_under_lock] quiet_bind [OF quiet_sidecars(3)] assms split: sum.splits option.splits)
qed

lemma removeStalePartials_safe:
  assumes "\<forall>p\<in>set ps. classify sp (sp_file p) = KPartial (sp_artifact p)"
  shows "safe sp v (\<lambda>H' _ _. H' = {}) {} F (removeStalePartials sp ps policy r)"
  using assms
proof (induction ps arbitrary: F r)
  case (Cons p ps)
  have "safe sp v (\<lambda>H' _ _. H' = {}) {} F (locked sp (sp_artifact p) (note_lock r) (remove_partial policy (sp_file p) r))"
    using Cons.prems by (intro locked_safe remove_partial_safe) (auto dest: partial_artifact)
  then show ?case unfolding removeStalePartials.simps by (rule safe_bind) (use Cons in auto)
qed simp

lemma evict_loop_safe:
  assumes "\<forall>c\<in>set victims. is_artifact sp (ec_file c)"
  shows "safe sp v (\<lambda>H' _ _. H' = {}) {} F (evict_loop sp policy victims s)"
  using assms
proof (induction victims arbitrary: F s)
  case (Cons c victims)
  have "safe sp v (\<lambda>H' _ _. H' = {}) {} F
      (locked sp (ec_file c) (\<lambda>contended. map_result (\<lambda>r. note_lock r contended) s) (evict_victim c s))"
    using Cons.prems by (intro locked_safe evict_victim_safe) auto
  then have "safe sp v (\<lambda>H' _ _. H' = {}) {} F (then_do
      (locked sp (ec_file c) (\<lambda>contended. map_result (\<lambda>r. note_lock r contended) s) (evict_victim c s))
      (\<lambda>s. evict_loop sp policy victims s))"
    by (rule safe_bind) (use Cons in auto)
  then show ?case by simp
qed simp


definition good_scan :: "CacheSpec \<Rightarrow> Scan \<Rightarrow> bool" where
  "good_scan sp scan \<longleftrightarrow> (\<forall>p\<in>set (sc_stale_partials scan). classify sp (sp_file p) = KPartial (sp_artifact p))
     \<and> (\<forall>c\<in>set (sc_candidates scan). is_artifact sp (ec_file c))"

lemma scan_entry_safe:
  assumes "good_scan sp scan"
  shows "safe sp v (\<lambda>H' _ (scan, _). H' = H \<and> good_scan sp scan) H F (scan_entry sp policy now n scan r)"
  unfolding scan_entry_def scan_partial_def scan_artifact_def
  using assms
  by (auto simp: good_scan_def is_artifact_def intro!: quiet_bind [OF quiet_reads(1)] quiet_bind [OF quiet_reads(2)]
      quiet_bind [OF quiet_reads(3)] quiet_bind [OF quiet_readLruStamp] split: Classified.splits sum.splits)

lemma scan_names_safe:
  assumes "good_scan sp scan"
  shows "safe sp v (\<lambda>H' _ (_, scan, _). H' = H \<and> good_scan sp scan) H F (scan_names sp policy now names scan r)"
  using assms
proof (induction names arbitrary: F scan r)
  case (Cons n names)
  show ?case unfolding scan_names.simps
    by (rule safe_bind [OF scan_entry_safe [OF Cons.prems]])
      (use Cons.IH in \<open>auto intro!: quiet_bind [OF quiet_reads(7)]\<close>)
qed simp

lemma scanRoot_safe:
  "safe sp v (\<lambda>H' _ (scan, _). H' = H \<and> good_scan sp scan) H F (scanRoot sp policy r)"
proof -
  have new: "good_scan sp new_Scan" by (simp add: good_scan_def new_Scan_def)
  have loop: "safe sp v (\<lambda>H' _ (_, scan, _). H' = H \<and> good_scan sp scan) H F
      (case names of None \<Rightarrow> Ret (False, new_Scan, r) | Some names \<Rightarrow> scan_names sp policy now names new_Scan r)" for names now F
  proof (cases names)
    case (Some ns)
    show ?thesis unfolding Some option.case by (rule scan_names_safe [OF new])
  qed (simp add: new)
  show ?thesis unfolding scanRoot_def
    by (intro quiet_bind [OF quiet_clock] quiet_bind [OF quiet_reads(6)] safe_bind [OF loop]) auto
qed

lemma evictUntilUnderBudget_safe:
  assumes "\<forall>c\<in>set candidates. is_artifact sp (ec_file c)"
  shows "safe sp v (\<lambda>H' _ _. H' = {}) {} F (evictUntilUnderBudget sp candidates total_bytes policy r)"
  unfolding evictUntilUnderBudget_def
proof (rule quiet_bind)
  show "quiet sp v (if cp_min_free_bytes policy \<noteq> 0 then then_do free_space (\<lambda>space. Ret (map_option Some space)) else Ret (Some None))"
    by (intro quiet_intros)
  have "\<forall>c\<in>set (sort_key ec_stamp candidates). is_artifact sp (ec_file c)" using assms by simp
  note loop = evict_loop_safe [OF this]
  show "safe sp v (\<lambda>H' _ _. H' = {}) {} F (case available of None \<Rightarrow> Ret (r\<lparr>cr_target_met := False, cr_had_errors := True\<rparr>)
      | Some available \<Rightarrow> then_do (evict_loop sp policy (sort_key ec_stamp candidates)
            \<lparr>ev_total = total_bytes, ev_available = available, ev_result = r\<rparr>)
          (\<lambda>s. let held = bytesOverTarget policy s
            in Ret ((ev_result s)\<lparr>cr_bytes_held_over_target := held, cr_target_met := held = 0\<rparr>)))" for available
    by (cases available) (auto simp: Let_def intro!: safe_bind [OF loop])
qed

lemma cleanup_safe: "safe sp v (\<lambda>H' _ _. H' = {}) {} F (cleanup sp policy)"
proof -
  have "safe sp v (\<lambda>H' _ _. H' = {}) {} F (then_do (scanRoot sp policy new_CleanupResult) (\<lambda>(scan, r).
          if \<not> cr_target_met r then Ret r
          else then_do (Ret ()) (\<lambda>_.
            then_do (removeStalePartials sp (sc_stale_partials scan) policy (r\<lparr>cr_bytes_scanned := sc_total scan\<rparr>))
              (\<lambda>r. evictUntilUnderBudget sp (sc_candidates scan) (sc_total scan) policy r))))" for F
    by (rule safe_bind [OF scanRoot_safe])
      (auto simp: good_scan_def intro!: safe_bind [OF removeStalePartials_safe] evictUntilUnderBudget_safe)
  then show ?thesis unfolding cleanup_def cleanupImpl_def
    by (auto intro!: quiet_bind [OF quiet_reads(4)])
qed


subsection \<open>What a thread holds after an operation\<close>

datatype outcome = OIdle | OHit Hit | OPublished Hit | OLease Hit | OWriting WriteTransaction

text \<open>
  A hit of a lookup: its lease, and the content it has seen accepted. A published file and a plain lease: the lock
  alone. A transaction: the exclusive lock of its artifact.
\<close>

fun entitled :: "CacheSpec \<Rightarrow> validator option \<Rightarrow> flock set \<Rightarrow> (file_name \<times> entry) set \<Rightarrow> outcome \<Rightarrow> bool" where
  "entitled sp v H F OIdle \<longleftrightarrow> H = {}"
| "entitled sp v H F (OHit hit) \<longleftrightarrow> H = {\<lparr>fk_handle = hit_lease hit, fk_name = lockOf (hit_path hit), fk_mode = LockShared\<rparr>}
     \<and> is_artifact sp (hit_path hit) \<and> (\<exists>e. (hit_path hit, e) \<in> F \<and> accepted sp v (hit_path hit) e)"
| "entitled sp v H F (OPublished hit) \<longleftrightarrow> H = {\<lparr>fk_handle = hit_lease hit, fk_name = lockOf (hit_path hit), fk_mode = LockShared\<rparr>}
     \<and> is_artifact sp (hit_path hit)"
| "entitled sp v H F (OLease hit) \<longleftrightarrow> H = {\<lparr>fk_handle = hit_lease hit, fk_name = lockOf (hit_path hit), fk_mode = LockShared\<rparr>}
     \<and> is_artifact sp (hit_path hit)"
| "entitled sp v H F (OWriting t) \<longleftrightarrow> H = {\<lparr>fk_handle = wt_lock t, fk_name = lockOf (wt_artifact t), fk_mode = LockExclusive\<rparr>}
     \<and> is_artifact sp (wt_artifact t) \<and> classify sp (wt_partial t) = KPartial (wt_artifact t)
     \<and> wt_digest t = artifact_digest sp (wt_artifact t) \<and> \<not> wt_finished t"

definition outcome_of :: "('a \<Rightarrow> outcome) \<Rightarrow> 'e + 'a \<Rightarrow> outcome prog" where
  "outcome_of f r = Ret (case r of Inl _ \<Rightarrow> OIdle | Inr a \<Rightarrow> f a)"

text \<open>The caller writes the partial; a finished transaction is destroyed, which aborts it.\<close>

definition write_partial :: "WriteTransaction \<Rightarrow> bytes \<Rightarrow> unit prog" where
  "write_partial t content = faulty (\<lambda>_. ()) (\<lambda>w.
     (set_entry (wt_partial t) \<lparr>en_regular = True, en_content = content, en_mtime = wd_time w\<rparr> w, ()))"

text \<open>What a thread may do next, given what it holds.\<close>

inductive next_operation :: "CacheSpec \<Rightarrow> validator option \<Rightarrow> outcome \<Rightarrow> outcome prog \<Rightarrow> bool" for sp v where
  next_lookup: "next_operation sp v OIdle (then_do (lookup sp v identity) (outcome_of OHit))"
| next_lease: "next_operation sp v OIdle (then_do (acquireReadLease sp identity) (outcome_of OLease))"
| next_begin: "next_operation sp v OIdle (then_do (beginWrite sp pid identity) (outcome_of OWriting))"
| next_cleanup: "next_operation sp v OIdle (then_do (cleanup sp policy) (\<lambda>_. Ret OIdle))"
| next_write: "next_operation sp v (OWriting t) (then_do (write_partial t content) (\<lambda>_. Ret (OWriting t)))"
| next_commit: "next_operation sp v (OWriting t) (then_do (commit sp v t) (outcome_of OPublished))"
| next_abort: "next_operation sp v (OWriting t) (then_do (abort t) (\<lambda>_. Ret OIdle))"
| next_release_hit: "next_operation sp v (OHit hit) (then_do (release_lock (hit_lease hit)) (\<lambda>_. Ret OIdle))"
| next_release_published: "next_operation sp v (OPublished hit) (then_do (release_lock (hit_lease hit)) (\<lambda>_. Ret OIdle))"
| next_release_lease: "next_operation sp v (OLease hit) (then_do (release_lock (hit_lease hit)) (\<lambda>_. Ret OIdle))"

lemma resolve_safe:
  "safe sp v (\<lambda>H' F' r. H' = H \<and> F' = F \<and> (\<forall>d a. r = Inr (d, a) \<longrightarrow> is_artifact sp a \<and> artifact_digest sp a = d))
     H F (resolveIdentity sp identity create_root)"
  unfolding resolveIdentity_def
  by (auto simp: artifact_resolved intro!: quiet_bind [OF quiet_ensureDir] split: option.splits)

definition gives :: "CacheSpec \<Rightarrow> validator option \<Rightarrow> ('a \<Rightarrow> outcome) \<Rightarrow> flock set \<Rightarrow> (file_name \<times> entry) set \<Rightarrow> 'e + 'a \<Rightarrow> bool" where
  "gives sp v f H F r \<longleftrightarrow> entitled sp v H F (case r of Inl _ \<Rightarrow> OIdle | Inr a \<Rightarrow> f a)"

lemma gives_simps [simp]:
  "gives sp v f H F (Inl e) \<longleftrightarrow> H = {}" "gives sp v f H F (Inr a) \<longleftrightarrow> entitled sp v H F (f a)"
  by (simp_all add: gives_def)

lemma outcome_safe: "safe sp v (gives sp v f) H F p \<Longrightarrow> safe sp v (entitled sp v) H F (then_do p (outcome_of f))"
  by (erule safe_bind) (simp add: outcome_of_def gives_def)

text \<open>The lease first, then the validation.\<close>

lemma validated_hit_safe:
  assumes "rejects_missing (Some f)" and "is_artifact sp a" and "artifact_digest sp a = d"
  shows "safe sp (Some f) (gives sp (Some f) OHit) {\<lparr>fk_handle = h, fk_name = lockOf a, fk_mode = LockShared\<rparr>} F (validated_hit f d a h)"
  unfolding validated_hit_def
  by (rule safe_bind [OF validate_safe [OF assms(1)]])
    (use assms(2,3) in \<open>auto simp: accepted_def intro!: quiet_bind [OF quiet_touchStamp] safe_bind [OF release_safe] split: option.splits\<close>)

lemma lookup_artifact_safe:
  assumes "rejects_missing v" and "is_artifact sp a" and "artifact_digest sp a = d"
  shows "safe sp v (gives sp v OHit) {} F (lookup_artifact sp v d a)"
proof (cases v)
  case (Some f)
  with assms show ?thesis unfolding lookup_artifact_def
    by (auto intro!: quiet_bind [OF quiet_reads(1)] safe_bind [OF tryShared_safe] validated_hit_safe split: sum.splits)
qed (simp add: lookup_artifact_def)

lemma lookup_safe:
  assumes "rejects_missing v"
  shows "safe sp v (gives sp v OHit) {} F (lookup sp v identity)"
  unfolding lookup_def
  by (rule safe_bind [OF resolve_safe]) (auto intro!: lookup_artifact_safe assms split: sum.splits)

lemma acquireReadLease_safe: "safe sp v (gives sp v OLease) {} F (acquireReadLease sp identity)"
  unfolding acquireReadLease_def
  by (rule safe_bind [OF resolve_safe]) (auto intro!: safe_bind [OF tryShared_safe] split: sum.splits)

lemma beginWrite_safe: "safe sp v (gives sp v OWriting) {} F (beginWrite sp pid identity)"
  unfolding beginWrite_def
  by (rule safe_bind [OF resolve_safe]) (auto simp: partialOf_partial intro!: safe_bind [OF tryExclusive_safe] split: sum.splits)


lemma commit_fail_safe:
  assumes "entitled sp v H F (OWriting t)"
  shows "safe sp v (gives sp v f) H F (commit_fail t reason)"
  using assms unfolding commit_fail_def
  by (auto intro!: safe_bind [OF remove_under_lock] safe_bind [OF release_safe])

lemma abort_safe:
  assumes "entitled sp v H F (OWriting t)"
  shows "safe sp v (\<lambda>H' _ _. H' = {}) H F (abort t)"
  using assms unfolding abort_def
  by (auto intro!: safe_bind [OF remove_under_lock] safe_mono [OF release_safe])

lemma downgrade_safe:
  assumes "is_artifact sp a"
  shows "safe sp v (\<lambda>H' _ r. H' = (case r of Inl _ \<Rightarrow> {} | Inr h' \<Rightarrow> {\<lparr>fk_handle = h', fk_name = lockOf a, fk_mode = LockShared\<rparr>}))
    {\<lparr>fk_handle = h, fk_name = lockOf a, fk_mode = LockExclusive\<rparr>} F (downgradeToShared h (lockOf a))"
  unfolding downgradeToShared_def
  by (auto intro!: safe_bind [OF release_safe] safe_bind [OF flock_safe] split: sum.splits lock_refusal.splits)

lemma commit_lease_safe:
  assumes "entitled sp v H F (OWriting t)"
  shows "safe sp v (gives sp v OPublished) H F (commit_lease sp t)"
  using assms unfolding commit_lease_def
  by (auto intro!: safe_bind [OF downgrade_safe] safe_bind [OF tryShared_safe] quiet_bind [OF quiet_reads(1)]
      safe_bind [OF release_safe] split: sum.splits)

lemma publish_safe:
  assumes "entitled sp v H F (OWriting t)" and "(wt_partial t, e) \<in> F" and "accepted sp v (wt_artifact t) e"
  shows "safe sp v (gives sp v OPublished) H F (publish sp t)"
  unfolding publish_def
proof (rule quiet_bind [OF quiet_syncFile])
  let ?l = "\<lparr>fk_handle = wt_lock t, fk_name = lockOf (wt_artifact t), fk_mode = LockExclusive\<rparr>"
  have rename: "safe sp v (\<lambda>H' _ _. H' = H) H F (rename_file (wt_partial t) (wt_artifact t))"
    by (rule rename_safe [where l = ?l]) (use assms in auto)
  have t: "entitled sp v H F' (OWriting t)" for F' using assms(1) by simp
  have a: "is_artifact sp (wt_artifact t)" using assms(1) by simp
  show "safe sp v (gives sp v OPublished) H F (case failed of
       Some reason \<Rightarrow> commit_fail t reason
     | None \<Rightarrow> then_do (rename_file (wt_partial t) (wt_artifact t)) (\<lambda>ec.
         if is_error ec then commit_fail t (''atomic rename failed: '' @ ec_message ec)
         else then_do (touchStamp (wt_artifact t)) (\<lambda>_. commit_lease sp t)))" for failed
    using t by (auto intro!: safe_bind [OF rename] commit_fail_safe quiet_bind [OF quiet_touchStamp [OF a]] commit_lease_safe
        split: option.splits simp del: entitled.simps)
qed

lemma commit_safe:
  assumes "rejects_missing v" and "entitled sp v H F (OWriting t)"
  shows "safe sp v (gives sp v OPublished) H F (commit sp v t)"
proof (cases v)
  case None
  then show ?thesis using assms(2) commit_fail_safe [OF assms(2)] by (simp add: commit_def)
next
  case (Some f)
  let ?l = "\<lparr>fk_handle = wt_lock t, fk_name = lockOf (wt_artifact t), fk_mode = LockExclusive\<rparr>"
  have l: "?l \<in> H" "guard_of sp (wt_partial t) = Some (fk_name ?l)" using assms(2) by auto
  have t: "entitled sp v H F' (OWriting t)" for F' using assms(2) by simp
  have commit: "commit sp v t = then_do (validate_file f (wt_partial t) (wt_digest t)) (\<lambda>rejected. case rejected of
          Some reason \<Rightarrow> commit_fail t (''cache commit rejected '' @ wt_partial t @ '': '' @ reason)
        | None \<Rightarrow> publish sp t)"
    using assms(2) by (auto simp: commit_def Some intro!: arg_cong [where f = "then_do p" for p] split: option.splits)
  show ?thesis unfolding commit
    by (rule safe_bind [OF validate_safe [OF assms(1) [unfolded Some] l]])
      (use t assms(2) Some in \<open>auto simp: accepted_def simp del: entitled.simps(1-4) intro!: commit_fail_safe publish_safe split: option.splits\<close>)
qed

lemma write_partial_safe:
  assumes "entitled sp v H F (OWriting t)"
  shows "safe sp v (\<lambda>H' _ _. H' = H) H F (write_partial t content)"
proof -
  let ?l = "\<lparr>fk_handle = wt_lock t, fk_name = lockOf (wt_artifact t), fk_mode = LockExclusive\<rparr>"
  show ?thesis unfolding write_partial_def
    by (rule exclusive_safe [where l = ?l]) (use assms in \<open>auto simp: is_artifact_def split: if_split_asm\<close>)
qed

lemma next_operation_safe:
  assumes "next_operation sp v r p" and "entitled sp v H F r" and "rejects_missing v"
  shows "safe sp v (entitled sp v) H F p"
  using assms
  by cases (auto intro!: outcome_safe lookup_safe acquireReadLease_safe beginWrite_safe commit_safe
      safe_bind [OF cleanup_safe] safe_bind [OF write_partial_safe] safe_bind [OF abort_safe] safe_bind [OF release_safe])

end
