(* ===== verification/CacheSystem.thy ===== *)
theory CacheSystem
  imports CacheSafety
begin

section \<open>The cache as a system of threads\<close>

text \<open>
  Threads that run the operations of one cache, one system call at a time in any order, while time passes. What every
  reachable state satisfies follows from the carefulness of the operations.
\<close>

type_synonym config = "world \<times> outcome prog list"

inductive cache_step :: "CacheSpec \<Rightarrow> validator option \<Rightarrow> config \<Rightarrow> config \<Rightarrow> bool" for sp v where
  step_call: "i < length ts \<Longrightarrow> ts ! i = Act f \<Longrightarrow> cache_step sp v (w, ts) (fst (f w), ts[i := snd (f w)])"
| step_begin: "i < length ts \<Longrightarrow> ts ! i = Ret r \<Longrightarrow> next_operation sp v r p \<Longrightarrow> cache_step sp v (w, ts) (w, ts[i := p])"
| step_time: "wd_time w \<le> t \<Longrightarrow> cache_step sp v (w, ts) (w\<lparr>wd_time := t, wd_free := u\<rparr>, ts)"

inductive reachable :: "CacheSpec \<Rightarrow> validator option \<Rightarrow> config \<Rightarrow> config \<Rightarrow> bool" for sp v c where
  reachable_refl: "reachable sp v c c"
| reachable_step: "reachable sp v c d \<Longrightarrow> cache_step sp v d e \<Longrightarrow> reachable sp v c e"

definition idle_threads :: "nat \<Rightarrow> outcome prog list" where
  "idle_threads k = replicate k (Ret OIdle)"

definition all_safe :: "CacheSpec \<Rightarrow> validator option \<Rightarrow> config \<Rightarrow> bool" where
  "all_safe sp v c \<longleftrightarrow> consistent (fst c) \<and> (\<exists>H F. \<forall>i<length (snd c). knows sp (fst c) (H i) (F i)
     \<and> safe sp v (entitled sp v) (H i) (F i) (snd c ! i) \<and> (\<forall>j<length (snd c). j \<noteq> i \<longrightarrow> H i \<inter> H j = {}))"

lemma all_safeI:
  assumes "consistent w"
    and "\<And>i. i < length ts \<Longrightarrow> knows sp w (H i) (F i)"
    and "\<And>i. i < length ts \<Longrightarrow> safe sp v (entitled sp v) (H i) (F i) (ts ! i)"
    and "\<And>i j. i < length ts \<Longrightarrow> j < length ts \<Longrightarrow> j \<noteq> i \<Longrightarrow> H i \<inter> H j = {}"
  shows "all_safe sp v (w, ts)"
  unfolding all_safe_def fst_conv snd_conv using assms by blast

lemma all_safeE:
  assumes "all_safe sp v (w, ts)"
  obtains H F where "consistent w"
    and "\<And>i. i < length ts \<Longrightarrow> knows sp w (H i) (F i)"
    and "\<And>i. i < length ts \<Longrightarrow> safe sp v (entitled sp v) (H i) (F i) (ts ! i)"
    and "\<And>i j. i < length ts \<Longrightarrow> j < length ts \<Longrightarrow> j \<noteq> i \<Longrightarrow> H i \<inter> H j = {}"
  using assms unfolding all_safe_def fst_conv snd_conv by blast

lemma idle_safe:
  assumes "consistent w"
  shows "all_safe sp v (w, idle_threads k)"
  by (rule all_safeI [where H = "\<lambda>_. {}" and F = "\<lambda>_. {}"]) (use assms in \<open>auto simp: idle_threads_def knows_def\<close>)

text \<open>What one step may do to the files: nothing, or what one thread is permitted.\<close>

definition lawful :: "CacheSpec \<Rightarrow> validator option \<Rightarrow> world \<Rightarrow> world \<Rightarrow> bool" where
  "lawful sp v w w' \<longleftrightarrow> (\<exists>H. H \<subseteq> set (wd_locks w) \<and> (\<forall>n. entry_of w' n \<noteq> entry_of w n \<longrightarrow> permitted sp v H n (entry_of w' n)))"

lemma lawful_same: "(\<And>n. entry_of w' n = entry_of w n) \<Longrightarrow> lawful sp v w w'"
  unfolding lawful_def by (intro exI [of _ "{}"]) simp

lemma all_safe_call:
  assumes "all_safe sp v (w, ts)" and "i < length ts" and "ts ! i = Act f"
  shows "all_safe sp v (fst (f w), ts[i := snd (f w)]) \<and> lawful sp v w (fst (f w))"
proof -
  obtain H F where K: "consistent w"
      "\<And>i. i < length ts \<Longrightarrow> knows sp w (H i) (F i)"
      "\<And>i. i < length ts \<Longrightarrow> safe sp v (entitled sp v) (H i) (F i) (ts ! i)"
      "\<And>i j. i < length ts \<Longrightarrow> j < length ts \<Longrightarrow> j \<noteq> i \<Longrightarrow> H i \<inter> H j = {}"
    using all_safeE [OF assms(1)] by metis
  have "safe sp v (entitled sp v) (H i) (F i) (Act f)" using K(3) [OF assms(2)] assms(3) by simp
  from this [THEN safe_ActE] obtain H' F' where step: "careful sp v (H i) w (fst (f w)) H'"
      "knows sp (fst (f w)) H' F'" "safe sp v (entitled sp v) H' F' (snd (f w))"
    using K(1) K(2) [OF assms(2)] by blast
  have own: "H i \<subseteq> set (wd_locks w)" using knows_locks [OF K(2) [OF assms(2)]] .
  have other: "knows sp (fst (f w)) (H j) (F j)" "H' \<inter> H j = {}" if j: "j < length ts" "j \<noteq> i" for j
    using knowledge_stable [OF step(1) K(1) own K(2) [OF j(1)] K(4) [OF assms(2) j]] by auto
  have "all_safe sp v (fst (f w), ts[i := snd (f w)])"
  proof (rule all_safeI [where H = "H(i := H')" and F = "F(i := F')"])
    show "consistent (fst (f w))" using step(1) by (simp add: careful_def)
  qed (use K step other in \<open>auto simp: nth_list_update Int_commute\<close>)
  moreover have "lawful sp v w (fst (f w))" unfolding lawful_def using own careful_entry [OF step(1)] by blast
  ultimately show ?thesis ..
qed

lemma all_safe_step:
  assumes "cache_step sp v c d" and "all_safe sp v c" and "rejects_missing v"
  shows "all_safe sp v d \<and> lawful sp v (fst c) (fst d)"
  using assms(1)
proof cases
  case (step_call i ts f w)
  then show ?thesis using all_safe_call assms(2) by auto
next
  case (step_begin i ts r p w)
  obtain H F where K: "consistent w"
      "\<And>i. i < length ts \<Longrightarrow> knows sp w (H i) (F i)"
      "\<And>i. i < length ts \<Longrightarrow> safe sp v (entitled sp v) (H i) (F i) (ts ! i)"
      "\<And>i j. i < length ts \<Longrightarrow> j < length ts \<Longrightarrow> j \<noteq> i \<Longrightarrow> H i \<inter> H j = {}"
    using all_safeE assms(2) step_begin(1) by metis
  have "entitled sp v (H i) (F i) r" using K(3) [OF step_begin(3)] step_begin(4) by simp
  then have "safe sp v (entitled sp v) (H i) (F i) p" using next_operation_safe [OF step_begin(5)] assms(3) by blast
  then have "safe sp v (entitled sp v) (H j) (F j) (ts[i := p] ! j)" if "j < length ts" for j
    using K(3) [OF that] that by (cases "j = i") auto
  then have "all_safe sp v (w, ts[i := p])"
    by (intro all_safeI [where H = H and F = F]) (use K in auto)
  then show ?thesis using step_begin lawful_same by auto
next
  case (step_time w t ts u)
  have "all_safe sp v (w\<lparr>wd_time := t, wd_free := u\<rparr>, ts)"
    using assms(2) unfolding step_time by (auto simp: all_safe_def consistent_def knows_def entry_of_def)
  then show ?thesis using step_time by (auto intro!: lawful_same simp: entry_of_def)
qed

lemma reachable_safe:
  assumes "reachable sp v c d" and "all_safe sp v c" and "rejects_missing v"
  shows "all_safe sp v d"
  using assms(1) by induction (use assms(2,3) all_safe_step in blast)+

text \<open>A relation of the files that every lawful step keeps holds between any two reachable states.\<close>

lemma reachable_lawful:
  assumes "reachable sp v c d" and "all_safe sp v c" and "rejects_missing v" and "P (fst c)"
    and "\<And>w w'. P w \<Longrightarrow> lawful sp v w w' \<Longrightarrow> P w'"
  shows "P (fst d)"
  using assms(1)
proof induction
  case (reachable_step d e)
  then show ?case using all_safe_step [OF reachable_step(2) reachable_safe [OF reachable_step(1) assms(2,3)] assms(3)] assms(5) by blast
qed (rule assms(4))

subsection \<open>Invariants of the reachable states\<close>

lemma hit_state:
  assumes "all_safe sp v (w, ts)" and "i < length ts" and "ts ! i = Ret (OHit hit)"
  shows "\<exists>e. entry_of w (hit_path hit) = Some e \<and> accepted sp v (hit_path hit) e"
proof -
  obtain H F where "knows sp w (H i) (F i)" "entitled sp v (H i) (F i) (OHit hit)"
    using all_safeE [OF assms(1)] assms(2,3) by (metis safe_Ret_iff)
  then show ?thesis using knows_file by (metis entitled.simps(2))
qed

lemma consistent_exclusive:
  assumes "consistent w" "l \<in> set (wd_locks w)" "k \<in> set (wd_locks w)" "fk_name l = fk_name k" "fk_mode l = LockExclusive"
  shows "l = k"
  using assms unfolding consistent_def by blast

fun uses :: "outcome \<Rightarrow> file_name option" where
  "uses OIdle = None"
| "uses (OHit hit) = Some (hit_path hit)"
| "uses (OPublished hit) = Some (hit_path hit)"
| "uses (OLease hit) = Some (hit_path hit)"
| "uses (OWriting t) = Some (wt_artifact t)"

lemma uses_lock:
  assumes "entitled sp v H F r" and "uses r = Some a"
  shows "\<exists>l\<in>H. fk_name l = lockOf a"
  using assms by (cases r) auto

lemma writer_alone:
  assumes "all_safe sp v (w, ts)" and "i < length ts" and "ts ! i = Ret (OWriting t)"
    and "j < length ts" and "ts ! j = Ret r" and "uses r = Some (wt_artifact t)"
  shows "j = i"
proof (rule ccontr)
  assume "j \<noteq> i"
  obtain H F where K: "consistent w" "\<And>i. i < length ts \<Longrightarrow> knows sp w (H i) (F i)"
      "\<And>i. i < length ts \<Longrightarrow> safe sp v (entitled sp v) (H i) (F i) (ts ! i)"
      "\<And>i j. i < length ts \<Longrightarrow> j < length ts \<Longrightarrow> j \<noteq> i \<Longrightarrow> H i \<inter> H j = {}"
    using all_safeE [OF assms(1)] by metis
  let ?l = "\<lparr>fk_handle = wt_lock t, fk_name = lockOf (wt_artifact t), fk_mode = LockExclusive\<rparr>"
  have "entitled sp v (H i) (F i) (OWriting t)" using K(3) [OF assms(2)] assms(3) by simp
  then have "?l \<in> H i" by simp
  moreover have "entitled sp v (H j) (F j) r" using K(3) [OF assms(4)] assms(5) by simp
  then obtain k where "k \<in> H j" "fk_name k = lockOf (wt_artifact t)"
    using uses_lock assms(6) by blast
  moreover have "?l \<in> set (wd_locks w)" "k \<in> set (wd_locks w)"
    using calculation knows_locks [OF K(2) [OF assms(2)]] knows_locks [OF K(2) [OF assms(4)]] by auto
  ultimately have "?l = k" using K(1) by (intro consistent_exclusive) auto
  then show False using \<open>?l \<in> H i\<close> \<open>k \<in> H j\<close> K(4) [OF assms(2,4) \<open>j \<noteq> i\<close>] by blast
qed

definition published :: "CacheSpec \<Rightarrow> validator option \<Rightarrow> world \<Rightarrow> bool" where
  "published sp v w \<longleftrightarrow> (\<forall>n e. is_artifact sp n \<longrightarrow> entry_of w n = Some e \<longrightarrow> accepted sp v n e)"

lemma published_lawful:
  assumes "published sp v w" and "lawful sp v w w'"
  shows "published sp v w'"
  unfolding published_def
proof (intro allI impI)
  fix n e
  assume n: "is_artifact sp n" "entry_of w' n = Some e"
  obtain H where H: "\<And>n. entry_of w' n \<noteq> entry_of w n \<Longrightarrow> permitted sp v H n (entry_of w' n)"
    using assms(2) unfolding lawful_def by blast
  show "accepted sp v n e"
  proof (cases "entry_of w' n = entry_of w n")
    case True
    then show ?thesis using assms(1) n by (simp add: published_def)
  next
    case False
    then show ?thesis using H [OF False] n by (simp add: permitted_def)
  qed
qed

lemma foreign_unguarded: "foreign sp n \<Longrightarrow> guard_of sp n = None"
  by (simp add: foreign_def guard_of_def)

lemma foreign_lawful:
  assumes "lawful sp v w w'" and "foreign sp n"
  shows "entry_of w' n = entry_of w n"
  using assms foreign_unguarded unfolding lawful_def permitted_def by fastforce

subsection \<open>Running a schedule\<close>

text \<open>Requests that a thread can be given, and the operation each is for what the thread holds.\<close>

datatype request = RqLookup string | RqLease string | RqBegin nat string | RqCleanup CleanupPolicy | RqWrite bytes
  | RqCommit | RqAbort | RqRelease

fun operation :: "CacheSpec \<Rightarrow> validator option \<Rightarrow> outcome \<Rightarrow> request \<Rightarrow> outcome prog option" where
  "operation sp v OIdle (RqLookup identity) = Some (then_do (lookup sp v identity) (outcome_of OHit))"
| "operation sp v OIdle (RqLease identity) = Some (then_do (acquireReadLease sp identity) (outcome_of OLease))"
| "operation sp v OIdle (RqBegin pid identity) = Some (then_do (beginWrite sp pid identity) (outcome_of OWriting))"
| "operation sp v OIdle (RqCleanup policy) = Some (then_do (cleanup sp policy) (\<lambda>_. Ret OIdle))"
| "operation sp v (OWriting t) (RqWrite content) = Some (then_do (write_partial t content) (\<lambda>_. Ret (OWriting t)))"
| "operation sp v (OWriting t) RqCommit = Some (then_do (commit sp v t) (outcome_of OPublished))"
| "operation sp v (OWriting t) RqAbort = Some (then_do (abort t) (\<lambda>_. Ret OIdle))"
| "operation sp v (OHit hit) RqRelease = Some (then_do (release_lock (hit_lease hit)) (\<lambda>_. Ret OIdle))"
| "operation sp v (OPublished hit) RqRelease = Some (then_do (release_lock (hit_lease hit)) (\<lambda>_. Ret OIdle))"
| "operation sp v (OLease hit) RqRelease = Some (then_do (release_lock (hit_lease hit)) (\<lambda>_. Ret OIdle))"
| "operation sp v _ _ = None"

lemma operation_next: "operation sp v r request = Some p \<Longrightarrow> next_operation sp v r p"
  by (cases "(sp, v, r, request)" rule: operation.cases) (auto intro: next_operation.intros)

text \<open>A schedule: one call of a thread, or a request to one that has returned. What cannot be done is skipped.\<close>

datatype move = MCall nat | MRequest nat request

fun perform :: "CacheSpec \<Rightarrow> validator option \<Rightarrow> move \<Rightarrow> config \<Rightarrow> config" where
  "perform sp v (MCall i) (w, ts) = (if i < length ts then case ts ! i of
       Act f \<Rightarrow> (case f w of (w', p) \<Rightarrow> (w', ts[i := p])) | Ret _ \<Rightarrow> (w, ts) else (w, ts))"
| "perform sp v (MRequest i request) (w, ts) = (if i < length ts then case ts ! i of
       Act f \<Rightarrow> (w, ts)
     | Ret r \<Rightarrow> (case operation sp v r request of Some p \<Rightarrow> (w, ts[i := p]) | None \<Rightarrow> (w, ts)) else (w, ts))"

lemma perform_step: "perform sp v m c = c \<or> cache_step sp v c (perform sp v m c)"
proof -
  obtain w ts where c: "c = (w, ts)" by (cases c)
  show ?thesis
  proof (cases m)
    case (MCall i)
    then show ?thesis using c step_call [of i ts _ sp v w] by (auto simp: case_prod_beta split: prog.splits)
  next
    case (MRequest i request)
    then show ?thesis using c step_begin [of i ts _ sp v _ w] operation_next
      by (fastforce split: prog.splits option.splits)
  qed
qed

lemma reachable_schedule: "reachable sp v c (fold (perform sp v) ms c)"
proof -
  have "reachable sp v c d \<Longrightarrow> reachable sp v c (fold (perform sp v) ms d)" for d
    using perform_step by (induction ms arbitrary: d) (simp, metis fold_simps(2) reachable_step)
  then show ?thesis using reachable_refl by blast
qed

end
