(* ===== verification/CacheAlone.thy ===== *)
theory CacheAlone
  imports CacheSafety
begin

section \<open>Operations that run alone\<close>

text \<open>
  What an operation of the cache does when no other one runs: what it returns, on which conditions, and what it
  leaves in the directory. Where nothing is said of failing calls, no call fails.
\<close>

definition no_faults :: "world \<Rightarrow> bool" where
  "no_faults w \<longleftrightarrow> wd_faults w = (\<lambda>_. None)"

lemma run_alone_bind [simp]:
  "run_alone (then_do p k) w = (case run_alone p w of (w', a) \<Rightarrow> run_alone (k a) w')"
proof (induction p arbitrary: w)
  case (Act f)
  have "run_alone (then_do p k) v = (case run_alone p v of (w', a) \<Rightarrow> run_alone (k a) w')" if "f w = (u, p)" for u p v
    using Act [of "(u, p)" p v] that by (metis rangeI prod_set_simps(2) singletonI)
  then show ?case by (cases "f w") simp
qed simp

lemma run_alone_Act [simp]: "run_alone (Act f) w = run_alone (snd (f w)) (fst (f w))"
  by (simp add: case_prod_beta)

lemma run_alone_call [simp]: "run_alone (system_call f) w = f w"
  by (simp add: system_call_def case_prod_beta)

lemma run_alone_faulty: "run_alone (faulty refused f) w = (let w' = w\<lparr>wd_faults := \<lambda>n. wd_faults w (n + 1)\<rparr> in
    case wd_faults w 0 of Some reason \<Rightarrow> (w', refused reason) | None \<Rightarrow> f w')"
  by (simp add: faulty_def Let_def split: option.split)

declare run_alone.simps(2) [simp del]

lemma run_alone_no_fault [simp]:
  assumes "no_faults w"
  shows "run_alone (faulty refused f) w = f w"
proof -
  have none: "wd_faults w = (\<lambda>_. None)" using assms by (simp add: no_faults_def)
  then have same: "w\<lparr>wd_faults := \<lambda>n. wd_faults w (n + 1)\<rparr> = w" by (cases w) simp
  show ?thesis unfolding run_alone_faulty Let_def same unfolding none by simp
qed

lemma run_alone_release [simp]: "run_alone (release_lock h) w = (unlock h w, ())"
  by (simp add: release_lock_def)

lemma no_faults_simps [simp]:
  "no_faults (set_entry n e w) = no_faults w" "no_faults (drop_entry n w) = no_faults w" "no_faults (unlock h w) = no_faults w"
  "no_faults (w\<lparr>wd_locks := ls, wd_next := k\<rparr>) = no_faults w" "no_faults (w\<lparr>wd_root := r\<rparr>) = no_faults w"
  by (simp_all add: no_faults_def set_entry_def drop_entry_def unlock_def)

lemma world_simps [simp]:
  "entry_of (unlock h w) n = entry_of w n" "entry_of (w\<lparr>wd_locks := ls, wd_next := k\<rparr>) n = entry_of w n"
  "wd_root (set_entry n e w) = wd_root w" "wd_root (drop_entry n w) = wd_root w" "wd_root (unlock h w) = wd_root w"
  "wd_time (set_entry n e w) = wd_time w" "wd_time (drop_entry n w) = wd_time w" "wd_time (unlock h w) = wd_time w"
  "wd_next (unlock h w) = wd_next w"
  by (simp_all add: entry_of_def set_entry_def drop_entry_def unlock_def)

subsection \<open>Taking a lock\<close>

definition lockable :: "world \<Rightarrow> file_name \<Rightarrow> bool" where
  "lockable w n \<longleftrightarrow> wd_root w = RsDirectory \<and> (\<forall>e. entry_of w n = Some e \<longrightarrow> en_regular e)"

definition with_lock_file :: "file_name \<Rightarrow> world \<Rightarrow> world" where
  "with_lock_file n w = (if entry_of w n = None
     then set_entry n \<lparr>en_regular = True, en_content = [], en_mtime = wd_time w\<rparr> w else w)"

definition with_lock :: "file_name \<Rightarrow> lock_mode \<Rightarrow> world \<Rightarrow> world" where
  "with_lock n mode w = (with_lock_file n w)\<lparr>wd_locks := \<lparr>fk_handle = wd_next w, fk_name = n, fk_mode = mode\<rparr> # wd_locks w,
     wd_next := wd_next w + 1\<rparr>"

lemma with_lock_file_simps [simp]:
  "wd_locks (with_lock_file n w) = wd_locks w" "wd_next (with_lock_file n w) = wd_next w" "no_faults (with_lock_file n w) = no_faults w"
  "wd_root (with_lock_file n w) = wd_root w" "wd_time (with_lock_file n w) = wd_time w"
  "m \<noteq> n \<Longrightarrow> entry_of (with_lock_file n w) m = entry_of w m"
  by (simp_all add: with_lock_file_def)

lemma with_lock_simps [simp]:
  "no_faults (with_lock n mode w) = no_faults w" "wd_root (with_lock n mode w) = wd_root w" "wd_time (with_lock n mode w) = wd_time w"
  "wd_next (with_lock n mode w) = wd_next w + 1"
  "wd_locks (with_lock n mode w) = \<lparr>fk_handle = wd_next w, fk_name = n, fk_mode = mode\<rparr> # wd_locks w"
  "m \<noteq> n \<Longrightarrow> entry_of (with_lock n mode w) m = entry_of w m"
  by (simp_all add: with_lock_def)

lemma lockable_after: "lockable w n \<Longrightarrow> \<exists>e. entry_of (with_lock n mode w) n = Some e \<and> en_regular e"
  by (auto simp: lockable_def with_lock_def with_lock_file_def)

lemma tryAcquire_alone:
  assumes "no_faults w" and "lockable w n"
  shows "run_alone (tryAcquire path n mode) w = (if lock_conflict (wd_locks w) n mode
     then (with_lock_file n w, Inl (True, ''lock is held elsewhere: '' @ path)) else (with_lock n mode w, Inr (wd_next w)))"
  using assms
  by (cases "entry_of w n") (auto simp: tryAcquire_def open_lock_file_def flock_nb_def lockable_def with_lock_def with_lock_file_def)

lemma tryExclusive_alone:
  assumes "no_faults w" and "lockable w n"
  shows "run_alone (tryExclusive sp n) w = (if lock_conflict (wd_locks w) n LockExclusive
     then (with_lock_file n w, Inl (True, ''lock is held elsewhere: '' @ path_string sp n)) else (with_lock n LockExclusive w, Inr (wd_next w)))"
  unfolding tryExclusive_def by (rule tryAcquire_alone [OF assms])

lemma tryShared_alone:
  assumes "no_faults w" and "lockable w n"
  shows "run_alone (tryShared sp n) w = (if lock_conflict (wd_locks w) n LockShared
     then (with_lock_file n w, Inl (''lock is held elsewhere: '' @ path_string sp n)) else (with_lock n LockShared w, Inr (wd_next w)))"
  unfolding tryShared_def by (simp add: tryAcquire_alone [OF assms])

text \<open>Whatever fails, the lock is said to be contended only when another holds one that excludes it.\<close>

lemma tryAcquire_contended:
  assumes "run_alone (tryAcquire path n mode) w = (w', Inl (True, reason))"
  shows "lock_conflict (wd_locks w) n mode"
  using assms
  by (auto simp: tryAcquire_def open_lock_file_def flock_nb_def run_alone_faulty Let_def
      split: option.splits if_split_asm sum.splits lock_refusal.splits prod.splits)

subsection \<open>Stamps\<close>

definition stamp_entry :: "int \<Rightarrow> entry" where
  "stamp_entry now = \<lparr>en_regular = True, en_content = [], en_mtime = now\<rparr>"

lemma set_entry_twice [simp]: "set_entry n e (set_entry n e' w) = set_entry n e w"
  by (simp add: set_entry_def update_last)

lemma emptied_entry: "en_regular e \<Longrightarrow> e\<lparr>en_content := [], en_mtime := now\<rparr> = stamp_entry now"
  by (cases e) (simp add: stamp_entry_def)

definition absent_or_regular :: "world \<Rightarrow> file_name \<Rightarrow> bool" where
  "absent_or_regular w n \<longleftrightarrow> (\<forall>e. entry_of w n = Some e \<longrightarrow> en_regular e)"

lemma touchStamp_alone:
  assumes "no_faults w" and "absent_or_regular w (touchOf a)"
  shows "run_alone (touchStamp a) w = (set_entry (touchOf a) (stamp_entry (wd_time w)) w, ())"
  using assms
  by (cases "entry_of w (touchOf a)")
    (auto simp: touchStamp_def create_empty_def clock_now_def set_write_time_def absent_or_regular_def emptied_entry,
      simp_all add: stamp_entry_def)

subsection \<open>Publishing and looking up\<close>

text \<open>The directory after it has been made, when it was missing.\<close>

definition with_root :: "world \<Rightarrow> world" where
  "with_root w = (if wd_root w = RsMissing then w\<lparr>wd_root := RsDirectory\<rparr> else w)"

lemma with_root_simps [simp]:
  "no_faults (with_root w) = no_faults w" "entry_of (with_root w) n = entry_of w n" "wd_locks (with_root w) = wd_locks w"
  "wd_next (with_root w) = wd_next w" "wd_time (with_root w) = wd_time w"
  by (simp_all add: with_root_def entry_of_def)

lemma resolveIdentity_alone:
  assumes "no_faults w" and "digestOf (cs_identity sp) identity = Some d" and "cs_root sp \<noteq> []"
  shows "run_alone (resolveIdentity sp identity create_root) w
    = (if create_root then with_root w else w, Inr (d, artifact sp d))"
  using assms by (simp add: resolveIdentity_def ensureDir0700_def with_root_def)

definition transaction :: "CacheSpec \<Rightarrow> nat \<Rightarrow> string \<Rightarrow> nat \<Rightarrow> WriteTransaction" where
  "transaction sp pid d h = \<lparr>wt_digest = d, wt_artifact = artifact sp d, wt_partial = partialOf pid (artifact sp d), wt_lock = h,
     wt_finished = False\<rparr>"

lemma beginWrite_alone:
  assumes "no_faults w" and "digestOf (cs_identity sp) identity = Some d" and "cs_root sp \<noteq> []"
    and "lockable (with_root w) (lockOf (artifact sp d))"
  shows "run_alone (beginWrite sp pid identity) w =
    (if lock_conflict (wd_locks w) (lockOf (artifact sp d)) LockExclusive
     then (with_lock_file (lockOf (artifact sp d)) (with_root w),
       Inl \<lparr>ce_message = ''cache materialize lock unavailable: '' @ ''lock is held elsewhere: '' @ path_string sp (lockOf (artifact sp d)),
         ce_retryable = True\<rparr>)
     else (with_lock (lockOf (artifact sp d)) LockExclusive (with_root w), Inr (transaction sp pid d (wd_next w))))"
  using assms by (simp add: beginWrite_def resolveIdentity_alone tryExclusive_alone transaction_def)

lemma names_apart:
  assumes "is_artifact sp a"
  shows "lockOf a \<noteq> a" "touchOf a \<noteq> a" "partialOf pid a \<noteq> a" "lockOf a \<noteq> touchOf a" "partialOf pid a \<noteq> lockOf a"
    "partialOf pid a \<noteq> touchOf a"
  by (auto simp: lockOf_def touchOf_def partialOf_def)

lemma is_error_simps [simp]: "\<not> is_error EcNone" "is_error EcMissing" "is_error (EcOther r)"
  by (simp_all add: is_error_def)

lemma downgrade_alone:
  assumes "no_faults w" and "\<not> lock_conflict (filter (\<lambda>l. fk_handle l \<noteq> h) (wd_locks w)) n LockShared"
  shows "run_alone (downgradeToShared h n) w = ((unlock h w)\<lparr>wd_locks := \<lparr>fk_handle = wd_next w, fk_name = n, fk_mode = LockShared\<rparr>
      # filter (\<lambda>l. fk_handle l \<noteq> h) (wd_locks w), wd_next := wd_next w + 1\<rparr>, Inr (wd_next w))"
  using assms by (simp add: downgradeToShared_def release_lock_def flock_nb_def) (simp add: unlock_def)

text \<open>What a commit that runs alone leaves: the content of the partial under the name of the artifact.\<close>

lemma commit_alone:
  assumes "no_faults w" and "\<not> wt_finished t" and "is_artifact sp (wt_artifact t)" and "wt_partial t = partialOf pid (wt_artifact t)"
    and "entry_of w (wt_partial t) = Some e" and "f (Some (en_content e)) (wt_digest t) = None"
    and "absent_or_regular w (wt_artifact t)" and "absent_or_regular w (touchOf (wt_artifact t))"
    and "\<not> lock_conflict (filter (\<lambda>l. fk_handle l \<noteq> wt_lock t) (wd_locks w)) (lockOf (wt_artifact t)) LockShared"
  shows "\<exists>w'. run_alone (commit sp (Some f) t) w = (w', Inr \<lparr>hit_path = wt_artifact t, hit_lease = wd_next w\<rparr>)
    \<and> no_faults w' \<and> wd_root w' = wd_root w \<and> entry_of w' (wt_partial t) = None \<and> entry_of w' (wt_artifact t) = Some e
    \<and> entry_of w' (touchOf (wt_artifact t)) = Some (stamp_entry (wd_time w))
    \<and> (\<forall>n. n \<notin> {wt_partial t, wt_artifact t, touchOf (wt_artifact t)} \<longrightarrow> entry_of w' n = entry_of w n)
    \<and> wd_locks w' = \<lparr>fk_handle = wd_next w, fk_name = lockOf (wt_artifact t), fk_mode = LockShared\<rparr>
        # filter (\<lambda>l. fk_handle l \<noteq> wt_lock t) (wd_locks w)"
proof -
  let ?a = "wt_artifact t"
  let ?w = "set_entry ?a e (drop_entry (wt_partial t) w)"
  let ?v = "set_entry (touchOf ?a) (stamp_entry (wd_time w)) ?w"
  note apart = names_apart [OF assms(3)]
  have "run_alone (rename_file (wt_partial t) ?a) w = (?w, EcNone)"
    using assms(1,5,7) by (auto simp: rename_file_def absent_or_regular_def split: option.split)
  moreover have "absent_or_regular ?w (touchOf ?a)"
    using assms(4,8) apart by (auto simp: absent_or_regular_def)
  then have "run_alone (touchStamp ?a) ?w = (?v, ())" using assms(1) by (simp add: touchStamp_alone)
  moreover have "run_alone (syncFile path (wt_partial t)) w = (w, None)" for path
    using assms(1,5) by (simp add: syncFile_def open_for_sync_def fsync_def)
  moreover have "run_alone (validate_file f (wt_partial t) (wt_digest t)) w = (w, None)"
    using assms(5,6) by (simp add: validate_file_def)
  moreover have "run_alone (downgradeToShared (wt_lock t) (lockOf ?a)) ?v = ((unlock (wt_lock t) ?v)\<lparr>wd_locks :=
      \<lparr>fk_handle = wd_next w, fk_name = lockOf ?a, fk_mode = LockShared\<rparr> # filter (\<lambda>l. fk_handle l \<noteq> wt_lock t) (wd_locks w),
      wd_next := wd_next w + 1\<rparr>, Inr (wd_next w))"
    using downgrade_alone [of ?v "wt_lock t" "lockOf ?a"] assms(1,9) by simp
  ultimately have "run_alone (commit sp (Some f) t) w = ((unlock (wt_lock t) ?v)\<lparr>wd_locks :=
      \<lparr>fk_handle = wd_next w, fk_name = lockOf ?a, fk_mode = LockShared\<rparr> # filter (\<lambda>l. fk_handle l \<noteq> wt_lock t) (wd_locks w),
      wd_next := wd_next w + 1\<rparr>, Inr \<lparr>hit_path = ?a, hit_lease = wd_next w\<rparr>)"
    using assms(2) by (simp add: commit_def publish_def commit_lease_def)
  then show ?thesis using assms(1,4) apart by auto
qed


text \<open>What a lookup that runs alone gives, for each of its branches.\<close>

lemma lookup_alone:
  assumes "no_faults w" and "digestOf (cs_identity sp) identity = Some d" and "cs_root sp \<noteq> []"
    and "lockable w (lockOf (artifact sp d))" and "absent_or_regular w (touchOf (artifact sp d))"
  shows "run_alone (lookup sp (Some f) identity) w =
    (if \<not> (\<exists>e. entry_of w (artifact sp d) = Some e \<and> en_regular e) then (w, Inl ''no artifact for this identity'')
     else if lock_conflict (wd_locks w) (lockOf (artifact sp d)) LockShared
     then (with_lock_file (lockOf (artifact sp d)) w, Inl (''artifact is locked by a materialization or eviction (retry): ''
       @ ''lock is held elsewhere: '' @ path_string sp (lockOf (artifact sp d))))
     else case f (map_option en_content (entry_of w (artifact sp d))) d of
       Some reason \<Rightarrow> (unlock (wd_next w) (with_lock (lockOf (artifact sp d)) LockShared w), Inl (''artifact rejected: '' @ reason))
     | None \<Rightarrow> (set_entry (touchOf (artifact sp d)) (stamp_entry (wd_time w)) (with_lock (lockOf (artifact sp d)) LockShared w),
         Inr \<lparr>hit_path = artifact sp d, hit_lease = wd_next w\<rparr>))"
proof -
  let ?a = "artifact sp d"
  let ?w = "with_lock (lockOf ?a) LockShared w"
  note apart = names_apart [OF artifact_resolved(1) [OF assms(2)]]
  have touch: "absent_or_regular ?w (touchOf ?a)" using assms(5) apart by (simp add: absent_or_regular_def)
  have valid: "run_alone (validate_file f ?a d) ?w = (?w, f (map_option en_content (entry_of w ?a)) d)"
    using apart by (simp add: validate_file_def)
  have found: "run_alone (is_regular_file ?a) w = (w, case entry_of w ?a of None \<Rightarrow> (False, EcMissing) | Some e \<Rightarrow> (en_regular e, EcNone))"
    using assms(1) by (simp add: is_regular_file_def)
  show ?thesis
  proof (cases "\<exists>e. entry_of w ?a = Some e \<and> en_regular e")
    case True
    then show ?thesis using assms(1) valid found touchStamp_alone [OF _ touch]
      by (auto simp: lookup_def lookup_artifact_def validated_hit_def resolveIdentity_alone [OF assms(1-3)]
          tryShared_alone [OF assms(1,4)] split: option.split)
  next
    case False
    then show ?thesis using found
      by (auto simp: lookup_def lookup_artifact_def resolveIdentity_alone [OF assms(1-3)] split: option.split)
  qed
qed

text \<open>A whole session: write, commit, release, and look the identity up.\<close>

definition store_and_lookup :: "CacheSpec \<Rightarrow> validator option \<Rightarrow> nat \<Rightarrow> string \<Rightarrow> bytes \<Rightarrow> (string + Hit) prog" where
  "store_and_lookup sp validator pid identity content = then_do (beginWrite sp pid identity) (\<lambda>r. case r of
     Inl e \<Rightarrow> Ret (Inl (ce_message e))
   | Inr t \<Rightarrow> then_do (write_partial t content) (\<lambda>_. then_do (commit sp validator t) (\<lambda>r. case r of
       Inl e \<Rightarrow> Ret (Inl (ce_message e))
     | Inr hit \<Rightarrow> then_do (release_lock (hit_lease hit)) (\<lambda>_. lookup sp validator identity))))"


lemma lock_conflict_filter: "\<not> lock_conflict ls n mode \<Longrightarrow> \<not> lock_conflict (filter P ls) n mode"
  by (auto simp: lock_conflict_def list_ex_iff)

lemma lock_conflict_shared: "\<not> lock_conflict ls n LockExclusive \<Longrightarrow> \<not> lock_conflict ls n LockShared"
  by (auto simp: lock_conflict_def list_ex_iff)

text \<open>From a directory that may not even exist, the session ends with a hit on the content that was written.\<close>

lemma store_and_lookup_alone:
  assumes "no_faults w" and "digestOf (cs_identity sp) identity = Some d" and "cs_root sp \<noteq> []" and "wd_root w \<noteq> RsOther"
    and "absent_or_regular w (artifact sp d)" and "absent_or_regular w (lockOf (artifact sp d))"
    and "absent_or_regular w (touchOf (artifact sp d))"
    and "\<not> lock_conflict (wd_locks w) (lockOf (artifact sp d)) LockExclusive"
    and "f (Some content) d = None"
  shows "\<exists>w' hit e. run_alone (store_and_lookup sp (Some f) pid identity content) w = (w', Inr hit) \<and> hit_path hit = artifact sp d
    \<and> entry_of w' (artifact sp d) = Some e \<and> en_content e = content \<and> entry_of w' (partialOf pid (artifact sp d)) = None"
proof -
  let ?a = "artifact sp d"
  let ?t = "transaction sp pid d (wd_next w)"
  let ?e = "\<lparr>en_regular = True, en_content = content, en_mtime = wd_time w\<rparr>"
  define v where "v = set_entry (wt_partial ?t) ?e (with_lock (lockOf ?a) LockExclusive (with_root w))"
  have a: "is_artifact sp ?a" using artifact_resolved(1) [OF assms(2)] .
  note apart = names_apart [OF a]
  have lockable: "lockable (with_root w) (lockOf ?a)"
    using assms(4,6) by (cases "wd_root w") (auto simp: lockable_def with_root_def absent_or_regular_def entry_of_def)
  have started: "run_alone (beginWrite sp pid identity) w = (with_lock (lockOf ?a) LockExclusive (with_root w), Inr ?t)"
    using beginWrite_alone [OF assms(1-3) lockable] assms(8) by simp
  have "run_alone (write_partial ?t content) (with_lock (lockOf ?a) LockExclusive (with_root w)) = (v, ())"
    using assms(1) by (simp add: write_partial_def v_def)
  note started = started this
  have free: "\<not> lock_conflict (filter (\<lambda>l. fk_handle l \<noteq> wd_next w) (wd_locks v)) (lockOf ?a) LockShared"
    using lock_conflict_filter [OF lock_conflict_shared [OF assms(8)]] by (simp add: v_def)
  have "\<exists>v'. run_alone (commit sp (Some f) ?t) v = (v', Inr \<lparr>hit_path = ?a, hit_lease = wd_next v\<rparr>)
    \<and> no_faults v' \<and> wd_root v' = wd_root v \<and> entry_of v' (wt_partial ?t) = None \<and> entry_of v' ?a = Some ?e
    \<and> entry_of v' (touchOf ?a) = Some (stamp_entry (wd_time v))
    \<and> (\<forall>n. n \<notin> {wt_partial ?t, ?a, touchOf ?a} \<longrightarrow> entry_of v' n = entry_of v n)
    \<and> wd_locks v' = \<lparr>fk_handle = wd_next v, fk_name = lockOf ?a, fk_mode = LockShared\<rparr>
        # filter (\<lambda>l. fk_handle l \<noteq> wd_next w) (wd_locks v)"
    using commit_alone [of v ?t sp pid ?e f] assms(1,5,7,9) a apart free
    by (simp add: transaction_def v_def absent_or_regular_def)
  then obtain v' where commit: "run_alone (commit sp (Some f) ?t) v = (v', Inr \<lparr>hit_path = ?a, hit_lease = wd_next v\<rparr>)"
    and v': "no_faults v'" "wd_root v' = wd_root v" "entry_of v' (wt_partial ?t) = None" "entry_of v' ?a = Some ?e"
      "entry_of v' (touchOf ?a) = Some (stamp_entry (wd_time v))"
      "\<And>n. n \<notin> {wt_partial ?t, ?a, touchOf ?a} \<Longrightarrow> entry_of v' n = entry_of v n"
      "wd_locks v' = \<lparr>fk_handle = wd_next v, fk_name = lockOf ?a, fk_mode = LockShared\<rparr>
        # filter (\<lambda>l. fk_handle l \<noteq> wd_next w) (wd_locks v)"
    by blast
  define u where "u = unlock (wd_next v) v'"
  have "\<not> lock_conflict (wd_locks u) (lockOf ?a) LockShared"
    using lock_conflict_filter [OF free] v'(7) by (simp add: u_def unlock_def)
  moreover have "entry_of v' (lockOf ?a) = entry_of (with_lock (lockOf ?a) LockExclusive (with_root w)) (lockOf ?a)"
    using v'(6) [of "lockOf ?a"] apart apart [symmetric] by (simp add: v_def transaction_def)
  then have "lockable u (lockOf ?a)"
    using lockable_after [OF lockable, of LockExclusive] lockable v'(2)
    by (auto simp: lockable_def u_def v_def)
  moreover have "absent_or_regular u (touchOf ?a)" using v'(5) by (simp add: absent_or_regular_def u_def stamp_entry_def)
  ultimately have "run_alone (lookup sp (Some f) identity) u
      = (set_entry (touchOf ?a) (stamp_entry (wd_time u)) (with_lock (lockOf ?a) LockShared u), Inr \<lparr>hit_path = ?a, hit_lease = wd_next u\<rparr>)"
    using lookup_alone [of u sp identity d f] v'(1,4) assms(2,3,9) by (simp add: u_def)
  then have "run_alone (store_and_lookup sp (Some f) pid identity content) w
      = (set_entry (touchOf ?a) (stamp_entry (wd_time u)) (with_lock (lockOf ?a) LockShared u), Inr \<lparr>hit_path = ?a, hit_lease = wd_next u\<rparr>)"
    using started commit by (simp add: store_and_lookup_def u_def)
  moreover have "entry_of u ?a = Some ?e" "entry_of u (partialOf pid ?a) = None"
    using v'(3,4) by (simp_all add: u_def transaction_def)
  ultimately show ?thesis using apart by auto
qed


subsection \<open>Eviction\<close>

text \<open>The stamp that orders the evictions, and a candidate as the scan has found it.\<close>

definition lru_stamp :: "world \<Rightarrow> file_name \<Rightarrow> int option" where
  "lru_stamp w a = (case entry_of w (touchOf a) of Some e \<Rightarrow> Some (en_mtime e) | None \<Rightarrow> map_option en_mtime (entry_of w a))"

definition unchanged :: "world \<Rightarrow> EvictionCandidate \<Rightarrow> bool" where
  "unchanged w c \<longleftrightarrow> (\<exists>e. entry_of w (ec_file c) = Some e \<and> en_regular e \<and> of_nat (length (en_content e)) = ec_size c)
     \<and> lru_stamp w (ec_file c) = Some (ec_stamp c)"

definition evictable :: "CacheSpec \<Rightarrow> world \<Rightarrow> EvictionCandidate \<Rightarrow> bool" where
  "evictable sp w c \<longleftrightarrow> is_artifact sp (ec_file c) \<and> unchanged w c \<and> lockable w (lockOf (ec_file c))
     \<and> \<not> lock_conflict (wd_locks w) (lockOf (ec_file c)) LockExclusive"

lemma unchanged_same:
  assumes "entry_of w' (ec_file c) = entry_of w (ec_file c)" and "entry_of w' (touchOf (ec_file c)) = entry_of w (touchOf (ec_file c))"
  shows "unchanged w' c = unchanged w c"
  using assms by (simp only: unchanged_def lru_stamp_def)

lemma readLruStamp_alone:
  assumes "no_faults w" and "lru_stamp w a = Some stamp"
  shows "run_alone (readLruStamp a) w = (w, Some stamp, EcNone)"
  using assms by (auto simp: readLruStamp_def last_write_time_def lru_stamp_def split: option.splits)

text \<open>One victim: it is gone, and its size is credited.\<close>

definition evicted_world :: "file_name \<Rightarrow> world \<Rightarrow> world \<Rightarrow> bool" where
  "evicted_world a w w' \<longleftrightarrow> no_faults w' \<and> wd_root w' = wd_root w \<and> wd_locks w' = wd_locks w \<and> consistent w'
     \<and> entry_of w' a = None \<and> absent_or_regular w' (lockOf a)
     \<and> (\<forall>n. n \<notin> {a, touchOf a, lockOf a} \<longrightarrow> entry_of w' n = entry_of w n)"

lemma consistent_fresh: "consistent w \<Longrightarrow> filter (\<lambda>l. fk_handle l \<noteq> wd_next w) (wd_locks w) = wd_locks w"
  by (auto simp: consistent_def filter_id_conv)

lemma unlock_taken:
  assumes "consistent w" and "wd_locks x = l # wd_locks w" and "fk_handle l = wd_next w" and "wd_next x = wd_next w + 1"
  shows "wd_locks (unlock (wd_next w) x) = wd_locks w \<and> consistent (unlock (wd_next w) x)"
  using assms consistent_fresh [OF assms(1)] by (auto simp: unlock_def consistent_def less_Suc_eq)

lemma evict_victim_alone:
  assumes "no_faults w" and "is_artifact sp (ec_file c)" and "unchanged w c"
  shows "run_alone (evict_victim c s) w = ((if entry_of w (touchOf (ec_file c)) = None then id else drop_entry (touchOf (ec_file c)))
      (drop_entry (ec_file c) w), credit (ec_size c) s)"
proof -
  obtain e where e: "entry_of w (ec_file c) = Some e" "en_regular e" "of_nat (length (en_content e)) = ec_size c"
    and stamp: "lru_stamp w (ec_file c) = Some (ec_stamp c)"
    using assms(3) by (auto simp: unchanged_def)
  have "touchOf (ec_file c) \<noteq> ec_file c" using names_apart [OF assms(2)] by blast
  then show ?thesis
    using assms(1) e readLruStamp_alone [OF assms(1) stamp]
    by (auto simp: evict_victim_def is_regular_file_def file_size_def remove_file_def map_result_def noteErrorUnlessMissing_def Let_def)
qed

lemma evict_one_alone:
  assumes "no_faults w" and "consistent w" and "evictable sp w c"
  shows "\<exists>w'. run_alone (locked sp (ec_file c) refused (evict_victim c s)) w = (w', credit (ec_size c) s)
    \<and> evicted_world (ec_file c) w w'"
proof -
  let ?a = "ec_file c"
  let ?w = "with_lock (lockOf ?a) LockExclusive w"
  have c: "is_artifact sp ?a" "unchanged w c" "lockable w (lockOf ?a)" "\<not> lock_conflict (wd_locks w) (lockOf ?a) LockExclusive"
    using assms(3) by (auto simp: evictable_def)
  note apart = names_apart [OF c(1)]
  have "entry_of ?w ?a = entry_of w ?a" "entry_of ?w (touchOf ?a) = entry_of w (touchOf ?a)"
    using apart(1,4) by (metis with_lock_simps(6))+
  then have "unchanged ?w c" using c(2) unchanged_same by blast
  then have "run_alone (evict_victim c s) ?w = ((if entry_of ?w (touchOf ?a) = None then id else drop_entry (touchOf ?a)) (drop_entry ?a ?w),
      credit (ec_size c) s)"
    using assms(1) c(1) by (intro evict_victim_alone) auto
  then have "run_alone (locked sp ?a refused (evict_victim c s)) w
      = (unlock (wd_next w) ((if entry_of ?w (touchOf ?a) = None then id else drop_entry (touchOf ?a)) (drop_entry ?a ?w)), credit (ec_size c) s)"
    using c(4) by (simp add: locked_def tryExclusive_alone [OF assms(1) c(3)])
  moreover define x where "x = (if entry_of ?w (touchOf ?a) = None then id else drop_entry (touchOf ?a)) (drop_entry ?a ?w)"
  have x: "no_faults x" "wd_root x = wd_root w" "wd_next x = wd_next w + 1"
      "wd_locks x = \<lparr>fk_handle = wd_next w, fk_name = lockOf ?a, fk_mode = LockExclusive\<rparr> # wd_locks w"
      "entry_of x ?a = None" "entry_of x (lockOf ?a) = entry_of ?w (lockOf ?a)"
      "\<And>n. n \<notin> {?a, touchOf ?a, lockOf ?a} \<Longrightarrow> entry_of x n = entry_of w n"
    using assms(1) apart apart [symmetric] by (auto simp: x_def)
  have "evicted_world ?a w (unlock (wd_next w) x)"
    using x lockable_after [OF c(3), of LockExclusive] unlock_taken [OF assms(2) x(4) _ x(3)]
    by (auto simp: evicted_world_def absent_or_regular_def)
  ultimately show ?thesis unfolding x_def by blast
qed

lemma evictable_after:
  assumes "evicted_world (ec_file c) w w'" and "evictable sp w c" and "evictable sp w d" and "ec_file d \<noteq> ec_file c"
  shows "evictable sp w' d"
proof -
  have a: "is_artifact sp (ec_file c)" "is_artifact sp (ec_file d)" using assms(2,3) by (auto simp: evictable_def)
  have "ec_file d \<noteq> touchOf (ec_file c)" "ec_file d \<noteq> lockOf (ec_file c)"
    using sidecars [OF a(1)] a(2) by auto
  then have "entry_of w' (ec_file d) = entry_of w (ec_file d)"
    using assms(1,4) by (simp add: evicted_world_def)
  moreover have "touchOf (ec_file d) \<noteq> ec_file c" "touchOf (ec_file d) \<noteq> touchOf (ec_file c)" "touchOf (ec_file d) \<noteq> lockOf (ec_file c)"
    using sidecars [OF a(2)] a(1) assms(4) by (auto simp: touchOf_def lockOf_def)
  then have "entry_of w' (touchOf (ec_file d)) = entry_of w (touchOf (ec_file d))"
    using assms(1) by (simp add: evicted_world_def)
  ultimately have "unchanged w' d" using unchanged_same [of w' d w] assms(3) by (simp add: evictable_def)
  moreover have "lockOf (ec_file d) \<noteq> ec_file c" "lockOf (ec_file d) \<noteq> touchOf (ec_file c)" "lockOf (ec_file d) \<noteq> lockOf (ec_file c)"
    using sidecars [OF a(2)] a(1) assms(4) by (auto simp: touchOf_def lockOf_def)
  then have "entry_of w' (lockOf (ec_file d)) = entry_of w (lockOf (ec_file d))"
    using assms(1) by (simp add: evicted_world_def)
  ultimately show ?thesis using assms(1,3) by (auto simp: evictable_def lockable_def evicted_world_def)
qed

definition credits :: "EvictionCandidate list \<Rightarrow> Eviction \<Rightarrow> Eviction" where
  "credits cs s = fold (\<lambda>c. credit (ec_size c)) cs s"

lemma credits_simps [simp]: "credits [] s = s" "credits (c # cs) s = credits cs (credit (ec_size c) s)"
  by (simp_all add: credits_def)

text \<open>How many of the victims go: as many as it takes, in their order.\<close>

primrec evicted_count :: "CleanupPolicy \<Rightarrow> EvictionCandidate list \<Rightarrow> Eviction \<Rightarrow> nat" where
  "evicted_count policy [] s = 0"
| "evicted_count policy (c # cs) s = (if bytesOverTarget policy s = 0 then 0 else Suc (evicted_count policy cs (credit (ec_size c) s)))"

lemma evicted_count_least:
  "j < evicted_count policy cs s \<Longrightarrow> bytesOverTarget policy (credits (take j cs) s) \<noteq> 0"
  by (induction cs arbitrary: s j) (auto simp: take_Cons' split: if_split_asm)

lemma evicted_count_enough:
  "evicted_count policy cs s < length cs \<Longrightarrow> bytesOverTarget policy (credits (take (evicted_count policy cs s) cs) s) = 0"
  by (induction cs arbitrary: s) auto

lemma evict_loop_alone:
  assumes "no_faults w" and "consistent w" and "\<forall>c\<in>set cs. evictable sp w c" and "distinct (map ec_file cs)"
  shows "\<exists>w'. run_alone (evict_loop sp policy cs s) w = (w', credits (take (evicted_count policy cs s) cs) s)
    \<and> (\<forall>n. is_artifact sp n \<longrightarrow> entry_of w' n = (if n \<in> ec_file ` set (take (evicted_count policy cs s) cs) then None else entry_of w n))"
  using assms
proof (induction cs arbitrary: w s)
  case (Cons c cs)
  show ?case
  proof (cases "bytesOverTarget policy s = 0")
    case False
    have c: "evictable sp w c" using Cons.prems(3) by simp
    obtain v where v: "run_alone (locked sp (ec_file c) (\<lambda>contended. map_result (\<lambda>r. note_lock r contended) s) (evict_victim c s)) w
        = (v, credit (ec_size c) s)" "evicted_world (ec_file c) w v"
      using evict_one_alone [OF Cons.prems(1,2) c] by blast
    have "evictable sp v d" if "d \<in> set cs" for d
      using evictable_after [OF v(2) c] Cons.prems(3,4) that by (metis distinct.simps(2) image_eqI list.set_intros(2) list.set_map list.simps(9))
    then obtain w' where w': "run_alone (evict_loop sp policy cs (credit (ec_size c) s)) v
        = (w', credits (take (evicted_count policy cs (credit (ec_size c) s)) cs) (credit (ec_size c) s))"
      "\<And>n. is_artifact sp n \<Longrightarrow> entry_of w' n = (if n \<in> ec_file ` set (take (evicted_count policy cs (credit (ec_size c) s)) cs)
        then None else entry_of v n)"
      using Cons.IH [of v "credit (ec_size c) s"] Cons.prems(4) v(2) by (auto simp: evicted_world_def)
    have "entry_of v n = (if n = ec_file c then None else entry_of w n)" if "is_artifact sp n" for n
      using v(2) sidecars [of sp "ec_file c"] c that by (auto simp: evicted_world_def evictable_def)
    then show ?thesis using False v(1) w' by auto
  qed simp
qed simp

text \<open>
  The whole eviction: the victims are the least recently used, no more than it takes, and the result says what is
  still held over the target.
\<close>

lemma evictUntilUnderBudget_alone:
  assumes "no_faults w" and "consistent w" and "\<forall>c\<in>set candidates. evictable sp w c" and "distinct (map ec_file candidates)"
    and "s0 = \<lparr>ev_total = total_bytes, ev_available = (if cp_min_free_bytes policy = 0 then None else Some (wd_free w)), ev_result = r\<rparr>"
  shows "\<exists>w' k. let gone = take k (sort_key ec_stamp candidates); s = credits gone s0; held = bytesOverTarget policy s in
      run_alone (evictUntilUnderBudget sp candidates total_bytes policy r) w
        = (w', (ev_result s)\<lparr>cr_bytes_held_over_target := held, cr_target_met := held = 0\<rparr>)
      \<and> k \<le> length candidates \<and> (k < length candidates \<longrightarrow> held = 0)
      \<and> (\<forall>j<k. bytesOverTarget policy (credits (take j (sort_key ec_stamp candidates)) s0) \<noteq> 0)
      \<and> (\<forall>n. is_artifact sp n \<longrightarrow> entry_of w' n = (if n \<in> ec_file ` set gone then None else entry_of w n))"
proof -
  let ?cs = "sort_key ec_stamp candidates"
  let ?k = "evicted_count policy ?cs s0"
  have d: "distinct (map ec_file ?cs)"
    using assms(4) by (simp add: distinct_map)
  obtain w' where w': "run_alone (evict_loop sp policy ?cs s0) w = (w', credits (take ?k ?cs) s0)"
    "\<forall>n. is_artifact sp n \<longrightarrow> entry_of w' n = (if n \<in> ec_file ` set (take ?k ?cs) then None else entry_of w n)"
    using evict_loop_alone [OF assms(1,2) _ d] assms(3) by (metis set_sort)
  have "run_alone (evictUntilUnderBudget sp candidates total_bytes policy r) w
      = (w', (ev_result (credits (take ?k ?cs) s0))\<lparr>cr_bytes_held_over_target := bytesOverTarget policy (credits (take ?k ?cs) s0),
          cr_target_met := bytesOverTarget policy (credits (take ?k ?cs) s0) = 0\<rparr>)"
    using w'(1) assms(1,5) by (auto simp: evictUntilUnderBudget_def free_space_def Let_def)
  moreover have "?k \<le> length candidates"
  proof -
    have "evicted_count policy cs s \<le> length cs" for cs s by (induction cs arbitrary: s) auto
    then show ?thesis by (metis length_sort)
  qed
  ultimately show ?thesis
    using w'(2) evicted_count_least [of _ policy ?cs s0] evicted_count_enough [of policy ?cs s0]
    by (intro exI [of _ w'] exI [of _ ?k]) (simp add: Let_def)
qed


subsection \<open>A whole cleanup\<close>

text \<open>The candidates that a directory holds, as the scan describes them, and the sum of their sizes.\<close>

definition scanned_candidate :: "world \<Rightarrow> file_name \<Rightarrow> EvictionCandidate" where
  "scanned_candidate w n = \<lparr>ec_file = n, ec_size = (case entry_of w n of Some e \<Rightarrow> of_nat (length (en_content e)) | None \<Rightarrow> 0),
     ec_stamp = (case lru_stamp w n of Some stamp \<Rightarrow> stamp | None \<Rightarrow> file_time_min)\<rparr>"

definition regular_artifact :: "CacheSpec \<Rightarrow> world \<Rightarrow> file_name \<Rightarrow> bool" where
  "regular_artifact sp w n \<longleftrightarrow> is_artifact sp n \<and> (case entry_of w n of Some e \<Rightarrow> en_regular e | None \<Rightarrow> False)"

definition total_size :: "EvictionCandidate list \<Rightarrow> u64 \<Rightarrow> u64" where
  "total_size cs start = fold (\<lambda>c sum. saturatedAdd sum (ec_size c)) cs start"

definition no_partials :: "CacheSpec \<Rightarrow> world \<Rightarrow> bool" where
  "no_partials sp w \<longleftrightarrow> (\<forall>n a. entry_of w n \<noteq> None \<longrightarrow> classify sp n \<noteq> KPartial a)"

lemma scan_entry_alone:
  assumes "no_faults w" and "entry_of w n \<noteq> None" and "no_partials sp w"
  shows "run_alone (scan_entry sp policy now n scan r) w = (w,
    (if regular_artifact sp w n then scan\<lparr>sc_total := saturatedAdd (sc_total scan) (ec_size (scanned_candidate w n)),
       sc_candidates := sc_candidates scan @ [scanned_candidate w n]\<rparr> else scan), r)"
proof -
  obtain e where e: "entry_of w n = Some e" using assms(2) by blast
  have found: "run_alone (is_regular_file n) w = (w, en_regular e, EcNone)" using assms(1) e by (simp add: is_regular_file_def)
  have sz: "en_regular e \<Longrightarrow> run_alone (file_size n) w = (w, Inr (of_nat (length (en_content e))))"
    using assms(1) e by (simp add: file_size_def)
  obtain stamp where stamp: "lru_stamp w n = Some stamp" using e by (cases "entry_of w (touchOf n)") (auto simp: lru_stamp_def)
  show ?thesis
  proof (cases "classify sp n")
    case KArtifact
    then show ?thesis using found sz e readLruStamp_alone [OF assms(1) stamp] stamp
      by (auto simp: scan_entry_def scan_artifact_def regular_artifact_def is_artifact_def scanned_candidate_def)
  next
    case (KPartial a)
    then show ?thesis using assms(2,3) by (auto simp: no_partials_def)
  next
    case KOther
    then show ?thesis using found by (auto simp: scan_entry_def regular_artifact_def is_artifact_def)
  qed
qed

lemma scan_names_alone:
  assumes "no_faults w" and "\<forall>n\<in>set names. entry_of w n \<noteq> None" and "no_partials sp w"
  shows "run_alone (scan_names sp policy now names scan r) w = (w, True,
    scan\<lparr>sc_total := total_size (map (scanned_candidate w) (filter (regular_artifact sp w) names)) (sc_total scan),
      sc_candidates := sc_candidates scan @ map (scanned_candidate w) (filter (regular_artifact sp w) names)\<rparr>, r)"
  using assms(2)
proof (induction names arbitrary: scan r)
  case Nil
  then show ?case by (simp add: total_size_def)
next
  case (Cons n names)
  have "entry_of w n \<noteq> None" using Cons.prems by simp
  note one = scan_entry_alone [OF assms(1) this assms(3)]
  have "run_alone increment_ok w = (w, True)" using assms(1) by (simp add: increment_ok_def)
  then show ?case using Cons one by (auto simp: total_size_def)
qed

lemma cleanup_alone:
  assumes "no_faults w" and "wd_locks w = []" and "wd_root w = RsDirectory" and "cs_root sp \<noteq> []" and "no_partials sp w"
    and "distinct (map fst (wd_entries w))" and "\<forall>a. is_artifact sp a \<longrightarrow> absent_or_regular w (lockOf a)"
    and "files = map (scanned_candidate w) (filter (regular_artifact sp w) (map fst (wd_entries w)))"
    and "s0 = \<lparr>ev_total = total_size files 0, ev_available = (if cp_min_free_bytes policy = 0 then None else Some (wd_free w)),
      ev_result = new_CleanupResult\<lparr>cr_bytes_scanned := total_size files 0\<rparr>\<rparr>"
  shows "\<exists>w' k. let gone = take k (sort_key ec_stamp files); s = credits gone s0; held = bytesOverTarget policy s in
      run_alone (cleanup sp policy) w = (w', (ev_result s)\<lparr>cr_bytes_held_over_target := held, cr_target_met := held = 0\<rparr>)
      \<and> k \<le> length files \<and> (k < length files \<longrightarrow> held = 0)
      \<and> (\<forall>j<k. bytesOverTarget policy (credits (take j (sort_key ec_stamp files)) s0) \<noteq> 0)
      \<and> (\<forall>n. is_artifact sp n \<longrightarrow> entry_of w' n = (if n \<in> ec_file ` set gone then None else entry_of w n))"
proof -
  let ?r = "new_CleanupResult\<lparr>cr_bytes_scanned := total_size files 0\<rparr>"
  have names: "\<forall>n\<in>set (map fst (wd_entries w)). entry_of w n \<noteq> None"
    by (auto simp: entry_of_def map_of_eq_None_iff)
  have scan: "run_alone (scanRoot sp policy new_CleanupResult) w
      = (w, \<lparr>sc_stale_partials = [], sc_candidates = files, sc_total = total_size files 0\<rparr>, new_CleanupResult)"
    using scan_names_alone [OF assms(1) names assms(5)] assms(1,3,8)
    by (simp add: scanRoot_def clock_now_def open_directory_def new_Scan_def)
  have scanned: "ec_file c \<in> set (map fst (wd_entries w)) \<and> regular_artifact sp w (ec_file c) \<and> c = scanned_candidate w (ec_file c)"
    if "c \<in> set files" for c
    using that by (auto simp: assms(8) scanned_candidate_def intro: rev_image_eqI)
  have fit: "evictable sp w c" if member: "c \<in> set files" for c
  proof -
    obtain e where e: "entry_of w (ec_file c) = Some e" "en_regular e" "is_artifact sp (ec_file c)"
      using scanned [OF member] by (auto simp: regular_artifact_def split: option.splits)
    have c: "c = scanned_candidate w (ec_file c)" using scanned [OF member] by blast
    have "lru_stamp w (ec_file c) \<noteq> None" using e by (simp add: lru_stamp_def split: option.split)
    then have "unchanged w c" using e by (subst c) (auto simp: unchanged_def scanned_candidate_def)
    then show ?thesis using e assms(2,3,7) by (auto simp: evictable_def lockable_def absent_or_regular_def lock_conflict_def)
  qed
  have calm: "consistent w" using assms(2) by (simp add: consistent_def)
  have "map ec_file files = filter (regular_artifact sp w) (map fst (wd_entries w))"
    by (simp add: assms(8) scanned_candidate_def comp_def)
  then have apart: "distinct (map ec_file files)" using assms(6) by simp
  have same: "run_alone (cleanup sp policy) w
      = run_alone (evictUntilUnderBudget sp files (total_size files 0) policy ?r) w"
    using scan assms(1,3,4) by (simp add: cleanup_def cleanupImpl_def status_of_root_def new_CleanupResult_def)
  have "\<forall>c\<in>set files. evictable sp w c" using fit by blast
  then show ?thesis unfolding same by (rule evictUntilUnderBudget_alone [OF assms(1) calm _ apart assms(9)])
qed

end
