(* ===== verification/SourceDescriptor.thy ===== *)
theory SourceDescriptor
  imports SourceTrust
begin

section \<open>Source descriptors and record envelopes\<close>

text \<open>
  \<open>source_descriptor.cpp\<close> and \<open>record_envelope.cpp\<close>. The JSON library is a parameter: its parser (nothing when the
  text is not JSON) and its compact printer; a parsed value is the tree that the code walks, the members of an
  object in the order of their keys.
\<close>

datatype json = JNull | JBool bool | JUnsigned u64 | JInteger int | JFloat u64 | JString string | JArray "json list"
  | JObject "(string \<times> json) list"

record SourceDescriptorPolicy =
  sd_identity_fields :: "string list"
  sd_presentation_fields :: "string list"
  sd_denied_keys :: "string list"
  sd_identity :: IdentityScheme
  sd_max_descriptor_bytes :: nat
  sd_max_string_bytes :: nat
  sd_max_container_entries :: nat

definition kMaxDepth :: nat where "kMaxDepth = 16"

definition kDeniedKeyViolationPrefix :: string where "kDeniedKeyViolationPrefix = ''carries credential-shaped key: ''"

definition isAllowedField :: "SourceDescriptorPolicy \<Rightarrow> string \<Rightarrow> bool" where
  "isAllowedField policy key \<longleftrightarrow> key \<in> set (sd_identity_fields policy) \<or> key \<in> set (sd_presentation_fields policy)"

text \<open>\<open>boundsViolation\<close>, with its loops over the entries of an array and the members of an object.\<close>

fun boundsViolation :: "SourceDescriptorPolicy \<Rightarrow> nat \<Rightarrow> json \<Rightarrow> string option"
and entries_violation :: "SourceDescriptorPolicy \<Rightarrow> nat \<Rightarrow> json list \<Rightarrow> string option"
and members_violation :: "SourceDescriptorPolicy \<Rightarrow> nat \<Rightarrow> (string \<times> json) list \<Rightarrow> string option" where
  "boundsViolation policy depth v =
     (if depth > kMaxDepth then Some (''descriptor nests deeper than '' @ to_string kMaxDepth @ '' levels'')
      else case v of
        JString s \<Rightarrow> if length s > sd_max_string_bytes policy
          then Some (''a string value exceeds the '' @ to_string (sd_max_string_bytes policy) @ ''-byte limit'') else None
      | JArray vs \<Rightarrow> if length vs > sd_max_container_entries policy
          then Some (''an array exceeds the '' @ to_string (sd_max_container_entries policy) @ ''-entry limit'')
          else entries_violation policy (depth + 1) vs
      | JObject ms \<Rightarrow> if length ms > sd_max_container_entries policy
          then Some (''an object exceeds the '' @ to_string (sd_max_container_entries policy) @ ''-member limit'')
          else members_violation policy (depth + 1) ms
      | _ \<Rightarrow> None)"
| "entries_violation policy depth [] = None"
| "entries_violation policy depth (v # vs) = (case boundsViolation policy depth v of
     Some violation \<Rightarrow> Some violation | None \<Rightarrow> entries_violation policy depth vs)"
| "members_violation policy depth [] = None"
| "members_violation policy depth ((key, v) # ms) =
     (if length key > sd_max_string_bytes policy
      then Some (''an object key exceeds the '' @ to_string (sd_max_string_bytes policy) @ ''-byte limit'')
      else if key \<in> set (sd_denied_keys policy) then Some (kDeniedKeyViolationPrefix @ key)
      else case boundsViolation policy depth v of
        Some violation \<Rightarrow> Some violation | None \<Rightarrow> members_violation policy depth ms)"

declare boundsViolation.simps [simp del]

definition unknown_field :: "SourceDescriptorPolicy \<Rightarrow> (string \<times> json) list \<Rightarrow> string option" where
  "unknown_field policy ms = map_option fst (find (\<lambda>(key, _). \<not> isAllowedField policy key) ms)"

definition parseSourceDescriptor :: "(string \<Rightarrow> json option) \<Rightarrow> SourceDescriptorPolicy \<Rightarrow> string \<Rightarrow> string + json" where
  "parseSourceDescriptor parse policy descriptor =
     (if length descriptor > sd_max_descriptor_bytes policy
      then Inl (''descriptor exceeds the '' @ to_string (sd_max_descriptor_bytes policy) @ ''-byte limit'')
      else case parse descriptor of
        None \<Rightarrow> Inl ''descriptor is not valid JSON''
      | Some (JObject ms) \<Rightarrow> (case unknown_field policy ms of
          Some key \<Rightarrow> Inl (''unknown field \"'' @ key @ ''\"'')
        | None \<Rightarrow> (case boundsViolation policy 0 (JObject ms) of
            Some violation \<Rightarrow> Inl violation
          | None \<Rightarrow> Inr (JObject ms)))
      | Some _ \<Rightarrow> Inl ''descriptor is not a JSON object'')"

definition canonical_members :: "SourceDescriptorPolicy \<Rightarrow> json \<Rightarrow> (string \<times> json) list" where
  "canonical_members policy descriptor = (case descriptor of
     JObject ms \<Rightarrow> List.map_filter (\<lambda>field. map_option (Pair field) (map_of ms field)) (sort (remdups (sd_identity_fields policy)))
   | _ \<Rightarrow> [])"

definition canonicalSourceDescriptorJson :: "((string \<times> json) list \<Rightarrow> string) \<Rightarrow> SourceDescriptorPolicy \<Rightarrow> json \<Rightarrow> string" where
  "canonicalSourceDescriptorJson dump policy descriptor = dump (canonical_members policy descriptor)"

definition sourceDescriptorIdentity :: "((string \<times> json) list \<Rightarrow> string) \<Rightarrow> SourceDescriptorPolicy \<Rightarrow> json \<Rightarrow> string" where
  "sourceDescriptorIdentity dump policy descriptor =
     identityFor (sd_identity policy) (canonicalSourceDescriptorJson dump policy descriptor)"

subsection \<open>Record envelopes\<close>

definition kEnvelopePolicy :: SourceDescriptorPolicy where
  "kEnvelopePolicy = \<lparr>sd_identity_fields = [''kind'', ''request'', ''v''], sd_presentation_fields = [''label''],
     sd_denied_keys = [''api_key'', ''apikey'', ''token'', ''password'', ''secret'', ''credentials'', ''authorization'', ''cert_path''],
     sd_identity = \<lparr>is_prefix = [], is_digest_hex_chars = 32\<rparr>,
     sd_max_descriptor_bytes = 64 * 1024, sd_max_string_bytes = 4096, sd_max_container_entries = 4096\<rparr>"

definition member :: "json \<Rightarrow> string \<Rightarrow> json option" where
  "member v key = (case v of JObject ms \<Rightarrow> map_of ms key | _ \<Rightarrow> None)"

definition starts_with :: "string \<Rightarrow> string \<Rightarrow> bool" where "starts_with s pre \<longleftrightarrow> take (length pre) s = pre"

definition quoted :: "string \<Rightarrow> string" where "quoted s = [CHR 0x27] @ s @ [CHR 0x27]"

definition envelope_fields :: "json \<Rightarrow> string option" where
  "envelope_fields v =
     (if \<not> (case member v ''kind'' of Some (JString s) \<Rightarrow> s \<noteq> [] | _ \<Rightarrow> False)
      then Some (''source record needs a non-empty string '' @ quoted ''kind'')
      else if \<not> (case member v ''v'' of Some (JUnsigned _) \<Rightarrow> True | _ \<Rightarrow> False)
      then Some (''source record needs an unsigned integer '' @ quoted ''v'')
      else if \<not> (case member v ''request'' of Some (JObject _) \<Rightarrow> True | _ \<Rightarrow> False)
      then Some (''source record needs an object '' @ quoted ''request'')
      else if \<not> (case member v ''label'' of None \<Rightarrow> True | Some (JString _) \<Rightarrow> True | _ \<Rightarrow> False)
      then Some (''source record needs a string '' @ quoted ''label'')
      else None)"

definition parseSourceRecordEnvelope :: "(string \<Rightarrow> json option) \<Rightarrow> string \<Rightarrow> string + json" where
  "parseSourceRecordEnvelope parse bytes =
     (if bytes = [] then Inl ''source record descriptor is empty''
      else case parseSourceDescriptor parse kEnvelopePolicy bytes of
        Inl reason \<Rightarrow> if starts_with reason kDeniedKeyViolationPrefix then Inl (''source record '' @ reason)
          else Inl (''source record refused: '' @ reason)
      | Inr v \<Rightarrow> (case envelope_fields v of Some reason \<Rightarrow> Inl reason | None \<Rightarrow> Inr v))"

subsection \<open>What the bounds mean\<close>

text \<open>The nesting of a value, its texts, the sizes of its containers and its keys, at every depth.\<close>

fun nesting :: "json \<Rightarrow> nat" where
  "nesting (JArray vs) = (if vs = [] then 0 else Suc (Max (nesting ` set vs)))"
| "nesting (JObject ms) = (if ms = [] then 0 else Suc (Max ((nesting \<circ> snd) ` set ms)))"
| "nesting _ = 0"

fun texts :: "json \<Rightarrow> string list" where
  "texts (JString s) = [s]"
| "texts (JArray vs) = concat (map texts vs)"
| "texts (JObject ms) = map fst ms @ concat (map (texts \<circ> snd) ms)"
| "texts _ = []"

fun widths :: "json \<Rightarrow> nat list" where
  "widths (JArray vs) = length vs # concat (map widths vs)"
| "widths (JObject ms) = length ms # concat (map (widths \<circ> snd) ms)"
| "widths _ = []"

fun keys :: "json \<Rightarrow> string list" where
  "keys (JArray vs) = concat (map keys vs)"
| "keys (JObject ms) = map fst ms @ concat (map (keys \<circ> snd) ms)"
| "keys _ = []"

definition within_bounds :: "SourceDescriptorPolicy \<Rightarrow> nat \<Rightarrow> json \<Rightarrow> bool" where
  "within_bounds policy depth v \<longleftrightarrow> depth + nesting v \<le> kMaxDepth
     \<and> (\<forall>s\<in>set (texts v). length s \<le> sd_max_string_bytes policy)
     \<and> (\<forall>n\<in>set (widths v). n \<le> sd_max_container_entries policy)
     \<and> (\<forall>k\<in>set (keys v). k \<notin> set (sd_denied_keys policy))"


lemma nesting_entries: "vs \<noteq> [] \<Longrightarrow> depth + nesting (JArray vs) \<le> n \<longleftrightarrow> (\<forall>v\<in>set vs. Suc depth + nesting v \<le> n)"
proof -
  assume vs: "vs \<noteq> []"
  have "Suc depth + Max (nesting ` set vs) \<le> n \<longleftrightarrow> (\<forall>v\<in>set vs. Suc depth + nesting v \<le> n)"
  proof
    assume "Suc depth + Max (nesting ` set vs) \<le> n"
    then show "\<forall>v\<in>set vs. Suc depth + nesting v \<le> n"
      by (meson List.finite_set Max_ge add_left_mono finite_imageI imageI order_trans)
  next
    assume all: "\<forall>v\<in>set vs. Suc depth + nesting v \<le> n"
    have "Max (nesting ` set vs) \<in> nesting ` set vs" using vs by (intro Max_in) auto
    then show "Suc depth + Max (nesting ` set vs) \<le> n" using all by auto
  qed
  then show ?thesis using vs by simp
qed

lemma nesting_members: "nesting (JObject ms) = nesting (JArray (map snd ms))"
  by (simp add: image_comp)

lemma bounds_scalar:
  "(\<And>s. v \<noteq> JString s) \<Longrightarrow> (\<And>vs. v \<noteq> JArray vs) \<Longrightarrow> (\<And>ms. v \<noteq> JObject ms) \<Longrightarrow>
    boundsViolation policy depth v = None \<longleftrightarrow> within_bounds policy depth v"
  by (cases v) (auto simp: boundsViolation.simps [of policy depth] within_bounds_def)

lemma within_entries:
  "depth \<le> kMaxDepth \<Longrightarrow> within_bounds policy depth (JArray vs) \<longleftrightarrow> length vs \<le> sd_max_container_entries policy
    \<and> (\<forall>v\<in>set vs. within_bounds policy (depth + 1) v)"
  by (cases "vs = []") (auto simp: within_bounds_def nesting_entries simp del: nesting.simps(1), auto)

lemma within_members:
  "depth \<le> kMaxDepth \<Longrightarrow> within_bounds policy depth (JObject ms) \<longleftrightarrow> length ms \<le> sd_max_container_entries policy
    \<and> (\<forall>(k, v)\<in>set ms. length k \<le> sd_max_string_bytes policy \<and> k \<notin> set (sd_denied_keys policy) \<and> within_bounds policy (depth + 1) v)"
  unfolding case_prod_unfold
  by (cases "ms = []") (auto simp: within_bounds_def nesting_members nesting_entries ball_Un simp del: nesting.simps(1,2), simp)

lemma boundsViolation_iff:
  "boundsViolation policy depth v = None \<longleftrightarrow> within_bounds policy depth v"
  "entries_violation policy depth vs = None \<longleftrightarrow> (\<forall>v\<in>set vs. within_bounds policy depth v)"
  "members_violation policy depth ms = None \<longleftrightarrow> (\<forall>(k, v)\<in>set ms. length k \<le> sd_max_string_bytes policy
     \<and> k \<notin> set (sd_denied_keys policy) \<and> within_bounds policy depth v)"
proof (induction policy depth v and policy depth vs and policy depth ms rule: boundsViolation_entries_violation_members_violation.induct)
  case (1 policy depth v)
  show ?case
  proof (cases "depth > kMaxDepth")
    case True
    then show ?thesis by (simp add: boundsViolation.simps [of policy depth v] within_bounds_def)
  next
    case False
    then show ?thesis using 1 within_entries [of depth policy] within_members [of depth policy]
      by (cases v) (auto simp: boundsViolation.simps [of policy depth] within_bounds_def [of policy depth "JString _"] bounds_scalar
          within_bounds_def [of policy depth JNull] within_bounds_def [of policy depth "JBool _"] within_bounds_def [of policy depth "JUnsigned _"]
          within_bounds_def [of policy depth "JInteger _"] within_bounds_def [of policy depth "JFloat _"])
  qed
qed (auto split: option.split)


lemma find_None: "find P xs = None \<longleftrightarrow> (\<forall>x\<in>set xs. \<not> P x)"
  by (induction xs) auto

lemma unknown_field_None: "unknown_field policy ms = None \<longleftrightarrow> (\<forall>(key, _)\<in>set ms. isAllowedField policy key)"
  by (simp add: unknown_field_def find_None case_prod_unfold)

text \<open>Exactly the descriptors that are accepted.\<close>

lemma parseSourceDescriptor_iff:
  "parseSourceDescriptor parse policy descriptor = Inr v \<longleftrightarrow> length descriptor \<le> sd_max_descriptor_bytes policy
     \<and> parse descriptor = Some v \<and> (\<exists>ms. v = JObject ms \<and> (\<forall>(key, _)\<in>set ms. isAllowedField policy key))
     \<and> within_bounds policy 0 v"
proof (cases "\<exists>ms. parse descriptor = Some (JObject ms)")
  case True
  then obtain ms where ms: "parse descriptor = Some (JObject ms)" by blast
  show ?thesis
    unfolding parseSourceDescriptor_def ms boundsViolation_iff(1) [symmetric]
    using unknown_field_None [of policy ms]
    by (cases "unknown_field policy ms"; cases "boundsViolation policy 0 (JObject ms)") auto
next
  case False
  then show ?thesis by (auto simp: parseSourceDescriptor_def split: option.split json.split)
qed

text \<open>The identity depends on the identity fields alone.\<close>

lemma identity_of_fields:
  assumes "\<forall>field\<in>set (sd_identity_fields policy). map_of ms field = map_of ms' field"
  shows "sourceDescriptorIdentity dump policy (JObject ms) = sourceDescriptorIdentity dump policy (JObject ms')"
proof -
  have "List.map_filter (\<lambda>field. map_option (Pair field) (map_of ms field)) fields
      = List.map_filter (\<lambda>field. map_option (Pair field) (map_of ms' field)) fields"
    if "set fields \<subseteq> set (sd_identity_fields policy)" for fields
    using that assms by (induction fields) (auto simp: List.map_filter_def)
  then show ?thesis by (simp add: sourceDescriptorIdentity_def canonicalSourceDescriptorJson_def canonical_members_def)
qed

lemma envelope_fields_iff:
  "envelope_fields v = None \<longleftrightarrow> (\<exists>kind. member v ''kind'' = Some (JString kind) \<and> kind \<noteq> [])
     \<and> (\<exists>n. member v ''v'' = Some (JUnsigned n)) \<and> (\<exists>ms. member v ''request'' = Some (JObject ms))
     \<and> (member v ''label'' \<noteq> None \<longrightarrow> (\<exists>s. member v ''label'' = Some (JString s)))"
  by (auto simp: envelope_fields_def split: option.splits json.splits)

lemma parseSourceRecordEnvelope_iff:
  "parseSourceRecordEnvelope parse bytes = Inr v \<longleftrightarrow> bytes \<noteq> [] \<and> parseSourceDescriptor parse kEnvelopePolicy bytes = Inr v
     \<and> envelope_fields v = None"
  by (auto simp: parseSourceRecordEnvelope_def split: sum.splits option.splits if_split_asm)

end
