(* ===== verification/SourceProviders.thy ===== *)
theory SourceProviders
  imports CacheSystem CacheAlone SourceDescriptor
begin

text \<open>
  The source providers as a whole: the properties of the request cache that many processes share, of the identities
  and descriptors of requests, and of the texts that trust decisions read. \<open>Spec2Isabelle\<close> documents the model.
\<close>

section \<open>A sample cache\<close>

text \<open>A directory with a file of somebody else, and a validator that knows one content.\<close>

definition sample_spec :: CacheSpec where
  "sample_spec = \<lparr>cs_root = ''cache'', cs_artifact_suffix = ''.a'', cs_identity = \<lparr>is_prefix = ''p:'', is_digest_hex_chars = 32\<rparr>\<rparr>"

definition sample_digest :: string where "sample_digest = replicate 32 (CHR ''a'')"

definition sample_file :: file_name where "sample_file = sample_digest @ ''.a''"

definition sample_validator :: "validator option" where
  "sample_validator = Some (\<lambda>content digest. if content = Some [1] then None else Some ''unknown content'')"

definition sample_world :: world where
  "sample_world = \<lparr>wd_root = RsDirectory, wd_entries = [(''notes'', \<lparr>en_regular = True, en_content = [7], en_mtime = 0\<rparr>)],
     wd_locks = [], wd_next = 0, wd_time = 5, wd_free = 0, wd_faults = \<lambda>_. None\<rparr>"

definition sample_budget :: CleanupPolicy where
  "sample_budget = \<lparr>cp_max_total_bytes = 0, cp_min_free_bytes = 0, cp_orphan_partial_age = 24\<rparr>"

definition sample_commit :: "move list" where
  "sample_commit = [MRequest 0 (RqBegin 9 (''p:'' @ sample_digest))] @ replicate 3 (MCall 0) @ [MRequest 0 (RqWrite [1]), MCall 0, MRequest 0 RqCommit]"

text \<open>One thread publishes, the other looks up, then the first one cleans up under an empty budget.\<close>

definition sample_run :: config where
  "sample_run = fold (perform sample_spec sample_validator)
     (sample_commit @ replicate 9 (MCall 0) @ [MRequest 0 RqRelease, MCall 0, MRequest 1 (RqLookup (''p:'' @ sample_digest))]
       @ replicate 8 (MCall 1) @ [MRequest 0 (RqCleanup sample_budget)] @ replicate 20 (MCall 0)) (sample_world, idle_threads 2)"

text \<open>Two threads that write two artifacts.\<close>

definition sample_writers :: config where
  "sample_writers = fold (perform sample_spec sample_validator)
     ([MRequest 0 (RqBegin 9 (''p:'' @ sample_digest))] @ replicate 3 (MCall 0)
       @ [MRequest 1 (RqBegin 9 (''p:'' @ replicate 32 (CHR ''b'')))] @ replicate 3 (MCall 1)) (sample_world, idle_threads 2)"

text \<open>A commit between whose two lock calls another thread cleans up.\<close>

definition sample_race :: config where
  "sample_race = fold (perform sample_spec sample_validator)
     (sample_commit @ replicate 8 (MCall 0) @ [MRequest 1 (RqCleanup sample_budget)] @ replicate 25 (MCall 1) @ [MCall 0])
     (sample_world, idle_threads 2)"

primrec returned :: "'a prog \<Rightarrow> 'a option" where
  "returned (Ret a) = Some a"
| "returned (Act f) = None"

lemma returned_iff: "returned p = Some a \<longleftrightarrow> p = Ret a"
  by (cases p) auto

lemma sample_consistent: "consistent sample_world"
  by (simp add: consistent_def sample_world_def)

lemma sample_rejects: "rejects_missing sample_validator"
  by (simp add: rejects_missing_def sample_validator_def)

lemma sample_cache_reachable:
  "reachable sample_spec sample_validator (sample_world, idle_threads 2) (fst sample_run, snd sample_run)"
  "reachable sample_spec sample_validator (sample_world, idle_threads 2) (fst sample_writers, snd sample_writers)"
  "reachable sample_spec sample_validator (sample_world, idle_threads 2) (fst sample_race, snd sample_race)"
  unfolding prod.collapse sample_run_def sample_writers_def sample_race_def by (rule reachable_schedule)+

lemma sample_hit: "returned (snd sample_run ! 1) = Some (OHit \<lparr>hit_path = sample_file, hit_lease = 2\<rparr>) \<and> length (snd sample_run) = 2"
  by code_simp

lemma sample_two_writers:
  "map returned (snd sample_writers) = [
     Some (OWriting \<lparr>wt_digest = sample_digest, wt_artifact = sample_file, wt_partial = sample_file @ ''.partial.9'', wt_lock = 0, wt_finished = False\<rparr>),
     Some (OWriting \<lparr>wt_digest = replicate 32 (CHR ''b''), wt_artifact = replicate 32 (CHR ''b'') @ ''.a'',
       wt_partial = replicate 32 (CHR ''b'') @ ''.a.partial.9'', wt_lock = 1, wt_finished = False\<rparr>)]"
  by code_simp

section \<open>The request cache that many processes share\<close>

text \<open>A hit of `lookup` keeps its promise: while its lease is held, the artifact exists and is what the validator
  accepted, whatever lookups, writes, commits, cleanups and failing system calls of other threads interleave.\<close>

theorem lookup_hit_protected:
  assumes "consistent w0" and "rejects_missing v" and "reachable sp v (w0, idle_threads k) (w, ts)"
    and "i < length ts" and "ts ! i = Ret (OHit hit)"
  shows "\<exists>e. entry_of w (hit_path hit) = Some e \<and> accepted sp v (hit_path hit) e"
  by (rule hit_state [OF reachable_safe [OF assms(3) idle_safe [OF assms(1)] assms(2)] assms(4,5)])

text \<open>One writer at a time: while a thread holds a write transaction, no other thread has a transaction, a hit
  or a lease on the same artifact, in any interleaving.\<close>

theorem one_writer_per_artifact:
  assumes "consistent w0" and "rejects_missing v" and "reachable sp v (w0, idle_threads k) (w, ts)"
    and "i < length ts" and "ts ! i = Ret (OWriting t)" and "j < length ts" and "ts ! j = Ret r" and "j \<noteq> i"
  shows "uses r \<noteq> Some (wt_artifact t)"
  using writer_alone [OF reachable_safe [OF assms(3) idle_safe [OF assms(1)] assms(2)] assms(4-7)] assms(8) by blast

text \<open>Publication is atomic and validated: a file under the name of an artifact always has a content that the
  validator accepts for its digest, at every moment of every interleaving.\<close>

theorem published_files_accepted:
  assumes "consistent w0" and "rejects_missing v" and "published sp v w0" and "reachable sp v (w0, idle_threads k) (w, ts)"
  shows "published sp v w"
  using reachable_lawful [OF assms(4) idle_safe [OF assms(1)] assms(2), of "published sp v"] assms(3) published_lawful by auto

lemma sample_published: "published sample_spec sample_validator sample_world"
proof -
  have "\<not> is_artifact sample_spec ''notes''" by code_simp
  then show ?thesis by (auto simp: published_def sample_world_def entry_of_def split: if_split_asm)
qed

text \<open>C23. The request cache is safe in every interleaving. Let any number of threads, of any processes, run lookups,
  leases, writes, commits, aborts, releases and cleanups on one cache directory, one system call at a time in any order
  and with any of the calls failing; a partial file is written only inside its transaction. Let the table of locks be
  consistent at the start, the validator refuse a file that cannot be opened, and the files that already have names
  of artifacts be accepted by it. Then at every moment (1) every file under the name of an artifact has a content that
  the validator accepts for its digest; (2) while the lease of a hit of `lookup` is held, the artifact exists; (3) while
  a write transaction is open, no other thread has a transaction, a hit or a lease on its artifact. For the hit that
  `commit` returns (2) does not hold: see `commit_hit_without_file`.\<close>

theorem cache_safe_in_every_interleaving:
  assumes "consistent w0" and "rejects_missing v" and "published sp v w0" and "reachable sp v (w0, idle_threads k) (w, ts)"
  shows "published sp v w
    \<and> (if i < length ts \<and> ts ! i = Ret (OHit hit)
       then \<exists>e. entry_of w (hit_path hit) = Some e \<and> accepted sp v (hit_path hit) e else True)
    \<and> (if i < length ts \<and> ts ! i = Ret (OWriting t) \<and> j < length ts \<and> ts ! j = Ret r \<and> j \<noteq> i
       then uses r \<noteq> Some (wt_artifact t) else True)"
  using published_files_accepted [OF assms] lookup_hit_protected [OF assms(1,2,4)] one_writer_per_artifact [OF assms(1,2,4)]
  by (auto simp: if_bool_eq_conj)

lemma cache_safe_in_every_interleaving_witness:
  "published sample_spec sample_validator (fst sample_run)
   \<and> (\<exists>e. entry_of (fst sample_run) sample_file = Some e \<and> accepted sample_spec sample_validator sample_file e)"
  using cache_safe_in_every_interleaving [OF sample_consistent sample_rejects sample_published sample_cache_reachable(1), of 1
      "\<lparr>hit_path = sample_file, hit_lease = 2\<rparr>"] sample_hit by (simp add: returned_iff)

text \<open>The cache never touches a file that is not its own: in every interleaving of its operations, cleanups
  included, a file that is neither an artifact, nor a partial, nor a sidecar of one stays as it is.\<close>

theorem foreign_files_untouched:
  assumes "consistent w0" and "rejects_missing v" and "reachable sp v (w0, idle_threads k) (w, ts)" and "foreign sp n"
  shows "entry_of w n = entry_of w0 n"
proof -
  have "entry_of (fst (w, ts)) n = entry_of w0 n"
  proof (rule reachable_lawful [OF assms(3) idle_safe [OF assms(1)] assms(2), where P = "\<lambda>w. entry_of w n = entry_of w0 n"])
    show "entry_of u' n = entry_of w0 n" if "entry_of u n = entry_of w0 n" "lawful sp v u u'" for u u'
      using foreign_lawful [OF that(2) assms(4)] that(1) by simp
  qed simp
  then show ?thesis by simp
qed

text \<open>The lock conversion of `commit` leaves a window: there is an interleaving of a commit and a cleanup after
  which the commit returns a hit, with its lease held, whose file no longer exists.\<close>

theorem commit_hit_without_file:
  "\<exists>w ts hit. reachable sample_spec sample_validator (sample_world, idle_threads 2) (w, ts)
     \<and> ts ! 0 = Ret (OPublished hit) \<and> entry_of w (hit_path hit) = None"
proof -
  have "returned (snd sample_race ! 0) = Some (OPublished \<lparr>hit_path = sample_file, hit_lease = 2\<rparr>) \<and> entry_of (fst sample_race) sample_file = None"
    by code_simp
  then show ?thesis using sample_cache_reachable(3)
    by (intro exI [of _ "fst sample_race"] exI [of _ "snd sample_race"] exI [of _ "\<lparr>hit_path = sample_file, hit_lease = 2\<rparr>"])
      (simp add: returned_iff)
qed

text \<open>C24. Round trip through the cache. Let no system call fail, the identity be one of the cache's scheme, the root be
  configured and a directory or missing (it is created), the names of the artifact and its lock and touch files be free or regular
  files, nobody hold the artifact's lock, and the validator accept the content. Then a session that begins a
  write, writes the content, commits, releases the lock and looks the identity up, alone, ends with a hit on the
  artifact of the digest; the file holds exactly that content, and the partial file is gone.\<close>

theorem store_then_lookup:
  assumes "no_faults w" and "digestOf (cs_identity sp) identity = Some d" and "cs_root sp \<noteq> []" and "wd_root w \<noteq> RsOther"
    and "absent_or_regular w (artifact sp d)" and "absent_or_regular w (lockOf (artifact sp d))"
    and "absent_or_regular w (touchOf (artifact sp d))"
    and "\<not> lock_conflict (wd_locks w) (lockOf (artifact sp d)) LockExclusive"
    and "f (Some content) d = None"
  shows "\<exists>w' hit e. run_alone (store_and_lookup sp (Some f) pid identity content) w = (w', Inr hit) \<and> hit_path hit = artifact sp d
    \<and> entry_of w' (artifact sp d) = Some e \<and> en_content e = content \<and> entry_of w' (partialOf pid (artifact sp d)) = None"
  using assms by (rule store_and_lookup_alone)

lemma store_then_lookup_witness:
  "\<exists>w' hit e. run_alone (store_and_lookup sample_spec (Some (\<lambda>content digest. if content = Some [1] then None else Some ''no''))
      9 (''p:'' @ sample_digest) [1]) (sample_world\<lparr>wd_root := RsMissing\<rparr>) = (w', Inr hit)
    \<and> hit_path hit = artifact sample_spec sample_digest \<and> entry_of w' (artifact sample_spec sample_digest) = Some e
    \<and> en_content e = [1] \<and> entry_of w' (partialOf 9 (artifact sample_spec sample_digest)) = None"
proof (rule store_then_lookup)
  show "digestOf (cs_identity sample_spec) (''p:'' @ sample_digest) = Some sample_digest" by code_simp
  have "map_of (wd_entries sample_world) (artifact sample_spec sample_digest) = None"
    "map_of (wd_entries sample_world) (lockOf (artifact sample_spec sample_digest)) = None"
    "map_of (wd_entries sample_world) (touchOf (artifact sample_spec sample_digest)) = None"
    by code_simp+
  then show "absent_or_regular (sample_world\<lparr>wd_root := RsMissing\<rparr>) (artifact sample_spec sample_digest)"
    "absent_or_regular (sample_world\<lparr>wd_root := RsMissing\<rparr>) (lockOf (artifact sample_spec sample_digest))"
    "absent_or_regular (sample_world\<lparr>wd_root := RsMissing\<rparr>) (touchOf (artifact sample_spec sample_digest))"
    by (simp_all add: absent_or_regular_def entry_of_def)
qed (simp_all add: no_faults_def sample_world_def sample_spec_def lock_conflict_def)












text \<open>A refused write may be retried only when another holds the lock, whatever fails.\<close>

theorem write_retryable_only_when_locked:
  assumes "run_alone (beginWrite sp pid identity) w = (w', Inl e)" and "ce_retryable e"
  shows "\<exists>d. digestOf (cs_identity sp) identity = Some d \<and> lock_conflict (wd_locks w) (lockOf (artifact sp d)) LockExclusive"
proof (cases "digestOf (cs_identity sp) identity")
  case None
  then show ?thesis using assms by (auto simp: beginWrite_def resolveIdentity_def final_error_def)
next
  case (Some d)
  obtain v where v: "run_alone ensureDir0700 w = (v, ())" "wd_locks v = wd_locks w"
    by (cases "run_alone ensureDir0700 w") (auto simp: ensureDir0700_def run_alone_faulty Let_def split: option.splits if_split_asm)
  show ?thesis
  proof (cases "cs_root sp = []")
    case True
    then show ?thesis using assms Some by (auto simp: beginWrite_def resolveIdentity_def final_error_def)
  next
    case False
    then obtain u reason where "run_alone (tryExclusive sp (lockOf (artifact sp d))) v = (u, Inl (True, reason))"
      using assms Some v(1)
      by (cases "run_alone (tryExclusive sp (lockOf (artifact sp d))) v")
        (auto simp: beginWrite_def resolveIdentity_def split: sum.splits)
    then show ?thesis using Some v(2) tryAcquire_contended unfolding tryExclusive_def by metis
  qed
qed

text \<open>A refused lease may always be retried, also when no lock is held and a system call has failed.\<close>

theorem lease_retryable_without_lock:
  "\<exists>w w' e. wd_locks w = [] \<and> run_alone (acquireReadLease sample_spec (''p:'' @ sample_digest)) w = (w', Inl e) \<and> ce_retryable e"
proof -
  let ?w = "sample_world\<lparr>wd_faults := \<lambda>n. if n = 1 then Some ''Permission denied'' else None\<rparr>"
  have "case run_alone (acquireReadLease sample_spec (''p:'' @ sample_digest)) ?w of (w', Inl e) \<Rightarrow> ce_retryable e | _ \<Rightarrow> False"
    by code_simp
  then obtain w' e where "run_alone (acquireReadLease sample_spec (''p:'' @ sample_digest)) ?w = (w', Inl e)" "ce_retryable e"
    by (cases "run_alone (acquireReadLease sample_spec (''p:'' @ sample_digest)) ?w") (auto split: sum.splits)
  moreover have "wd_locks ?w = []" by (simp add: sample_world_def)
  ultimately show ?thesis by blast
qed

section \<open>Identities and descriptors of requests\<close>

text \<open>The one-pass SHA-256 of the code, which hashes full blocks as it goes and pads the rest in a fixed buffer,
  is the standard digest: the padded message cut into blocks and compressed in order.\<close>

theorem sha256_equals_standard: "sha256 m = sha256_standard m"
  by (rule sha256_is_standard)

text \<open>Every identity that a scheme mints is parsed by it, and names the artifact of its digest.\<close>

theorem minted_identity_names_artifact:
  "digestOf scheme (identityFor scheme s) = Some (sha256Hex s (hexChars scheme)) \<and> length (sha256Hex s (hexChars scheme)) = hexChars scheme
    \<and> is_artifact \<lparr>cs_root = root, cs_artifact_suffix = sfx, cs_identity = scheme\<rparr> (sha256Hex s (hexChars scheme) @ sfx)"
  using digestOf_identityFor [of scheme s] sha256Hex_shape [of s "hexChars scheme"] normalized_again [of scheme]
  by (auto simp: artifact_iff)

text \<open>Exactly these descriptors are accepted: a JSON object of allowed fields within the size limit in which, at
  every depth, no key is denied, no text or container is too large, and which nests at most 16 levels.\<close>

theorem descriptor_accepted_iff:
  "parseSourceDescriptor parse policy descriptor = Inr v \<longleftrightarrow> length descriptor \<le> sd_max_descriptor_bytes policy
     \<and> parse descriptor = Some v \<and> (\<exists>ms. v = JObject ms \<and> list_all (\<lambda>m. isAllowedField policy (fst m)) ms)
     \<and> nesting v \<le> 16 \<and> list_all (\<lambda>s. length s \<le> sd_max_string_bytes policy) (texts v)
     \<and> list_all (\<lambda>n. n \<le> sd_max_container_entries policy) (widths v) \<and> list_all (\<lambda>k. k \<notin> set (sd_denied_keys policy)) (keys v)"
  unfolding parseSourceDescriptor_iff within_bounds_def kMaxDepth_def list_all_iff case_prod_unfold by simp

text \<open>The identity of a request ignores what only presents it: two descriptors that agree on the identity fields
  have the same identity, whatever else they carry.\<close>

theorem identity_ignores_presentation:
  assumes "list_all (\<lambda>field. map_of ms field = map_of ms' field) (sd_identity_fields policy)"
  shows "sourceDescriptorIdentity dump policy (JObject ms) = sourceDescriptorIdentity dump policy (JObject ms')"
  using identity_of_fields assms unfolding list_all_iff by blast

text \<open>A record envelope that is accepted has its fields: a kind, an unsigned version, a request, and no label but a text.\<close>

theorem envelope_accepted_iff:
  "parseSourceRecordEnvelope parse bytes = Inr v \<longleftrightarrow> bytes \<noteq> [] \<and> parseSourceDescriptor parse kEnvelopePolicy bytes = Inr v
     \<and> (\<exists>kind. member v ''kind'' = Some (JString kind) \<and> kind \<noteq> []) \<and> (\<exists>n. member v ''v'' = Some (JUnsigned n))
     \<and> (\<exists>ms. member v ''request'' = Some (JObject ms))
     \<and> (member v ''label'' = None \<or> (\<exists>s. member v ''label'' = Some (JString s)))"
  unfolding parseSourceRecordEnvelope_iff envelope_fields_iff by auto

section \<open>Texts that trust decisions read\<close>

text \<open>The key of an origin is canonical: it parses back to the origin it came from, and two addresses have the same
  origin exactly when the keys are equal.\<close>

theorem origin_key_canonical:
  assumes "parseOrigin policy a = Some x" and "parseOrigin policy b = Some y" and "proper_ports policy"
  shows "parseOrigin policy (originKey x) = Some x \<and> (sameOrigin policy a b \<longleftrightarrow> originKey x = originKey y)"
  using parseOrigin_key [OF assms(1,3)] originKey_injective [OF assms] assms(1,2) by (auto simp: sameOrigin_def)

lemma origin_key_canonical_witness:
  "parseOrigin \<lparr>op_allowed_schemes = [''grpc''], op_default_ports = [(''grpc'', 80)]\<rparr> ''grpc://h:80'' = Some \<lparr>og_scheme = ''grpc'', og_host = ''h'', og_port = 80\<rparr>"
proof -
  let ?p = "\<lparr>op_allowed_schemes = [''grpc''], op_default_ports = [(''grpc'', 80)]\<rparr>"
  let ?o = "\<lparr>og_scheme = ''grpc'', og_host = ''h'', og_port = 80\<rparr>"
  have "parseOrigin ?p ''gRPC://H/x'' = Some ?o" "parseOrigin ?p ''grpc://h:080'' = Some ?o" "proper_ports ?p"
    "originKey ?o = ''grpc://h:80''"
    by (simp_all add: parseOrigin_def parse_authority_def find_text.simps lowerAscii_def ascii_lower_def char_le parsePort_def
        from_chars_def decimal_digit_def decimal_value_def validHostBytes_def host_byte_def proper_ports_def originKey_def
        to_string.simps char_of_eq_iff)
  from origin_key_canonical [OF this(1-3)] this(4) show ?thesis by simp
qed

text \<open>The completion that is reported is the verdict over the last outcome of every declared topic.\<close>

theorem completion_is_verdict:
  "computeCompletion (record_all records (new_ledger topics)) False = (IngestCompleted, f) \<longleftrightarrow>
    list_all (\<lambda>t. last_outcome records t \<in> {TopicOk, TopicEmptyOk}) topics
    \<and> f = (if list_ex (\<lambda>t. last_outcome records t = TopicEmptyOk) topics then ATTESTS_EMPTY_TOPICS else 0)"
  unfolding completion_of_records [OF refl] list_all_iff list_ex_iff ..

text \<open>No two sources share a group of settings, and a group contains no separator beyond those of its prefix.\<close>

theorem settings_groups_distinct:
  "(sourcePresentationSettingsGroup a = sourcePresentationSettingsGroup b \<longleftrightarrow> a = b)
    \<and> CHR ''/'' \<notin> set (base64UrlUnpadded (text_bytes a))"
proof -
  have "CHR ''/'' \<notin> set kBase64UrlAlphabet" by code_simp
  then show ?thesis using settings_group_injective base64_alphabet by blast
qed

text \<open>What is shown of a source: from the encoding of any code points, the presentation keeps the encoding of those
  that are neither control nor format characters, whole, in order, and at most 200 UTF-16 units of them; and no bytes
  make it longer than 600.\<close>

theorem presentation_keeps_plain_text:
  assumes "list_all (\<lambda>c. c < 0x110000) cs"
  shows "capPresentation (concat (map utf8 cs)) = concat (map utf8 (capped 0 cs))
    \<and> list_all (\<lambda>c. \<not> isControlOrFormat c) (capped 0 cs) \<and> sum_list (map utf16_units (capped 0 cs)) \<le> 200
    \<and> length (capPresentation bytes) \<le> 600"
proof (intro conjI)
  show "capPresentation (concat (map utf8 cs)) = concat (map utf8 (capped 0 cs))"
    using capPresentation_encoded assms unfolding list_all_iff by blast
  show "list_all (\<lambda>c. \<not> isControlOrFormat c) (capped 0 cs)" by (rule capped_clean)
  show "sum_list (map utf16_units (capped 0 cs)) \<le> 200"
    using capped_units [of 0 cs] by (simp add: kMaxPresentationChars_def)
  show "length (capPresentation bytes) \<le> 600"
    using cap_loop_size [of 0 bytes] by (simp add: kMaxPresentationChars_def capPresentation_def)
qed

lemma presentation_keeps_plain_text_witness:
  "capPresentation (concat (map utf8 [0x41, 0x202e, 0x1f600])) = concat (map utf8 (capped 0 [0x41, 0x202e, 0x1f600]))"
  by (rule conjunct1 [OF presentation_keeps_plain_text [where bytes = "[]"]]) simp

text \<open>Of bytes that are no UTF-8, the characters that are dropped may join their neighbours to a format character.\<close>

lemma malformed_bytes_step:
  "utf8_step (0xef # 0x01 # s) = (1, 1, 0xef)" "utf8_step (0x01 # s) = (1, 1, 0x01)"
  "utf8_step (0xbb # s) = (1, 1, 0xbb)" "utf8_step (0xbf # s) = (1, 1, 0xbf)"
  by (simp_all add: utf8_step_def lead_width_def continuation_def)

lemma malformed_bytes_kept:
  "isControlOrFormat 0x01" "\<not> isControlOrFormat 0xef" "\<not> isControlOrFormat 0xbb" "\<not> isControlOrFormat 0xbf"
  by (simp_all add: isControlOrFormat_def)

lemma utf8_three: "0x800 \<le> c \<Longrightarrow> c < 0x10000 \<Longrightarrow> utf8 c = [0xe0 + c div 4096, 0x80 + c div 64 mod 64, 0x80 + c mod 64]"
  by (simp add: utf8_def)

theorem dropped_control_joins_format_character:
  "capPresentation [0xef, 0x01, 0xbb, 0xbf] = utf8 0xfeff \<and> isControlOrFormat 0xfeff"
proof
  show "isControlOrFormat 0xfeff" by (simp only: isControlOrFormat_def simp_thms)
  note steps = malformed_bytes_step malformed_bytes_kept
  have "utf8 0xfeff = [0xef, 0xbb, 0xbf]" by (simp add: utf8_three)
  moreover have "capPresentation [0xef, 0x01, 0xbb, 0xbf] = [0xef, 0xbb, 0xbf]"
    by (simp add: capPresentation_def steps steps [unfolded One_nat_def] kMaxPresentationChars_def)
  ultimately show "capPresentation [0xef, 0x01, 0xbb, 0xbf] = utf8 0xfeff" by simp
qed

end
