(* ===== verification/Spec2Isabelle.thy ===== *)
theory Spec2Isabelle
  imports BuiltinObject Leb128 TimeMath CdrValues RouteResolver ProviderJob Policies ParserModules SourceProviders
begin

text \<open>
  The builtin-object codecs of the PlotJuggler SDK, the time arithmetic they share with the data
  sources, the host's catalog of parser claims with the route resolver, the import jobs of the source
  providers, their request cache and what they trust, the policies of the parsers, and the parser modules: the CDR and protobuf readers with their schema
  compilers, the object and scalar writers, the exported calls of a module, and the host's side of them.

  \<^bold>\<open>The program.\<close> \<open>pj_base\<close> defines the canonical objects that plugins and the host exchange (images,
  point clouds, scenes, annotations, grids, ...; \<open>include/pj_base/builtin/*.hpp\<close>) and a codec for each
  (\<open>src/builtin/*_codec.cpp\<close>). All codecs speak the protobuf wire format through the \<open>Writer\<close>,
  \<open>Reader\<close> and \<open>parseFields\<close> of \<open>src/builtin/protobuf_wire.hpp\<close> and share the geometry, timestamp,
  colour and point field messages of \<open>geometry_codec.hpp\<close> and \<open>point_field_codec.hpp\<close>.
  \<open>builtin_object_codec.cpp\<close> dispatches over the type tag of the type-erased \<open>BuiltinObject\<close>. A message on a
  topic is turned into scalars or such an object by a parser. \<open>pj_plugins\<close> keeps the claims of the installed
  parsers (\<open>src/parser_claim_catalog.cpp\<close>; module manifests carry semantic versions, \<open>pj_base/src/semver.cpp\<close>)
  and selects one for each route by probing them in policy order (\<open>src/parser_route_resolver.cpp\<close>); a parser
  finds its time column and limits its arrays by the policies of \<open>pj_plugins/sdk\<close>, and a parser module reads
  ROS 2 payloads with the reader and the compiled field plans of \<open>pj_base/parser_module/cdr_*.hpp\<close>, protobuf
  payloads with those of \<open>proto_*.hpp\<close>, and writes its result with \<open>object_writer.hpp\<close>. A module exports a handful
  of C functions over tokens (\<open>module.hpp\<close>); the host calls them with the blocks of \<open>pj_base/src/parser_module_abi.cpp\<close>
  through owners of instances (\<open>pj_plugins/src/parser_module_runtime.cpp\<close>). A source
  provider imports a dataset in a job with its own thread (\<open>pj_base/src/source/provider_job.cpp\<close>); it names a
  request by the digest of its canonical descriptor (\<open>sha256.cpp\<close>, \<open>source_descriptor.cpp\<close>), decides on the
  origin of a server (\<open>origin.cpp\<close>), keeps validated results in a directory that processes share
  (\<open>request_cache.cpp\<close> over \<open>file_lock.cpp\<close> and \<open>fs_durability.cpp\<close>), counts the outcomes of topics
  (\<open>outcome_ledger.cpp\<close>) and records what is shown of a source (\<open>presentation.cpp\<close>).

  \<^bold>\<open>The theories.\<close>
  \<^item> \<open>Prelude\<close>: byte strings, buffers, anchors, machine words, and the theorem collections.
  \<^item> \<open>Wire\<close>: \<open>protobuf_wire.hpp\<close>. A writer is the list of bytes it appends, a reader the list of bytes
    it has left; a read gives an optional value and the reader after it, which has moved also when
    the read failed.
  \<^item> \<open>Leb128\<close>: a specification of varints and length-delimited payloads without the loops, and the
    proof that the readers accept exactly what it describes.
  \<^item> \<open>FieldLoops\<close>: \<open>parseFields\<close>, the loops that some decoders write out, the steps their handlers are
    made of, packed arrays; the interfaces \<open>field_handler\<close>, \<open>field_scanner\<close> and \<open>message_codec\<close>.
  \<^item> \<open>Float64\<close>: the double arithmetic that the codecs perform (byte to colour component and back,
    doubling and halving), on IEEE-754 bit patterns with rounding to nearest even.
  \<^item> \<open>TimeMath\<close>: \<open>time_math.hpp\<close>, on integers with C++'s truncating division.
  \<^item> \<open>Geometry\<close>, \<open>PointFields\<close>: the shared messages.
  \<^item> \<open>WireFormat\<close>: what the deserializers share and the interface \<open>wire_format\<close> of a codec.
  \<^item> \<open>SceneEntities\<close>, \<open>ImageAnnotations\<close>, \<open>PlotMarkers\<close>, \<open>Images\<close>, \<open>PointClouds\<close>, \<open>Frames\<close>, \<open>Grids\<close>,
    \<open>Assets\<close>: the codecs, each with its structs, writers, decoders and \<open>serialize\<close>/\<open>deserialize\<close> pair.
  \<^item> \<open>BuiltinObject\<close>: the tags, their names, the type-erased object and the dispatcher.

  \<^item> \<open>SemVer\<close>: parsing and precedence of versions, with the key whose order precedence is.
  \<^item> \<open>ClaimCatalog\<close>: claims, their validation and normal form, manifests, the catalog; the interface
    \<open>claim_registry\<close> (valid entries with distinct identities) that the resolver relies on, and its
    interpretation on the catalog.
  \<^item> \<open>RouteResolver\<close>: the candidates in policy order, probing with the cache of decisions, invalidation.
  \<^item> \<open>ProviderJob\<close>: the state of a job and the steps of its threads, as an interleaving of atomic steps; the
    interface \<open>job_invariant\<close> (what every kind of step keeps) with its interpretations.
  \<^item> \<open>Policies\<close>: timestamp columns, array limits, object ingest policies.
  \<^item> \<open>CdrReader\<close>: the primitive reads, the bounds they keep, and an XCDR1 encoder as their specification.
  \<^item> \<open>CdrLocator\<close>: the compiler from a concatenated \<open>.msg\<close> bundle and field paths to a plan, the walk that
    locates the fields of a payload, the accessors.
  \<^item> \<open>CdrValues\<close>: the values of a schema, their encoding, and where the format puts a field: the
    specification that the walk is proved against.
  \<^item> \<open>ModuleAbi\<close>: the blocks that cross the boundary of a module, their writers and readers.
  \<^item> \<open>ObjectWriter\<close>: the builders of the canonical objects, the scalar writer, and what every sequence of
    builder calls keeps; \<open>WriterWire\<close>: the wire they produce is what the codecs of the host decode.
  \<^item> \<open>ModuleExports\<close>: the instance table of a module and its exported calls; tokens over any history of calls.
  \<^item> \<open>ModuleRuntime\<close>: owners of instances over a module that is a parameter, with the interface
    \<open>module_contract\<close> that the host relies on and its interpretation on \<open>ModuleExports\<close>; the strike tracker.
  \<^item> \<open>ProtoReader\<close>, \<open>ProtoLocator\<close>: the protobuf reader of the modules, an encoder as its specification, and the
    compiler from a descriptor set and field paths to a plan.
  \<^item> \<open>ParserModules\<close>: the properties of the parser modules.
  \<^item> \<open>SourceIdentity\<close>: SHA-256 with the standard's definition beside it, identity schemes.
  \<^item> \<open>SharedDirectory\<close>: a directory with a table of advisory locks, programs as sequences of system calls on it,
    each of which may fail, and the file locks and durability calls of the cache.
  \<^item> \<open>SourceTrust\<close>: origins, the outcome ledger, presentation; \<open>SourceDescriptor\<close>: descriptors and envelopes.
  \<^item> \<open>RequestCache\<close>: every operation of the cache as such a program.
  \<^item> \<open>CacheSafety\<close>: what a thread knows while it holds locks, and that every step of every operation respects what
    others know (a rely-guarantee argument); \<open>CacheSystem\<close>: the threads together; \<open>CacheAlone\<close>: what an operation
    does that nobody disturbs.
  \<^item> \<open>SourceProviders\<close>: the properties of the source providers.

  \<^bold>\<open>Correspondence.\<close> A struct is a record whose fields carry a prefix, with its member initializers in
  \<open>default_X\<close>; \<open>writeX\<close>, \<open>decodeX\<close>, \<open>serializeX\<close> and \<open>deserializeX\<close> have the names of the source. The lambda
  that a decoder passes to \<open>parseFields\<close> is \<open>decodeX_field\<close> or \<open>deserializeX_field\<close>, the body of a loop
  written by hand \<open>decodeX_body\<close>. A failed handler leaves the reader and the object as the code leaves
  them, because \<open>parseFields\<close> goes on with \<open>skip\<close> from there. \<open>Expected<T>\<close> is a sum with the error text
  on the left. Integers have their width; \<open>double\<close> and \<open>float\<close> are bit patterns; a \<open>std::array\<close> is a list
  of that length; a span with its anchor is the list of its bytes and the name of the owner.
  A callback of the host is a function of a world state that returns, or throws (\<open>callback_result\<close>); a
  diagnostic sink is the list of what it was given. A job is a record with the program counter of each of its
  threads; one step is what a thread does while it holds a mutex, or one atomic operation, and the trace of
  the callbacks is part of the state. A CDR reader is a record that every read returns updated.

  \<^bold>\<open>What is shown.\<close> The reader accepts exactly the canonical forms it should and never reads past the
  buffer; the loops end; every message type decodes what was written (one interpretation of
  \<open>message_codec\<close> per type, one of \<open>wire_format\<close> per codec, one of \<open>builtin_codec\<close> per alternative of
  the dispatcher), so that the dispatcher's round trip follows for all eighteen types. Timestamps split
  by flooring and colours are lossless. The layout check of grid maps is exact and makes element
  access safe. The catalog keeps its invariant and admission is transactional; route selection depends
  on the set of claims only, refines the rule of the first accepting candidate, never leaves a pin and never
  probes twice. A job calls its callbacks at most once and the terminal last, is never stuck and is safe to
  destroy, in every interleaving. A planned reader stays inside any payload and returns what the format says
  for every payload of the structs compiled from its schema. A parser module and the host agree on every block; an
  object that a parser writes arrives in the host as it was meant, with the ranges of the payload it pointed at in
  place, but for a grid map whose layout the host rejects; versions have the prescribed precedence; tokens are never
  reused and instances do not disturb each other; the owners of the host agree with the module in every reachable
  state, and a conforming module is not struck. The protobuf reader returns the fields of every message and its plans
  find what the schema says. In every interleaving of the operations of a request cache, published files are accepted
  by the validator, a hit's file exists while its lease is held, and writers are alone; a commit is found again, and a
  cleanup evicts the least recently used. One theorem shows a schema whose layout the compiler gets wrong. The last
  section shows where decoding departs from its comments: a truncated field
  that is accepted, an unknown field that breaks a message, a NaN that reaches an undefined cast.

  \<^bold>\<open>Bounds.\<close> Byte strings in hypotheses are shorter than \<open>2 ^ 64\<close> (\<open>fits\<close>), as every buffer of the program
  is. No fuel is used in the codecs: the loops recurse on the length of the reader. The schema validation,
  the minimum sizes and the walk recurse on the levels left of the code's own depth limit of 64, which makes
  the limit a branch of the definitions and not a bound of the model. Sizes and counts of the schema are
  64-bit words. The guard of \<open>parseFields\<close> that
  makes this obvious is proved to change nothing (\<open>parseFields_unfold\<close>, where the handler does not move the reader backwards).

  \<^bold>\<open>Parameters.\<close> \<open>nan_cast\<close> stands for the result of converting a NaN to \<open>uint8_t\<close>, which the C++ standard
  leaves undefined; every theorem holds for all its values. The JSON library is a record of the operations the code calls
  (\<open>json_api\<close>, \<open>json_config\<close>); \<open>json_objects\<close> states that a key that was set is found and that scalars read
  back. A parser class is a record of its virtual functions, which may throw. The cache's validator is a function of what
  a file holds and a digest; the JSON parser and printer of descriptors and the host's settings are arguments. The
  configuration lookup and the probe of the resolver are arguments; \<open>config_lookup\<close> states that the
  lookup returns the same configuration each time.

  \<^bold>\<open>Not modelled.\<close> \<open>secondsToNanoseconds\<close> (floating-point seconds); capacity management of the writer's
  vector and failures of allocation; sharing of the value between copies of a \<open>BuiltinObject\<close>; callbacks that
  call back into the resolver or the catalog; spurious failures of locks in a job, its self-join guards and
  \<open>SettlementLatch\<close>; time stamps of diagnostics; the lock of a module's instance table (its calls are atomic
  steps) and the owning copies of its binding information; of the request cache, the Windows side of the file locks, a
  process that dies and so loses its locks, file permissions and \<open>syncDir\<close>; the stop bridge and the limits of the source
  providers; the plugin ABI, and the loaders, dialogs and widgets of the repository.
\<close>

section \<open>Import jobs\<close>

text \<open>C1. The protocol of a job, in every state that any interleaving of the worker, the watchdog, the
  body's threads and the host's calls can reach: the cancel hook and the dataset callback are called at
  most once; the terminal callback is called exactly once, when the worker passes that point, and is the
  last event: no hook and no control call is running then, the watchdog is over, and none starts later;
  nothing happens before \<open>out_job\<close> is populated; a job whose body never ran ends as cancelled.\<close>

theorem job_protocol:
  assumes "startJob out_null body callbacks spawned controls callers = Inr s0" and "job_reachable s0 s"
  shows "dataset_calls s \<le> 1 \<and> hook_begins s \<le> 1
    \<and> threads is_terminal (js_events s) = (if js_terminal_fired s then 1 else 0)
    \<and> (js_worker s = WDone \<longrightarrow> js_terminal_fired s)
    \<and> (js_terminal_fired s \<longrightarrow> is_terminal (last (js_events s))
        \<and> threads control_busy (js_control s) = 0 \<and> threads in_hook (js_api s) = 0
        \<and> (js_watchdog s = WdNone \<or> js_watchdog s = WdFinished))
    \<and> (js_events s \<noteq> [] \<longrightarrow> js_out_job s)
    \<and> (\<forall>oc m. EvTerminal oc m \<in> set (js_events s) \<and> oc \<noteq> IMPORT_CANCELLED \<longrightarrow> EvBody \<in> set (js_events s))"
proof -
  have inv: "job_inv s" by (rule job.reachable [OF assms(2) startJob_inv [OF assms(1)]])
  have body: "inv_body s" by (rule job_body.reachable [OF assms(2) startJob_body [OF assms(1)]])
  note parts = inv [unfolded job_inv_def]
  have "dataset_calls s \<le> 1 \<and> hook_begins s \<le> 1"
    using parts by (auto simp: inv_dataset_def inv_hook_def split: if_splits)
  moreover have "threads is_terminal (js_events s) = (if js_terminal_fired s then 1 else 0)"
    using parts by (auto simp: inv_terminal_def threads_def list_all_iff filter_empty_conv is_terminal_def)
  moreover have "js_worker s = WDone \<longrightarrow> js_terminal_fired s"
    using parts by (simp add: inv_terminal_def)
  moreover have "js_terminal_fired s \<longrightarrow> is_terminal (last (js_events s))"
    using parts by (auto simp: inv_terminal_def is_terminal_def)
  moreover have "js_events s \<noteq> [] \<longrightarrow> js_out_job s"
    using parts by (simp add: inv_gate_def)
  moreover have "\<forall>oc m. EvTerminal oc m \<in> set (js_events s) \<and> oc \<noteq> IMPORT_CANCELLED \<longrightarrow> EvBody \<in> set (js_events s)"
    using body by (auto simp: inv_body_def)
  ultimately show ?thesis using terminal_quiet [OF inv] by blast
qed

text \<open>A job with one control thread and one caller, and a run of it in which a cancel overtakes the body.\<close>

definition sample_callbacks :: "ImportCallbacks option" where
  "sample_callbacks = Some \<lparr>cb_struct_size = 24, cb_on_dataset = True, cb_on_terminal = True\<rparr>"

definition sample_job :: JobState where
  "sample_job = projr (startJob False True sample_callbacks True 1 1)"

lemma sample_job_starts: "startJob False True sample_callbacks True 1 1 = Inr sample_job"
  by (simp add: sample_job_def sample_callbacks_def startJob_def fieldCovered_def)

definition sample_actions :: "job_action list" where
  "sample_actions = [PopulateOutJob, ReleaseGate, WorkerStep, WorkerStep, NotifyDataset 0 5, ControlStep 0,
     ControlStep 0, OnCancel 0 3, ControlStep 0, ArmWatchdog 10 True, WorkerStep, ApiCall 0 CallDestroy, ApiStep 0,
     ApiStep 0, ApiStep 0, BodyEnds (Some (IMPORT_SUCCEEDED_PROMOTED, [])), WorkerStep, WorkerStep, WorkerStep,
     Watchdog WatchdogStopSeen, WorkerStep, WorkerStep, WorkerStep, ApiStep 0, ApiStep 0, ApiStep 0]"

definition sample_end :: JobState where
  "sample_end = the (job_run sample_actions sample_job)"

lemma sample_run: "job_run sample_actions sample_job = Some sample_end"
proof -
  have "job_run sample_actions sample_job \<noteq> None" by code_simp
  then show ?thesis by (auto simp: sample_end_def)
qed

lemma sample_reachable: "job_reachable sample_job sample_end"
  by (rule job_run_reachable [OF job_reachable.initial sample_run])

lemma job_protocol_witness: "threads is_terminal (js_events sample_end) = 1 \<and> hook_begins sample_end \<le> 1"
proof -
  have "js_terminal_fired sample_end" by code_simp
  then show ?thesis using job_protocol [OF sample_job_starts sample_reachable] by simp
qed

text \<open>C2. Destroying a job is safe: once its memory is freed, no thread takes another step of it.\<close>

theorem destroyed_job_untouched:
  assumes "startJob out_null body callbacks spawned controls callers = Inr s0" and "job_reachable s0 s" and "js_freed s"
  shows "job_step a s = None"
  by (rule freed_no_step [OF job.reachable [OF assms(2) startJob_inv [OF assms(1)]] assms(3)])

lemma destroyed_job_untouched_witness: "job_step (ApiStep 0) sample_end = None \<and> js_freed sample_end"
proof -
  have "js_freed sample_end" by code_simp
  then show ?thesis using destroyed_job_untouched [OF sample_job_starts sample_reachable] by blast
qed

text \<open>C3. A job never gets stuck: from every reachable state some schedule without any call of the host lets
  the worker finish, whatever the hook, the watchdog and the callers are doing.\<close>

theorem job_finishes:
  assumes "startJob out_null body callbacks spawned controls callers = Inr s0" and "job_reachable s0 s"
  shows "\<exists>as s'. list_all (\<lambda>a. \<not> is_api_call a) as \<and> job_run as s = Some s' \<and> js_worker s' = WDone"
  by (rule job_can_finish [OF job.reachable [OF assms(2) startJob_inv [OF assms(1)]]])

lemma job_finishes_witness: "\<exists>as s'. job_run as sample_job = Some s' \<and> js_worker s' = WDone"
  using job_finishes [OF sample_job_starts job_reachable.initial] by blast

section \<open>The CDR reader and its schema plans\<close>

text \<open>C4. Primitive reads undo an XCDR1 encoder, in both byte orders: the reads of the written shapes give the
  written values and leave nothing, with the padding the format puts before each.\<close>

theorem cdr_reads_encoded:
  assumes "list_all storable vs"
  shows "read_shapes (map shape_of vs) (cdr_reader (Buffer (cdr_encode little vs)))
    = (Inr vs, reader_at little (cdr_encode little vs) [] 0 (length (cdr_encode little vs) - 4))"
  using assms by (rule cdr_decode_encode)

lemma cdr_reads_encoded_witness:
  "fst (read_shapes [ShU8, ShU64, ShString] (cdr_reader (Buffer (cdr_encode False [CvU8 3, CvU64 70000, CvString [104, 105]]))))
    = Inr [CvU8 3, CvU64 70000, CvString [104, 105]]"
  using cdr_reads_encoded [of "[CvU8 3, CvU64 70000, CvString [104, 105]]" False] by simp

text \<open>C5. Memory safety for any payload: a number that an accessor of a planned reader returns, in any state the
  accessors can bring the reader to, is read from inside the payload, behind its header.\<close>

theorem planned_reads_in_bounds:
  assumes "planned payload plan r" and "kind_width kind = Some width"
    and "cachedUnsigned (Some plan) field kind width r = (Inr x, r')"
  shows "\<exists>offset. 4 \<le> offset \<and> offset + width \<le> buffer_size payload
    \<and> x = bytes_value (cr_little_endian r') (take width (drop offset (buffer_bytes payload)))"
  using assms by (rule cachedUnsigned_inside)

lemma sample_schema_lines:
  "lines_of ''uint8 a\<newline>uint32 b'' = [''uint8 a'', ''uint32 b'']"
  "clean_line ''uint8 a'' = ''uint8 a''" "clean_line ''uint32 b'' = ''uint32 b''"
  using lines_of_line(1) [of "''uint8 a''" "''uint32 b''"] lines_of_line(2) [of "''uint32 b''"]
  by (simp_all add: clean_line_def trim_def split_at_def Let_def is_space_def)

lemma parse_uint_types:
  "parseCdrType ''uint8'' = Inr default_CdrSchemaType"
  "parseCdrType ''uint32'' = Inr (default_CdrSchemaType\<lparr>ty_kind := VkU32\<rparr>)"
  by (simp_all add: parseCdrType_def split_at_def parse_named_base_def parse_base_def default_CdrSchemaType_def)

lemmas parse_line_defs = parse_line_def parse_field_line_def blank_char_def trim_def is_space_def

definition sample_plan :: CdrTraversalPlan where
  "sample_plan = \<lparr>tp_structs = [\<lparr>ss_name = [], ss_fields =
       [\<lparr>sf_name = ''a'', sf_type = default_CdrSchemaType\<rparr>,
        \<lparr>sf_name = ''b'', sf_type = default_CdrSchemaType\<lparr>ty_kind := VkU32\<rparr>\<rparr>]\<rparr>],
     tp_requested = [\<lparr>rf_path = ''b'', rf_steps = [1], rf_cached_kind = kCU32\<rparr>]\<rparr>"

lemma locate_sample: "locate (CdrFieldLocator ''uint8 a\<newline>uint32 b'') [''b''] = Inr sample_plan"
proof -
  have "compilePath_loop (tp_structs sample_plan) ''b'' 0 [] = Inr ([1], kCU32)"
    by (subst compilePath_loop.simps)
      (simp add: sample_plan_def split_at_def cachedKind_def default_CdrSchemaType_def)
  then show ?thesis
    by (simp add: sample_plan_def locate_def CdrFieldLocator_def parse_schema_def sample_schema_lines parse_line_defs
        parse_uint_types resolve_struct_def resolve_field_def kMaxTraversalDepth_def numeral_eq_Suc compilePath_def)
      (simp add: default_CdrSchemaType_def)
qed

definition sample_payload :: bytes where
  "sample_payload = schema_payload True [SvNum 1 5, SvNum 4 70000]"

lemma sample_payload_is: "sample_payload = [0, 1, 0, 0, 5, 0, 0, 0, 0x70, 0x11, 1, 0]"
  by code_simp

text \<open>C6. A planned reader agrees with the format. The plan is one that the compiler made of a schema text, and the
  payload encodes a value of the structs that the compiler made of it: fields of the text that it does not take are not
  part of them. The value respects what the format and these structs allow (`locatable`: widths, booleans, lengths and
  bounds of strings and containers, the depth of 64). Then, in every state that a reader of this payload can reach
  without having failed, and in any order of the accesses, the accessor of a requested path to a number or a string
  returns what the value has there, and one traversal of the payload serves them all.\<close>

theorem planned_accessors_exact:
  assumes "locate (CdrFieldLocator schema) paths = Inr plan"
    and "locatable (tp_structs plan) kMaxTraversalDepth (root_type 0) (SvStruct vs)"
    and "planned (Buffer (schema_payload little vs)) plan r" and "isOk (cr_status r)"
    and "i < length (tp_requested plan)"
  shows "case value_at (SvStruct vs) (rf_steps (tp_requested plan ! i)) of
      Some (SvNum w n) \<Rightarrow>
        cachedUnsigned (Some plan) i (rf_cached_kind (tp_requested plan ! i)) w r = (Inr n, traversed plan little vs)
    | Some (SvStr s) \<Rightarrow> field_string (Some plan) i r = (Inr s, traversed plan little vs)
    | _ \<Rightarrow> True"
  using planned_number [OF locate_ok [OF assms(1)] assms(2-5)] planned_string [OF locate_ok [OF assms(1)] assms(2-5)]
  by (simp split: option.split schema_value.split)

lemma sample_reader_ok: "isOk (cr_status (planned_reader (Buffer sample_payload) sample_plan))"
  unfolding sample_payload_is by code_simp

lemma sample_locatable:
  "locatable (tp_structs sample_plan) kMaxTraversalDepth (root_type 0) (SvStruct [SvNum 1 5, SvNum 4 70000])"
  by (simp add: sample_plan_def kMaxTraversalDepth_def root_type_def default_CdrSchemaType_def struct_fields_def
      primitiveSize_def)

lemma planned_accessors_exact_witness:
  "fst (field_u32 (Some sample_plan) 0 (planned_reader (Buffer sample_payload) sample_plan)) = Inr 70000"
proof -
  let ?r = "planned_reader (Buffer (schema_payload True [SvNum 1 5, SvNum 4 70000])) sample_plan"
  have "isOk (cr_status ?r)" using sample_reader_ok by (simp add: sample_payload_def)
  from planned_accessors_exact [OF locate_sample sample_locatable planned.start this, of 0]
  show ?thesis
    by (simp add: sample_plan_def sample_payload_def field_u32_def cdr_bind_def)
qed

lemma planned_reads_in_bounds_witness:
  "\<exists>offset. 4 \<le> offset \<and> offset + 4 \<le> length sample_payload
    \<and> 70000 = bytes_value (cr_little_endian (snd (cachedUnsigned (Some sample_plan) 0 kCU32 4
        (planned_reader (Buffer sample_payload) sample_plan)))) (take 4 (drop offset sample_payload))"
proof -
  let ?c = "cachedUnsigned (Some sample_plan) 0 kCU32 4 (planned_reader (Buffer sample_payload) sample_plan)"
  have "fst ?c = Inr 70000" unfolding sample_payload_is by code_simp
  then have c: "?c = (Inr 70000, snd ?c)" by (metis prod.collapse)
  from planned_reads_in_bounds [OF planned.start _ c] show ?thesis by (simp add: kind_width_def)
qed


text \<open>A failed reader stays failed: every further read returns the first error and leaves the reader as it
  is, whatever the payload, so that a sequence of reads needs one check at its end.\<close>

theorem failed_reader_stays:
  assumes "\<not> isOk (cr_status r)"
  shows "read_shapes (sh # shs) r = (Inl (cr_status r), r)"
  using assms by (cases sh) (simp_all add: cdr_bind_def reads_failed)

lemma failed_reader_stays_witness:
  "snd (read_shapes [ShU8, ShString] (cdr_reader (Buffer [0, 9, 0, 0, 1]))) = cdr_reader (Buffer [0, 9, 0, 0, 1])"
proof -
  have "\<not> isOk (cr_status (cdr_reader (Buffer [0, 9, 0, 0, 1])))" by code_simp
  from failed_reader_stays [OF this, of ShU8 "[ShString]"] show ?thesis by (simp only: snd_conv)
qed

text \<open>A schema whose first field has a string default with an equals sign in it.\<close>

definition default_schema :: string where
  "default_schema = ''string s \"a=b\"\<newline>uint32 x''"

definition default_plan :: CdrTraversalPlan where
  "default_plan = \<lparr>tp_structs = [\<lparr>ss_name = [], ss_fields =
       [\<lparr>sf_name = ''x'', sf_type = default_CdrSchemaType\<lparr>ty_kind := VkU32\<rparr>\<rparr>]\<rparr>],
     tp_requested = [\<lparr>rf_path = ''x'', rf_steps = [0], rf_cached_kind = kCU32\<rparr>]\<rparr>"

lemma default_schema_lines:
  "lines_of default_schema = [''string s \"a=b\"'', ''uint32 x'']"
  "clean_line ''string s \"a=b\"'' = ''string s \"a=b\"''" "clean_line ''uint32 x'' = ''uint32 x''"
  using lines_of_line(1) [of "''string s \"a=b\"''" "''uint32 x''"] lines_of_line(2) [of "''uint32 x''"]
  by (simp_all add: default_schema_def clean_line_def trim_def split_at_def Let_def is_space_def)

lemma locate_default: "locate (CdrFieldLocator default_schema) [''x''] = Inr default_plan"
proof -
  have "compilePath_loop (tp_structs default_plan) ''x'' 0 [] = Inr ([0], kCU32)"
    by (subst compilePath_loop.simps)
      (simp add: default_plan_def split_at_def cachedKind_def default_CdrSchemaType_def)
  then show ?thesis
    by (simp add: default_plan_def locate_def CdrFieldLocator_def parse_schema_def default_schema_lines parse_line_defs
        parse_uint_types resolve_struct_def resolve_field_def kMaxTraversalDepth_def numeral_eq_Suc compilePath_def)
      (simp add: default_CdrSchemaType_def default_schema_def)
qed

text \<open>A string default with an equals sign loses its field: the schema compiler takes the line for a
  constant. Of the two encoded fields, the string \<open>hi\<close> and the number 7, the accessor of the second
  then returns the length word of the first.\<close>

theorem default_with_equals_skipped:
  "locate (CdrFieldLocator default_schema) [''x''] = Inr default_plan
    \<and> fst (field_u32 (Some default_plan) 0 (planned_reader (Buffer (cdr_encode True [CvString [104, 105], CvU32 7]))
        default_plan)) = Inr 3"
proof
  show "locate (CdrFieldLocator default_schema) [''x''] = Inr default_plan" by (rule locate_default)
  have "cdr_encode True [CvString [104, 105], CvU32 7] = [0, 1, 0, 0, 3, 0, 0, 0, 104, 105, 0, 0, 7, 0, 0, 0]"
    by code_simp
  then show "fst (field_u32 (Some default_plan) 0 (planned_reader (Buffer (cdr_encode True [CvString [104, 105], CvU32 7]))
      default_plan)) = Inr 3"
    by (simp only:) code_simp
qed

section \<open>The parser claim catalog\<close>

text \<open>C26. Whatever manifests, plugin claims, removals and resets a catalog has seen, every claim in it is
  valid and in normal form and no two claims share an identity.\<close>

theorem catalog_invariant:
  "catalog_ok (catalog_after J ops (new_catalog sink src))"
  by (rule catalog_after_ok [OF new_catalog_ok])

text \<open>C27. Admission is transactional and refines an insertion into a map from claim identities: an
  admitted batch adds exactly its own identities, all of them new, and a refused batch changes neither the
  claims nor the generation.\<close>

theorem admission_refines_map:
  assumes "admitClaims cat claims provenance gen = (cat', result)"
  shows "case result of
      Inr _ \<Rightarrow> (\<exists>added. catalog_map cat' = catalog_map cat ++ added \<and> dom added = set (map identityPair claims)
                 \<and> dom added \<inter> dom (catalog_map cat) = {})
    | Inl _ \<Rightarrow> catalog_map cat' = catalog_map cat \<and> cat_generation cat' = cat_generation cat"
proof (cases result)
  case (Inl e)
  then show ?thesis using admitClaims_error [of cat claims provenance gen cat' e] assms by (simp add: catalog_map_def)
next
  case (Inr u)
  then show ?thesis using catalog_map_admit [of cat claims provenance gen cat' u] assms by auto
qed

definition sample_claim :: "string \<Rightarrow> string \<Rightarrow> ParserClaim" where
  "sample_claim provider t = \<lparr>pc_encoding = ''json'', pc_type_name = t,
     pc_route_flags = PJ_PARSER_ROUTE_FLAG_SCALAR_V1, pc_object_type = None, pc_schema_digests = {},
     pc_provider_id = provider, pc_claim_id = ''c'', pc_priority = 0, pc_provenance = kMarketplace\<rparr>"

lemma sample_claim_valid:
  "t \<noteq> [] \<Longrightarrow> provider \<noteq> [] \<Longrightarrow> normalizeAndValidateClaim (sample_claim provider t) = Inr (sample_claim provider t)"
  by (simp add: normalizeAndValidateClaim_def sample_claim_def isRegisteredParserEncoding_def kRegisteredEncodings_def
      normalizeParserTypeName_def kKnownRouteFlags_def has_object_route_def PJ_PARSER_ROUTE_FLAG_SCALAR_V1_def
      PJ_PARSER_ROUTE_FLAG_OBJECT_V1_def refuse_def bindE_def)

definition sample_entry :: "string \<Rightarrow> string \<Rightarrow> ParserClaimEntry" where
  "sample_entry provider t = \<lparr>pe_claim = sample_claim provider t, pe_provider_generation = 1\<rparr>"

lemma sample_admission:
  assumes "list_all (\<lambda>(p, t). p \<noteq> [] \<and> t \<noteq> []) ps" "distinct (map fst ps)"
  shows "admitClaims (new_catalog False []) (map (\<lambda>(p, t). sample_claim p t) ps) kMarketplace 1
    = ((new_catalog False [])\<lparr>cat_claims := map (\<lambda>(p, t). sample_entry p t) ps,
        cat_generation := (if ps = [] then 0 else 1)\<rparr>, Inr ())"
proof -
  have same: "(sample_claim p t)\<lparr>pc_provenance := kMarketplace\<rparr> = sample_claim p t" for p t
    by (simp add: sample_claim_def)
  have "fst ` set ps \<inter> fst ` seen = {} \<Longrightarrow> admit_loop [] kMarketplace (map (\<lambda>(p, t). sample_claim p t) ps) seen acc
      = Inr (acc @ map (\<lambda>(p, t). sample_claim p t) ps)" for seen acc
    using assms
  proof (induction ps arbitrary: seen acc)
    case (Cons x ps)
    obtain p t where x: "x = (p, t)" by (cases x)
    have "identityPair (sample_claim p t) = (p, ''c'')" by (simp add: identityPair_def sample_claim_def)
    moreover have "(p, ''c'') \<notin> seen" using Cons.prems(1) x by force
    ultimately show ?case
      using Cons by (auto simp: x same sample_claim_valid)
  qed simp
  from this [of "{}" "[]"] show ?thesis
    by (auto simp: admitClaims_def new_catalog_def sample_entry_def comp_def case_prod_unfold)
qed

lemma admission_refines_map_witness:
  "dom (catalog_map (fst (admitClaims (new_catalog False []) [sample_claim ''p'' ''T''] kMarketplace 1))) = {(''p'', ''c'')}"
proof -
  have a: "admitClaims (new_catalog False []) [sample_claim ''p'' ''T''] kMarketplace 1
    = ((new_catalog False [])\<lparr>cat_claims := [sample_entry ''p'' ''T''], cat_generation := 1\<rparr>, Inr ())"
    using sample_admission [of "[(''p'', ''T'')]"] by simp
  have e: "catalog_map (new_catalog False []) = Map.empty" by (simp add: catalog_map_def new_catalog_def)
  from admission_refines_map [OF a] obtain added where
    "catalog_map (fst (admitClaims (new_catalog False []) [sample_claim ''p'' ''T''] kMarketplace 1)) = Map.empty ++ added"
    "dom added = set (map identityPair [sample_claim ''p'' ''T''])"
    unfolding sum.case e by (elim exE conjE) (simp only: a fst_conv)
  then show ?thesis by (simp add: identityPair_def sample_claim_def)
qed

text \<open>A manifest that decodes is admitted whole: unless the catalog already holds claims of that
  module, ingesting it appends exactly its claims, under the provenance the host gave.\<close>

theorem manifest_admitted_whole:
  assumes "decodeParserModuleManifest J manifest_json provenance = Inr manifest"
    and "\<forall>entry \<in> set (cat_claims cat). pc_provider_id (pe_claim entry) \<noteq> pm_id manifest"
  shows "snd (ingestModuleManifest J cat manifest_json provenance gen) = Inr manifest
    \<and> cat_claims (fst (ingestModuleManifest J cat manifest_json provenance gen))
        = cat_claims cat @ map (\<lambda>c. \<lparr>pe_claim = c, pe_provider_generation = gen\<rparr>) (pm_claims manifest)
    \<and> (\<forall>c \<in> set (pm_claims manifest). pc_provenance c = provenance)"
proof -
  note proper = decoded_manifest_proper [OF assms(1)]
  obtain cat' where "admitClaims cat (pm_claims manifest) provenance gen = (cat', Inr ())"
    "cat_claims cat' = cat_claims cat @ map (\<lambda>c. \<lparr>pe_claim = c, pe_provider_generation = gen\<rparr>) (pm_claims manifest)"
    using admitClaims_proper [OF proper assms(2), of gen] by (metis prod.collapse)
  then show ?thesis
    using proper by (simp add: ingestModuleManifest_def assms(1) proper_batch_def)
qed

text \<open>A small JSON library, for the examples.\<close>

datatype sample_json = SNull | SBool bool | SInt int | SText string | SList "sample_json list"
  | SObject "(string \<times> sample_json) list"

definition sample_library :: "sample_json \<Rightarrow> sample_json json_config" where
  "sample_library doc = \<lparr>json_parse = (\<lambda>_. Inr doc),
     is_object = (\<lambda>j. case j of SObject _ \<Rightarrow> True | _ \<Rightarrow> False),
     is_array = (\<lambda>j. case j of SList _ \<Rightarrow> True | _ \<Rightarrow> False),
     is_string = (\<lambda>j. case j of SText _ \<Rightarrow> True | _ \<Rightarrow> False),
     is_number_integer = (\<lambda>j. case j of SInt _ \<Rightarrow> True | _ \<Rightarrow> False),
     is_number_unsigned = (\<lambda>j. case j of SInt i \<Rightarrow> i \<ge> 0 | _ \<Rightarrow> False),
     json_find = (\<lambda>j k. case j of SObject kvs \<Rightarrow> map_of kvs k | _ \<Rightarrow> None),
     json_elements = (\<lambda>j. case j of SList js \<Rightarrow> js | _ \<Rightarrow> []),
     get_string = (\<lambda>j. case j of SText s \<Rightarrow> s | _ \<Rightarrow> []),
     get_u64 = (\<lambda>j. case j of SInt i \<Rightarrow> of_int i | _ \<Rightarrow> 0),
     get_i64 = (\<lambda>j. case j of SInt i \<Rightarrow> of_int i | _ \<Rightarrow> 0),
     is_boolean = (\<lambda>j. case j of SBool _ \<Rightarrow> True | _ \<Rightarrow> False),
     get_bool = (\<lambda>j. case j of SBool b \<Rightarrow> b | _ \<Rightarrow> False),
     json_set = (\<lambda>j k v. case j of SObject kvs \<Rightarrow> SObject ((k, v) # kvs) | _ \<Rightarrow> j),
     json_of_string = SText,
     json_of_u32 = (\<lambda>n. SInt (uint n)),
     json_of_bool = SBool\<rparr>"

definition sample_manifest :: sample_json where
  "sample_manifest = SObject [(''module_abi'', SInt 1), (''id'', SText ''m''), (''name'', SText ''M''),
     (''version'', SText ''1.2.3''), (''claims'', SList [SObject [(''claim_id'', SText ''c''),
       (''encoding'', SText ''json''), (''type_name'', SText ''T''), (''routes'', SList [SText ''scalar'']),
       (''priority'', SInt 5)]])]"

definition sample_api :: "sample_json json_api" where
  "sample_api = json_api.truncate (sample_library sample_manifest)"

lemma decode_sample_manifest:
  "decodeParserModuleManifest sample_api ''{}'' kBundled = Inr \<lparr>pm_id = ''m'', pm_name = ''M'', pm_version = ''1.2.3'',
     pm_claims = [(sample_claim ''m'' ''T'')\<lparr>pc_priority := 5, pc_provenance := kBundled\<rparr>]\<rparr>"
  by code_simp

lemma manifest_admitted_whole_witness:
  "cat_claims (fst (ingestModuleManifest sample_api (new_catalog False []) ''{}'' kBundled 7))
    = [\<lparr>pe_claim = (sample_claim ''m'' ''T'')\<lparr>pc_priority := 5, pc_provenance := kBundled\<rparr>, pe_provider_generation = 7\<rparr>]"
  using manifest_admitted_whole [OF decode_sample_manifest, of "new_catalog False []" 7]
  by (simp add: new_catalog_def)

text \<open>Type names have one normal form: normalising twice is normalising once, and the two spellings of a
  ROS 2 type, with and without the middle component, have the same one.\<close>

theorem type_names_normal_form:
  assumes "normalizeParserTypeName encoding t = Inr t'"
    and "pkg \<noteq> []" and "CHR ''/'' \<notin> set pkg" and "ty \<noteq> []" and "CHR ''/'' \<notin> set ty"
  shows "normalizeParserTypeName encoding t' = Inr t'
    \<and> normalizeParserTypeName ''ros2msg'' (pkg @ ''/'' @ ty) = Inr (pkg @ ''/msg/'' @ ty)
    \<and> normalizeParserTypeName ''ros2msg'' (pkg @ ''/msg/'' @ ty) = Inr (pkg @ ''/msg/'' @ ty)"
  using normalizeParserTypeName_idem [OF assms(1)] normalize_ros2msg_short [OF assms(2-5)]
    normalize_ros2msg_long [OF assms(2-5)] by simp

lemma type_names_normal_form_witness:
  "normalizeParserTypeName ''ros2msg'' ''std_msgs/msg/String'' = Inr ''std_msgs/msg/String''"
  using type_names_normal_form [OF normalize_ros2msg_short [of "''std_msgs''" "''String''"], of "''std_msgs''" "''String''"]
  by simp

section \<open>Route selection\<close>

text \<open>C28. The policy order is a function of the set of claims: two catalogs with the same claims, whatever
  histories made them and in whatever order they hold them, give a route the same candidates in the
  same order, strictly sorted by the policy.\<close>

theorem candidates_ignore_admission_order:
  assumes "set (cat_claims (catalog_after J ops (new_catalog sink src)))
    = set (cat_claims (catalog_after J ops' (new_catalog sink' src')))"
  shows "orderedCandidates request (cat_claims (catalog_after J ops (new_catalog sink src))) pins
      = orderedCandidates request (cat_claims (catalog_after J ops' (new_catalog sink' src'))) pins
    \<and> (case orderedCandidates request (cat_claims (catalog_after J ops (new_catalog sink src))) pins of
         Inl _ \<Rightarrow> True | Inr cands \<Rightarrow> sorted_wrt candidate_before cands)"
proof -
  note ok = catalog_after_ok [OF new_catalog_ok, of J]
  show ?thesis
    using catalog.order_independent [OF ok ok assms] catalog.order_ranked [OF ok]
    by (simp split: sum.split)
qed

definition sample_history :: "(string \<times> string) list \<Rightarrow> catalog_op list" where
  "sample_history ps = [AdmitClaims (map (\<lambda>(p, t). sample_claim p t) ps) kMarketplace 1]"

lemma sample_history_claims:
  assumes "list_all (\<lambda>(p, t). p \<noteq> [] \<and> t \<noteq> []) ps" "distinct (map fst ps)"
  shows "cat_claims (catalog_after J (sample_history ps) (new_catalog False [])) = map (\<lambda>(p, t). sample_entry p t) ps"
  using sample_admission [OF assms] by (simp add: catalog_after_def sample_history_def)

definition sample_request :: ParserRouteRequest where
  "sample_request = \<lparr>rq_encoding = ''json'', rq_type_name = ''T'', rq_schema_digest = [], rq_route = RouteResolver.kScalar\<rparr>"

definition no_pins :: ParserRoutePins where
  "no_pins = \<lparr>scalar_provider = None, object_provider = None\<rparr>"

lemma candidates_ignore_admission_order_witness:
  "orderedCandidates sample_request [sample_entry ''a'' ''T'', sample_entry ''b'' ''*''] no_pins
    = orderedCandidates sample_request [sample_entry ''b'' ''*'', sample_entry ''a'' ''T''] no_pins"
proof -
  have c: "cat_claims (catalog_after sample_api (sample_history [(''a'', ''T''), (''b'', ''*'')]) (new_catalog False []))
      = [sample_entry ''a'' ''T'', sample_entry ''b'' ''*'']"
    "cat_claims (catalog_after sample_api (sample_history [(''b'', ''*''), (''a'', ''T'')]) (new_catalog False []))
      = [sample_entry ''b'' ''*'', sample_entry ''a'' ''T'']"
    using sample_history_claims [of "[(''a'', ''T''), (''b'', ''*'')]"]
      sample_history_claims [of "[(''b'', ''*''), (''a'', ''T'')]"] by simp_all
  have "set [sample_entry ''a'' ''T'', sample_entry ''b'' ''*''] = set [sample_entry ''b'' ''*'', sample_entry ''a'' ''T'']"
    by auto
  then show ?thesis
    using candidates_ignore_admission_order [of sample_api "sample_history [(''a'', ''T''), (''b'', ''*'')]" False "[]"
      "sample_history [(''b'', ''*''), (''a'', ''T'')]" False "[]" sample_request no_pins] unfolding c by blast
qed

text \<open>C29. Resolution refines one rule: with a probe that answers as a function of its request, a fresh
  resolver over any catalog selects the first candidate in policy order whose provider accepts, hands
  on the instance that provider retained, and selects nothing when every provider declines or
  fails.\<close>

theorem resolution_takes_first_accepting:
  assumes "config_lookup provider_config configs"
    and "orderedCandidates request (cat_claims (catalog_after J ops (new_catalog sink src))) pins = Inr cands"
  shows "\<exists>res R'. resolve (new_resolver rsink rsrc) request (cat_claims (catalog_after J ops (new_catalog sink src)))
        pins provider_config (Some (pure_probe answer)) w = (Inr res, R', w)
    \<and> rs_winning_claim res = map_option cd_claim (first_accepting answer configs cands)
    \<and> rs_retained_instance res = Option.bind (first_accepting answer configs cands)
        (\<lambda>c. pd_retained_instance (answer_for answer configs c))
    \<and> (rs_status res = kSelected \<longleftrightarrow> first_accepting answer configs cands \<noteq> None)"
proof -
  have "route_cache (new_resolver rsink rsrc) route = []" for route
    by (cases route) (simp_all add: new_resolver_def)
  then show ?thesis
    using catalog.resolve_first_accepting [OF catalog_after_ok [OF new_catalog_ok] assms] by blast
qed

definition sample_configs :: "string \<Rightarrow> ParserProviderConfig" where
  "sample_configs p = \<lparr>cf_json = ''{}'', cf_digest = ''d''\<rparr>"

definition sample_lookup :: "nat config_callback" where
  "sample_lookup p w = (Returned (sample_configs p), w)"

lemma sample_config_lookup: "config_lookup (Some sample_lookup) sample_configs"
  by (simp add: config_lookup_def lookup_config_def sample_lookup_def sample_configs_def)

text \<open>A probe that declines the claims of provider a and accepts every other with instance 9.\<close>

definition sample_answer :: "ParserProbeRequest \<Rightarrow> ParserProbeDecision" where
  "sample_answer preq = (if pc_provider_id (pr_claim preq) = ''a''
     then \<lparr>pd_outcome = kDecline, pd_diagnostic = ''no'', pd_retained_instance = None\<rparr>
     else \<lparr>pd_outcome = kAccept, pd_diagnostic = [], pd_retained_instance = Some 9\<rparr>)"

lemma sample_candidates:
  "orderedCandidates sample_request [sample_entry ''b'' ''*'', sample_entry ''a'' ''T''] no_pins
    = Inr [\<lparr>cd_claim = sample_claim ''a'' ''T'', cd_provider_generation = 1\<rparr>,
           \<lparr>cd_claim = sample_claim ''b'' ''*'', cd_provider_generation = 1\<rparr>]"
  by code_simp

lemma resolution_takes_first_accepting_witness:
  "\<exists>res R'. resolve (new_resolver False []) sample_request [sample_entry ''b'' ''*'', sample_entry ''a'' ''T'']
      no_pins (Some sample_lookup) (Some (pure_probe sample_answer)) 0 = (Inr res, R', 0)
    \<and> rs_winning_claim res = Some (sample_claim ''b'' ''*'')"
proof -
  have c: "cat_claims (catalog_after sample_api (sample_history [(''b'', ''*''), (''a'', ''T'')]) (new_catalog False []))
      = [sample_entry ''b'' ''*'', sample_entry ''a'' ''T'']"
    using sample_history_claims [of "[(''b'', ''*''), (''a'', ''T'')]"] by simp
  have f: "map_option cd_claim (first_accepting sample_answer sample_configs
      [\<lparr>cd_claim = sample_claim ''a'' ''T'', cd_provider_generation = 1\<rparr>,
       \<lparr>cd_claim = sample_claim ''b'' ''*'', cd_provider_generation = 1\<rparr>]) = Some (sample_claim ''b'' ''*'')"
    by (simp add: first_accepting_def answer_for_def sample_answer_def probe_request_def sample_claim_def
        checked_decision_def)
  have "orderedCandidates sample_request (cat_claims (catalog_after sample_api
      (sample_history [(''b'', ''*''), (''a'', ''T'')]) (new_catalog False []))) no_pins = Inr
        [\<lparr>cd_claim = sample_claim ''a'' ''T'', cd_provider_generation = 1\<rparr>,
         \<lparr>cd_claim = sample_claim ''b'' ''*'', cd_provider_generation = 1\<rparr>]"
    unfolding c by (rule sample_candidates)
  from resolution_takes_first_accepting [OF sample_config_lookup this, of False "[]" sample_answer 0]
  show ?thesis unfolding c f by blast
qed

text \<open>C30. Whatever the callbacks do, a winner is an admitted claim that serves the request: encoding, route,
  type and schema match, and under a pin its provider is the pinned one. A pinned route never falls
  back to another provider.\<close>

theorem winner_serves_request:
  assumes "resolve R request entries pins provider_config probe w = (Inr res, R', w')"
  shows "(rs_status res = kSelected \<longleftrightarrow> rs_winning_claim res \<noteq> None)
    \<and> rs_winner res = map_option identityPair (rs_winning_claim res)
    \<and> (\<forall>claim. rs_winning_claim res = Some claim \<longrightarrow> claim_serves request pins claim \<and> claim \<in> pe_claim ` set entries)"
  using assms by (rule resolve_winner)

definition sample_result :: "(string + ParserRouteResolution) \<times> ParserRouteResolver \<times> nat" where
  "sample_result = resolve (new_resolver False []) sample_request [sample_entry ''b'' ''*'', sample_entry ''a'' ''T'']
     no_pins (Some sample_lookup) (Some (pure_probe sample_answer)) 0"

lemma sample_result_is: "\<exists>res R' w'. sample_result = (Inr res, R', w') \<and> rs_status res = kSelected"
proof -
  have "case sample_result of (Inr res, _) \<Rightarrow> rs_status res = kSelected | _ \<Rightarrow> False"
    by code_simp
  then show ?thesis by (auto split: prod.splits sum.splits)
qed

lemma winner_serves_request_witness:
  "\<exists>res R' w' claim. sample_result = (Inr res, R', w') \<and> rs_winning_claim res = Some claim
    \<and> claim_serves sample_request no_pins claim"
proof -
  obtain res R' w' where r: "sample_result = (Inr res, R', w')" "rs_status res = kSelected"
    using sample_result_is by blast
  from winner_serves_request [OF r(1) [unfolded sample_result_def]] r show ?thesis by auto
qed

text \<open>C31. Decisions are cached: resolving the same request again, with any other probe, calls no probe,
  leaves the cache as it is and gives the same status, winner and instance.\<close>

theorem second_resolution_cached:
  assumes "config_lookup provider_config configs"
    and "resolve R request entries pins provider_config probe w = (Inr res, R', w')"
    and "resolve R' request entries pins provider_config (Some probe2) v = (res2, R2, v')"
  shows "v' = v \<and> route_cache R2 = route_cache R' \<and> (\<exists>r2. res2 = Inr r2 \<and> rs_status r2 = rs_status res
    \<and> rs_winner r2 = rs_winner res \<and> rs_winning_claim r2 = rs_winning_claim res
    \<and> rs_retained_instance r2 = rs_retained_instance res)"
  using assms by (rule resolve_twice)

definition crashing_probe :: "nat probe_callback" where
  "crashing_probe preq w = (ThrewUnknown, Suc w)"

lemma second_resolution_cached_witness:
  "\<exists>res2 R2. resolve (fst (snd sample_result)) sample_request [sample_entry ''b'' ''*'', sample_entry ''a'' ''T'']
      no_pins (Some sample_lookup) (Some crashing_probe) 0 = (Inr res2, R2, 0) \<and> rs_status res2 = kSelected"
proof -
  obtain res R' w' where r: "sample_result = (Inr res, R', w')" "rs_status res = kSelected"
    using sample_result_is by blast
  obtain res2 R2 v' where s: "resolve R' sample_request [sample_entry ''b'' ''*'', sample_entry ''a'' ''T'']
      no_pins (Some sample_lookup) (Some crashing_probe) 0 = (res2, R2, v')"
    by (metis prod_cases3)
  from second_resolution_cached [OF sample_config_lookup r(1) [unfolded sample_result_def] s] r(2) s
  show ?thesis unfolding r(1) fst_conv snd_conv by auto
qed

text \<open>C32. Version precedence is the one that semantic versioning prescribes: of two texts that parse, the comparison is
  that of their ranks, major, minor and patch as numbers of any length, a release above its pre-releases, identifiers of
  digits by their numbers and below the others. Only equal versions tie, and build metadata that is valid is not part
  of a version.\<close>

theorem semver_precedence_linear:
  assumes "parse_semver s = Inr a" and "parse_semver t = Inr b"
  shows "(compare_semver a b = Less \<longleftrightarrow> semver_rank a < semver_rank b)
    \<and> (compare_semver a b = Greater \<longleftrightarrow> semver_rank b < semver_rank a)
    \<and> (compare_semver a b = Equal \<longleftrightarrow> a = b)
    \<and> (if CHR ''+'' \<in> set s \<or> (\<exists>e. parseIdentifiers build ''build metadata'' False = Inl e) then True
       else parse_semver (s @ CHR ''+'' # build) = Inr a)"
proof -
  have "s \<noteq> []" using assms(1) by (auto simp: parse_semver_def)
  then have "parse_semver (s @ CHR ''+'' # build) = Inr a"
    if "CHR ''+'' \<notin> set s" "parseIdentifiers build ''build metadata'' False = Inr ids" for ids
    using parse_semver_build [OF that(1)] that(2) assms(1) by simp
  then have "if CHR ''+'' \<in> set s \<or> (\<exists>e. parseIdentifiers build ''build metadata'' False = Inl e) then True
      else parse_semver (s @ CHR ''+'' # build) = Inr a"
    by (cases "parseIdentifiers build ''build metadata'' False") auto
  moreover have "compare_semver a b = Equal \<longleftrightarrow> a = b" by (simp add: compare_semver_key semver_key_inject)
  ultimately show ?thesis
    using compare_semver_rank [OF parse_semver_numbers [OF assms(1)] parse_semver_numbers [OF assms(2)]] by simp
qed

lemma semver_precedence_linear_witness:
  "compare_semver \<lparr>sv_major = ''1'', sv_minor = ''9'', sv_patch = ''0'', sv_prerelease = []\<rparr>
     \<lparr>sv_major = ''1'', sv_minor = ''10'', sv_patch = ''0'', sv_prerelease = [''rc'', ''2'']\<rparr> = Less"
proof -
  let ?a = "\<lparr>sv_major = ''1'', sv_minor = ''9'', sv_patch = ''0'', sv_prerelease = []\<rparr>"
  let ?b = "\<lparr>sv_major = ''1'', sv_minor = ''10'', sv_patch = ''0'', sv_prerelease = [''rc'', ''2'']\<rparr>"
  have "parse_semver ''1.9.0'' = Inr ?a" "parse_semver ''1.10.0-rc.2'' = Inr ?b" by code_simp+
  note order = semver_precedence_linear [OF this, of "[]"]
  have "semver_rank ?a < semver_rank ?b" by code_simp
  with order show ?thesis by blast
qed

section \<open>Parser policies\<close>

text \<open>C33. The detector of timestamp columns, one loop over the candidates with cascading passes, is the first
  hit of a list of preferences: a native timestamp first, then the names in the order of the policy, each
  exact before case-insensitive; list elements and columns that cannot carry the unit are never taken.\<close>

theorem timestamp_detection_by_preference:
  "detectTimestampColumn candidates policy = first_by_preference (preference_tests policy) candidates"
  by (rule detect_by_preference)

text \<open>An array limit survives its configuration object: what was written is read back, whatever the
  object held before, in the new keys and in the ones that older versions read.\<close>

theorem array_limit_roundtrip:
  assumes "json_objects J" and "is_object J cfg"
  shows "arrayLimitFromJson J (arrayLimitToJson J cfg limit) = limit"
  using assms by (rule arrayLimit_roundtrip)


definition sample_config :: "sample_json json_config" where
  "sample_config = sample_library SNull"

lemma sample_config_objects: "json_objects sample_config"
proof -
  have "is_object sample_config obj \<Longrightarrow> is_object sample_config (json_set sample_config obj k v)
      \<and> json_find sample_config (json_set sample_config obj k v) k' = (if k' = k then Some v else json_find sample_config obj k')"
    for obj k v k'
    by (cases obj) (simp_all add: sample_config_def sample_library_def)
  moreover have "is_string sample_config (json_of_string sample_config s) \<and> get_string sample_config (json_of_string sample_config s) = s" for s
    by (simp add: sample_config_def sample_library_def)
  moreover have "is_number_integer sample_config (json_of_u32 sample_config n)
      \<and> get_i64 sample_config (json_of_u32 sample_config n) = ucast n" for n
    by (simp add: sample_config_def sample_library_def)
  moreover have "is_boolean sample_config (json_of_bool sample_config b) \<and> get_bool sample_config (json_of_bool sample_config b) = b" for b
    by (simp add: sample_config_def sample_library_def)
  ultimately show ?thesis unfolding json_objects_def by blast
qed

lemma array_limit_roundtrip_witness:
  "arrayLimitFromJson sample_config (arrayLimitToJson sample_config (SObject [(''array_policy'', SText ''clamp'')])
     \<lparr>al_max_size = 12, al_policy = kSkip\<rparr>) = \<lparr>al_max_size = 12, al_policy = kSkip\<rparr>"
  by (rule array_limit_roundtrip [OF sample_config_objects]) (simp add: sample_config_def sample_library_def)

section \<open>The dispatcher over all object types\<close>

text \<open>C34. Round trip of the type-erased object: whatever \<open>serializeBuiltinObject\<close> writes for an object
  that its codec can carry, \<open>deserializeBuiltinObject\<close> reads back under the object's own tag, with
  the byte payloads owned by the new object and everything else unchanged.\<close>

theorem builtin_object_roundtrip:
  assumes "builtin_ok obj" and "serializeBuiltinObject obj = Inr bs" and "fits bs"
  shows "deserializeBuiltinObject nan_cast (typeValue (typeOf obj)) (Buffer bs) = Inr (decoded_object obj)"
  using assms by (rule deserialize_serializeBuiltinObject)

definition sample_log :: Log where
  "sample_log = \<lparr>log_timestamp_ns = 1500000000, log_level = Level.kError, log_message = [72, 105], log_name = [110]\<rparr>"

lemma builtin_object_roundtrip_witness:
  "deserializeBuiltinObject (\<lambda>_. 0) 16 (Buffer (serializeLog sample_log)) = Inr (ObjLog sample_log)"
proof -
  have "fits (serializeLog sample_log)" by (rule fits_short) code_simp
  then show ?thesis
    using builtin_object_roundtrip [of "ObjLog sample_log" "serializeLog sample_log" "\<lambda>_. 0"]
    by (simp add: serializeBuiltinObject_def serializeAs_def)
qed

text \<open>The dispatcher serializes every object except the empty one, for which it reports an error.\<close>

theorem serialize_builtin_total:
  "(\<exists>bs. serializeBuiltinObject obj = Inr bs) \<longleftrightarrow> obj \<noteq> EmptyObject"
  by (cases obj) (simp_all add: serializeBuiltinObject_def serializeAs_def)

text \<open>C35. A decoded object is never empty and carries the very tag that the caller asked for.\<close>

theorem deserialize_builtin_tag:
  assumes "deserializeBuiltinObject nan_cast v data = Inr obj"
  shows "obj \<noteq> EmptyObject \<and> typeValue (typeOf obj) = v"
  using assms by (rule deserializeBuiltinObject_tag)

lemma deserialize_builtin_tag_witness:
  "\<exists>obj. deserializeBuiltinObject (\<lambda>_. 0) 17 (NullBuffer 0) = Inr obj \<and> typeValue (typeOf obj) = 17"
proof -
  have "deserializeBuiltinObject (\<lambda>_. 0) 17 (NullBuffer 0) = Inr (ObjPosesInFrame default_PosesInFrame)"
    by (simp add: deserializeBuiltinObject_def deserializeAs_def type_of_value_def)
  then show ?thesis using deserialize_builtin_tag by blast
qed

text \<open>An empty payload decodes exactly for the tags of the enumeration other than \<open>kNone\<close>: it is
  the encoding of a default object there, and an error for any other number.\<close>

theorem empty_payload_iff_known_tag:
  "(\<exists>obj. deserializeBuiltinObject nan_cast v (NullBuffer 0) = Inr obj)
    \<longleftrightarrow> v \<in> {1, 3, 4, 5, 6, 7, 8, 9, 10, 11, 13, 14, 15, 16, 17, 18, 19, 20}"
  by (auto simp: deserializeBuiltinObject_def type_of_value_def deserializeAs_def)

text \<open>A null pointer with a size is an error for every tag.\<close>

theorem null_payload_rejected:
  assumes "n \<noteq> 0"
  shows "\<exists>e. deserializeBuiltinObject nan_cast v (NullBuffer n) = Inl e"
  using assms by (rule deserializeBuiltinObject_null)

lemma null_payload_rejected_witness:
  "\<exists>e. deserializeBuiltinObject (\<lambda>_. 0) 1 (NullBuffer 7) = Inl e"
  by (rule null_payload_rejected) simp

text \<open>Type names: \<open>parseBuiltinObjectType\<close> accepts exactly the strings that \<open>name\<close> produces and maps
  each back to its type.\<close>

theorem type_name_parses: "parseBuiltinObjectType s = Some t \<longleftrightarrow> s = type_name t"
  using parse_type_name_Some by auto

section \<open>The wire layer\<close>

text \<open>C36. \<open>readVarint\<close> accepts exactly the base-128 encodings of at most ten bytes whose value fits in 64
  bits, consumes exactly the encoding and returns its value.\<close>

theorem readVarint_accepts:
  "readVarint r = (Some v, r') \<longleftrightarrow>
    (\<exists>bs. r = bs @ r' \<and> leb128 bs \<and> length bs \<le> 10 \<and> leb_value bs = unat v)"
  by (rule readVarint_iff)

text \<open>A written varint has between one and ten bytes and reads back, whatever follows it.\<close>

theorem varint_roundtrip:
  "readVarint (appendVarint v @ rest) = (Some v, rest) \<and> appendVarint v \<noteq> [] \<and> length (appendVarint v) \<le> 10"
  using length_appendVarint_le [of 10 v] unsigned_less [of v, where 'a = nat] by simp

text \<open>A written tag reads back, for every non-zero field number and every wire type in use.\<close>

theorem tag_roundtrip:
  assumes "f \<noteq> 0" and "ty \<in> {kVarint, kFixed64, kLengthDelimited, kFixed32}"
  shows "readTag (w_tag f ty @ rest) = (Some \<lparr>tag_field = f, tag_type = ty\<rparr>, rest)"
  using assms by (rule readTag_w_tag)

lemma tag_roundtrip_witness:
  "readTag (w_tag 0xFFFFFFFF kFixed32 @ [1]) = (Some \<lparr>tag_field = 0xFFFFFFFF, tag_type = kFixed32\<rparr>, [1])"
  by (rule tag_roundtrip) simp_all

text \<open>Doubles and floats read back bit for bit, NaN payloads and signed zeros included.\<close>

theorem fixed_width_roundtrip:
  "readDouble (appendFixed64 d @ rest) = (Some d, rest) \<and> readFloat (appendFixed32 f @ rest) = (Some f, rest)"
  by simp

text \<open>\<open>readBytes\<close> succeeds exactly on a length prefix followed by that many bytes, returns those
  bytes and leaves the rest: it never reads past the end of the buffer.\<close>

theorem readBytes_exact:
  assumes "fits r"
  shows "readBytes r = (Some d, r') \<longleftrightarrow>
    (\<exists>bs. r = bs @ d @ r' \<and> leb128 bs \<and> length bs \<le> 10 \<and> leb_value bs = length d)"
  using assms by (rule readBytes_iff)

lemma readBytes_exact_witness: "readBytes [2, 7, 8, 9] = (Some [7, 8], [9])"
proof -
  have "\<exists>bs. [2, 7, 8, 9] = bs @ [7, 8] @ [9 :: u8] \<and> leb128 bs \<and> length bs \<le> 10 \<and> leb_value bs = length [7, 8 :: u8]"
    by (rule exI [of _ "[2]"]) simp
  then show ?thesis using readBytes_exact [of "[2, 7, 8, 9]" "[7, 8]" "[9]"] by (simp add: fits_short)
qed

text \<open>C37. Forward compatibility: a scene entity decoder skips any field whose number it does not know,
  of every wire type, and decodes the rest as if the field were not there.\<close>

theorem scene_entity_skips_unknown:
  assumes "15 < f" and "fits bs"
  shows "decodeSceneEntity nan_cast (w_varint f v @ rest) out = decodeSceneEntity nan_cast rest out
    \<and> decodeSceneEntity nan_cast (w_doubleField f d @ rest) out = decodeSceneEntity nan_cast rest out
    \<and> decodeSceneEntity nan_cast (w_floatField f g @ rest) out = decodeSceneEntity nan_cast rest out
    \<and> decodeSceneEntity nan_cast (w_bytes f bs @ rest) out = decodeSceneEntity nan_cast rest out"
proof -
  have "decodeSceneEntity_field nan_cast \<lparr>tag_field = f, tag_type = ty\<rparr> = decline" and "f \<noteq> 0" for ty
    using assms(1) by (auto simp: decodeSceneEntity_field_def)
  from entity_fields.skip_unknown [OF this] show ?thesis
    unfolding decodeSceneEntity_def using assms(2) by simp
qed

lemma scene_entity_skips_unknown_witness:
  "decodeSceneEntity (\<lambda>_. 0) (w_varint 16 5 @ w_bytes 1000 [1, 2]) default_SceneEntity = (True, default_SceneEntity)"
proof -
  have f: "fits [1, 2 :: u8]" by (rule fits_short) simp
  have "decodeSceneEntity (\<lambda>_. 0) (w_varint 16 5 @ w_bytes 1000 [1, 2]) default_SceneEntity
    = decodeSceneEntity (\<lambda>_. 0) (w_bytes 1000 [1, 2]) default_SceneEntity"
    using scene_entity_skips_unknown [of 16 "[]" "\<lambda>_. 0" 5] by simp
  also have "\<dots> = (True, default_SceneEntity)"
    using scene_entity_skips_unknown [of 1000 "[1, 2]" "\<lambda>_. 0", where rest = "[]"] f
    by (simp add: decodeSceneEntity_def entity_fields.parse_Nil)
  finally show ?thesis .
qed

section \<open>Timestamps, colours and messages\<close>

text \<open>Splitting a timestamp rounds towards minus infinity: the nanoseconds are between 0 and
  999999999 also for negative timestamps, and the parts add up to the timestamp.\<close>

theorem splitTimestamp_floor:
  "sint (parts_seconds (splitTimestamp t)) = sint t div 1000000000 \<and>
   sint (parts_nanos (splitTimestamp t)) = sint t mod 1000000000"
  using split_sint [of t] by simp

text \<open>Every 64-bit timestamp, negative ones included, makes the round trip through its message.\<close>

theorem timestamp_roundtrip: "decodeTimestamp (writeTimestamp t) out = (True, t)"
  by (rule timestamp.roundtrip) (simp_all add: fits_writeTimestamp)

text \<open>C38. The colour message is lossless on bytes: all \<open>2 ^ 32\<close> RGBA colours come back unchanged
  through the doubles between 0 and 1.\<close>

theorem color_roundtrip: "decodeColor nan_cast (writeColor c) out = (True, c)"
  by (cases c) (simp add: decodeColor_def writeColor_def color_fields.parse_simps field_actions
    decodeColor_field_def default_color_doubles_def)

text \<open>A batch of scene entities and deletions decodes to itself.\<close>

theorem scene_entities_roundtrip:
  assumes "fits (serializeSceneEntities s)" and "serializeSceneEntities s \<noteq> []"
  shows "deserializeSceneEntities nan_cast (Buffer (serializeSceneEntities s)) = Inr s"
  using assms by (intro scene_wire.roundtrip) simp_all

definition sample_scene :: SceneEntities where
  "sample_scene = \<lparr>scene_entities = [default_SceneEntity\<lparr>entity_id := [65], entity_axes := [default_AxesPrimitive]\<rparr>],
     scene_deletions = [default_SceneEntityDeletion\<lparr>deletion_type := kAll\<rparr>]\<rparr>"

lemma scene_entities_roundtrip_witness:
  "deserializeSceneEntities (\<lambda>_. 0) (Buffer (serializeSceneEntities sample_scene)) = Inr sample_scene"
proof (rule scene_entities_roundtrip)
  show "fits (serializeSceneEntities sample_scene)" by (rule fits_short) code_simp
  show "serializeSceneEntities sample_scene \<noteq> []"
    by (simp add: serializeSceneEntities_def sample_scene_def)
qed

text \<open>Encodings of scenes are unambiguous: two scenes with the same bytes are equal.\<close>

theorem scene_entities_injective:
  assumes "fits (serializeSceneEntities s)" and "serializeSceneEntities s = serializeSceneEntities t"
  shows "s = t"
proof (cases "serializeSceneEntities s = []")
  case True
  then show ?thesis using assms(2) by (cases s, cases t) (simp add: serializeSceneEntities_def)
next
  case False
  then show ?thesis using scene_wire.serialize_inj [of s t] assms by simp
qed

lemma scene_entities_injective_witness:
  "fits (serializeSceneEntities sample_scene) \<and>
   sample_scene = \<lparr>scene_entities = [default_SceneEntity\<lparr>entity_axes := [default_AxesPrimitive], entity_id := [65]\<rparr>],
     scene_deletions = [default_SceneEntityDeletion\<lparr>deletion_type := kAll\<rparr>]\<rparr>"
proof
  show f: "fits (serializeSceneEntities sample_scene)" by (rule fits_short) code_simp
  show "sample_scene = \<lparr>scene_entities = [default_SceneEntity\<lparr>entity_axes := [default_AxesPrimitive], entity_id := [65]\<rparr>],
     scene_deletions = [default_SceneEntityDeletion\<lparr>deletion_type := kAll\<rparr>]\<rparr>"
    by (rule scene_entities_injective [OF f]) code_simp
qed

text \<open>Image annotations decode to themselves when doubling the radius of each circle stays finite:
  the diameter on the wire is halved again exactly.\<close>

theorem image_annotations_roundtrip:
  assumes "\<forall>c \<in> set (ia_circles a). f64_exponent (ca_radius c) < 2046"
    and "fits (serializeImageAnnotations a)" and "serializeImageAnnotations a \<noteq> []"
  shows "deserializeImageAnnotations nan_cast (Buffer (serializeImageAnnotations a)) = Inr a"
  using assms by (intro image_annotations_wire.roundtrip) (simp_all add: annotations_ok_def)

definition sample_annotations :: ImageAnnotations where
  "sample_annotations = default_ImageAnnotations
     \<lparr>ia_circles := [default_CircleAnnotation], ia_timestamp := 7, ia_image_topic := [47, 99]\<rparr>"

lemma image_annotations_roundtrip_witness:
  "deserializeImageAnnotations (\<lambda>_. 0) (Buffer (serializeImageAnnotations sample_annotations)) = Inr sample_annotations"
proof (rule image_annotations_roundtrip)
  show "\<forall>c \<in> set (ia_circles sample_annotations). f64_exponent (ca_radius c) < 2046" by code_simp
  show "fits (serializeImageAnnotations sample_annotations)" by (rule fits_short) code_simp
  show "serializeImageAnnotations sample_annotations \<noteq> []"
    by (simp add: serializeImageAnnotations_def sample_annotations_def)
qed

text \<open>Plot markers decode to themselves, the empty set included: its encoding is the empty buffer,
  which this codec accepts.\<close>

theorem plot_markers_roundtrip:
  assumes "fits (serializePlotMarkers m)"
  shows "deserializePlotMarkers nan_cast (Buffer (serializePlotMarkers m)) = Inr m"
  using assms by (rule deserializePlotMarkers_serialize)

lemma plot_markers_roundtrip_witness:
  "deserializePlotMarkers (\<lambda>_. 0) (Buffer (serializePlotMarkers (default_PlotMarkers\<lparr>pms_markers := [default_PlotMarker]\<rparr>)))
    = Inr (default_PlotMarkers\<lparr>pms_markers := [default_PlotMarker]\<rparr>)"
  by (rule plot_markers_roundtrip, rule fits_short) code_simp

text \<open>A point cloud decodes to itself. With an anchor the decoded bytes stay owned by the caller's
  anchor, without one by a fresh copy; the rest of the cloud does not depend on it.\<close>

theorem point_cloud_roundtrip:
  assumes "fits (serializePointCloud c)"
  shows "deserializePointCloudView anchor (Buffer (serializePointCloud c)) =
    Inr (c\<lparr>pc_anchor := (if anchor = NoAnchor then OwnedCopy (pc_data c) else anchor)\<rparr>)"
  using assms point_cloud_wire.roundtrip [of c anchor]
  by (simp add: deserializePointCloudView_def owned_PointCloud_def cloud_owner_def serializePointCloud_def)

lemma point_cloud_roundtrip_witness:
  "deserializePointCloudView (CallerAnchor 3) (Buffer (serializePointCloud
      (default_PointCloud\<lparr>pc_fields := [default_PointField], pc_data := [1, 2, 3]\<rparr>)))
    = Inr (default_PointCloud\<lparr>pc_fields := [default_PointField], pc_data := [1, 2, 3], pc_anchor := CallerAnchor 3\<rparr>)"
proof -
  have "fits (serializePointCloud (default_PointCloud\<lparr>pc_fields := [default_PointField], pc_data := [1, 2, 3]\<rparr>))"
    by (rule fits_short) code_simp
  from point_cloud_roundtrip [OF this, of "CallerAnchor 3"] show ?thesis by simp
qed

text \<open>The view form of the video frame decoder gives the same frame as the copying form, except for
  the owner of the bytes.\<close>

theorem video_frame_view_roundtrip:
  assumes "fits (serializeVideoFrame f)"
  shows "deserializeVideoFrameView anchor (Buffer (serializeVideoFrame f)) = Inr (f\<lparr>vf_anchor := anchor\<rparr>)
    \<and> deserializeVideoFrame (Buffer (serializeVideoFrame f)) = Inr (f\<lparr>vf_anchor := OwnedCopy (vf_data f)\<rparr>)"
  using assms video_frame_view_wire.roundtrip [of f anchor] video_frame_wire.roundtrip [of f]
  by (simp add: owned_VideoFrame_def serializeVideoFrame_def)

lemma video_frame_view_roundtrip_witness:
  "deserializeVideoFrameView (CallerAnchor 0) (Buffer (serializeVideoFrame (default_VideoFrame\<lparr>vf_data := [9]\<rparr>)))
    = Inr (default_VideoFrame\<lparr>vf_data := [9], vf_anchor := CallerAnchor 0\<rparr>)"
proof -
  have "fits (serializeVideoFrame (default_VideoFrame\<lparr>vf_data := [9]\<rparr>))"
    by (rule fits_short) code_simp
  from video_frame_view_roundtrip [OF this, of "CallerAnchor 0"] show ?thesis by simp
qed

text \<open>An image decodes to itself, with the optional depth range present exactly when it was set.\<close>

theorem image_roundtrip:
  assumes "fits (serializeImage i)"
  shows "deserializeImage (Buffer (serializeImage i)) = Inr (i\<lparr>img_anchor := OwnedCopy (img_data i)\<rparr>)"
  using assms image_wire.roundtrip [of i] by (simp add: owned_Image_def serializeImage_def)

lemma image_roundtrip_witness:
  "deserializeImage (Buffer (serializeImage (default_Image\<lparr>img_compressed_depth_max := Some 1, img_data := [5]\<rparr>)))
    = Inr (default_Image\<lparr>img_compressed_depth_max := Some 1, img_data := [5], img_anchor := OwnedCopy [5]\<rparr>)"
proof -
  have "fits (serializeImage (default_Image\<lparr>img_compressed_depth_max := Some 1, img_data := [5]\<rparr>))"
    by (rule fits_short) code_simp
  from image_roundtrip [OF this] show ?thesis by simp
qed

text \<open>A camera calibration decodes to itself: the three fixed-size matrices and the distortion
  coefficients of any number.\<close>

theorem camera_info_roundtrip:
  assumes "length (cam_K c) = 9" and "length (cam_R c) = 9" and "length (cam_P c) = 12"
    and "fits (serializeCameraInfo c)"
  shows "deserializeCameraInfo (Buffer (serializeCameraInfo c)) = Inr c"
  using assms camera_info_wire.roundtrip [of c] by (simp add: serializeCameraInfo_def)

lemma camera_info_roundtrip_witness:
  "deserializeCameraInfo (Buffer (serializeCameraInfo default_CameraInfo)) = Inr default_CameraInfo"
proof (rule camera_info_roundtrip)
  show "fits (serializeCameraInfo default_CameraInfo)"
    by (rule fits_short) code_simp
qed (simp_all add: default_CameraInfo_def)

section \<open>Grid maps\<close>

text \<open>C39. The layout check of grid maps is exact: computed in wrapping 64-bit arithmetic, it accepts
  precisely the layouts that are right in unbounded arithmetic, so no product overflows.\<close>

theorem validateGridMap_exact:
  assumes "fits (gm_data g)"
  shows "validateGridMap g = Inr () \<longleftrightarrow> grid_layout_ok g"
  using assms by (rule validateGridMap_iff)

definition sample_grid :: GridMap where
  "sample_grid = default_GridMap\<lparr>gm_column_count := 2, gm_row_count := 1, gm_cell_stride := 4, gm_row_stride := 8,
     gm_fields := [\<lparr>pf_name = [104], pf_offset = 0, pf_datatype = Datatype.kFloat32, pf_count = 1\<rparr>],
     gm_data := [0, 0, 0, 0, 0, 0, 0, 0]\<rparr>"

lemma validateGridMap_exact_witness: "grid_layout_ok sample_grid"
proof -
  have "fits (gm_data sample_grid)" by (simp add: sample_grid_def fits_short)
  moreover have "validateGridMap sample_grid = Inr ()" by code_simp
  ultimately show ?thesis using validateGridMap_exact by blast
qed

text \<open>C40. Memory safety of decoded grids: in a grid that was decoded together with its data, every
  element of every channel of every cell lies inside the data.\<close>

theorem decoded_grid_map_in_bounds:
  assumes "deserializeGridMap data = Inr g" and "gm_data g \<noteq> []" and "fits (gm_data g)"
    and "row < unat (gm_row_count g)" and "column < unat (gm_column_count g)"
    and "field \<in> set (gm_fields g)" and "i < unat (pf_count field)"
  shows "row * unat (gm_row_stride g) + column * unat (gm_cell_stride g) + unat (pf_offset field)
    + (i + 1) * unat (bytesPerElement (pf_datatype field)) \<le> length (gm_data g)"
proof -
  have "validateGridMap g = Inr ()"
    using assms(1,2) by (auto simp: deserializeGridMap_def validateGridMap_def
      split: if_splits prod.splits sum.splits)
  then have "grid_layout_ok g" using validateGridMap_iff [OF assms(3)] by simp
  from grid_layout_in_bounds [OF this assms(4-7)] show ?thesis by (simp add: element_end_def)
qed

lemma decoded_grid_map_in_bounds_witness:
  "deserializeGridMap (Buffer (serializeGridMap sample_grid)) = Inr (owned_GridMap sample_grid)
    \<and> 0 * 8 + 1 * 4 + 0 + (0 + 1) * 4 \<le> length (gm_data sample_grid)"
proof -
  have d: "deserializeGridMap (Buffer (serializeGridMap sample_grid)) = Inr (owned_GridMap sample_grid)"
  proof (rule grid_map_wire.roundtrip)
    show "validateLayout sample_grid (gm_data sample_grid \<noteq> []) = Inr ()" by code_simp
    show "fits (serializeGridMap sample_grid)" by (rule fits_short) code_simp
  qed (simp add: serializeGridMap_def)
  have "fits (gm_data (owned_GridMap sample_grid))"
    by (simp add: owned_GridMap_def sample_grid_def fits_short)
  from decoded_grid_map_in_bounds [OF d _ this, of 0 1
      "\<lparr>pf_name = [104], pf_offset = 0, pf_datatype = Datatype.kFloat32, pf_count = 1\<rparr>" 0]
  show ?thesis using d by (simp add: owned_GridMap_def sample_grid_def)
qed

text \<open>A grid map with a valid layout decodes to itself; a grid without data (the bytes are attached
  later) only has to have a valid channel and stride layout.\<close>

theorem grid_map_roundtrip:
  assumes "validateLayout g (gm_data g \<noteq> []) = Inr ()" and "fits (serializeGridMap g)"
  shows "deserializeGridMap (Buffer (serializeGridMap g)) = Inr (g\<lparr>gm_anchor := OwnedCopy (gm_data g)\<rparr>)"
  using assms grid_map_wire.roundtrip [of g] by (simp add: owned_GridMap_def serializeGridMap_def)

lemma grid_map_roundtrip_witness:
  "deserializeGridMap (Buffer (serializeGridMap (sample_grid\<lparr>gm_data := []\<rparr>)))
    = Inr (sample_grid\<lparr>gm_data := [], gm_anchor := OwnedCopy []\<rparr>)"
proof -
  have v: "validateLayout (sample_grid\<lparr>gm_data := []\<rparr>) (gm_data (sample_grid\<lparr>gm_data := []\<rparr>) \<noteq> []) = Inr ()"
    by code_simp
  have "fits (serializeGridMap (sample_grid\<lparr>gm_data := []\<rparr>))" by (rule fits_short) code_simp
  from grid_map_roundtrip [OF v this] show ?thesis by simp
qed

section \<open>Times\<close>

text \<open>\<open>combineSecondsAndNanos\<close> is exact: it returns the sum whenever the nanoseconds are normalized and
  the sum is a 64-bit value, and nothing otherwise, although it computes without wider integers.\<close>

theorem combineSecondsAndNanos_exact:
  "combineSecondsAndNanos seconds nanos =
     (if 0 \<le> nanos \<and> nanos < 1000000000 \<and> int64 (seconds * 1000000000 + nanos)
      then Some (seconds * 1000000000 + nanos) else None)"
  by (rule combineSecondsAndNanos_eq)

text \<open>\<open>scaleToNanoseconds\<close> is exact: the product when it is a 64-bit value, nothing otherwise.\<close>

theorem scaleToNanoseconds_exact:
  "scaleToNanoseconds ticks unit =
     (if int64 (ticks * nanosecondsPer unit) then Some (ticks * nanosecondsPer unit) else None)"
  by (rule scaleToNanoseconds_eq)

text \<open>\<open>syntheticInstant\<close> is exact on 64-bit arguments: it returns \<open>anchor + interval * row\<close> when the row
  is not negative and neither the product nor the sum leaves the range, and nothing otherwise.\<close>

theorem syntheticInstant_exact:
  assumes "int64 anchor_ns" and "int64 interval_ns" and "int64 row"
  shows "syntheticInstant anchor_ns interval_ns row =
     (if 0 \<le> row \<and> int64 (interval_ns * row) \<and> int64 (anchor_ns + interval_ns * row)
      then Some (anchor_ns + interval_ns * row) else None)"
  using assms by (rule syntheticInstant_eq)

lemma syntheticInstant_exact_witness:
  "syntheticInstant 5 (- 0x8000000000000000) 1 = Some (5 - 0x8000000000000000)"
  using syntheticInstant_exact [of 5 "- 0x8000000000000000" 1] by (simp add: int64_defs)

text \<open>The synthetic axis stays in the span it was fitted to: for a span of at most the largest
  64-bit value, every row has an instant, between the first and the last timestamp.\<close>

theorem synthetic_axis_within_span:
  assumes "int64 first_ns" and "int64 last_ns" and "int64 rows" and "2 \<le> rows" and "first_ns < last_ns"
    and "last_ns - first_ns \<le> int64_max" and "0 \<le> row" and "row < rows"
  shows "\<exists>t. syntheticInstant first_ns (fitSyntheticInterval first_ns last_ns rows fallback_ns) row = Some t
    \<and> first_ns \<le> t \<and> t \<le> last_ns"
  using assms by (rule synthetic_axis_in_span)

lemma synthetic_axis_within_span_witness:
  "\<exists>t. syntheticInstant 10 (fitSyntheticInterval 10 20 4 kDefaultSyntheticIntervalNs) 3 = Some t \<and> 10 \<le> t \<and> t \<le> 20"
  by (rule synthetic_axis_within_span) (simp_all add: int64_defs)

section \<open>Names\<close>

text \<open>A preview set is recognized by its marker topic and by its object topic alike, and the object topic
  of any other marker topic is recognized exactly when that topic carries the preview infix.\<close>

theorem preview_topic_recognized:
  "isPreviewMarkerTopic (markerObjectTopicName (kPreviewMarkerTopic @ owner))
   \<and> isPreviewMarkerTopic (kPreviewMarkerTopic @ owner)
   \<and> (isPreviewMarkerTopic (markerObjectTopicName t) \<longleftrightarrow> prefix kPreviewMarkerTopic t)"
  by (simp add: isPreviewMarkerTopic_object)
    (simp add: isPreviewMarkerTopic_def kPreviewMarkerTopic_def kMarkerObjectTopicPrefix_def)

text \<open>The key of a series joins topic and field with exactly one slash, whether or not the field
  brings its own: both spellings of a field give the same key.\<close>

theorem markerSeriesKey_one_slash:
  assumes "field \<noteq> []" and "hd field \<noteq> CHR ''/''"
  shows "markerSeriesKey topic field = topic @ ''/'' @ field
    \<and> markerSeriesKey topic (''/'' @ field) = markerSeriesKey topic field"
  using assms by (simp add: markerSeriesKey_def)

lemma markerSeriesKey_one_slash_witness:
  "markerSeriesKey ''/sensor'' ''/data'' = ''/sensor/data''"
  using markerSeriesKey_one_slash [of "''data''" "''/sensor''"] by simp

text \<open>Image encodings: the parser accepts exactly the names and maps each back to its encoding.\<close>

theorem image_encoding_parses: "parseImageEncoding s = Some e \<longleftrightarrow> s = encoding_name e"
  using parseImageEncoding_Some by auto

section \<open>Where the decoders accept or lose input\<close>

text \<open>A truncated message can be accepted. The topic of this robot description announces five bytes
  where two follow; the failed read has already consumed the length, the loop then skips the field
  by reading a second length out of the payload, and the decoder reports success with an object
  that has lost the field.\<close>

theorem truncated_field_accepted:
  "deserializeRobotDescription (Buffer [0x12, 0x05, 0x01, 0x41]) = Inr default_RobotDescription"
  by code_simp

text \<open>An unknown varint field makes a point field unreadable: the decoder consumes its value before
  it looks at the number, and the loop skips a second value out of the field that follows. A
  valid point field with a short name is then rejected, whatever the unknown number and value.\<close>

theorem point_field_unknown_varint_rejected:
  assumes "f \<notin> {0, 1, 2, 3, 4}" and "length (pf_name x) < 8"
  shows "fst (decodePointField (w_varint f v @ writePointField x) out) = False"
  using assms by (rule decodePointField_unknown_varint)

lemma point_field_unknown_varint_rejected_witness:
  "fst (decodePointField (w_varint 5 1 @ writePointField default_PointField) default_PointField) = False"
  by (rule point_field_unknown_varint_rejected) (simp_all add: default_PointField_def)

text \<open>A colour component that is no number reaches the conversion to a byte unchanged: the byte is
  whatever the conversion of that value gives, which the language does not define.\<close>

theorem nan_color_component_reaches_cast:
  assumes "f64_is_nan v"
  shows "color_r (snd (decodeColor nan_cast (w_doubleField 1 v) out)) = nan_cast v
    \<and> fst (decodeColor nan_cast (w_doubleField 1 v) out)"
  using assms by (simp add: decodeColor_def color_fields.parse_simps field_actions decodeColor_field_def
    normalizedToByte_nan default_color_doubles_def)

lemma nan_color_component_reaches_cast_witness:
  "color_r (snd (decodeColor (\<lambda>_. 77) (w_doubleField 1 0x7FF8000000000000) default_ColorRGBA)) = 77"
proof -
  have "f64_is_nan 0x7FF8000000000000" by code_simp
  from nan_color_component_reaches_cast [OF this, where nan_cast = "\<lambda>_. 77" and out = default_ColorRGBA]
  show ?thesis by simp
qed

end
